(* ===== verification/Prelude.thy ===== *)
theory Prelude
  imports Main
begin

text \<open>
  Shared vocabulary of the development: fallible transactions over an explicit store,
  tables as lists of rows with conditional updates, and the generic facts about them that
  the component theories reuse.

  A service method of the program runs its statements inside \<open>runInTransaction\<close>: either
  every statement succeeds and the new database is committed, or one throws and nothing is
  written. A transaction is therefore a function from the store to either an error or a
  result with the new store; the error carries no store, which is the rollback.
\<close>

named_theorems tx_simps \<open>unfolding rules for running transactions\<close>
named_theorems table_simps \<open>facts about conditional updates of tables\<close>

section \<open>Transactions\<close>

type_synonym ('e, 's, 'a) tx = "'s \<Rightarrow> 'e + 'a \<times> 's"

definition return_tx :: "'a \<Rightarrow> ('e, 's, 'a) tx" where
  "return_tx x s = Inr (x, s)"

definition throw_tx :: "'e \<Rightarrow> ('e, 's, 'a) tx" where
  "throw_tx e s = Inl e"

text \<open>\<open>const x = await m; k\<close>: a throw in \<open>m\<close> skips \<open>k\<close>.\<close>

definition andThen :: "('e, 's, 'a) tx \<Rightarrow> ('a \<Rightarrow> ('e, 's, 'b) tx) \<Rightarrow> ('e, 's, 'b) tx" where
  "andThen m k s = (case m s of Inl e \<Rightarrow> Inl e | Inr r \<Rightarrow> k (fst r) (snd r))"

text \<open>\<open>if (!b) throw e;\<close>\<close>

definition require_tx :: "bool \<Rightarrow> 'e \<Rightarrow> ('e, 's, unit) tx" where
  "require_tx b e s = (if b then Inr ((), s) else Inl e)"

text \<open>\<open>if (x === null) throw e;\<close>, and the non-null result otherwise.\<close>

definition non_null :: "'a option \<Rightarrow> 'e \<Rightarrow> ('e, 's, 'a) tx" where
  "non_null x e s = (case x of None \<Rightarrow> Inl e | Some y \<Rightarrow> Inr (y, s))"

text \<open>A SELECT: reads the store and leaves it as it is.\<close>

definition read_tx :: "('s \<Rightarrow> 'a) \<Rightarrow> ('e, 's, 'a) tx" where
  "read_tx f s = Inr (f s, s)"

text \<open>A pure computation that may throw.\<close>

definition lift_tx :: "'e + 'a \<Rightarrow> ('e, 's, 'a) tx" where
  "lift_tx r s = (case r of Inl e \<Rightarrow> Inl e | Inr x \<Rightarrow> Inr (x, s))"

text \<open>\<open>try { m } catch (err) { throw h(err) }\<close>: a repository translating a driver error.\<close>

definition mapError :: "('d \<Rightarrow> 'e) \<Rightarrow> ('d, 's, 'a) tx \<Rightarrow> ('e, 's, 'a) tx" where
  "mapError h m s = (case m s of Inl e \<Rightarrow> Inl (h e) | Inr r \<Rightarrow> Inr r)"

text \<open>Sequencing of fallible pure computations.\<close>

definition bindE :: "'e + 'a \<Rightarrow> ('a \<Rightarrow> 'e + 'b) \<Rightarrow> 'e + 'b" where
  "bindE r k = (case r of Inl e \<Rightarrow> Inl e | Inr x \<Rightarrow> k x)"

text \<open>\<open>x ?? d\<close>\<close>

definition or_default :: "'a option \<Rightarrow> 'a \<Rightarrow> 'a" where
  "or_default x d = (case x of None \<Rightarrow> d | Some y \<Rightarrow> y)"

lemma bindE_simps [simp]: "bindE (Inl e) k = Inl e" "bindE (Inr x) k = k x"
  by (simp_all add: bindE_def)

lemma bindE_Inr [tx_simps]: "bindE r k = Inr y \<longleftrightarrow> (\<exists>x. r = Inr x \<and> k x = Inr y)"
  by (cases r) simp_all

lemma return_tx_Inr [tx_simps]: "return_tx x s = Inr r \<longleftrightarrow> r = (x, s)"
  by (auto simp: return_tx_def)

lemma throw_tx_Inr [tx_simps]: "throw_tx e s = Inr r \<longleftrightarrow> False"
  by (simp add: throw_tx_def)

lemma andThen_Inr [tx_simps]:
  "andThen m k s = Inr r \<longleftrightarrow> (\<exists>x s'. m s = Inr (x, s') \<and> k x s' = Inr r)"
  by (cases "m s") (auto simp: andThen_def)

lemma andThen_Inl:
  "andThen m k s = Inl e \<longleftrightarrow>
    m s = Inl e \<or> (\<exists>x s'. m s = Inr (x, s') \<and> k x s' = Inl e)"
  by (cases "m s") (auto simp: andThen_def)

lemma require_tx_Inr [tx_simps]: "require_tx b e s = Inr r \<longleftrightarrow> b \<and> r = ((), s)"
  by (auto simp: require_tx_def)

lemma non_null_Inr [tx_simps]: "non_null x e s = Inr r \<longleftrightarrow> (\<exists>y. x = Some y \<and> r = (y, s))"
  by (auto simp: non_null_def split: option.splits)

lemma read_tx_Inr [tx_simps]: "read_tx f s = Inr r \<longleftrightarrow> r = (f s, s)"
  by (auto simp: read_tx_def)

lemma lift_tx_Inr [tx_simps]: "lift_tx v s = Inr r \<longleftrightarrow> (\<exists>x. v = Inr x \<and> r = (x, s))"
  by (auto simp: lift_tx_def split: sum.splits)

lemma mapError_Inr [tx_simps]: "mapError h m s = Inr r \<longleftrightarrow> m s = Inr r"
  by (auto simp: mapError_def split: sum.splits)

lemmas tx_run =
  return_tx_def throw_tx_def andThen_def require_tx_def non_null_def read_tx_def lift_tx_def
  mapError_def

text \<open>
  \<open>for (let attempt = 1; ; attempt++) { try { return body } catch (err) { if (again(err) &&
  attempt < N) continue; throw err; } }\<close>: a failed attempt rolled back, so the next one
  starts from the same store.
\<close>

function retry ::
  "('e \<Rightarrow> bool) \<Rightarrow> nat \<Rightarrow> (nat \<Rightarrow> ('e, 's, 'a) tx) \<Rightarrow> nat \<Rightarrow> ('e, 's, 'a) tx" where
  "retry again n body attempt s =
    (case body attempt s of
       Inr r \<Rightarrow> Inr r
     | Inl e \<Rightarrow> if again e \<and> attempt < n then retry again n body (attempt + 1) s else Inl e)"
  by pat_completeness auto
termination
  by (relation "measure (\<lambda>(again, n, body, attempt, s). n - attempt)") auto

declare retry.simps [simp del]

lemma retry_Inr:
  "retry again n body k s = Inr r \<Longrightarrow> \<exists>j \<ge> k. body j s = Inr r"
proof (induction again n body k s rule: retry.induct)
  case (1 again n body k s)
  note step = retry.simps [of again n body k s]
  show ?case
  proof (cases "body k s")
    case (Inl e)
    with 1(2) have more: "again e \<and> k < n" "retry again n body (k + 1) s = Inr r"
      by (simp_all add: step split: if_splits)
    from 1(1) [OF Inl more] obtain j where "k + 1 \<le> j" "body j s = Inr r" by blast
    then show ?thesis by (intro exI [of _ j]) simp
  next
    case (Inr x)
    with 1(2) show ?thesis by (intro exI [of _ k]) (simp add: step)
  qed
qed

lemma retry_stops: "body k s = Inl e \<Longrightarrow> \<not> again e \<Longrightarrow> retry again n body k s = Inl e"
  by (simp add: retry.simps [of again n body k s])

text \<open>The error that ends the loop is one that is not retried, or the last attempt's.\<close>

lemma retry_Inl:
  "retry again n body k s = Inl e \<Longrightarrow> \<exists>j \<ge> k. body j s = Inl e \<and> (again e \<longrightarrow> n \<le> j)"
proof (induction again n body k s rule: retry.induct)
  case (1 again n body k s)
  note step = retry.simps [of again n body k s]
  show ?case
  proof (cases "body k s")
    case (Inl x)
    show ?thesis
    proof (cases "again x \<and> k < n")
      case True
      with 1(2) Inl have "retry again n body (k + 1) s = Inl e" by (simp add: step)
      from 1(1) [OF Inl True this] obtain j where
        "k + 1 \<le> j" "body j s = Inl e \<and> (again e \<longrightarrow> n \<le> j)" by blast
      then show ?thesis by (intro exI [of _ j]) simp
    next
      case False
      with 1(2) Inl have "x = e" by (auto simp: step)
      with False Inl show ?thesis by (intro exI [of _ k]) auto
    qed
  next
    case (Inr x)
    with 1(2) show ?thesis by (simp add: step)
  qed
qed

text \<open>
  What a whole transaction keeps when each of its statements keeps it: the rule behind the
  table constraints, which the database checks statement by statement.
\<close>

definition keeps :: "('s \<Rightarrow> bool) \<Rightarrow> ('e, 's, 'a) tx \<Rightarrow> bool" where
  "keeps I m \<longleftrightarrow> (\<forall>s x s'. I s \<longrightarrow> m s = Inr (x, s') \<longrightarrow> I s')"

lemma keepsI: "(\<And>s x s'. I s \<Longrightarrow> m s = Inr (x, s') \<Longrightarrow> I s') \<Longrightarrow> keeps I m"
  by (auto simp: keeps_def)

lemma keepsD: "keeps I m \<Longrightarrow> m s = Inr (x, s') \<Longrightarrow> I s \<Longrightarrow> I s'"
  by (auto simp: keeps_def)

named_theorems keeps_intros \<open>statement-wise preservation\<close>

lemma keeps_andThen [keeps_intros]:
  "keeps I m \<Longrightarrow> (\<And>x. keeps I (k x)) \<Longrightarrow> keeps I (andThen m k)"
  by (rule keepsI) (auto simp: andThen_Inr dest: keepsD)

lemma keeps_basic [keeps_intros]:
  "keeps I (return_tx x)" "keeps I (throw_tx e)" "keeps I (require_tx b e)"
  "keeps I (non_null v e)" "keeps I (read_tx f)" "keeps I (lift_tx r)"
  by (auto simp: keeps_def tx_simps)

lemma keeps_mapError [keeps_intros]: "keeps I m \<Longrightarrow> keeps I (mapError h m)"
  by (auto simp: keeps_def tx_simps)

lemma keeps_if [keeps_intros]:
  "keeps I m \<Longrightarrow> keeps I n \<Longrightarrow> keeps I (if b then m else n)"
  by simp

lemma keeps_retry [keeps_intros]:
  "(\<And>j. keeps I (body j)) \<Longrightarrow> keeps I (retry again n body k)"
  by (rule keepsI) (auto dest!: retry_Inr dest: keepsD)

lemma keeps_option [keeps_intros]:
  "keeps I m \<Longrightarrow> (\<And>x. keeps I (k x)) \<Longrightarrow> keeps I (case v of None \<Rightarrow> m | Some x \<Rightarrow> k x)"
  by (cases v) simp_all

section \<open>Tables\<close>

text \<open>
  \<open>UPDATE t SET f WHERE p RETURNING *\<close> touches exactly the rows that satisfy \<open>p\<close>;
  \<open>returned\<close> are the updated rows.
\<close>

definition update_rows :: "('r \<Rightarrow> bool) \<Rightarrow> ('r \<Rightarrow> 'r) \<Rightarrow> 'r list \<Rightarrow> 'r list" where
  "update_rows p f rs = map (\<lambda>r. if p r then f r else r) rs"

definition returned :: "('r \<Rightarrow> bool) \<Rightarrow> ('r \<Rightarrow> 'r) \<Rightarrow> 'r list \<Rightarrow> 'r list" where
  "returned p f rs = map f (filter p rs)"

definition delete_rows :: "('r \<Rightarrow> bool) \<Rightarrow> 'r list \<Rightarrow> 'r list" where
  "delete_rows p rs = filter (\<lambda>r. \<not> p r) rs"

definition row_by :: "('r \<Rightarrow> 'k) \<Rightarrow> 'k \<Rightarrow> 'r list \<Rightarrow> 'r option" where
  "row_by key k rs = List.find (\<lambda>r. key r = k) rs"

text \<open>\<open>const [row] = ...; row ?? null\<close>\<close>

definition first_row :: "'r list \<Rightarrow> 'r option" where
  "first_row rs = (case rs of [] \<Rightarrow> None | r # _ \<Rightarrow> Some r)"

lemma first_row_simps [simp]:
  "first_row [] = None" "first_row (r # rs) = Some r"
  by (simp_all add: first_row_def)

lemma row_by_simps [simp]:
  "row_by key k [] = None"
  "row_by key k (r # rs) = (if key r = k then Some r else row_by key k rs)"
  by (simp_all add: row_by_def)

lemma row_by_Some: "row_by key k rs = Some r \<Longrightarrow> r \<in> set rs \<and> key r = k"
  by (induction rs) (auto split: if_splits)

lemma row_by_None: "row_by key k rs = None \<longleftrightarrow> k \<notin> key ` set rs"
  by (induction rs) auto

lemma row_by_unique:
  "distinct (map key rs) \<Longrightarrow> row_by key k rs = Some r \<longleftrightarrow> r \<in> set rs \<and> key r = k"
  by (induction rs) (auto simp: image_iff)

lemma update_rows_simps [simp]:
  "update_rows p f [] = []"
  "update_rows p f (r # rs) = (if p r then f r else r) # update_rows p f rs"
  by (simp_all add: update_rows_def)

lemma returned_simps [simp]:
  "returned p f [] = []"
  "returned p f (r # rs) = (if p r then f r # returned p f rs else returned p f rs)"
  by (simp_all add: returned_def)

lemma set_update_rows [table_simps]:
  "r' \<in> set (update_rows p f rs) \<longleftrightarrow>
    (\<exists>r \<in> set rs. (p r \<and> r' = f r) \<or> (\<not> p r \<and> r' = r))"
  by (auto simp: update_rows_def)

lemma update_rows_append [simp]:
  "update_rows p f (rs @ ss) = update_rows p f rs @ update_rows p f ss"
  by (simp add: update_rows_def)

lemma length_update_rows [simp]: "length (update_rows p f rs) = length rs"
  by (simp add: update_rows_def)

lemma update_rows_none: "(\<And>r. r \<in> set rs \<Longrightarrow> \<not> p r) \<Longrightarrow> update_rows p f rs = rs"
  by (induction rs) auto

lemma map_update_rows:
  "(\<And>r. r \<in> set rs \<Longrightarrow> p r \<Longrightarrow> g (f r) = g r) \<Longrightarrow> map g (update_rows p f rs) = map g rs"
  by (induction rs) auto

lemma returned_empty: "returned p f rs = [] \<longleftrightarrow> (\<forall>r \<in> set rs. \<not> p r)"
  by (induction rs) auto

lemma first_row_returned:
  "first_row (returned p f rs) = Some r' \<Longrightarrow> \<exists>r \<in> set rs. p r \<and> r' = f r"
  by (induction rs) (auto split: if_splits)

lemma first_row_returned_None:
  "first_row (returned p f rs) = None \<longleftrightarrow> (\<forall>r \<in> set rs. \<not> p r)"
  by (induction rs) auto

text \<open>A keyed update: only the row with that key can change.\<close>

lemma row_by_update_rows:
  assumes "\<And>r. r \<in> set rs \<Longrightarrow> p r \<Longrightarrow> key (f r) = key r"
  shows "row_by key k (update_rows p f rs) =
    map_option (\<lambda>r. if p r then f r else r) (row_by key k rs)"
  using assms by (induction rs) auto

lemma row_by_append:
  "row_by key k (rs @ ss) = (case row_by key k rs of None \<Rightarrow> row_by key k ss | Some r \<Rightarrow> Some r)"
  by (induction rs) auto

text \<open>At most one row has a given key.\<close>

lemma filter_key:
  assumes "distinct (map key rs)"
  shows "filter (\<lambda>r. key r = k \<and> c r) rs =
    (case row_by key k rs of None \<Rightarrow> [] | Some r \<Rightarrow> if c r then [r] else [])"
  using assms
proof (induction rs)
  case (Cons a rs)
  have none: "filter (\<lambda>r. key r = key a \<and> c r) rs = []"
    using Cons.prems by (auto simp: filter_empty_conv image_iff)
  from Cons show ?case by (auto simp: none split: option.splits)
qed simp

lemma returned_key:
  assumes "distinct (map key rs)"
  shows "returned (\<lambda>r. key r = k \<and> c r) f rs =
    (case row_by key k rs of None \<Rightarrow> [] | Some r \<Rightarrow> if c r then [f r] else [])"
  by (simp add: returned_def filter_key [OF assms] split: option.splits)

section \<open>Sums over rows\<close>

text \<open>The total of a quantity over the rows of a table.\<close>

definition total_of :: "('r \<Rightarrow> int) \<Rightarrow> 'r list \<Rightarrow> int" where
  "total_of w rs = sum_list (map w rs)"

lemma total_simps [simp]:
  "total_of w [] = 0" "total_of w (r # rs) = w r + total_of w rs"
  "total_of w (rs @ ss) = total_of w rs + total_of w ss"
  by (simp_all add: total_of_def)

lemma total_update_rows_id:
  "(\<And>r. r \<in> set rs \<Longrightarrow> p r \<Longrightarrow> w (f r) = w r) \<Longrightarrow> total_of w (update_rows p f rs) = total_of w rs"
  by (induction rs) auto

text \<open>
  Updating the one row with a given key shifts a total by that row's change.
\<close>

lemma total_update_key:
  assumes "distinct (map key rs)" "r \<in> set rs" "p r"
    and same: "\<And>r'. r' \<in> set rs \<Longrightarrow> p r' \<Longrightarrow> key r' = key r"
  shows "total_of w (update_rows p f rs) = total_of w rs + (w (f r) - w r)"
  using assms
proof (induction rs)
  case (Cons a rs)
  show ?case
  proof (cases "a = r")
    case True
    have "\<not> p r'" if r': "r' \<in> set rs" for r'
    proof
      assume "p r'"
      then have "key r' = key a" using True r' Cons.prems(4) [of r'] by simp
      moreover have "key r' \<in> key ` set rs" using r' by (rule imageI)
      ultimately show False using Cons.prems(1) by simp
    qed
    with True Cons.prems(3) show ?thesis by (simp add: update_rows_none)
  next
    case False
    then have r: "r \<in> set rs" using Cons.prems(2) by simp
    have "\<not> p a"
    proof
      assume "p a"
      then have "key r = key a" using Cons.prems(4) [of a] by simp
      moreover have "key r \<in> key ` set rs" using r by (rule imageI)
      ultimately show False using Cons.prems(1) by simp
    qed
    moreover have "total_of w (update_rows p f rs) = total_of w rs + (w (f r) - w r)"
      using Cons.prems(1,4) by (intro Cons.IH r Cons.prems(3)) simp_all
    ultimately show ?thesis by simp
  qed
qed simp

lemma total_nonneg: "(\<And>r. r \<in> set rs \<Longrightarrow> 0 \<le> w r) \<Longrightarrow> 0 \<le> total_of w rs"
  by (induction rs) auto

lemma total_zero: "(\<And>r. r \<in> set rs \<Longrightarrow> w r = 0) \<Longrightarrow> total_of w rs = 0"
  by (induction rs) auto

lemma total_ge_row: "(\<And>r. r \<in> set rs \<Longrightarrow> 0 \<le> w r) \<Longrightarrow> r \<in> set rs \<Longrightarrow> w r \<le> total_of w rs"
proof (induction rs)
  case (Cons a rs)
  have "0 \<le> total_of w rs" by (rule total_nonneg) (simp add: Cons.prems(1))
  with Cons show ?case by fastforce
qed simp

lemma total_const: "total_of (\<lambda>_. c) rs = int (length rs) * c"
  by (induction rs) (simp_all add: algebra_simps)

lemma total_delete:
  "total_of w (delete_rows p rs) = total_of w rs - total_of (\<lambda>r. if p r then w r else 0) rs"
  by (induction rs) (auto simp: delete_rows_def)

lemma total_as_length:
  "total_of (\<lambda>r. if p r then 1 else 0) rs = int (length (filter p rs))"
  by (induction rs) auto

end
