(* ===== verification/JsText.thy ===== *)
theory JsText
  imports Prelude
begin

text \<open>
  JavaScript strings as the program handles them, and the text rules built on them:
  \<open>src/src/server/lib/digits.ts\<close>, \<open>attendee-name.ts\<close> and the string methods those rules
  call (\<open>trim\<close>, \<open>toUpperCase\<close>, whitespace replacement).

  A string is the list of its UTF-16 code units, so lengths are what \<open>.length\<close> returns and
  the Bangla, Arabic-Indic and Persian digits of ADR-060 are ordinary units.
\<close>

type_synonym jstr = "nat list"

definition lit :: "string \<Rightarrow> jstr" where
  "lit s = map of_char s"

section \<open>Character classes\<close>

definition is_digit :: "nat \<Rightarrow> bool" where
  "is_digit c \<longleftrightarrow> 48 \<le> c \<and> c \<le> 57"

definition is_upper :: "nat \<Rightarrow> bool" where
  "is_upper c \<longleftrightarrow> 65 \<le> c \<and> c \<le> 90"

definition is_lower :: "nat \<Rightarrow> bool" where
  "is_lower c \<longleftrightarrow> 97 \<le> c \<and> c \<le> 122"

text \<open>What \<open>\s\<close> matches and \<open>trim\<close> removes (ECMAScript WhiteSpace and LineTerminator).\<close>

definition is_space :: "nat \<Rightarrow> bool" where
  "is_space c \<longleftrightarrow> (9 \<le> c \<and> c \<le> 13) \<or> c = 32 \<or> c = 160 \<or> c = 5760 \<or>
    (8192 \<le> c \<and> c \<le> 8202) \<or> c = 8232 \<or> c = 8233 \<or> c = 8239 \<or> c = 8287 \<or>
    c = 12288 \<or> c = 65279"

definition trim :: "jstr \<Rightarrow> jstr" where
  "trim s = rev (dropWhile is_space (rev (dropWhile is_space s)))"

text \<open>\<open>.replace(/\s+/g, '')\<close>\<close>

definition remove_spaces :: "jstr \<Rightarrow> jstr" where
  "remove_spaces s = filter (\<lambda>c. \<not> is_space c) s"

text \<open>\<open>.replace(/\s+/g, ' ')\<close>: every run of whitespace becomes one space.\<close>

function collapse_spaces :: "jstr \<Rightarrow> jstr" where
  "collapse_spaces [] = []"
| "collapse_spaces (c # s) =
    (if is_space c then 32 # collapse_spaces (dropWhile is_space s)
     else c # collapse_spaces s)"
  by pat_completeness auto
termination
  by (relation "measure length") (auto simp: le_imp_less_Suc length_dropWhile_le)

text \<open>
  \<open>toUpperCase\<close> on one unit. ASCII letters map to their capitals; the units outside ASCII
  whose Unicode upper case contains an ASCII letter are listed; every other unit outside
  ASCII keeps a value outside ASCII and is left as it is (no rule of the program tells such
  units apart: the patterns accept ASCII only).
\<close>

definition UPPER_TO_ASCII :: "(nat \<times> jstr) list" where
  "UPPER_TO_ASCII =
    [(223, [83, 83]), (305, [73]), (329, [700, 78]), (383, [83]), (496, [74, 780]),
     (7830, [72, 817]), (7831, [84, 776]), (7832, [87, 778]), (7833, [89, 778]),
     (7834, [65, 702]), (64256, [70, 70]), (64257, [70, 73]), (64258, [70, 76]),
     (64259, [70, 70, 73]), (64260, [70, 70, 76]), (64261, [83, 84]), (64262, [83, 84])]"

definition upper_unit :: "nat \<Rightarrow> jstr" where
  "upper_unit c =
    (if is_lower c then [c - 32]
     else case map_of UPPER_TO_ASCII c of Some u \<Rightarrow> u | None \<Rightarrow> [c])"

definition toUpperCase :: "jstr \<Rightarrow> jstr" where
  "toUpperCase s = concat (map upper_unit s)"

section \<open>digits.ts\<close>

text \<open>The zero of each digit set people may type: Bangla, Arabic-Indic, Persian.\<close>

definition ZEROS :: "nat list" where
  "ZEROS = [2534, 1632, 1776]"

definition normalise_unit :: "nat \<Rightarrow> nat" where
  "normalise_unit c =
    (case List.find (\<lambda>z. z \<le> c \<and> c \<le> z + 9) ZEROS of
       None \<Rightarrow> c
     | Some z \<Rightarrow> 48 + (c - z))"

definition normaliseDigits :: "jstr \<Rightarrow> jstr" where
  "normaliseDigits s = map normalise_unit s"

definition BANGLA_ZERO :: nat where
  "BANGLA_ZERO = 2534"

definition toBanglaDigits :: "jstr \<Rightarrow> jstr" where
  "toBanglaDigits s = map (\<lambda>c. if is_digit c then BANGLA_ZERO + (c - 48) else c) s"

text \<open>\<open>Number.prototype.toString\<close> on a non-negative integer.\<close>

fun decimal :: "nat \<Rightarrow> jstr" where
  "decimal n = (if n < 10 then [48 + n] else decimal (n div 10) @ [48 + n mod 10])"

declare decimal.simps [simp del]

text \<open>
  \<open>.replace(/\B(?=(\d{k})+(?!\d))/g, ',')\<close> on a run of digits: a comma before every position
  whose distance to the end is a multiple of \<open>k\<close>, except the first.
\<close>

fun group_every :: "nat \<Rightarrow> bool \<Rightarrow> jstr \<Rightarrow> jstr" where
  "group_every k inside [] = []"
| "group_every k inside (c # s) =
    (if inside \<and> (length s + 1) mod k = 0 then [44, c] else [c]) @ group_every k True s"

datatype locale_code = En | Bn

definition groupDigits :: "int \<Rightarrow> locale_code \<Rightarrow> jstr" where
  "groupDigits whole loc =
    (let s = decimal (nat \<bar>whole\<bar>);
         sign = (if whole < 0 then [45] else [])
     in case loc of
          En \<Rightarrow> sign @ group_every 3 False s
        | Bn \<Rightarrow>
            (let last3 = drop (length s - 3) s;
                 rest = group_every 2 False (take (length s - 3) s)
             in sign @ toBanglaDigits (if rest \<noteq> [] then rest @ [44] @ last3 else last3)))"

definition plainDigits :: "nat \<Rightarrow> locale_code \<Rightarrow> jstr" where
  "plainDigits n loc = (case loc of Bn \<Rightarrow> toBanglaDigits (decimal n) | En \<Rightarrow> decimal n)"

section \<open>attendee-name.ts\<close>

definition NAME_MIN :: nat where "NAME_MIN = 2"
definition NAME_MAX :: nat where "NAME_MAX = 120"

definition normaliseAttendeeName :: "jstr \<Rightarrow> jstr option" where
  "normaliseAttendeeName raw =
    (let name = collapse_spaces (trim raw)
     in if length name < NAME_MIN \<or> length name > NAME_MAX then None else Some name)"

section \<open>Facts\<close>

lemma lit_simps [simp]: "lit [] = []" "lit (c # s) = of_char c # lit s"
  by (simp_all add: lit_def)

lemma normaliseDigits_simps [simp]:
  "normaliseDigits [] = []"
  "normaliseDigits (c # s) = normalise_unit c # normaliseDigits s"
  "normaliseDigits (s @ t) = normaliseDigits s @ normaliseDigits t"
  "length (normaliseDigits s) = length s"
  by (simp_all add: normaliseDigits_def)

lemma normalise_unit_eq:
  "normalise_unit c =
    (if 2534 \<le> c \<and> c \<le> 2543 then 48 + (c - 2534)
     else if 1632 \<le> c \<and> c \<le> 1641 then 48 + (c - 1632)
     else if 1776 \<le> c \<and> c \<le> 1785 then 48 + (c - 1776) else c)"
  by (simp add: normalise_unit_def ZEROS_def)

lemma normalise_unit_ascii: "c < 1632 \<Longrightarrow> normalise_unit c = c"
  by (simp add: normalise_unit_eq)

lemma normaliseDigits_ascii: "\<forall>c \<in> set s. c < 1632 \<Longrightarrow> normaliseDigits s = s"
  by (induction s) (auto simp: normalise_unit_ascii)

lemma normalise_unit_range: "normalise_unit c = c \<or> is_digit (normalise_unit c)"
  by (auto simp: normalise_unit_eq is_digit_def)

lemma normalise_unit_idem: "normalise_unit (normalise_unit c) = normalise_unit c"
  using normalise_unit_range [of c] by (auto simp: is_digit_def normalise_unit_ascii)

lemma normaliseDigits_idem: "normaliseDigits (normaliseDigits s) = normaliseDigits s"
  by (simp add: normaliseDigits_def normalise_unit_idem)

lemma normalise_bangla: "is_digit c \<Longrightarrow> normalise_unit (BANGLA_ZERO + (c - 48)) = c"
  by (auto simp: normalise_unit_eq BANGLA_ZERO_def is_digit_def)

lemma normaliseDigits_toBangla:
  "\<forall>c \<in> set s. c < 1632 \<Longrightarrow> normaliseDigits (toBanglaDigits s) = s"
  by (induction s) (auto simp: toBanglaDigits_def normalise_bangla normalise_unit_ascii)

lemma toUpperCase_simps [simp]:
  "toUpperCase [] = []" "toUpperCase (c # s) = upper_unit c @ toUpperCase s"
  "toUpperCase (s @ t) = toUpperCase s @ toUpperCase t"
  by (simp_all add: toUpperCase_def)

lemma upper_unit_fixed: "c < 97 \<Longrightarrow> upper_unit c = [c]"
  by (simp add: upper_unit_def is_lower_def UPPER_TO_ASCII_def)

lemma toUpperCase_fixed: "\<forall>c \<in> set s. c < 97 \<Longrightarrow> toUpperCase s = s"
  by (induction s) (simp_all add: upper_unit_fixed)

lemma upper_special_fixed:
  "(c, u) \<in> set UPPER_TO_ASCII \<Longrightarrow> toUpperCase u = u"
  by (auto simp: UPPER_TO_ASCII_def upper_unit_def is_lower_def)

lemma upper_unit_idem: "toUpperCase (upper_unit c) = upper_unit c"
proof (cases "is_lower c")
  case True
  then have "c - 32 < 97" by (auto simp: is_lower_def)
  then have "toUpperCase [c - 32] = [c - 32]" by (intro toUpperCase_fixed) simp
  with True show ?thesis by (simp add: upper_unit_def [of c])
next
  case False
  show ?thesis
  proof (cases "map_of UPPER_TO_ASCII c")
    case None
    with False show ?thesis by (simp add: upper_unit_def)
  next
    case (Some u)
    with False show ?thesis
      by (simp add: upper_unit_def upper_special_fixed [OF map_of_SomeD])
  qed
qed

lemma toUpperCase_idem: "toUpperCase (toUpperCase s) = toUpperCase s"
  by (induction s) (simp_all add: upper_unit_idem)

lemma decimal_digits: "c \<in> set (decimal n) \<Longrightarrow> is_digit c"
proof (induction n rule: decimal.induct)
  case (1 n)
  then show ?case
    by (subst (asm) decimal.simps) (auto simp: is_digit_def split: if_splits)
qed

lemma decimal_nonempty: "decimal n \<noteq> []"
  by (subst decimal.simps) simp

text \<open>Reading a decimal back.\<close>

definition read_decimal :: "jstr \<Rightarrow> nat" where
  "read_decimal s = foldl (\<lambda>n c. 10 * n + (c - 48)) 0 s"

lemma read_decimal_snoc: "read_decimal (s @ [c]) = 10 * read_decimal s + (c - 48)"
  by (simp add: read_decimal_def)

lemma read_decimal: "read_decimal (decimal n) = n"
proof (induction n rule: decimal.induct)
  case (1 n)
  show ?case
  proof (cases "n < 10")
    case True
    then show ?thesis by (subst decimal.simps) (simp add: read_decimal_def)
  next
    case False
    with 1 show ?thesis by (subst decimal.simps) (simp add: read_decimal_snoc)
  qed
qed

lemma decimal_inject: "decimal m = decimal n \<Longrightarrow> m = n"
  by (metis read_decimal)

lemma group_every_strip:
  "44 \<notin> set s \<Longrightarrow> filter (\<lambda>c. c \<noteq> 44) (group_every k b s) = s"
  by (induction k b s rule: group_every.induct) auto

lemma dropWhile_space_idem: "dropWhile is_space (dropWhile is_space s) = dropWhile is_space s"
  by (induction s) auto

lemma trim_plain: "(\<forall>c \<in> set s. \<not> is_space c) \<Longrightarrow> trim s = s"
proof -
  assume a: "\<forall>c \<in> set s. \<not> is_space c"
  have d: "dropWhile is_space t = t" if "\<forall>c \<in> set t. \<not> is_space c" for t
    using that by (cases t) auto
  from a show ?thesis by (simp add: trim_def d)
qed

lemma remove_spaces_plain: "(\<forall>c \<in> set s. \<not> is_space c) \<Longrightarrow> remove_spaces s = s"
  by (induction s) (auto simp: remove_spaces_def)

lemma remove_spaces_append [simp]:
  "remove_spaces (s @ t) = remove_spaces s @ remove_spaces t"
  by (simp add: remove_spaces_def)

end
