(* ===== verification/Errors.thy ===== *)
theory Errors
  imports JsText
begin

text \<open>
  The enumerations of the schema (\<open>src/src/db/schema.ts\<close>) and the errors the services
  throw (\<open>src/src/server/lib/errors.ts\<close>): one constructor per class, with the fields the
  class carries. Every raise of the modelled code is a value of \<open>app_error\<close>.
\<close>

section \<open>Enumerations\<close>

datatype event_status = Draft | Published | Archived

datatype order_status =
    PendingPayment | PendingVerification | Paid | Issued | Rejected | Expired | Cancelled

datatype promo_type = Percentage | Fixed

datatype ticket_status = TicketIssued | TicketCancelled

type_synonym uuid = nat

text \<open>Instants, in milliseconds since the epoch (\<open>Date.getTime()\<close>).\<close>

type_synonym instant = int

section \<open>Reasons carried by errors\<close>

datatype event_phase = NotOpen | OpenPhase | ClosingSoon | SoldOutPhase | Closed | Past

datatype sale_state = SoldOut | OpensLater | WindowEnded

datatype promo_refusal = UnknownCode | NotForTicketType | MakesTicketFree

datatype inventory_operation = OpRelease | OpConvertToSold | OpReleaseSold

datatype used_by = ByOrders | ByPromoCode

datatype cover_problem = CoverWrongType | CoverEmpty | CoverTooBig

datatype pass_refusal = NotPublished | WindowOver

datatype undo_refusal = UndoNotFound | UndoNotYours | UndoTooLate | UndoNotCheckedIn

datatype decision_refusal = DecNotFound | DecNotYours | DecTooLate | DecNotRefused

datatype publish_problem =
    NoTicketTypes | NoCoverImage | StartsInPast | RegistrationWindowInvalid

section \<open>What the database refuses\<close>

text \<open>
  Integrity violations as \<open>src/src/server/lib/pg-errors.ts\<close> tells them apart: by SQLSTATE
  class and constraint name.
\<close>

datatype pg_error =
    UniqueViolation string
  | CheckViolation string
  | ForeignKeyViolation string

definition isUniqueViolation :: "pg_error \<Rightarrow> string \<Rightarrow> bool" where
  "isUniqueViolation e c \<longleftrightarrow> e = UniqueViolation c"

definition isCheckViolation :: "pg_error \<Rightarrow> string \<Rightarrow> bool" where
  "isCheckViolation e c \<longleftrightarrow> e = CheckViolation c"

definition isForeignKeyViolation :: "pg_error \<Rightarrow> string \<Rightarrow> bool" where
  "isForeignKeyViolation e c \<longleftrightarrow> e = ForeignKeyViolation c"

section \<open>Application errors\<close>

datatype (plugins only: code size) app_error =
    EventSlugTakenError jstr
  | EventNotFoundError uuid
  | EventSlugNotFoundError jstr
  | InvalidEventTransitionError event_status event_status
  | EventNotPublishableError "publish_problem list"
  | EventStatusConflictError uuid
  | TicketTypeNotFoundError uuid
  | RestrictionTypesNotFoundError "uuid list"
  | TicketTypeCapacityTooLowError uuid
  | TicketTypeInUseError uuid used_by
  | InvalidQuantityError int
  | InventoryStateError uuid inventory_operation
  | SoldOutError uuid int
  | TooManyOpenOrdersError nat
  | InvalidOrderTransitionError order_status order_status
  | RegistrationClosedError event_phase
  | TicketTypeNotOnSaleError uuid sale_state
  | OrderNotFoundError uuid
  | OrderReferenceCollisionError jstr
  | AttendeeNamesMismatchError int int
  | TrxIdAlreadyUsedError jstr
  | HoldLapsedError uuid
  | OrderStatusConflictError uuid order_status
  | TicketCodeCollisionError "jstr list"
  | InvalidRejectionReasonError jstr
  | TrxIdChangedError uuid jstr "jstr option"
  | TicketNotFoundError uuid
  | TicketCodeNotFoundError jstr
  | TicketCancelledError jstr
  | RenameLockedError "instant option"
  | InvalidAttendeeNameError
  | TicketRenameConflictError jstr
  | PromoCodeNotValidError jstr promo_refusal
  | PromoCodeTakenError jstr
  | PromoCodeNotFoundError uuid
  | PromoCodeInUseError uuid
  | TicketCheckedInError jstr instant jstr
  | DoorPassNotFoundError uuid
  | DoorPassNotAllowedError pass_refusal
  | DoorPassCodeCollisionError
  | DoorScanIdTakenError uuid
  | CheckInUndoRefusedError undo_refusal
  | DoorDecisionRefusedError decision_refusal
  | DoorPassRevokedError uuid
  | CoverImageInvalidError cover_problem
  | CoverImageNotUploadedError jstr
  | SponsorLogoInvalidError jstr
  | SponsorNotFoundError uuid
  | SponsorPresentingConflictError
  | RangeError
  | PgError pg_error
  | MissingRowError uuid

text \<open>
  \<open>EventNotFoundError\<close> and \<open>TicketNotFoundError\<close> carry whatever the caller looked the row
  up by; a slug or code lookup has its own constructor here because ids and texts are
  different types, and a promo restriction's \<open>TicketTypeNotFoundError\<close> lists the ids it was
  given. \<open>RangeError\<close> is the one \<open>money.ts\<close> throws, \<open>MissingRowError\<close> the plain
  \<open>Error\<close> for a row a foreign key guarantees, and \<open>PgError\<close> a driver error no repository
  translates.
\<close>

type_synonym 'a result = "app_error + 'a"

end
