(* ===== verification/Money.thy ===== *)
theory Money
  imports Errors
begin

text \<open>
  Money, order totals and promo discounts: \<open>src/src/server/lib/money.ts\<close>, \<open>pricing.ts\<close> and
  \<open>promo.ts\<close>. Amounts are integer paisa.

  A JavaScript number that holds an integer up to \<open>MAX_SAFE_INTEGER\<close> is exact. The checks
  below compare the exact result with that bound; the double the program compares is
  the rounded one, and since rounding is monotone and \<open>2 ^ 53\<close> is itself a double, the two
  comparisons agree. Non-integer arguments, which the \<open>Number.isInteger\<close> tests
  refuse, are not values of type \<open>int\<close>.
\<close>

section \<open>money.ts\<close>

definition PAISA_PER_TAKA :: int where "PAISA_PER_TAKA = 100"

definition MAX_SAFE_INTEGER :: int where "MAX_SAFE_INTEGER = 2 ^ 53 - 1"

definition assertValidPaisa :: "int \<Rightarrow> unit result" where
  "assertValidPaisa paisa =
    (if paisa < 0 then Inl RangeError
     else if paisa > MAX_SAFE_INTEGER then Inl RangeError
     else Inr ())"

definition multiplyPaisa :: "int \<Rightarrow> int \<Rightarrow> int result" where
  "multiplyPaisa paisa quantity =
    bindE (assertValidPaisa paisa) (\<lambda>_.
    if quantity < 0 then Inl RangeError
    else let result = paisa * quantity
         in bindE (assertValidPaisa result) (\<lambda>_. Inr result))"

fun sumLoop :: "int \<Rightarrow> int list \<Rightarrow> int result" where
  "sumLoop running [] = bindE (assertValidPaisa running) (\<lambda>_. Inr running)"
| "sumLoop running (amount # rest) =
    bindE (assertValidPaisa amount) (\<lambda>_. sumLoop (running + amount) rest)"

definition sumPaisa :: "int list \<Rightarrow> int result" where
  "sumPaisa amounts = sumLoop 0 amounts"

definition percentOfPaisa :: "int \<Rightarrow> int \<Rightarrow> int result" where
  "percentOfPaisa paisa percent =
    bindE (assertValidPaisa paisa) (\<lambda>_.
    if percent < 0 \<or> percent > 100 then Inl RangeError
    else let scaled = paisa * percent
         in bindE (assertValidPaisa scaled) (\<lambda>_. Inr (scaled div 100)))"

definition pad2 :: "jstr \<Rightarrow> jstr" where
  "pad2 s = replicate (2 - length s) 48 @ s"

definition TAKA_SIGN :: jstr where "TAKA_SIGN = [2547]"

definition formatBDT :: "int \<Rightarrow> locale_code \<Rightarrow> jstr result" where
  "formatBDT paisa loc =
    bindE (assertValidPaisa paisa) (\<lambda>_.
    let takaPart = paisa div PAISA_PER_TAKA;
        paisaPart = pad2 (decimal (nat (paisa mod PAISA_PER_TAKA)));
        fraction = (case loc of Bn \<Rightarrow> toBanglaDigits paisaPart | En \<Rightarrow> paisaPart)
    in Inr (TAKA_SIGN @ groupDigits takaPart loc @ [46] @ fraction))"

definition formatDecimalBDT :: "int \<Rightarrow> jstr result" where
  "formatDecimalBDT paisa =
    bindE (assertValidPaisa paisa) (\<lambda>_.
    let takaPart = paisa div PAISA_PER_TAKA;
        paisaPart = paisa mod PAISA_PER_TAKA
    in Inr (decimal (nat takaPart) @ [46] @ pad2 (decimal (nat paisaPart))))"

text \<open>\<open>Math.round(a / b)\<close> for a non-negative \<open>a\<close>: halves go up.\<close>

definition round_div :: "int \<Rightarrow> int \<Rightarrow> int" where
  "round_div a b = (2 * a + b) div (2 * b)"

definition averagePaisa :: "int \<Rightarrow> int \<Rightarrow> int result" where
  "averagePaisa paisa count =
    bindE (assertValidPaisa paisa) (\<lambda>_.
    if count < 0 then Inl RangeError
    else if count = 0 then Inr 0
    else let result = round_div paisa count
         in bindE (assertValidPaisa result) (\<lambda>_. Inr result))"

section \<open>pricing.ts\<close>

record order_totals =
  unitPricePaisa :: int
  totQuantity :: int
  subtotalPaisa :: int
  discountPaisa :: int
  totalPaisa :: int

definition computeOrderTotals :: "int \<Rightarrow> int \<Rightarrow> int \<Rightarrow> order_totals result" where
  "computeOrderTotals unitPrice quantity discount =
    bindE (multiplyPaisa unitPrice quantity) (\<lambda>subtotal.
    bindE (assertValidPaisa discount) (\<lambda>_.
    let applied = min discount subtotal
    in bindE (sumPaisa [subtotal]) (\<lambda>sum.
       let tot = sum - applied
       in bindE (assertValidPaisa tot) (\<lambda>_.
          Inr \<lparr>unitPricePaisa = unitPrice, totQuantity = quantity,
               subtotalPaisa = subtotal, discountPaisa = applied, totalPaisa = tot\<rparr>))))"

section \<open>promo.ts\<close>

record promo_rule =
  pr_id :: uuid
  pr_code :: jstr
  pr_type :: promo_type
  pr_amount :: int
  pr_active :: bool
  pr_ticketTypeIds :: "uuid list"

definition normalisePromoCode :: "jstr \<Rightarrow> jstr" where
  "normalisePromoCode raw = toUpperCase (remove_spaces (normaliseDigits raw))"

definition code_edge :: "nat \<Rightarrow> bool" where
  "code_edge c \<longleftrightarrow> is_upper c \<or> is_digit c"

text \<open>\<open>^[A-Z0-9](?:[A-Z0-9-]{1,22})[A-Z0-9]$\<close>\<close>

definition PROMO_CODE_PATTERN :: "jstr \<Rightarrow> bool" where
  "PROMO_CODE_PATTERN s \<longleftrightarrow>
    3 \<le> length s \<and> length s \<le> 24 \<and> code_edge (hd s) \<and> code_edge (last s) \<and>
    list_all (\<lambda>c. code_edge c \<or> c = 45) s"

definition promoAppliesTo :: "promo_rule \<Rightarrow> uuid \<Rightarrow> bool" where
  "promoAppliesTo rule ticketTypeId \<longleftrightarrow>
    pr_ticketTypeIds rule = [] \<or> ticketTypeId \<in> set (pr_ticketTypeIds rule)"

definition promoDiscountPerTicket :: "promo_rule \<Rightarrow> int \<Rightarrow> int result" where
  "promoDiscountPerTicket rule unitPrice =
    (case pr_type rule of
       Percentage \<Rightarrow> percentOfPaisa unitPrice (pr_amount rule)
     | Fixed \<Rightarrow> Inr (min (pr_amount rule) unitPrice))"

definition promoDiscountPaisa :: "promo_rule \<Rightarrow> int \<Rightarrow> int \<Rightarrow> int result" where
  "promoDiscountPaisa rule unitPrice quantity =
    bindE (promoDiscountPerTicket rule unitPrice) (\<lambda>per. multiplyPaisa per quantity)"

text \<open>The event's ticket types, as (id, price) pairs in the caller's order.\<close>

definition judgePromo ::
  "promo_rule option \<Rightarrow> (uuid \<times> int) list \<Rightarrow> uuid \<Rightarrow> promo_refusal option result" where
  "judgePromo rule eventTicketTypes ticketTypeId =
    (case rule of
       None \<Rightarrow> Inr (Some UnknownCode)
     | Some r \<Rightarrow>
         if \<not> pr_active r then Inr (Some UnknownCode)
         else let covered = filter (\<lambda>t. promoAppliesTo r (fst t)) eventTicketTypes
              in if covered = [] then Inr (Some UnknownCode)
                 else (case List.find (\<lambda>t. fst t = ticketTypeId) covered of
                         None \<Rightarrow> Inr (Some NotForTicketType)
                       | Some chosen \<Rightarrow>
                           bindE (promoDiscountPerTicket r (snd chosen)) (\<lambda>d.
                           if d \<ge> snd chosen then Inr (Some MakesTicketFree) else Inr None)))"

definition describePromo :: "promo_rule \<Rightarrow> jstr result" where
  "describePromo rule =
    (case pr_type rule of
       Percentage \<Rightarrow> Inr (decimal (nat (pr_amount rule)) @ lit ''% off'')
     | Fixed \<Rightarrow> bindE (formatBDT (pr_amount rule) En) (\<lambda>s. Inr (s @ lit '' off each ticket'')))"

section \<open>Facts\<close>

named_theorems money_defs \<open>unfolding the money rules\<close>

declare assertValidPaisa_def [money_defs] multiplyPaisa_def [money_defs]
  sumPaisa_def [money_defs] percentOfPaisa_def [money_defs]

definition valid_paisa :: "int \<Rightarrow> bool" where
  "valid_paisa p \<longleftrightarrow> 0 \<le> p \<and> p \<le> MAX_SAFE_INTEGER"

lemma assertValidPaisa_Inr [tx_simps]: "assertValidPaisa p = Inr u \<longleftrightarrow> valid_paisa p"
  by (simp add: assertValidPaisa_def valid_paisa_def)

lemma assertValidPaisa_valid: "valid_paisa p \<Longrightarrow> assertValidPaisa p = Inr ()"
  by (simp add: assertValidPaisa_Inr)

lemma assertValidPaisa_invalid: "\<not> valid_paisa p \<Longrightarrow> assertValidPaisa p = Inl RangeError"
  by (auto simp: assertValidPaisa_def valid_paisa_def)

lemma multiplyPaisa_Inr [tx_simps]:
  "multiplyPaisa p q = Inr r \<longleftrightarrow> valid_paisa p \<and> 0 \<le> q \<and> r = p * q \<and> valid_paisa r"
  by (auto simp: multiplyPaisa_def tx_simps Let_def)

lemma sumLoop_Inr:
  "sumLoop n ps = Inr r \<longleftrightarrow> list_all valid_paisa ps \<and> r = n + sum_list ps \<and> valid_paisa r"
  by (induction n ps rule: sumLoop.induct) (auto simp: tx_simps)

lemma sumPaisa_Inr [tx_simps]:
  "sumPaisa ps = Inr r \<longleftrightarrow> list_all valid_paisa ps \<and> r = sum_list ps \<and> valid_paisa r"
  by (simp add: sumPaisa_def sumLoop_Inr)

lemma percentOfPaisa_Inr [tx_simps]:
  "percentOfPaisa p c = Inr r \<longleftrightarrow>
    valid_paisa p \<and> 0 \<le> c \<and> c \<le> 100 \<and> valid_paisa (p * c) \<and> r = p * c div 100"
  by (auto simp: percentOfPaisa_def tx_simps Let_def)

lemma percent_le: "0 \<le> p \<Longrightarrow> c \<le> 100 \<Longrightarrow> p * c div 100 \<le> (p :: int)"
proof -
  assume "0 \<le> p" "c \<le> 100"
  then have "p * c \<le> p * 100" by (rule mult_left_mono [rotated])
  then have "p * c div 100 \<le> p * 100 div 100" by (rule zdiv_mono1) simp
  then show ?thesis by simp
qed

lemma computeOrderTotals_Inr:
  "computeOrderTotals u q d = Inr t \<longleftrightarrow>
    valid_paisa u \<and> 0 \<le> q \<and> valid_paisa (u * q) \<and> valid_paisa d \<and>
    t = \<lparr>unitPricePaisa = u, totQuantity = q, subtotalPaisa = u * q,
         discountPaisa = min d (u * q), totalPaisa = u * q - min d (u * q)\<rparr>"
  by (auto simp: computeOrderTotals_def tx_simps Let_def valid_paisa_def)

lemma promoDiscountPerTicket_bounds:
  assumes "promoDiscountPerTicket r p = Inr d" "0 \<le> p" "0 \<le> pr_amount r"
  shows "0 \<le> d \<and> d \<le> p"
proof (cases "pr_type r")
  case Percentage
  with assms have "d = p * pr_amount r div 100" "0 \<le> pr_amount r" "pr_amount r \<le> 100"
    by (simp_all add: promoDiscountPerTicket_def tx_simps)
  with assms show ?thesis by (simp add: percent_le pos_imp_zdiv_nonneg_iff)
next
  case Fixed
  with assms show ?thesis by (auto simp: promoDiscountPerTicket_def)
qed

end
