(* ===== verification/StatusRules.thy ===== *)
theory StatusRules
  imports Money
begin

text \<open>
  The two status machines (\<open>src/src/server/lib/order-status.ts\<close>, \<open>event-status.ts\<close>) and the
  inventory hold (\<open>hold.ts\<close>, \<open>order-rules.ts\<close>). The tables bound the moves; the services
  assert them before every status write, and the lemmas here say what the tables promise.
\<close>

section \<open>order-status.ts\<close>

fun ORDER_TRANSITIONS :: "order_status \<Rightarrow> order_status list" where
  "ORDER_TRANSITIONS PendingPayment = [PendingVerification, Expired]"
| "ORDER_TRANSITIONS PendingVerification = [Paid, Rejected, Expired]"
| "ORDER_TRANSITIONS Paid = [Issued]"
| "ORDER_TRANSITIONS Issued = [Cancelled]"
| "ORDER_TRANSITIONS Rejected = []"
| "ORDER_TRANSITIONS Expired = []"
| "ORDER_TRANSITIONS Cancelled = []"

definition isOrderTransitionAllowed :: "order_status \<Rightarrow> order_status \<Rightarrow> bool" where
  "isOrderTransitionAllowed frm to \<longleftrightarrow> to \<in> set (ORDER_TRANSITIONS frm)"

definition assertOrderTransition :: "order_status \<Rightarrow> order_status \<Rightarrow> unit result" where
  "assertOrderTransition frm to =
    (if \<not> isOrderTransitionAllowed frm to then Inl (InvalidOrderTransitionError frm to)
     else Inr ())"

definition holdsInventory :: "order_status \<Rightarrow> bool" where
  "holdsInventory st \<longleftrightarrow> st = PendingPayment \<or> st = PendingVerification"

definition REVENUE_STATUSES :: "order_status list" where
  "REVENUE_STATUSES = [Paid, Issued]"

section \<open>event-status.ts\<close>

fun EVENT_TRANSITIONS :: "event_status \<Rightarrow> event_status list" where
  "EVENT_TRANSITIONS Draft = [Published, Archived]"
| "EVENT_TRANSITIONS Published = [Draft, Archived]"
| "EVENT_TRANSITIONS Archived = [Draft]"

definition isEventTransitionAllowed :: "event_status \<Rightarrow> event_status \<Rightarrow> bool" where
  "isEventTransitionAllowed frm to \<longleftrightarrow> to \<in> set (EVENT_TRANSITIONS frm)"

definition assertEventTransition :: "event_status \<Rightarrow> event_status \<Rightarrow> unit result" where
  "assertEventTransition frm to =
    (if \<not> isEventTransitionAllowed frm to then Inl (InvalidEventTransitionError frm to)
     else Inr ())"

section \<open>hold.ts\<close>

definition HOLD_MINUTES :: int where "HOLD_MINUTES = 20"
definition HOLD_GRACE_MINUTES :: int where "HOLD_GRACE_MINUTES = 2"
definition MINUTE_MS :: int where "MINUTE_MS = 60000"

definition holdEndsAt :: "instant \<Rightarrow> instant" where
  "holdEndsAt createdAt = createdAt + HOLD_MINUTES * MINUTE_MS"

definition holdCutoff :: "instant \<Rightarrow> instant" where
  "holdCutoff holdExpiresAt = holdExpiresAt + HOLD_GRACE_MINUTES * MINUTE_MS"

definition lapsedBefore :: "instant \<Rightarrow> instant" where
  "lapsedBefore at = at - HOLD_GRACE_MINUTES * MINUTE_MS"

definition holdLapsed :: "order_status \<Rightarrow> instant option \<Rightarrow> instant \<Rightarrow> bool" where
  "holdLapsed st holdExpiresAt at \<longleftrightarrow>
    st = PendingPayment \<and>
    (case holdExpiresAt of None \<Rightarrow> False | Some h \<Rightarrow> holdCutoff h \<le> at)"

section \<open>order-rules.ts\<close>

definition MAX_TICKETS_PER_ORDER :: int where "MAX_TICKETS_PER_ORDER = 10"
definition MIN_TICKETS_PER_ORDER :: int where "MIN_TICKETS_PER_ORDER = 1"

definition isValidOrderQuantity :: "int \<Rightarrow> bool" where
  "isValidOrderQuantity quantity \<longleftrightarrow>
    MIN_TICKETS_PER_ORDER \<le> quantity \<and> quantity \<le> MAX_TICKETS_PER_ORDER"

section \<open>Status machines\<close>

text \<open>
  What the two tables are used for, over any finite table of moves: a service that asserts
  each move produces histories that are paths of the table, and a table whose moves all
  raise a rank has histories of bounded length that never come back to a status.
\<close>

fun path_of :: "('a \<Rightarrow> 'a list) \<Rightarrow> 'a \<Rightarrow> 'a list \<Rightarrow> bool" where
  "path_of T a [] = True"
| "path_of T a (b # bs) = (b \<in> set (T a) \<and> path_of T b bs)"

lemma path_of_append:
  "path_of T a (bs @ cs) \<longleftrightarrow> path_of T a bs \<and> path_of T (last (a # bs)) cs"
  by (induction bs arbitrary: a) auto

locale ranked_table =
  fixes moves :: "'a \<Rightarrow> 'a list" and rank :: "'a \<Rightarrow> nat" and top :: nat
  assumes raises: "b \<in> set (moves a) \<Longrightarrow> rank a < rank b"
    and below: "rank a \<le> top"
begin

lemma path_rank: "path_of moves a bs \<Longrightarrow> b \<in> set bs \<Longrightarrow> rank a < rank b"
proof (induction bs arbitrary: a)
  case (Cons c cs)
  then have "rank a < rank c" by (simp add: raises)
  moreover have "b = c \<or> rank c < rank b" using Cons by auto
  ultimately show ?case by auto
qed simp

lemma path_length: "path_of moves a bs \<Longrightarrow> rank a + length bs \<le> top"
proof (induction bs arbitrary: a)
  case (Cons c cs)
  then have "rank a < rank c" "rank c + length cs \<le> top" by (simp_all add: raises)
  then show ?case by simp
qed (simp add: below)

lemma never_back: "path_of moves a bs \<Longrightarrow> a \<notin> set bs"
  using path_rank [of a bs a] by blast

lemma path_distinct: "path_of moves a bs \<Longrightarrow> distinct (a # bs)"
proof (induction bs arbitrary: a)
  case (Cons c cs)
  then have "distinct (c # cs)" by (intro Cons.IH) simp
  moreover have "a \<notin> set (c # cs)" using Cons.prems by (rule never_back)
  ultimately show ?case by simp
qed simp

end

fun order_rank :: "order_status \<Rightarrow> nat" where
  "order_rank PendingPayment = 0"
| "order_rank PendingVerification = 1"
| "order_rank Paid = 2"
| "order_rank Issued = 3"
| "order_rank Rejected = 4"
| "order_rank Expired = 4"
| "order_rank Cancelled = 4"

interpretation order_machine: ranked_table ORDER_TRANSITIONS order_rank 4
proof unfold_locales
  show "b \<in> set (ORDER_TRANSITIONS a) \<Longrightarrow> order_rank a < order_rank b" for a b
    by (cases a) auto
  show "order_rank a \<le> 4" for a by (cases a) simp_all
qed

lemma isOrderTransitionAllowed_cases:
  "isOrderTransitionAllowed a b \<longleftrightarrow>
    (a, b) \<in> {(PendingPayment, PendingVerification), (PendingPayment, Expired),
      (PendingVerification, Paid), (PendingVerification, Rejected),
      (PendingVerification, Expired), (Paid, Issued), (Issued, Cancelled)}"
  by (cases a; cases b) (simp_all add: isOrderTransitionAllowed_def)

lemma assertOrderTransition_Inr [tx_simps]:
  "assertOrderTransition a b = Inr u \<longleftrightarrow> isOrderTransitionAllowed a b"
  by (simp add: assertOrderTransition_def)

lemma assertEventTransition_Inr [tx_simps]:
  "assertEventTransition a b = Inr u \<longleftrightarrow> isEventTransitionAllowed a b"
  by (simp add: assertEventTransition_def)

text \<open>
  The two readings of the hold agree: the row comparison of the repositories
  (\<open>hold_expires_at <= lapsedBefore(at)\<close>) and the page's \<open>holdLapsed\<close>.
\<close>

lemma holdCutoff_lapsedBefore: "holdCutoff h \<le> at \<longleftrightarrow> h \<le> lapsedBefore at"
  by (auto simp: holdCutoff_def lapsedBefore_def)

end
