(* ===== verification/SaleRules.thy ===== *)
theory SaleRules
  imports StatusRules
begin

text \<open>
  When a ticket type and an event sell: \<open>src/src/server/lib/ticket-type-sale-state.ts\<close>,
  \<open>event-phase.ts\<close>, \<open>registration-window.ts\<close>, \<open>publish-readiness.ts\<close>, \<open>event-offer.ts\<close> and
  \<open>home-events.ts\<close>. All are pure functions of rows and the clock.
\<close>

section \<open>ticket-type-sale-state.ts\<close>

record sale_state_input =
  si_quantityTotal :: int
  si_quantitySold :: int
  si_quantityReserved :: int
  si_salesStartsAt :: "instant option"
  si_salesEndsAt :: "instant option"

definition ticketTypeSaleState :: "sale_state_input \<Rightarrow> instant \<Rightarrow> sale_state option" where
  "ticketTypeSaleState t now =
    (if si_quantityTotal t - si_quantitySold t - si_quantityReserved t \<le> 0 then Some SoldOut
     else if (case si_salesStartsAt t of None \<Rightarrow> False | Some s \<Rightarrow> s > now)
       then Some OpensLater
     else if (case si_salesEndsAt t of None \<Rightarrow> False | Some e \<Rightarrow> e \<le> now)
       then Some WindowEnded
     else None)"

section \<open>registration-window.ts\<close>

definition DAY_MS :: int where "DAY_MS = 86400000"
definition REGISTRATION_OPENS_DAYS_BEFORE :: int where "REGISTRATION_OPENS_DAYS_BEFORE = 20"
definition REGISTRATION_CLOSES_DAYS_BEFORE :: int where "REGISTRATION_CLOSES_DAYS_BEFORE = 5"

text \<open>
  \<open>subDays\<close> of date-fns moves the local calendar day; the server runs in a zone without
  daylight saving, where a day is 24 hours (the file's own comment).
\<close>

definition subDays :: "instant \<Rightarrow> int \<Rightarrow> instant" where
  "subDays t n = t - n * DAY_MS"

definition defaultRegistrationWindow :: "instant \<Rightarrow> instant \<times> instant" where
  "defaultRegistrationWindow startsAt =
    (subDays startsAt REGISTRATION_OPENS_DAYS_BEFORE,
     subDays startsAt REGISTRATION_CLOSES_DAYS_BEFORE)"

section \<open>event-phase.ts\<close>

definition CLOSING_SOON_HOURS :: int where "CLOSING_SOON_HOURS = 48"
definition HOUR_MS :: int where "HOUR_MS = 3600000"

definition eventPhase ::
  "instant \<Rightarrow> instant option \<Rightarrow> instant option \<Rightarrow> int \<Rightarrow> instant \<Rightarrow> event_phase" where
  "eventPhase startsAt opensAt closesAt availableTotal now =
    (if startsAt \<le> now then Past
     else case (opensAt, closesAt) of
       (Some opens, Some closes) \<Rightarrow>
         if closes \<le> now then Closed
         else if opens > now then NotOpen
         else if availableTotal \<le> 0 then SoldOutPhase
         else if closes - now < CLOSING_SOON_HOURS * HOUR_MS then ClosingSoon
         else OpenPhase
     | _ \<Rightarrow> NotOpen)"

datatype ticket_availability = AvLeft int | AvSoldOut | AvClosed | AvNotStarted

definition ticketAvailability :: "sale_state_input \<Rightarrow> instant \<Rightarrow> ticket_availability" where
  "ticketAvailability t now =
    (case ticketTypeSaleState t now of
       Some SoldOut \<Rightarrow> AvSoldOut
     | Some WindowEnded \<Rightarrow> AvClosed
     | Some OpensLater \<Rightarrow> AvNotStarted
     | None \<Rightarrow> AvLeft (si_quantityTotal t - si_quantitySold t - si_quantityReserved t))"

section \<open>publish-readiness.ts\<close>

definition PUBLISH_CHECKS :: "publish_problem list" where
  "PUBLISH_CHECKS = [NoTicketTypes, NoCoverImage, StartsInPast, RegistrationWindowInvalid]"

definition windowValid :: "instant \<Rightarrow> instant option \<Rightarrow> instant option \<Rightarrow> bool" where
  "windowValid startsAt opensAt closesAt \<longleftrightarrow>
    (case (opensAt, closesAt) of
       (Some opens, Some closes) \<Rightarrow> opens < closes \<and> closes \<le> startsAt
     | _ \<Rightarrow> False)"

text \<open>\<open>!imageKey\<close> is true of null and of the empty string.\<close>

definition publishReadiness ::
  "instant \<Rightarrow> instant option \<Rightarrow> instant option \<Rightarrow> jstr option \<Rightarrow> int \<Rightarrow> instant
    \<Rightarrow> publish_problem list" where
  "publishReadiness startsAt opensAt closesAt imageKey ticketTypeCount now =
    (if ticketTypeCount < 1 then [NoTicketTypes] else []) @
    (if imageKey = None \<or> imageKey = Some [] then [NoCoverImage] else []) @
    (if startsAt \<le> now then [StartsInPast] else []) @
    (if \<not> windowValid startsAt opensAt closesAt then [RegistrationWindowInvalid] else [])"

section \<open>event-offer.ts\<close>

record offer_type = sale_state_input +
  of_id :: uuid
  of_name :: jstr
  of_pricePaisa :: int

definition state_of_offer :: "offer_type \<Rightarrow> sale_state_input" where
  "state_of_offer t = sale_state_input.truncate t"

record offer_summary =
  fromPricePaisa :: "int option"
  fromTypeName :: "jstr option"
  fromIsEarlyBird :: bool
  earlyBird :: "(uuid \<times> jstr \<times> instant) option"
  earlyBirdOnSale :: bool
  highlightId :: "uuid option"

definition runsToClose :: "instant \<Rightarrow> offer_type \<Rightarrow> bool" where
  "runsToClose close t \<longleftrightarrow>
    (case si_salesEndsAt t of None \<Rightarrow> True | Some e \<Rightarrow> close \<le> e)"

definition earlyBirdIds :: "offer_type list \<Rightarrow> instant option \<Rightarrow> uuid list" where
  "earlyBirdIds types close =
    (case close of
       None \<Rightarrow> []
     | Some c \<Rightarrow>
         (let fullWindow = filter (runsToClose c) types
          in if fullWindow = [] then []
             else let regularPaisa = Min (of_pricePaisa ` set fullWindow)
                  in map of_id (filter (\<lambda>t. \<not> runsToClose c t \<and> of_pricePaisa t < regularPaisa) types)))"

text \<open>The \<open>reduce\<close>: a strict comparison keeps the first of equal prices.\<close>

definition cheaper :: "offer_type option \<Rightarrow> offer_type \<Rightarrow> offer_type option" where
  "cheaper best t =
    (case best of
       None \<Rightarrow> Some t
     | Some b \<Rightarrow> if of_pricePaisa t < of_pricePaisa b then Some t else Some b)"

definition cheapest :: "offer_type list \<Rightarrow> offer_type option" where
  "cheapest types = foldl cheaper None types"

definition still_available :: "instant \<Rightarrow> offer_type \<Rightarrow> bool" where
  "still_available now t \<longleftrightarrow>
    ticketTypeSaleState (state_of_offer t) now \<in> {None, Some OpensLater}"

definition offerSummary ::
  "offer_type list \<Rightarrow> instant option \<Rightarrow> instant option \<Rightarrow> instant \<Rightarrow> offer_summary" where
  "offerSummary types opensAt closesAt now =
    (let ebIds = earlyBirdIds types closesAt;
         available = filter (still_available now) types;
         eb = first_row (sort_key (\<lambda>t. the (si_salesEndsAt t))
                (filter (\<lambda>t. si_salesEndsAt t \<noteq> None) (filter (\<lambda>t. of_id t \<in> set ebIds) available)));
         registrationOpen =
           (case (opensAt, closesAt) of
              (Some opens, Some closes) \<Rightarrow> opens \<le> now \<and> now < closes
            | _ \<Rightarrow> False);
         ebOnSale =
           (case eb of
              None \<Rightarrow> False
            | Some t \<Rightarrow> registrationOpen \<and> ticketTypeSaleState (state_of_offer t) now = None);
         frm = cheapest (if available \<noteq> [] then available else types)
     in \<lparr>fromPricePaisa = map_option of_pricePaisa frm,
         fromTypeName = map_option of_name frm,
         fromIsEarlyBird =
           (case (frm, eb) of (Some f, Some e) \<Rightarrow> of_id f = of_id e | _ \<Rightarrow> False),
         earlyBird = map_option (\<lambda>t. (of_id t, of_name t, the (si_salesEndsAt t))) eb,
         earlyBirdOnSale = ebOnSale,
         highlightId = (if ebOnSale \<and> length types > 1 then map_option of_id eb else None)\<rparr>)"

section \<open>home-events.ts\<close>

record home_event =
  he_id :: uuid
  he_status :: event_status
  he_startsAt :: instant
  he_registrationClosesAt :: "instant option"

record home_selection =
  featured :: "home_event option"
  alsoUpcoming :: "home_event list"
  upcomingTotal :: nat
  pastEvents :: "home_event list"

definition PAST_EVENTS_LIMIT :: nat where "PAST_EVENTS_LIMIT = 6"
definition UPCOMING_EVENTS_LIMIT :: nat where "UPCOMING_EVENTS_LIMIT = 6"

definition selectUpcomingEvents :: "home_event list \<Rightarrow> instant \<Rightarrow> home_event list" where
  "selectUpcomingEvents events now =
    sort_key he_startsAt (filter (\<lambda>e. he_status e = Published \<and> now \<le> he_startsAt e) events)"

definition registrationClosed :: "home_event \<Rightarrow> instant \<Rightarrow> bool" where
  "registrationClosed e now \<longleftrightarrow>
    (case he_registrationClosesAt e of None \<Rightarrow> False | Some c \<Rightarrow> c \<le> now)"

definition selectArchiveEvents :: "home_event list \<Rightarrow> instant \<Rightarrow> home_event list" where
  "selectArchiveEvents events now =
    sort_key (\<lambda>e. - he_startsAt e)
      (filter (\<lambda>e. he_status e \<noteq> Draft \<and> he_startsAt e < now) events)"

text \<open>
  \<open>upcoming.filter((e) => e !== featured)\<close> compares object identity; the featured object is
  the first of the list with its content, so dropping that one occurrence is the same.
\<close>

definition selectHomeEvents :: "home_event list \<Rightarrow> instant \<Rightarrow> home_selection" where
  "selectHomeEvents events now =
    (let upcoming = selectUpcomingEvents events now;
         feat = (case List.find (\<lambda>e. \<not> registrationClosed e now) upcoming of
                   Some e \<Rightarrow> Some e
                 | None \<Rightarrow> first_row upcoming);
         past = take PAST_EVENTS_LIMIT
           (sort_key (\<lambda>e. - he_startsAt e)
             (filter (\<lambda>e. he_status e \<noteq> Draft \<and> he_startsAt e < now) events))
     in \<lparr>featured = feat,
         alsoUpcoming = take UPCOMING_EVENTS_LIMIT
           (case feat of None \<Rightarrow> upcoming | Some f \<Rightarrow> remove1 f upcoming),
         upcomingTotal = length upcoming,
         pastEvents = past\<rparr>)"

section \<open>Facts\<close>

lemma ticketTypeSaleState_on_sale:
  "ticketTypeSaleState t now = None \<longleftrightarrow>
    0 < si_quantityTotal t - si_quantitySold t - si_quantityReserved t \<and>
    (\<forall>s. si_salesStartsAt t = Some s \<longrightarrow> s \<le> now) \<and>
    (\<forall>e. si_salesEndsAt t = Some e \<longrightarrow> now < e)"
  by (auto simp: ticketTypeSaleState_def split: option.splits)

lemma eventPhase_selling:
  "eventPhase st opens closes avail now \<in> {OpenPhase, ClosingSoon} \<longleftrightarrow>
    now < st \<and> 0 < avail \<and>
    (\<exists>a b. opens = Some a \<and> closes = Some b \<and> a \<le> now \<and> now < b)"
  by (auto simp: eventPhase_def split: option.splits)

lemma publishReadiness_Nil:
  "publishReadiness st opens closes key n now = [] \<longleftrightarrow>
    1 \<le> n \<and> (\<exists>k. key = Some k \<and> k \<noteq> []) \<and> now < st \<and> windowValid st opens closes"
  by (cases key) (auto simp: publishReadiness_def)

lemma publishReadiness_order:
  "\<exists>keep. publishReadiness st opens closes key n now = filter keep PUBLISH_CHECKS"
  by (rule exI [of _ "\<lambda>c. c \<in> set (publishReadiness st opens closes key n now)"])
    (simp add: publishReadiness_def PUBLISH_CHECKS_def)

lemma defaultRegistrationWindow_valid:
  "defaultRegistrationWindow st = (a, b) \<Longrightarrow> windowValid st (Some a) (Some b)"
  by (auto simp: defaultRegistrationWindow_def windowValid_def subDays_def DAY_MS_def
      REGISTRATION_OPENS_DAYS_BEFORE_def REGISTRATION_CLOSES_DAYS_BEFORE_def)

lemma foldl_cheaper_Some:
  "\<exists>m. foldl cheaper (Some b) ts = Some m \<and> m \<in> set (b # ts) \<and>
    (\<forall>t \<in> set (b # ts). of_pricePaisa m \<le> of_pricePaisa t)"
proof (induction ts arbitrary: b)
  case (Cons a ts)
  obtain c where c: "cheaper (Some b) a = Some c" "c = a \<or> c = b"
    "of_pricePaisa c \<le> of_pricePaisa a" "of_pricePaisa c \<le> of_pricePaisa b"
    by (cases "of_pricePaisa a < of_pricePaisa b") (auto simp: cheaper_def)
  from Cons.IH [of c] c show ?case by fastforce
qed simp

lemma cheapest_Some:
  "cheapest ts = Some m \<Longrightarrow> m \<in> set ts \<and> (\<forall>t \<in> set ts. of_pricePaisa m \<le> of_pricePaisa t)"
proof (cases ts)
  case (Cons a as)
  assume m: "cheapest ts = Some m"
  with foldl_cheaper_Some [of a as] show ?thesis
    by (simp add: cheapest_def Cons cheaper_def [of None])
qed (simp add: cheapest_def)

lemma cheapest_None: "cheapest ts = None \<longleftrightarrow> ts = []"
proof (cases ts)
  case (Cons a as)
  with foldl_cheaper_Some [of a as] show ?thesis by (auto simp: cheapest_def cheaper_def [of None])
qed (simp add: cheapest_def)

lemma selectUpcomingEvents_set:
  "e \<in> set (selectUpcomingEvents es now) \<longleftrightarrow>
    e \<in> set es \<and> he_status e = Published \<and> now \<le> he_startsAt e"
  by (auto simp: selectUpcomingEvents_def)

end
