(* ===== verification/Codes.thy ===== *)
theory Codes
  imports SaleRules
begin

text \<open>
  The codes people read, type and scan: \<open>src/src/server/lib/order-reference.ts\<close>,
  \<open>ticket-code.ts\<close>, \<open>ticket-code-format.ts\<close>, \<open>scan-token.ts\<close>, \<open>door-pass.ts\<close>,
  \<open>door-rules.ts\<close>, \<open>rejection-reasons.ts\<close> and the search terms of \<open>check-in.ts\<close>. Randomness
  is an argument: \<open>random i n\<close> is the i-th draw of \<open>randomInt(n)\<close>, which node documents to lie
  in \<open>[0, n)\<close>.
\<close>

section \<open>order-reference.ts and ticket-code.ts\<close>

definition ORDER_REFERENCE_ALPHABET :: jstr where
  "ORDER_REFERENCE_ALPHABET = lit ''ABCDEFGHJKMNPQRSTUVWXYZ23456789''"

definition ORDER_REFERENCE_LENGTH :: nat where "ORDER_REFERENCE_LENGTH = 6"
definition TICKET_CODE_LENGTH :: nat where "TICKET_CODE_LENGTH = 8"
definition PASS_CODE_LENGTH :: nat where "PASS_CODE_LENGTH = 12"

definition ORDER_REFERENCE_PREFIX :: jstr where "ORDER_REFERENCE_PREFIX = lit ''EA-''"
definition TICKET_CODE_PREFIX :: jstr where "TICKET_CODE_PREFIX = lit ''TKT-''"

definition code_symbols :: "nat \<Rightarrow> jstr \<Rightarrow> bool" where
  "code_symbols n s \<longleftrightarrow> length s = n \<and> list_all (\<lambda>c. c \<in> set ORDER_REFERENCE_ALPHABET) s"

definition ORDER_REFERENCE_PATTERN :: "jstr \<Rightarrow> bool" where
  "ORDER_REFERENCE_PATTERN s \<longleftrightarrow>
    take 3 s = ORDER_REFERENCE_PREFIX \<and> code_symbols 6 (drop 3 s)"

definition TICKET_CODE_PATTERN :: "jstr \<Rightarrow> bool" where
  "TICKET_CODE_PATTERN s \<longleftrightarrow> take 4 s = TICKET_CODE_PREFIX \<and> code_symbols 8 (drop 4 s)"

definition PASS_CODE_PATTERN :: "jstr \<Rightarrow> bool" where
  "PASS_CODE_PATTERN s \<longleftrightarrow> code_symbols 12 s"

text \<open>\<open>ALPHABET[i]\<close> appended to a string: past the end it is the text \<open>undefined\<close>.\<close>

definition alphabet_at :: "nat \<Rightarrow> jstr" where
  "alphabet_at i =
    (if i < length ORDER_REFERENCE_ALPHABET then [ORDER_REFERENCE_ALPHABET ! i]
     else lit ''undefined'')"

fun code_body :: "nat \<Rightarrow> (nat \<Rightarrow> nat \<Rightarrow> nat) \<Rightarrow> jstr" where
  "code_body 0 random = []"
| "code_body (Suc i) random =
    code_body i random @ alphabet_at (random i (length ORDER_REFERENCE_ALPHABET))"

definition generateOrderReference :: "(nat \<Rightarrow> nat \<Rightarrow> nat) \<Rightarrow> jstr" where
  "generateOrderReference random =
    ORDER_REFERENCE_PREFIX @ code_body ORDER_REFERENCE_LENGTH random"

definition generateTicketCode :: "(nat \<Rightarrow> nat \<Rightarrow> nat) \<Rightarrow> jstr" where
  "generateTicketCode random = TICKET_CODE_PREFIX @ code_body TICKET_CODE_LENGTH random"

section \<open>door-pass.ts and door-rules.ts\<close>

definition generatePassCode :: "(nat \<Rightarrow> nat \<Rightarrow> nat) \<Rightarrow> jstr" where
  "generatePassCode random = code_body PASS_CODE_LENGTH random"

definition normalisePassCode :: "jstr \<Rightarrow> jstr option" where
  "normalisePassCode raw =
    (let code = filter (\<lambda>c. \<not> is_space c \<and> c \<noteq> 45) (toUpperCase raw)
     in if PASS_CODE_PATTERN code then Some code else None)"

text \<open>
  \<open>.replace(/(.{4})(?=.)/g, '$1-')\<close>: a dash after every four characters that something
  follows (codes hold no line terminators, which \<open>.\<close> would not match).
\<close>

function formatPassCode :: "jstr \<Rightarrow> jstr" where
  "formatPassCode code =
    (if length code > 4 then take 4 code @ [45] @ formatPassCode (drop 4 code) else code)"
  by pat_completeness auto
termination
  by (relation "measure length") auto

declare formatPassCode.simps [simp del]

definition DOORS_OPEN_HOURS_BEFORE :: int where "DOORS_OPEN_HOURS_BEFORE = 4"
definition DEFAULT_EVENT_HOURS :: int where "DEFAULT_EVENT_HOURS = 6"
definition AFTER_END_GRACE_HOURS :: int where "AFTER_END_GRACE_HOURS = 6"

definition addHours :: "instant \<Rightarrow> int \<Rightarrow> instant" where
  "addHours t n = t + n * HOUR_MS"

record door_window =
  validFrom :: instant
  validUntil :: instant

definition doorWindow :: "instant \<Rightarrow> instant option \<Rightarrow> door_window" where
  "doorWindow startsAt endsAt =
    (let e = (case endsAt of Some e \<Rightarrow> e | None \<Rightarrow> addHours startsAt DEFAULT_EVENT_HOURS)
     in \<lparr>validFrom = addHours startsAt (- DOORS_OPEN_HOURS_BEFORE),
         validUntil = addHours e AFTER_END_GRACE_HOURS\<rparr>)"

definition SCAN_INPUT_MAX :: nat where "SCAN_INPUT_MAX = 512"
definition DOOR_UNDO_WINDOW_MS :: int where "DOOR_UNDO_WINDOW_MS = 2 * 60000"
definition SAME_GATE_SECONDS :: int where "SAME_GATE_SECONDS = 60"

datatype undo_reason = WrongPerson | MisTap | OtherReason

section \<open>scan-token.ts\<close>

definition url_char :: "nat \<Rightarrow> bool" where
  "url_char c \<longleftrightarrow> is_upper c \<or> is_lower c \<or> is_digit c \<or> c = 45"

definition TICKETS_PATH :: jstr where "TICKETS_PATH = lit ''/tickets/''"

text \<open>The first match of \<open>/\/tickets\/([A-Za-z0-9-]+)/\<close>: its captured group.\<close>

fun url_code :: "jstr \<Rightarrow> jstr option" where
  "url_code [] = None"
| "url_code (c # s) =
    (let run = takeWhile url_char (drop 9 (c # s))
     in if take 9 (c # s) = TICKETS_PATH \<and> run \<noteq> [] then Some run else url_code s)"

text \<open>\<open>.replace(/^XYZ-?/, '')\<close> for a prefix of letters.\<close>

definition strip_prefix :: "jstr \<Rightarrow> jstr \<Rightarrow> jstr" where
  "strip_prefix p s =
    (if take (length p) s = p
     then (let rest = drop (length p) s in if take 1 rest = [45] then drop 1 rest else rest)
     else s)"

definition parseScanToken :: "jstr \<Rightarrow> jstr option" where
  "parseScanToken raw =
    (if length raw = 0 \<or> length raw > SCAN_INPUT_MAX then None
     else let s = trim (normaliseDigits raw);
              s' = (case url_code s of Some m \<Rightarrow> m | None \<Rightarrow> s);
              upper = remove_spaces (toUpperCase s');
              code = TICKET_CODE_PREFIX @ strip_prefix (lit ''TKT'') upper
          in if TICKET_CODE_PATTERN code then Some code else None)"

definition scanLogInput :: "jstr \<Rightarrow> jstr option \<Rightarrow> jstr" where
  "scanLogInput raw code =
    (case code of
       Some c \<Rightarrow> c
     | None \<Rightarrow> lit ''<unparsed:len='' @ decimal (length raw) @ lit ''>'')"

section \<open>rejection-reasons.ts\<close>

datatype rejection_reason =
    NoMatchingCredit | AmountMismatch | TrxIdAlreadyUsed | SenderMismatch | DuplicateOrder
  | BuyerCancelled

definition reason_key :: "rejection_reason \<Rightarrow> jstr" where
  "reason_key r =
    (case r of
       NoMatchingCredit \<Rightarrow> lit ''no_matching_credit''
     | AmountMismatch \<Rightarrow> lit ''amount_mismatch''
     | TrxIdAlreadyUsed \<Rightarrow> lit ''trx_id_already_used''
     | SenderMismatch \<Rightarrow> lit ''sender_mismatch''
     | DuplicateOrder \<Rightarrow> lit ''duplicate_order''
     | BuyerCancelled \<Rightarrow> lit ''buyer_cancelled'')"

definition REJECTION_REASON_CODES :: "rejection_reason list" where
  "REJECTION_REASON_CODES =
    [NoMatchingCredit, AmountMismatch, TrxIdAlreadyUsed, SenderMismatch, DuplicateOrder,
     BuyerCancelled]"

definition parse_reason :: "jstr \<Rightarrow> rejection_reason option" where
  "parse_reason s = List.find (\<lambda>r. reason_key r = s) REJECTION_REASON_CODES"

definition isRejectionReason :: "jstr \<Rightarrow> bool" where
  "isRejectionReason s \<longleftrightarrow> parse_reason s \<noteq> None"

definition REJECTION_NOTE_MAX :: nat where "REJECTION_NOTE_MAX = 500"

section \<open>check-in.ts\<close>

record check_in_entry =
  ci_id :: uuid
  ci_attendeeName :: jstr
  ci_ticketTypeName :: jstr
  ci_code :: jstr
  ci_orderReference :: jstr

record check_in_query =
  q_name :: "jstr option"
  q_code :: "jstr option"
  q_reference :: "jstr option"

definition EMPTY_QUERY :: check_in_query where
  "EMPTY_QUERY = \<lparr>q_name = None, q_code = None, q_reference = None\<rparr>"

definition collapse :: "jstr \<Rightarrow> jstr" where
  "collapse s = collapse_spaces (trim s)"

text \<open>\<open>lower\<close> is \<open>toLowerCase\<close>, the Unicode table of the engine.\<close>

definition normaliseCheckInQuery :: "(jstr \<Rightarrow> jstr) \<Rightarrow> jstr \<Rightarrow> check_in_query" where
  "normaliseCheckInQuery lower raw =
    (let t = collapse raw
     in if t = [] then EMPTY_QUERY
        else let upper = remove_spaces (toUpperCase t);
                 asCode = TICKET_CODE_PREFIX @ strip_prefix (lit ''TKT'') upper;
                 asReference = ORDER_REFERENCE_PREFIX @ strip_prefix (lit ''EA'') upper
             in \<lparr>q_name = Some (lower t),
                 q_code = (if TICKET_CODE_PATTERN asCode then Some asCode else None),
                 q_reference =
                   (if ORDER_REFERENCE_PATTERN asReference then Some asReference else None)\<rparr>)"

text \<open>\<open>!x\<close> is true of null and of the empty string.\<close>

definition falsy :: "jstr option \<Rightarrow> bool" where
  "falsy x \<longleftrightarrow> x = None \<or> x = Some []"

definition isEmptyCheckInQuery :: "check_in_query \<Rightarrow> bool" where
  "isEmptyCheckInQuery q \<longleftrightarrow> falsy (q_name q) \<and> falsy (q_code q) \<and> falsy (q_reference q)"

text \<open>\<open>String.includes\<close>: a contiguous block of the text.\<close>

fun includes_text :: "jstr \<Rightarrow> jstr \<Rightarrow> bool" where
  "includes_text [] part \<longleftrightarrow> part = []"
| "includes_text (c # s) part \<longleftrightarrow> take (length part) (c # s) = part \<or> includes_text s part"

definition filterCheckInRows ::
  "(jstr \<Rightarrow> jstr) \<Rightarrow> check_in_entry list \<Rightarrow> check_in_query \<Rightarrow> check_in_entry list" where
  "filterCheckInRows lower rows q =
    (if isEmptyCheckInQuery q then rows
     else filter (\<lambda>row.
       (case q_name q of None \<Rightarrow> False
        | Some n \<Rightarrow> includes_text (lower (collapse (ci_attendeeName row))) n) \<or>
       (case q_code q of None \<Rightarrow> False | Some c \<Rightarrow> ci_code row = c) \<or>
       (case q_reference q of None \<Rightarrow> False | Some r \<Rightarrow> ci_orderReference row = r)) rows)"

section \<open>Facts\<close>

lemma alphabet_length: "length ORDER_REFERENCE_ALPHABET = 31"
  by (simp add: ORDER_REFERENCE_ALPHABET_def lit_def)

lemma alphabet_units:
  "ORDER_REFERENCE_ALPHABET =
    [65, 66, 67, 68, 69, 70, 71, 72, 74, 75, 77, 78, 80, 81, 82, 83, 84, 85,
     86, 87, 88, 89, 90, 50, 51, 52, 53, 54, 55, 56, 57]"
  by (simp add: ORDER_REFERENCE_ALPHABET_def)

lemma alphabet_symbols:
  "list_all (\<lambda>c. c < 97 \<and> \<not> is_space c \<and> c \<noteq> 45 \<and> c \<noteq> 47 \<and> (is_upper c \<or> is_digit c))
    ORDER_REFERENCE_ALPHABET"
  by (simp add: alphabet_units is_space_def is_upper_def is_digit_def)

lemma alphabet_symbol:
  "c \<in> set ORDER_REFERENCE_ALPHABET \<Longrightarrow>
    c < 97 \<and> \<not> is_space c \<and> c \<noteq> 45 \<and> c \<noteq> 47 \<and> (is_upper c \<or> is_digit c)"
  using alphabet_symbols unfolding list_all_iff by blast

lemma code_body_symbols:
  assumes "\<And>i. random i 31 < (31 :: nat)"
  shows "code_symbols n (code_body n random)"
proof (induction n)
  case (Suc n)
  have "alphabet_at (random n 31) = [ORDER_REFERENCE_ALPHABET ! random n 31]"
    by (simp add: alphabet_at_def alphabet_length assms)
  moreover have "ORDER_REFERENCE_ALPHABET ! random n 31 \<in> set ORDER_REFERENCE_ALPHABET"
    by (rule nth_mem) (simp add: alphabet_length assms)
  ultimately show ?case using Suc.IH by (simp add: code_symbols_def alphabet_length)
qed (simp add: code_symbols_def)

lemma code_symbols_plain:
  assumes "code_symbols n s" "c \<in> set s"
  shows "c < 97" "\<not> is_space c" "c \<noteq> 45" "c \<noteq> 47" "is_upper c \<or> is_digit c"
  using assms alphabet_symbol [of c] by (auto simp: code_symbols_def list_all_iff)

lemma normalisePassCode_pattern: "normalisePassCode raw = Some c \<Longrightarrow> PASS_CODE_PATTERN c"
  by (auto simp: normalisePassCode_def Let_def split: if_splits)

lemma parseScanToken_pattern: "parseScanToken raw = Some c \<Longrightarrow> TICKET_CODE_PATTERN c"
  by (auto simp: parseScanToken_def Let_def split: if_splits)

lemma formatPassCode_strip:
  "45 \<notin> set s \<Longrightarrow> filter (\<lambda>c. c \<noteq> 45) (formatPassCode s) = s"
proof (induction s rule: formatPassCode.induct)
  case (1 s)
  have "45 \<notin> set (take 4 s)" "45 \<notin> set (drop 4 s)"
    using 1(2) by (auto dest: in_set_takeD in_set_dropD)
  moreover have "filter (\<lambda>c. c \<noteq> 45) (take 4 s) = take 4 s"
    using calculation by (auto intro: filter_True)
  ultimately show ?case using 1
    by (subst formatPassCode.simps) (auto intro: filter_True)
qed

lemma formatPassCode_set: "c \<in> set (formatPassCode s) \<Longrightarrow> c = 45 \<or> c \<in> set s"
proof (induction s rule: formatPassCode.induct)
  case (1 s)
  from 1(2) show ?case
    by (subst (asm) formatPassCode.simps)
      (auto split: if_splits dest!: 1(1) dest: in_set_takeD in_set_dropD)
qed

text \<open>A stored code, as the QR holds it, contains no \<open>/tickets/\<close> path.\<close>

lemma url_code_plain: "47 \<notin> set s \<Longrightarrow> url_code s = None"
  by (induction s) (auto simp: TICKETS_PATH_def lit_def Let_def)

lemma strip_prefix_append:
  "strip_prefix p (p @ 45 # s) = s"
  by (simp add: strip_prefix_def)

lemma ticket_code_split:
  assumes "TICKET_CODE_PATTERN c"
  obtains s where "c = TICKET_CODE_PREFIX @ s" "code_symbols 8 s"
proof (rule that)
  show "code_symbols 8 (drop 4 c)" using assms by (simp add: TICKET_CODE_PATTERN_def)
  show "c = TICKET_CODE_PREFIX @ drop 4 c"
    using assms append_take_drop_id [of 4 c] by (simp add: TICKET_CODE_PATTERN_def)
qed

lemma ticket_prefix: "TICKET_CODE_PREFIX = lit ''TKT'' @ [45]" "TICKET_CODE_PREFIX = [84, 75, 84, 45]"
  by (simp_all add: TICKET_CODE_PREFIX_def lit_def)

lemma ticket_code_units:
  assumes "TICKET_CODE_PATTERN c"
  shows "\<forall>u \<in> set c. u < 97 \<and> \<not> is_space u \<and> u \<noteq> 47 \<and> url_char u" "length c = 12"
proof -
  from assms obtain s where s: "c = TICKET_CODE_PREFIX @ s" "code_symbols 8 s"
    by (rule ticket_code_split)
  then show "length c = 12" by (simp add: ticket_prefix(2) code_symbols_def)
  show "\<forall>u \<in> set c. u < 97 \<and> \<not> is_space u \<and> u \<noteq> 47 \<and> url_char u"
  proof
    fix u assume "u \<in> set c"
    then have "u \<in> {84, 75, 45} \<or> u \<in> set s" by (auto simp: s(1) ticket_prefix(2))
    then show "u < 97 \<and> \<not> is_space u \<and> u \<noteq> 47 \<and> url_char u"
    proof
      assume "u \<in> set s"
      from code_symbols_plain [OF s(2) this] show ?thesis by (auto simp: url_char_def)
    qed (auto simp: is_space_def url_char_def is_upper_def)
  qed
qed

lemma finish_parse:
  assumes "TICKET_CODE_PATTERN c"
  shows "TICKET_CODE_PREFIX @ strip_prefix (lit ''TKT'') c = c"
  using assms by (elim ticket_code_split) (simp add: ticket_prefix(1) strip_prefix_def lit_def)

end
