(* ===== verification/JsNumber.thy ===== *)
theory JsNumber
  imports Money
begin

text \<open>
  JavaScript numbers that are not whole: the IEEE doubles a division or a product of a
  percentage or an average rounds to, as a significand and a binary exponent, rounded to 53
  bits with ties to the even one. The program divides integers below \<open>2 ^ 53\<close>, so no quotient
  is too small or too large for a double.
\<close>

type_synonym double = "int \<times> int"

text \<open>The length of a whole number in binary.\<close>

function bits :: "int \<Rightarrow> nat" where
  "bits n = (if n \<le> 0 then 0 else Suc (bits (n div 2)))"
  by pat_completeness auto
termination
  by (relation "measure nat") (auto simp: nat_less_eq_zless)

declare bits.simps [simp del]

text \<open>The whole number next to \<open>a / b\<close>, the even one when two are as near.\<close>

definition round_even :: "int \<Rightarrow> int \<Rightarrow> int" where
  "round_even a b =
    (let q = a div b; r = a mod b
     in if 2 * r < b \<or> (2 * r = b \<and> even q) then q else q + 1)"

text \<open>The double next to \<open>a / b\<close> for \<open>0 < b\<close>.\<close>

definition to_double :: "int \<Rightarrow> int \<Rightarrow> double" where
  "to_double a b =
    (if a = 0 then (0, 0)
     else let n = \<bar>a\<bar>;
              k = int (bits n) - int (bits b) - 53;
              big = n * 2 ^ nat (- k) \<ge> 2 ^ 53 * (b * 2 ^ nat k);
              e = (if big then k + 1 else k)
          in (sgn a * round_even (n * 2 ^ nat (- e)) (b * 2 ^ nat e), e))"

definition double_times :: "double \<Rightarrow> int \<Rightarrow> double" where
  "double_times d c = (case d of (m, e) \<Rightarrow> to_double (m * c * 2 ^ nat e) (2 ^ nat (- e)))"

text \<open>\<open>Math.round\<close>: the nearest whole number, upwards from the middle.\<close>

definition math_round :: "double \<Rightarrow> int" where
  "math_round d =
    (case d of (m, e) \<Rightarrow>
       if 0 \<le> e then m * 2 ^ nat e else (2 * m + 2 ^ nat (- e)) div (2 * 2 ^ nat (- e)))"

lemma double_samples:
  "math_round (to_double 5 2) = 3" "math_round (to_double (-5) 2) = -2"
  "math_round (double_times (to_double 57 200) 100) = 28"
  "math_round (double_times (to_double 1 3) 100) = 33"
  by code_simp+

section \<open>Bounds\<close>

lemma bits_mono: "m \<le> n \<Longrightarrow> bits m \<le> bits n"
proof (induction n arbitrary: m rule: bits.induct)
  case (1 n)
  show ?case
  proof (cases "m \<le> 0")
    case False
    then have "\<not> n \<le> 0" using 1(2) by simp
    then show ?thesis using 1(1) [of "m div 2"] 1(2) False bits.simps [of m] bits.simps [of n]
      by (simp add: zdiv_mono1)
  qed (simp add: bits.simps [of m])
qed

lemma bits_double: "0 < n \<Longrightarrow> bits (2 * n) = Suc (bits n)"
  by (simp add: bits.simps [of "2 * n"])

lemma bits_pow: "0 < n \<Longrightarrow> bits (2 ^ j * n) = j + bits n"
  by (induction j) (simp_all add: bits_double mult.assoc)

lemma round_even_le:
  assumes "0 < b" "a \<le> c * b"
  shows "round_even a b \<le> c"
proof -
  have m: "a div b * b + a mod b = a" "0 \<le> a mod b" "a mod b < b" using assms(1) by simp_all
  have "a div b \<le> c" using zdiv_mono1 [OF assms(2,1)] assms(1) by simp
  moreover have "a div b \<noteq> c" if "\<not> (2 * (a mod b) < b \<or> (2 * (a mod b) = b \<and> even (a div b)))"
  proof
    assume "a div b = c"
    then have "c * b + a mod b = a" using m(1) by simp
    then have "a mod b \<le> 0" using assms(2) by linarith
    then show False using that m assms(1) by linarith
  qed
  ultimately show ?thesis unfolding round_even_def Let_def by (smt (verit))
qed

lemma round_even_nonneg: "0 < b \<Longrightarrow> 0 \<le> a \<Longrightarrow> 0 \<le> round_even a b"
  by (auto simp: round_even_def Let_def pos_imp_zdiv_nonneg_iff)

text \<open>Rounding keeps a quotient within a whole bound that is far from overflowing 53 bits.\<close>

lemma to_double_le:
  assumes "0 \<le> a" "0 < b" "a \<le> c * b" "0 < c" "c < 2 ^ 50"
  obtains m e where "to_double a b = (m, e)" "0 \<le> m" "e \<le> 0" "m \<le> c * 2 ^ nat (- e)"
proof (cases "a = 0")
  case True
  then show thesis using that [of 0 0] assms by (simp add: to_double_def)
next
  case False
  then have a: "0 < a" using assms(1) by simp
  define k where k: "k = int (bits a) - int (bits b) - 53"
  define e where e: "e = (if a * 2 ^ nat (- k) \<ge> 2 ^ 53 * (b * 2 ^ nat k) then k + 1 else k)"
  have "a \<le> 2 ^ 50 * b" using assms by (intro order_trans [OF assms(3)] mult_right_mono) simp_all
  then have "bits a \<le> 50 + bits b" using bits_mono [of a "2 ^ 50 * b"] bits_pow [OF assms(2), of 50] by simp
  then have k0: "k \<le> -3" unfolding k by simp
  then have e0: "e \<le> 0" unfolding e by simp
  have d: "to_double a b = (round_even (a * 2 ^ nat (- e)) b, e)"
    using a e0 k0 by (simp add: to_double_def Let_def k e)
  have "a * 2 ^ nat (- e) \<le> (c * 2 ^ nat (- e)) * b"
    using mult_right_mono [OF assms(3), of "2 ^ nat (- e)"] by (simp add: ac_simps)
  from round_even_le [OF assms(2) this] show thesis
    using that [OF d _ e0] round_even_nonneg [OF assms(2), of "a * 2 ^ nat (- e)"] a by simp
qed

text \<open>A share of a whole, in percent.\<close>

lemma share_percent:
  assumes "0 \<le> n" "n \<le> whole" "0 < whole"
  shows "0 \<le> math_round (double_times (to_double n whole) 100)"
    "math_round (double_times (to_double n whole) 100) \<le> 100"
proof -
  obtain m e where d: "to_double n whole = (m, e)" "0 \<le> m" "e \<le> 0" "m \<le> 1 * 2 ^ nat (- e)"
    by (rule to_double_le [of n whole 1]) (use assms in auto)
  obtain m' e' where p: "to_double (m * 100) (2 ^ nat (- e)) = (m', e')" "0 \<le> m'" "e' \<le> 0"
    "m' \<le> 100 * 2 ^ nat (- e')"
    by (rule to_double_le [of "m * 100" "2 ^ nat (- e)" 100]) (use d in auto)
  have t: "double_times (to_double n whole) 100 = (m', e')" using d p by (simp add: double_times_def)
  define P :: int where P: "P = 2 ^ nat (- e')"
  have pos: "0 < P" unfolding P by simp
  have r: "math_round (m', e') = (2 * m' + P) div (2 * P)"
    using p(3) by (cases "e' = 0") (simp_all add: math_round_def P)
  have "(2 * m' + P) div (2 * P) \<le> (201 * P) div (2 * P)"
    using p(4) pos by (intro zdiv_mono1) (simp_all add: P)
  also have "\<dots> = 100" using pos by (simp add: div_mult_mult2)
  finally show "math_round (double_times (to_double n whole) 100) \<le> 100" unfolding t r .
  show "0 \<le> math_round (double_times (to_double n whole) 100)"
    unfolding t r using p(2) pos by (simp add: pos_imp_zdiv_nonneg_iff)
qed

end
