(* ===== verification/Database.thy ===== *)
theory Database
  imports Codes JsNumber
begin

text \<open>
  The tables of \<open>src/src/db/schema.ts\<close>: one record per table, one list of rows per table in
  the order they were inserted, and the constraints the database enforces on every
  statement. \<open>put_*\<close> is the commit point of a statement on a table: the new rows are
  refused with the first violated constraint (CHECKs in name order, then unique indexes,
  then foreign keys, as PostgreSQL evaluates them) or become the table.

  Ids and codes are arguments of the inserts (the program draws them at random), the
  database clock is an argument \<open>ts\<close>, and SQL NULL is \<open>None\<close>.
\<close>

section \<open>Rows\<close>

record event_row =
  e_id :: uuid
  e_slug :: jstr
  e_title :: jstr
  e_description :: "jstr option"
  e_venue :: "jstr option"
  e_venueHidden :: bool
  e_hideAvailability :: bool
  e_venueArea :: "jstr option"
  e_startsAt :: instant
  e_endsAt :: "instant option"
  e_registrationOpensAt :: "instant option"
  e_registrationClosesAt :: "instant option"
  e_status :: event_status
  e_imageKey :: "jstr option"
  e_presentingSponsorId :: "uuid option"
  e_createdAt :: instant
  e_updatedAt :: instant

record ticket_type_row =
  tt_id :: uuid
  tt_eventId :: uuid
  tt_name :: jstr
  tt_pricePaisa :: int
  tt_quantityTotal :: int
  tt_quantitySold :: int
  tt_quantityReserved :: int
  tt_salesStartsAt :: "instant option"
  tt_salesEndsAt :: "instant option"
  tt_createdAt :: instant
  tt_updatedAt :: instant

record promo_row =
  p_id :: uuid
  p_code :: jstr
  p_type :: promo_type
  p_amount :: int
  p_active :: bool
  p_createdAt :: instant
  p_updatedAt :: instant

record order_row =
  o_id :: uuid
  o_reference :: jstr
  o_eventId :: uuid
  o_ticketTypeId :: uuid
  o_quantity :: int
  o_unitPricePaisa :: int
  o_subtotalPaisa :: int
  o_discountPaisa :: int
  o_totalPaisa :: int
  o_status :: order_status
  o_buyerName :: jstr
  o_buyerEmail :: jstr
  o_buyerPhone :: "jstr option"
  o_attendeeNames :: "jstr list"
  o_bkashTrxId :: "jstr option"
  o_bkashSenderMsisdn :: "jstr option"
  o_promoCodeId :: "uuid option"
  o_rejectionReason :: "jstr option"
  o_rejectionNote :: "jstr option"
  o_complimentaryReason :: "jstr option"
  o_holdExpiresAt :: "instant option"
  o_createdAt :: instant
  o_updatedAt :: instant

record order_event_row =
  oe_orderId :: uuid
  oe_actor :: jstr
  oe_action :: jstr
  oe_fromStatus :: "order_status option"
  oe_toStatus :: "order_status option"
  oe_note :: "jstr option"
  oe_createdAt :: instant

record ticket_row =
  t_id :: uuid
  t_orderId :: uuid
  t_ticketTypeId :: uuid
  t_eventId :: uuid
  t_code :: jstr
  t_position :: int
  t_attendeeName :: jstr
  t_status :: ticket_status
  t_checkedInAt :: "instant option"
  t_checkedInBy :: "jstr option"
  t_checkedInScanId :: "uuid option"
  t_createdAt :: instant
  t_updatedAt :: instant

datatype scan_result =
    ScanAdmitted | ScanAlreadyIn | ScanCancelled | ScanWrongEvent | ScanUnknown
  | ScanPracticeOk | ScanPhoneMismatch | ScanTurnedAway

datatype scan_method = ByQr | ByTyped | BySearch

datatype scan_mode = Online | Offline | Practice

datatype door_verdict = VAdmitted | VRefused | VPractice | VUndone

datatype door_decision = TurnedAway | LetIn

record door_pass_row =
  dp_id :: uuid
  dp_eventId :: uuid
  dp_label :: jstr
  dp_code :: jstr
  dp_createdBy :: jstr
  dp_createdAt :: instant
  dp_revokedAt :: "instant option"

record door_scan_row =
  ds_scanId :: uuid
  ds_passId :: uuid
  ds_eventId :: uuid
  ds_ticketId :: "uuid option"
  ds_input :: jstr
  ds_result :: scan_result
  ds_method :: scan_method
  ds_mode :: scan_mode
  ds_priorCheckedInAt :: "instant option"
  ds_priorCheckedInBy :: "jstr option"
  ds_scannedAt :: "instant option"
  ds_receivedAt :: instant
  ds_doorVerdict :: "door_verdict option"
  ds_supersedesScanId :: "uuid option"

record door_decision_row =
  dd_scanId :: uuid
  dd_passId :: uuid
  dd_eventId :: uuid
  dd_decision :: door_decision
  dd_decidedAt :: instant

datatype sponsor_level = Presenting | Partner | Supporter

datatype tile_tone = LightTile | DarkTile

text \<open>
  A logo's dimensions are doubles in the schema; the model only compares them with zero and
  takes them as integers.
\<close>

record sponsor_row =
  sp_id :: uuid
  sp_name :: jstr
  sp_websiteUrl :: "jstr option"
  sp_level :: sponsor_level
  sp_logoKey :: jstr
  sp_logoWidth :: double
  sp_logoHeight :: double
  sp_tileTone :: tile_tone
  sp_active :: bool
  sp_position :: int
  sp_createdAt :: instant
  sp_updatedAt :: instant

record db =
  events :: "event_row list"
  ticketTypes :: "ticket_type_row list"
  promoCodes :: "promo_row list"
  promoCodeTicketTypes :: "(uuid \<times> uuid) list"
  orders :: "order_row list"
  orderEvents :: "order_event_row list"
  tickets :: "ticket_row list"
  doorPasses :: "door_pass_row list"
  doorScans :: "door_scan_row list"
  doorDecisions :: "door_decision_row list"
  sponsors :: "sponsor_row list"

type_synonym 'a stmt = "(pg_error, db, 'a) tx"
type_synonym 'a db_tx = "(app_error, db, 'a) tx"

section \<open>Constraints\<close>

text \<open>\<open>CHECK\<close>: the first constraint some row breaks.\<close>

definition check_rows :: "(string \<times> ('r \<Rightarrow> bool)) list \<Rightarrow> 'r list \<Rightarrow> pg_error option" where
  "check_rows cs rs =
    map_option (\<lambda>c. CheckViolation (fst c)) (List.find (\<lambda>c. \<not> list_all (snd c) rs) cs)"

text \<open>\<open>UNIQUE\<close>: NULL keys are distinct from each other.\<close>

definition unique_rows :: "string \<Rightarrow> ('r \<Rightarrow> 'k option) \<Rightarrow> 'r list \<Rightarrow> pg_error option" where
  "unique_rows n key rs =
    (if distinct (List.map_filter key rs) then None else Some (UniqueViolation n))"

text \<open>\<open>REFERENCES\<close>: a key that is not NULL names an existing row.\<close>

definition references_rows ::
  "string \<Rightarrow> ('r \<Rightarrow> 'k option) \<Rightarrow> 'k list \<Rightarrow> 'r list \<Rightarrow> pg_error option" where
  "references_rows n key ks rs =
    (if list_all (\<lambda>r. case key r of None \<Rightarrow> True | Some k \<Rightarrow> k \<in> set ks) rs then None
     else Some (ForeignKeyViolation n))"

fun first_violation :: "pg_error option list \<Rightarrow> pg_error option" where
  "first_violation [] = None"
| "first_violation (None # vs) = first_violation vs"
| "first_violation (Some e # vs) = Some e"

definition event_checks :: "(string \<times> (event_row \<Rightarrow> bool)) list" where
  "event_checks =
    [(''events_hidden_venue_set'', \<lambda>e. \<not> e_venueHidden e \<or> e_venue e \<noteq> None)]"

definition events_violation :: "db \<Rightarrow> event_row list \<Rightarrow> pg_error option" where
  "events_violation s rs = first_violation
    [check_rows event_checks rs,
     unique_rows ''events_pkey'' (\<lambda>e. Some (e_id e)) rs,
     unique_rows ''events_slug_unique'' (\<lambda>e. Some (e_slug e)) rs,
     references_rows ''events_presenting_sponsor_id_sponsors_id_fk'' e_presentingSponsorId
       (map sp_id (sponsors s)) rs]"

definition ticket_type_checks :: "(string \<times> (ticket_type_row \<Rightarrow> bool)) list" where
  "ticket_type_checks =
    [(''ticket_types_availability_nonneg'',
        \<lambda>t. tt_quantityTotal t - tt_quantitySold t - tt_quantityReserved t \<ge> 0),
     (''ticket_types_price_nonneg'', \<lambda>t. tt_pricePaisa t \<ge> 0),
     (''ticket_types_reserved_nonneg'', \<lambda>t. tt_quantityReserved t \<ge> 0),
     (''ticket_types_sold_nonneg'', \<lambda>t. tt_quantitySold t \<ge> 0)]"

definition ticket_types_violation :: "db \<Rightarrow> ticket_type_row list \<Rightarrow> pg_error option" where
  "ticket_types_violation s rs = first_violation
    [check_rows ticket_type_checks rs,
     unique_rows ''ticket_types_pkey'' (\<lambda>t. Some (tt_id t)) rs,
     references_rows ''ticket_types_event_id_events_id_fk'' (\<lambda>t. Some (tt_eventId t))
       (map e_id (events s)) rs]"

definition promo_checks :: "(string \<times> (promo_row \<Rightarrow> bool)) list" where
  "promo_checks =
    [(''promo_codes_code_format'', \<lambda>p. PROMO_CODE_PATTERN (p_code p)),
     (''promo_codes_percentage_range'',
        \<lambda>p. p_type p \<noteq> Percentage \<or> (1 \<le> p_amount p \<and> p_amount p \<le> 99)),
     (''promo_codes_value_positive'', \<lambda>p. p_amount p > 0)]"

definition promo_codes_violation :: "promo_row list \<Rightarrow> pg_error option" where
  "promo_codes_violation rs = first_violation
    [check_rows promo_checks rs,
     unique_rows ''promo_codes_pkey'' (\<lambda>p. Some (p_id p)) rs,
     unique_rows ''promo_codes_code_unique'' (\<lambda>p. Some (p_code p)) rs]"

definition restrictions_violation :: "db \<Rightarrow> (uuid \<times> uuid) list \<Rightarrow> pg_error option" where
  "restrictions_violation s rs = first_violation
    [unique_rows ''promo_code_ticket_types_pk'' Some rs,
     references_rows ''promo_code_ticket_types_promo_code_id_promo_codes_id_fk''
       (\<lambda>r. Some (fst r)) (map p_id (promoCodes s)) rs,
     references_rows ''promo_code_ticket_types_ticket_type_id_ticket_types_id_fk''
       (\<lambda>r. Some (snd r)) (map tt_id (ticketTypes s)) rs]"

text \<open>
  \<open>upper(btrim(x))\<close>: PostgreSQL's \<open>btrim\<close> strips the space character only. \<open>upper\<close> is given
  on the ASCII letters, the alphabet of a bKash transaction id.
\<close>

definition btrim :: "jstr \<Rightarrow> jstr" where
  "btrim s = rev (dropWhile (\<lambda>c. c = 32) (rev (dropWhile (\<lambda>c. c = 32) s)))"

definition pg_upper :: "jstr \<Rightarrow> jstr" where
  "pg_upper s = map (\<lambda>c. if is_lower c then c - 32 else c) s"

definition order_checks :: "(string \<times> (order_row \<Rightarrow> bool)) list" where
  "order_checks =
    [(''orders_bkash_trx_id_normalised'',
        \<lambda>r. case o_bkashTrxId r of None \<Rightarrow> True | Some x \<Rightarrow> x = pg_upper (btrim x)),
     (''orders_complimentary_free'',
        \<lambda>r. o_complimentaryReason r = None \<or>
          (o_discountPaisa r = o_subtotalPaisa r \<and> o_bkashTrxId r = None \<and>
           o_promoCodeId r = None)),
     (''orders_complimentary_status'',
        \<lambda>r. o_complimentaryReason r = None \<or> o_status r \<in> {Issued, Cancelled}),
     (''orders_phone_unless_comp'',
        \<lambda>r. o_buyerPhone r \<noteq> None \<or> o_complimentaryReason r \<noteq> None),
     (''orders_quantity_range'', \<lambda>r. 1 \<le> o_quantity r \<and> o_quantity r \<le> 10),
     (''orders_totals_consistent'',
        \<lambda>r. o_subtotalPaisa r = o_unitPricePaisa r * o_quantity r \<and>
          o_discountPaisa r \<le> o_subtotalPaisa r \<and>
          o_totalPaisa r = o_subtotalPaisa r - o_discountPaisa r),
     (''orders_totals_nonneg'',
        \<lambda>r. o_subtotalPaisa r \<ge> 0 \<and> o_discountPaisa r \<ge> 0 \<and> o_totalPaisa r \<ge> 0)]"

definition orders_violation :: "db \<Rightarrow> order_row list \<Rightarrow> pg_error option" where
  "orders_violation s rs = first_violation
    [check_rows order_checks rs,
     unique_rows ''orders_pkey'' (\<lambda>r. Some (o_id r)) rs,
     unique_rows ''orders_reference_unique'' (\<lambda>r. Some (o_reference r)) rs,
     unique_rows ''orders_bkash_trx_id_uq'' o_bkashTrxId rs,
     references_rows ''orders_event_id_events_id_fk'' (\<lambda>r. Some (o_eventId r))
       (map e_id (events s)) rs,
     references_rows ''orders_ticket_type_id_ticket_types_id_fk''
       (\<lambda>r. Some (o_ticketTypeId r)) (map tt_id (ticketTypes s)) rs,
     references_rows ''orders_promo_code_id_promo_codes_id_fk'' o_promoCodeId
       (map p_id (promoCodes s)) rs]"

definition order_events_violation :: "db \<Rightarrow> order_event_row list \<Rightarrow> pg_error option" where
  "order_events_violation s rs =
    references_rows ''order_events_order_id_orders_id_fk'' (\<lambda>r. Some (oe_orderId r))
      (map o_id (orders s)) rs"

definition ticket_checks :: "(string \<times> (ticket_row \<Rightarrow> bool)) list" where
  "ticket_checks =
    [(''tickets_check_in_consistent'',
        \<lambda>t. (t_checkedInAt t = None) = (t_checkedInBy t = None) \<and>
          (t_checkedInAt t = None) = (t_checkedInScanId t = None)),
     (''tickets_checked_in_is_issued'',
        \<lambda>t. t_checkedInAt t = None \<or> t_status t = TicketIssued),
     (''tickets_position_positive'', \<lambda>t. t_position t \<ge> 1)]"

definition tickets_violation :: "db \<Rightarrow> ticket_row list \<Rightarrow> pg_error option" where
  "tickets_violation s rs = first_violation
    [check_rows ticket_checks rs,
     unique_rows ''tickets_pkey'' (\<lambda>t. Some (t_id t)) rs,
     unique_rows ''tickets_code_unique'' (\<lambda>t. Some (t_code t)) rs,
     unique_rows ''tickets_order_position_uq'' (\<lambda>t. Some (t_orderId t, t_position t)) rs,
     references_rows ''tickets_order_id_orders_id_fk'' (\<lambda>t. Some (t_orderId t))
       (map o_id (orders s)) rs,
     references_rows ''tickets_ticket_type_id_ticket_types_id_fk''
       (\<lambda>t. Some (t_ticketTypeId t)) (map tt_id (ticketTypes s)) rs,
     references_rows ''tickets_event_id_events_id_fk'' (\<lambda>t. Some (t_eventId t))
       (map e_id (events s)) rs]"

definition door_passes_violation :: "db \<Rightarrow> door_pass_row list \<Rightarrow> pg_error option" where
  "door_passes_violation s rs = first_violation
    [check_rows [(''door_passes_code_format'', \<lambda>p. PASS_CODE_PATTERN (dp_code p))] rs,
     unique_rows ''door_passes_pkey'' (\<lambda>p. Some (dp_id p)) rs,
     unique_rows ''door_passes_code_unique'' (\<lambda>p. Some (dp_code p)) rs,
     references_rows ''door_passes_event_id_events_id_fk'' (\<lambda>p. Some (dp_eventId p))
       (map e_id (events s)) rs]"

definition door_scans_violation :: "db \<Rightarrow> door_scan_row list \<Rightarrow> pg_error option" where
  "door_scans_violation s rs = first_violation
    [check_rows [(''door_scans_verdict_offline'',
       \<lambda>d. (ds_mode d = Offline) = (ds_doorVerdict d \<noteq> None))] rs,
     unique_rows ''door_scans_scan_id_unique'' (\<lambda>d. Some (ds_scanId d)) rs,
     references_rows ''door_scans_pass_id_door_passes_id_fk'' (\<lambda>d. Some (ds_passId d))
       (map dp_id (doorPasses s)) rs,
     references_rows ''door_scans_event_id_events_id_fk'' (\<lambda>d. Some (ds_eventId d))
       (map e_id (events s)) rs,
     references_rows ''door_scans_ticket_id_tickets_id_fk'' ds_ticketId
       (map t_id (tickets s)) rs]"

definition door_decisions_violation :: "db \<Rightarrow> door_decision_row list \<Rightarrow> pg_error option" where
  "door_decisions_violation s rs = first_violation
    [unique_rows ''door_decisions_scan_id_unique'' (\<lambda>d. Some (dd_scanId d)) rs,
     references_rows ''door_decisions_scan_id_door_scans_scan_id_fk''
       (\<lambda>d. Some (dd_scanId d)) (map ds_scanId (doorScans s)) rs,
     references_rows ''door_decisions_pass_id_door_passes_id_fk'' (\<lambda>d. Some (dd_passId d))
       (map dp_id (doorPasses s)) rs,
     references_rows ''door_decisions_event_id_events_id_fk'' (\<lambda>d. Some (dd_eventId d))
       (map e_id (events s)) rs]"

definition sponsor_checks :: "(string \<times> (sponsor_row \<Rightarrow> bool)) list" where
  "sponsor_checks =
    [(''sponsors_logo_height_positive'', \<lambda>p. fst (sp_logoHeight p) > 0),
     (''sponsors_logo_width_positive'', \<lambda>p. fst (sp_logoWidth p) > 0),
     (''sponsors_position_positive'', \<lambda>p. sp_position p \<ge> 1)]"

definition sponsors_violation :: "sponsor_row list \<Rightarrow> pg_error option" where
  "sponsors_violation rs = first_violation
    [check_rows sponsor_checks rs,
     unique_rows ''sponsors_pkey'' (\<lambda>p. Some (sp_id p)) rs,
     unique_rows ''sponsors_logo_key_unique'' (\<lambda>p. Some (sp_logoKey p)) rs,
     unique_rows ''sponsors_one_presenting''
       (\<lambda>p. if sp_level p = Presenting then Some Presenting else None) rs]"

section \<open>Statements\<close>

text \<open>The last step of every INSERT and UPDATE: the table's constraints, then the new rows.\<close>

definition put_events :: "event_row list \<Rightarrow> unit stmt" where
  "put_events rs s =
    (case events_violation s rs of Some e \<Rightarrow> Inl e | None \<Rightarrow> Inr ((), s\<lparr>events := rs\<rparr>))"

definition put_ticket_types :: "ticket_type_row list \<Rightarrow> unit stmt" where
  "put_ticket_types rs s =
    (case ticket_types_violation s rs of Some e \<Rightarrow> Inl e | None \<Rightarrow> Inr ((), s\<lparr>ticketTypes := rs\<rparr>))"

definition put_promo_codes :: "promo_row list \<Rightarrow> unit stmt" where
  "put_promo_codes rs s =
    (case promo_codes_violation rs of Some e \<Rightarrow> Inl e | None \<Rightarrow> Inr ((), s\<lparr>promoCodes := rs\<rparr>))"

definition put_restrictions :: "(uuid \<times> uuid) list \<Rightarrow> unit stmt" where
  "put_restrictions rs s =
    (case restrictions_violation s rs of Some e \<Rightarrow> Inl e | None \<Rightarrow> Inr ((), s\<lparr>promoCodeTicketTypes := rs\<rparr>))"

definition put_orders :: "order_row list \<Rightarrow> unit stmt" where
  "put_orders rs s =
    (case orders_violation s rs of Some e \<Rightarrow> Inl e | None \<Rightarrow> Inr ((), s\<lparr>orders := rs\<rparr>))"

definition put_order_events :: "order_event_row list \<Rightarrow> unit stmt" where
  "put_order_events rs s =
    (case order_events_violation s rs of Some e \<Rightarrow> Inl e | None \<Rightarrow> Inr ((), s\<lparr>orderEvents := rs\<rparr>))"

definition put_tickets :: "ticket_row list \<Rightarrow> unit stmt" where
  "put_tickets rs s =
    (case tickets_violation s rs of Some e \<Rightarrow> Inl e | None \<Rightarrow> Inr ((), s\<lparr>tickets := rs\<rparr>))"

definition put_door_passes :: "door_pass_row list \<Rightarrow> unit stmt" where
  "put_door_passes rs s =
    (case door_passes_violation s rs of Some e \<Rightarrow> Inl e | None \<Rightarrow> Inr ((), s\<lparr>doorPasses := rs\<rparr>))"

definition put_door_scans :: "door_scan_row list \<Rightarrow> unit stmt" where
  "put_door_scans rs s =
    (case door_scans_violation s rs of Some e \<Rightarrow> Inl e | None \<Rightarrow> Inr ((), s\<lparr>doorScans := rs\<rparr>))"

definition put_door_decisions :: "door_decision_row list \<Rightarrow> unit stmt" where
  "put_door_decisions rs s =
    (case door_decisions_violation s rs of Some e \<Rightarrow> Inl e | None \<Rightarrow> Inr ((), s\<lparr>doorDecisions := rs\<rparr>))"

definition put_sponsors :: "sponsor_row list \<Rightarrow> unit stmt" where
  "put_sponsors rs s =
    (case sponsors_violation rs of Some e \<Rightarrow> Inl e | None \<Rightarrow> Inr ((), s\<lparr>sponsors := rs\<rparr>))"

definition db_ok :: "db \<Rightarrow> bool" where
  "db_ok s \<longleftrightarrow>
    events_violation s (events s) = None \<and>
    ticket_types_violation s (ticketTypes s) = None \<and>
    promo_codes_violation (promoCodes s) = None \<and>
    restrictions_violation s (promoCodeTicketTypes s) = None \<and>
    orders_violation s (orders s) = None \<and>
    order_events_violation s (orderEvents s) = None \<and>
    tickets_violation s (tickets s) = None \<and>
    door_passes_violation s (doorPasses s) = None \<and>
    door_scans_violation s (doorScans s) = None \<and>
    door_decisions_violation s (doorDecisions s) = None \<and>
    sponsors_violation (sponsors s) = None"

definition EMPTY_DB :: db where
  "EMPTY_DB =
    \<lparr>events = [],
     ticketTypes = [],
     promoCodes = [],
     promoCodeTicketTypes = [],
     orders = [],
     orderEvents = [],
     tickets = [],
     doorPasses = [],
     doorScans = [],
     doorDecisions = [],
     sponsors = []\<rparr>"

section \<open>Facts\<close>

lemma first_violation_None: "first_violation vs = None \<longleftrightarrow> (\<forall>v \<in> set vs. v = None)"
  by (induction vs rule: first_violation.induct) auto

lemma map_filter_Some: "List.map_filter (\<lambda>r. Some (f r)) rs = map f rs"
  by (induction rs) (simp_all add: List.map_filter_def)

lemma check_rows_None: "check_rows cs rs = None \<longleftrightarrow> (\<forall>c \<in> set cs. list_all (snd c) rs)"
  by (auto simp: check_rows_def find_None_iff)

lemma unique_rows_None: "unique_rows n key rs = None \<longleftrightarrow> distinct (List.map_filter key rs)"
  by (simp add: unique_rows_def)

lemma references_rows_None:
  "references_rows n key ks rs = None \<longleftrightarrow> (\<forall>r \<in> set rs. \<forall>k. key r = Some k \<longrightarrow> k \<in> set ks)"
  by (auto simp: references_rows_def list_all_iff split: option.splits)

lemma references_rows_mono:
  "references_rows n key ks rs = None \<Longrightarrow> set ks \<subseteq> set ks' \<Longrightarrow> references_rows n key ks' rs = None"
  by (auto simp: references_rows_None)

lemmas violation_None =
  first_violation_None check_rows_None unique_rows_None references_rows_None map_filter_Some

text \<open>What a table without violations satisfies, row by row.\<close>

lemma ticket_types_ok:
  assumes "ticket_types_violation s rs = None"
  shows "distinct (map tt_id rs)"
    and "t \<in> set rs \<Longrightarrow> tt_quantityTotal t - tt_quantitySold t - tt_quantityReserved t \<ge> 0"
    and "t \<in> set rs \<Longrightarrow> tt_quantityReserved t \<ge> 0 \<and> tt_quantitySold t \<ge> 0 \<and> tt_pricePaisa t \<ge> 0"
    and "t \<in> set rs \<Longrightarrow> tt_eventId t \<in> e_id ` set (events s)"
  using assms
  by (auto simp: ticket_types_violation_def violation_None ticket_type_checks_def list_all_iff)

lemma orders_ok:
  assumes "orders_violation s rs = None"
  shows "distinct (map o_id rs)" "distinct (map o_reference rs)"
    and "distinct (List.map_filter o_bkashTrxId rs)"
    and "r \<in> set rs \<Longrightarrow> 1 \<le> o_quantity r \<and> o_quantity r \<le> 10"
    and "r \<in> set rs \<Longrightarrow> o_ticketTypeId r \<in> tt_id ` set (ticketTypes s)"
    and "r \<in> set rs \<Longrightarrow> o_eventId r \<in> e_id ` set (events s)"
    and "r \<in> set rs \<Longrightarrow> o_subtotalPaisa r = o_unitPricePaisa r * o_quantity r \<and>
      o_totalPaisa r = o_subtotalPaisa r - o_discountPaisa r \<and>
      0 \<le> o_totalPaisa r \<and> 0 \<le> o_discountPaisa r \<and> 0 \<le> o_subtotalPaisa r"
    and "r \<in> set rs \<Longrightarrow> o_complimentaryReason r \<noteq> None \<Longrightarrow>
      o_discountPaisa r = o_subtotalPaisa r \<and> o_bkashTrxId r = None \<and>
      o_status r \<in> {Issued, Cancelled}"
  using assms
  by (auto simp: orders_violation_def violation_None order_checks_def list_all_iff)

lemma tickets_ok:
  assumes "tickets_violation s rs = None"
  shows "distinct (map t_id rs)" "distinct (map t_code rs)"
    and "distinct (map (\<lambda>t. (t_orderId t, t_position t)) rs)"
    and "t \<in> set rs \<Longrightarrow> t_checkedInAt t \<noteq> None \<Longrightarrow> t_status t = TicketIssued"
    and "t \<in> set rs \<Longrightarrow> t_orderId t \<in> o_id ` set (orders s)"
    and "t \<in> set rs \<Longrightarrow> t_ticketTypeId t \<in> tt_id ` set (ticketTypes s)"
    and "t \<in> set rs \<Longrightarrow> (t_checkedInAt t = None) = (t_checkedInScanId t = None)"
  using assms
  by (auto simp: tickets_violation_def violation_None ticket_checks_def list_all_iff)

text \<open>What each commit point gives and keeps.\<close>

lemma put_events_Inr [tx_simps]:
  "put_events rs s = Inr y \<longleftrightarrow> events_violation s rs = None \<and> y = ((), s\<lparr>events := rs\<rparr>)"
  by (auto simp: put_events_def split: option.splits)

lemma put_ticket_types_Inr [tx_simps]:
  "put_ticket_types rs s = Inr y \<longleftrightarrow> ticket_types_violation s rs = None \<and> y = ((), s\<lparr>ticketTypes := rs\<rparr>)"
  by (auto simp: put_ticket_types_def split: option.splits)

lemma put_promo_codes_Inr [tx_simps]:
  "put_promo_codes rs s = Inr y \<longleftrightarrow> promo_codes_violation rs = None \<and> y = ((), s\<lparr>promoCodes := rs\<rparr>)"
  by (auto simp: put_promo_codes_def split: option.splits)

lemma put_restrictions_Inr [tx_simps]:
  "put_restrictions rs s = Inr y \<longleftrightarrow> restrictions_violation s rs = None \<and> y = ((), s\<lparr>promoCodeTicketTypes := rs\<rparr>)"
  by (auto simp: put_restrictions_def split: option.splits)

lemma put_orders_Inr [tx_simps]:
  "put_orders rs s = Inr y \<longleftrightarrow> orders_violation s rs = None \<and> y = ((), s\<lparr>orders := rs\<rparr>)"
  by (auto simp: put_orders_def split: option.splits)

lemma put_order_events_Inr [tx_simps]:
  "put_order_events rs s = Inr y \<longleftrightarrow> order_events_violation s rs = None \<and> y = ((), s\<lparr>orderEvents := rs\<rparr>)"
  by (auto simp: put_order_events_def split: option.splits)

lemma put_tickets_Inr [tx_simps]:
  "put_tickets rs s = Inr y \<longleftrightarrow> tickets_violation s rs = None \<and> y = ((), s\<lparr>tickets := rs\<rparr>)"
  by (auto simp: put_tickets_def split: option.splits)

lemma put_door_passes_Inr [tx_simps]:
  "put_door_passes rs s = Inr y \<longleftrightarrow> door_passes_violation s rs = None \<and> y = ((), s\<lparr>doorPasses := rs\<rparr>)"
  by (auto simp: put_door_passes_def split: option.splits)

lemma put_door_scans_Inr [tx_simps]:
  "put_door_scans rs s = Inr y \<longleftrightarrow> door_scans_violation s rs = None \<and> y = ((), s\<lparr>doorScans := rs\<rparr>)"
  by (auto simp: put_door_scans_def split: option.splits)

lemma put_door_decisions_Inr [tx_simps]:
  "put_door_decisions rs s = Inr y \<longleftrightarrow> door_decisions_violation s rs = None \<and> y = ((), s\<lparr>doorDecisions := rs\<rparr>)"
  by (auto simp: put_door_decisions_def split: option.splits)

lemma put_sponsors_Inr [tx_simps]:
  "put_sponsors rs s = Inr y \<longleftrightarrow> sponsors_violation rs = None \<and> y = ((), s\<lparr>sponsors := rs\<rparr>)"
  by (auto simp: put_sponsors_def split: option.splits)

lemmas violation_defs =
  events_violation_def
  ticket_types_violation_def
  promo_codes_violation_def
  restrictions_violation_def
  orders_violation_def
  order_events_violation_def
  tickets_violation_def
  door_passes_violation_def
  door_scans_violation_def
  door_decisions_violation_def
  sponsors_violation_def

text \<open>
  Foreign keys see other tables through their keys only, and no statement but a DELETE
  drops a key.
\<close>

definition keys_le :: "db \<Rightarrow> db \<Rightarrow> bool" where
  "keys_le s s' \<longleftrightarrow>
    e_id ` set (events s) \<subseteq> e_id ` set (events s') \<and>
    tt_id ` set (ticketTypes s) \<subseteq> tt_id ` set (ticketTypes s') \<and>
    p_id ` set (promoCodes s) \<subseteq> p_id ` set (promoCodes s') \<and>
    o_id ` set (orders s) \<subseteq> o_id ` set (orders s') \<and>
    t_id ` set (tickets s) \<subseteq> t_id ` set (tickets s') \<and>
    dp_id ` set (doorPasses s) \<subseteq> dp_id ` set (doorPasses s') \<and>
    ds_scanId ` set (doorScans s) \<subseteq> ds_scanId ` set (doorScans s') \<and>
    sp_id ` set (sponsors s) \<subseteq> sp_id ` set (sponsors s')"

lemma references_rows_image:
  "references_rows n key (map g ks) rs = None \<Longrightarrow> g ` set ks \<subseteq> g ` set ks' \<Longrightarrow>
    references_rows n key (map g ks') rs = None"
  by (erule references_rows_mono) simp

lemma events_mono: "keys_le s s' \<Longrightarrow> events_violation s rs = None \<Longrightarrow> events_violation s' rs = None"
  by (auto simp: events_violation_def first_violation_None keys_le_def intro: references_rows_image)

lemma ticket_types_mono: "keys_le s s' \<Longrightarrow> ticket_types_violation s rs = None \<Longrightarrow> ticket_types_violation s' rs = None"
  by (auto simp: ticket_types_violation_def first_violation_None keys_le_def intro: references_rows_image)

lemma restrictions_mono: "keys_le s s' \<Longrightarrow> restrictions_violation s rs = None \<Longrightarrow> restrictions_violation s' rs = None"
  by (auto simp: restrictions_violation_def first_violation_None keys_le_def intro: references_rows_image)

lemma orders_mono: "keys_le s s' \<Longrightarrow> orders_violation s rs = None \<Longrightarrow> orders_violation s' rs = None"
  by (auto simp: orders_violation_def first_violation_None keys_le_def intro: references_rows_image)

lemma order_events_mono: "keys_le s s' \<Longrightarrow> order_events_violation s rs = None \<Longrightarrow> order_events_violation s' rs = None"
  by (auto simp: order_events_violation_def first_violation_None keys_le_def intro: references_rows_image)

lemma tickets_mono: "keys_le s s' \<Longrightarrow> tickets_violation s rs = None \<Longrightarrow> tickets_violation s' rs = None"
  by (auto simp: tickets_violation_def first_violation_None keys_le_def intro: references_rows_image)

lemma door_passes_mono: "keys_le s s' \<Longrightarrow> door_passes_violation s rs = None \<Longrightarrow> door_passes_violation s' rs = None"
  by (auto simp: door_passes_violation_def first_violation_None keys_le_def intro: references_rows_image)

lemma door_scans_mono: "keys_le s s' \<Longrightarrow> door_scans_violation s rs = None \<Longrightarrow> door_scans_violation s' rs = None"
  by (auto simp: door_scans_violation_def first_violation_None keys_le_def intro: references_rows_image)

lemma door_decisions_mono: "keys_le s s' \<Longrightarrow> door_decisions_violation s rs = None \<Longrightarrow> door_decisions_violation s' rs = None"
  by (auto simp: door_decisions_violation_def first_violation_None keys_le_def intro: references_rows_image)

lemmas violations_mono =
  events_mono ticket_types_mono restrictions_mono orders_mono order_events_mono tickets_mono door_passes_mono door_scans_mono door_decisions_mono

lemma keys_le_refl [simp]: "keys_le s s"
  by (simp add: keys_le_def)

text \<open>A new table content that keeps the keys and satisfies its own constraints.\<close>

lemma put_events_ok:
  assumes "db_ok s" "events_violation s rs = None" "e_id ` set (events s) \<subseteq> e_id ` set rs"
  shows "db_ok (s\<lparr>events := rs\<rparr>)"
proof -
  let ?s = "s\<lparr>events := rs\<rparr>"
  have le: "keys_le s ?s" using assms by (simp add: keys_le_def)
  have "events_violation ?s rs = None" using le assms(2) by (rule events_mono)
  with assms(1) show ?thesis
    unfolding db_ok_def by (simp add: violations_mono [OF le])
qed

lemma put_ticket_types_ok:
  assumes "db_ok s" "ticket_types_violation s rs = None" "tt_id ` set (ticketTypes s) \<subseteq> tt_id ` set rs"
  shows "db_ok (s\<lparr>ticketTypes := rs\<rparr>)"
proof -
  let ?s = "s\<lparr>ticketTypes := rs\<rparr>"
  have le: "keys_le s ?s" using assms by (simp add: keys_le_def)
  have "ticket_types_violation ?s rs = None" using le assms(2) by (rule ticket_types_mono)
  with assms(1) show ?thesis
    unfolding db_ok_def by (simp add: violations_mono [OF le])
qed

lemma put_promo_codes_ok:
  assumes "db_ok s" "promo_codes_violation rs = None" "p_id ` set (promoCodes s) \<subseteq> p_id ` set rs"
  shows "db_ok (s\<lparr>promoCodes := rs\<rparr>)"
proof -
  let ?s = "s\<lparr>promoCodes := rs\<rparr>"
  have le: "keys_le s ?s" using assms by (simp add: keys_le_def)
  have "promo_codes_violation rs = None" using assms(2) .
  with assms(1) show ?thesis
    unfolding db_ok_def by (simp add: violations_mono [OF le])
qed

lemma put_restrictions_ok:
  assumes "db_ok s" "restrictions_violation s rs = None"
  shows "db_ok (s\<lparr>promoCodeTicketTypes := rs\<rparr>)"
proof -
  let ?s = "s\<lparr>promoCodeTicketTypes := rs\<rparr>"
  have le: "keys_le s ?s" using assms by (simp add: keys_le_def)
  have "restrictions_violation ?s rs = None" using le assms(2) by (rule restrictions_mono)
  with assms(1) show ?thesis
    unfolding db_ok_def by (simp add: violations_mono [OF le])
qed

lemma put_orders_ok:
  assumes "db_ok s" "orders_violation s rs = None" "o_id ` set (orders s) \<subseteq> o_id ` set rs"
  shows "db_ok (s\<lparr>orders := rs\<rparr>)"
proof -
  let ?s = "s\<lparr>orders := rs\<rparr>"
  have le: "keys_le s ?s" using assms by (simp add: keys_le_def)
  have "orders_violation ?s rs = None" using le assms(2) by (rule orders_mono)
  with assms(1) show ?thesis
    unfolding db_ok_def by (simp add: violations_mono [OF le])
qed

lemma put_order_events_ok:
  assumes "db_ok s" "order_events_violation s rs = None"
  shows "db_ok (s\<lparr>orderEvents := rs\<rparr>)"
proof -
  let ?s = "s\<lparr>orderEvents := rs\<rparr>"
  have le: "keys_le s ?s" using assms by (simp add: keys_le_def)
  have "order_events_violation ?s rs = None" using le assms(2) by (rule order_events_mono)
  with assms(1) show ?thesis
    unfolding db_ok_def by (simp add: violations_mono [OF le])
qed

lemma put_tickets_ok:
  assumes "db_ok s" "tickets_violation s rs = None" "t_id ` set (tickets s) \<subseteq> t_id ` set rs"
  shows "db_ok (s\<lparr>tickets := rs\<rparr>)"
proof -
  let ?s = "s\<lparr>tickets := rs\<rparr>"
  have le: "keys_le s ?s" using assms by (simp add: keys_le_def)
  have "tickets_violation ?s rs = None" using le assms(2) by (rule tickets_mono)
  with assms(1) show ?thesis
    unfolding db_ok_def by (simp add: violations_mono [OF le])
qed

lemma put_door_passes_ok:
  assumes "db_ok s" "door_passes_violation s rs = None" "dp_id ` set (doorPasses s) \<subseteq> dp_id ` set rs"
  shows "db_ok (s\<lparr>doorPasses := rs\<rparr>)"
proof -
  let ?s = "s\<lparr>doorPasses := rs\<rparr>"
  have le: "keys_le s ?s" using assms by (simp add: keys_le_def)
  have "door_passes_violation ?s rs = None" using le assms(2) by (rule door_passes_mono)
  with assms(1) show ?thesis
    unfolding db_ok_def by (simp add: violations_mono [OF le])
qed

lemma put_door_scans_ok:
  assumes "db_ok s" "door_scans_violation s rs = None" "ds_scanId ` set (doorScans s) \<subseteq> ds_scanId ` set rs"
  shows "db_ok (s\<lparr>doorScans := rs\<rparr>)"
proof -
  let ?s = "s\<lparr>doorScans := rs\<rparr>"
  have le: "keys_le s ?s" using assms by (simp add: keys_le_def)
  have "door_scans_violation ?s rs = None" using le assms(2) by (rule door_scans_mono)
  with assms(1) show ?thesis
    unfolding db_ok_def by (simp add: violations_mono [OF le])
qed

lemma put_door_decisions_ok:
  assumes "db_ok s" "door_decisions_violation s rs = None"
  shows "db_ok (s\<lparr>doorDecisions := rs\<rparr>)"
proof -
  let ?s = "s\<lparr>doorDecisions := rs\<rparr>"
  have le: "keys_le s ?s" using assms by (simp add: keys_le_def)
  have "door_decisions_violation ?s rs = None" using le assms(2) by (rule door_decisions_mono)
  with assms(1) show ?thesis
    unfolding db_ok_def by (simp add: violations_mono [OF le])
qed

lemma put_sponsors_ok:
  assumes "db_ok s" "sponsors_violation rs = None" "sp_id ` set (sponsors s) \<subseteq> sp_id ` set rs"
  shows "db_ok (s\<lparr>sponsors := rs\<rparr>)"
proof -
  let ?s = "s\<lparr>sponsors := rs\<rparr>"
  have le: "keys_le s ?s" using assms by (simp add: keys_le_def)
  have "sponsors_violation rs = None" using assms(2) .
  with assms(1) show ?thesis
    unfolding db_ok_def by (simp add: violations_mono [OF le])
qed

section \<open>INSERT and UPDATE\<close>

text \<open>
  \<open>INSERT ... VALUES rows RETURNING *\<close> and \<open>UPDATE ... SET f WHERE p RETURNING *\<close> on each
  table. Each yields the written rows, or the violation that made the statement fail.
\<close>

definition insert_events :: "event_row list \<Rightarrow> event_row list stmt" where
  "insert_events rs s =
    andThen (put_events (events s @ rs)) (\<lambda>_. return_tx rs) s"

definition insert_ticket_types :: "ticket_type_row list \<Rightarrow> ticket_type_row list stmt" where
  "insert_ticket_types rs s =
    andThen (put_ticket_types (ticketTypes s @ rs)) (\<lambda>_. return_tx rs) s"

definition insert_promo_codes :: "promo_row list \<Rightarrow> promo_row list stmt" where
  "insert_promo_codes rs s =
    andThen (put_promo_codes (promoCodes s @ rs)) (\<lambda>_. return_tx rs) s"

definition insert_restrictions :: "(uuid \<times> uuid) list \<Rightarrow> (uuid \<times> uuid) list stmt" where
  "insert_restrictions rs s =
    andThen (put_restrictions (promoCodeTicketTypes s @ rs)) (\<lambda>_. return_tx rs) s"

definition insert_orders :: "order_row list \<Rightarrow> order_row list stmt" where
  "insert_orders rs s =
    andThen (put_orders (orders s @ rs)) (\<lambda>_. return_tx rs) s"

definition insert_order_events :: "order_event_row list \<Rightarrow> order_event_row list stmt" where
  "insert_order_events rs s =
    andThen (put_order_events (orderEvents s @ rs)) (\<lambda>_. return_tx rs) s"

definition insert_tickets :: "ticket_row list \<Rightarrow> ticket_row list stmt" where
  "insert_tickets rs s =
    andThen (put_tickets (tickets s @ rs)) (\<lambda>_. return_tx rs) s"

definition insert_door_passes :: "door_pass_row list \<Rightarrow> door_pass_row list stmt" where
  "insert_door_passes rs s =
    andThen (put_door_passes (doorPasses s @ rs)) (\<lambda>_. return_tx rs) s"

definition insert_door_scans :: "door_scan_row list \<Rightarrow> door_scan_row list stmt" where
  "insert_door_scans rs s =
    andThen (put_door_scans (doorScans s @ rs)) (\<lambda>_. return_tx rs) s"

definition insert_door_decisions :: "door_decision_row list \<Rightarrow> door_decision_row list stmt" where
  "insert_door_decisions rs s =
    andThen (put_door_decisions (doorDecisions s @ rs)) (\<lambda>_. return_tx rs) s"

definition insert_sponsors :: "sponsor_row list \<Rightarrow> sponsor_row list stmt" where
  "insert_sponsors rs s =
    andThen (put_sponsors (sponsors s @ rs)) (\<lambda>_. return_tx rs) s"

definition update_events :: "(event_row \<Rightarrow> bool) \<Rightarrow> (event_row \<Rightarrow> event_row) \<Rightarrow> event_row list stmt" where
  "update_events p f s =
    andThen (put_events (update_rows p f (events s))) (\<lambda>_. return_tx (returned p f (events s))) s"

definition update_ticket_types :: "(ticket_type_row \<Rightarrow> bool) \<Rightarrow> (ticket_type_row \<Rightarrow> ticket_type_row) \<Rightarrow> ticket_type_row list stmt" where
  "update_ticket_types p f s =
    andThen (put_ticket_types (update_rows p f (ticketTypes s))) (\<lambda>_. return_tx (returned p f (ticketTypes s))) s"

definition update_promo_codes :: "(promo_row \<Rightarrow> bool) \<Rightarrow> (promo_row \<Rightarrow> promo_row) \<Rightarrow> promo_row list stmt" where
  "update_promo_codes p f s =
    andThen (put_promo_codes (update_rows p f (promoCodes s))) (\<lambda>_. return_tx (returned p f (promoCodes s))) s"

definition update_orders :: "(order_row \<Rightarrow> bool) \<Rightarrow> (order_row \<Rightarrow> order_row) \<Rightarrow> order_row list stmt" where
  "update_orders p f s =
    andThen (put_orders (update_rows p f (orders s))) (\<lambda>_. return_tx (returned p f (orders s))) s"

definition update_tickets :: "(ticket_row \<Rightarrow> bool) \<Rightarrow> (ticket_row \<Rightarrow> ticket_row) \<Rightarrow> ticket_row list stmt" where
  "update_tickets p f s =
    andThen (put_tickets (update_rows p f (tickets s))) (\<lambda>_. return_tx (returned p f (tickets s))) s"

definition update_door_passes :: "(door_pass_row \<Rightarrow> bool) \<Rightarrow> (door_pass_row \<Rightarrow> door_pass_row) \<Rightarrow> door_pass_row list stmt" where
  "update_door_passes p f s =
    andThen (put_door_passes (update_rows p f (doorPasses s))) (\<lambda>_. return_tx (returned p f (doorPasses s))) s"

definition update_sponsors :: "(sponsor_row \<Rightarrow> bool) \<Rightarrow> (sponsor_row \<Rightarrow> sponsor_row) \<Rightarrow> sponsor_row list stmt" where
  "update_sponsors p f s =
    andThen (put_sponsors (update_rows p f (sponsors s))) (\<lambda>_. return_tx (returned p f (sponsors s))) s"

lemma insert_events_Inr [tx_simps]:
  "insert_events rs s = Inr (x, s') \<longleftrightarrow>
    events_violation s (events s @ rs) = None \<and> x = rs \<and> s' = s\<lparr>events := events s @ rs\<rparr>"
  by (auto simp: insert_events_def tx_simps)

lemma update_events_Inr [tx_simps]:
  "update_events p f s = Inr (x, s') \<longleftrightarrow>
    events_violation s (update_rows p f (events s)) = None \<and> x = returned p f (events s) \<and>
    s' = s\<lparr>events := update_rows p f (events s)\<rparr>"
  by (auto simp: update_events_def tx_simps)

lemma insert_ticket_types_Inr [tx_simps]:
  "insert_ticket_types rs s = Inr (x, s') \<longleftrightarrow>
    ticket_types_violation s (ticketTypes s @ rs) = None \<and> x = rs \<and> s' = s\<lparr>ticketTypes := ticketTypes s @ rs\<rparr>"
  by (auto simp: insert_ticket_types_def tx_simps)

lemma update_ticket_types_Inr [tx_simps]:
  "update_ticket_types p f s = Inr (x, s') \<longleftrightarrow>
    ticket_types_violation s (update_rows p f (ticketTypes s)) = None \<and> x = returned p f (ticketTypes s) \<and>
    s' = s\<lparr>ticketTypes := update_rows p f (ticketTypes s)\<rparr>"
  by (auto simp: update_ticket_types_def tx_simps)

lemma insert_promo_codes_Inr [tx_simps]:
  "insert_promo_codes rs s = Inr (x, s') \<longleftrightarrow>
    promo_codes_violation (promoCodes s @ rs) = None \<and> x = rs \<and> s' = s\<lparr>promoCodes := promoCodes s @ rs\<rparr>"
  by (auto simp: insert_promo_codes_def tx_simps)

lemma update_promo_codes_Inr [tx_simps]:
  "update_promo_codes p f s = Inr (x, s') \<longleftrightarrow>
    promo_codes_violation (update_rows p f (promoCodes s)) = None \<and> x = returned p f (promoCodes s) \<and>
    s' = s\<lparr>promoCodes := update_rows p f (promoCodes s)\<rparr>"
  by (auto simp: update_promo_codes_def tx_simps)

lemma insert_restrictions_Inr [tx_simps]:
  "insert_restrictions rs s = Inr (x, s') \<longleftrightarrow>
    restrictions_violation s (promoCodeTicketTypes s @ rs) = None \<and> x = rs \<and> s' = s\<lparr>promoCodeTicketTypes := promoCodeTicketTypes s @ rs\<rparr>"
  by (auto simp: insert_restrictions_def tx_simps)

lemma insert_orders_Inr [tx_simps]:
  "insert_orders rs s = Inr (x, s') \<longleftrightarrow>
    orders_violation s (orders s @ rs) = None \<and> x = rs \<and> s' = s\<lparr>orders := orders s @ rs\<rparr>"
  by (auto simp: insert_orders_def tx_simps)

lemma update_orders_Inr [tx_simps]:
  "update_orders p f s = Inr (x, s') \<longleftrightarrow>
    orders_violation s (update_rows p f (orders s)) = None \<and> x = returned p f (orders s) \<and>
    s' = s\<lparr>orders := update_rows p f (orders s)\<rparr>"
  by (auto simp: update_orders_def tx_simps)

lemma insert_order_events_Inr [tx_simps]:
  "insert_order_events rs s = Inr (x, s') \<longleftrightarrow>
    order_events_violation s (orderEvents s @ rs) = None \<and> x = rs \<and> s' = s\<lparr>orderEvents := orderEvents s @ rs\<rparr>"
  by (auto simp: insert_order_events_def tx_simps)

lemma insert_tickets_Inr [tx_simps]:
  "insert_tickets rs s = Inr (x, s') \<longleftrightarrow>
    tickets_violation s (tickets s @ rs) = None \<and> x = rs \<and> s' = s\<lparr>tickets := tickets s @ rs\<rparr>"
  by (auto simp: insert_tickets_def tx_simps)

lemma update_tickets_Inr [tx_simps]:
  "update_tickets p f s = Inr (x, s') \<longleftrightarrow>
    tickets_violation s (update_rows p f (tickets s)) = None \<and> x = returned p f (tickets s) \<and>
    s' = s\<lparr>tickets := update_rows p f (tickets s)\<rparr>"
  by (auto simp: update_tickets_def tx_simps)

lemma insert_door_passes_Inr [tx_simps]:
  "insert_door_passes rs s = Inr (x, s') \<longleftrightarrow>
    door_passes_violation s (doorPasses s @ rs) = None \<and> x = rs \<and> s' = s\<lparr>doorPasses := doorPasses s @ rs\<rparr>"
  by (auto simp: insert_door_passes_def tx_simps)

lemma update_door_passes_Inr [tx_simps]:
  "update_door_passes p f s = Inr (x, s') \<longleftrightarrow>
    door_passes_violation s (update_rows p f (doorPasses s)) = None \<and> x = returned p f (doorPasses s) \<and>
    s' = s\<lparr>doorPasses := update_rows p f (doorPasses s)\<rparr>"
  by (auto simp: update_door_passes_def tx_simps)

lemma insert_door_scans_Inr [tx_simps]:
  "insert_door_scans rs s = Inr (x, s') \<longleftrightarrow>
    door_scans_violation s (doorScans s @ rs) = None \<and> x = rs \<and> s' = s\<lparr>doorScans := doorScans s @ rs\<rparr>"
  by (auto simp: insert_door_scans_def tx_simps)

lemma insert_door_decisions_Inr [tx_simps]:
  "insert_door_decisions rs s = Inr (x, s') \<longleftrightarrow>
    door_decisions_violation s (doorDecisions s @ rs) = None \<and> x = rs \<and> s' = s\<lparr>doorDecisions := doorDecisions s @ rs\<rparr>"
  by (auto simp: insert_door_decisions_def tx_simps)

lemma insert_sponsors_Inr [tx_simps]:
  "insert_sponsors rs s = Inr (x, s') \<longleftrightarrow>
    sponsors_violation (sponsors s @ rs) = None \<and> x = rs \<and> s' = s\<lparr>sponsors := sponsors s @ rs\<rparr>"
  by (auto simp: insert_sponsors_def tx_simps)

lemma update_sponsors_Inr [tx_simps]:
  "update_sponsors p f s = Inr (x, s') \<longleftrightarrow>
    sponsors_violation (update_rows p f (sponsors s)) = None \<and> x = returned p f (sponsors s) \<and>
    s' = s\<lparr>sponsors := update_rows p f (sponsors s)\<rparr>"
  by (auto simp: update_sponsors_def tx_simps)

lemma keys_update_rows:
  "(\<And>r. p r \<Longrightarrow> key (f r) = key r) \<Longrightarrow> key ` set (update_rows p f rs) = key ` set rs"
proof -
  assume same: "\<And>r. p r \<Longrightarrow> key (f r) = key r"
  have "map key (update_rows p f rs) = map key rs" by (rule map_update_rows) (rule same)
  then have "set (map key (update_rows p f rs)) = set (map key rs)" by simp
  then show ?thesis by simp
qed

lemma insert_events_keeps [keeps_intros]: "keeps db_ok (insert_events rs)"
  by (rule keepsI) (auto simp: tx_simps intro!: put_events_ok)

lemma update_events_keeps [keeps_intros]:
  "(\<And>r. e_id (f r) = e_id r) \<Longrightarrow> keeps db_ok (update_events p f)"
  by (rule keepsI) (auto simp: tx_simps keys_update_rows [of p e_id f] intro!: put_events_ok)

lemma insert_ticket_types_keeps [keeps_intros]: "keeps db_ok (insert_ticket_types rs)"
  by (rule keepsI) (auto simp: tx_simps intro!: put_ticket_types_ok)

lemma update_ticket_types_keeps [keeps_intros]:
  "(\<And>r. tt_id (f r) = tt_id r) \<Longrightarrow> keeps db_ok (update_ticket_types p f)"
  by (rule keepsI) (auto simp: tx_simps keys_update_rows [of p tt_id f] intro!: put_ticket_types_ok)

lemma insert_promo_codes_keeps [keeps_intros]: "keeps db_ok (insert_promo_codes rs)"
  by (rule keepsI) (auto simp: tx_simps intro!: put_promo_codes_ok)

lemma update_promo_codes_keeps [keeps_intros]:
  "(\<And>r. p_id (f r) = p_id r) \<Longrightarrow> keeps db_ok (update_promo_codes p f)"
  by (rule keepsI) (auto simp: tx_simps keys_update_rows [of p p_id f] intro!: put_promo_codes_ok)

lemma insert_restrictions_keeps [keeps_intros]: "keeps db_ok (insert_restrictions rs)"
  by (rule keepsI) (auto simp: tx_simps intro!: put_restrictions_ok)

lemma insert_orders_keeps [keeps_intros]: "keeps db_ok (insert_orders rs)"
  by (rule keepsI) (auto simp: tx_simps intro!: put_orders_ok)

lemma update_orders_keeps [keeps_intros]:
  "(\<And>r. o_id (f r) = o_id r) \<Longrightarrow> keeps db_ok (update_orders p f)"
  by (rule keepsI) (auto simp: tx_simps keys_update_rows [of p o_id f] intro!: put_orders_ok)

lemma insert_order_events_keeps [keeps_intros]: "keeps db_ok (insert_order_events rs)"
  by (rule keepsI) (auto simp: tx_simps intro!: put_order_events_ok)

lemma insert_tickets_keeps [keeps_intros]: "keeps db_ok (insert_tickets rs)"
  by (rule keepsI) (auto simp: tx_simps intro!: put_tickets_ok)

lemma update_tickets_keeps [keeps_intros]:
  "(\<And>r. t_id (f r) = t_id r) \<Longrightarrow> keeps db_ok (update_tickets p f)"
  by (rule keepsI) (auto simp: tx_simps keys_update_rows [of p t_id f] intro!: put_tickets_ok)

lemma insert_door_passes_keeps [keeps_intros]: "keeps db_ok (insert_door_passes rs)"
  by (rule keepsI) (auto simp: tx_simps intro!: put_door_passes_ok)

lemma update_door_passes_keeps [keeps_intros]:
  "(\<And>r. dp_id (f r) = dp_id r) \<Longrightarrow> keeps db_ok (update_door_passes p f)"
  by (rule keepsI) (auto simp: tx_simps keys_update_rows [of p dp_id f] intro!: put_door_passes_ok)

lemma insert_door_scans_keeps [keeps_intros]: "keeps db_ok (insert_door_scans rs)"
  by (rule keepsI) (auto simp: tx_simps intro!: put_door_scans_ok)

lemma insert_door_decisions_keeps [keeps_intros]: "keeps db_ok (insert_door_decisions rs)"
  by (rule keepsI) (auto simp: tx_simps intro!: put_door_decisions_ok)

lemma insert_sponsors_keeps [keeps_intros]: "keeps db_ok (insert_sponsors rs)"
  by (rule keepsI) (auto simp: tx_simps intro!: put_sponsors_ok)

lemma update_sponsors_keeps [keeps_intros]:
  "(\<And>r. sp_id (f r) = sp_id r) \<Longrightarrow> keeps db_ok (update_sponsors p f)"
  by (rule keepsI) (auto simp: tx_simps keys_update_rows [of p sp_id f] intro!: put_sponsors_ok)

end
