(* ===== verification/Inventory.thy ===== *)
theory Inventory
  imports Database
begin

text \<open>
  Seat counters: \<open>src/src/server/repositories/inventory.repository.ts\<close> (four conditional
  UPDATEs, the only writers of \<open>quantity_reserved\<close> and \<open>quantity_sold\<close>) and
  \<open>src/src/server/services/inventory.service.ts\<close> (the per-order quantity rule in front of
  them). The locale \<open>seat_counters\<close> is what the order, fulfilment and expiry services rely
  on; its interpretation discharges the laws for the model of the two files.
\<close>

section \<open>inventory.repository.ts\<close>

definition AVAILABILITY_CHECK :: string where
  "AVAILABILITY_CHECK = ''ticket_types_availability_nonneg''"
definition RESERVED_CHECK :: string where "RESERVED_CHECK = ''ticket_types_reserved_nonneg''"
definition SOLD_CHECK :: string where "SOLD_CHECK = ''ticket_types_sold_nonneg''"

definition assertPositiveInteger :: "int \<Rightarrow> unit db_tx" where
  "assertPositiveInteger quantity = require_tx (quantity > 0) (InvalidQuantityError quantity)"

definition repo_reserve :: "uuid \<Rightarrow> int \<Rightarrow> bool db_tx" where
  "repo_reserve ticketTypeId quantity =
    andThen (assertPositiveInteger quantity) (\<lambda>_.
    andThen (mapError PgError (update_ticket_types
      (\<lambda>t. tt_id t = ticketTypeId \<and>
        tt_quantityTotal t - tt_quantitySold t - tt_quantityReserved t \<ge> quantity)
      (\<lambda>t. t\<lparr>tt_quantityReserved := tt_quantityReserved t + quantity\<rparr>))) (\<lambda>rows.
    return_tx (length rows = 1)))"

definition repo_release :: "uuid \<Rightarrow> int \<Rightarrow> unit db_tx" where
  "repo_release ticketTypeId quantity =
    andThen (assertPositiveInteger quantity) (\<lambda>_.
    andThen (mapError
      (\<lambda>err. if isCheckViolation err RESERVED_CHECK
        then InventoryStateError ticketTypeId OpRelease else PgError err)
      (update_ticket_types
        (\<lambda>t. tt_id t = ticketTypeId \<and> tt_quantityReserved t \<ge> quantity)
        (\<lambda>t. t\<lparr>tt_quantityReserved := tt_quantityReserved t - quantity\<rparr>))) (\<lambda>rows.
    require_tx (length rows = 1) (InventoryStateError ticketTypeId OpRelease)))"

definition repo_convertToSold :: "uuid \<Rightarrow> int \<Rightarrow> unit db_tx" where
  "repo_convertToSold ticketTypeId quantity =
    andThen (assertPositiveInteger quantity) (\<lambda>_.
    andThen (mapError
      (\<lambda>err. if isCheckViolation err RESERVED_CHECK \<or> isCheckViolation err AVAILABILITY_CHECK
        then InventoryStateError ticketTypeId OpConvertToSold else PgError err)
      (update_ticket_types
        (\<lambda>t. tt_id t = ticketTypeId \<and> tt_quantityReserved t \<ge> quantity)
        (\<lambda>t. t\<lparr>tt_quantityReserved := tt_quantityReserved t - quantity,
               tt_quantitySold := tt_quantitySold t + quantity\<rparr>))) (\<lambda>rows.
    require_tx (length rows = 1) (InventoryStateError ticketTypeId OpConvertToSold)))"

definition repo_releaseSold :: "uuid \<Rightarrow> int \<Rightarrow> unit db_tx" where
  "repo_releaseSold ticketTypeId quantity =
    andThen (assertPositiveInteger quantity) (\<lambda>_.
    andThen (mapError
      (\<lambda>err. if isCheckViolation err SOLD_CHECK
        then InventoryStateError ticketTypeId OpReleaseSold else PgError err)
      (update_ticket_types
        (\<lambda>t. tt_id t = ticketTypeId \<and> tt_quantitySold t \<ge> quantity)
        (\<lambda>t. t\<lparr>tt_quantitySold := tt_quantitySold t - quantity\<rparr>))) (\<lambda>rows.
    require_tx (length rows = 1) (InventoryStateError ticketTypeId OpReleaseSold)))"

section \<open>inventory.service.ts\<close>

definition assertQuantity :: "int \<Rightarrow> unit db_tx" where
  "assertQuantity quantity =
    require_tx (isValidOrderQuantity quantity) (InvalidQuantityError quantity)"

definition hold :: "uuid \<Rightarrow> int \<Rightarrow> bool db_tx" where
  "hold ticketTypeId quantity =
    andThen (assertQuantity quantity) (\<lambda>_. repo_reserve ticketTypeId quantity)"

definition release :: "uuid \<Rightarrow> int \<Rightarrow> unit db_tx" where
  "release ticketTypeId quantity =
    andThen (assertQuantity quantity) (\<lambda>_. repo_release ticketTypeId quantity)"

definition convertToSold :: "uuid \<Rightarrow> int \<Rightarrow> unit db_tx" where
  "convertToSold ticketTypeId quantity =
    andThen (assertQuantity quantity) (\<lambda>_. repo_convertToSold ticketTypeId quantity)"

definition releaseSold :: "uuid \<Rightarrow> int \<Rightarrow> unit db_tx" where
  "releaseSold ticketTypeId quantity =
    andThen (assertQuantity quantity) (\<lambda>_. repo_releaseSold ticketTypeId quantity)"

section \<open>The counters' contract\<close>

text \<open>
  \<open>held\<close>, \<open>sold\<close> and \<open>capacity\<close> observe one ticket type. Each operation either moves
  exactly its own counters of exactly its own ticket type, or fails; a store the database
  accepted never holds or sells more than the capacity.
\<close>

locale seat_counters =
  fixes hold_op :: "uuid \<Rightarrow> int \<Rightarrow> (app_error, 's, bool) tx"
    and release_op convert_op unsell_op :: "uuid \<Rightarrow> int \<Rightarrow> (app_error, 's, unit) tx"
    and held sold capacity :: "'s \<Rightarrow> uuid \<Rightarrow> int"
    and ok :: "'s \<Rightarrow> bool"
  assumes hold_True: "ok s \<Longrightarrow> hold_op t q s = Inr (True, s') \<Longrightarrow>
      held s' = (held s)(t := held s t + q) \<and> sold s' = sold s \<and> capacity s' = capacity s"
    and hold_False: "ok s \<Longrightarrow> hold_op t q s = Inr (False, s') \<Longrightarrow> s' = s"
    and release_eff: "ok s \<Longrightarrow> release_op t q s = Inr (u, s') \<Longrightarrow>
      held s' = (held s)(t := held s t - q) \<and> sold s' = sold s \<and> capacity s' = capacity s"
    and convert_eff: "ok s \<Longrightarrow> convert_op t q s = Inr (u, s') \<Longrightarrow>
      held s' = (held s)(t := held s t - q) \<and> sold s' = (sold s)(t := sold s t + q) \<and>
      capacity s' = capacity s"
    and unsell_eff: "ok s \<Longrightarrow> unsell_op t q s = Inr (u, s') \<Longrightarrow>
      held s' = held s \<and> sold s' = (sold s)(t := sold s t - q) \<and> capacity s' = capacity s"
    and keeps_ok: "keeps ok (hold_op t q)" "keeps ok (release_op t q)"
      "keeps ok (convert_op t q)" "keeps ok (unsell_op t q)"
    and bounds: "ok s \<Longrightarrow> 0 \<le> held s t \<and> 0 \<le> sold s t \<and> held s t + sold s t \<le> capacity s t"
    and hold_positive: "hold_op t q s = Inr (b, s') \<Longrightarrow> 1 \<le> q"
begin

lemma hold_available:
  assumes "ok s" "hold_op t q s = Inr (True, s')"
  shows "held s t + sold s t + q \<le> capacity s t"
proof -
  have "ok s'" using keepsD [OF keeps_ok(1) assms(2,1)] .
  with bounds [of s' t] hold_True [OF assms] show ?thesis by (metis add.assoc add.commute fun_upd_same)
qed

lemma hold_then_release:
  assumes "ok s" "hold_op t q s = Inr (True, s1)" "release_op t q s1 = Inr (u, s2)"
  shows "held s2 = held s \<and> sold s2 = sold s"
proof -
  have "ok s1" using keepsD [OF keeps_ok(1) assms(2,1)] .
  with release_eff [OF this assms(3)] hold_True [OF assms(1,2)] show ?thesis by (simp add: fun_eq_iff)
qed

lemma hold_then_convert:
  assumes "ok s" "hold_op t q s = Inr (True, s1)" "convert_op t q s1 = Inr (u, s2)"
  shows "held s2 = held s \<and> sold s2 = (sold s)(t := sold s t + q)"
proof -
  have "ok s1" using keepsD [OF keeps_ok(1) assms(2,1)] .
  with convert_eff [OF this assms(3)] hold_True [OF assms(1,2)] show ?thesis by (simp add: fun_eq_iff)
qed

end

section \<open>The model keeps the contract\<close>

definition seat_of :: "(ticket_type_row \<Rightarrow> int) \<Rightarrow> db \<Rightarrow> uuid \<Rightarrow> int" where
  "seat_of c s i = (case row_by tt_id i (ticketTypes s) of None \<Rightarrow> 0 | Some t \<Rightarrow> c t)"

abbreviation held_seats :: "db \<Rightarrow> uuid \<Rightarrow> int" where "held_seats \<equiv> seat_of tt_quantityReserved"
abbreviation sold_seats :: "db \<Rightarrow> uuid \<Rightarrow> int" where "sold_seats \<equiv> seat_of tt_quantitySold"
abbreviation seat_capacity :: "db \<Rightarrow> uuid \<Rightarrow> int" where "seat_capacity \<equiv> seat_of tt_quantityTotal"

lemma db_ok_ticket_types: "db_ok s \<Longrightarrow> ticket_types_violation s (ticketTypes s) = None"
  by (simp add: db_ok_def)

lemma seats_bounds:
  assumes "db_ok s"
  shows "0 \<le> held_seats s t \<and> 0 \<le> sold_seats s t \<and> held_seats s t + sold_seats s t \<le> seat_capacity s t"
proof (cases "row_by tt_id t (ticketTypes s)")
  case (Some r)
  then have "r \<in> set (ticketTypes s)" by (auto dest: row_by_Some)
  from ticket_types_ok(2,3) [OF db_ok_ticket_types [OF assms] this]
  have "0 \<le> tt_quantityReserved r \<and> 0 \<le> tt_quantitySold r \<and>
    tt_quantityReserved r + tt_quantitySold r \<le> tt_quantityTotal r" by linarith
  with Some show ?thesis by (simp add: seat_of_def)
qed (simp add: seat_of_def)

text \<open>A keyed conditional UPDATE that returned exactly one row changed that row only.\<close>

lemma seat_update:
  assumes ok: "db_ok s" and id: "\<And>r. tt_id (f r) = tt_id r"
    and one: "length (returned (\<lambda>r. tt_id r = i \<and> c r) f (ticketTypes s)) = 1"
  obtains r where "row_by tt_id i (ticketTypes s) = Some r" "c r" "r \<in> set (ticketTypes s)"
    "\<And>g. seat_of g (s\<lparr>ticketTypes := update_rows (\<lambda>r. tt_id r = i \<and> c r) f (ticketTypes s)\<rparr>) =
      (seat_of g s)(i := g (f r))"
proof -
  note d = ticket_types_ok(1) [OF db_ok_ticket_types [OF ok]]
  from one obtain r where row: "row_by tt_id i (ticketTypes s) = Some r" "c r"
    by (auto simp: returned_key [OF d] split: option.splits if_splits)
  then have r: "r \<in> set (ticketTypes s)" "tt_id r = i" by (auto dest: row_by_Some)
  have "seat_of g (s\<lparr>ticketTypes := update_rows (\<lambda>r. tt_id r = i \<and> c r) f (ticketTypes s)\<rparr>) j =
    ((seat_of g s)(i := g (f r))) j" for g j
    using row r(2)
    by (auto simp: seat_of_def row_by_update_rows id dest: row_by_Some split: option.splits)
  with row r(1) that show ?thesis by blast
qed

lemmas inventory_defs =
  hold_def release_def convertToSold_def releaseSold_def assertQuantity_def
  repo_reserve_def repo_release_def repo_convertToSold_def repo_releaseSold_def
  assertPositiveInteger_def

lemma inventory_keeps [keeps_intros]:
  "keeps db_ok (hold t q)" "keeps db_ok (release t q)"
  "keeps db_ok (convertToSold t q)" "keeps db_ok (releaseSold t q)"
  unfolding inventory_defs by (intro keeps_intros; simp)+

text \<open>The counters are the only columns an inventory operation writes.\<close>

definition same_but_counters :: "db \<Rightarrow> db \<Rightarrow> bool" where
  "same_but_counters s s' \<longleftrightarrow>
    (\<exists>tts. s' = s\<lparr>ticketTypes := tts\<rparr> \<and>
      map (\<lambda>t. t\<lparr>tt_quantityReserved := 0, tt_quantitySold := 0\<rparr>) tts =
      map (\<lambda>t. t\<lparr>tt_quantityReserved := 0, tt_quantitySold := 0\<rparr>) (ticketTypes s))"

lemma inventory_frame:
  "hold t q s = Inr (b, s') \<Longrightarrow> same_but_counters s s'"
  "release t q s = Inr (u, s') \<Longrightarrow> same_but_counters s s'"
  "convertToSold t q s = Inr (u, s') \<Longrightarrow> same_but_counters s s'"
  "releaseSold t q s = Inr (u, s') \<Longrightarrow> same_but_counters s s'"
  unfolding inventory_defs same_but_counters_def tx_simps by (auto intro!: map_update_rows)

lemma hold_False_same:
  assumes "db_ok s" "hold t q s = Inr (False, s')"
  shows "s' = s"
proof -
  let ?c = "\<lambda>r. q \<le> tt_quantityTotal r - tt_quantitySold r - tt_quantityReserved r"
  let ?p = "\<lambda>r. tt_id r = t \<and> ?c r"
  let ?f = "\<lambda>r. r\<lparr>tt_quantityReserved := tt_quantityReserved r + q\<rparr>"
  from assms(2) have len: "length (returned ?p ?f (ticketTypes s)) \<noteq> 1"
    and s': "s' = s\<lparr>ticketTypes := update_rows ?p ?f (ticketTypes s)\<rparr>"
    by (auto simp: inventory_defs tx_simps)
  have d: "distinct (map tt_id (ticketTypes s))"
    by (rule ticket_types_ok(1) [OF db_ok_ticket_types [OF assms(1)]])
  from len have "returned ?p ?f (ticketTypes s) = []"
    by (auto simp: returned_key [OF d] split: option.splits if_splits)
  then have "update_rows ?p ?f (ticketTypes s) = ticketTypes s"
    by (intro update_rows_none) (auto simp: returned_empty)
  with s' show ?thesis by simp
qed

lemma seat_of_row: "row_by tt_id i (ticketTypes s) = Some r \<Longrightarrow> seat_of g s i = g r"
  by (simp add: seat_of_def)

lemma hold_True_effect:
  assumes "db_ok s" "hold t q s = Inr (True, s')"
  shows "held_seats s' = (held_seats s)(t := held_seats s t + q) \<and>
    sold_seats s' = sold_seats s \<and> seat_capacity s' = seat_capacity s"
proof -
  let ?f = "\<lambda>r. r\<lparr>tt_quantityReserved := tt_quantityReserved r + q\<rparr>"
  let ?c = "\<lambda>r. q \<le> tt_quantityTotal r - tt_quantitySold r - tt_quantityReserved r"
  from assms(2) have s': "s' = s\<lparr>ticketTypes := update_rows (\<lambda>r. tt_id r = t \<and> ?c r) ?f (ticketTypes s)\<rparr>"
    and one: "length (returned (\<lambda>r. tt_id r = t \<and> ?c r) ?f (ticketTypes s)) = 1"
    by (auto simp: inventory_defs tx_simps)
  obtain r where r: "row_by tt_id t (ticketTypes s) = Some r"
    and eff: "\<And>g. seat_of g s' = (seat_of g s)(t := g (?f r))"
    by (rule seat_update [OF assms(1) _ one]) (simp_all add: s')
  show ?thesis by (simp add: eff seat_of_row [OF r] fun_upd_idem)
qed

lemma release_effect:
  assumes "db_ok s" "release t q s = Inr (u, s')"
  shows "held_seats s' = (held_seats s)(t := held_seats s t - q) \<and>
    sold_seats s' = sold_seats s \<and> seat_capacity s' = seat_capacity s"
proof -
  let ?f = "\<lambda>r. r\<lparr>tt_quantityReserved := tt_quantityReserved r - q\<rparr>"
  let ?c = "\<lambda>r. q \<le> tt_quantityReserved r"
  from assms(2) have s': "s' = s\<lparr>ticketTypes := update_rows (\<lambda>r. tt_id r = t \<and> ?c r) ?f (ticketTypes s)\<rparr>"
    and one: "length (returned (\<lambda>r. tt_id r = t \<and> ?c r) ?f (ticketTypes s)) = 1"
    by (auto simp: inventory_defs tx_simps)
  obtain r where r: "row_by tt_id t (ticketTypes s) = Some r"
    and eff: "\<And>g. seat_of g s' = (seat_of g s)(t := g (?f r))"
    by (rule seat_update [OF assms(1) _ one]) (simp_all add: s')
  show ?thesis by (simp add: eff seat_of_row [OF r] fun_upd_idem)
qed

lemma convertToSold_effect:
  assumes "db_ok s" "convertToSold t q s = Inr (u, s')"
  shows "held_seats s' = (held_seats s)(t := held_seats s t - q) \<and>
    sold_seats s' = (sold_seats s)(t := sold_seats s t + q) \<and> seat_capacity s' = seat_capacity s"
proof -
  let ?f = "\<lambda>r. r\<lparr>tt_quantityReserved := tt_quantityReserved r - q,
    tt_quantitySold := tt_quantitySold r + q\<rparr>"
  let ?c = "\<lambda>r. q \<le> tt_quantityReserved r"
  from assms(2) have s': "s' = s\<lparr>ticketTypes := update_rows (\<lambda>r. tt_id r = t \<and> ?c r) ?f (ticketTypes s)\<rparr>"
    and one: "length (returned (\<lambda>r. tt_id r = t \<and> ?c r) ?f (ticketTypes s)) = 1"
    by (auto simp: inventory_defs tx_simps)
  obtain r where r: "row_by tt_id t (ticketTypes s) = Some r"
    and eff: "\<And>g. seat_of g s' = (seat_of g s)(t := g (?f r))"
    by (rule seat_update [OF assms(1) _ one]) (simp_all add: s')
  show ?thesis by (simp add: eff seat_of_row [OF r] fun_upd_idem)
qed

lemma releaseSold_effect:
  assumes "db_ok s" "releaseSold t q s = Inr (u, s')"
  shows "held_seats s' = held_seats s \<and>
    sold_seats s' = (sold_seats s)(t := sold_seats s t - q) \<and> seat_capacity s' = seat_capacity s"
proof -
  let ?f = "\<lambda>r. r\<lparr>tt_quantitySold := tt_quantitySold r - q\<rparr>"
  let ?c = "\<lambda>r. q \<le> tt_quantitySold r"
  from assms(2) have s': "s' = s\<lparr>ticketTypes := update_rows (\<lambda>r. tt_id r = t \<and> ?c r) ?f (ticketTypes s)\<rparr>"
    and one: "length (returned (\<lambda>r. tt_id r = t \<and> ?c r) ?f (ticketTypes s)) = 1"
    by (auto simp: inventory_defs tx_simps)
  obtain r where r: "row_by tt_id t (ticketTypes s) = Some r"
    and eff: "\<And>g. seat_of g s' = (seat_of g s)(t := g (?f r))"
    by (rule seat_update [OF assms(1) _ one]) (simp_all add: s')
  show ?thesis by (simp add: eff seat_of_row [OF r] fun_upd_idem)
qed

interpretation seats: seat_counters hold release convertToSold releaseSold
    held_seats sold_seats seat_capacity db_ok
proof unfold_locales
  show "hold t q s = Inr (b, s') \<Longrightarrow> 1 \<le> q" for t q s b s'
    by (auto simp: inventory_defs tx_simps isValidOrderQuantity_def MIN_TICKETS_PER_ORDER_def)
qed (simp_all add: hold_True_effect hold_False_same release_effect convertToSold_effect
    releaseSold_effect inventory_keeps seats_bounds)

end
