(* ===== verification/IsoDate.thy ===== *)
theory IsoDate
  imports JsText
begin

text \<open>
  \<open>Date.prototype.toISOString\<close>, which the audit notes quote, for the years 0 to 9999 (the
  proleptic Gregorian calendar of ECMAScript, by the days-to-civil computation).
\<close>

definition pad_to :: "nat \<Rightarrow> jstr \<Rightarrow> jstr" where
  "pad_to n s = replicate (n - length s) 48 @ s"

text \<open>Year, month and day of a day count since 1970-01-01.\<close>

definition civil_from_days :: "int \<Rightarrow> int \<times> int \<times> int" where
  "civil_from_days days =
    (let z = days + 719468;
         era = z div 146097;
         doe = z mod 146097;
         yoe = (doe - doe div 1460 + doe div 36524 - doe div 146096) div 365;
         doy = doe - (365 * yoe + yoe div 4 - yoe div 100);
         mp = (5 * doy + 2) div 153;
         day = doy - (153 * mp + 2) div 5 + 1;
         month = (if mp < 10 then mp + 3 else mp - 9)
     in (yoe + era * 400 + (if month \<le> 2 then 1 else 0), month, day))"

definition two :: "int \<Rightarrow> jstr" where
  "two n = pad_to 2 (decimal (nat n))"

definition toISOString :: "int \<Rightarrow> jstr" where
  "toISOString ms =
    (case civil_from_days (ms div 86400000) of (y, m, d) \<Rightarrow>
      (let t = ms mod 86400000
       in pad_to 4 (decimal (nat y)) @ [45] @ two m @ [45] @ two d @ lit ''T'' @
          two (t div 3600000) @ [58] @ two (t div 60000 mod 60) @ [58] @
          two (t div 1000 mod 60) @ [46] @ pad_to 3 (decimal (nat (t mod 1000))) @ lit ''Z''))"

lemma toISOString_leap_day: "toISOString 1709251199123 = lit ''2024-02-29T23:59:59.123Z''"
  by code_simp

end
