(* ===== verification/Repositories.thy ===== *)
theory Repositories
  imports Inventory IsoDate
begin

text \<open>
  The statements the order, fulfilment, ticket and door services run:
  \<open>src/src/server/repositories/orders.repository.ts\<close>, \<open>tickets.repository.ts\<close>, and the
  reads of \<open>events.repository.ts\<close>, \<open>ticket-types.repository.ts\<close> and
  \<open>promo-codes.repository.ts\<close>. Every status write is conditional on the current status.
  A read outside a transaction is a function of the snapshot it sees.
\<close>

section \<open>Reads of events, ticket types and promo codes\<close>

definition event_findById :: "uuid \<Rightarrow> db \<Rightarrow> event_row option" where
  "event_findById i s = row_by e_id i (events s)"

definition event_findBySlug :: "jstr \<Rightarrow> db \<Rightarrow> event_row option" where
  "event_findBySlug slug s = row_by e_slug slug (events s)"

definition ticketType_findById :: "uuid \<Rightarrow> db \<Rightarrow> ticket_type_row option" where
  "ticketType_findById i s = row_by tt_id i (ticketTypes s)"

definition listByEvent :: "uuid \<Rightarrow> db \<Rightarrow> ticket_type_row list" where
  "listByEvent eventId s =
    sort_key tt_createdAt (filter (\<lambda>t. tt_eventId t = eventId) (ticketTypes s))"

definition listByEvents :: "uuid list \<Rightarrow> db \<Rightarrow> ticket_type_row list" where
  "listByEvents eventIds s =
    sort_key tt_createdAt (filter (\<lambda>t. tt_eventId t \<in> set eventIds) (ticketTypes s))"

text \<open>The row and its restriction ids, in one statement.\<close>

definition promo_rule_of :: "db \<Rightarrow> promo_row \<Rightarrow> promo_rule" where
  "promo_rule_of s p =
    \<lparr>pr_id = p_id p, pr_code = p_code p, pr_type = p_type p, pr_amount = p_amount p,
     pr_active = p_active p,
     pr_ticketTypeIds = map snd (filter (\<lambda>r. fst r = p_id p) (promoCodeTicketTypes s))\<rparr>"

definition promo_findByCode :: "jstr \<Rightarrow> db \<Rightarrow> promo_rule option" where
  "promo_findByCode code s = map_option (promo_rule_of s) (row_by p_code code (promoCodes s))"

definition promo_findById :: "uuid \<Rightarrow> db \<Rightarrow> promo_rule option" where
  "promo_findById i s = map_option (promo_rule_of s) (row_by p_id i (promoCodes s))"

section \<open>orders.repository.ts\<close>

definition REFERENCE_UNIQUE :: string where "REFERENCE_UNIQUE = ''orders_reference_unique''"
definition TRX_ID_UNIQUE :: string where "TRX_ID_UNIQUE = ''orders_bkash_trx_id_uq''"

definition order_insert :: "order_row \<Rightarrow> order_row db_tx" where
  "order_insert row =
    mapError
      (\<lambda>err. if isUniqueViolation err REFERENCE_UNIQUE
        then OrderReferenceCollisionError (o_reference row) else PgError err)
      (andThen (insert_orders [row]) (\<lambda>_. return_tx row))"

definition order_insertEvent :: "order_event_row \<Rightarrow> order_event_row db_tx" where
  "order_insertEvent row =
    mapError PgError (andThen (insert_order_events [row]) (\<lambda>_. return_tx row))"

definition order_findById :: "uuid \<Rightarrow> db \<Rightarrow> order_row option" where
  "order_findById i s = row_by o_id i (orders s)"

definition order_findByReference :: "jstr \<Rightarrow> db \<Rightarrow> order_row option" where
  "order_findByReference ref s = row_by o_reference ref (orders s)"

text \<open>The same row, locked until the transaction ends: transactions are atomic steps here.\<close>

definition order_findByIdForUpdate :: "uuid \<Rightarrow> order_row option db_tx" where
  "order_findByIdForUpdate i = read_tx (order_findById i)"

definition open_for_buyer :: "uuid \<Rightarrow> jstr \<Rightarrow> instant \<Rightarrow> order_row \<Rightarrow> bool" where
  "open_for_buyer eventId phone now r \<longleftrightarrow>
    o_eventId r = eventId \<and> o_buyerPhone r = Some phone \<and>
    (o_status r = PendingVerification \<or>
     (o_status r = PendingPayment \<and>
      (case o_holdExpiresAt r of None \<Rightarrow> False | Some h \<Rightarrow> h > now)))"

definition countOpenForBuyer :: "uuid \<Rightarrow> jstr \<Rightarrow> instant \<Rightarrow> nat db_tx" where
  "countOpenForBuyer eventId phone now =
    read_tx (\<lambda>s. length (filter (open_for_buyer eventId phone now) (orders s)))"

definition order_listEvents :: "uuid \<Rightarrow> db \<Rightarrow> order_event_row list" where
  "order_listEvents i s =
    sort_key oe_createdAt (filter (\<lambda>e. oe_orderId e = i) (orderEvents s))"

text \<open>
  The columns a transition may set beside the status; \<open>None\<close> leaves the column alone (the
  key is absent from the patch object).
\<close>

record transition_patch =
  pt_bkashTrxId :: "jstr option"
  pt_bkashSenderMsisdn :: "jstr option"
  pt_rejectionReason :: "jstr option"
  pt_rejectionNote :: "jstr option option"

definition NO_PATCH :: transition_patch where
  "NO_PATCH = \<lparr>pt_bkashTrxId = None, pt_bkashSenderMsisdn = None, pt_rejectionReason = None,
    pt_rejectionNote = None\<rparr>"

definition apply_patch :: "transition_patch \<Rightarrow> order_row \<Rightarrow> order_row" where
  "apply_patch p r = r\<lparr>
    o_bkashTrxId := (case pt_bkashTrxId p of None \<Rightarrow> o_bkashTrxId r | Some x \<Rightarrow> Some x),
    o_bkashSenderMsisdn :=
      (case pt_bkashSenderMsisdn p of None \<Rightarrow> o_bkashSenderMsisdn r | Some x \<Rightarrow> Some x),
    o_rejectionReason :=
      (case pt_rejectionReason p of None \<Rightarrow> o_rejectionReason r | Some x \<Rightarrow> Some x),
    o_rejectionNote := (case pt_rejectionNote p of None \<Rightarrow> o_rejectionNote r | Some x \<Rightarrow> x)\<rparr>"

definition transition ::
  "instant \<Rightarrow> uuid \<Rightarrow> order_status list \<Rightarrow> order_status \<Rightarrow> transition_patch
    \<Rightarrow> order_row option db_tx" where
  "transition ts i frm to patch =
    mapError
      (\<lambda>err. case pt_bkashTrxId patch of
         Some x \<Rightarrow> if x \<noteq> [] \<and> isUniqueViolation err TRX_ID_UNIQUE
           then TrxIdAlreadyUsedError x else PgError err
       | None \<Rightarrow> PgError err)
      (andThen
        (update_orders (\<lambda>r. o_id r = i \<and> o_status r \<in> set frm)
          (\<lambda>r. (apply_patch patch r)\<lparr>o_status := to, o_updatedAt := ts\<rparr>))
        (\<lambda>rows. return_tx (first_row rows)))"

record lapsed_hold =
  lh_id :: uuid
  lh_ticketTypeId :: uuid
  lh_quantity :: int

definition lapsed_row :: "instant \<Rightarrow> order_row \<Rightarrow> bool" where
  "lapsed_row now r \<longleftrightarrow>
    o_status r = PendingPayment \<and>
    (case o_holdExpiresAt r of None \<Rightarrow> False | Some h \<Rightarrow> h \<le> now)"

definition listLapsedHolds :: "instant \<Rightarrow> nat \<Rightarrow> db \<Rightarrow> lapsed_hold list" where
  "listLapsedHolds now limit s =
    map (\<lambda>r. \<lparr>lh_id = o_id r, lh_ticketTypeId = o_ticketTypeId r, lh_quantity = o_quantity r\<rparr>)
      (take limit (sort_key (\<lambda>r. the (o_holdExpiresAt r)) (filter (lapsed_row now) (orders s))))"

record queue_row =
  qr_order :: order_row
  qr_eventTitle :: jstr
  qr_ticketTypeName :: jstr

text \<open>The inner join of an order with its event and ticket type.\<close>

definition join_order :: "db \<Rightarrow> order_row \<Rightarrow> queue_row option" where
  "join_order s r =
    (case (row_by e_id (o_eventId r) (events s), row_by tt_id (o_ticketTypeId r) (ticketTypes s)) of
       (Some e, Some t) \<Rightarrow>
         Some \<lparr>qr_order = r, qr_eventTitle = e_title e, qr_ticketTypeName = tt_name t\<rparr>
     | _ \<Rightarrow> None)"

definition repo_listVerificationQueue :: "db \<Rightarrow> queue_row list" where
  "repo_listVerificationQueue s =
    sort_key (\<lambda>q. o_updatedAt (qr_order q))
      (List.map_filter (join_order s)
        (filter (\<lambda>r. o_status r = PendingVerification) (orders s)))"

definition countByStatus :: "order_status \<Rightarrow> db \<Rightarrow> nat" where
  "countByStatus st s = length (filter (\<lambda>r. o_status r = st) (orders s))"

definition listByBuyerEmail :: "jstr \<Rightarrow> db \<Rightarrow> queue_row list" where
  "listByBuyerEmail email s =
    sort_key (\<lambda>q. - o_createdAt (qr_order q))
      (List.map_filter (join_order s) (filter (\<lambda>r. o_buyerEmail r = email) (orders s)))"

section \<open>tickets.repository.ts\<close>

definition CODE_UNIQUE :: string where "CODE_UNIQUE = ''tickets_code_unique''"

definition tickets_insertMany :: "ticket_row list \<Rightarrow> ticket_row list db_tx" where
  "tickets_insertMany rows =
    (if rows = [] then return_tx []
     else mapError
       (\<lambda>err. if isUniqueViolation err CODE_UNIQUE
         then TicketCodeCollisionError (map t_code rows) else PgError err)
       (insert_tickets rows))"

text \<open>
  \<open>ORDER BY position, created_at, code\<close>: positions are unique within an order, so the
  later keys never decide.
\<close>

definition tickets_listByOrder :: "uuid \<Rightarrow> db \<Rightarrow> ticket_row list" where
  "tickets_listByOrder i s = sort_key t_position (filter (\<lambda>t. t_orderId t = i) (tickets s))"

definition ticket_findByCode :: "jstr \<Rightarrow> db \<Rightarrow> ticket_row option" where
  "ticket_findByCode code s = row_by t_code code (tickets s)"

definition ticket_findById :: "uuid \<Rightarrow> db \<Rightarrow> ticket_row option" where
  "ticket_findById i s = row_by t_id i (tickets s)"

definition ticket_findByIdForUpdate :: "uuid \<Rightarrow> ticket_row option db_tx" where
  "ticket_findByIdForUpdate i = read_tx (ticket_findById i)"

definition ticket_cancel :: "instant \<Rightarrow> uuid \<Rightarrow> ticket_row option db_tx" where
  "ticket_cancel ts i =
    mapError PgError (andThen
      (update_tickets
        (\<lambda>t. t_id t = i \<and> t_status t = TicketIssued \<and> t_checkedInAt t = None)
        (\<lambda>t. t\<lparr>t_status := TicketCancelled, t_updatedAt := ts\<rparr>))
      (\<lambda>rows. return_tx (first_row rows)))"

text \<open>\<open>at\<close> is the clamped time of a synced offline admit; without it, the database clock.\<close>

definition ticket_checkIn ::
  "instant \<Rightarrow> uuid \<Rightarrow> jstr \<Rightarrow> uuid \<Rightarrow> instant option \<Rightarrow> ticket_row option db_tx" where
  "ticket_checkIn ts i gate scanId at =
    mapError PgError (andThen
      (update_tickets
        (\<lambda>t. t_id t = i \<and> t_status t = TicketIssued \<and> t_checkedInAt t = None)
        (\<lambda>t. t\<lparr>t_checkedInAt := Some (case at of None \<Rightarrow> ts | Some x \<Rightarrow> x),
               t_checkedInBy := Some gate, t_checkedInScanId := Some scanId,
               t_updatedAt := ts\<rparr>))
      (\<lambda>rows. return_tx (first_row rows)))"

definition ticket_undoCheckIn :: "instant \<Rightarrow> uuid \<Rightarrow> uuid \<Rightarrow> ticket_row option db_tx" where
  "ticket_undoCheckIn ts i scanId =
    mapError PgError (andThen
      (update_tickets
        (\<lambda>t. t_id t = i \<and> t_checkedInAt t \<noteq> None \<and> t_checkedInScanId t = Some scanId)
        (\<lambda>t. t\<lparr>t_checkedInAt := None, t_checkedInBy := None, t_checkedInScanId := None,
               t_updatedAt := ts\<rparr>))
      (\<lambda>rows. return_tx (first_row rows)))"

definition countIssuedByOrder :: "uuid \<Rightarrow> nat db_tx" where
  "countIssuedByOrder i =
    read_tx (\<lambda>s. length (filter (\<lambda>t. t_orderId t = i \<and> t_status t = TicketIssued) (tickets s)))"

definition updateAttendeeName ::
  "instant \<Rightarrow> uuid \<Rightarrow> jstr \<Rightarrow> jstr \<Rightarrow> ticket_row option db_tx" where
  "updateAttendeeName ts i expectedName attendeeName =
    mapError PgError (andThen
      (update_tickets
        (\<lambda>t. t_id t = i \<and> t_status t = TicketIssued \<and> t_attendeeName t = expectedName)
        (\<lambda>t. t\<lparr>t_attendeeName := attendeeName, t_updatedAt := ts\<rparr>))
      (\<lambda>rows. return_tx (first_row rows)))"

record check_in_ticket_row =
  cr_ticket :: ticket_row
  cr_orderReference :: jstr
  cr_ticketTypeName :: jstr

text \<open>\<open>rank\<close> is the position of a text in the database's collation.\<close>

definition tickets_listForEvent ::
  "(jstr \<Rightarrow> nat) \<Rightarrow> uuid \<Rightarrow> db \<Rightarrow> check_in_ticket_row list" where
  "tickets_listForEvent rank eventId s =
    sort_key (\<lambda>r. rank (t_attendeeName (cr_ticket r)))
      (sort_key (\<lambda>r. rank (t_code (cr_ticket r)))
        (List.map_filter
          (\<lambda>t. case (row_by o_id (t_orderId t) (orders s),
                 row_by tt_id (t_ticketTypeId t) (ticketTypes s)) of
             (Some r, Some tt) \<Rightarrow>
               Some \<lparr>cr_ticket = t, cr_orderReference = o_reference r,
                 cr_ticketTypeName = tt_name tt\<rparr>
           | _ \<Rightarrow> None)
          (filter (\<lambda>t. t_eventId t = eventId) (tickets s))))"

section \<open>Facts\<close>

lemmas repo_defs =
  order_insert_def order_insertEvent_def order_findByIdForUpdate_def countOpenForBuyer_def
  transition_def tickets_insertMany_def ticket_findByIdForUpdate_def ticket_cancel_def
  ticket_checkIn_def ticket_undoCheckIn_def countIssuedByOrder_def updateAttendeeName_def

lemma apply_patch_simps [simp]:
  "o_id (apply_patch p r) = o_id r" "o_reference (apply_patch p r) = o_reference r"
  "o_eventId (apply_patch p r) = o_eventId r"
  "o_ticketTypeId (apply_patch p r) = o_ticketTypeId r"
  "o_quantity (apply_patch p r) = o_quantity r" "o_status (apply_patch p r) = o_status r"
  "o_totalPaisa (apply_patch p r) = o_totalPaisa r"
  "o_complimentaryReason (apply_patch p r) = o_complimentaryReason r"
  "o_attendeeNames (apply_patch p r) = o_attendeeNames r"
  "o_holdExpiresAt (apply_patch p r) = o_holdExpiresAt r"
  "o_buyerPhone (apply_patch p r) = o_buyerPhone r"
  "o_promoCodeId (apply_patch p r) = o_promoCodeId r"
  by (simp_all add: apply_patch_def)

lemma repo_keeps [keeps_intros]:
  "keeps db_ok (order_insert row)" "keeps db_ok (order_insertEvent ev)"
  "keeps db_ok (order_findByIdForUpdate i)" "keeps db_ok (countOpenForBuyer e ph now)"
  "keeps db_ok (transition ts i frm to patch)" "keeps db_ok (tickets_insertMany ts')"
  "keeps db_ok (ticket_findByIdForUpdate i)" "keeps db_ok (ticket_cancel ts i)"
  "keeps db_ok (ticket_checkIn ts i g sc at)" "keeps db_ok (ticket_undoCheckIn ts i sc)"
  "keeps db_ok (countIssuedByOrder i)" "keeps db_ok (updateAttendeeName ts i a b)"
  unfolding repo_defs by (intro keeps_intros; simp)+

text \<open>What a successful statement did.\<close>

lemma order_insert_Inr [tx_simps]:
  "order_insert row s = Inr (r, s') \<longleftrightarrow>
    orders_violation s (orders s @ [row]) = None \<and> r = row \<and> s' = s\<lparr>orders := orders s @ [row]\<rparr>"
  by (auto simp: order_insert_def tx_simps)

lemma order_insertEvent_Inr [tx_simps]:
  "order_insertEvent row s = Inr (r, s') \<longleftrightarrow>
    order_events_violation s (orderEvents s @ [row]) = None \<and> r = row \<and>
    s' = s\<lparr>orderEvents := orderEvents s @ [row]\<rparr>"
  by (auto simp: order_insertEvent_def tx_simps)

lemma order_findByIdForUpdate_Inr [tx_simps]:
  "order_findByIdForUpdate i s = Inr (r, s') \<longleftrightarrow> r = order_findById i s \<and> s' = s"
  by (auto simp: order_findByIdForUpdate_def tx_simps)

lemma ticket_findByIdForUpdate_Inr [tx_simps]:
  "ticket_findByIdForUpdate i s = Inr (r, s') \<longleftrightarrow> r = ticket_findById i s \<and> s' = s"
  by (auto simp: ticket_findByIdForUpdate_def tx_simps)

lemma countOpenForBuyer_Inr [tx_simps]:
  "countOpenForBuyer e ph now s = Inr (n, s') \<longleftrightarrow>
    n = length (filter (open_for_buyer e ph now) (orders s)) \<and> s' = s"
  by (auto simp: countOpenForBuyer_def tx_simps)

lemma countIssuedByOrder_Inr [tx_simps]:
  "countIssuedByOrder i s = Inr (n, s') \<longleftrightarrow>
    n = length (filter (\<lambda>t. t_orderId t = i \<and> t_status t = TicketIssued) (tickets s)) \<and> s' = s"
  by (auto simp: countIssuedByOrder_def tx_simps)

lemma db_ok_orders: "db_ok s \<Longrightarrow> orders_violation s (orders s) = None"
  and db_ok_tickets: "db_ok s \<Longrightarrow> tickets_violation s (tickets s) = None"
  by (simp_all add: db_ok_def)

text \<open>
  The status write, on an accepted store: it hit the order exactly when the order was in
  one of the statuses it is conditional on.
\<close>

definition transition_row :: "instant \<Rightarrow> order_status \<Rightarrow> transition_patch \<Rightarrow> order_row \<Rightarrow> order_row" where
  "transition_row ts to patch r = (apply_patch patch r)\<lparr>o_status := to, o_updatedAt := ts\<rparr>"

lemma transition_row_simps [simp]:
  "o_id (transition_row ts to patch r) = o_id r"
  "o_status (transition_row ts to patch r) = to"
  "o_ticketTypeId (transition_row ts to patch r) = o_ticketTypeId r"
  "o_quantity (transition_row ts to patch r) = o_quantity r"
  "o_attendeeNames (transition_row ts to patch r) = o_attendeeNames r"
  "o_eventId (transition_row ts to patch r) = o_eventId r"
  "o_complimentaryReason (transition_row ts to patch r) = o_complimentaryReason r"
  "o_totalPaisa (transition_row ts to patch r) = o_totalPaisa r"
  by (simp_all add: transition_row_def)

definition set_order :: "uuid \<Rightarrow> (order_row \<Rightarrow> order_row) \<Rightarrow> db \<Rightarrow> db" where
  "set_order i f s = s\<lparr>orders := update_rows (\<lambda>r. o_id r = i) f (orders s)\<rparr>"

lemma transition_Inr:
  assumes "db_ok s"
  shows "transition ts i frm to patch s = Inr (x, s') \<Longrightarrow>
    (case order_findById i s of
       Some r \<Rightarrow>
         if o_status r \<in> set frm
         then x = Some (transition_row ts to patch r) \<and> s' = set_order i (transition_row ts to patch) s
         else x = None \<and> s' = s
     | None \<Rightarrow> x = None \<and> s' = s)"
proof -
  let ?p = "\<lambda>r. o_id r = i \<and> o_status r \<in> set frm"
  let ?f = "transition_row ts to patch"
  note d = orders_ok(1) [OF db_ok_orders [OF assms]]
  assume "transition ts i frm to patch s = Inr (x, s')"
  then have x: "x = first_row (returned ?p ?f (orders s))"
    and s': "s' = s\<lparr>orders := update_rows ?p ?f (orders s)\<rparr>"
    by (auto simp: transition_def transition_row_def [abs_def] tx_simps)
  have none: "update_rows ?p ?f (orders s) = orders s" if "\<And>r. row_by o_id i (orders s) = Some r \<Longrightarrow> o_status r \<notin> set frm"
    by (rule update_rows_none) (use that in \<open>auto simp: row_by_unique [OF d]\<close>)
  have hit: "update_rows ?p ?f (orders s) = update_rows (\<lambda>r. o_id r = i) ?f (orders s)"
    if "row_by o_id i (orders s) = Some r" "o_status r \<in> set frm" for r
  proof -
    have "r' = r" if "r' \<in> set (orders s)" "o_id r' = i" for r'
      using that \<open>row_by o_id i (orders s) = Some r\<close> row_by_unique [OF d, of i r'] by simp
    then show ?thesis using that(2) by (auto simp: update_rows_def)
  qed
  show ?thesis
  proof (cases "row_by o_id i (orders s)")
    case None
    then show ?thesis using none by (simp add: x s' order_findById_def returned_key [OF d])
  next
    case (Some r)
    show ?thesis
    proof (cases "o_status r \<in> set frm")
      case True
      with Some hit [OF Some True] show ?thesis
        by (simp add: x s' order_findById_def returned_key [OF d] set_order_def)
    next
      case False
      with Some none show ?thesis by (simp add: x s' order_findById_def returned_key [OF d])
    qed
  qed
qed

end
