(* ===== verification/Orders.thy ===== *)
theory Orders
  imports Repositories
begin

text \<open>
  \<open>src/src/server/services/orders.service.ts\<close>: creating an order, submitting a payment,
  expiring lapsed holds and the order read models.

  The reads a method makes before its transaction see a snapshot \<open>snap\<close>, which may be older
  than the store the transaction runs on; ids and references are the program's random
  draws, and the advisory and row locks are the atomicity of a transaction step. The
  after-commit hooks run outside the transaction and their failures are logged only, so
  they do not appear in the results.
\<close>

section \<open>Creating an order\<close>

definition REFERENCE_ATTEMPTS :: nat where "REFERENCE_ATTEMPTS = 3"
definition MAX_OPEN_ORDERS_PER_BUYER :: nat where "MAX_OPEN_ORDERS_PER_BUYER = 2"

record create_order_input =
  in_eventSlug :: jstr
  in_ticketTypeId :: uuid
  in_quantity :: int
  in_buyerName :: jstr
  in_buyerEmail :: jstr
  in_buyerPhone :: jstr
  in_attendeeNames :: "jstr list"
  in_promoCode :: "jstr option"

definition sale_input :: "ticket_type_row \<Rightarrow> sale_state_input" where
  "sale_input t =
    \<lparr>si_quantityTotal = tt_quantityTotal t, si_quantitySold = tt_quantitySold t,
     si_quantityReserved = tt_quantityReserved t, si_salesStartsAt = tt_salesStartsAt t,
     si_salesEndsAt = tt_salesEndsAt t\<rparr>"

definition priced :: "ticket_type_row list \<Rightarrow> (uuid \<times> int) list" where
  "priced types = map (\<lambda>t. (tt_id t, tt_pricePaisa t)) types"

definition resolvePromo :: "db \<Rightarrow> jstr \<Rightarrow> ticket_type_row list \<Rightarrow> uuid \<Rightarrow> promo_rule result" where
  "resolvePromo snap raw eventTypes ticketTypeId =
    (let code = normalisePromoCode raw;
         rule = promo_findByCode code snap
     in bindE (judgePromo rule (priced eventTypes) ticketTypeId) (\<lambda>refusal.
        case (refusal, rule) of
          (None, Some r) \<Rightarrow> Inr r
        | _ \<Rightarrow> Inl (PromoCodeNotValidError code
                (case refusal of Some x \<Rightarrow> x | None \<Rightarrow> UnknownCode))))"

definition availableTotal :: "ticket_type_row list \<Rightarrow> int" where
  "availableTotal types =
    foldl (\<lambda>n t. n + max 0 (tt_quantityTotal t - tt_quantitySold t - tt_quantityReserved t)) 0 types"

record order_plan =
  pl_event :: event_row
  pl_ticketType :: ticket_type_row
  pl_promo :: "promo_rule option"
  pl_totals :: order_totals

text \<open>The checks and the pricing, before anything is held.\<close>

definition plan_order :: "db \<Rightarrow> instant \<Rightarrow> create_order_input \<Rightarrow> order_plan result" where
  "plan_order snap at inp =
    bindE (case event_findBySlug (in_eventSlug inp) snap of
             Some e \<Rightarrow> if e_status e = Published then Inr e
                       else Inl (EventSlugNotFoundError (in_eventSlug inp))
           | None \<Rightarrow> Inl (EventSlugNotFoundError (in_eventSlug inp))) (\<lambda>event.
    let allTypes = listByEvent (e_id event) snap
    in bindE (case row_by tt_id (in_ticketTypeId inp) allTypes of
                None \<Rightarrow> Inl (TicketTypeNotFoundError (in_ticketTypeId inp))
              | Some t \<Rightarrow> Inr t) (\<lambda>ticketType.
    let phase = eventPhase (e_startsAt event) (e_registrationOpensAt event)
                  (e_registrationClosesAt event) (availableTotal allTypes) at
    in if phase \<noteq> OpenPhase \<and> phase \<noteq> ClosingSoon \<and> phase \<noteq> SoldOutPhase
       then Inl (RegistrationClosedError phase)
       else bindE (case ticketTypeSaleState (sale_input ticketType) at of
                     None \<Rightarrow> Inr ()
                   | Some st \<Rightarrow> if st \<noteq> SoldOut
                       then Inl (TicketTypeNotOnSaleError (tt_id ticketType) st) else Inr ()) (\<lambda>_.
            if int (length (in_attendeeNames inp)) \<noteq> in_quantity inp
            then Inl (AttendeeNamesMismatchError (in_quantity inp)
                        (int (length (in_attendeeNames inp))))
            else bindE (case in_promoCode inp of
                          None \<Rightarrow> Inr None
                        | Some raw \<Rightarrow>
                            if raw = [] then Inr None
                            else bindE (resolvePromo snap raw allTypes (tt_id ticketType))
                                   (\<lambda>r. Inr (Some r))) (\<lambda>promo.
            bindE (case promo of
                     None \<Rightarrow> Inr 0
                   | Some r \<Rightarrow> promoDiscountPaisa r (tt_pricePaisa ticketType) (in_quantity inp))
              (\<lambda>discount.
            bindE (computeOrderTotals (tt_pricePaisa ticketType) (in_quantity inp) discount)
              (\<lambda>totals.
            Inr \<lparr>pl_event = event, pl_ticketType = ticketType, pl_promo = promo,
                 pl_totals = totals\<rparr>))))))"

text \<open>The audit note of a new order.\<close>

definition created_note :: "order_plan \<Rightarrow> instant \<Rightarrow> jstr result" where
  "created_note pl holdUntil =
    bindE (case pl_promo pl of
             None \<Rightarrow> Inr []
           | Some r \<Rightarrow> bindE (formatBDT (discountPaisa (pl_totals pl)) En)
               (\<lambda>m. Inr (lit '' '' @ [183] @ lit '' '' @ pr_code r @ lit '' '' @ [8722] @ m)))
      (\<lambda>promoPart.
    Inr (decimal (nat (totQuantity (pl_totals pl))) @ lit '' '' @ [215] @ lit '' '' @
         tt_name (pl_ticketType pl) @ promoPart @ lit '', hold until '' @ toISOString holdUntil))"

definition new_order_row ::
  "instant \<Rightarrow> instant \<Rightarrow> create_order_input \<Rightarrow> order_plan \<Rightarrow> uuid \<Rightarrow> jstr \<Rightarrow> order_row" where
  "new_order_row ts at inp pl newId ref =
    \<lparr>o_id = newId, o_reference = ref, o_eventId = e_id (pl_event pl),
     o_ticketTypeId = tt_id (pl_ticketType pl), o_quantity = totQuantity (pl_totals pl),
     o_unitPricePaisa = unitPricePaisa (pl_totals pl),
     o_subtotalPaisa = subtotalPaisa (pl_totals pl),
     o_discountPaisa = discountPaisa (pl_totals pl),
     o_totalPaisa = totalPaisa (pl_totals pl),
     o_status = PendingPayment, o_buyerName = in_buyerName inp,
     o_buyerEmail = in_buyerEmail inp, o_buyerPhone = Some (in_buyerPhone inp),
     o_attendeeNames = in_attendeeNames inp, o_bkashTrxId = None, o_bkashSenderMsisdn = None,
     o_promoCodeId = map_option pr_id (pl_promo pl), o_rejectionReason = None,
     o_rejectionNote = None, o_complimentaryReason = None,
     o_holdExpiresAt = Some (holdEndsAt at), o_createdAt = ts, o_updatedAt = ts\<rparr>"

definition audit ::
  "instant \<Rightarrow> uuid \<Rightarrow> jstr \<Rightarrow> jstr \<Rightarrow> order_status option \<Rightarrow> order_status option \<Rightarrow> jstr
    \<Rightarrow> order_event_row" where
  "audit ts i actor action frm to note =
    \<lparr>oe_orderId = i, oe_actor = actor, oe_action = action, oe_fromStatus = frm,
     oe_toStatus = to, oe_note = Some note, oe_createdAt = ts\<rparr>"

text \<open>The transaction: cap, hold, order row, audit row.\<close>

definition createOrder_tx ::
  "instant \<Rightarrow> instant \<Rightarrow> create_order_input \<Rightarrow> order_plan \<Rightarrow> uuid \<Rightarrow> jstr \<Rightarrow> order_row db_tx" where
  "createOrder_tx ts at inp pl newId ref =
    andThen (countOpenForBuyer (e_id (pl_event pl)) (in_buyerPhone inp) (lapsedBefore at)) (\<lambda>open_n.
    andThen (require_tx (open_n < MAX_OPEN_ORDERS_PER_BUYER)
      (TooManyOpenOrdersError MAX_OPEN_ORDERS_PER_BUYER)) (\<lambda>_.
    andThen (hold (tt_id (pl_ticketType pl)) (in_quantity inp)) (\<lambda>held.
    andThen (require_tx held (SoldOutError (tt_id (pl_ticketType pl)) (in_quantity inp))) (\<lambda>_.
    andThen (order_insert (new_order_row ts at inp pl newId ref)) (\<lambda>order.
    andThen (lift_tx (created_note pl (holdEndsAt at))) (\<lambda>note.
    andThen (order_insertEvent
      (audit ts (o_id order) (lit ''buyer'') (lit ''order.created'') None (Some PendingPayment)
        note)) (\<lambda>_.
    return_tx order)))))))"

definition reference_collision :: "app_error \<Rightarrow> bool" where
  "reference_collision e = (case e of OrderReferenceCollisionError _ \<Rightarrow> True | _ \<Rightarrow> False)"

definition createOrder ::
  "db \<Rightarrow> instant \<Rightarrow> instant \<Rightarrow> (nat \<Rightarrow> uuid) \<Rightarrow> (nat \<Rightarrow> jstr) \<Rightarrow> create_order_input
    \<Rightarrow> order_row db_tx" where
  "createOrder snap ts at ids refs inp =
    andThen (lift_tx (plan_order snap at inp)) (\<lambda>pl.
    retry reference_collision REFERENCE_ATTEMPTS
      (\<lambda>attempt. createOrder_tx ts at inp pl (ids attempt) (refs attempt)) 1)"

section \<open>Checking a promo code\<close>

record promo_check =
  pc_code :: jstr
  pc_type :: promo_type
  pc_amount :: int
  pc_ticketTypeIds :: "uuid list"
  pc_label :: jstr

text \<open>\<open>Inl\<close> is the refusal the form shows, \<open>Inr\<close> the accepted code.\<close>

definition checkPromo ::
  "db \<Rightarrow> jstr \<Rightarrow> jstr \<Rightarrow> uuid \<Rightarrow> (promo_refusal + promo_check) result" where
  "checkPromo snap eventSlug rawCode ticketTypeId =
    (let code = normalisePromoCode rawCode
     in case event_findBySlug eventSlug snap of
          None \<Rightarrow> Inr (Inl UnknownCode)
        | Some event \<Rightarrow>
            if e_status event \<noteq> Published then Inr (Inl UnknownCode)
            else let rule = promo_findByCode code snap;
                     types = listByEvent (e_id event) snap
                 in bindE (judgePromo rule (priced types) ticketTypeId) (\<lambda>refusal.
                    case (refusal, rule) of
                      (None, Some r) \<Rightarrow>
                        bindE (describePromo r) (\<lambda>label.
                        Inr (Inr \<lparr>pc_code = pr_code r, pc_type = pr_type r,
                          pc_amount = pr_amount r,
                          pc_ticketTypeIds =
                            (if pr_ticketTypeIds r = [] then []
                             else filter (promoAppliesTo r) (map tt_id types)),
                          pc_label = label\<rparr>))
                    | _ \<Rightarrow> Inr (Inl (case refusal of Some x \<Rightarrow> x | None \<Rightarrow> UnknownCode))))"

section \<open>Read models\<close>

record order_view =
  ov_order :: order_row
  ov_event :: event_row
  ov_ticketType :: ticket_type_row
  ov_events :: "order_event_row list"
  ov_tickets :: "ticket_row list"
  ov_promoCode :: "jstr option"

definition getOrder :: "uuid \<Rightarrow> db \<Rightarrow> order_view result" where
  "getOrder i snap =
    (case order_findById i snap of
       None \<Rightarrow> Inl (OrderNotFoundError i)
     | Some order \<Rightarrow>
         let promo = (case o_promoCodeId order of
                        None \<Rightarrow> None | Some p \<Rightarrow> promo_findById p snap)
         in case event_findById (o_eventId order) snap of
              None \<Rightarrow> Inl (MissingRowError (o_eventId order))
            | Some event \<Rightarrow>
                (case ticketType_findById (o_ticketTypeId order) snap of
                   None \<Rightarrow> Inl (MissingRowError (o_ticketTypeId order))
                 | Some tt \<Rightarrow>
                     Inr \<lparr>ov_order = order, ov_event = event, ov_ticketType = tt,
                          ov_events = order_listEvents (o_id order) snap,
                          ov_tickets = tickets_listByOrder (o_id order) snap,
                          ov_promoCode = map_option pr_code promo\<rparr>))"

definition listVerificationQueue :: "db \<Rightarrow> (queue_row \<times> instant) list" where
  "listVerificationQueue snap =
    map (\<lambda>r. (r, o_updatedAt (qr_order r))) (repo_listVerificationQueue snap)"

definition countPendingVerification :: "db \<Rightarrow> nat" where
  "countPendingVerification snap = countByStatus PendingVerification snap"

definition findByReferenceAndPhone :: "jstr \<Rightarrow> jstr \<Rightarrow> db \<Rightarrow> order_row option" where
  "findByReferenceAndPhone reference phone snap =
    (case order_findByReference (toUpperCase (trim (normaliseDigits reference))) snap of
       None \<Rightarrow> None
     | Some order \<Rightarrow> if o_buyerPhone order \<noteq> Some phone then None else Some order)"

record status_total =
  st_status :: order_status
  st_count :: int
  st_totalPaisa :: int
  st_compCount :: int

record orders_summary =
  os_count :: int
  os_revenuePaisa :: int
  os_revenueCount :: int
  os_compCount :: int

definition summarise_step :: "orders_summary \<Rightarrow> status_total \<Rightarrow> orders_summary" where
  "summarise_step acc t =
    (let acc1 = acc\<lparr>os_count := os_count acc + st_count t\<rparr>
     in if st_status t \<in> set REVENUE_STATUSES
        then acc1\<lparr>os_revenuePaisa := os_revenuePaisa acc + st_totalPaisa t,
                  os_revenueCount := os_revenueCount acc + (st_count t - st_compCount t),
                  os_compCount := os_compCount acc + st_compCount t\<rparr>
        else acc1)"

definition summariseTotals :: "status_total list \<Rightarrow> orders_summary" where
  "summariseTotals byStatus =
    foldl summarise_step
      \<lparr>os_count = 0, os_revenuePaisa = 0, os_revenueCount = 0, os_compCount = 0\<rparr> byStatus"

section \<open>Submitting a payment\<close>

definition SUBMITTABLE :: "order_status list" where
  "SUBMITTABLE = [PendingPayment, PendingVerification]"

definition normaliseTrxId :: "jstr \<Rightarrow> jstr" where
  "normaliseTrxId raw = toUpperCase (trim (normaliseDigits raw))"

definition submitted_note :: "order_row \<Rightarrow> jstr \<Rightarrow> jstr \<Rightarrow> jstr" where
  "submitted_note order trxId sender =
    (if o_status order = PendingPayment
     then lit ''trxID '' @ trxId @ lit '' from '' @ sender
     else lit ''trxID '' @ (case o_bkashTrxId order of None \<Rightarrow> [8212] | Some x \<Rightarrow> x) @
          lit '' '' @ [8594] @ lit '' '' @ trxId @ lit '' from '' @ sender)"

definition submitPayment ::
  "instant \<Rightarrow> instant \<Rightarrow> uuid \<Rightarrow> jstr \<Rightarrow> jstr \<Rightarrow> order_row db_tx" where
  "submitPayment ts now orderId rawTrxId sender =
    (let trxId = normaliseTrxId rawTrxId
     in andThen (order_findByIdForUpdate orderId) (\<lambda>found.
        andThen (non_null found (OrderNotFoundError orderId)) (\<lambda>order.
        andThen (require_tx (o_status order \<in> set SUBMITTABLE)
          (OrderStatusConflictError orderId (o_status order))) (\<lambda>_.
        andThen (require_tx (\<not> holdLapsed (o_status order) (o_holdExpiresAt order) now)
          (HoldLapsedError orderId)) (\<lambda>_.
        let fromStatus = o_status order;
            first = (fromStatus = PendingPayment)
        in andThen (if first
                    then lift_tx (assertOrderTransition fromStatus PendingVerification)
                    else return_tx ()) (\<lambda>_.
           andThen (transition ts orderId SUBMITTABLE PendingVerification
             \<lparr>pt_bkashTrxId = Some trxId, pt_bkashSenderMsisdn = Some sender,
              pt_rejectionReason = None, pt_rejectionNote = None\<rparr>) (\<lambda>result.
           andThen (non_null result (OrderStatusConflictError orderId fromStatus)) (\<lambda>updated.
           andThen (order_insertEvent
             (audit ts orderId (lit ''buyer'')
               (if first then lit ''payment.submitted'' else lit ''payment.updated'')
               (Some fromStatus) (Some PendingVerification)
               (submitted_note order trxId sender))) (\<lambda>_.
           return_tx updated)))))))))"

section \<open>Expiring lapsed holds\<close>

definition EXPIRY_BATCH :: nat where "EXPIRY_BATCH = 200"
definition EXPIRY_MAX_BATCHES :: nat where "EXPIRY_MAX_BATCHES = 10"

text \<open>One order's transaction; \<open>False\<close> when it is no longer \<open>pending_payment\<close>.\<close>

definition expire_one :: "instant \<Rightarrow> lapsed_hold \<Rightarrow> bool db_tx" where
  "expire_one ts h =
    andThen (transition ts (lh_id h) [PendingPayment] Expired NO_PATCH) (\<lambda>updated.
    case updated of
      None \<Rightarrow> return_tx False
    | Some _ \<Rightarrow>
        andThen (release (lh_ticketTypeId h) (lh_quantity h)) (\<lambda>_.
        andThen (order_insertEvent
          (audit ts (lh_id h) (lit ''system'') (lit ''order.expired'') (Some PendingPayment)
            (Some Expired)
            (decimal (nat HOLD_MINUTES) @ lit ''-minute hold lapsed; '' @
             decimal (nat (lh_quantity h)) @ lit '' released''))) (\<lambda>_.
        return_tx True)))"

record expiry_run =
  xr_expired :: nat
  xr_failed :: nat
  xr_skipped :: "uuid list"

text \<open>The inner loop: a failing order is counted and skipped, never blocks the rest.\<close>

fun expire_each :: "instant \<Rightarrow> lapsed_hold list \<Rightarrow> expiry_run \<Rightarrow> db \<Rightarrow> expiry_run \<times> db" where
  "expire_each ts [] run s = (run, s)"
| "expire_each ts (h # hs) run s =
    (case expire_one ts h s of
       Inl _ \<Rightarrow> expire_each ts hs
         (run\<lparr>xr_failed := xr_failed run + 1, xr_skipped := lh_id h # xr_skipped run\<rparr>) s
     | Inr (done, s') \<Rightarrow> expire_each ts hs
         (if done then run\<lparr>xr_expired := xr_expired run + 1\<rparr> else run) s')"

text \<open>The batches; the first argument is how many are left.\<close>

fun expire_batches :: "nat \<Rightarrow> instant \<Rightarrow> instant \<Rightarrow> expiry_run \<Rightarrow> db \<Rightarrow> expiry_run \<times> db" where
  "expire_batches 0 ts at run s = (run, s)"
| "expire_batches (Suc n) ts at run s =
    (let limit = EXPIRY_BATCH + length (xr_skipped run);
         fetched = listLapsedHolds (lapsedBefore at) limit s;
         lapsed = filter (\<lambda>h. lh_id h \<notin> set (xr_skipped run)) fetched
     in if lapsed = [] then (run, s)
        else case expire_each ts lapsed run s of
               (run', s') \<Rightarrow>
                 if length fetched < limit then (run', s')
                 else expire_batches n ts at run' s')"

definition expireLapsedHolds :: "instant \<Rightarrow> instant \<Rightarrow> db \<Rightarrow> expiry_run \<times> db" where
  "expireLapsedHolds ts at s =
    expire_batches EXPIRY_MAX_BATCHES ts at \<lparr>xr_expired = 0, xr_failed = 0, xr_skipped = []\<rparr> s"

end
