(* ===== verification/Fulfilment.thy ===== *)
theory Fulfilment
  imports Orders
begin

text \<open>
  \<open>src/src/server/services/fulfilment.service.ts\<close>: approving and rejecting payments,
  complimentary tickets, cancelling tickets, re-sending the tickets email. Each is one
  transaction; the email hooks run after it and their failures are logged only.
\<close>

definition CODE_ATTEMPTS :: nat where "CODE_ATTEMPTS = 3"

text \<open>The random draws of one attempt.\<close>

record draws =
  dr_orderId :: uuid
  dr_reference :: jstr
  dr_ticketId :: "nat \<Rightarrow> uuid"
  dr_code :: "nat \<Rightarrow> jstr"

definition join_texts :: "jstr \<Rightarrow> jstr list \<Rightarrow> jstr" where
  "join_texts sep xs = (case xs of [] \<Rightarrow> [] | y # ys \<Rightarrow> y @ concat (map (\<lambda>z. sep @ z) ys))"

text \<open>One ticket per attendee name, in order; positions start at 1.\<close>

definition ticket_for ::
  "instant \<Rightarrow> order_row \<Rightarrow> draws \<Rightarrow> nat \<Rightarrow> jstr \<Rightarrow> ticket_row" where
  "ticket_for ts order d i name =
    \<lparr>t_id = dr_ticketId d i, t_orderId = o_id order, t_ticketTypeId = o_ticketTypeId order,
     t_eventId = o_eventId order, t_code = dr_code d i, t_position = int i + 1,
     t_attendeeName = name, t_status = TicketIssued, t_checkedInAt = None,
     t_checkedInBy = None, t_checkedInScanId = None, t_createdAt = ts, t_updatedAt = ts\<rparr>"

definition tickets_for :: "instant \<Rightarrow> order_row \<Rightarrow> draws \<Rightarrow> ticket_row list" where
  "tickets_for ts order d =
    map (\<lambda>p. ticket_for ts order d (fst p) (snd p))
      (zip [0..<length (o_attendeeNames order)] (o_attendeeNames order))"

definition code_list :: "ticket_row list \<Rightarrow> jstr" where
  "code_list rows = join_texts (lit '', '') (map t_code rows)"

section \<open>Complimentary tickets\<close>

record complimentary_input =
  co_eventId :: uuid
  co_ticketTypeId :: uuid
  co_quantity :: int
  co_guestName :: jstr
  co_guestEmail :: jstr
  co_reason :: jstr
  co_actor :: jstr

definition comp_order_row ::
  "instant \<Rightarrow> complimentary_input \<Rightarrow> ticket_type_row \<Rightarrow> order_totals \<Rightarrow> draws \<Rightarrow> order_row" where
  "comp_order_row ts inp tt totals d =
    \<lparr>o_id = dr_orderId d, o_reference = dr_reference d, o_eventId = tt_eventId tt,
     o_ticketTypeId = tt_id tt, o_quantity = totQuantity totals,
     o_unitPricePaisa = unitPricePaisa totals, o_subtotalPaisa = subtotalPaisa totals,
     o_discountPaisa = discountPaisa totals, o_totalPaisa = totalPaisa totals,
     o_status = Issued, o_buyerName = co_guestName inp, o_buyerEmail = co_guestEmail inp,
     o_buyerPhone = None, o_attendeeNames = replicate (nat (co_quantity inp)) (co_guestName inp),
     o_bkashTrxId = None, o_bkashSenderMsisdn = None, o_promoCodeId = None,
     o_rejectionReason = None, o_rejectionNote = None,
     o_complimentaryReason = Some (co_reason inp), o_holdExpiresAt = None,
     o_createdAt = ts, o_updatedAt = ts\<rparr>"

definition comp_tx ::
  "instant \<Rightarrow> complimentary_input \<Rightarrow> ticket_type_row \<Rightarrow> order_totals \<Rightarrow> draws
    \<Rightarrow> (order_row \<times> ticket_row list) db_tx" where
  "comp_tx ts inp tt totals d =
    andThen (hold (tt_id tt) (co_quantity inp)) (\<lambda>held.
    andThen (require_tx held (SoldOutError (tt_id tt) (co_quantity inp))) (\<lambda>_.
    andThen (convertToSold (tt_id tt) (co_quantity inp)) (\<lambda>_.
    andThen (order_insert (comp_order_row ts inp tt totals d)) (\<lambda>order.
    andThen (require_tx (int (length (o_attendeeNames order)) = o_quantity order)
      (AttendeeNamesMismatchError (o_quantity order) (int (length (o_attendeeNames order))))) (\<lambda>_.
    andThen (tickets_insertMany (tickets_for ts order d)) (\<lambda>rows.
    andThen (order_insertEvent
      (audit ts (o_id order) (co_actor inp) (lit ''order.comp_issued'') None (Some Issued)
        (decimal (nat (o_quantity order)) @ lit '' '' @ [215] @ lit '' '' @ tt_name tt @
         lit '' '' @ [183] @ lit '' complimentary '' @ [8212] @ lit '' '' @ co_reason inp @
         lit '' '' @ [183] @ lit '' '' @ code_list rows))) (\<lambda>_.
    return_tx (order, rows))))))))"

definition code_collision :: "app_error \<Rightarrow> bool" where
  "code_collision e = (case e of TicketCodeCollisionError _ \<Rightarrow> True | _ \<Rightarrow> False)"

definition issueComplimentaryTickets ::
  "db \<Rightarrow> instant \<Rightarrow> (nat \<Rightarrow> draws) \<Rightarrow> complimentary_input
    \<Rightarrow> (order_row \<times> ticket_row list) db_tx" where
  "issueComplimentaryTickets snap ts draw inp =
    andThen (lift_tx (case ticketType_findById (co_ticketTypeId inp) snap of
        None \<Rightarrow> Inl (TicketTypeNotFoundError (co_ticketTypeId inp))
      | Some tt \<Rightarrow> if tt_eventId tt \<noteq> co_eventId inp
          then Inl (TicketTypeNotFoundError (co_ticketTypeId inp)) else Inr tt)) (\<lambda>tt.
    andThen (lift_tx (multiplyPaisa (tt_pricePaisa tt) (co_quantity inp))) (\<lambda>discount.
    andThen (lift_tx (computeOrderTotals (tt_pricePaisa tt) (co_quantity inp) discount)) (\<lambda>totals.
    retry (\<lambda>e. code_collision e \<or> reference_collision e) CODE_ATTEMPTS
      (\<lambda>attempt. comp_tx ts inp tt totals (draw attempt)) 1)))"

section \<open>Approve\<close>

definition approve_tx ::
  "instant \<Rightarrow> draws \<Rightarrow> uuid \<Rightarrow> jstr \<Rightarrow> jstr \<Rightarrow> (order_row \<times> ticket_row list) db_tx" where
  "approve_tx ts d orderId actor verifiedTrxId =
    andThen (order_findByIdForUpdate orderId) (\<lambda>found.
    andThen (non_null found (OrderNotFoundError orderId)) (\<lambda>order.
    andThen (require_tx (o_status order = PendingVerification)
      (OrderStatusConflictError orderId (o_status order))) (\<lambda>_.
    andThen (require_tx (o_bkashTrxId order = Some verifiedTrxId)
      (TrxIdChangedError orderId verifiedTrxId (o_bkashTrxId order))) (\<lambda>_.
    andThen (lift_tx (assertOrderTransition (o_status order) Paid)) (\<lambda>_.
    andThen (lift_tx (assertOrderTransition Paid Issued)) (\<lambda>_.
    andThen (transition ts orderId [PendingVerification] Paid NO_PATCH) (\<lambda>r1.
    andThen (non_null r1 (OrderStatusConflictError orderId (o_status order))) (\<lambda>paid.
    andThen (order_insertEvent
      (audit ts orderId actor (lit ''payment.approved'') (Some PendingVerification) (Some Paid)
        (lit ''trxID '' @ (case o_bkashTrxId order of None \<Rightarrow> [8212] | Some x \<Rightarrow> x) @
         lit '' '' @ [183] @ lit '' '' @ decimal (nat (o_totalPaisa order)) @ lit '' paisa''))) (\<lambda>_.
    andThen (convertToSold (o_ticketTypeId order) (o_quantity order)) (\<lambda>_.
    andThen (require_tx (int (length (o_attendeeNames order)) = o_quantity order)
      (AttendeeNamesMismatchError (o_quantity order) (int (length (o_attendeeNames order))))) (\<lambda>_.
    andThen (tickets_insertMany (tickets_for ts order d)) (\<lambda>rows.
    andThen (transition ts orderId [Paid] Issued NO_PATCH) (\<lambda>r2.
    andThen (non_null r2 (OrderStatusConflictError orderId Paid)) (\<lambda>issued.
    andThen (order_insertEvent
      (audit ts orderId actor (lit ''tickets.issued'') (Some Paid) (Some Issued)
        (code_list rows))) (\<lambda>_.
    return_tx (issued, rows))))))))))))))))"

definition approveOrder ::
  "instant \<Rightarrow> (nat \<Rightarrow> draws) \<Rightarrow> uuid \<Rightarrow> jstr \<Rightarrow> jstr \<Rightarrow> (order_row \<times> ticket_row list) db_tx" where
  "approveOrder ts draw orderId actor verifiedTrxId =
    retry code_collision CODE_ATTEMPTS
      (\<lambda>attempt. approve_tx ts (draw attempt) orderId actor verifiedTrxId) 1"

section \<open>Reject\<close>

definition reason_label :: "rejection_reason \<Rightarrow> jstr" where
  "reason_label r =
    (case r of
       NoMatchingCredit \<Rightarrow> lit ''No matching credit in the bKash statement''
     | AmountMismatch \<Rightarrow> lit ''The amount sent does not match the order total''
     | TrxIdAlreadyUsed \<Rightarrow> lit ''This transaction ID belongs to another payment''
     | SenderMismatch \<Rightarrow> lit ''The sending number does not match the statement''
     | DuplicateOrder \<Rightarrow> lit ''Duplicate of another order''
     | BuyerCancelled \<Rightarrow> lit ''Cancelled at the buyer'' @ [8217] @ lit ''s request'')"

definition clean_note :: "jstr option \<Rightarrow> jstr option" where
  "clean_note note =
    (case note of None \<Rightarrow> None | Some n \<Rightarrow> if trim n = [] then None else Some (trim n))"

definition rejectOrder ::
  "instant \<Rightarrow> uuid \<Rightarrow> jstr \<Rightarrow> jstr \<Rightarrow> jstr option \<Rightarrow> order_row db_tx" where
  "rejectOrder ts orderId actor reason note =
    andThen (non_null (parse_reason reason) (InvalidRejectionReasonError reason)) (\<lambda>parsed.
    let cleanNote = clean_note note
    in andThen (order_findByIdForUpdate orderId) (\<lambda>found.
       andThen (non_null found (OrderNotFoundError orderId)) (\<lambda>order.
       andThen (require_tx (o_status order = PendingVerification)
         (OrderStatusConflictError orderId (o_status order))) (\<lambda>_.
       andThen (lift_tx (assertOrderTransition (o_status order) Rejected)) (\<lambda>_.
       andThen (transition ts orderId [PendingVerification] Rejected
         \<lparr>pt_bkashTrxId = None, pt_bkashSenderMsisdn = None, pt_rejectionReason = Some reason,
          pt_rejectionNote = Some cleanNote\<rparr>) (\<lambda>result.
       andThen (non_null result (OrderStatusConflictError orderId (o_status order))) (\<lambda>rejected.
       andThen (release (o_ticketTypeId order) (o_quantity order)) (\<lambda>_.
       andThen (order_insertEvent
         (audit ts orderId actor (lit ''payment.rejected'') (Some PendingVerification)
           (Some Rejected)
           (case cleanNote of
              None \<Rightarrow> reason_label parsed
            | Some n \<Rightarrow> reason_label parsed @ lit '' '' @ [8212] @ lit '' '' @ n))) (\<lambda>_.
       return_tx rejected)))))))))"

section \<open>Cancel a ticket\<close>

record cancel_result =
  cx_ticket :: ticket_row
  cx_order :: order_row
  cx_orderCancelled :: bool

definition cancelTicket ::
  "instant \<Rightarrow> uuid \<Rightarrow> uuid \<Rightarrow> jstr \<Rightarrow> jstr \<Rightarrow> cancel_result db_tx" where
  "cancelTicket ts ticketId orderId actor reason =
    andThen (order_findByIdForUpdate orderId) (\<lambda>found.
    andThen (non_null found (OrderNotFoundError orderId)) (\<lambda>order.
    andThen (require_tx (o_status order = Issued)
      (OrderStatusConflictError orderId (o_status order))) (\<lambda>_.
    andThen (ticket_findByIdForUpdate ticketId) (\<lambda>tfound.
    andThen (non_null tfound (TicketNotFoundError ticketId)) (\<lambda>ticket.
    andThen (require_tx (t_orderId ticket = orderId) (TicketNotFoundError ticketId)) (\<lambda>_.
    andThen (require_tx (t_status ticket \<noteq> TicketCancelled)
      (TicketCancelledError (t_code ticket))) (\<lambda>_.
    andThen (case t_checkedInAt ticket of
        None \<Rightarrow> return_tx ()
      | Some at \<Rightarrow> throw_tx (TicketCheckedInError (t_code ticket) at
          (case t_checkedInBy ticket of None \<Rightarrow> [] | Some g \<Rightarrow> g))) (\<lambda>_.
    andThen (ticket_cancel ts ticketId) (\<lambda>result.
    andThen (non_null result (TicketCancelledError (t_code ticket))) (\<lambda>cancelled.
    andThen (releaseSold (t_ticketTypeId ticket) 1) (\<lambda>_.
    andThen (order_insertEvent
      (audit ts orderId actor (lit ''ticket.cancelled'') None None
        (t_code ticket @ lit '' ('' @ t_attendeeName ticket @ lit ''): '' @ reason))) (\<lambda>_.
    andThen (countIssuedByOrder orderId) (\<lambda>live.
    if live > 0
    then return_tx \<lparr>cx_ticket = cancelled, cx_order = order, cx_orderCancelled = False\<rparr>
    else andThen (lift_tx (assertOrderTransition (o_status order) Cancelled)) (\<lambda>_.
         andThen (transition ts orderId [Issued] Cancelled NO_PATCH) (\<lambda>r2.
         andThen (non_null r2 (OrderStatusConflictError orderId (o_status order))) (\<lambda>done.
         andThen (order_insertEvent
           (audit ts orderId actor (lit ''order.cancelled'') (Some Issued) (Some Cancelled)
             (lit ''all '' @ decimal (nat (o_quantity order)) @ lit '' tickets cancelled''))) (\<lambda>_.
         return_tx \<lparr>cx_ticket = cancelled, cx_order = done, cx_orderCancelled = True\<rparr>)))))))))))))))))"

section \<open>Re-send the tickets email\<close>

text \<open>The audit row is its own statement, written before the job is queued.\<close>

definition resendTicketsEmail :: "db \<Rightarrow> instant \<Rightarrow> uuid \<Rightarrow> jstr \<Rightarrow> unit db_tx" where
  "resendTicketsEmail snap ts orderId actor =
    andThen (non_null (order_findById orderId snap) (OrderNotFoundError orderId)) (\<lambda>order.
    andThen (require_tx (o_status order = Issued)
      (OrderStatusConflictError orderId (o_status order))) (\<lambda>_.
    andThen (order_insertEvent
      (audit ts orderId actor (lit ''email.resend_requested'') None None
        (lit ''tickets-issued''))) (\<lambda>_.
    return_tx ())))"

end
