(* ===== verification/TicketService.thy ===== *)
theory TicketService
  imports Fulfilment
begin

text \<open>
  \<open>src/src/server/services/tickets.service.ts\<close>: the ticket page, renaming an attendee while
  registration is open, and the check-in list.
\<close>

definition normaliseTicketCode :: "jstr \<Rightarrow> jstr" where
  "normaliseTicketCode raw = toUpperCase (trim (normaliseDigits raw))"

definition renameWindow :: "event_row \<Rightarrow> instant \<Rightarrow> bool \<times> instant option" where
  "renameWindow event at =
    (case e_registrationClosesAt event of
       None \<Rightarrow> (False, None)
     | Some closes \<Rightarrow> (at < closes, Some closes))"

record ticket_view =
  tv_ticket :: ticket_row
  tv_orderId :: uuid
  tv_orderReference :: jstr
  tv_orderQuantity :: int
  tv_event :: event_row
  tv_ticketType :: ticket_type_row
  tv_position :: int
  tv_siblings :: "ticket_row list"
  tv_canRename :: bool
  tv_renameLockedAt :: "instant option"

definition getTicketByCode :: "instant \<Rightarrow> jstr \<Rightarrow> db \<Rightarrow> ticket_view result" where
  "getTicketByCode now rawCode snap =
    (let code = normaliseTicketCode rawCode
     in case ticket_findByCode code snap of
          None \<Rightarrow> Inl (TicketCodeNotFoundError code)
        | Some ticket \<Rightarrow>
            (case order_findById (t_orderId ticket) snap of
               None \<Rightarrow> Inl (MissingRowError (t_orderId ticket))
             | Some order \<Rightarrow>
                 (case event_findById (t_eventId ticket) snap of
                    None \<Rightarrow> Inl (MissingRowError (t_eventId ticket))
                  | Some event \<Rightarrow>
                      (case ticketType_findById (t_ticketTypeId ticket) snap of
                         None \<Rightarrow> Inl (MissingRowError (t_ticketTypeId ticket))
                       | Some tt \<Rightarrow>
                           (case renameWindow event now of (is_open, lockedAt) \<Rightarrow>
                              Inr \<lparr>tv_ticket = ticket, tv_orderId = o_id order,
                                   tv_orderReference = o_reference order,
                                   tv_orderQuantity = o_quantity order, tv_event = event,
                                   tv_ticketType = tt, tv_position = t_position ticket,
                                   tv_siblings = tickets_listByOrder (t_orderId ticket) snap,
                                   tv_canRename = (t_status ticket = TicketIssued \<and> is_open),
                                   tv_renameLockedAt = lockedAt\<rparr>)))))"

definition rename_checks :: "db \<Rightarrow> instant \<Rightarrow> jstr \<Rightarrow> jstr \<Rightarrow> (ticket_row \<times> jstr \<times> jstr) result" where
  "rename_checks snap now rawCode rawName =
    (let code = normaliseTicketCode rawCode
     in case normaliseAttendeeName rawName of
          None \<Rightarrow> Inl InvalidAttendeeNameError
        | Some name \<Rightarrow>
            (case ticket_findByCode code snap of
               None \<Rightarrow> Inl (TicketCodeNotFoundError code)
             | Some ticket \<Rightarrow>
                 if t_status ticket = TicketCancelled then Inl (TicketCancelledError code)
                 else case event_findById (t_eventId ticket) snap of
                        None \<Rightarrow> Inl (MissingRowError (t_eventId ticket))
                      | Some event \<Rightarrow>
                          (case renameWindow event now of (is_open, lockedAt) \<Rightarrow>
                             if \<not> is_open then Inl (RenameLockedError lockedAt)
                             else Inr (ticket, code, name))))"

definition renameAttendee ::
  "db \<Rightarrow> instant \<Rightarrow> instant \<Rightarrow> jstr \<Rightarrow> jstr \<Rightarrow> ticket_row db_tx" where
  "renameAttendee snap ts now rawCode rawName =
    andThen (lift_tx (rename_checks snap now rawCode rawName)) (\<lambda>(ticket, code, name).
    andThen (order_findByIdForUpdate (t_orderId ticket)) (\<lambda>locked.
    andThen (non_null locked (MissingRowError (t_orderId ticket))) (\<lambda>_.
    andThen (updateAttendeeName ts (t_id ticket) (t_attendeeName ticket) name) (\<lambda>result.
    andThen (non_null result (TicketRenameConflictError code)) (\<lambda>updated.
    andThen (order_insertEvent
      (audit ts (t_orderId ticket) (lit ''buyer'') (lit ''ticket.renamed'') None None
        (code @ lit '': '' @ t_attendeeName ticket @ lit '' '' @ [8594] @ lit '' '' @ name))) (\<lambda>_.
    return_tx updated))))))"

section \<open>The check-in list\<close>

datatype check_in_show = ShowAll | ShowIn | ShowOut

record check_in_row = check_in_entry +
  cw_row :: check_in_ticket_row
  cw_orderId :: uuid

record check_in_list =
  cl_rows :: "check_in_row list"
  cl_total :: nat
  cl_cancelled :: nat
  cl_checkedIn :: nat

definition check_in_row_of :: "check_in_ticket_row \<Rightarrow> check_in_row" where
  "check_in_row_of r =
    \<lparr>ci_id = t_id (cr_ticket r), ci_attendeeName = t_attendeeName (cr_ticket r),
     ci_ticketTypeName = cr_ticketTypeName r, ci_code = t_code (cr_ticket r),
     ci_orderReference = cr_orderReference r, cw_row = r, cw_orderId = t_orderId (cr_ticket r)\<rparr>"

definition matches_query :: "(jstr \<Rightarrow> jstr) \<Rightarrow> check_in_query \<Rightarrow> check_in_row \<Rightarrow> bool" where
  "matches_query lower q r \<longleftrightarrow>
    filterCheckInRows lower [check_in_entry.truncate r] q \<noteq> []"

text \<open>\<open>order_rows\<close> is \<open>sortCheckInRows\<close>, whose comparison is the engine's collator.\<close>

definition checkInList ::
  "(jstr \<Rightarrow> nat) \<Rightarrow> (jstr \<Rightarrow> jstr) \<Rightarrow> (check_in_row list \<Rightarrow> check_in_row list) \<Rightarrow> uuid \<Rightarrow> jstr
    \<Rightarrow> check_in_show \<Rightarrow> db \<Rightarrow> (event_row \<times> check_in_list) result" where
  "checkInList rank lower order_rows eventId q show_which snap =
    (case event_findById eventId snap of
       None \<Rightarrow> Inl (EventNotFoundError eventId)
     | Some event \<Rightarrow>
         let all_rows = tickets_listForEvent rank eventId snap;
             live = filter (\<lambda>r. t_status (cr_ticket r) = TicketIssued) all_rows;
             issued = map check_in_row_of live;
             is_in = (\<lambda>r. t_checkedInAt (cr_ticket (cw_row r)) \<noteq> None);
             matched = filter (\<lambda>r. case show_which of
                 ShowAll \<Rightarrow> True | ShowIn \<Rightarrow> is_in r | ShowOut \<Rightarrow> \<not> is_in r)
               (filter (matches_query lower (normaliseCheckInQuery lower q)) issued)
         in Inr (event,
              \<lparr>cl_rows = order_rows matched, cl_total = length issued,
               cl_cancelled = length all_rows - length live,
               cl_checkedIn = length (filter is_in issued)\<rparr>))"

end
