(* ===== verification/Ledger.thy ===== *)
theory Ledger
  imports TicketService
begin

text \<open>
  What every committed order transaction keeps. Four books must agree in every state the
  database commits: the seat counters with the orders and tickets they stand for
  (\<open>seats_balanced\<close>), the order statuses with the tickets (\<open>tickets_match\<close>), the order
  statuses with the append-only audit trail (\<open>trail_ok\<close>), and the table constraints
  (\<open>db_ok\<close>). Each service operation is first summarised by its effect on the tables; the
  books then follow from the effect.
\<close>

section \<open>The books\<close>

definition pending_weight :: "uuid \<Rightarrow> order_row \<Rightarrow> int" where
  "pending_weight tt r =
    (if holdsInventory (o_status r) \<and> o_ticketTypeId r = tt then o_quantity r else 0)"

definition live_weight :: "uuid \<Rightarrow> ticket_row \<Rightarrow> int" where
  "live_weight tt t = (if t_status t = TicketIssued \<and> t_ticketTypeId t = tt then 1 else 0)"

definition seats_balanced :: "db \<Rightarrow> bool" where
  "seats_balanced s \<longleftrightarrow>
    (\<forall>tt. held_seats s tt = total_of (pending_weight tt) (orders s) \<and>
          sold_seats s tt = total_of (live_weight tt) (tickets s))"

definition live_ticket_of :: "db \<Rightarrow> uuid \<Rightarrow> bool" where
  "live_ticket_of s i \<longleftrightarrow> (\<exists>t \<in> set (tickets s). t_orderId t = i \<and> t_status t = TicketIssued)"

definition tickets_match :: "db \<Rightarrow> bool" where
  "tickets_match s \<longleftrightarrow>
    (\<forall>r \<in> set (orders s).
      o_status r \<noteq> Paid \<and>
      (o_status r = Issued \<longleftrightarrow> live_ticket_of s (o_id r)) \<and>
      (\<forall>t \<in> set (tickets s). t_orderId t = o_id r \<longrightarrow>
        o_status r \<in> {Issued, Cancelled} \<and> t_ticketTypeId t = o_ticketTypeId r))"

text \<open>
  Reading an order's trail from the start: every row that names statuses must start from
  where the last one left off, and make a legal move (or keep the status, as a corrected
  transaction id does); the first one creates the order.
\<close>

definition legal_move :: "order_status option \<Rightarrow> order_status \<Rightarrow> bool" where
  "legal_move frm to \<longleftrightarrow>
    (case frm of
       None \<Rightarrow> to = PendingPayment \<or> to = Issued
     | Some a \<Rightarrow> isOrderTransitionAllowed a to \<or> a = to)"

fun follow :: "order_status option \<Rightarrow> order_event_row list \<Rightarrow> order_status option option" where
  "follow cur [] = Some cur"
| "follow cur (e # es) =
    (case oe_toStatus e of
       None \<Rightarrow> follow cur es
     | Some to \<Rightarrow>
         if oe_fromStatus e = cur \<and> legal_move cur to then follow (Some to) es else None)"

definition trail :: "db \<Rightarrow> uuid \<Rightarrow> order_event_row list" where
  "trail s i = filter (\<lambda>e. oe_orderId e = i) (orderEvents s)"

definition trail_ok :: "db \<Rightarrow> bool" where
  "trail_ok s \<longleftrightarrow> (\<forall>r \<in> set (orders s). follow None (trail s (o_id r)) = Some (Some (o_status r)))"

definition books_ok :: "db \<Rightarrow> bool" where
  "books_ok s \<longleftrightarrow> db_ok s \<and> seats_balanced s \<and> tickets_match s \<and> trail_ok s"

section \<open>Moving the books\<close>

lemma seat_of_other_tables [simp]:
  "seat_of g (s\<lparr>orders := x\<rparr>) = seat_of g s" "seat_of g (s\<lparr>tickets := y\<rparr>) = seat_of g s"
  "seat_of g (s\<lparr>orderEvents := z\<rparr>) = seat_of g s"
  by (simp_all add: seat_of_def fun_eq_iff)

lemma follow_append:
  "follow cur (es @ fs) = (case follow cur es of None \<Rightarrow> None | Some c \<Rightarrow> follow c fs)"
  by (induction cur es rule: follow.induct) (auto split: option.splits)

lemma update_rows_twice:
  "(\<And>r. p (f r) = p r) \<Longrightarrow> update_rows p g (update_rows p f rs) = update_rows p (\<lambda>r. g (f r)) rs"
  by (induction rs) auto

text \<open>The row of an order, in an accepted store.\<close>

lemma order_findById_set:
  assumes "db_ok s"
  shows "order_findById i s = Some r \<longleftrightarrow> r \<in> set (orders s) \<and> o_id r = i"
  unfolding order_findById_def
  by (rule row_by_unique) (rule orders_ok(1) [OF db_ok_orders [OF assms]])

lemma set_order_mem:
  assumes "db_ok s" "order_findById i s = Some r" "r' \<in> set (update_rows (\<lambda>r. o_id r = i) f (orders s))"
  shows "r' = f r \<or> (r' \<in> set (orders s) \<and> o_id r' \<noteq> i)"
proof -
  from assms(3) obtain q where q: "q \<in> set (orders s)"
    "(o_id q = i \<and> r' = f q) \<or> (o_id q \<noteq> i \<and> r' = q)"
    by (auto simp: set_update_rows)
  show ?thesis
  proof (cases "o_id q = i")
    case True
    then have "order_findById i s = Some q" using q(1) by (simp add: order_findById_set [OF assms(1)])
    with assms(2) q True show ?thesis by simp
  qed (use q in auto)
qed

text \<open>One order changes: its rows of the three books change, the others stay.\<close>

lemma total_set_order:
  assumes "db_ok s" "order_findById i s = Some r"
  shows "total_of w (update_rows (\<lambda>r. o_id r = i) f (orders s)) =
    total_of w (orders s) + (w (f r) - w r)"
  using assms orders_ok(1) [OF db_ok_orders [OF assms(1)]]
  by (intro total_update_key [where key = o_id]) (auto simp: order_findById_set)

lemma trail_update:
  assumes ok: "db_ok s" "trail_ok s" and row: "order_findById i s = Some r"
    and orders: "orders s' = update_rows (\<lambda>r. o_id r = i) f (orders s)"
    and id: "o_id (f r) = i"
    and events: "orderEvents s' = orderEvents s @ evs" "\<forall>e \<in> set evs. oe_orderId e = i"
    and moves: "follow (Some (o_status r)) evs = Some (Some (o_status (f r)))"
  shows "trail_ok s'"
  unfolding trail_ok_def
proof
  fix r' assume "r' \<in> set (orders s')"
  then have "r' = f r \<or> (r' \<in> set (orders s) \<and> o_id r' \<noteq> i)"
    using set_order_mem [OF ok(1) row] orders by simp
  then show "follow None (trail s' (o_id r')) = Some (Some (o_status r'))"
  proof
    assume r': "r' = f r"
    have "follow None (trail s i) = Some (Some (o_status r))"
      using ok row by (auto simp: trail_ok_def order_findById_set)
    moreover have "trail s' i = trail s i @ evs" using events by (simp add: trail_def)
    ultimately show ?thesis using r' id moves by (simp add: follow_append)
  next
    assume r': "r' \<in> set (orders s) \<and> o_id r' \<noteq> i"
    then have "trail s' (o_id r') = trail s (o_id r')"
      using events by (auto simp: trail_def filter_empty_conv)
    with r' ok(2) show ?thesis by (simp add: trail_ok_def)
  qed
qed

lemma trail_insert:
  assumes ok: "db_ok s" "trail_ok s" and fresh: "o_id row \<notin> o_id ` set (orders s)"
    and orders: "orders s' = orders s @ [row]"
    and events: "orderEvents s' = orderEvents s @ evs" "\<forall>e \<in> set evs. oe_orderId e = o_id row"
    and moves: "follow None evs = Some (Some (o_status row))"
  shows "trail_ok s'"
  unfolding trail_ok_def
proof
  fix r' assume "r' \<in> set (orders s')"
  then have "r' = row \<or> r' \<in> set (orders s)" using orders by auto
  then show "follow None (trail s' (o_id r')) = Some (Some (o_status r'))"
  proof
    assume r': "r' = row"
    have "oe_orderId e \<in> o_id ` set (orders s)" if "e \<in> set (orderEvents s)" for e
      using ok(1) that by (auto simp: db_ok_def order_events_violation_def violation_None)
    then have "trail s (o_id row) = []"
      using fresh unfolding trail_def filter_empty_conv by metis
    then have "trail s' (o_id row) = evs" using events by (simp add: trail_def)
    with r' moves show ?thesis by simp
  next
    assume r': "r' \<in> set (orders s)"
    then have "o_id r' \<in> o_id ` set (orders s)" by (rule imageI)
    with fresh have "o_id r' \<noteq> o_id row" by auto
    then have "trail s' (o_id r') = trail s (o_id r')"
      using events by (auto simp: trail_def filter_empty_conv)
    with r' ok(2) show ?thesis by (simp add: trail_ok_def)
  qed
qed

text \<open>An audit row without statuses changes no book.\<close>

lemma trail_note:
  assumes "trail_ok s" "orders s' = orders s" "orderEvents s' = orderEvents s @ [e]"
    and "oe_toStatus e = None"
  shows "trail_ok s'"
proof -
  have "follow None (trail s' i) = follow None (trail s i)" for i
    using assms(3,4) by (auto simp: trail_def follow_append split: option.splits)
  with assms(1,2) show ?thesis by (simp add: trail_ok_def)
qed

lemma fresh_tickets:
  assumes "db_ok s" "i \<notin> o_id ` set (orders s)" "t \<in> set (tickets s)"
  shows "t_orderId t \<noteq> i"
  using tickets_ok(5) [OF db_ok_tickets [OF assms(1)] assms(3)] assms(2) by auto

section \<open>Audit rows\<close>

lemma audit_simps [simp]:
  "oe_orderId (audit ts i a ac f t n) = i" "oe_fromStatus (audit ts i a ac f t n) = f"
  "oe_toStatus (audit ts i a ac f t n) = t"
  by (simp_all add: audit_def)

text \<open>The table constraints after each statement.\<close>

lemmas statement_ok =
  keepsD [OF inventory_keeps(1)] keepsD [OF inventory_keeps(2)] keepsD [OF inventory_keeps(3)]
  keepsD [OF inventory_keeps(4)] keepsD [OF repo_keeps(1)] keepsD [OF repo_keeps(2)]
  keepsD [OF repo_keeps(5)] keepsD [OF repo_keeps(6)] keepsD [OF repo_keeps(8)]

section \<open>createOrder\<close>

lemma inventory_frame_fields:
  assumes "same_but_counters s s'"
  shows "orders s' = orders s" "tickets s' = tickets s" "orderEvents s' = orderEvents s"
    "events s' = events s" "promoCodes s' = promoCodes s"
    "tt_id ` set (ticketTypes s') = tt_id ` set (ticketTypes s)"
proof -
  obtain tts where tts: "s' = s\<lparr>ticketTypes := tts\<rparr>"
    and same: "map (\<lambda>t. t\<lparr>tt_quantityReserved := 0, tt_quantitySold := 0\<rparr>) tts =
      map (\<lambda>t. t\<lparr>tt_quantityReserved := 0, tt_quantitySold := 0\<rparr>) (ticketTypes s)"
    using assms by (auto simp: same_but_counters_def)
  show "orders s' = orders s" "tickets s' = tickets s" "orderEvents s' = orderEvents s"
    "events s' = events s" "promoCodes s' = promoCodes s"
    by (simp_all add: tts)
  from same have "map tt_id (map (\<lambda>t. t\<lparr>tt_quantityReserved := 0, tt_quantitySold := 0\<rparr>) tts) =
    map tt_id (map (\<lambda>t. t\<lparr>tt_quantityReserved := 0, tt_quantitySold := 0\<rparr>) (ticketTypes s))"
    by simp
  then have "map tt_id tts = map tt_id (ticketTypes s)" by (simp add: comp_def)
  then have "set (map tt_id tts) = set (map tt_id (ticketTypes s))" by simp
  then show "tt_id ` set (ticketTypes s') = tt_id ` set (ticketTypes s)" by (simp add: tts)
qed

lemma createOrder_tx_keeps: "keeps db_ok (createOrder_tx ts at inp pl i ref)"
  unfolding createOrder_tx_def by (intro keeps_intros)

lemma createOrder_tx_effect:
  assumes "db_ok s" "createOrder_tx ts at inp pl i ref s = Inr (row, s')"
  shows "row = new_order_row ts at inp pl i ref"
    and "length (filter (open_for_buyer (e_id (pl_event pl)) (in_buyerPhone inp) (lapsedBefore at)) (orders s)) < 2"
    and "\<exists>nt. orders s' = orders s @ [row] \<and> tickets s' = tickets s \<and>
      orderEvents s' = orderEvents s @ [audit ts i (lit ''buyer'') (lit ''order.created'') None
        (Some PendingPayment) nt]"
    and "o_id row \<notin> o_id ` set (orders s)"
    and "held_seats s' = (held_seats s)(tt_id (pl_ticketType pl) :=
      held_seats s (tt_id (pl_ticketType pl)) + in_quantity inp)"
    and "sold_seats s' = sold_seats s"
    and "held_seats s (tt_id (pl_ticketType pl)) + sold_seats s (tt_id (pl_ticketType pl)) +
      in_quantity inp \<le> seat_capacity s (tt_id (pl_ticketType pl))"
proof -
  let ?tt = "tt_id (pl_ticketType pl)"
  from assms(2) obtain s1 nt where
    cap: "length (filter (open_for_buyer (e_id (pl_event pl)) (in_buyerPhone inp) (lapsedBefore at))
      (orders s)) < MAX_OPEN_ORDERS_PER_BUYER"
    and h: "hold ?tt (in_quantity inp) s = Inr (True, s1)"
    and row: "row = new_order_row ts at inp pl i ref"
    and v: "orders_violation s1 (orders s1 @ [row]) = None"
    and s': "s' = s1\<lparr>orders := orders s1 @ [row], orderEvents := orderEvents s1 @
      [audit ts i (lit ''buyer'') (lit ''order.created'') None (Some PendingPayment) nt]\<rparr>"
    by (auto simp: createOrder_tx_def tx_simps new_order_row_def)
  note frame = inventory_frame_fields [OF inventory_frame(1) [OF h]]
  show "row = new_order_row ts at inp pl i ref" by (rule row)
  show "length (filter (open_for_buyer (e_id (pl_event pl)) (in_buyerPhone inp) (lapsedBefore at)) (orders s)) < 2"
    using cap by (simp add: MAX_OPEN_ORDERS_PER_BUYER_def)
  show "\<exists>nt. orders s' = orders s @ [row] \<and> tickets s' = tickets s \<and>
      orderEvents s' = orderEvents s @ [audit ts i (lit ''buyer'') (lit ''order.created'') None
        (Some PendingPayment) nt]"
    using s' frame by auto
  show "o_id row \<notin> o_id ` set (orders s)" using orders_ok(1) [OF v] frame by simp
  show "held_seats s' = (held_seats s)(?tt := held_seats s ?tt + in_quantity inp)"
    "sold_seats s' = sold_seats s"
    using seats.hold_True [OF assms(1) h] s' by simp_all
  show "held_seats s ?tt + sold_seats s ?tt + in_quantity inp \<le> seat_capacity s ?tt"
    by (rule seats.hold_available [OF assms(1) h])
qed


lemma holdsInventory_simps [simp]:
  "holdsInventory PendingPayment" "holdsInventory PendingVerification"
  "\<not> holdsInventory Paid" "\<not> holdsInventory Issued" "\<not> holdsInventory Rejected"
  "\<not> holdsInventory Expired" "\<not> holdsInventory Cancelled"
  by (simp_all add: holdsInventory_def)

lemma books_okD:
  "books_ok s \<Longrightarrow> db_ok s" "books_ok s \<Longrightarrow> seats_balanced s" "books_ok s \<Longrightarrow> tickets_match s"
  "books_ok s \<Longrightarrow> trail_ok s"
  by (simp_all add: books_ok_def)

lemma createOrder_tx_books:
  assumes "books_ok s" "createOrder_tx ts at inp pl i ref s = Inr (row, s')"
    "totQuantity (pl_totals pl) = in_quantity inp"
  shows "books_ok s'"
proof -
  note ok = books_okD [OF assms(1)]
  note eff = createOrder_tx_effect [OF ok(1) assms(2)]
  obtain nt where tabs: "orders s' = orders s @ [row]" "tickets s' = tickets s"
    "orderEvents s' = orderEvents s @ [audit ts i (lit ''buyer'') (lit ''order.created'') None
        (Some PendingPayment) nt]"
    using eff(3) by blast
  have row: "o_id row = i" "o_status row = PendingPayment" "o_quantity row = in_quantity inp"
    "o_ticketTypeId row = tt_id (pl_ticketType pl)"
    using eff(1) assms(3) by (simp_all add: new_order_row_def)
  have "db_ok s'" using keepsD [OF createOrder_tx_keeps assms(2) ok(1)] .
  moreover have "trail_ok s'"
    by (rule trail_insert [OF ok(1,4) eff(4) tabs(1,3)]) (simp_all add: row legal_move_def)
  moreover have "seats_balanced s'"
    using ok(2) eff(5,6) by (auto simp: seats_balanced_def tabs pending_weight_def row)
  moreover have "tickets_match s'"
    using ok(3) fresh_tickets [OF ok(1)] eff(4)
    by (auto simp: tickets_match_def tabs row live_ticket_of_def)
  ultimately show ?thesis by (simp add: books_ok_def)
qed

section \<open>One order moves\<close>

text \<open>
  The shape of every transaction on an existing order: the order's row is rewritten, audit
  rows are appended, and the counters move by what the order stopped or started holding.
\<close>

lemma order_move_books:
  assumes ok: "books_ok s" and ok': "db_ok s'" and row: "order_findById i s = Some r"
    and orders: "orders s' = update_rows (\<lambda>r. o_id r = i) f (orders s)"
    and f: "o_id (f r) = i" "o_ticketTypeId (f r) = o_ticketTypeId r" "o_quantity (f r) = o_quantity r"
      "o_status (f r) \<noteq> Paid" "o_status r = Issued \<longleftrightarrow> o_status (f r) = Issued"
      "o_status r = Cancelled \<Longrightarrow> o_status (f r) = Cancelled"
    and tickets: "tickets s' = tickets s"
    and events: "orderEvents s' = orderEvents s @ evs" "\<forall>e \<in> set evs. oe_orderId e = i"
    and moves: "follow (Some (o_status r)) evs = Some (Some (o_status (f r)))"
    and held: "held_seats s' = (held_seats s)(o_ticketTypeId r := held_seats s (o_ticketTypeId r) +
      (if holdsInventory (o_status (f r)) then o_quantity r else 0) -
      (if holdsInventory (o_status r) then o_quantity r else 0))"
    and sold: "sold_seats s' = sold_seats s"
  shows "books_ok s'"
proof -
  note k = books_okD [OF ok]
  have "trail_ok s'" by (rule trail_update [OF k(1,4) row orders f(1) events moves])
  moreover have "seats_balanced s'"
    using k(2) unfolding seats_balanced_def
    by (auto simp: held sold orders tickets total_set_order [OF k(1) row] pending_weight_def f)
  moreover have "tickets_match s'"
    unfolding tickets_match_def
  proof
    fix r' assume "r' \<in> set (orders s')"
    then have "r' = f r \<or> (r' \<in> set (orders s) \<and> o_id r' \<noteq> i)"
      using set_order_mem [OF k(1) row] orders by simp
    moreover have "r \<in> set (orders s) \<and> o_id r = i" using row order_findById_set [OF k(1)] by simp
    ultimately show "o_status r' \<noteq> Paid \<and>
      (o_status r' = Issued \<longleftrightarrow> live_ticket_of s' (o_id r')) \<and>
      (\<forall>t \<in> set (tickets s'). t_orderId t = o_id r' \<longrightarrow>
        o_status r' \<in> {Issued, Cancelled} \<and> t_ticketTypeId t = o_ticketTypeId r')"
      using k(3) f by (auto simp: tickets_match_def tickets live_ticket_of_def)
  qed
  ultimately show ?thesis using ok' by (simp add: books_ok_def)
qed

lemma set_order_simps [simp]:
  "orders (set_order i f s) = update_rows (\<lambda>r. o_id r = i) f (orders s)"
  "tickets (set_order i f s) = tickets s" "orderEvents (set_order i f s) = orderEvents s"
  "seat_of g (set_order i f s) = seat_of g s" "ticketTypes (set_order i f s) = ticketTypes s"
  by (simp_all add: set_order_def)

text \<open>A transition that must have hit.\<close>

lemma transition_hit:
  assumes "db_ok s" "transition ts i frm to patch s = Inr (Some x, s')"
  shows "\<exists>r. order_findById i s = Some r \<and> o_status r \<in> set frm \<and>
    x = transition_row ts to patch r \<and> s' = set_order i (transition_row ts to patch) s"
  using transition_Inr [OF assms] by (auto split: option.splits if_splits)

section \<open>submitPayment\<close>

lemma submitPayment_keeps: "keeps db_ok (submitPayment ts now i x m)"
  unfolding submitPayment_def Let_def by (intro keeps_intros)

definition submit_patch :: "jstr \<Rightarrow> jstr \<Rightarrow> transition_patch" where
  "submit_patch x m = \<lparr>pt_bkashTrxId = Some (normaliseTrxId x), pt_bkashSenderMsisdn = Some m,
    pt_rejectionReason = None, pt_rejectionNote = None\<rparr>"

lemma submitPayment_effect:
  assumes "db_ok s" "submitPayment ts now i x m s = Inr (u, s')"
  shows "\<exists>r a nt. order_findById i s = Some r \<and> o_status r \<in> {PendingPayment, PendingVerification} \<and>
    a \<noteq> lit ''payment.approved'' \<and> \<not> holdLapsed (o_status r) (o_holdExpiresAt r) now \<and>
    u = transition_row ts PendingVerification (submit_patch x m) r \<and>
    s' = (set_order i (transition_row ts PendingVerification (submit_patch x m)) s)
      \<lparr>orderEvents := orderEvents s @
        [audit ts i (lit ''buyer'') a (Some (o_status r)) (Some PendingVerification) nt]\<rparr>"
proof -
  from assms(2) obtain r s1 a nt where r: "order_findById i s = Some r" "o_status r \<in> set SUBMITTABLE"
    "\<not> holdLapsed (o_status r) (o_holdExpiresAt r) now"
    and t: "transition ts i SUBMITTABLE PendingVerification (submit_patch x m) s = Inr (Some u, s1)"
    and s': "s' = s1\<lparr>orderEvents := orderEvents s1 @
        [audit ts i (lit ''buyer'') a (Some (o_status r)) (Some PendingVerification) nt]\<rparr>"
    and a: "a \<noteq> lit ''payment.approved''"
    by (auto simp: submitPayment_def Let_def submit_patch_def tx_simps split: if_splits)
  from transition_hit [OF assms(1) t] r(1)
  have u: "u = transition_row ts PendingVerification (submit_patch x m) r"
    and s1: "s1 = set_order i (transition_row ts PendingVerification (submit_patch x m)) s" by auto
  show ?thesis
    by (rule exI [of _ r], rule exI [of _ a], rule exI [of _ nt])
      (use r u s' a in \<open>simp add: s1 SUBMITTABLE_def del: lit_simps\<close>)
qed

lemma submitPayment_books:
  assumes "books_ok s" "submitPayment ts now i x m s = Inr (u, s')"
  shows "books_ok s'"
proof -
  note k = books_okD [OF assms(1)]
  from submitPayment_effect [OF k(1) assms(2)] obtain r a nt where
    r: "order_findById i s = Some r" "o_status r \<in> {PendingPayment, PendingVerification}" and
    s': "s' = (set_order i (transition_row ts PendingVerification (submit_patch x m)) s)
      \<lparr>orderEvents := orderEvents s @
        [audit ts i (lit ''buyer'') a (Some (o_status r)) (Some PendingVerification) nt]\<rparr>"
    by blast
  have "o_id r = i" using r(1) order_findById_set [OF k(1)] by simp
  then show ?thesis
    using r(2)
    by (intro order_move_books [OF assms(1) keepsD [OF submitPayment_keeps assms(2) k(1)] r(1),
          where f = "transition_row ts PendingVerification (submit_patch x m)"
            and evs = "[audit ts i (lit ''buyer'') a (Some (o_status r)) (Some PendingVerification) nt]"])
      (auto simp: s' legal_move_def isOrderTransitionAllowed_def)
qed


section \<open>Expiry and rejection\<close>

text \<open>A fetched hold still describes its order: these columns never change.\<close>

definition hold_matches :: "db \<Rightarrow> lapsed_hold \<Rightarrow> bool" where
  "hold_matches s h \<longleftrightarrow>
    (\<forall>r. order_findById (lh_id h) s = Some r \<longrightarrow>
      lh_ticketTypeId h = o_ticketTypeId r \<and> lh_quantity h = o_quantity r)"

lemma expire_one_keeps: "keeps db_ok (expire_one ts h)"
  unfolding expire_one_def by (intro keeps_intros)

lemma expire_one_False:
  assumes "db_ok s" "expire_one ts h s = Inr (False, s')"
  shows "s' = s"
  using assms transition_Inr [OF assms(1), of ts "lh_id h" "[PendingPayment]" Expired NO_PATCH]
  by (fastforce simp: expire_one_def tx_simps split: option.splits if_splits)

lemma expire_one_effect:
  assumes "db_ok s" "expire_one ts h s = Inr (True, s')"
  shows "\<exists>r nt. order_findById (lh_id h) s = Some r \<and> o_status r = PendingPayment \<and>
    orders s' = update_rows (\<lambda>q. o_id q = lh_id h) (transition_row ts Expired NO_PATCH) (orders s) \<and>
    tickets s' = tickets s \<and>
    orderEvents s' = orderEvents s @
      [audit ts (lh_id h) (lit ''system'') (lit ''order.expired'') (Some PendingPayment) (Some Expired) nt] \<and>
    held_seats s' = (held_seats s)(lh_ticketTypeId h := held_seats s (lh_ticketTypeId h) - lh_quantity h) \<and>
    sold_seats s' = sold_seats s"
proof -
  from assms(2) obtain x s1 s2 nt where
    t: "transition ts (lh_id h) [PendingPayment] Expired NO_PATCH s = Inr (Some x, s1)"
    and rel: "release (lh_ticketTypeId h) (lh_quantity h) s1 = Inr ((), s2)"
    and s': "s' = s2\<lparr>orderEvents := orderEvents s2 @
      [audit ts (lh_id h) (lit ''system'') (lit ''order.expired'') (Some PendingPayment) (Some Expired) nt]\<rparr>"
    by (auto simp: expire_one_def tx_simps split: option.splits)
  from transition_hit [OF assms(1) t] obtain r where
    r: "order_findById (lh_id h) s = Some r" "o_status r = PendingPayment"
    and s1: "s1 = set_order (lh_id h) (transition_row ts Expired NO_PATCH) s" by auto
  have ok1: "db_ok s1" by (rule statement_ok(7) [OF t assms(1)])
  note frame = inventory_frame_fields [OF inventory_frame(2) [OF rel]]
  show ?thesis
    by (rule exI [of _ r], rule exI [of _ nt])
      (use r seats.release_eff [OF ok1 rel] in \<open>simp add: s' frame s1\<close>)
qed

lemma expire_one_books:
  assumes "books_ok s" "expire_one ts h s = Inr (b, s')" "hold_matches s h"
  shows "books_ok s'"
proof (cases b)
  case True
  note k = books_okD [OF assms(1)]
  from assms(2) True have "expire_one ts h s = Inr (True, s')" by simp
  from expire_one_effect [OF k(1) this] obtain r nt where
    r: "order_findById (lh_id h) s = Some r" "o_status r = PendingPayment"
    and eff: "orders s' = update_rows (\<lambda>q. o_id q = lh_id h) (transition_row ts Expired NO_PATCH) (orders s)"
      "tickets s' = tickets s"
      "orderEvents s' = orderEvents s @
        [audit ts (lh_id h) (lit ''system'') (lit ''order.expired'') (Some PendingPayment) (Some Expired) nt]"
      "held_seats s' = (held_seats s)(lh_ticketTypeId h := held_seats s (lh_ticketTypeId h) - lh_quantity h)"
      "sold_seats s' = sold_seats s"
    by blast
  have "o_id r = lh_id h" using r(1) order_findById_set [OF k(1)] by simp
  with r assms(3) eff show ?thesis
    by (intro order_move_books [OF assms(1) keepsD [OF expire_one_keeps assms(2) k(1)] r(1) eff(1)])
      (auto simp: legal_move_def isOrderTransitionAllowed_def hold_matches_def)
next
  case False
  with assms books_okD(1) expire_one_False [of s ts h s'] show ?thesis by auto
qed

lemma rejectOrder_keeps: "keeps db_ok (rejectOrder ts i a rs nt)"
  unfolding rejectOrder_def Let_def by (intro keeps_intros)

lemma rejectOrder_effect:
  assumes "db_ok s" "rejectOrder ts i actor reason note_in s = Inr (u, s')"
  shows "\<exists>r nt patch. order_findById i s = Some r \<and> o_status r = PendingVerification \<and>
    isRejectionReason reason \<and> u = transition_row ts Rejected patch r \<and>
    o_rejectionReason u = Some reason \<and> o_rejectionNote u = clean_note note_in \<and>
    orders s' = update_rows (\<lambda>q. o_id q = i) (transition_row ts Rejected patch) (orders s) \<and>
    tickets s' = tickets s \<and>
    orderEvents s' = orderEvents s @
      [audit ts i actor (lit ''payment.rejected'') (Some PendingVerification) (Some Rejected) nt] \<and>
    held_seats s' = (held_seats s)(o_ticketTypeId r := held_seats s (o_ticketTypeId r) - o_quantity r) \<and>
    sold_seats s' = sold_seats s"
proof -
  let ?p = "\<lparr>pt_bkashTrxId = None, pt_bkashSenderMsisdn = None, pt_rejectionReason = Some reason,
    pt_rejectionNote = Some (clean_note note_in)\<rparr>"
  from assms(2) obtain r s1 s2 nt where
    r: "order_findById i s = Some r" "o_status r = PendingVerification" "isRejectionReason reason"
    and t: "transition ts i [PendingVerification] Rejected ?p s = Inr (Some u, s1)"
    and rel: "release (o_ticketTypeId r) (o_quantity r) s1 = Inr ((), s2)"
    and s': "s' = s2\<lparr>orderEvents := orderEvents s2 @
      [audit ts i actor (lit ''payment.rejected'') (Some PendingVerification) (Some Rejected) nt]\<rparr>"
    by (auto simp: rejectOrder_def Let_def tx_simps isRejectionReason_def)
  from transition_hit [OF assms(1) t] r(1) have u: "u = transition_row ts Rejected ?p r"
    and s1: "s1 = set_order i (transition_row ts Rejected ?p) s" by auto
  have ok1: "db_ok s1" by (rule statement_ok(7) [OF t assms(1)])
  note frame = inventory_frame_fields [OF inventory_frame(2) [OF rel]]
  show ?thesis
    by (rule exI [of _ r], rule exI [of _ nt], rule exI [of _ ?p])
      (use r u seats.release_eff [OF ok1 rel] in
        \<open>simp add: s' frame s1 transition_row_def apply_patch_def\<close>)
qed

lemma rejectOrder_books:
  assumes "books_ok s" "rejectOrder ts i actor reason note_in s = Inr (u, s')"
  shows "books_ok s'"
proof -
  note k = books_okD [OF assms(1)]
  from rejectOrder_effect [OF k(1) assms(2)] obtain r nt patch where
    r: "order_findById i s = Some r" "o_status r = PendingVerification"
    and eff: "orders s' = update_rows (\<lambda>q. o_id q = i) (transition_row ts Rejected patch) (orders s)"
      "tickets s' = tickets s"
      "orderEvents s' = orderEvents s @
        [audit ts i actor (lit ''payment.rejected'') (Some PendingVerification) (Some Rejected) nt]"
      "held_seats s' = (held_seats s)(o_ticketTypeId r := held_seats s (o_ticketTypeId r) - o_quantity r)"
      "sold_seats s' = sold_seats s"
    by blast
  have "o_id r = i" using r(1) order_findById_set [OF k(1)] by simp
  with r eff show ?thesis
    by (intro order_move_books [OF assms(1) keepsD [OF rejectOrder_keeps assms(2) k(1)] r(1) eff(1)])
      (auto simp: legal_move_def isOrderTransitionAllowed_def)
qed

section \<open>Issuing tickets\<close>

lemma tickets_insertMany_Inr:
  "tickets_insertMany rows s = Inr (x, s') \<Longrightarrow> x = rows \<and> s' = s\<lparr>tickets := tickets s @ rows\<rparr>"
  by (auto simp: tickets_insertMany_def tx_simps split: if_splits)

lemma tickets_for_simps:
  "length (tickets_for ts r d) = length (o_attendeeNames r)"
  "t \<in> set (tickets_for ts r d) \<Longrightarrow> t_orderId t = o_id r \<and> t_ticketTypeId t = o_ticketTypeId r \<and>
    t_eventId t = o_eventId r \<and> t_status t = TicketIssued \<and> t_checkedInAt t = None"
  "map t_attendeeName (tickets_for ts r d) = o_attendeeNames r"
  by (auto simp: tickets_for_def ticket_for_def intro!: nth_equalityI)

lemma total_live_tickets_for:
  "total_of (live_weight tt) (tickets_for ts r d) =
    (if o_ticketTypeId r = tt then int (length (o_attendeeNames r)) else 0)"
proof -
  have "total_of (live_weight tt) (tickets_for ts r d) =
    total_of (\<lambda>_. if o_ticketTypeId r = tt then 1 else 0) (tickets_for ts r d)"
    unfolding total_of_def
    by (rule arg_cong [where f = sum_list], rule map_cong)
      (auto simp: live_weight_def dest: tickets_for_simps(2))
  then show ?thesis by (simp add: total_const tickets_for_simps(1))
qed

lemma approve_tx_keeps: "keeps db_ok (approve_tx ts d i a v)"
  unfolding approve_tx_def by (intro keeps_intros)

lemma approve_tx_effect:
  assumes "db_ok s" "approve_tx ts d i actor v s = Inr (res, s')"
  shows "\<exists>r n1 n2. order_findById i s = Some r \<and> o_status r = PendingVerification \<and>
    o_bkashTrxId r = Some v \<and> int (length (o_attendeeNames r)) = o_quantity r \<and>
    res = (transition_row ts Issued NO_PATCH (transition_row ts Paid NO_PATCH r), tickets_for ts r d) \<and>
    orders s' = update_rows (\<lambda>q. o_id q = i)
      (\<lambda>q. transition_row ts Issued NO_PATCH (transition_row ts Paid NO_PATCH q)) (orders s) \<and>
    tickets s' = tickets s @ tickets_for ts r d \<and>
    orderEvents s' = orderEvents s @
      [audit ts i actor (lit ''payment.approved'') (Some PendingVerification) (Some Paid) n1,
       audit ts i actor (lit ''tickets.issued'') (Some Paid) (Some Issued) n2] \<and>
    held_seats s' = (held_seats s)(o_ticketTypeId r := held_seats s (o_ticketTypeId r) - o_quantity r) \<and>
    sold_seats s' = (sold_seats s)(o_ticketTypeId r := sold_seats s (o_ticketTypeId r) + o_quantity r)"
proof -
  from assms(2) obtain r x1 s1 n1 s2 rows s3 x2 s4 n2 where
    r: "order_findById i s = Some r" "o_status r = PendingVerification" "o_bkashTrxId r = Some v"
      "int (length (o_attendeeNames r)) = o_quantity r"
    and t1: "transition ts i [PendingVerification] Paid NO_PATCH s = Inr (Some x1, s1)"
    and c: "convertToSold (o_ticketTypeId r) (o_quantity r)
      (s1\<lparr>orderEvents := orderEvents s1 @
        [audit ts i actor (lit ''payment.approved'') (Some PendingVerification) (Some Paid) n1]\<rparr>) = Inr ((), s2)"
    and v1: "order_events_violation s1 (orderEvents s1 @
        [audit ts i actor (lit ''payment.approved'') (Some PendingVerification) (Some Paid) n1]) = None"
    and m: "tickets_insertMany (tickets_for ts r d) s2 = Inr (rows, s3)"
    and t2: "transition ts i [Paid] Issued NO_PATCH s3 = Inr (Some x2, s4)"
    and s': "s' = s4\<lparr>orderEvents := orderEvents s4 @
      [audit ts i actor (lit ''tickets.issued'') (Some Paid) (Some Issued) n2]\<rparr>"
    and res: "res = (x2, rows)"
    by (auto simp: approve_tx_def tx_simps)
  let ?s1e = "s1\<lparr>orderEvents := orderEvents s1 @
        [audit ts i actor (lit ''payment.approved'') (Some PendingVerification) (Some Paid) n1]\<rparr>"
  from transition_hit [OF assms(1) t1] r(1)
  have s1: "s1 = set_order i (transition_row ts Paid NO_PATCH) s" by auto
  have ok1: "db_ok s1" by (rule statement_ok(7) [OF t1 assms(1)])
  have ok1e: "db_ok ?s1e" by (rule put_order_events_ok [OF ok1 v1])
  have ok2: "db_ok s2" by (rule statement_ok(3) [OF c ok1e])
  have ok3: "db_ok s3" by (rule statement_ok(8) [OF m ok2])
  note frame = inventory_frame_fields [OF inventory_frame(3) [OF c]]
  from tickets_insertMany_Inr [OF m] have s3: "rows = tickets_for ts r d"
    "s3 = s2\<lparr>tickets := tickets s2 @ tickets_for ts r d\<rparr>" by simp_all
  from transition_hit [OF ok3 t2] obtain r2 where
    r2: "order_findById i s3 = Some r2" "x2 = transition_row ts Issued NO_PATCH r2"
    and s4: "s4 = set_order i (transition_row ts Issued NO_PATCH) s3" by auto
  have "order_findById i s3 = Some (transition_row ts Paid NO_PATCH r)"
  proof -
    have "o_id r = i" using r(1) by (simp add: order_findById_set [OF assms(1)])
    with r(1) show ?thesis by (simp add: order_findById_def s3 frame s1 row_by_update_rows)
  qed
  with r2 have x2: "x2 = transition_row ts Issued NO_PATCH (transition_row ts Paid NO_PATCH r)" by simp
  have ords: "orders s' = update_rows (\<lambda>q. o_id q = i)
      (\<lambda>q. transition_row ts Issued NO_PATCH (transition_row ts Paid NO_PATCH q)) (orders s)"
    by (simp add: s' s4 s3 frame s1 update_rows_twice)
  show ?thesis
    by (rule exI [of _ r], rule exI [of _ n1], rule exI [of _ n2])
      (use r ords res x2 seats.convert_eff [OF ok1e c] in \<open>simp add: s' s4 s3 frame s1\<close>)
qed


lemma approve_tx_books:
  assumes "books_ok s" "approve_tx ts d i actor v s = Inr (res, s')"
  shows "books_ok s'"
proof -
  note k = books_okD [OF assms(1)]
  let ?f = "\<lambda>q. transition_row ts Issued NO_PATCH (transition_row ts Paid NO_PATCH q)"
  from approve_tx_effect [OF k(1) assms(2)] obtain r n1 n2 where
    r: "order_findById i s = Some r" "o_status r = PendingVerification"
      "int (length (o_attendeeNames r)) = o_quantity r"
    and ords: "orders s' = update_rows (\<lambda>q. o_id q = i) ?f (orders s)"
    and tix: "tickets s' = tickets s @ tickets_for ts r d"
    and evs: "orderEvents s' = orderEvents s @
      [audit ts i actor (lit ''payment.approved'') (Some PendingVerification) (Some Paid) n1,
       audit ts i actor (lit ''tickets.issued'') (Some Paid) (Some Issued) n2]"
    and cnt: "held_seats s' = (held_seats s)(o_ticketTypeId r := held_seats s (o_ticketTypeId r) - o_quantity r)"
      "sold_seats s' = (sold_seats s)(o_ticketTypeId r := sold_seats s (o_ticketTypeId r) + o_quantity r)"
    by blast
  have mem: "r \<in> set (orders s)" "o_id r = i" using r(1) by (simp_all add: order_findById_set [OF k(1)])
  have ok': "db_ok s'" by (rule keepsD [OF approve_tx_keeps assms(2) k(1)])
  have "trail_ok s'"
    by (rule trail_update [OF k(1,4) r(1) ords _ evs])
      (simp_all add: mem r legal_move_def isOrderTransitionAllowed_def)
  moreover have "seats_balanced s'"
    using k(2) r unfolding seats_balanced_def
    by (auto simp: cnt ords tix total_set_order [OF k(1) r(1)] pending_weight_def
        total_live_tickets_for)
  moreover have "tickets_match s'"
    unfolding tickets_match_def
  proof
    fix r' assume "r' \<in> set (orders s')"
    then have r': "r' = ?f r \<or> (r' \<in> set (orders s) \<and> o_id r' \<noteq> i)"
      using set_order_mem [OF k(1) r(1)] ords by simp
    have old: "t_orderId t \<noteq> i" if "t \<in> set (tickets s)" for t
      using k(3) mem r(2) that by (auto simp: tickets_match_def)
    have "tickets_for ts r d \<noteq> []"
      using r(3) orders_ok(4) [OF db_ok_orders [OF k(1)] mem(1)]
      by (auto simp: tickets_for_simps(1) simp flip: length_greater_0_conv)
    then have "\<exists>t \<in> set (tickets_for ts r d). t_orderId t = i \<and> t_status t = TicketIssued"
      using mem(2) tickets_for_simps(2) [of _ ts r d] by (metis list.set_intros(1) neq_Nil_conv)
    with r' old mem show "o_status r' \<noteq> Paid \<and>
      (o_status r' = Issued \<longleftrightarrow> live_ticket_of s' (o_id r')) \<and>
      (\<forall>t \<in> set (tickets s'). t_orderId t = o_id r' \<longrightarrow>
        o_status r' \<in> {Issued, Cancelled} \<and> t_ticketTypeId t = o_ticketTypeId r')"
      using k(3) by (auto simp: tickets_match_def live_ticket_of_def tix dest: tickets_for_simps(2))
  qed
  ultimately show ?thesis using ok' by (simp add: books_ok_def)
qed

section \<open>Complimentary tickets\<close>

lemma comp_tx_keeps: "keeps db_ok (comp_tx ts inp tt totals d)"
  unfolding comp_tx_def by (intro keeps_intros)

lemma comp_tx_effect:
  assumes "db_ok s" "comp_tx ts inp tt totals d s = Inr (res, s')"
  shows "\<exists>row nt. row = comp_order_row ts inp tt totals d \<and>
    res = (row, tickets_for ts row d) \<and> int (length (o_attendeeNames row)) = o_quantity row \<and>
    o_id row \<notin> o_id ` set (orders s) \<and>
    orders s' = orders s @ [row] \<and> tickets s' = tickets s @ tickets_for ts row d \<and>
    orderEvents s' = orderEvents s @
      [audit ts (o_id row) (co_actor inp) (lit ''order.comp_issued'') None (Some Issued) nt] \<and>
    held_seats s' = held_seats s \<and>
    sold_seats s' = (sold_seats s)(tt_id tt := sold_seats s (tt_id tt) + co_quantity inp)"
proof -
  let ?row = "comp_order_row ts inp tt totals d"
  from assms(2) obtain s1 s2 rows s4 nt where
    h: "hold (tt_id tt) (co_quantity inp) s = Inr (True, s1)"
    and c: "convertToSold (tt_id tt) (co_quantity inp) s1 = Inr ((), s2)"
    and v: "orders_violation s2 (orders s2 @ [?row]) = None"
    and n: "int (length (o_attendeeNames ?row)) = o_quantity ?row"
    and m: "tickets_insertMany (tickets_for ts ?row d) (s2\<lparr>orders := orders s2 @ [?row]\<rparr>) = Inr (rows, s4)"
    and s': "s' = s4\<lparr>orderEvents := orderEvents s4 @
      [audit ts (o_id ?row) (co_actor inp) (lit ''order.comp_issued'') None (Some Issued) nt]\<rparr>"
    and res: "res = (?row, rows)"
    by (auto simp: comp_tx_def tx_simps)
  note f1 = inventory_frame_fields [OF inventory_frame(1) [OF h]]
  note f2 = inventory_frame_fields [OF inventory_frame(3) [OF c]]
  from tickets_insertMany_Inr [OF m] have s4: "rows = tickets_for ts ?row d"
    "s4 = s2\<lparr>orders := orders s2 @ [?row], tickets := tickets s2 @ tickets_for ts ?row d\<rparr>" by simp_all
  have "o_id ?row \<notin> o_id ` set (orders s)" using orders_ok(1) [OF v] by (simp add: f1 f2)
  then show ?thesis
    by (intro exI [of _ ?row] exI [of _ nt])
      (use n res seats.hold_then_convert [OF assms(1) h c] in \<open>simp add: s' s4 f1 f2\<close>)
qed

lemma comp_tx_books:
  assumes "books_ok s" "comp_tx ts inp tt totals d s = Inr (res, s')"
    "totQuantity totals = co_quantity inp"
  shows "books_ok s'"
proof -
  note k = books_okD [OF assms(1)]
  let ?row = "comp_order_row ts inp tt totals d"
  from comp_tx_effect [OF k(1) assms(2)] obtain nt where
    n: "int (length (o_attendeeNames ?row)) = o_quantity ?row"
    and fresh: "o_id ?row \<notin> o_id ` set (orders s)"
    and ords: "orders s' = orders s @ [?row]" and tix: "tickets s' = tickets s @ tickets_for ts ?row d"
    and evs: "orderEvents s' = orderEvents s @
      [audit ts (o_id ?row) (co_actor inp) (lit ''order.comp_issued'') None (Some Issued) nt]"
    and cnt: "held_seats s' = held_seats s"
      "sold_seats s' = (sold_seats s)(tt_id tt := sold_seats s (tt_id tt) + co_quantity inp)"
    by blast
  have row: "o_status ?row = Issued" "o_quantity ?row = co_quantity inp" "o_ticketTypeId ?row = tt_id tt"
    by (simp_all add: comp_order_row_def assms(3))
  have ok': "db_ok s'" by (rule keepsD [OF comp_tx_keeps assms(2) k(1)])
  have "trail_ok s'"
    by (rule trail_insert [OF k(1,4) fresh ords evs]) (simp_all add: row legal_move_def)
  moreover have "seats_balanced s'"
    using k(2) n unfolding seats_balanced_def
    by (auto simp: cnt ords tix pending_weight_def total_live_tickets_for row)
  moreover have "tickets_match s'"
  proof -
    have "1 \<le> o_quantity ?row"
      using orders_ok(4) [OF db_ok_orders [OF ok'], of ?row] ords by simp
    then have "tickets_for ts ?row d \<noteq> []"
      using n by (auto simp: tickets_for_simps(1) simp flip: length_greater_0_conv)
    then have "\<exists>t \<in> set (tickets_for ts ?row d). t_orderId t = o_id ?row \<and> t_status t = TicketIssued"
      using tickets_for_simps(2) [of _ ts ?row d] by (metis list.set_intros(1) neq_Nil_conv)
    moreover have "o_id r \<noteq> o_id ?row \<and> o_id ?row \<noteq> o_id r" if "r \<in> set (orders s)" for r
      using fresh that by (metis imageI)
    ultimately show ?thesis
      using k(3) fresh_tickets [OF k(1) fresh]
      by (auto simp: tickets_match_def live_ticket_of_def ords tix row dest: tickets_for_simps(2))
  qed
  ultimately show ?thesis using ok' by (simp add: books_ok_def)
qed


section \<open>cancelTicket\<close>

lemma ticket_findById_set:
  assumes "db_ok s"
  shows "ticket_findById i s = Some t \<longleftrightarrow> t \<in> set (tickets s) \<and> t_id t = i"
  unfolding ticket_findById_def
  by (rule row_by_unique) (rule tickets_ok(1) [OF db_ok_tickets [OF assms]])

definition cancel_row :: "instant \<Rightarrow> ticket_row \<Rightarrow> ticket_row" where
  "cancel_row ts t = t\<lparr>t_status := TicketCancelled, t_updatedAt := ts\<rparr>"

lemma cancel_row_simps [simp]:
  "t_id (cancel_row ts t) = t_id t" "t_orderId (cancel_row ts t) = t_orderId t"
  "t_ticketTypeId (cancel_row ts t) = t_ticketTypeId t" "t_status (cancel_row ts t) = TicketCancelled"
  "t_code (cancel_row ts t) = t_code t" "t_checkedInAt (cancel_row ts t) = t_checkedInAt t"
  by (simp_all add: cancel_row_def)

text \<open>A conditional update of one ticket by id.\<close>

lemma ticket_update_one:
  assumes "db_ok s" "ticket_findById i s = Some t" "c t"
  shows "update_rows (\<lambda>t. t_id t = i \<and> c t) f (tickets s) = update_rows (\<lambda>t. t_id t = i) f (tickets s)"
    and "returned (\<lambda>t. t_id t = i \<and> c t) f (tickets s) = [f t]"
proof -
  note d = tickets_ok(1) [OF db_ok_tickets [OF assms(1)]]
  have "t' = t" if "t' \<in> set (tickets s)" "t_id t' = i" for t'
    using that assms(2) row_by_unique [OF d, of i t'] by (simp add: ticket_findById_def)
  then show "update_rows (\<lambda>t. t_id t = i \<and> c t) f (tickets s) = update_rows (\<lambda>t. t_id t = i) f (tickets s)"
    using assms(3) by (auto simp: update_rows_def)
  show "returned (\<lambda>t. t_id t = i \<and> c t) f (tickets s) = [f t]"
    using assms(2,3) by (simp add: returned_key [OF d] ticket_findById_def)
qed

lemma set_ticket_mem:
  assumes "db_ok s" "ticket_findById i s = Some t" "t' \<in> set (update_rows (\<lambda>t. t_id t = i) f (tickets s))"
  shows "t' = f t \<or> (t' \<in> set (tickets s) \<and> t_id t' \<noteq> i)"
proof -
  from assms(3) obtain q where q: "q \<in> set (tickets s)"
    "(t_id q = i \<and> t' = f q) \<or> (t_id q \<noteq> i \<and> t' = q)"
    by (auto simp: set_update_rows)
  show ?thesis
  proof (cases "t_id q = i")
    case True
    then have "ticket_findById i s = Some q" using q(1) by (simp add: ticket_findById_set [OF assms(1)])
    with assms(2) q True show ?thesis by simp
  qed (use q in auto)
qed

lemma total_set_ticket:
  assumes "db_ok s" "ticket_findById i s = Some t"
  shows "total_of w (update_rows (\<lambda>t. t_id t = i) f (tickets s)) =
    total_of w (tickets s) + (w (f t) - w t)"
  using assms tickets_ok(1) [OF db_ok_tickets [OF assms(1)]]
  by (intro total_update_key [where key = t_id]) (auto simp: ticket_findById_set)

lemma cancelTicket_keeps: "keeps db_ok (cancelTicket ts tk i a rs)"
  unfolding cancelTicket_def by (intro keeps_intros)

definition live_count :: "db \<Rightarrow> uuid \<Rightarrow> nat" where
  "live_count s i = length (filter (\<lambda>t. t_orderId t = i \<and> t_status t = TicketIssued) (tickets s))"

lemma live_count_zero: "live_count s i = 0 \<longleftrightarrow> \<not> live_ticket_of s i"
  by (auto simp: live_count_def live_ticket_of_def filter_empty_conv)

lemma cancelTicket_effect:
  assumes "db_ok s" "cancelTicket ts tk i actor reason s = Inr (res, s')"
  shows "\<exists>r t n1 n2. order_findById i s = Some r \<and> o_status r = Issued \<and>
    ticket_findById tk s = Some t \<and> t_orderId t = i \<and> t_status t = TicketIssued \<and>
    t_checkedInAt t = None \<and>
    tickets s' = update_rows (\<lambda>t. t_id t = tk) (cancel_row ts) (tickets s) \<and>
    cx_orderCancelled res = (live_count s' i = 0) \<and>
    orders s' = (if live_count s' i = 0
      then update_rows (\<lambda>q. o_id q = i) (transition_row ts Cancelled NO_PATCH) (orders s) else orders s) \<and>
    orderEvents s' = orderEvents s @ audit ts i actor (lit ''ticket.cancelled'') None None n1 #
      (if live_count s' i = 0
       then [audit ts i actor (lit ''order.cancelled'') (Some Issued) (Some Cancelled) n2] else []) \<and>
    held_seats s' = held_seats s \<and>
    sold_seats s' = (sold_seats s)(t_ticketTypeId t := sold_seats s (t_ticketTypeId t) - 1)"
proof -
  from assms(2) obtain r t x s1 s2 n1 where
    r: "order_findById i s = Some r" "o_status r = Issued"
    and t: "ticket_findById tk s = Some t" "t_orderId t = i" "t_status t \<noteq> TicketCancelled"
      "t_checkedInAt t = None"
    and c: "ticket_cancel ts tk s = Inr (Some x, s1)"
    and rel: "releaseSold (t_ticketTypeId t) 1 s1 = Inr ((), s2)"
    and v: "order_events_violation s2 (orderEvents s2 @
      [audit ts i actor (lit ''ticket.cancelled'') None None n1]) = None"
    and rest: "(if 0 < live_count s2 i then return_tx \<lparr>cx_ticket = x, cx_order = r, cx_orderCancelled = False\<rparr>
      else andThen (lift_tx (assertOrderTransition (o_status r) Cancelled)) (\<lambda>_.
         andThen (transition ts i [Issued] Cancelled NO_PATCH) (\<lambda>r2.
         andThen (non_null r2 (OrderStatusConflictError i (o_status r))) (\<lambda>done.
         andThen (order_insertEvent
           (audit ts i actor (lit ''order.cancelled'') (Some Issued) (Some Cancelled)
             (lit ''all '' @ decimal (nat (o_quantity r)) @ lit '' tickets cancelled''))) (\<lambda>_.
         return_tx \<lparr>cx_ticket = x, cx_order = done, cx_orderCancelled = True\<rparr>)))))
      (s2\<lparr>orderEvents := orderEvents s2 @ [audit ts i actor (lit ''ticket.cancelled'') None None n1]\<rparr>) = Inr (res, s')"
    by (auto simp: cancelTicket_def tx_simps live_count_def split: option.splits)
  let ?s3 = "s2\<lparr>orderEvents := orderEvents s2 @ [audit ts i actor (lit ''ticket.cancelled'') None None n1]\<rparr>"
  have live: "t_status t = TicketIssued" using t(3) by (cases "t_status t") auto
  have s1: "s1 = s\<lparr>tickets := update_rows (\<lambda>t. t_id t = tk) (cancel_row ts) (tickets s)\<rparr>"
    using c ticket_update_one(1) [OF assms(1) t(1),
        where c = "\<lambda>t. t_status t = TicketIssued \<and> t_checkedInAt t = None" and f = "cancel_row ts"] live t(4)
    by (simp add: ticket_cancel_def cancel_row_def [abs_def] tx_simps)
  have ok1: "db_ok s1" by (rule statement_ok(9) [OF c assms(1)])
  have ok2: "db_ok s2" by (rule statement_ok(4) [OF rel ok1])
  have ok3: "db_ok ?s3" by (rule put_order_events_ok [OF ok2 v])
  note frame = inventory_frame_fields [OF inventory_frame(4) [OF rel]]
  note eff = seats.unsell_eff [OF ok1 rel]
  show ?thesis
  proof (cases "0 < live_count s2 i")
    case True
    with rest have s': "s' = ?s3" "cx_orderCancelled res = False" by (auto simp: tx_simps)
    with True have "live_count s' i \<noteq> 0" by (simp add: live_count_def)
    then show ?thesis
      by (intro exI [of _ r] exI [of _ t] exI [of _ n1])
        (use r t live s' eff in \<open>simp add: frame s1\<close>)
  next
    case False
    with rest obtain y s4 n2 where
      tr: "transition ts i [Issued] Cancelled NO_PATCH ?s3 = Inr (Some y, s4)"
      and s': "s' = s4\<lparr>orderEvents := orderEvents s4 @
        [audit ts i actor (lit ''order.cancelled'') (Some Issued) (Some Cancelled) n2]\<rparr>"
      and res: "cx_orderCancelled res = True"
      by (auto simp: tx_simps)
    from transition_hit [OF ok3 tr] have s4: "s4 = set_order i (transition_row ts Cancelled NO_PATCH) ?s3"
      by auto
    from False have "live_count s' i = 0" by (simp add: live_count_def s' s4)
    then show ?thesis
      by (intro exI [of _ r] exI [of _ t] exI [of _ n1] exI [of _ n2])
        (use r t live res eff in \<open>simp add: s' s4 frame s1\<close>)
  qed
qed

lemma cancelTicket_books:
  assumes "books_ok s" "cancelTicket ts tk i actor reason s = Inr (res, s')"
  shows "books_ok s'"
proof -
  note k = books_okD [OF assms(1)]
  let ?over = "live_count s' i = 0"
  from cancelTicket_effect [OF k(1) assms(2)] obtain r t n1 n2 where
    r: "order_findById i s = Some r" "o_status r = Issued"
    and t: "ticket_findById tk s = Some t" "t_orderId t = i" "t_status t = TicketIssued"
    and tix: "tickets s' = update_rows (\<lambda>t. t_id t = tk) (cancel_row ts) (tickets s)"
    and ords: "orders s' = (if ?over
      then update_rows (\<lambda>q. o_id q = i) (transition_row ts Cancelled NO_PATCH) (orders s) else orders s)"
    and evs: "orderEvents s' = orderEvents s @ audit ts i actor (lit ''ticket.cancelled'') None None n1 #
      (if ?over
       then [audit ts i actor (lit ''order.cancelled'') (Some Issued) (Some Cancelled) n2] else [])"
    and cnt: "held_seats s' = held_seats s"
      "sold_seats s' = (sold_seats s)(t_ticketTypeId t := sold_seats s (t_ticketTypeId t) - 1)"
    by blast
  have ok': "db_ok s'" by (rule keepsD [OF cancelTicket_keeps assms(2) k(1)])
  have mem: "r \<in> set (orders s)" "o_id r = i" using r(1) by (simp_all add: order_findById_set [OF k(1)])
  have tmem: "t \<in> set (tickets s)" "t_id t = tk" using t(1) by (simp_all add: ticket_findById_set [OF k(1)])
  let ?f = "if ?over then transition_row ts Cancelled NO_PATCH else (\<lambda>q. q)"
  have ords2: "orders s' = update_rows (\<lambda>q. o_id q = i) ?f (orders s)"
    by (simp add: ords update_rows_def)
  have "trail_ok s'"
    by (rule trail_update [OF k(1,4) r(1) ords2 _ evs])
      (simp_all add: mem r legal_move_def isOrderTransitionAllowed_def)
  moreover have "seats_balanced s'"
    using k(2) t unfolding seats_balanced_def
    by (auto simp: cnt ords2 tix total_set_order [OF k(1) r(1)] total_set_ticket [OF k(1) t(1)]
        pending_weight_def live_weight_def r)
  moreover have "tickets_match s'"
    unfolding tickets_match_def
  proof
    fix r' assume "r' \<in> set (orders s')"
    then have r': "r' = ?f r \<or> (r' \<in> set (orders s) \<and> o_id r' \<noteq> i)"
      using set_order_mem [OF k(1) r(1)] ords2 by simp
    have tick: "\<exists>u \<in> set (tickets s). t_orderId u = t_orderId t' \<and> t_ticketTypeId u = t_ticketTypeId t'"
      if "t' \<in> set (tickets s')" for t'
      using that tmem unfolding tix by (auto simp: set_update_rows)
    have other: "live_ticket_of s' j = live_ticket_of s j" if "j \<noteq> i" for j
    proof -
      have "t' = t" if "t' \<in> set (tickets s)" "t_id t' = tk" for t'
        using that t(1) ticket_findById_set [OF k(1), of tk t'] by simp
      then show ?thesis
        using that t(2) unfolding live_ticket_of_def tix Bex_def set_update_rows by fastforce
    qed
    have "?over \<longleftrightarrow> \<not> live_ticket_of s' i" by (rule live_count_zero)
    with r' show "o_status r' \<noteq> Paid \<and>
      (o_status r' = Issued \<longleftrightarrow> live_ticket_of s' (o_id r')) \<and>
      (\<forall>t \<in> set (tickets s'). t_orderId t = o_id r' \<longrightarrow>
        o_status r' \<in> {Issued, Cancelled} \<and> t_ticketTypeId t = o_ticketTypeId r')"
      using k(3) mem r(2) other tick by (auto simp: tickets_match_def) (metis+)
  qed
  ultimately show ?thesis using ok' by (simp add: books_ok_def)
qed

end
