(* ===== verification/OrderBooks.thy ===== *)
theory OrderBooks
  imports Ledger
begin

text \<open>
  The books over whole service calls: the retry loops of createOrder, approveOrder and
  issueComplimentaryTickets, the pricing of a new order, the batches of the expiry job, and
  the two operations that leave every order as it is (rename, re-send).
\<close>

section \<open>Pricing\<close>

lemma foldl_max_nonneg:
  "0 \<le> n \<Longrightarrow> 0 \<le> foldl (\<lambda>n t. n + max 0 (g t)) n ts" for n :: int
  by (induction ts arbitrary: n) auto

text \<open>What a plan is made of: rows of the snapshot and totals computed from them.\<close>

lemma plan_order_Inr:
  assumes "plan_order snap at inp = Inr pl"
  shows "pl_event pl \<in> set (events snap)" "e_slug (pl_event pl) = in_eventSlug inp"
    "e_status (pl_event pl) = Published"
    "pl_ticketType pl \<in> set (ticketTypes snap)" "tt_id (pl_ticketType pl) = in_ticketTypeId inp"
    "tt_eventId (pl_ticketType pl) = e_id (pl_event pl)"
    "int (length (in_attendeeNames inp)) = in_quantity inp"
    "eventPhase (e_startsAt (pl_event pl)) (e_registrationOpensAt (pl_event pl))
       (e_registrationClosesAt (pl_event pl))
       (availableTotal (listByEvent (e_id (pl_event pl)) snap)) at
     \<in> {OpenPhase, ClosingSoon, SoldOutPhase}"
    "ticketTypeSaleState (sale_input (pl_ticketType pl)) at \<in> {None, Some SoldOut}"
    "\<exists>d. computeOrderTotals (tt_pricePaisa (pl_ticketType pl)) (in_quantity inp) d = Inr (pl_totals pl) \<and>
      (case pl_promo pl of
         None \<Rightarrow> d = 0 \<and> (in_promoCode inp = None \<or> in_promoCode inp = Some [])
       | Some r \<Rightarrow> promoDiscountPaisa r (tt_pricePaisa (pl_ticketType pl)) (in_quantity inp) = Inr d \<and>
           (\<exists>raw. in_promoCode inp = Some raw \<and>
             promo_findByCode (normalisePromoCode raw) snap = Some r \<and>
             judgePromo (Some r) (priced (listByEvent (e_id (pl_event pl)) snap)) (in_ticketTypeId inp) = Inr None))"
proof -
  let ?all = "listByEvent (e_id (pl_event pl)) snap"
  from assms obtain event tt u promo d totals where
    1: "(case event_findBySlug (in_eventSlug inp) snap of
        Some e \<Rightarrow> if e_status e = Published then Inr e else Inl (EventSlugNotFoundError (in_eventSlug inp))
      | None \<Rightarrow> Inl (EventSlugNotFoundError (in_eventSlug inp))) = Inr event"
    and 2: "(case row_by tt_id (in_ticketTypeId inp) (listByEvent (e_id event) snap) of
        None \<Rightarrow> Inl (TicketTypeNotFoundError (in_ticketTypeId inp)) | Some t \<Rightarrow> Inr t) = Inr tt"
    and 3: "eventPhase (e_startsAt event) (e_registrationOpensAt event) (e_registrationClosesAt event)
       (availableTotal (listByEvent (e_id event) snap)) at \<in> {OpenPhase, ClosingSoon, SoldOutPhase}"
    and 4: "(case ticketTypeSaleState (sale_input tt) at of None \<Rightarrow> Inr ()
        | Some st \<Rightarrow> if st \<noteq> SoldOut then Inl (TicketTypeNotOnSaleError (tt_id tt) st) else Inr ()) = Inr u"
    and 5: "int (length (in_attendeeNames inp)) = in_quantity inp"
    and 6: "(case in_promoCode inp of None \<Rightarrow> Inr None | Some raw \<Rightarrow> if raw = [] then Inr None
        else bindE (resolvePromo snap raw (listByEvent (e_id event) snap) (tt_id tt)) (\<lambda>r. Inr (Some r))) = Inr promo"
    and 7: "(case promo of None \<Rightarrow> Inr 0
        | Some r \<Rightarrow> promoDiscountPaisa r (tt_pricePaisa tt) (in_quantity inp)) = Inr d"
    and 8: "computeOrderTotals (tt_pricePaisa tt) (in_quantity inp) d = Inr totals"
    and pl: "pl = \<lparr>pl_event = event, pl_ticketType = tt, pl_promo = promo, pl_totals = totals\<rparr>"
    by (auto simp: plan_order_def Let_def bindE_Inr split: if_splits)
  have ev: "event_findBySlug (in_eventSlug inp) snap = Some (pl_event pl)" "e_status (pl_event pl) = Published"
    using 1 by (auto simp: pl split: option.splits if_splits)
  have tt: "row_by tt_id (in_ticketTypeId inp) ?all = Some (pl_ticketType pl)"
    using 2 by (auto simp: pl split: option.splits)
  have ph: "eventPhase (e_startsAt (pl_event pl)) (e_registrationOpensAt (pl_event pl))
       (e_registrationClosesAt (pl_event pl)) (availableTotal ?all) at
       \<in> {OpenPhase, ClosingSoon, SoldOutPhase}" using 3 by (simp add: pl)
  have st: "ticketTypeSaleState (sale_input (pl_ticketType pl)) at \<in> {None, Some SoldOut}"
    using 4 by (auto simp: pl split: option.splits if_splits)
  note nm = 5
  have pr: "(case in_promoCode inp of None \<Rightarrow> Inr None | Some raw \<Rightarrow> if raw = [] then Inr None
      else bindE (resolvePromo snap raw ?all (tt_id (pl_ticketType pl))) (\<lambda>r. Inr (Some r))) = Inr (pl_promo pl)"
    using 6 unfolding pl order_plan.select_convs .
  have d: "(case pl_promo pl of None \<Rightarrow> Inr 0
      | Some r \<Rightarrow> promoDiscountPaisa r (tt_pricePaisa (pl_ticketType pl)) (in_quantity inp)) = Inr d"
    using 7 unfolding pl order_plan.select_convs .
  have tot: "computeOrderTotals (tt_pricePaisa (pl_ticketType pl)) (in_quantity inp) d = Inr (pl_totals pl)"
    using 8 by (simp add: pl)
  show "pl_event pl \<in> set (events snap)" "e_slug (pl_event pl) = in_eventSlug inp"
    using row_by_Some [OF ev(1) [unfolded event_findBySlug_def]] by simp_all
  show "e_status (pl_event pl) = Published" by (rule ev(2))
  from row_by_Some [OF tt] show "pl_ticketType pl \<in> set (ticketTypes snap)"
    "tt_id (pl_ticketType pl) = in_ticketTypeId inp" "tt_eventId (pl_ticketType pl) = e_id (pl_event pl)"
    by (auto simp: listByEvent_def)
  note id = this(2)
  show "int (length (in_attendeeNames inp)) = in_quantity inp" by (rule nm)
  show "eventPhase (e_startsAt (pl_event pl)) (e_registrationOpensAt (pl_event pl))
       (e_registrationClosesAt (pl_event pl)) (availableTotal ?all) at
     \<in> {OpenPhase, ClosingSoon, SoldOutPhase}" by (rule ph)
  show "ticketTypeSaleState (sale_input (pl_ticketType pl)) at \<in> {None, Some SoldOut}" by (rule st)
  show "\<exists>d. computeOrderTotals (tt_pricePaisa (pl_ticketType pl)) (in_quantity inp) d = Inr (pl_totals pl) \<and>
      (case pl_promo pl of
         None \<Rightarrow> d = 0 \<and> (in_promoCode inp = None \<or> in_promoCode inp = Some [])
       | Some r \<Rightarrow> promoDiscountPaisa r (tt_pricePaisa (pl_ticketType pl)) (in_quantity inp) = Inr d \<and>
           (\<exists>raw. in_promoCode inp = Some raw \<and>
             promo_findByCode (normalisePromoCode raw) snap = Some r \<and>
             judgePromo (Some r) (priced ?all) (in_ticketTypeId inp) = Inr None))"
    using tot d pr id
    by (intro exI [of _ d])
      (auto simp: resolvePromo_def Let_def bindE_Inr split: option.splits if_splits)
qed

lemma plan_order_quantity:
  "plan_order snap at inp = Inr pl \<Longrightarrow> totQuantity (pl_totals pl) = in_quantity inp"
  using plan_order_Inr(10) [of snap at inp pl] by (auto simp: computeOrderTotals_Inr)

section \<open>Whole service calls\<close>

lemma createOrder_Inr:
  assumes "createOrder snap ts at ids refs inp s = Inr (row, s')"
  shows "\<exists>pl k. plan_order snap at inp = Inr pl \<and>
    createOrder_tx ts at inp pl (ids k) (refs k) s = Inr (row, s')"
  using assms by (auto simp: createOrder_def tx_simps dest!: retry_Inr)

lemma createOrder_books:
  assumes "books_ok s" "createOrder snap ts at ids refs inp s = Inr (row, s')"
  shows "books_ok s'"
  using createOrder_Inr [OF assms(2)] createOrder_tx_books [OF assms(1)] plan_order_quantity by blast

lemma approveOrder_Inr:
  assumes "approveOrder ts draw i actor v s = Inr (res, s')"
  shows "\<exists>k. approve_tx ts (draw k) i actor v s = Inr (res, s')"
  using assms by (auto simp: approveOrder_def dest!: retry_Inr)

lemma approveOrder_books:
  assumes "books_ok s" "approveOrder ts draw i actor v s = Inr (res, s')"
  shows "books_ok s'"
  using approveOrder_Inr [OF assms(2)] approve_tx_books [OF assms(1)] by blast

lemma issueComplimentary_Inr:
  assumes "issueComplimentaryTickets snap ts draw inp s = Inr (res, s')"
  shows "\<exists>tt totals k. ticketType_findById (co_ticketTypeId inp) snap = Some tt \<and>
    tt_eventId tt = co_eventId inp \<and> valid_paisa (tt_pricePaisa tt * co_quantity inp) \<and>
    totals = \<lparr>unitPricePaisa = tt_pricePaisa tt, totQuantity = co_quantity inp,
      subtotalPaisa = tt_pricePaisa tt * co_quantity inp,
      discountPaisa = tt_pricePaisa tt * co_quantity inp, totalPaisa = 0\<rparr> \<and>
    comp_tx ts inp tt totals (draw k) s = Inr (res, s')"
proof -
  from assms obtain tt d totals where
    tt: "ticketType_findById (co_ticketTypeId inp) snap = Some tt" "tt_eventId tt = co_eventId inp"
    and d: "multiplyPaisa (tt_pricePaisa tt) (co_quantity inp) = Inr d"
    and tot: "computeOrderTotals (tt_pricePaisa tt) (co_quantity inp) d = Inr totals"
    and r: "retry (\<lambda>e. code_collision e \<or> reference_collision e) CODE_ATTEMPTS
      (\<lambda>attempt. comp_tx ts inp tt totals (draw attempt)) 1 s = Inr (res, s')"
    by (auto simp: issueComplimentaryTickets_def tx_simps split: option.splits if_splits)
  from retry_Inr [OF r] obtain k where "comp_tx ts inp tt totals (draw k) s = Inr (res, s')" by blast
  with tt d tot show ?thesis
    by (intro exI [of _ tt] exI [of _ totals] exI [of _ k])
      (auto simp: multiplyPaisa_Inr computeOrderTotals_Inr)
qed

lemma issueComplimentary_books:
  assumes "books_ok s" "issueComplimentaryTickets snap ts draw inp s = Inr (res, s')"
  shows "books_ok s'"
  using issueComplimentary_Inr [OF assms(2)] comp_tx_books [OF assms(1)] by fastforce

section \<open>Rename and re-send\<close>

lemma renameAttendee_keeps: "keeps db_ok (renameAttendee snap ts now c n)"
  unfolding renameAttendee_def case_prod_unfold by (intro keeps_intros)

definition rename_row :: "instant \<Rightarrow> jstr \<Rightarrow> ticket_row \<Rightarrow> ticket_row" where
  "rename_row ts name t = t\<lparr>t_attendeeName := name, t_updatedAt := ts\<rparr>"

text \<open>Rewriting tickets without touching what the books read.\<close>

lemma tickets_rewrite_books:
  assumes ok: "books_ok s" "db_ok s'"
    and f: "\<And>t. t_orderId (f t) = t_orderId t \<and> t_ticketTypeId (f t) = t_ticketTypeId t \<and>
      t_status (f t) = t_status t"
    and tabs: "orders s' = orders s" "tickets s' = update_rows p f (tickets s)"
      "ticketTypes s' = ticketTypes s"
    and trail: "trail_ok s'"
  shows "books_ok s'"
proof -
  note k = books_okD [OF ok(1)]
  have same: "t' \<in> set (tickets s') \<Longrightarrow> \<exists>t \<in> set (tickets s). t_orderId t = t_orderId t' \<and>
    t_ticketTypeId t = t_ticketTypeId t' \<and> t_status t = t_status t'" for t'
    using f by (auto simp: tabs set_update_rows)
  have conv: "t \<in> set (tickets s) \<Longrightarrow> \<exists>t' \<in> set (tickets s'). t_orderId t = t_orderId t' \<and>
    t_ticketTypeId t = t_ticketTypeId t' \<and> t_status t = t_status t'" for t
    by (intro bexI [of _ "if p t then f t else t"]) (auto simp: f tabs update_rows_def)
  have "live_ticket_of s' i = live_ticket_of s i" for i
    unfolding live_ticket_of_def using same conv by metis
  then have "tickets_match s'"
    using k(3) same unfolding tickets_match_def by (simp add: tabs(1)) metis
  moreover have "seats_balanced s'"
  proof -
    have "total_of (live_weight tt) (tickets s') = total_of (live_weight tt) (tickets s)" for tt
      unfolding tabs(2) by (rule total_update_rows_id) (simp add: live_weight_def f)
    moreover have "seat_of g s' = seat_of g s" for g by (simp add: seat_of_def fun_eq_iff tabs)
    ultimately show ?thesis using k(2) by (simp add: seats_balanced_def tabs(1))
  qed
  ultimately show ?thesis using ok(2) trail by (simp add: books_ok_def)
qed

lemma renameAttendee_effect:
  assumes "renameAttendee snap ts now c n s = Inr (u, s')"
  shows "\<exists>t code name nt. rename_checks snap now c n = Inr (t, code, name) \<and>
    orders s' = orders s \<and> ticketTypes s' = ticketTypes s \<and>
    tickets s' = update_rows (\<lambda>q. t_id q = t_id t \<and> t_status q = TicketIssued \<and>
      t_attendeeName q = t_attendeeName t) (rename_row ts name) (tickets s) \<and>
    orderEvents s' = orderEvents s @ [audit ts (t_orderId t) (lit ''buyer'') (lit ''ticket.renamed'') None None nt]"
  using assms
  by (auto simp: renameAttendee_def updateAttendeeName_def rename_row_def [abs_def] tx_simps
      case_prod_unfold)

lemma renameAttendee_books:
  assumes "books_ok s" "renameAttendee snap ts now c n s = Inr (u, s')"
  shows "books_ok s'"
proof -
  note k = books_okD [OF assms(1)]
  from renameAttendee_effect [OF assms(2)] obtain t :: ticket_row and name nt where
    tabs: "orders s' = orders s" "tickets s' = update_rows (\<lambda>q. t_id q = t_id t \<and>
      t_status q = TicketIssued \<and> t_attendeeName q = t_attendeeName t) (rename_row ts name) (tickets s)"
      "ticketTypes s' = ticketTypes s"
    and evs: "orderEvents s' = orderEvents s @
      [audit ts (t_orderId t) (lit ''buyer'') (lit ''ticket.renamed'') None None nt]"
    by blast
  have "trail_ok s'" by (rule trail_note [OF k(4) tabs(1) evs]) simp
  then show ?thesis
    by (intro tickets_rewrite_books [OF assms(1) keepsD [OF renameAttendee_keeps assms(2) k(1)] _ tabs])
      (simp_all add: rename_row_def)
qed

lemma resend_keeps: "keeps db_ok (resendTicketsEmail snap ts i a)"
  unfolding resendTicketsEmail_def by (intro keeps_intros)

lemma resend_books:
  assumes "books_ok s" "resendTicketsEmail snap ts i a s = Inr (u, s')"
  shows "books_ok s'"
proof -
  note k = books_okD [OF assms(1)]
  from assms(2) obtain nt where s': "s' = s\<lparr>orderEvents := orderEvents s @
    [audit ts i a (lit ''email.resend_requested'') None None nt]\<rparr>"
    by (auto simp: resendTicketsEmail_def tx_simps)
  have evs: "orderEvents s' = orderEvents s @ [audit ts i a (lit ''email.resend_requested'') None None nt]"
    and tabs: "orders s' = orders s" "tickets s' = tickets s" "\<And>g. seat_of g s' = seat_of g s"
    by (simp_all add: s')
  have "trail_ok s'" by (rule trail_note [OF k(4) tabs(1) evs]) simp
  moreover have "db_ok s'" by (rule keepsD [OF resend_keeps assms(2) k(1)])
  ultimately show ?thesis
    using k(2,3)
    unfolding books_ok_def seats_balanced_def tickets_match_def live_ticket_of_def tabs by blast
qed

end
