(* ===== verification/Expiry.thy ===== *)
theory Expiry
  imports OrderBooks
begin

text \<open>
  The expiry job (\<open>expireLapsedHolds\<close> of \<open>src/src/server/services/orders.service.ts\<close>). On
  books that agree, releasing a lapsed hold cannot fail, so every run expires exactly the
  lapsed orders it fetches, and ten batches of 200 leave none behind up to 2000.
\<close>

section \<open>Statements that cannot fail\<close>

lemma check_rows_update:
  assumes "check_rows cs rs = None" "\<And>r c. r \<in> set rs \<Longrightarrow> p r \<Longrightarrow> c \<in> set cs \<Longrightarrow> snd c (f r)"
  shows "check_rows cs (update_rows p f rs) = None"
  unfolding check_rows_None list_all_iff set_update_rows
proof (intro ballI)
  fix c r' assume c: "c \<in> set cs" and r': "r' \<in> set (update_rows p f rs)"
  from r' obtain r where r: "r \<in> set rs" "(p r \<and> r' = f r) \<or> (\<not> p r \<and> r' = r)"
    by (auto simp: set_update_rows)
  moreover have "snd c r" using assms(1) c r(1) by (simp add: check_rows_None list_all_iff)
  ultimately show "snd c r'" using assms(2) c by blast
qed

lemma unique_rows_update:
  assumes "unique_rows n key rs = None" "\<And>r. r \<in> set rs \<Longrightarrow> p r \<Longrightarrow> key (f r) = key r"
  shows "unique_rows n key (update_rows p f rs) = None"
proof -
  have "map key (update_rows p f rs) = map key rs" using assms(2) by (rule map_update_rows)
  moreover have "List.map_filter key rs = map the (filter (\<lambda>k. k \<noteq> None) (map key rs))" for rs
    by (induction rs) (auto simp: List.map_filter_def)
  ultimately show ?thesis using assms(1) by (simp add: unique_rows_None)
qed

lemma references_rows_update:
  assumes "references_rows n key ks rs = None" "\<And>r. r \<in> set rs \<Longrightarrow> p r \<Longrightarrow> key (f r) = key r"
  shows "references_rows n key ks (update_rows p f rs) = None"
  using assms by (auto simp: references_rows_None set_update_rows)

lemmas rows_update = check_rows_update unique_rows_update references_rows_update

lemma transition_succeeds:
  assumes "db_ok s" "order_findById i s = Some r" "o_status r \<in> set frm"
    and "\<And>c. c \<in> set order_checks \<Longrightarrow> snd c (transition_row ts to NO_PATCH r)"
  shows "transition ts i frm to NO_PATCH s =
    Inr (Some (transition_row ts to NO_PATCH r), set_order i (transition_row ts to NO_PATCH) s)"
proof -
  let ?f = "transition_row ts to NO_PATCH"
  let ?p = "\<lambda>r. o_id r = i \<and> o_status r \<in> set frm"
  note d = orders_ok(1) [OF db_ok_orders [OF assms(1)]]
  have only: "r' = r" if "r' \<in> set (orders s)" "?p r'" for r'
    using that assms(2) order_findById_set [OF assms(1), of i r'] by simp
  have "orders_violation s (update_rows ?p ?f (orders s)) = None"
    using db_ok_orders [OF assms(1)] only assms(4)
    unfolding orders_violation_def first_violation_None
    by (auto intro!: rows_update simp: transition_row_def apply_patch_def NO_PATCH_def)
  then obtain y where "transition ts i frm to NO_PATCH s = Inr y"
    by (auto simp: transition_def transition_row_def [abs_def] tx_simps)
  then obtain x s' where t: "transition ts i frm to NO_PATCH s = Inr (x, s')" by (cases y) auto
  from transition_Inr [OF assms(1) t] assms(2,3) show ?thesis by (simp add: t)
qed

lemma release_succeeds:
  assumes "db_ok s" "1 \<le> q" "q \<le> 10" "q \<le> held_seats s t"
  shows "\<exists>s'. release t q s = Inr ((), s')"
proof -
  let ?p = "\<lambda>r. tt_id r = t \<and> q \<le> tt_quantityReserved r"
  let ?f = "\<lambda>r. r\<lparr>tt_quantityReserved := tt_quantityReserved r - q\<rparr>"
  note v = db_ok_ticket_types [OF assms(1)]
  from assms(2,4) obtain r where r: "row_by tt_id t (ticketTypes s) = Some r" "q \<le> tt_quantityReserved r"
    by (auto simp: seat_of_def split: option.splits)
  have "ticket_types_violation s (update_rows ?p ?f (ticketTypes s)) = None"
    using v assms(2) ticket_types_ok(2,3) [OF v]
    unfolding ticket_types_violation_def first_violation_None
    by (auto intro!: rows_update simp: ticket_type_checks_def) fastforce+
  moreover have "returned ?p ?f (ticketTypes s) = [?f r]"
    using r by (simp add: returned_key [OF ticket_types_ok(1) [OF v]])
  ultimately show ?thesis
    using assms(2,3)
    by (auto simp: inventory_defs tx_simps isValidOrderQuantity_def MIN_TICKETS_PER_ORDER_def
        MAX_TICKETS_PER_ORDER_def)
qed

lemma order_insertEvent_succeeds:
  assumes "db_ok s" "oe_orderId e \<in> o_id ` set (orders s)"
  shows "order_insertEvent e s = Inr (e, s\<lparr>orderEvents := orderEvents s @ [e]\<rparr>)"
  using assms by (auto simp: db_ok_def order_events_violation_def tx_simps references_rows_None)

section \<open>One lapsed hold\<close>

definition hold_of :: "order_row \<Rightarrow> lapsed_hold" where
  "hold_of r = \<lparr>lh_id = o_id r, lh_ticketTypeId = o_ticketTypeId r, lh_quantity = o_quantity r\<rparr>"

lemma hold_of_simps [simp]:
  "lh_id (hold_of r) = o_id r" "lh_ticketTypeId (hold_of r) = o_ticketTypeId r"
  "lh_quantity (hold_of r) = o_quantity r"
  by (simp_all add: hold_of_def)

lemma lapsed_row_holdLapsed:
  "lapsed_row (lapsedBefore at) r \<longleftrightarrow> holdLapsed (o_status r) (o_holdExpiresAt r) at"
  by (auto simp: lapsed_row_def holdLapsed_def holdCutoff_lapsedBefore split: option.splits)

lemma lapsed_row_eq:
  "lapsed_row (lapsedBefore at) = (\<lambda>r. holdLapsed (o_status r) (o_holdExpiresAt r) at)"
  by (rule ext) (rule lapsed_row_holdLapsed)

lemma held_covers:
  assumes "books_ok s" "r \<in> set (orders s)" "holdsInventory (o_status r)"
  shows "o_quantity r \<le> held_seats s (o_ticketTypeId r)"
proof -
  note k = books_okD [OF assms(1)]
  have "0 \<le> pending_weight (o_ticketTypeId r) r'" if "r' \<in> set (orders s)" for r'
    using orders_ok(4) [OF db_ok_orders [OF k(1)] that] by (simp add: pending_weight_def)
  then have "pending_weight (o_ticketTypeId r) r \<le> total_of (pending_weight (o_ticketTypeId r)) (orders s)"
    using assms(2) by (intro total_ge_row)
  then show ?thesis using k(2) assms(3) by (simp add: seats_balanced_def pending_weight_def)
qed

lemma expire_one_succeeds:
  assumes "books_ok s" "r \<in> set (orders s)" "o_status r = PendingPayment"
  shows "\<exists>s'. expire_one ts (hold_of r) s = Inr (True, s') \<and> books_ok s' \<and>
    orders s' = update_rows (\<lambda>q. o_id q = o_id r) (transition_row ts Expired NO_PATCH) (orders s)"
proof -
  note k = books_okD [OF assms(1)]
  let ?h = "hold_of r"
  let ?s1 = "set_order (o_id r) (transition_row ts Expired NO_PATCH) s"
  have found: "order_findById (o_id r) s = Some r" using assms(2) by (simp add: order_findById_set [OF k(1)])
  have chk: "check_rows order_checks (orders s) = None"
    using db_ok_orders [OF k(1)] by (simp add: orders_violation_def first_violation_None)
  then have "list_all (\<lambda>c. snd c r) order_checks"
    using assms(2) by (auto simp: check_rows_None list_all_iff)
  then have "list_all (\<lambda>c. snd c (transition_row ts Expired NO_PATCH r)) order_checks"
    using assms(3)
    by (auto simp: order_checks_def transition_row_def apply_patch_def NO_PATCH_def)
  then have "snd c (transition_row ts Expired NO_PATCH r)" if "c \<in> set order_checks" for c
    using that by (simp add: list_all_iff)
  then have t: "transition ts (o_id r) [PendingPayment] Expired NO_PATCH s =
    Inr (Some (transition_row ts Expired NO_PATCH r), ?s1)"
    using assms(3) by (intro transition_succeeds [OF k(1) found]) simp_all
  have ok1: "db_ok ?s1" by (rule statement_ok(7) [OF t k(1)])
  have q: "1 \<le> o_quantity r" "o_quantity r \<le> 10"
    using orders_ok(4) [OF db_ok_orders [OF k(1)] assms(2)] by simp_all
  have "o_quantity r \<le> held_seats ?s1 (o_ticketTypeId r)"
    using held_covers [OF assms(1,2)] assms(3) by simp
  from release_succeeds [OF ok1 q this] obtain s2 where
    rel: "release (o_ticketTypeId r) (o_quantity r) ?s1 = Inr ((), s2)" by blast
  note frame = inventory_frame_fields [OF inventory_frame(2) [OF rel]]
  have ok2: "db_ok s2" by (rule statement_ok(2) [OF rel ok1])
  have "o_id r \<in> o_id ` set (orders s2)"
    using assms(2) by (simp add: frame keys_update_rows [where key = o_id])
  then have ev: "order_insertEvent e s2 = Inr (e, s2\<lparr>orderEvents := orderEvents s2 @ [e]\<rparr>)"
    if "oe_orderId e = o_id r" for e
    using that by (intro order_insertEvent_succeeds [OF ok2]) simp
  obtain s' where e: "expire_one ts ?h s = Inr (True, s')" "orders s' = orders s2"
    by (auto simp: expire_one_def andThen_def return_tx_def t rel ev)
  have "hold_matches s ?h" using found by (simp add: hold_matches_def)
  then have "books_ok s'" by (rule expire_one_books [OF assms(1) e(1)])
  with e show ?thesis by (simp add: frame)
qed

section \<open>The batches\<close>

definition lapsed_orders :: "instant \<Rightarrow> db \<Rightarrow> order_row list" where
  "lapsed_orders c s = filter (lapsed_row c) (orders s)"

text \<open>How far a run has come: each order is as it was, or was lapsed and is now expired.\<close>

definition expired_from :: "instant \<Rightarrow> instant \<Rightarrow> db \<Rightarrow> db \<Rightarrow> bool" where
  "expired_from ts c s s' \<longleftrightarrow>
    list_all2 (\<lambda>r r'. r' = r \<or> (lapsed_row c r \<and> r' = transition_row ts Expired NO_PATCH r))
      (orders s) (orders s')"

lemma expired_from_refl: "expired_from ts c s s"
  by (simp add: expired_from_def list_all2_conv_all_nth)

lemma expired_not_lapsed: "\<not> lapsed_row c (transition_row ts Expired NO_PATCH r)"
  by (simp add: lapsed_row_def)

lemma expired_from_step:
  assumes "expired_from ts c s s1" "db_ok s1" "r \<in> set (orders s1)" "lapsed_row c r"
    and "orders s' = update_rows (\<lambda>q. o_id q = o_id r) (transition_row ts Expired NO_PATCH) (orders s1)"
  shows "expired_from ts c s s'"
proof -
  have only: "q = r" if "q \<in> set (orders s1)" "o_id q = o_id r" for q
    using that assms(3) order_findById_set [OF assms(2), of "o_id r"] by (metis option.inject)
  show ?thesis
    unfolding expired_from_def list_all2_conv_all_nth assms(5) length_update_rows
  proof (intro conjI allI impI)
    show len: "length (orders s) = length (orders s1)"
      using assms(1) by (auto simp: expired_from_def dest: list_all2_lengthD)
    fix n assume n: "n < length (orders s)"
    have old: "orders s1 ! n = orders s ! n \<or> (lapsed_row c (orders s ! n) \<and>
      orders s1 ! n = transition_row ts Expired NO_PATCH (orders s ! n))"
      using assms(1) n by (auto simp: expired_from_def list_all2_conv_all_nth)
    have new: "update_rows (\<lambda>q. o_id q = o_id r) (transition_row ts Expired NO_PATCH) (orders s1) ! n =
      (if o_id (orders s1 ! n) = o_id r then transition_row ts Expired NO_PATCH (orders s1 ! n) else orders s1 ! n)"
      using n len by (simp add: update_rows_def)
    show "update_rows (\<lambda>q. o_id q = o_id r) (transition_row ts Expired NO_PATCH) (orders s1) ! n = orders s ! n \<or>
      lapsed_row c (orders s ! n) \<and>
      update_rows (\<lambda>q. o_id q = o_id r) (transition_row ts Expired NO_PATCH) (orders s1) ! n =
        transition_row ts Expired NO_PATCH (orders s ! n)"
    proof (cases "o_id (orders s1 ! n) = o_id r")
      case True
      then have "orders s1 ! n = r" using only n len by simp
      with assms(4) old expired_not_lapsed have "orders s1 ! n = orders s ! n" by metis
      with True new assms(4) \<open>orders s1 ! n = r\<close> show ?thesis by simp
    qed (use old new in simp)
  qed
qed

lemma lapsed_orders_step:
  assumes "db_ok s" "r \<in> set (lapsed_orders c s)"
    and "orders s' = update_rows (\<lambda>q. o_id q = o_id r) (transition_row ts Expired NO_PATCH) (orders s)"
  shows "lapsed_orders c s' = filter (\<lambda>q. o_id q \<noteq> o_id r) (lapsed_orders c s)"
    and "length (lapsed_orders c s') + 1 = length (lapsed_orders c s)"
proof -
  show eq: "lapsed_orders c s' = filter (\<lambda>q. o_id q \<noteq> o_id r) (lapsed_orders c s)"
  proof -
    have "filter (lapsed_row c) (update_rows (\<lambda>q. o_id q = o_id r) (transition_row ts Expired NO_PATCH) rs) =
      filter (\<lambda>q. o_id q \<noteq> o_id r) (filter (lapsed_row c) rs)" for rs
      by (induction rs) (auto simp: expired_not_lapsed)
    then show ?thesis by (simp only: lapsed_orders_def assms(3))
  qed
  have "distinct (map o_id (lapsed_orders c s))"
    unfolding lapsed_orders_def
    using orders_ok(1) [OF db_ok_orders [OF assms(1)]] by (simp add: distinct_map_filter)
  then have "filter (\<lambda>q. o_id q = o_id r) (lapsed_orders c s) = [r]"
    using filter_key [of o_id "lapsed_orders c s" "o_id r" "\<lambda>_. True"] assms(2)
      row_by_unique [of o_id "lapsed_orders c s" "o_id r" r] by simp
  then show "length (lapsed_orders c s') + 1 = length (lapsed_orders c s)"
    using sum_length_filter_compl [of "\<lambda>q. o_id q = o_id r" "lapsed_orders c s"] by (simp add: eq)
qed

lemma expire_each_succeeds:
  assumes "books_ok s" "expired_from ts c s0 s" "set rs \<subseteq> set (lapsed_orders c s)" "distinct (map o_id rs)"
  shows "\<exists>s'. expire_each ts (map hold_of rs) run s = (run\<lparr>xr_expired := xr_expired run + length rs\<rparr>, s') \<and>
    books_ok s' \<and> expired_from ts c s0 s' \<and>
    length (lapsed_orders c s') + length rs = length (lapsed_orders c s)"
  using assms
proof (induction rs arbitrary: run s)
  case (Cons r rs)
  have r: "r \<in> set (lapsed_orders c s)" "r \<in> set (orders s)" "o_status r = PendingPayment" "lapsed_row c r"
    using Cons.prems(3) by (auto simp: lapsed_orders_def lapsed_row_def)
  note k = books_okD [OF Cons.prems(1)]
  from expire_one_succeeds [OF Cons.prems(1) r(2,3)] obtain s1 where
    e: "expire_one ts (hold_of r) s = Inr (True, s1)" "books_ok s1"
      "orders s1 = update_rows (\<lambda>q. o_id q = o_id r) (transition_row ts Expired NO_PATCH) (orders s)" by blast
  note step = lapsed_orders_step [OF k(1) r(1) e(3)]
  have "expired_from ts c s0 s1" by (rule expired_from_step [OF Cons.prems(2) k(1) r(2,4) e(3)])
  moreover have "set rs \<subseteq> set (lapsed_orders c s1)"
    using Cons.prems(3,4) by (auto simp: step(1) image_iff)
  moreover have "distinct (map o_id rs)" using Cons.prems(4) by simp
  ultimately obtain s' where
    "expire_each ts (map hold_of rs) (run\<lparr>xr_expired := xr_expired run + 1\<rparr>) s1 =
      (run\<lparr>xr_expired := xr_expired run + 1 + length rs\<rparr>, s')"
    "books_ok s'" "expired_from ts c s0 s'"
    "length (lapsed_orders c s') + length rs = length (lapsed_orders c s1)"
    using Cons.IH [OF e(2), of "run\<lparr>xr_expired := xr_expired run + 1\<rparr>"] by auto
  then show ?case using step(2) e(1) by (intro exI [of _ s']) simp
qed simp

lemma listLapsedHolds_eq:
  "listLapsedHolds c n s =
    map hold_of (take n (sort_key (\<lambda>r. the (o_holdExpiresAt r)) (lapsed_orders c s)))"
  by (simp add: listLapsedHolds_def hold_of_def [abs_def] lapsed_orders_def)

lemma expire_batches_succeeds:
  assumes "books_ok s" "expired_from ts (lapsedBefore at) s0 s" "xr_skipped run = []"
  shows "\<exists>s'. expire_batches n ts at run s = (run\<lparr>xr_expired := xr_expired run +
      min (n * EXPIRY_BATCH) (length (lapsed_orders (lapsedBefore at) s))\<rparr>, s') \<and>
    books_ok s' \<and> expired_from ts (lapsedBefore at) s0 s' \<and>
    length (lapsed_orders (lapsedBefore at) s') =
      length (lapsed_orders (lapsedBefore at) s) - n * EXPIRY_BATCH"
  using assms
proof (induction n arbitrary: run s)
  case (Suc n)
  let ?c = "lapsedBefore at"
  let ?rs = "take EXPIRY_BATCH (sort_key (\<lambda>r. the (o_holdExpiresAt r)) (lapsed_orders ?c s))"
  note k = books_okD [OF Suc.prems(1)]
  have fetched: "listLapsedHolds ?c EXPIRY_BATCH s = map hold_of ?rs" by (simp add: listLapsedHolds_eq)
  have len: "length ?rs = min EXPIRY_BATCH (length (lapsed_orders ?c s))" by simp
  show ?case
  proof (cases "?rs = []")
    case True
    then have "lapsed_orders ?c s = []" using len by (auto simp: EXPIRY_BATCH_def min_def split: if_splits)
    with Suc.prems True fetched show ?thesis by simp
  next
    case False
    have "set ?rs \<subseteq> set (lapsed_orders ?c s)" using set_take_subset by fastforce
    moreover have "distinct (map o_id ?rs)"
    proof -
      have "distinct (map o_id (lapsed_orders ?c s))"
        unfolding lapsed_orders_def
        using orders_ok(1) [OF db_ok_orders [OF k(1)]] by (simp add: distinct_map_filter)
      then have "distinct (map o_id (sort_key (\<lambda>r. the (o_holdExpiresAt r)) (lapsed_orders ?c s)))"
        by (simp add: distinct_map)
      then show ?thesis by (simp add: take_map [symmetric] distinct_take)
    qed
    ultimately obtain s1 where e: "expire_each ts (map hold_of ?rs) run s =
        (run\<lparr>xr_expired := xr_expired run + length ?rs\<rparr>, s1)" "books_ok s1"
      "expired_from ts ?c s0 s1"
      "length (lapsed_orders ?c s1) + length ?rs = length (lapsed_orders ?c s)"
      using expire_each_succeeds [OF Suc.prems(1,2)] by blast
    have all: "filter (\<lambda>h. lh_id h \<notin> set (xr_skipped run)) (map hold_of ?rs) = map hold_of ?rs"
      by (simp add: Suc.prems(3))
    show ?thesis
    proof (cases "length ?rs < EXPIRY_BATCH")
      case True
      then have "length (lapsed_orders ?c s1) = 0" using e(4) len by simp
      with True False e len Suc.prems(3) fetched all show ?thesis by (simp add: Let_def)
    next
      case 2: False
      then have lb: "length ?rs = EXPIRY_BATCH" using len by simp
      obtain s' where "expire_batches n ts at (run\<lparr>xr_expired := xr_expired run + length ?rs\<rparr>) s1 =
          (run\<lparr>xr_expired := xr_expired run + length ?rs +
            min (n * EXPIRY_BATCH) (length (lapsed_orders ?c s1))\<rparr>, s')" "books_ok s'"
        "expired_from ts ?c s0 s'"
        "length (lapsed_orders ?c s') = length (lapsed_orders ?c s1) - n * EXPIRY_BATCH"
        using Suc.IH [OF e(2,3), of "run\<lparr>xr_expired := xr_expired run + length ?rs\<rparr>"] Suc.prems(3)
        by auto
      then show ?thesis using False lb e(1,4) Suc.prems(3) fetched all
        by (intro exI [of _ s']) (simp add: Let_def min_def)
    qed
  qed
qed simp

end
