(* ===== verification/Samples.thy ===== *)
theory Samples
  imports OrderBooks
begin

text \<open>
  A small store whose books agree, at which the properties with hypotheses are applied: one
  published event with two ticket types, a promo code, four orders (awaiting payment,
  awaiting verification, issued with two tickets, complimentary with one), a gate pass and
  a sponsor. Times are in milliseconds; the event starts thirty days after time 0.
\<close>

definition SAMPLE_EVENT :: event_row where
  "SAMPLE_EVENT =
    \<lparr>e_id = 1, e_slug = lit ''night'', e_title = lit ''Night'', e_description = None,
     e_venue = Some (lit ''Hall''), e_venueHidden = False, e_hideAvailability = False,
     e_venueArea = None, e_startsAt = 2592000000, e_endsAt = None,
     e_registrationOpensAt = Some 0, e_registrationClosesAt = Some 2160000000,
     e_status = Published, e_imageKey = Some (lit ''k''), e_presentingSponsorId = Some 90,
     e_createdAt = 0, e_updatedAt = 0\<rparr>"

definition SAMPLE_TYPE :: "uuid \<Rightarrow> int \<Rightarrow> int \<Rightarrow> int \<Rightarrow> int \<Rightarrow> ticket_type_row" where
  "SAMPLE_TYPE i price cap sold held =
    \<lparr>tt_id = i, tt_eventId = 1, tt_name = lit ''General'', tt_pricePaisa = price,
     tt_quantityTotal = cap, tt_quantitySold = sold, tt_quantityReserved = held,
     tt_salesStartsAt = None, tt_salesEndsAt = None, tt_createdAt = 0, tt_updatedAt = 0\<rparr>"

definition SAMPLE_ORDER ::
  "uuid \<Rightarrow> jstr \<Rightarrow> int \<Rightarrow> order_status \<Rightarrow> jstr option \<Rightarrow> order_row" where
  "SAMPLE_ORDER i ref q st trx =
    \<lparr>o_id = i, o_reference = ref, o_eventId = 1, o_ticketTypeId = 10, o_quantity = q,
     o_unitPricePaisa = 20, o_subtotalPaisa = 20 * q, o_discountPaisa = 0,
     o_totalPaisa = 20 * q, o_status = st, o_buyerName = lit ''Ann'',
     o_buyerEmail = lit ''a@b.c'', o_buyerPhone = Some (lit ''+8801''),
     o_attendeeNames = replicate (nat q) (lit ''Ann''), o_bkashTrxId = trx,
     o_bkashSenderMsisdn = None, o_promoCodeId = None, o_rejectionReason = None,
     o_rejectionNote = None, o_complimentaryReason = None, o_holdExpiresAt = Some 1200000,
     o_createdAt = 0, o_updatedAt = 0\<rparr>"

definition SAMPLE_COMP :: order_row where
  "SAMPLE_COMP = (SAMPLE_ORDER 103 (lit ''EA-D'') 1 Issued None)
    \<lparr>o_discountPaisa := 20, o_totalPaisa := 0, o_buyerPhone := None,
     o_complimentaryReason := Some (lit ''crew''), o_holdExpiresAt := None\<rparr>"

definition SAMPLE_TICKET :: "uuid \<Rightarrow> uuid \<Rightarrow> jstr \<Rightarrow> int \<Rightarrow> ticket_row" where
  "SAMPLE_TICKET i order code pos =
    \<lparr>t_id = i, t_orderId = order, t_ticketTypeId = 10, t_eventId = 1, t_code = code,
     t_position = pos, t_attendeeName = lit ''Ann'', t_status = TicketIssued,
     t_checkedInAt = None, t_checkedInBy = None, t_checkedInScanId = None, t_createdAt = 0,
     t_updatedAt = 0\<rparr>"

definition SAMPLE_TRAIL :: "order_event_row list" where
  "SAMPLE_TRAIL =
    [audit 0 100 [] [] None (Some PendingPayment) [],
     audit 0 101 [] [] None (Some PendingPayment) [],
     audit 0 101 [] [] (Some PendingPayment) (Some PendingVerification) [],
     audit 0 102 [] [] None (Some PendingPayment) [],
     audit 0 102 [] [] (Some PendingPayment) (Some PendingVerification) [],
     audit 0 102 [] [] (Some PendingVerification) (Some Paid) [],
     audit 0 102 [] [] (Some Paid) (Some Issued) [],
     audit 0 103 [] [] None (Some Issued) []]"

definition SAMPLE_DB :: db where
  "SAMPLE_DB =
    \<lparr>events = [SAMPLE_EVENT],
     ticketTypes = [SAMPLE_TYPE 10 20 20 3 5, SAMPLE_TYPE 11 10 5 0 0],
     promoCodes = [\<lparr>p_id = 20, p_code = lit ''FRIENDS'', p_type = Percentage, p_amount = 15,
       p_active = True, p_createdAt = 0, p_updatedAt = 0\<rparr>],
     promoCodeTicketTypes = [(20, 10)],
     orders = [SAMPLE_ORDER 100 (lit ''EA-A'') 2 PendingPayment None,
       SAMPLE_ORDER 101 (lit ''EA-B'') 3 PendingVerification (Some (lit ''9AB'')),
       SAMPLE_ORDER 102 (lit ''EA-C'') 2 Issued (Some (lit ''8XY'')), SAMPLE_COMP],
     orderEvents = SAMPLE_TRAIL,
     tickets = [SAMPLE_TICKET 200 102 (lit ''TKT-AAAAAAAA'') 1,
       SAMPLE_TICKET 201 102 (lit ''TKT-BBBBBBBB'') 2,
       SAMPLE_TICKET 202 103 (lit ''TKT-CCCCCCCC'') 1],
     doorPasses = [\<lparr>dp_id = 50, dp_eventId = 1, dp_label = lit ''North'',
       dp_code = lit ''K7QM4XPDR2TW'', dp_createdBy = lit ''raj'', dp_createdAt = 0,
       dp_revokedAt = None\<rparr>],
     doorScans = [], doorDecisions = [],
     sponsors = [\<lparr>sp_id = 90, sp_name = lit ''Acme'', sp_websiteUrl = None,
       sp_level = Presenting, sp_logoKey = lit ''s'', sp_logoWidth = (2, 0), sp_logoHeight = (1, 0),
       sp_tileTone = LightTile, sp_active = True, sp_position = 1, sp_createdAt = 0,
       sp_updatedAt = 0\<rparr>]\<rparr>"

text \<open>On an accepted store the seat balance need only be checked for existing ticket types.\<close>

lemma seats_balanced_types:
  assumes "db_ok s"
    and "list_all (\<lambda>t. held_seats s (tt_id t) = total_of (pending_weight (tt_id t)) (orders s) \<and>
      sold_seats s (tt_id t) = total_of (live_weight (tt_id t)) (tickets s)) (ticketTypes s)"
  shows "seats_balanced s"
  unfolding seats_balanced_def
proof
  fix i
  show "held_seats s i = total_of (pending_weight i) (orders s) \<and>
    sold_seats s i = total_of (live_weight i) (tickets s)"
  proof (cases "i \<in> tt_id ` set (ticketTypes s)")
    case True
    then show ?thesis using assms(2) by (auto simp: list_all_iff)
  next
    case False
    then have "row_by tt_id i (ticketTypes s) = None" by (simp add: row_by_None)
    moreover have "pending_weight i r = 0" if "r \<in> set (orders s)" for r
      using orders_ok(5) [OF db_ok_orders [OF assms(1)] that] False by (auto simp: pending_weight_def)
    moreover have "live_weight i t = 0" if "t \<in> set (tickets s)" for t
      using tickets_ok(6) [OF db_ok_tickets [OF assms(1)] that] False by (auto simp: live_weight_def)
    ultimately show ?thesis by (simp add: seat_of_def total_zero)
  qed
qed

lemma SAMPLE_DB_ok: "db_ok SAMPLE_DB"
  by code_simp

lemma SAMPLE_DB_seats: "seats_balanced SAMPLE_DB"
  by (rule seats_balanced_types [OF SAMPLE_DB_ok]) code_simp

lemma SAMPLE_DB_tickets: "tickets_match SAMPLE_DB"
  by code_simp

lemma SAMPLE_DB_trail: "trail_ok SAMPLE_DB"
  by code_simp

lemma SAMPLE_DB_books: "books_ok SAMPLE_DB"
  by (simp add: books_ok_def SAMPLE_DB_ok SAMPLE_DB_seats SAMPLE_DB_tickets SAMPLE_DB_trail)

text \<open>A call that returned.\<close>

definition succeeds :: "'e + 'a \<times> 's \<Rightarrow> bool" where
  "succeeds r = (case r of Inl _ \<Rightarrow> False | Inr _ \<Rightarrow> True)"

lemma succeedsE: "succeeds r \<Longrightarrow> \<exists>x s. r = Inr (x, s)"
  by (cases r) (auto simp: succeeds_def)

end
