(* ===== verification/OrderClaims.thy ===== *)
theory OrderClaims
  imports Expiry Samples
begin

text \<open>
  The properties of the order life cycle: creating, paying, expiring, approving, rejecting
  and cancelling, each over one service call on a store whose books agree.
\<close>

section \<open>The stored form of a transaction id\<close>

lemma upper_unit_not_lower: "c \<in> set (upper_unit d) \<Longrightarrow> \<not> is_lower c"
proof (cases "is_lower d")
  case True
  then show "c \<in> set (upper_unit d) \<Longrightarrow> \<not> is_lower c"
    by (auto simp: upper_unit_def is_lower_def)
next
  case False
  assume c: "c \<in> set (upper_unit d)"
  show "\<not> is_lower c"
  proof (cases "map_of UPPER_TO_ASCII d")
    case None
    with c False show ?thesis by (simp add: upper_unit_def)
  next
    case (Some u)
    with c False have "c \<in> set u" by (simp add: upper_unit_def)
    with map_of_SomeD [OF Some] show ?thesis by (auto simp: UPPER_TO_ASCII_def is_lower_def)
  qed
qed

lemma upper_unit_space: "32 \<in> set (upper_unit d) \<Longrightarrow> d = 32"
proof (cases "is_lower d")
  case True
  then show "32 \<in> set (upper_unit d) \<Longrightarrow> d = 32" by (auto simp: upper_unit_def is_lower_def)
next
  case False
  assume c: "32 \<in> set (upper_unit d)"
  show "d = 32"
  proof (cases "map_of UPPER_TO_ASCII d")
    case None
    with c False show ?thesis by (simp add: upper_unit_def)
  next
    case (Some u)
    with c False have "32 \<in> set u" by (simp add: upper_unit_def)
    with map_of_SomeD [OF Some] show ?thesis by (auto simp: UPPER_TO_ASCII_def)
  qed
qed

lemma upper_unit_nonempty: "upper_unit d \<noteq> []"
proof (cases "map_of UPPER_TO_ASCII d")
  case (Some u)
  with map_of_SomeD [OF Some] show ?thesis by (auto simp: upper_unit_def UPPER_TO_ASCII_def)
qed (simp add: upper_unit_def)

lemma btrim_fixed: "s = [] \<or> (hd s \<noteq> 32 \<and> last s \<noteq> 32) \<Longrightarrow> btrim s = s"
proof -
  have d: "dropWhile (\<lambda>c. c = 32) t = t" if "t = [] \<or> hd t \<noteq> (32 :: nat)" for t
    using that by (cases t) auto
  assume "s = [] \<or> (hd s \<noteq> 32 \<and> last s \<noteq> 32)"
  then show ?thesis by (auto simp: btrim_def d hd_rev)
qed

lemma trim_ends: "trim s = [] \<or> (\<not> is_space (hd (trim s)) \<and> \<not> is_space (last (trim s)))"
proof -
  let ?d = "dropWhile is_space s"
  have t: "trim s = rev (dropWhile is_space (rev ?d))" by (simp add: trim_def)
  show ?thesis
  proof (cases "trim s = []")
    case False
    then have ne: "dropWhile is_space (rev ?d) \<noteq> []" by (simp add: t)
    have "last (trim s) = hd (dropWhile is_space (rev ?d))" by (simp add: t last_rev)
    moreover have "\<not> is_space (hd (dropWhile is_space (rev ?d)))" by (rule hd_dropWhile [OF ne])
    moreover have "hd (trim s) = hd ?d"
    proof -
      have "hd (trim s) = last (dropWhile is_space (rev ?d))" by (simp add: t hd_rev)
      also have "\<dots> = last (rev ?d)"
        using ne takeWhile_dropWhile_id [of is_space "rev ?d"] by (metis last_appendR)
      also have "\<dots> = hd ?d" by (simp add: last_rev)
      finally show ?thesis .
    qed
    moreover have "?d \<noteq> []" using ne by (cases "?d") simp_all
    ultimately show ?thesis using hd_dropWhile [of is_space s] by simp
  qed simp
qed

lemma toUpperCase_ends:
  assumes "s \<noteq> []" "hd s \<noteq> 32" "last s \<noteq> 32"
  shows "hd (toUpperCase s) \<noteq> 32 \<and> last (toUpperCase s) \<noteq> 32"
proof -
  obtain c t where "s = c # t" using assms(1) by (cases s) auto
  then have "hd (toUpperCase s) = hd (upper_unit c)" "c \<noteq> 32"
    using assms(2) upper_unit_nonempty by auto
  moreover have "hd (upper_unit c) \<in> set (upper_unit c)" using upper_unit_nonempty by simp
  moreover obtain u d where "s = u @ [d]" using assms(1) by (cases s rule: rev_cases) auto
  then have "last (toUpperCase s) = last (upper_unit d)" "d \<noteq> 32"
    using assms(3) upper_unit_nonempty by auto
  moreover have "last (upper_unit d) \<in> set (upper_unit d)" using upper_unit_nonempty by simp
  ultimately show ?thesis using upper_unit_space by metis
qed

text \<open>Whatever a buyer types, the stored form satisfies the database's normalisation CHECK.\<close>

lemma normaliseTrxId_stored: "pg_upper (btrim (normaliseTrxId raw)) = normaliseTrxId raw"
proof -
  let ?t = "trim (normaliseDigits raw)"
  have "normaliseTrxId raw = [] \<or> (hd (normaliseTrxId raw) \<noteq> 32 \<and> last (normaliseTrxId raw) \<noteq> 32)"
  proof (cases "?t = []")
    case False
    then have "hd ?t \<noteq> 32" "last ?t \<noteq> 32" using trim_ends [of "normaliseDigits raw"] by (auto simp: is_space_def)
    then show ?thesis using toUpperCase_ends [OF False] by (simp add: normaliseTrxId_def)
  qed (simp add: normaliseTrxId_def)
  then have "btrim (normaliseTrxId raw) = normaliseTrxId raw" by (rule btrim_fixed)
  moreover have "pg_upper (toUpperCase s) = toUpperCase s" for s
    unfolding pg_upper_def by (rule map_idI) (auto simp: toUpperCase_def dest: upper_unit_not_lower)
  ultimately show ?thesis by (simp add: normaliseTrxId_def)
qed

section \<open>Writing a transaction id\<close>

lemma unique_rows_one:
  assumes "unique_rows n key rs = None" "distinct (map k rs)" "r \<in> set rs"
  shows "unique_rows n key (update_rows (\<lambda>q. k q = k r) f rs) = None \<longleftrightarrow>
    (case key (f r) of None \<Rightarrow> True | Some x \<Rightarrow> \<forall>q \<in> set rs. k q \<noteq> k r \<longrightarrow> key q \<noteq> Some x)"
proof -
  obtain xs ys where rs: "rs = xs @ r # ys" using assms(3) by (auto simp: in_set_conv_decomp)
  have off: "k q \<noteq> k r" if "q \<in> set xs \<union> set ys" for q
  proof -
    have "k q \<in> k ` (set xs \<union> set ys)" using that by (rule imageI)
    then show ?thesis using assms(2) by (auto simp: rs)
  qed
  have upd: "update_rows (\<lambda>q. k q = k r) f rs = xs @ f r # ys"
    using off by (simp add: rs update_rows_none)
  have mf: "List.map_filter key (us @ v # ws) = List.map_filter key us @
    (case key v of None \<Rightarrow> [] | Some x \<Rightarrow> [x]) @ List.map_filter key ws" for us v ws
    by (auto simp: List.map_filter_def split: option.splits)
  have mem: "x \<in> set (List.map_filter key us) \<longleftrightarrow> (\<exists>q \<in> set us. key q = Some x)" for x us
    by (force simp: List.map_filter_def)
  show ?thesis
    using assms(1) off unfolding unique_rows_None upd unfolding rs mf
    by (auto simp: mem split: option.splits)
qed

definition trx_used :: "db \<Rightarrow> uuid \<Rightarrow> jstr \<Rightarrow> bool" where
  "trx_used s i x \<longleftrightarrow> (\<exists>q \<in> set (orders s). o_id q \<noteq> i \<and> o_bkashTrxId q = Some x)"

lemma submit_violation:
  assumes "db_ok s" "r \<in> set (orders s)" "o_status r \<in> set SUBMITTABLE"
  shows "orders_violation s (update_rows (\<lambda>q. o_id q = o_id r)
      (transition_row ts PendingVerification (submit_patch raw m)) (orders s)) =
    (if trx_used s (o_id r) (normaliseTrxId raw) then Some (UniqueViolation TRX_ID_UNIQUE) else None)"
proof -
  let ?f = "transition_row ts PendingVerification (submit_patch raw m)"
  let ?p = "\<lambda>q. o_id q = o_id r"
  let ?rs = "update_rows ?p ?f (orders s)"
  note v = db_ok_orders [OF assms(1)]
  note d = orders_ok(1) [OF v]
  have only: "q = r" if "q \<in> set (orders s)" "o_id q = o_id r" for q
    using that assms(2) order_findById_set [OF assms(1), of "o_id r"] by (metis option.inject)
  have chk: "list_all (\<lambda>c. snd c r) order_checks"
    using v assms(2) by (auto simp: orders_violation_def first_violation_None check_rows_None list_all_iff)
  have comp: "o_complimentaryReason r = None"
    using orders_ok(8) [OF v assms(2)] assms(3)
    by (cases "o_complimentaryReason r") (auto simp: SUBMITTABLE_def)
  have "list_all (\<lambda>c. snd c (?f r)) order_checks"
    using chk comp normaliseTrxId_stored [of raw]
    by (simp add: order_checks_def transition_row_def apply_patch_def submit_patch_def)
  then have 1: "check_rows order_checks ?rs = None"
    using v only by (intro check_rows_update)
      (auto simp: orders_violation_def first_violation_None list_all_iff)
  have keys: "o_reference (?f q) = o_reference q" "o_eventId (?f q) = o_eventId q"
    "o_promoCodeId (?f q) = o_promoCodeId q" "o_bkashTrxId (?f q) = Some (normaliseTrxId raw)" for q
    by (simp_all add: transition_row_def apply_patch_def submit_patch_def)
  have 2: "unique_rows n (\<lambda>q. Some (o_id q)) ?rs = unique_rows n (\<lambda>q. Some (o_id q)) (orders s)"
    "unique_rows n (\<lambda>q. Some (o_reference q)) ?rs = unique_rows n (\<lambda>q. Some (o_reference q)) (orders s)" for n
    by (simp_all add: unique_rows_def map_filter_Some map_update_rows keys)
  have 3: "references_rows n (\<lambda>q. Some (o_eventId q)) ks ?rs = None"
    if "references_rows n (\<lambda>q. Some (o_eventId q)) ks (orders s) = None" for n ks
    using that by (rule references_rows_update) (simp add: keys)
  have 4: "references_rows n (\<lambda>q. Some (o_ticketTypeId q)) ks ?rs = None"
    if "references_rows n (\<lambda>q. Some (o_ticketTypeId q)) ks (orders s) = None" for n ks
    using that by (rule references_rows_update) simp
  have 5: "references_rows n o_promoCodeId ks ?rs = None"
    if "references_rows n o_promoCodeId ks (orders s) = None" for n ks
    using that by (rule references_rows_update) (simp add: keys)
  have 6: "unique_rows ''orders_bkash_trx_id_uq'' o_bkashTrxId ?rs =
    (if trx_used s (o_id r) (normaliseTrxId raw) then Some (UniqueViolation TRX_ID_UNIQUE) else None)"
  proof -
    have "unique_rows ''orders_bkash_trx_id_uq'' o_bkashTrxId (orders s) = None"
      using v by (simp add: orders_violation_def first_violation_None)
    from unique_rows_one [OF this d assms(2), of ?f] show ?thesis
      unfolding keys(4) by (auto simp: trx_used_def unique_rows_def TRX_ID_UNIQUE_def)
  qed
  show ?thesis
    using v unfolding orders_violation_def
    by (cases "trx_used s (o_id r) (normaliseTrxId raw)") (simp_all add: first_violation_None 1 2 3 4 5 6)
qed


lemma transition_eval:
  assumes "db_ok s" "order_findById i s = Some r" "o_status r \<in> set frm"
  shows "transition ts i frm to patch s =
    (case orders_violation s (update_rows (\<lambda>q. o_id q = i) (transition_row ts to patch) (orders s)) of
       None \<Rightarrow> Inr (Some (transition_row ts to patch r), set_order i (transition_row ts to patch) s)
     | Some err \<Rightarrow> Inl (case pt_bkashTrxId patch of
         Some x \<Rightarrow> if x \<noteq> [] \<and> isUniqueViolation err TRX_ID_UNIQUE
           then TrxIdAlreadyUsedError x else PgError err
       | None \<Rightarrow> PgError err))"
proof -
  note d = orders_ok(1) [OF db_ok_orders [OF assms(1)]]
  let ?f = "transition_row ts to patch"
  let ?p = "\<lambda>r. o_id r = i \<and> o_status r \<in> set frm"
  have only: "q = r" if "q \<in> set (orders s)" "o_id q = i" for q
    using that assms(2) order_findById_set [OF assms(1), of i q] by simp
  then have "update_rows ?p ?f (orders s) = update_rows (\<lambda>q. o_id q = i) ?f (orders s)"
    using assms(3) by (auto simp: update_rows_def)
  moreover have "returned ?p ?f (orders s) = [?f r]"
    using assms(2,3) by (simp add: returned_key [OF d] order_findById_def)
  ultimately show ?thesis
    unfolding transition_def mapError_def andThen_def update_orders_def put_orders_def
      return_tx_def transition_row_def [symmetric, abs_def] set_order_def
    by (simp split: option.splits)
qed

section \<open>Submitting a payment\<close>

text \<open>C1: submitPayment, on every accepted store, does exactly one thing for each state of the
  order: an unknown order is not found; an order that is past payment is a status conflict; an
  unpaid order whose hold lapsed (twenty minutes and the two minutes of grace) is refused; a
  transaction id on another order is refused; and otherwise the order is pending verification
  with the normalised id, with one audit row that records the real previous status.\<close>

theorem submitPayment_spec:
  assumes "db_ok s" "normaliseTrxId raw \<noteq> []"
  shows "submitPayment ts now i raw m s =
    (case order_findById i s of
       None \<Rightarrow> Inl (OrderNotFoundError i)
     | Some r \<Rightarrow>
         if o_status r \<notin> {PendingPayment, PendingVerification}
         then Inl (OrderStatusConflictError i (o_status r))
         else if holdLapsed (o_status r) (o_holdExpiresAt r) now then Inl (HoldLapsedError i)
         else if trx_used s i (normaliseTrxId raw)
         then Inl (TrxIdAlreadyUsedError (normaliseTrxId raw))
         else Inr (transition_row ts PendingVerification (submit_patch raw m) r,
           (set_order i (transition_row ts PendingVerification (submit_patch raw m)) s)
             \<lparr>orderEvents := orderEvents s @
               [audit ts i (lit ''buyer'')
                 (if o_status r = PendingPayment then lit ''payment.submitted''
                  else lit ''payment.updated'')
                 (Some (o_status r)) (Some PendingVerification)
                 (submitted_note r (normaliseTrxId raw) m)]\<rparr>))"
proof (cases "order_findById i s")
  case None
  then show ?thesis
    by (simp add: submitPayment_def Let_def tx_run order_findByIdForUpdate_def)
next
  case (Some r)
  then have r: "r \<in> set (orders s)" "o_id r = i" by (simp_all add: order_findById_set [OF assms(1)])
  show ?thesis
  proof (cases "o_status r \<in> set SUBMITTABLE \<and> \<not> holdLapsed (o_status r) (o_holdExpiresAt r) now")
    case False
    with Some show ?thesis
      by (auto simp: submitPayment_def Let_def tx_run order_findByIdForUpdate_def SUBMITTABLE_def)
  next
    case True
    let ?f = "transition_row ts PendingVerification (submit_patch raw m)"
    have t: "transition ts i SUBMITTABLE PendingVerification (submit_patch raw m) s =
      (if trx_used s i (normaliseTrxId raw) then Inl (TrxIdAlreadyUsedError (normaliseTrxId raw))
       else Inr (Some (?f r), set_order i ?f s))"
      using transition_eval [OF assms(1) Some conjunct1 [OF True]]
        submit_violation [OF assms(1) r(1) conjunct1 [OF True]] assms(2)
      by (simp add: r(2) submit_patch_def isUniqueViolation_def)
    have legal: "o_status r = PendingPayment \<Longrightarrow> assertOrderTransition PendingPayment PendingVerification = Inr ()"
      by (simp add: tx_simps isOrderTransitionAllowed_def)
    show ?thesis
    proof (cases "trx_used s i (normaliseTrxId raw)")
      case used: True
      with t True Some legal show ?thesis
        by (auto simp: submitPayment_def Let_def tx_run order_findByIdForUpdate_def SUBMITTABLE_def
            submit_patch_def split: if_splits)
    next
      case free: False
      have ok: "db_ok (set_order i ?f s)" by (rule statement_ok(7) [OF _ assms(1)]) (use t free in simp)
      have "i \<in> o_id ` set (orders (set_order i ?f s))"
        using r by (auto simp: keys_update_rows [where key = o_id])
      then have ev: "order_insertEvent e (set_order i ?f s) =
        Inr (e, (set_order i ?f s)\<lparr>orderEvents := orderEvents s @ [e]\<rparr>)" if "oe_orderId e = i" for e
        using order_insertEvent_succeeds [OF ok, of e] that by simp
      from free t True Some legal ev show ?thesis
        by (auto simp: submitPayment_def Let_def tx_run order_findByIdForUpdate_def SUBMITTABLE_def
            submit_patch_def)
    qed
  qed
qed

theorem submitPayment_spec_witness:
  "submitPayment 5 1320000 100 (lit ''9ab'') [] SAMPLE_DB = Inl (HoldLapsedError 100) \<and>
   submitPayment 5 1319999 100 (lit '' 9ab '') [] SAMPLE_DB =
     Inl (TrxIdAlreadyUsedError (lit ''9AB''))"
proof -
  have "normaliseTrxId (lit ''9ab'') = lit ''9AB''" "normaliseTrxId (lit '' 9ab '') = lit ''9AB''"
    by (simp_all add: normaliseTrxId_def trim_def is_space_def normalise_unit_eq upper_unit_def
        is_lower_def UPPER_TO_ASCII_def)
  moreover have "order_findById 100 SAMPLE_DB = Some (SAMPLE_ORDER 100 (lit ''EA-A'') 2 PendingPayment None)"
    by code_simp
  moreover have "holdLapsed PendingPayment (Some 1200000) 1320000 \<and>
    \<not> holdLapsed PendingPayment (Some 1200000) 1319999" by code_simp
  moreover have "trx_used SAMPLE_DB 100 (lit ''9AB'')" by code_simp
  ultimately show ?thesis
    using submitPayment_spec [OF SAMPLE_DB_ok, of "lit ''9ab''" 5 1320000 100 "[]"]
      submitPayment_spec [OF SAMPLE_DB_ok, of "lit '' 9ab ''" 5 1319999 100 "[]"]
    by (simp add: SAMPLE_ORDER_def)
qed


section \<open>Expiring holds\<close>

text \<open>C4: one run of the expiry job, on books that agree, never fails on an order: it expires
  exactly as many lapsed orders as fit in ten batches of 200, touches no order that was not an
  unpaid order past its cutoff, leaves the books agreeing (every released seat is back on
  sale once), and up to 2000 lapsed orders it leaves none behind.\<close>

theorem expireLapsedHolds_spec:
  assumes "books_ok s"
  shows "\<exists>s'. expireLapsedHolds ts at s =
      (\<lparr>xr_expired = min 2000 (length (filter (\<lambda>r. holdLapsed (o_status r) (o_holdExpiresAt r) at) (orders s))),
        xr_failed = 0, xr_skipped = []\<rparr>, s') \<and>
    books_ok s' \<and>
    list_all2 (\<lambda>r r'. r' = r \<or>
        (holdLapsed (o_status r) (o_holdExpiresAt r) at \<and> r' = transition_row ts Expired NO_PATCH r))
      (orders s) (orders s') \<and>
    (length (filter (\<lambda>r. holdLapsed (o_status r) (o_holdExpiresAt r) at) (orders s)) \<le> 2000 \<longrightarrow>
      (\<forall>r \<in> set (orders s'). \<not> holdLapsed (o_status r) (o_holdExpiresAt r) at))"
proof -
  let ?run = "\<lparr>xr_expired = 0, xr_failed = 0, xr_skipped = []\<rparr>"
  from expire_batches_succeeds [OF assms expired_from_refl, of ?run EXPIRY_MAX_BATCHES ts at]
  obtain s' where
    "expire_batches EXPIRY_MAX_BATCHES ts at ?run s = (?run\<lparr>xr_expired := 0 +
      min (EXPIRY_MAX_BATCHES * EXPIRY_BATCH) (length (lapsed_orders (lapsedBefore at) s))\<rparr>, s')"
    "books_ok s'" "expired_from ts (lapsedBefore at) s s'"
    "length (lapsed_orders (lapsedBefore at) s') =
      length (lapsed_orders (lapsedBefore at) s) - EXPIRY_MAX_BATCHES * EXPIRY_BATCH"
    by auto
  then show ?thesis
    by (intro exI [of _ s'])
      (auto simp: expireLapsedHolds_def EXPIRY_MAX_BATCHES_def EXPIRY_BATCH_def expired_from_def
        lapsed_orders_def lapsed_row_eq filter_empty_conv)
qed

theorem expireLapsedHolds_spec_witness:
  "\<exists>run s'. expireLapsedHolds 7 1320000 SAMPLE_DB = (run, s') \<and> xr_expired run = 1 \<and>
    xr_failed run = 0 \<and> books_ok s'"
proof -
  have "length (filter (\<lambda>r. holdLapsed (o_status r) (o_holdExpiresAt r) 1320000) (orders SAMPLE_DB)) = 1"
    by code_simp
  with expireLapsedHolds_spec [OF SAMPLE_DB_books, of 7 1320000] show ?thesis by auto
qed

section \<open>Approving a payment\<close>

lemma positions_tickets_for:
  "map t_position (tickets_for ts r d) = map (\<lambda>i. int i + 1) [0..<length (o_attendeeNames r)]"
  by (rule nth_equalityI) (simp_all add: tickets_for_def ticket_for_def)

text \<open>C3: an approval that returns found the order pending verification with exactly the
  transaction id the admin verified; it issues the order, creates one live ticket per attendee
  name, in the order the names were given and numbered from 1, turns exactly the order's held
  seats into sold ones, leaves the books agreeing, and can never happen twice: every later
  approval of the same order is a status conflict.\<close>

theorem approveOrder_spec:
  assumes "books_ok s" "approveOrder ts draw i actor v s = Inr ((ord, tix), s')"
  shows "\<exists>r. order_findById i s = Some r \<and> o_status r = PendingVerification \<and>
    o_bkashTrxId r = Some v \<and> order_findById i s' = Some ord \<and> o_status ord = Issued \<and>
    tickets s' = tickets s @ tix \<and> map t_attendeeName tix = o_attendeeNames r \<and>
    map t_position tix = map (\<lambda>n. int n + 1) [0..<nat (o_quantity r)] \<and>
    (\<forall>t \<in> set tix. t_orderId t = i \<and> t_status t = TicketIssued \<and>
      t_ticketTypeId t = o_ticketTypeId r \<and> t_eventId t = o_eventId r) \<and>
    held_seats s' (o_ticketTypeId r) = held_seats s (o_ticketTypeId r) - o_quantity r \<and>
    sold_seats s' (o_ticketTypeId r) = sold_seats s (o_ticketTypeId r) + o_quantity r \<and>
    books_ok s' \<and>
    (\<forall>ts2 draw2 a2 v2. approveOrder ts2 draw2 i a2 v2 s' = Inl (OrderStatusConflictError i Issued))"
proof -
  note k = books_okD [OF assms(1)]
  from approveOrder_Inr [OF assms(2)] obtain n where
    n: "approve_tx ts (draw n) i actor v s = Inr ((ord, tix), s')" by blast
  from approve_tx_effect [OF k(1) n] obtain r where
    r: "order_findById i s = Some r" "o_status r = PendingVerification" "o_bkashTrxId r = Some v"
      "int (length (o_attendeeNames r)) = o_quantity r"
    and res: "(ord, tix) = (transition_row ts Issued NO_PATCH (transition_row ts Paid NO_PATCH r),
      tickets_for ts r (draw n))"
    and ords: "orders s' = update_rows (\<lambda>q. o_id q = i)
      (\<lambda>q. transition_row ts Issued NO_PATCH (transition_row ts Paid NO_PATCH q)) (orders s)"
    and tix: "tickets s' = tickets s @ tickets_for ts r (draw n)"
    and cnt: "held_seats s' = (held_seats s)(o_ticketTypeId r := held_seats s (o_ticketTypeId r) - o_quantity r)"
      "sold_seats s' = (sold_seats s)(o_ticketTypeId r := sold_seats s (o_ticketTypeId r) + o_quantity r)"
    by blast
  have id: "o_id r = i" using r(1) by (simp add: order_findById_set [OF k(1)])
  have q: "length (o_attendeeNames r) = nat (o_quantity r)" using r(4) by simp
  have found: "order_findById i s' = Some ord"
    using r(1) id res by (simp add: order_findById_def ords row_by_update_rows)
  have st: "o_status ord = Issued" using res by simp
  have again: "approve_tx ts2 d2 i a2 v2 s' = Inl (OrderStatusConflictError i Issued)" for ts2 d2 a2 v2
    using found st by (simp add: approve_tx_def tx_run order_findByIdForUpdate_def)
  have "approveOrder ts2 draw2 i a2 v2 s' = Inl (OrderStatusConflictError i Issued)" for ts2 draw2 a2 v2
    unfolding approveOrder_def by (rule retry_stops) (simp_all add: again code_collision_def)
  with r id found st res tix cnt approveOrder_books [OF assms] show ?thesis
    by (intro exI [of _ r])
      (auto simp: tickets_for_simps(3) positions_tickets_for q dest: tickets_for_simps(2))
qed

definition SAMPLE_DRAWS :: draws where
  "SAMPLE_DRAWS = \<lparr>dr_orderId = 300, dr_reference = lit ''EA-Z'',
    dr_ticketId = (\<lambda>n. 400 + n),
    dr_code = (\<lambda>n. if n = 0 then lit ''TKT-DDDDDDDD'' else if n = 1 then lit ''TKT-EEEEEEEE''
      else lit ''TKT-FFFFFFFF'')\<rparr>"

theorem approveOrder_spec_witness:
  "\<exists>ord tix s'. approveOrder 5 (\<lambda>_. SAMPLE_DRAWS) 101 [] (lit ''9AB'') SAMPLE_DB = Inr ((ord, tix), s') \<and>
    o_status ord = Issued \<and> books_ok s' \<and>
    approveOrder 6 (\<lambda>_. SAMPLE_DRAWS) 101 [] (lit ''9AB'') s' = Inl (OrderStatusConflictError 101 Issued)"
proof -
  have "succeeds (approveOrder 5 (\<lambda>_. SAMPLE_DRAWS) 101 [] (lit ''9AB'') SAMPLE_DB)"
    unfolding approveOrder_def approve_tx_def by code_simp
  then obtain x s' where "approveOrder 5 (\<lambda>_. SAMPLE_DRAWS) 101 [] (lit ''9AB'') SAMPLE_DB = Inr (x, s')"
    using succeedsE by blast
  moreover obtain ord tix where "x = (ord, tix)" by (cases x)
  ultimately show ?thesis using approveOrder_spec [OF SAMPLE_DB_books] by blast
qed

text \<open>What approval refuses, each with its own error and nothing written: an unknown order,
  an order that is not pending verification, and an order whose transaction id is no longer
  the one the admin compared with the statement.\<close>

theorem approveOrder_refusals:
  "approveOrder ts draw i actor v s =
    (case order_findById i s of
       None \<Rightarrow> Inl (OrderNotFoundError i)
     | Some r \<Rightarrow>
         if o_status r \<noteq> PendingVerification then Inl (OrderStatusConflictError i (o_status r))
         else if o_bkashTrxId r \<noteq> Some v then Inl (TrxIdChangedError i v (o_bkashTrxId r))
         else approveOrder ts draw i actor v s)"
proof (cases "order_findById i s")
  case None
  have "approve_tx ts d i actor v s = Inl (OrderNotFoundError i)" for d
    by (simp add: approve_tx_def tx_run order_findByIdForUpdate_def None)
  then show ?thesis by (simp add: None approveOrder_def retry_stops code_collision_def)
next
  case (Some r)
  have "approve_tx ts d i actor v s = Inl (OrderStatusConflictError i (o_status r))"
    if "o_status r \<noteq> PendingVerification" for d
    using that by (simp add: approve_tx_def tx_run order_findByIdForUpdate_def Some)
  moreover have "approve_tx ts d i actor v s = Inl (TrxIdChangedError i v (o_bkashTrxId r))"
    if "o_status r = PendingVerification" "o_bkashTrxId r \<noteq> Some v" for d
    using that by (simp add: approve_tx_def tx_run order_findByIdForUpdate_def Some)
  ultimately show ?thesis by (simp add: Some approveOrder_def retry_stops code_collision_def)
qed

section \<open>Rejecting a payment\<close>

text \<open>C6: a rejection that returns found the order pending verification, stores the reason (one
  of the fixed list) and the trimmed note, puts exactly the order's held seats back on sale
  and leaves sold seats and tickets alone; the books still agree, and the order is final:
  approving or rejecting it again, or submitting a payment for it, is a status conflict.\<close>

theorem rejectOrder_spec:
  assumes "books_ok s" "rejectOrder ts i actor reason note_in s = Inr (u, s')"
  shows "\<exists>r. order_findById i s = Some r \<and> o_status r = PendingVerification \<and>
    isRejectionReason reason \<and> order_findById i s' = Some u \<and> o_status u = Rejected \<and>
    o_rejectionReason u = Some reason \<and> o_rejectionNote u = clean_note note_in \<and>
    held_seats s' (o_ticketTypeId r) = held_seats s (o_ticketTypeId r) - o_quantity r \<and>
    sold_seats s' = sold_seats s \<and> tickets s' = tickets s \<and> books_ok s' \<and>
    (\<forall>ts2 d a v. approveOrder ts2 d i a v s' = Inl (OrderStatusConflictError i Rejected)) \<and>
    (\<forall>ts2 a n. rejectOrder ts2 i a reason n s' = Inl (OrderStatusConflictError i Rejected)) \<and>
    (\<forall>ts2 now x m. submitPayment ts2 now i x m s' = Inl (OrderStatusConflictError i Rejected))"
proof -
  note k = books_okD [OF assms(1)]
  from rejectOrder_effect [OF k(1) assms(2)] obtain r nt patch where
    r: "order_findById i s = Some r" "o_status r = PendingVerification" "isRejectionReason reason"
    and u: "u = transition_row ts Rejected patch r" "o_rejectionReason u = Some reason"
      "o_rejectionNote u = clean_note note_in"
    and eff: "orders s' = update_rows (\<lambda>q. o_id q = i) (transition_row ts Rejected patch) (orders s)"
      "tickets s' = tickets s"
      "held_seats s' = (held_seats s)(o_ticketTypeId r := held_seats s (o_ticketTypeId r) - o_quantity r)"
      "sold_seats s' = sold_seats s"
    by blast
  have id: "o_id r = i" using r(1) by (simp add: order_findById_set [OF k(1)])
  have found: "order_findById i s' = Some u" "o_status u = Rejected"
    using r(1) id u(1) by (simp_all add: order_findById_def eff row_by_update_rows)
  have "approveOrder ts2 d i a v s' = Inl (OrderStatusConflictError i Rejected)" for ts2 d a v
    unfolding approveOrder_def
    by (rule retry_stops) (simp_all add: found approve_tx_def tx_run order_findByIdForUpdate_def
        code_collision_def)
  moreover have "rejectOrder ts2 i a reason n s' = Inl (OrderStatusConflictError i Rejected)" for ts2 a n
    using found r(3) by (auto simp: rejectOrder_def Let_def tx_run order_findByIdForUpdate_def
        isRejectionReason_def split: option.splits)
  moreover have "submitPayment ts2 now i x m s' = Inl (OrderStatusConflictError i Rejected)" for ts2 now x m
    using found by (simp add: submitPayment_def Let_def tx_run order_findByIdForUpdate_def SUBMITTABLE_def)
  ultimately show ?thesis
    using r found u eff rejectOrder_books [OF assms] by (intro exI [of _ r]) simp
qed

theorem rejectOrder_spec_witness:
  "\<exists>u s'. rejectOrder 5 101 [] (lit ''amount_mismatch'') None SAMPLE_DB = Inr (u, s') \<and>
    o_status u = Rejected \<and> held_seats s' 10 = 2 \<and> books_ok s'"
proof -
  have "succeeds (rejectOrder 5 101 [] (lit ''amount_mismatch'') None SAMPLE_DB)" by code_simp
  then obtain u s' where e: "rejectOrder 5 101 [] (lit ''amount_mismatch'') None SAMPLE_DB = Inr (u, s')"
    using succeedsE by blast
  have "order_findById 101 SAMPLE_DB =
      Some (SAMPLE_ORDER 101 (lit ''EA-B'') 3 PendingVerification (Some (lit ''9AB'')))"
    and "held_seats SAMPLE_DB 10 = 5" by code_simp+
  with rejectOrder_spec [OF SAMPLE_DB_books e] e show ?thesis by (auto simp: SAMPLE_ORDER_def)
qed


section \<open>Cancelling tickets\<close>

text \<open>C5: a cancellation that returns found the ticket live, on the named issued order, and not
  checked in; it cancels that ticket, puts exactly one sold seat of its type back on sale,
  never touches held seats, keeps the books agreeing, and cancels the order exactly when it was
  the last live ticket.\<close>

theorem cancelTicket_spec:
  assumes "books_ok s" "cancelTicket ts tk i actor reason s = Inr (res, s')"
  shows "\<exists>r t. order_findById i s = Some r \<and> o_status r = Issued \<and>
    ticket_findById tk s = Some t \<and> t_orderId t = i \<and> t_status t = TicketIssued \<and>
    t_checkedInAt t = None \<and>
    (\<exists>t'. ticket_findById tk s' = Some t' \<and> t_status t' = TicketCancelled) \<and>
    sold_seats s' = (sold_seats s)(t_ticketTypeId t := sold_seats s (t_ticketTypeId t) - 1) \<and>
    held_seats s' = held_seats s \<and> live_count s' i + 1 = live_count s i \<and>
    (\<exists>r'. order_findById i s' = Some r' \<and>
      o_status r' = (if live_count s i = 1 then Cancelled else Issued)) \<and>
    cx_orderCancelled res = (live_count s i = 1) \<and> books_ok s'"
proof -
  note k = books_okD [OF assms(1)]
  obtain r and t :: ticket_row where
    r: "order_findById i s = Some r" "o_status r = Issued"
    and t: "ticket_findById tk s = Some t" "t_orderId t = i" "t_status t = TicketIssued"
      "t_checkedInAt t = None"
    and tix: "tickets s' = update_rows (\<lambda>t. t_id t = tk) (cancel_row ts) (tickets s)"
    and res: "cx_orderCancelled res = (live_count s' i = 0)"
    and ords: "orders s' = (if live_count s' i = 0
      then update_rows (\<lambda>q. o_id q = i) (transition_row ts Cancelled NO_PATCH) (orders s) else orders s)"
    and cnt: "held_seats s' = held_seats s"
      "sold_seats s' = (sold_seats s)(t_ticketTypeId t := sold_seats s (t_ticketTypeId t) - 1)"
    using cancelTicket_effect [OF k(1) assms(2)] by (elim exE conjE) (rule that; assumption)
  let ?w = "\<lambda>u. if t_orderId u = i \<and> t_status u = TicketIssued then 1 else (0 :: int)"
  have "int (live_count s' i) = int (live_count s i) - 1"
    using total_set_ticket [OF k(1) t(1), of ?w "cancel_row ts"] t(2,3)
    by (simp add: live_count_def tix total_as_length)
  then have live: "live_count s' i + 1 = live_count s i" by simp
  have id: "t_id t = tk" "o_id r = i"
    using t(1) r(1) by (simp_all add: ticket_findById_set [OF k(1)] order_findById_set [OF k(1)])
  then have "ticket_findById tk s' = Some (cancel_row ts t)"
    using t(1) by (simp add: ticket_findById_def tix row_by_update_rows)
  moreover have "order_findById i s' = Some (if live_count s i = 1 then transition_row ts Cancelled NO_PATCH r else r)"
    using r(1) id(2) live by (auto simp: order_findById_def ords row_by_update_rows)
  ultimately show ?thesis
    using r t res cnt live cancelTicket_books [OF assms]
    by (intro exI [of _ r] exI [of _ t]) auto
qed

theorem cancelTicket_spec_witness:
  "\<exists>res s'. cancelTicket 9 202 103 [] (lit ''x'') SAMPLE_DB = Inr (res, s') \<and>
    cx_orderCancelled res \<and> live_count s' 103 = 0 \<and> books_ok s'"
proof -
  have "succeeds (cancelTicket 9 202 103 [] (lit ''x'') SAMPLE_DB)" by code_simp
  then obtain res s' where e: "cancelTicket 9 202 103 [] (lit ''x'') SAMPLE_DB = Inr (res, s')"
    using succeedsE by blast
  moreover have "live_count SAMPLE_DB 103 = 1" by code_simp
  ultimately show ?thesis using cancelTicket_spec [OF SAMPLE_DB_books e] by auto
qed

section \<open>Complimentary tickets\<close>

text \<open>C7: complimentary tickets that are issued were free in full (the total is zero, the
  discount the whole subtotal at the ticket type's own price), are issued at once with one
  live ticket per seat, took real stock, and can never have been paid or used a code; held
  seats are as before, sold seats grew by exactly the quantity, and the books agree.\<close>

theorem issueComplimentary_spec:
  assumes "books_ok s" "issueComplimentaryTickets snap ts draw inp s = Inr ((ord, tix), s')"
  shows "\<exists>tt. ticketType_findById (co_ticketTypeId inp) snap = Some tt \<and>
    tt_eventId tt = co_eventId inp \<and> o_unitPricePaisa ord = tt_pricePaisa tt \<and>
    o_totalPaisa ord = 0 \<and> o_discountPaisa ord = o_subtotalPaisa ord \<and>
    o_status ord = Issued \<and> o_bkashTrxId ord = None \<and> o_promoCodeId ord = None \<and>
    o_complimentaryReason ord = Some (co_reason inp) \<and>
    orders s' = orders s @ [ord] \<and> tickets s' = tickets s @ tix \<and>
    int (length tix) = co_quantity inp \<and>
    (\<forall>t \<in> set tix. t_orderId t = o_id ord \<and> t_status t = TicketIssued \<and>
      t_attendeeName t = co_guestName inp) \<and>
    held_seats s' = held_seats s \<and>
    sold_seats s' (tt_id tt) = sold_seats s (tt_id tt) + co_quantity inp \<and> books_ok s'"
proof -
  note k = books_okD [OF assms(1)]
  from issueComplimentary_Inr [OF assms(2)] obtain tt totals n where
    tt: "ticketType_findById (co_ticketTypeId inp) snap = Some tt" "tt_eventId tt = co_eventId inp"
    and totals: "totals = \<lparr>unitPricePaisa = tt_pricePaisa tt, totQuantity = co_quantity inp,
      subtotalPaisa = tt_pricePaisa tt * co_quantity inp,
      discountPaisa = tt_pricePaisa tt * co_quantity inp, totalPaisa = 0\<rparr>"
    and tx: "comp_tx ts inp tt totals (draw n) s = Inr ((ord, tix), s')" by blast
  let ?row = "comp_order_row ts inp tt totals (draw n)"
  from comp_tx_effect [OF k(1) tx] have
    ord: "ord = ?row" and tix: "tix = tickets_for ts ?row (draw n)"
    and n: "int (length (o_attendeeNames ?row)) = o_quantity ?row"
    and tabs: "orders s' = orders s @ [?row]" "tickets s' = tickets s @ tickets_for ts ?row (draw n)"
      "held_seats s' = held_seats s"
      "sold_seats s' = (sold_seats s)(tt_id tt := sold_seats s (tt_id tt) + co_quantity inp)"
    by auto
  have names: "t_attendeeName t = co_guestName inp" if "t \<in> set tix" for t
  proof -
    have "t_attendeeName t \<in> set (map t_attendeeName tix)" using that by simp
    then show ?thesis by (auto simp: tix tickets_for_simps(3) comp_order_row_def)
  qed
  have "int (length tix) = co_quantity inp"
    using n by (simp add: tix tickets_for_simps(1) comp_order_row_def totals)
  with tt tabs names issueComplimentary_books [OF assms] show ?thesis
    by (intro exI [of _ tt])
      (auto simp: ord tix comp_order_row_def totals dest: tickets_for_simps(2))
qed

definition SAMPLE_COMP_INPUT :: complimentary_input where
  "SAMPLE_COMP_INPUT = \<lparr>co_eventId = 1, co_ticketTypeId = 11, co_quantity = 2,
    co_guestName = lit ''Bo'', co_guestEmail = [], co_reason = lit ''press'', co_actor = []\<rparr>"

definition SAMPLE_COMP_TOTALS :: order_totals where
  "SAMPLE_COMP_TOTALS = \<lparr>unitPricePaisa = 10, totQuantity = 2, subtotalPaisa = 20,
    discountPaisa = 20, totalPaisa = 0\<rparr>"

definition SAMPLE_COMP_ROW :: order_row where
  "SAMPLE_COMP_ROW =
    comp_order_row 5 SAMPLE_COMP_INPUT (SAMPLE_TYPE 11 10 5 0 0) SAMPLE_COMP_TOTALS SAMPLE_DRAWS"

definition SAMPLE_COMP_DB :: "int \<Rightarrow> int \<Rightarrow> order_row list \<Rightarrow> ticket_row list \<Rightarrow> db" where
  "SAMPLE_COMP_DB sold held ords tix = SAMPLE_DB
    \<lparr>ticketTypes := [SAMPLE_TYPE 10 20 20 3 5, SAMPLE_TYPE 11 10 5 sold held],
     orders := orders SAMPLE_DB @ ords, tickets := tickets SAMPLE_DB @ tix\<rparr>"

theorem issueComplimentary_spec_witness:
  "\<exists>ord tix s'. issueComplimentaryTickets SAMPLE_DB 5 (\<lambda>_. SAMPLE_DRAWS) SAMPLE_COMP_INPUT SAMPLE_DB =
      Inr ((ord, tix), s') \<and> o_totalPaisa ord = 0 \<and> length tix = 2 \<and> books_ok s'"
proof -
  let ?t = "tickets_for 5 SAMPLE_COMP_ROW SAMPLE_DRAWS"
  let ?s = "SAMPLE_COMP_DB 2 0 [SAMPLE_COMP_ROW] ?t"
  have "hold 11 2 SAMPLE_DB = Inr (True, SAMPLE_COMP_DB 0 2 [] [])" by code_simp
  moreover have "convertToSold 11 2 (SAMPLE_COMP_DB 0 2 [] []) = Inr ((), SAMPLE_COMP_DB 2 0 [] [])"
    by code_simp
  moreover have "order_insert SAMPLE_COMP_ROW (SAMPLE_COMP_DB 2 0 [] []) =
      Inr (SAMPLE_COMP_ROW, SAMPLE_COMP_DB 2 0 [SAMPLE_COMP_ROW] [])" by code_simp
  moreover have "tickets_insertMany ?t (SAMPLE_COMP_DB 2 0 [SAMPLE_COMP_ROW] []) =
      Inr (?t, SAMPLE_COMP_DB 2 0 [SAMPLE_COMP_ROW] ?t)" by code_simp
  moreover have "length (o_attendeeNames SAMPLE_COMP_ROW) = 2" "o_quantity SAMPLE_COMP_ROW = 2"
    "o_id SAMPLE_COMP_ROW = 300" by code_simp+
  moreover have "order_insertEvent (audit 5 300 a b c d n) ?s =
      Inr (audit 5 300 a b c d n, ?s\<lparr>orderEvents := orderEvents ?s @ [audit 5 300 a b c d n]\<rparr>)"
    for a b c d n
  proof -
    have "order_events_violation SAMPLE_DB (orderEvents SAMPLE_DB) = None"
      using books_okD(1) [OF SAMPLE_DB_books] by (simp add: db_ok_def)
    then show ?thesis using \<open>o_id SAMPLE_COMP_ROW = 300\<close>
      by (auto simp: order_events_violation_def tx_simps references_rows_None audit_def SAMPLE_COMP_DB_def)
  qed
  ultimately obtain x s' where "comp_tx 5 SAMPLE_COMP_INPUT (SAMPLE_TYPE 11 10 5 0 0) SAMPLE_COMP_TOTALS
      SAMPLE_DRAWS SAMPLE_DB = Inr (x, s')"
    by (auto simp: comp_tx_def tx_run SAMPLE_COMP_ROW_def SAMPLE_COMP_INPUT_def SAMPLE_TYPE_def)
  moreover have "ticketType_findById 11 SAMPLE_DB = Some (SAMPLE_TYPE 11 10 5 0 0)" by code_simp
  moreover have "multiplyPaisa 10 2 = Inr 20" by code_simp
  moreover have "computeOrderTotals 10 2 20 = Inr SAMPLE_COMP_TOTALS" by code_simp
  ultimately have
    e: "issueComplimentaryTickets SAMPLE_DB 5 (\<lambda>_. SAMPLE_DRAWS) SAMPLE_COMP_INPUT SAMPLE_DB = Inr (x, s')"
    by (simp add: issueComplimentaryTickets_def tx_run retry.simps SAMPLE_COMP_INPUT_def SAMPLE_TYPE_def)
  obtain ord tix where "x = (ord, tix)" by (cases x)
  with e have e2: "issueComplimentaryTickets SAMPLE_DB 5 (\<lambda>_. SAMPLE_DRAWS) SAMPLE_COMP_INPUT SAMPLE_DB =
    Inr ((ord, tix), s')" by simp
  from issueComplimentary_spec [OF SAMPLE_DB_books e2] have "o_totalPaisa ord = 0" "books_ok s'"
    "int (length tix) = co_quantity SAMPLE_COMP_INPUT" by auto
  with e2 show ?thesis by (auto simp: SAMPLE_COMP_INPUT_def)
qed

section \<open>Creating an order\<close>





end
