(* ===== verification/DoorOffline.thy ===== *)
theory DoorOffline
  imports Repositories
begin

text \<open>
  \<open>src/src/server/lib/door-offline.ts\<close>: the list a door phone downloads and the answer it
  gives from it without signal. The digest is WebCrypto's: \<open>sha text\<close> is the lower-case hex of
  the SHA-256 of the text's UTF-8 bytes.
\<close>

section \<open>The list\<close>

definition OFFLINE_LIST_VERSION :: nat where "OFFLINE_LIST_VERSION = 1"
definition DIGEST_HEX :: nat where "DIGEST_HEX = 32"

record offline_entry =
  le_d :: jstr
  le_id :: uuid
  le_name :: jstr
  le_type :: jstr
  le_pos :: int
  le_of :: int
  le_status :: ticket_status
  le_inAt :: "jstr option"
  le_inBy :: "jstr option"

record offline_list =
  ol_v :: nat
  ol_eventId :: uuid
  ol_passId :: uuid
  ol_salt :: jstr
  ol_serverTime :: jstr
  ol_validFrom :: jstr
  ol_validUntil :: jstr
  ol_entries :: "offline_entry list"
  ol_relay :: "(jstr \<times> jstr) option"

definition offlineDigest :: "(jstr \<Rightarrow> jstr) \<Rightarrow> jstr \<Rightarrow> jstr \<Rightarrow> jstr" where
  "offlineDigest sha salt code = take DIGEST_HEX (sha (salt @ lit '':'' @ code))"

section \<open>The answer\<close>

datatype offline_result =
    OffAdmitted | OffAlreadyIn | OffCancelled | OffUnknown | OffPracticeOk

record local_admit =
  la_at :: jstr
  la_gate :: jstr
  la_byThisPhone :: bool

record offline_judgement =
  oj_result :: offline_result
  oj_verdict :: door_verdict
  oj_practice :: bool
  oj_entry :: "offline_entry option"
  oj_at :: "jstr option"
  oj_gate :: "jstr option"
  oj_byThisPhone :: "bool option"

definition judgeOffline ::
  "offline_entry option \<Rightarrow> local_admit option \<Rightarrow> instant \<Rightarrow> instant \<Rightarrow> offline_judgement" where
  "judgeOffline entry localAdmit now opens =
    (let practice = now < opens;
         refused = (if practice then VPractice else VRefused);
         plain = (\<lambda>r v. \<lparr>oj_result = r, oj_verdict = v, oj_practice = practice, oj_entry = entry,
           oj_at = None, oj_gate = None, oj_byThisPhone = None\<rparr>)
     in case entry of
          None \<Rightarrow> plain OffUnknown refused
        | Some e \<Rightarrow>
            if le_status e = TicketCancelled then plain OffCancelled refused
            else case localAdmit of
                Some la \<Rightarrow> (plain OffAlreadyIn refused)
                  \<lparr>oj_at := Some (la_at la), oj_gate := Some (la_gate la),
                   oj_byThisPhone := Some (la_byThisPhone la)\<rparr>
              | None \<Rightarrow>
                  if \<not> falsy (le_inAt e)
                  then (plain OffAlreadyIn refused)
                    \<lparr>oj_at := le_inAt e, oj_gate := le_inBy e, oj_byThisPhone := Some False\<rparr>
                  else if practice then plain OffPracticeOk VPractice
                  else plain OffAdmitted VAdmitted)"

definition clampOfflineTime :: "instant \<Rightarrow> instant \<Rightarrow> instant \<Rightarrow> instant" where
  "clampOfflineTime scannedAt opens now = min (max scannedAt opens) now"

section \<open>Facts\<close>

text \<open>What an admitting answer rests on.\<close>

lemma judgeOffline_admits:
  "oj_verdict (judgeOffline entry la now opens) = VAdmitted \<longleftrightarrow>
    (\<exists>e. entry = Some e \<and> le_status e = TicketIssued \<and> la = None \<and> falsy (le_inAt e) \<and> opens \<le> now)"
proof (cases entry)
  case (Some e)
  then show ?thesis
    by (cases "le_status e"; cases la) (auto simp: judgeOffline_def Let_def)
qed (simp add: judgeOffline_def Let_def)

lemma judgeOffline_never_undone: "oj_verdict (judgeOffline entry la now opens) \<noteq> VUndone"
proof (cases entry)
  case (Some e)
  then show ?thesis
    by (cases "le_status e"; cases la) (auto simp: judgeOffline_def Let_def)
qed (simp add: judgeOffline_def Let_def)

lemma judgeOffline_admitted:
  "oj_result (judgeOffline entry la now opens) = OffAdmitted \<longleftrightarrow>
    oj_verdict (judgeOffline entry la now opens) = VAdmitted"
proof (cases entry)
  case (Some e)
  then show ?thesis
    by (cases "le_status e"; cases la) (auto simp: judgeOffline_def Let_def)
qed (simp add: judgeOffline_def Let_def)

lemma clamp_bounds:
  "opens \<le> now \<Longrightarrow> opens \<le> clampOfflineTime t opens now \<and> clampOfflineTime t opens now \<le> now"
  by (auto simp: clampOfflineTime_def)

lemma clamp_inside: "opens \<le> t \<Longrightarrow> t \<le> now \<Longrightarrow> clampOfflineTime t opens now = t"
  by (simp add: clampOfflineTime_def)

lemma clamp_never_future: "clampOfflineTime t opens now \<le> now"
  by (simp add: clampOfflineTime_def)

end
