(* ===== verification/DoorStore.thy ===== *)
theory DoorStore
  imports DoorOffline
begin

text \<open>
  \<open>src/src/server/repositories/door.repository.ts\<close>: gate passes, the append-only scan log and
  the reads a door phone needs. Texts are ordered and folded by the database's collation,
  which is an argument where a query depends on it.
\<close>

section \<open>Rows\<close>

record door_ticket =
  dt_id :: uuid
  dt_code :: jstr
  dt_status :: ticket_status
  dt_attendeeName :: jstr
  dt_position :: int
  dt_orderId :: uuid
  dt_eventId :: uuid
  dt_eventTitle :: jstr
  dt_ticketTypeName :: jstr
  dt_orderQuantity :: int
  dt_checkedInAt :: "instant option"
  dt_checkedInBy :: "jstr option"
  dt_checkedInScanId :: "uuid option"
  dt_checkedInPassId :: "uuid option"
  dt_buyerPhoneLast3 :: "jstr option"

record door_search_row =
  sr_ticketId :: uuid
  sr_attendeeName :: jstr
  sr_ticketTypeName :: jstr
  sr_status :: ticket_status
  sr_checkedInAt :: "instant option"
  sr_checkedInBy :: "jstr option"
  sr_phoneOnFile :: bool

record pass_list_row =
  pl_pass :: door_pass_row
  pl_scans :: nat
  pl_offlineScans :: nat
  pl_admitted :: nat
  pl_searchAdmits :: nat
  pl_lastScanAt :: "instant option"

record recent_scan_row =
  rs_scan :: door_scan_row
  rs_attendeeName :: "jstr option"
  rs_ticketTypeName :: "jstr option"
  rs_stillCheckedInByThisScan :: bool

record conflict_row =
  cf_scanId :: uuid
  cf_gate :: jstr
  cf_result :: scan_result
  cf_scannedAt :: "instant option"
  cf_receivedAt :: instant
  cf_ticketId :: "uuid option"
  cf_orderId :: "uuid option"
  cf_attendeeName :: "jstr option"
  cf_ticketTypeName :: "jstr option"
  cf_priorCheckedInAt :: "instant option"
  cf_priorCheckedInBy :: "jstr option"

record race_decision_row =
  rd_scanId :: uuid
  rd_gate :: jstr
  rd_decision :: door_decision
  rd_decidedAt :: instant
  rd_scan :: door_scan_row
  rd_orderId :: "uuid option"
  rd_attendeeName :: "jstr option"
  rd_ticketTypeName :: "jstr option"

section \<open>Passes\<close>

definition PASS_CODE_UNIQUE :: string where "PASS_CODE_UNIQUE = ''door_passes_code_unique''"
definition SCAN_ID_UNIQUE :: string where "SCAN_ID_UNIQUE = ''door_scans_scan_id_unique''"

definition insertPass :: "door_pass_row \<Rightarrow> door_pass_row db_tx" where
  "insertPass row =
    mapError
      (\<lambda>err. if isUniqueViolation err PASS_CODE_UNIQUE then DoorPassCodeCollisionError
        else PgError err)
      (andThen (insert_door_passes [row]) (\<lambda>_. return_tx row))"

definition findPassByCode :: "jstr \<Rightarrow> db \<Rightarrow> door_pass_row option" where
  "findPassByCode code s = row_by dp_code code (doorPasses s)"

definition findPassById :: "uuid \<Rightarrow> db \<Rightarrow> door_pass_row option" where
  "findPassById i s = row_by dp_id i (doorPasses s)"

definition repo_revokePass :: "instant \<Rightarrow> uuid \<Rightarrow> door_pass_row option db_tx" where
  "repo_revokePass ts i =
    mapError PgError (andThen
      (update_door_passes (\<lambda>p. dp_id p = i \<and> dp_revokedAt p = None)
        (\<lambda>p. p\<lparr>dp_revokedAt := Some ts\<rparr>))
      (\<lambda>rows. return_tx (first_row rows)))"

text \<open>The share lock is the atomicity of the transaction; the answer is what it reads.\<close>

definition lockActivePass :: "uuid \<Rightarrow> bool db_tx" where
  "lockActivePass i =
    read_tx (\<lambda>s. filter (\<lambda>p. dp_id p = i \<and> dp_revokedAt p = None) (doorPasses s) \<noteq> [])"

definition max_instant :: "instant list \<Rightarrow> instant option" where
  "max_instant ts = (case ts of [] \<Rightarrow> None | t # r \<Rightarrow> Some (foldl max t r))"

definition repo_listPasses :: "uuid \<Rightarrow> db \<Rightarrow> pass_list_row list" where
  "repo_listPasses eventId s =
    map (\<lambda>p. let own = filter (\<lambda>d. ds_passId d = dp_id p) (doorScans s)
       in \<lparr>pl_pass = p, pl_scans = length own,
           pl_offlineScans = length (filter (\<lambda>d. ds_mode d = Offline) own),
           pl_admitted = length (filter (\<lambda>d. ds_result d = ScanAdmitted) own),
           pl_searchAdmits = length (filter (\<lambda>d. ds_result d = ScanAdmitted \<and> ds_method d = BySearch) own),
           pl_lastScanAt = max_instant (map ds_receivedAt own)\<rparr>)
      (sort_key dp_createdAt (filter (\<lambda>p. dp_eventId p = eventId) (doorPasses s)))"

section \<open>Scans\<close>

definition insertScan :: "door_scan_row \<Rightarrow> door_scan_row db_tx" where
  "insertScan row =
    mapError
      (\<lambda>err. if isUniqueViolation err SCAN_ID_UNIQUE then DoorScanIdTakenError (ds_scanId row)
        else PgError err)
      (andThen (insert_door_scans [row]) (\<lambda>_. return_tx row))"

definition findScanByScanId :: "uuid \<Rightarrow> db \<Rightarrow> door_scan_row option" where
  "findScanByScanId i s = row_by ds_scanId i (doorScans s)"

text \<open>\<open>right(phone, 3)\<close>\<close>

definition right_text :: "nat \<Rightarrow> jstr \<Rightarrow> jstr" where
  "right_text n s = drop (length s - n) s"

text \<open>The joins of one ticket; the scan that checked it in may not be logged (left join).\<close>

definition door_ticket_of :: "db \<Rightarrow> ticket_row \<Rightarrow> door_ticket option" where
  "door_ticket_of s t =
    (case (row_by tt_id (t_ticketTypeId t) (ticketTypes s), row_by o_id (t_orderId t) (orders s),
           row_by e_id (t_eventId t) (events s)) of
       (Some tt, Some r, Some e) \<Rightarrow>
         Some \<lparr>dt_id = t_id t, dt_code = t_code t, dt_status = t_status t,
           dt_attendeeName = t_attendeeName t, dt_position = t_position t,
           dt_orderId = t_orderId t, dt_eventId = t_eventId t, dt_eventTitle = e_title e,
           dt_ticketTypeName = tt_name tt, dt_orderQuantity = o_quantity r,
           dt_checkedInAt = t_checkedInAt t, dt_checkedInBy = t_checkedInBy t,
           dt_checkedInScanId = t_checkedInScanId t,
           dt_checkedInPassId =
             (case t_checkedInScanId t of None \<Rightarrow> None
              | Some i \<Rightarrow> map_option ds_passId (findScanByScanId i s)),
           dt_buyerPhoneLast3 = map_option (right_text 3) (o_buyerPhone r)\<rparr>
     | _ \<Rightarrow> None)"

definition findTicketByCode :: "jstr \<Rightarrow> db \<Rightarrow> door_ticket option" where
  "findTicketByCode code s =
    first_row (List.map_filter (door_ticket_of s) (filter (\<lambda>t. t_code t = code) (tickets s)))"

definition findTicketById :: "uuid \<Rightarrow> db \<Rightarrow> door_ticket option" where
  "findTicketById i s =
    first_row (List.map_filter (door_ticket_of s) (filter (\<lambda>t. t_id t = i) (tickets s)))"

section \<open>Reads of the door phone\<close>

text \<open>
  \<open>ILIKE '%term%'\<close> with the wildcards of the term escaped: the folded term is a block of the
  folded name. \<open>rank\<close> and \<open>fold_case\<close> are the database's collation.
\<close>

definition searchTickets ::
  "(jstr \<Rightarrow> nat) \<Rightarrow> (jstr \<Rightarrow> jstr) \<Rightarrow> uuid \<Rightarrow> jstr \<Rightarrow> jstr option \<Rightarrow> nat \<Rightarrow> db
    \<Rightarrow> door_search_row list" where
  "searchTickets rank fold_case eventId name code limit s =
    take limit (map (\<lambda>(t, tt, r).
        \<lparr>sr_ticketId = t_id t, sr_attendeeName = t_attendeeName t, sr_ticketTypeName = tt_name tt,
         sr_status = t_status t, sr_checkedInAt = t_checkedInAt t,
         sr_checkedInBy = t_checkedInBy t, sr_phoneOnFile = (o_buyerPhone r \<noteq> None)\<rparr>)
      (sort_key (\<lambda>(t, tt, r). rank (t_attendeeName t)) (sort_key (\<lambda>(t, tt, r). t_position t)
        (List.map_filter
          (\<lambda>t. case (row_by tt_id (t_ticketTypeId t) (ticketTypes s),
                 row_by o_id (t_orderId t) (orders s)) of
               (Some tt, Some r) \<Rightarrow> Some (t, tt, r) | _ \<Rightarrow> None)
          (filter (\<lambda>t. t_eventId t = eventId \<and>
             (includes_text (fold_case (t_attendeeName t)) (fold_case name) \<or>
              (case code of None \<Rightarrow> False | Some c \<Rightarrow> t_code t = c)))
            (tickets s))))))"

text \<open>A scan's ticket, when it is a ticket of the scan's own event.\<close>

definition own_event_ticket :: "db \<Rightarrow> door_scan_row \<Rightarrow> ticket_row option" where
  "own_event_ticket s d =
    (case ds_ticketId d of
       None \<Rightarrow> None
     | Some i \<Rightarrow> first_row (filter (\<lambda>t. t_id t = i \<and> t_eventId t = ds_eventId d) (tickets s)))"

definition ticket_type_name :: "db \<Rightarrow> ticket_row \<Rightarrow> jstr option" where
  "ticket_type_name s t = map_option tt_name (row_by tt_id (t_ticketTypeId t) (ticketTypes s))"

definition scan_when :: "door_scan_row \<Rightarrow> instant" where
  "scan_when d =
    (if ds_mode d = Offline
     then (case ds_scannedAt d of Some t \<Rightarrow> t | None \<Rightarrow> ds_receivedAt d)
     else ds_receivedAt d)"

definition recentScans :: "uuid \<Rightarrow> nat \<Rightarrow> db \<Rightarrow> recent_scan_row list" where
  "recentScans passId limit s =
    map (\<lambda>d. let t = own_event_ticket s d
       in \<lparr>rs_scan = d, rs_attendeeName = map_option t_attendeeName t,
           rs_ticketTypeName = Option.bind t (ticket_type_name s),
           rs_stillCheckedInByThisScan =
             (Option.bind t t_checkedInScanId = Some (ds_scanId d))\<rparr>)
      (take limit (sort_key (\<lambda>d. - scan_when d) (sort_key (\<lambda>d. - ds_receivedAt d)
        (filter (\<lambda>d. ds_passId d = passId) (doorScans s)))))"

definition repo_offlineList :: "(jstr \<Rightarrow> nat) \<Rightarrow> uuid \<Rightarrow> db \<Rightarrow> (ticket_row \<times> ticket_type_row \<times> order_row) list" where
  "repo_offlineList rank eventId s =
    sort_key (\<lambda>(t, tt, r). rank (t_attendeeName t)) (sort_key (\<lambda>(t, tt, r). t_position t)
      (List.map_filter
        (\<lambda>t. case (row_by tt_id (t_ticketTypeId t) (ticketTypes s),
               row_by o_id (t_orderId t) (orders s)) of
             (Some tt, Some r) \<Rightarrow> Some (t, tt, r) | _ \<Rightarrow> None)
        (filter (\<lambda>t. t_eventId t = eventId) (tickets s))))"

text \<open>An offline admit the server did not repeat, unless the request it replaced admitted.\<close>

definition double_entry :: "db \<Rightarrow> uuid \<Rightarrow> door_scan_row \<Rightarrow> bool" where
  "double_entry s eventId d \<longleftrightarrow>
    ds_eventId d = eventId \<and> ds_mode d = Offline \<and> ds_doorVerdict d = Some VAdmitted \<and>
    ds_result d \<noteq> ScanAdmitted \<and>
    map_option ds_result (Option.bind (ds_supersedesScanId d) (\<lambda>i. findScanByScanId i s))
      \<noteq> Some ScanAdmitted"

definition repo_offlineConflicts :: "uuid \<Rightarrow> db \<Rightarrow> conflict_row list" where
  "repo_offlineConflicts eventId s =
    List.map_filter (\<lambda>d. case findPassById (ds_passId d) s of
        None \<Rightarrow> None
      | Some p \<Rightarrow> (let t = own_event_ticket s d
         in Some \<lparr>cf_scanId = ds_scanId d, cf_gate = dp_label p, cf_result = ds_result d,
              cf_scannedAt = ds_scannedAt d, cf_receivedAt = ds_receivedAt d,
              cf_ticketId = ds_ticketId d, cf_orderId = map_option t_orderId t,
              cf_attendeeName = map_option t_attendeeName t,
              cf_ticketTypeName = Option.bind t (ticket_type_name s),
              cf_priorCheckedInAt = ds_priorCheckedInAt d,
              cf_priorCheckedInBy = ds_priorCheckedInBy d\<rparr>))
      (sort_key ds_receivedAt (filter (double_entry s eventId) (doorScans s)))"

definition checkInsSince :: "uuid \<Rightarrow> instant \<Rightarrow> nat \<Rightarrow> db \<Rightarrow> (uuid \<times> instant \<times> jstr option) list" where
  "checkInsSince eventId since limit s =
    take limit (sort_key (\<lambda>(i, a, g). a)
      (List.map_filter (\<lambda>t. map_option (\<lambda>a. (t_id t, a, t_checkedInBy t)) (t_checkedInAt t))
        (filter (\<lambda>t. t_eventId t = eventId \<and>
            (case t_checkedInAt t of None \<Rightarrow> False | Some a \<Rightarrow> since < a)) (tickets s))))"

definition door_counts :: "uuid \<Rightarrow> db \<Rightarrow> nat \<times> nat" where
  "door_counts eventId s =
    (length (filter (\<lambda>t. t_eventId t = eventId \<and> t_status t = TicketIssued) (tickets s)),
     length (filter (\<lambda>t. t_eventId t = eventId \<and> t_checkedInAt t \<noteq> None) (tickets s)))"

section \<open>Decisions and revocation\<close>

text \<open>\<open>ON CONFLICT (scan_id) DO NOTHING\<close>\<close>

definition insertDecision :: "door_decision_row \<Rightarrow> bool db_tx" where
  "insertDecision row s =
    (if row_by dd_scanId (dd_scanId row) (doorDecisions s) \<noteq> None then Inr (False, s)
     else mapError PgError
       (andThen (insert_door_decisions [row]) (\<lambda>_. return_tx True)) s)"

definition repo_raceDecisions :: "uuid \<Rightarrow> db \<Rightarrow> race_decision_row list" where
  "repo_raceDecisions eventId s =
    List.map_filter (\<lambda>x. case (findScanByScanId (dd_scanId x) s, findPassById (dd_passId x) s) of
        (Some d, Some p) \<Rightarrow> (let t = own_event_ticket s d
          in Some \<lparr>rd_scanId = dd_scanId x, rd_gate = dp_label p, rd_decision = dd_decision x,
               rd_decidedAt = dd_decidedAt x, rd_scan = d, rd_orderId = map_option t_orderId t,
               rd_attendeeName = map_option t_attendeeName t,
               rd_ticketTypeName = Option.bind t (ticket_type_name s)\<rparr>)
      | _ \<Rightarrow> None)
      (sort_key dd_decidedAt (filter (\<lambda>x. dd_eventId x = eventId) (doorDecisions s)))"

record standing_check_in =
  sc_id :: uuid
  sc_code :: jstr
  sc_orderId :: uuid
  sc_scanId :: uuid
  sc_at :: "instant option"

definition ticketsCheckedInByPass :: "uuid \<Rightarrow> db \<Rightarrow> standing_check_in list" where
  "ticketsCheckedInByPass passId s =
    List.map_filter
      (\<lambda>t. case Option.bind (t_checkedInScanId t) (\<lambda>i. findScanByScanId i s) of
           None \<Rightarrow> None
         | Some d \<Rightarrow> if ds_passId d = passId \<and> t_checkedInAt t \<noteq> None
             then Some \<lparr>sc_id = t_id t, sc_code = t_code t, sc_orderId = t_orderId t,
               sc_scanId = ds_scanId d, sc_at = t_checkedInAt t\<rparr>
             else None)
      (tickets s)"

section \<open>Facts\<close>

lemmas door_repo_defs =
  insertPass_def repo_revokePass_def lockActivePass_def insertScan_def

lemma insertDecision_keeps [keeps_intros]: "keeps db_ok (insertDecision row)"
proof (rule keepsI)
  fix s x s' assume "db_ok s" "insertDecision row s = Inr (x, s')"
  moreover have "keeps db_ok (mapError PgError (andThen (insert_door_decisions [row]) (\<lambda>_. return_tx True)))"
    by (intro keeps_intros)
  ultimately show "db_ok s'" by (auto simp: insertDecision_def split: if_splits dest: keepsD)
qed

lemma door_repo_keeps [keeps_intros]:
  "keeps db_ok (insertPass row)" "keeps db_ok (repo_revokePass ts i)"
  "keeps db_ok (lockActivePass i)" "keeps db_ok (insertScan sc)"
  unfolding door_repo_defs by (intro keeps_intros; simp)+

lemma lockActivePass_Inr [tx_simps]:
  "lockActivePass i s = Inr (b, s') \<longleftrightarrow>
    b = (\<exists>p \<in> set (doorPasses s). dp_id p = i \<and> dp_revokedAt p = None) \<and> s' = s"
  by (auto simp: lockActivePass_def tx_simps filter_empty_conv)

lemma insertScan_Inr [tx_simps]:
  "insertScan row s = Inr (r, s') \<longleftrightarrow>
    door_scans_violation s (doorScans s @ [row]) = None \<and> r = row \<and>
    s' = s\<lparr>doorScans := doorScans s @ [row]\<rparr>"
  by (auto simp: insertScan_def tx_simps)

lemma insertPass_Inr [tx_simps]:
  "insertPass row s = Inr (r, s') \<longleftrightarrow>
    door_passes_violation s (doorPasses s @ [row]) = None \<and> r = row \<and>
    s' = s\<lparr>doorPasses := doorPasses s @ [row]\<rparr>"
  by (auto simp: insertPass_def tx_simps)

text \<open>On an accepted store the joins of a ticket never fail.\<close>

lemma references_None_D:
  "references_rows n key ks rs = None \<Longrightarrow> r \<in> set rs \<Longrightarrow> key r = Some k \<Longrightarrow> k \<in> set ks"
  by (auto simp: references_rows_None)

lemma row_by_in: "k \<in> key ` set rs \<Longrightarrow> \<exists>r. row_by key k rs = Some r"
  using row_by_None [of key k rs] by (cases "row_by key k rs") auto

lemma ticket_joins:
  assumes "db_ok s" "t \<in> set (tickets s)"
  shows "\<exists>tt r e. row_by tt_id (t_ticketTypeId t) (ticketTypes s) = Some tt \<and>
    row_by o_id (t_orderId t) (orders s) = Some r \<and> row_by e_id (t_eventId t) (events s) = Some e"
proof -
  have "tickets_violation s (tickets s) = None" using assms(1) by (rule db_ok_tickets)
  then have "t_ticketTypeId t \<in> tt_id ` set (ticketTypes s)" "t_orderId t \<in> o_id ` set (orders s)"
    "t_eventId t \<in> e_id ` set (events s)"
    using assms(2) by (auto simp: tickets_violation_def violation_None)
  then show ?thesis using row_by_in by metis
qed

lemma findTicketById_eq:
  assumes "db_ok s"
  shows "findTicketById i s = Option.bind (ticket_findById i s) (door_ticket_of s)"
proof (cases "ticket_findById i s")
  case None
  then have "filter (\<lambda>t. t_id t = i) (tickets s) = []"
    by (auto simp: ticket_findById_def row_by_None filter_empty_conv)
  with None show ?thesis by (simp add: findTicketById_def map_filter_def)
next
  case (Some t)
  have "distinct (map t_id (tickets s))"
    using db_ok_tickets [OF assms] by (auto simp: tickets_violation_def violation_None)
  from filter_key [OF this, of i "\<lambda>_. True"] Some have "filter (\<lambda>t. t_id t = i) (tickets s) = [t]"
    by (simp add: ticket_findById_def)
  with Some show ?thesis
    by (auto simp: findTicketById_def map_filter_def split: option.splits)
qed

lemma findTicketById_Some:
  assumes "db_ok s" "ticket_findById i s = Some t"
  shows "\<exists>d. findTicketById i s = Some d \<and> door_ticket_of s t = Some d \<and> dt_id d = i \<and>
    dt_code d = t_code t \<and> dt_status d = t_status t \<and> dt_eventId d = t_eventId t \<and>
    dt_orderId d = t_orderId t \<and> dt_attendeeName d = t_attendeeName t \<and>
    dt_checkedInAt d = t_checkedInAt t \<and>
    dt_checkedInBy d = t_checkedInBy t \<and> dt_checkedInScanId d = t_checkedInScanId t"
proof -
  have t: "t \<in> set (tickets s)" "t_id t = i"
    using assms(2) by (auto simp: ticket_findById_def dest: row_by_Some)
  from ticket_joins [OF assms(1) t(1)] show ?thesis
    using assms t(2) by (auto simp: findTicketById_eq door_ticket_of_def)
qed

lemma findTicketById_None: "ticket_findById i s = None \<Longrightarrow> findTicketById i s = None"
proof -
  assume "ticket_findById i s = None"
  then have "filter (\<lambda>t. t_id t = i) (tickets s) = []"
    by (auto simp: ticket_findById_def row_by_None filter_empty_conv)
  then show ?thesis by (simp add: findTicketById_def map_filter_def)
qed

end
