(* ===== verification/Door.thy ===== *)
theory Door
  imports DoorStore Orders
begin

text \<open>
  \<open>src/src/server/services/door.service.ts\<close>: gate passes, scanning, undoing and the reads of a
  door phone. Announcements to the gate relay happen after the commit; they are part of each
  result. \<open>now\<close> is the server's clock during the request, \<open>ts\<close> the transaction's \<open>now()\<close>,
  \<open>rcv\<close> the \<open>clock_timestamp()\<close> a scan row is stamped with.
\<close>

definition PASS_CODE_ATTEMPTS :: nat where "PASS_CODE_ATTEMPTS = 3"
definition DOOR_SEARCH_LIMIT :: nat where "DOOR_SEARCH_LIMIT = 10"
definition DOOR_RECENT_SCANS :: nat where "DOOR_RECENT_SCANS = 10"
definition DOOR_CHECKINS_LIMIT :: nat where "DOOR_CHECKINS_LIMIT = 500"
definition DOOR_DECISION_WINDOW_MS :: int where "DOOR_DECISION_WINDOW_MS = 10 * 60000"
definition UNKNOWN_TICKET_ID :: jstr where "UNKNOWN_TICKET_ID = lit ''<unknown-ticket-id>''"

section \<open>Requests and answers\<close>

record door_context =
  cx_pass :: door_pass_row
  cx_event :: event_row
  cx_window :: door_window
  cx_practice :: bool

record offline_scan =
  os_verdict :: door_verdict
  os_supersedesScanId :: "uuid option"

record scan_item =
  it_scanId :: uuid
  it_input :: "jstr option"
  it_ticketId :: "uuid option"
  it_phoneLast3 :: "jstr option"
  it_method :: scan_method
  it_scannedAt :: "instant option"
  it_offline :: "offline_scan option"

datatype result_kind = Logged scan_result | ScanIdConflict | Rescan

record scan_answer =
  an_scanId :: uuid
  an_result :: result_kind
  an_practice :: bool
  an_ticket :: "(jstr \<times> jstr \<times> int \<times> int) option"
  an_at :: "instant option"
  an_gate :: "jstr option"
  an_byThisPass :: "bool option"
  an_secondsAgo :: "int option"
  an_otherEventTitle :: "jstr option"
  an_replayed :: bool

datatype announcement =
    AnnounceIn uuid instant jstr
  | AnnounceUndo uuid instant
  | AnnounceRevoke uuid instant

text \<open>An answer with only the fields every answer has.\<close>

definition plain_answer :: "uuid \<Rightarrow> result_kind \<Rightarrow> bool \<Rightarrow> scan_answer" where
  "plain_answer i k practice =
    \<lparr>an_scanId = i, an_result = k, an_practice = practice, an_ticket = None, an_at = None,
     an_gate = None, an_byThisPass = None, an_secondsAgo = None, an_otherEventTitle = None,
     an_replayed = False\<rparr>"

text \<open>\<open>...describe(ticket)\<close>: the name, the type, the position and the order's size.\<close>

definition describe :: "door_ticket \<Rightarrow> (jstr \<times> jstr \<times> int \<times> int) option" where
  "describe t =
    Some (dt_attendeeName t, dt_ticketTypeName t, dt_position t, dt_orderQuantity t)"

definition scanTime :: "door_scan_row \<Rightarrow> instant" where
  "scanTime d = (case (ds_mode d, ds_scannedAt d) of (Offline, Some t) \<Rightarrow> t | _ \<Rightarrow> ds_receivedAt d)"

text \<open>\<open>Math.max(0, Math.floor(ms / 1000))\<close>\<close>

definition whole_seconds :: "int \<Rightarrow> int" where
  "whole_seconds ms = max 0 (ms div 1000)"

definition secondsSince :: "instant \<Rightarrow> instant \<Rightarrow> int" where
  "secondsSince now at = whole_seconds (now - at)"

datatype pass_state = PassPractice | PassActive | PassPaused | PassEnded | PassRevoked

definition passState :: "door_pass_row \<Rightarrow> event_row \<Rightarrow> door_window \<Rightarrow> instant \<Rightarrow> pass_state" where
  "passState p event w at =
    (if dp_revokedAt p \<noteq> None then PassRevoked
     else if at > validUntil w then PassEnded
     else if e_status event = Draft then PassPaused
     else if at < validFrom w then PassPractice
     else PassActive)"

definition event_window :: "event_row \<Rightarrow> door_window" where
  "event_window e = doorWindow (e_startsAt e) (e_endsAt e)"

section \<open>Replaying a scan\<close>

text \<open>A falsy text is an absent one: \<open>item.input ?? ''\<close> and \<open>if (item.ticketId)\<close>.\<close>

definition raw_input :: "scan_item \<Rightarrow> jstr" where
  "raw_input item = (case it_input item of None \<Rightarrow> [] | Some x \<Rightarrow> x)"

definition sameScan :: "door_context \<Rightarrow> scan_item \<Rightarrow> door_scan_row \<Rightarrow> bool" where
  "sameScan ctx item stored \<longleftrightarrow>
    ds_passId stored = dp_id (cx_pass ctx) \<and>
    map_option os_verdict (it_offline item) = ds_doorVerdict stored \<and>
    (case it_ticketId item of
       Some i \<Rightarrow> ds_ticketId stored = Some i \<or>
         (ds_ticketId stored = None \<and> ds_input stored = UNKNOWN_TICKET_ID)
     | None \<Rightarrow> ds_input stored = scanLogInput (raw_input item) (parseScanToken (raw_input item)))"

definition replay ::
  "instant \<Rightarrow> door_context \<Rightarrow> scan_item \<Rightarrow> door_scan_row \<Rightarrow> db \<Rightarrow> scan_answer" where
  "replay now ctx item stored snap =
    (let practice = (ds_mode stored = Practice);
         plain = plain_answer (ds_scanId stored) (Logged (ds_result stored)) practice
     in if \<not> sameScan ctx item stored
        then plain_answer (it_scanId item) ScanIdConflict practice
        else case Option.bind (ds_ticketId stored) (\<lambda>i. findTicketById i snap) of
            None \<Rightarrow> plain
          | Some ticket \<Rightarrow>
              if ds_result stored = ScanWrongEvent
              then plain\<lparr>an_otherEventTitle := Some (dt_eventTitle ticket)\<rparr>
              else let described = plain\<lparr>an_ticket := describe ticket, an_replayed := True\<rparr>
                in if ds_result stored = ScanAdmitted
                   then (if dt_checkedInScanId ticket \<noteq> Some (ds_scanId stored)
                      then plain_answer (ds_scanId stored) Rescan practice
                      else let at = (case dt_checkedInAt ticket of Some a \<Rightarrow> a
                                     | None \<Rightarrow> ds_receivedAt stored)
                        in described\<lparr>an_at := Some at, an_gate := Some (dp_label (cx_pass ctx)),
                             an_secondsAgo := Some (secondsSince now at)\<rparr>)
                   else case (ds_result stored, ds_priorCheckedInAt stored) of
                       (ScanAlreadyIn, Some prior) \<Rightarrow>
                         described\<lparr>an_at := Some prior, an_gate := ds_priorCheckedInBy stored,
                           an_byThisPass :=
                             Some (dt_checkedInPassId ticket = Some (dp_id (cx_pass ctx)) \<and>
                               dt_checkedInAt ticket = Some prior),
                           an_secondsAgo := Some (whole_seconds (ds_receivedAt stored - prior))\<rparr>
                     | _ \<Rightarrow> described)"

section \<open>A fresh scan\<close>

text \<open>The ticket a scan names, and what is logged as its input.\<close>

definition scanned_ticket :: "scan_item \<Rightarrow> db \<Rightarrow> door_ticket option \<times> jstr" where
  "scanned_ticket item snap =
    (case it_ticketId item of
       Some i \<Rightarrow> (let t = findTicketById i snap
         in (t, case t of Some d \<Rightarrow> dt_code d | None \<Rightarrow> UNKNOWN_TICKET_ID))
     | None \<Rightarrow> (let code = parseScanToken (raw_input item)
         in (Option.bind code (\<lambda>c. findTicketByCode c snap), scanLogInput (raw_input item) code)))"

definition offline_time :: "instant \<Rightarrow> door_context \<Rightarrow> scan_item \<Rightarrow> instant option" where
  "offline_time now ctx item =
    (case (it_offline item, it_scannedAt item) of
       (Some _, Some t) \<Rightarrow> Some (clampOfflineTime t (validFrom (cx_window ctx)) now)
     | _ \<Rightarrow> None)"

definition scan_practice :: "door_context \<Rightarrow> scan_item \<Rightarrow> bool" where
  "scan_practice ctx item \<longleftrightarrow>
    cx_practice ctx \<or> map_option os_verdict (it_offline item) = Some VPractice"

definition scan_row ::
  "instant \<Rightarrow> instant \<Rightarrow> door_context \<Rightarrow> scan_item \<Rightarrow> door_ticket option \<Rightarrow> jstr \<Rightarrow> scan_result
    \<Rightarrow> door_scan_row" where
  "scan_row now rcv ctx item ticket inp res =
    \<lparr>ds_scanId = it_scanId item, ds_passId = dp_id (cx_pass ctx), ds_eventId = e_id (cx_event ctx),
     ds_ticketId = map_option dt_id ticket, ds_input = inp, ds_result = res,
     ds_method = it_method item,
     ds_mode = (if it_offline item \<noteq> None then Offline
       else if scan_practice ctx item then Practice else Online),
     ds_priorCheckedInAt = None, ds_priorCheckedInBy = None,
     ds_scannedAt = (case offline_time now ctx item of Some t \<Rightarrow> Some t | None \<Rightarrow> it_scannedAt item),
     ds_receivedAt = rcv, ds_doorVerdict = map_option os_verdict (it_offline item),
     ds_supersedesScanId = Option.bind (it_offline item) os_supersedesScanId\<rparr>"

definition method_text :: "scan_method \<Rightarrow> jstr" where
  "method_text m = (case m of ByQr \<Rightarrow> lit ''qr'' | ByTyped \<Rightarrow> lit ''typed'' | BySearch \<Rightarrow> lit ''search'')"

definition check_in_note :: "door_ticket \<Rightarrow> jstr \<Rightarrow> scan_item \<Rightarrow> jstr" where
  "check_in_note ticket gate item =
    dt_code ticket @ lit '' '' @ [183] @ lit '' '' @ gate @ lit '' '' @ [183] @ lit '' '' @
    method_text (it_method item) @
    (if it_offline item \<noteq> None then lit '' '' @ [183] @ lit '' offline'' else [])"

text \<open>
  What may commit between two statements of a READ COMMITTED transaction: the admitting
  transaction re-reads the ticket after its conditional UPDATE missed, and another gate may
  have undone the check-in meanwhile.
\<close>

definition meanwhile :: "(db \<Rightarrow> db) \<Rightarrow> unit db_tx" where
  "meanwhile e s = Inr ((), e s)"

definition admits_now :: "door_ticket option \<Rightarrow> bool" where
  "admits_now t =
    (case t of None \<Rightarrow> False
     | Some d \<Rightarrow> dt_status d = TicketIssued \<and> dt_checkedInAt d = None)"

text \<open>
  The UPDATE, and its one retry; the second component is the re-read that is still current.
\<close>

definition admit_attempts ::
  "(nat \<Rightarrow> db \<Rightarrow> db) \<Rightarrow> instant \<Rightarrow> uuid \<Rightarrow> jstr \<Rightarrow> uuid \<Rightarrow> instant option
    \<Rightarrow> (ticket_row option \<times> door_ticket option) db_tx" where
  "admit_attempts env ts i gate scanId at =
    andThen (ticket_checkIn ts i gate scanId at) (\<lambda>admitted.
    if admitted \<noteq> None then return_tx (admitted, None)
    else andThen (meanwhile (env 0)) (\<lambda>_.
         andThen (read_tx (findTicketById i)) (\<lambda>current.
         if admits_now current
         then andThen (meanwhile (env 1)) (\<lambda>_.
              andThen (ticket_checkIn ts i gate scanId at) (\<lambda>again.
              return_tx (again, None)))
         else return_tx (None, current))))"

text \<open>The two ends of the transaction: the admission with its audit row, and the refusal.\<close>

definition record_admission ::
  "instant \<Rightarrow> instant \<Rightarrow> instant \<Rightarrow> door_context \<Rightarrow> scan_item \<Rightarrow> door_ticket \<Rightarrow> jstr \<Rightarrow> ticket_row
    \<Rightarrow> scan_answer db_tx" where
  "record_admission ts now rcv ctx item ticket inp t =
    (let gate = dp_label (cx_pass ctx)
     in andThen (order_insertEvent
          (audit ts (dt_orderId ticket) (lit ''door:'' @ gate) (lit ''ticket.checked_in'')
            None None (check_in_note ticket gate item))) (\<lambda>_.
        andThen (insertScan (scan_row now rcv ctx item (Some ticket) inp ScanAdmitted)) (\<lambda>_.
        return_tx ((plain_answer (it_scanId item) (Logged ScanAdmitted) (scan_practice ctx item))
          \<lparr>an_ticket := Some (t_attendeeName t, dt_ticketTypeName ticket, dt_position ticket,
             dt_orderQuantity ticket),
           an_at := t_checkedInAt t, an_gate := Some gate\<rparr>))))"

definition record_refusal ::
  "instant \<Rightarrow> instant \<Rightarrow> door_context \<Rightarrow> scan_item \<Rightarrow> door_ticket \<Rightarrow> jstr \<Rightarrow> door_ticket option
    \<Rightarrow> scan_answer db_tx" where
  "record_refusal now rcv ctx item ticket inp latest =
    (let log = scan_row now rcv ctx item (Some ticket) inp;
         plain = (\<lambda>r. plain_answer (it_scanId item) (Logged r) (scan_practice ctx item));
         cancelled = andThen (insertScan (log ScanCancelled)) (\<lambda>_.
           return_tx ((plain ScanCancelled)\<lparr>an_ticket := describe ticket\<rparr>))
     in case latest of
          None \<Rightarrow> cancelled
        | Some l \<Rightarrow>
            if dt_status l = TicketCancelled then cancelled
            else andThen (insertScan ((log ScanAlreadyIn)
                   \<lparr>ds_priorCheckedInAt := dt_checkedInAt l,
                    ds_priorCheckedInBy := dt_checkedInBy l\<rparr>)) (\<lambda>_.
                 return_tx ((plain ScanAlreadyIn)
                   \<lparr>an_ticket := describe l, an_at := dt_checkedInAt l, an_gate := dt_checkedInBy l,
                    an_byThisPass := Some (dt_checkedInPassId l = Some (dp_id (cx_pass ctx))),
                    an_secondsAgo := map_option (secondsSince now) (dt_checkedInAt l)\<rparr>)))"

definition admit_tx ::
  "(nat \<Rightarrow> db \<Rightarrow> db) \<Rightarrow> instant \<Rightarrow> instant \<Rightarrow> instant \<Rightarrow> door_context \<Rightarrow> scan_item \<Rightarrow> door_ticket
    \<Rightarrow> jstr \<Rightarrow> scan_answer db_tx" where
  "admit_tx env ts now rcv ctx item ticket inp =
    andThen (lockActivePass (dp_id (cx_pass ctx))) (\<lambda>active.
    andThen (require_tx active (DoorPassRevokedError (dp_id (cx_pass ctx)))) (\<lambda>_.
    andThen (admit_attempts env ts (dt_id ticket) (dp_label (cx_pass ctx)) (it_scanId item)
      (offline_time now ctx item)) (\<lambda>(admitted, current).
    case admitted of
      Some t \<Rightarrow> record_admission ts now rcv ctx item ticket inp t
    | None \<Rightarrow>
        andThen (if current \<noteq> None then return_tx current
                 else andThen (meanwhile (env 2)) (\<lambda>_. read_tx (findTicketById (dt_id ticket))))
          (\<lambda>latest. record_refusal now rcv ctx item ticket inp latest))))"

text \<open>The answer a scan that checks nothing in would get.\<close>

definition would_answer :: "bool \<Rightarrow> door_ticket \<Rightarrow> scan_result" where
  "would_answer practice t =
    (if dt_status t = TicketCancelled then ScanCancelled
     else if dt_checkedInAt t \<noteq> None then ScanAlreadyIn
     else if practice then ScanPracticeOk else ScanTurnedAway)"

definition fresh_scan ::
  "db \<Rightarrow> (nat \<Rightarrow> db \<Rightarrow> db) \<Rightarrow> instant \<Rightarrow> instant \<Rightarrow> instant \<Rightarrow> door_context \<Rightarrow> scan_item
    \<Rightarrow> (scan_answer \<times> announcement list) db_tx" where
  "fresh_scan snap env ts now rcv ctx item =
    (let practice = scan_practice ctx item;
         plain = (\<lambda>r. plain_answer (it_scanId item) (Logged r) practice)
     in case scanned_ticket item snap of
          (None, inp) \<Rightarrow>
            andThen (insertScan (scan_row now rcv ctx item None inp ScanUnknown)) (\<lambda>_.
            return_tx (plain ScanUnknown, []))
        | (Some ticket, inp) \<Rightarrow>
            let log = scan_row now rcv ctx item (Some ticket) inp
            in if dt_eventId ticket \<noteq> e_id (cx_event ctx)
               then andThen (insertScan (log ScanWrongEvent)) (\<lambda>_.
                    return_tx ((plain ScanWrongEvent)
                      \<lparr>an_otherEventTitle := Some (dt_eventTitle ticket)\<rparr>, []))
               else if it_method item = BySearch \<and> dt_buyerPhoneLast3 ticket \<noteq> None \<and>
                       it_phoneLast3 item \<noteq> dt_buyerPhoneLast3 ticket
               then andThen (insertScan (log ScanPhoneMismatch)) (\<lambda>_.
                    return_tx ((plain ScanPhoneMismatch)\<lparr>an_ticket := describe ticket\<rparr>, []))
               else if practice \<or>
                       (it_offline item \<noteq> None \<and>
                        map_option os_verdict (it_offline item) \<noteq> Some VAdmitted)
               then (let would = would_answer practice ticket;
                         is_in = (would = ScanAlreadyIn)
                     in andThen (insertScan ((log would)
                          \<lparr>ds_priorCheckedInAt := (if is_in then dt_checkedInAt ticket else None),
                           ds_priorCheckedInBy := (if is_in then dt_checkedInBy ticket else None)\<rparr>))
                        (\<lambda>_. return_tx ((plain would)
                          \<lparr>an_ticket := describe ticket,
                           an_at := (if is_in then dt_checkedInAt ticket else None),
                           an_gate := (if is_in then dt_checkedInBy ticket else None)\<rparr>, [])))
               else andThen (admit_tx env ts now rcv ctx item ticket inp) (\<lambda>answer.
                    return_tx (answer,
                      if an_result answer = Logged ScanAdmitted
                      then [AnnounceIn (dt_id ticket)
                             (case an_at answer of Some a \<Rightarrow> a | None \<Rightarrow> now)
                             (dp_label (cx_pass ctx))]
                      else [])))"

text \<open>
  One scan, idempotent by its id. \<open>after\<close> is the store in which the loser of a race between
  a request and its retry looks the winner's row up.
\<close>

definition scan ::
  "db \<Rightarrow> (nat \<Rightarrow> db \<Rightarrow> db) \<Rightarrow> db \<Rightarrow> instant \<Rightarrow> instant \<Rightarrow> instant \<Rightarrow> door_context \<Rightarrow> scan_item
    \<Rightarrow> (scan_answer \<times> announcement list) db_tx" where
  "scan snap env after ts now rcv ctx item s =
    (case findScanByScanId (it_scanId item) snap of
       Some stored \<Rightarrow> Inr ((replay now ctx item stored snap, []), s)
     | None \<Rightarrow>
         (case fresh_scan snap env ts now rcv ctx item s of
            Inr r \<Rightarrow> Inr r
          | Inl e \<Rightarrow>
              (case e of
                 DoorScanIdTakenError _ \<Rightarrow>
                   (case findScanByScanId (it_scanId item) after of
                      Some stored \<Rightarrow> Inr ((replay now ctx item stored after, []), s)
                    | None \<Rightarrow> Inl e)
               | _ \<Rightarrow> Inl e)))"

text \<open>
  \<open>scanBatch\<close>: one after another; a scan id met before in the batch gets the same answer. A
  scan that throws ends the request, and the scans before it stay committed.
\<close>

fun scan_batch ::
  "(scan_item \<Rightarrow> (scan_answer \<times> announcement list) db_tx) \<Rightarrow> scan_item list
    \<Rightarrow> (uuid \<rightharpoonup> scan_answer) \<Rightarrow> db
    \<Rightarrow> (app_error option \<times> scan_answer list \<times> announcement list) \<times> db" where
  "scan_batch run [] seen s = ((None, [], []), s)"
| "scan_batch run (item # items) seen s =
    (case seen (it_scanId item) of
       Some r \<Rightarrow>
         (case scan_batch run items seen s of
            ((e, rs, ann), s') \<Rightarrow> ((e, r # rs, ann), s'))
     | None \<Rightarrow>
         (case run item s of
            Inl e \<Rightarrow> ((Some e, [], []), s)
          | Inr ((r, ann), s1) \<Rightarrow>
              (case scan_batch run items (seen(it_scanId item \<mapsto> r)) s1 of
                 ((e, rs, anns), s') \<Rightarrow> ((e, r # rs, ann @ anns), s'))))"

definition scanBatch ::
  "(scan_item \<Rightarrow> (scan_answer \<times> announcement list) db_tx) \<Rightarrow> scan_item list \<Rightarrow> db
    \<Rightarrow> (app_error option \<times> scan_answer list \<times> announcement list) \<times> db" where
  "scanBatch run items = scan_batch run items Map.empty"

end
