(* ===== verification/DoorDesk.thy ===== *)
theory DoorDesk
  imports Door
begin

text \<open>
  The rest of \<open>src/src/server/services/door.service.ts\<close>: creating, revoking and authenticating
  gate passes, undoing check-ins, the door phone's reads, and answering a refused scan.
\<close>

section \<open>Gate passes\<close>

definition pass_collision :: "app_error \<Rightarrow> bool" where
  "pass_collision e = (case e of DoorPassCodeCollisionError \<Rightarrow> True | _ \<Rightarrow> False)"

definition createPass ::
  "db \<Rightarrow> instant \<Rightarrow> instant \<Rightarrow> (nat \<Rightarrow> uuid) \<Rightarrow> (nat \<Rightarrow> jstr) \<Rightarrow> uuid \<Rightarrow> jstr \<Rightarrow> jstr
    \<Rightarrow> door_pass_row db_tx" where
  "createPass snap ts now ids codes eventId label actor =
    andThen (non_null (event_findById eventId snap) (EventNotFoundError eventId)) (\<lambda>event.
    andThen (require_tx (e_status event = Published) (DoorPassNotAllowedError NotPublished)) (\<lambda>_.
    andThen (require_tx (now < validUntil (event_window event))
      (DoorPassNotAllowedError WindowOver)) (\<lambda>_.
    retry pass_collision PASS_CODE_ATTEMPTS
      (\<lambda>attempt. insertPass
        \<lparr>dp_id = ids attempt, dp_eventId = eventId, dp_label = label, dp_code = codes attempt,
         dp_createdBy = actor, dp_createdAt = ts, dp_revokedAt = None\<rparr>) 1)))"

text \<open>The last moment the pass's relay token could be used, or two days from now.\<close>

definition revoke_until :: "db \<Rightarrow> instant \<Rightarrow> uuid \<Rightarrow> instant" where
  "revoke_until later now eventId =
    (case event_findById eventId later of
       Some e \<Rightarrow> validUntil (event_window e)
     | None \<Rightarrow> now + 48 * 3600000)"

definition announceRevoke :: "db \<Rightarrow> instant \<Rightarrow> uuid \<Rightarrow> uuid \<Rightarrow> announcement" where
  "announceRevoke later now eventId passId =
    AnnounceRevoke passId (revoke_until later now eventId)"

definition pass_of_event :: "db \<Rightarrow> uuid \<Rightarrow> uuid \<Rightarrow> door_pass_row result" where
  "pass_of_event snap eventId passId =
    (case findPassById passId snap of
       None \<Rightarrow> Inl (DoorPassNotFoundError passId)
     | Some p \<Rightarrow> if dp_eventId p \<noteq> eventId then Inl (DoorPassNotFoundError passId) else Inr p)"

definition revokePass ::
  "db \<Rightarrow> instant \<Rightarrow> instant \<Rightarrow> uuid \<Rightarrow> uuid \<Rightarrow> announcement list db_tx" where
  "revokePass snap ts now eventId passId =
    andThen (lift_tx (pass_of_event snap eventId passId)) (\<lambda>_.
    andThen (repo_revokePass ts passId) (\<lambda>_.
    andThen (read_tx (\<lambda>s. announceRevoke s now eventId passId)) (\<lambda>a.
    return_tx [a])))"

text \<open>The loop over the standing check-ins: how many were undone, and their announcements.\<close>

fun undo_each ::
  "instant \<Rightarrow> door_pass_row \<Rightarrow> jstr \<Rightarrow> jstr \<Rightarrow> standing_check_in list
    \<Rightarrow> (nat \<times> announcement list) db_tx" where
  "undo_each ts p reason actor [] = return_tx (0, [])"
| "undo_each ts p reason actor (c # cs) =
    andThen (ticket_undoCheckIn ts (sc_id c) (sc_scanId c)) (\<lambda>row.
    if row = None then undo_each ts p reason actor cs
    else andThen (order_insertEvent
           (audit ts (sc_orderId c) actor (lit ''ticket.check_in_undone'') None None
             (sc_code c @ lit '' '' @ [183] @ lit '' pass '' @ dp_label p @ lit '' revoked: '' @
              reason))) (\<lambda>_.
         andThen (undo_each ts p reason actor cs) (\<lambda>(n, anns).
         return_tx (n + 1,
           (case sc_at c of None \<Rightarrow> anns | Some a \<Rightarrow> AnnounceUndo (sc_id c) a # anns)))))"

definition revoke_undo_tx ::
  "instant \<Rightarrow> door_pass_row \<Rightarrow> jstr \<Rightarrow> jstr \<Rightarrow> (nat \<times> announcement list) db_tx" where
  "revoke_undo_tx ts p reason actor =
    andThen (repo_revokePass ts (dp_id p)) (\<lambda>_.
    andThen (read_tx (ticketsCheckedInByPass (dp_id p))) (\<lambda>standing.
    undo_each ts p reason actor standing))"

definition revokeAndUndo ::
  "db \<Rightarrow> instant \<Rightarrow> instant \<Rightarrow> uuid \<Rightarrow> uuid \<Rightarrow> jstr \<Rightarrow> jstr
    \<Rightarrow> (nat \<times> announcement list) db_tx" where
  "revokeAndUndo snap ts now eventId passId reason actor =
    andThen (lift_tx (pass_of_event snap eventId passId)) (\<lambda>p.
    andThen (revoke_undo_tx ts p reason actor) (\<lambda>(n, undos).
    andThen (read_tx (\<lambda>s. announceRevoke s now eventId passId)) (\<lambda>a.
    return_tx (n, a # undos))))"

definition authenticate :: "instant \<Rightarrow> jstr \<Rightarrow> db \<Rightarrow> door_context option" where
  "authenticate now rawCode snap =
    Option.bind (normalisePassCode rawCode) (\<lambda>code.
    Option.bind (findPassByCode code snap) (\<lambda>p.
    if dp_revokedAt p \<noteq> None then None
    else Option.bind (event_findById (dp_eventId p) snap) (\<lambda>event.
      if e_status event = Draft then None
      else let w = event_window event
        in if now > validUntil w then None
           else Some \<lparr>cx_pass = p, cx_event = event, cx_window = w,
             cx_practice = (now < validFrom w)\<rparr>)))"

section \<open>Undoing a check-in\<close>

definition undo_reason_label :: "undo_reason \<Rightarrow> jstr" where
  "undo_reason_label r =
    (case r of WrongPerson \<Rightarrow> lit ''Wrong person'' | MisTap \<Rightarrow> lit ''Tapped by mistake'' | OtherReason \<Rightarrow> lit ''Other'')"

definition own_admit_checks :: "db \<Rightarrow> instant \<Rightarrow> door_context \<Rightarrow> uuid \<Rightarrow> uuid result" where
  "own_admit_checks snap now ctx scanId =
    (case findScanByScanId scanId snap of
       None \<Rightarrow> Inl (CheckInUndoRefusedError UndoNotFound)
     | Some d \<Rightarrow>
         (case ds_ticketId d of
            None \<Rightarrow> Inl (CheckInUndoRefusedError UndoNotFound)
          | Some i \<Rightarrow>
              if ds_result d \<noteq> ScanAdmitted then Inl (CheckInUndoRefusedError UndoNotFound)
              else if ds_passId d \<noteq> dp_id (cx_pass ctx)
              then Inl (CheckInUndoRefusedError UndoNotYours)
              else if now - scanTime d > DOOR_UNDO_WINDOW_MS
              then Inl (CheckInUndoRefusedError UndoTooLate)
              else Inr i))"

definition undoOwnAdmit ::
  "db \<Rightarrow> instant \<Rightarrow> instant \<Rightarrow> door_context \<Rightarrow> uuid \<Rightarrow> undo_reason \<Rightarrow> announcement list db_tx" where
  "undoOwnAdmit snap ts now ctx scanId reason =
    andThen (lift_tx (own_admit_checks snap now ctx scanId)) (\<lambda>ticketId.
    andThen (lockActivePass (dp_id (cx_pass ctx))) (\<lambda>active.
    andThen (require_tx active (DoorPassRevokedError (dp_id (cx_pass ctx)))) (\<lambda>_.
    andThen (read_tx (findTicketById ticketId)) (\<lambda>before.
    andThen (ticket_undoCheckIn ts ticketId scanId) (\<lambda>result.
    andThen (non_null result (CheckInUndoRefusedError UndoNotCheckedIn)) (\<lambda>undone.
    andThen (order_insertEvent
      (audit ts (t_orderId undone) (lit ''door:'' @ dp_label (cx_pass ctx))
        (lit ''ticket.check_in_undone'') None None
        (t_code undone @ lit '' '' @ [183] @ lit '' '' @ undo_reason_label reason))) (\<lambda>_.
    return_tx (case Option.bind before dt_checkedInAt of
        None \<Rightarrow> [] | Some a \<Rightarrow> [AnnounceUndo ticketId a]))))))))"

text \<open>\<open>clock\<close> is \<open>formatDhakaClock\<close>, which a date library prints.\<close>

definition undoCheckInAsAdmin ::
  "(instant \<Rightarrow> jstr) \<Rightarrow> instant \<Rightarrow> uuid \<Rightarrow> uuid \<Rightarrow> uuid \<Rightarrow> jstr \<Rightarrow> jstr
    \<Rightarrow> (jstr \<times> announcement list) db_tx" where
  "undoCheckInAsAdmin clock ts ticketId orderId expectedScanId reason actor =
    andThen (read_tx (findTicketById ticketId)) (\<lambda>found.
    andThen (non_null found (TicketNotFoundError ticketId)) (\<lambda>before.
    andThen (require_tx (dt_orderId before = orderId) (TicketNotFoundError ticketId)) (\<lambda>_.
    andThen (ticket_undoCheckIn ts ticketId expectedScanId) (\<lambda>result.
    andThen (non_null result (CheckInUndoRefusedError UndoNotCheckedIn)) (\<lambda>undone.
    andThen (order_insertEvent
      (audit ts (t_orderId undone) actor (lit ''ticket.check_in_undone'') None None
        (t_code undone @
         (case dt_checkedInAt before of
            None \<Rightarrow> []
          | Some a \<Rightarrow> lit '' (in '' @ clock a @ lit '' '' @ [183] @ lit '' '' @
              (case dt_checkedInBy before of None \<Rightarrow> lit ''?'' | Some g \<Rightarrow> g) @ lit '')'') @
         lit '': '' @ reason))) (\<lambda>_.
    return_tx (t_code undone,
      case dt_checkedInAt before of None \<Rightarrow> [] | Some a \<Rightarrow> [AnnounceUndo ticketId a])))))))"

section \<open>The door phone's reads\<close>

definition door_search ::
  "(jstr \<Rightarrow> nat) \<Rightarrow> (jstr \<Rightarrow> jstr) \<Rightarrow> door_context \<Rightarrow> jstr \<Rightarrow> db \<Rightarrow> door_search_row list" where
  "door_search rank fold_case ctx rawTerm snap =
    (let term = collapse_spaces (trim rawTerm)
     in if length term < 2 then []
        else searchTickets rank fold_case (e_id (cx_event ctx)) term (parseScanToken term)
               DOOR_SEARCH_LIMIT snap)"

record door_recent_scan =
  dr_scanId :: uuid
  dr_result :: scan_result
  dr_method :: scan_method
  dr_at :: instant
  dr_attendeeName :: "jstr option"
  dr_ticketTypeName :: "jstr option"
  dr_undoable :: bool

record door_status =
  st_issued :: nat
  st_checkedIn :: nat
  st_practice :: bool
  st_recent :: "door_recent_scan list"
  st_checkIns :: "(uuid \<times> instant \<times> jstr option) list"
  st_serverTime :: instant

definition undoable :: "instant \<Rightarrow> recent_scan_row \<Rightarrow> bool" where
  "undoable now r \<longleftrightarrow>
    ds_result (rs_scan r) = ScanAdmitted \<and> rs_stillCheckedInByThisScan r \<and>
    now - scanTime (rs_scan r) \<le> DOOR_UNDO_WINDOW_MS"

definition door_status_of :: "instant \<Rightarrow> door_context \<Rightarrow> instant option \<Rightarrow> db \<Rightarrow> door_status" where
  "door_status_of now ctx since snap =
    \<lparr>st_issued = fst (door_counts (e_id (cx_event ctx)) snap),
     st_checkedIn = snd (door_counts (e_id (cx_event ctx)) snap),
     st_practice = cx_practice ctx,
     st_recent = map (\<lambda>r. \<lparr>dr_scanId = ds_scanId (rs_scan r), dr_result = ds_result (rs_scan r),
         dr_method = ds_method (rs_scan r), dr_at = scanTime (rs_scan r),
         dr_attendeeName = rs_attendeeName r, dr_ticketTypeName = rs_ticketTypeName r,
         dr_undoable = undoable now r\<rparr>)
       (recentScans (dp_id (cx_pass ctx)) DOOR_RECENT_SCANS snap),
     st_checkIns = (case since of None \<Rightarrow> []
       | Some t \<Rightarrow> checkInsSince (e_id (cx_event ctx)) t DOOR_CHECKINS_LIMIT snap),
     st_serverTime = now\<rparr>"

text \<open>\<open>relay\<close> is the signed way into the event's room, or none.\<close>

definition offlineList ::
  "(jstr \<Rightarrow> jstr) \<Rightarrow> (jstr \<Rightarrow> nat) \<Rightarrow> jstr \<Rightarrow> (jstr \<times> jstr) option \<Rightarrow> instant \<Rightarrow> door_context \<Rightarrow> db
    \<Rightarrow> offline_list" where
  "offlineList sha rank salt relay asOf ctx snap =
    \<lparr>ol_v = OFFLINE_LIST_VERSION, ol_eventId = e_id (cx_event ctx), ol_passId = dp_id (cx_pass ctx),
     ol_salt = salt, ol_serverTime = toISOString asOf,
     ol_validFrom = toISOString (validFrom (cx_window ctx)),
     ol_validUntil = toISOString (validUntil (cx_window ctx)),
     ol_entries = map (\<lambda>(t, tt, r).
       \<lparr>le_d = offlineDigest sha salt (t_code t), le_id = t_id t, le_name = t_attendeeName t,
        le_type = tt_name tt, le_pos = t_position t, le_of = o_quantity r, le_status = t_status t,
        le_inAt = map_option toISOString (t_checkedInAt t), le_inBy = t_checkedInBy t\<rparr>)
       (repo_offlineList rank (e_id (cx_event ctx)) snap),
     ol_relay = relay\<rparr>"

section \<open>Answering a refused scan\<close>

definition decide ::
  "db \<Rightarrow> instant \<Rightarrow> instant \<Rightarrow> door_context \<Rightarrow> uuid \<Rightarrow> door_decision \<Rightarrow> bool db_tx" where
  "decide snap rcv now ctx scanId decision =
    andThen (non_null (findScanByScanId scanId snap) (DoorDecisionRefusedError DecNotFound)) (\<lambda>d.
    andThen (require_tx (ds_passId d = dp_id (cx_pass ctx)) (DoorDecisionRefusedError DecNotYours)) (\<lambda>_.
    andThen (require_tx (ds_result d \<noteq> ScanAdmitted \<and> ds_result d \<noteq> ScanPracticeOk)
      (DoorDecisionRefusedError DecNotRefused)) (\<lambda>_.
    andThen (require_tx (now - ds_receivedAt d \<le> DOOR_DECISION_WINDOW_MS)
      (DoorDecisionRefusedError DecTooLate)) (\<lambda>_.
    insertDecision \<lparr>dd_scanId = scanId, dd_passId = dp_id (cx_pass ctx),
      dd_eventId = e_id (cx_event ctx), dd_decision = decision, dd_decidedAt = rcv\<rparr>))))"

record offline_conflict =
  oc_row :: conflict_row
  oc_admittedAt :: instant
  oc_syncedAt :: instant

definition offlineConflicts :: "uuid \<Rightarrow> db \<Rightarrow> offline_conflict list" where
  "offlineConflicts eventId snap =
    map (\<lambda>r. \<lparr>oc_row = r,
        oc_admittedAt = (case cf_scannedAt r of Some t \<Rightarrow> t | None \<Rightarrow> cf_receivedAt r),
        oc_syncedAt = cf_receivedAt r\<rparr>)
      (repo_offlineConflicts eventId snap)"

definition listPasses :: "instant \<Rightarrow> event_row \<Rightarrow> db \<Rightarrow> (pass_list_row \<times> pass_state) list" where
  "listPasses now event snap =
    map (\<lambda>r. (r, passState (pl_pass r) event (event_window event) now))
      (repo_listPasses (e_id event) snap)"

end
