(* ===== verification/Catalogue.thy ===== *)
theory Catalogue
  imports Orders
begin

text \<open>
  The organizer's catalogue: the writes of \<open>events.repository.ts\<close> and
  \<open>ticket-types.repository.ts\<close> with \<open>src/src/server/services/events.service.ts\<close> and
  \<open>ticket-types.service.ts\<close>, and the public read models. \<open>now\<close> is the server clock the
  repositories stamp \<open>updated_at\<close> with. The HTML sanitiser, the slug of a title and the
  object storage are arguments.
\<close>

section \<open>Ticket types\<close>

definition EVENT_FK :: string where "EVENT_FK = ''ticket_types_event_id_events_id_fk''"
definition ORDERS_TYPE_FK :: string where "ORDERS_TYPE_FK = ''orders_ticket_type_id_ticket_types_id_fk''"
definition TICKETS_TYPE_FK :: string where "TICKETS_TYPE_FK = ''tickets_ticket_type_id_ticket_types_id_fk''"
definition PROMO_TYPE_FK :: string where
  "PROMO_TYPE_FK = ''promo_code_ticket_types_ticket_type_id_ticket_types_id_fk''"

record ticket_type_input =
  ti_name :: jstr
  ti_pricePaisa :: int
  ti_quantityTotal :: int
  ti_salesStartsAt :: "instant option"
  ti_salesEndsAt :: "instant option"

definition new_ticket_type :: "instant \<Rightarrow> uuid \<Rightarrow> uuid \<Rightarrow> ticket_type_input \<Rightarrow> ticket_type_row" where
  "new_ticket_type ts newId eventId inp =
    \<lparr>tt_id = newId, tt_eventId = eventId, tt_name = ti_name inp, tt_pricePaisa = ti_pricePaisa inp,
     tt_quantityTotal = ti_quantityTotal inp, tt_quantitySold = 0, tt_quantityReserved = 0,
     tt_salesStartsAt = ti_salesStartsAt inp, tt_salesEndsAt = ti_salesEndsAt inp,
     tt_createdAt = ts, tt_updatedAt = ts\<rparr>"

definition ticketType_insert :: "ticket_type_row \<Rightarrow> ticket_type_row db_tx" where
  "ticketType_insert row =
    mapError
      (\<lambda>err. if isForeignKeyViolation err EVENT_FK then EventNotFoundError (tt_eventId row)
        else PgError err)
      (andThen (insert_ticket_types [row]) (\<lambda>_. return_tx row))"

text \<open>The patch never carries the counters.\<close>

definition edit_ticket_type :: "instant \<Rightarrow> ticket_type_input \<Rightarrow> ticket_type_row \<Rightarrow> ticket_type_row" where
  "edit_ticket_type now inp t =
    t\<lparr>tt_name := ti_name inp, tt_pricePaisa := ti_pricePaisa inp,
      tt_quantityTotal := ti_quantityTotal inp, tt_salesStartsAt := ti_salesStartsAt inp,
      tt_salesEndsAt := ti_salesEndsAt inp, tt_updatedAt := now\<rparr>"

definition ticketType_update ::
  "instant \<Rightarrow> uuid \<Rightarrow> ticket_type_input \<Rightarrow> ticket_type_row option db_tx" where
  "ticketType_update now i inp =
    mapError
      (\<lambda>err. if isCheckViolation err AVAILABILITY_CHECK then TicketTypeCapacityTooLowError i
        else PgError err)
      (andThen (update_ticket_types (\<lambda>t. tt_id t = i) (edit_ticket_type now inp))
        (\<lambda>rows. return_tx (first_row rows)))"

text \<open>\<open>DELETE\<close>: the foreign keys of orders, tickets and restrictions hold the row.\<close>

definition delete_ticket_type :: "uuid \<Rightarrow> nat stmt" where
  "delete_ticket_type i s =
    (let gone = filter (\<lambda>t. tt_id t = i) (ticketTypes s)
     in if gone \<noteq> [] \<and> i \<in> o_ticketTypeId ` set (orders s)
        then Inl (ForeignKeyViolation ORDERS_TYPE_FK)
        else if gone \<noteq> [] \<and> i \<in> t_ticketTypeId ` set (tickets s)
        then Inl (ForeignKeyViolation TICKETS_TYPE_FK)
        else if gone \<noteq> [] \<and> i \<in> snd ` set (promoCodeTicketTypes s)
        then Inl (ForeignKeyViolation PROMO_TYPE_FK)
        else Inr (length gone, s\<lparr>ticketTypes := delete_rows (\<lambda>t. tt_id t = i) (ticketTypes s)\<rparr>))"

definition ticketType_delete :: "uuid \<Rightarrow> bool db_tx" where
  "ticketType_delete i =
    mapError
      (\<lambda>err. if isForeignKeyViolation err ORDERS_TYPE_FK \<or> isForeignKeyViolation err TICKETS_TYPE_FK
        then TicketTypeInUseError i ByOrders
        else if isForeignKeyViolation err PROMO_TYPE_FK then TicketTypeInUseError i ByPromoCode
        else PgError err)
      (andThen (delete_ticket_type i) (\<lambda>n. return_tx (n > 0)))"

record event_capacity =
  ec_total :: int
  ec_sold :: int
  ec_held :: int
  ec_fromPricePaisa :: "int option"

text \<open>One group of the aggregate; an event with no types has no group.\<close>

definition capacityByEvent :: "uuid list \<Rightarrow> db \<Rightarrow> (uuid \<times> event_capacity) list" where
  "capacityByEvent eventIds s =
    map (\<lambda>i. let own = filter (\<lambda>t. tt_eventId t = i) (ticketTypes s)
       in (i, \<lparr>ec_total = sum_list (map tt_quantityTotal own),
           ec_sold = sum_list (map tt_quantitySold own),
           ec_held = sum_list (map tt_quantityReserved own),
           ec_fromPricePaisa = (case map tt_pricePaisa own of [] \<Rightarrow> None | p # ps \<Rightarrow> Some (foldl min p ps))\<rparr>))
      (remdups (filter (\<lambda>i. i \<in> set eventIds) (map tt_eventId (ticketTypes s))))"

definition capacityForEvents :: "uuid list \<Rightarrow> db \<Rightarrow> uuid \<rightharpoonup> event_capacity" where
  "capacityForEvents eventIds snap i =
    (case map_of (capacityByEvent eventIds snap) i of
       Some c \<Rightarrow> Some c
     | None \<Rightarrow> if i \<in> set eventIds
         then Some \<lparr>ec_total = 0, ec_sold = 0, ec_held = 0, ec_fromPricePaisa = None\<rparr> else None)"

definition listForEvents :: "uuid list \<Rightarrow> db \<Rightarrow> uuid \<rightharpoonup> ticket_type_row list" where
  "listForEvents eventIds snap i =
    (if i \<in> set eventIds then Some (filter (\<lambda>t. tt_eventId t = i) (listByEvents eventIds snap))
     else None)"

definition getTicketType :: "uuid \<Rightarrow> db \<Rightarrow> ticket_type_row result" where
  "getTicketType i snap =
    (case ticketType_findById i snap of None \<Rightarrow> Inl (TicketTypeNotFoundError i) | Some t \<Rightarrow> Inr t)"

definition createTicketType ::
  "instant \<Rightarrow> uuid \<Rightarrow> uuid \<Rightarrow> ticket_type_input \<Rightarrow> ticket_type_row db_tx" where
  "createTicketType ts newId eventId inp = ticketType_insert (new_ticket_type ts newId eventId inp)"

definition updateTicketType ::
  "instant \<Rightarrow> uuid \<Rightarrow> ticket_type_input \<Rightarrow> ticket_type_row db_tx" where
  "updateTicketType now i inp =
    andThen (ticketType_update now i inp) (\<lambda>updated. non_null updated (TicketTypeNotFoundError i))"

definition deleteTicketType :: "db \<Rightarrow> uuid \<Rightarrow> unit db_tx" where
  "deleteTicketType snap i =
    andThen (non_null (ticketType_findById i snap) (TicketTypeNotFoundError i)) (\<lambda>t.
    andThen (require_tx (\<not> (tt_quantitySold t > 0 \<or> tt_quantityReserved t > 0))
      (TicketTypeInUseError i ByOrders)) (\<lambda>_.
    andThen (ticketType_delete i) (\<lambda>deleted.
    require_tx deleted (TicketTypeNotFoundError i))))"

section \<open>Events\<close>

definition SLUG_UNIQUE :: string where "SLUG_UNIQUE = ''events_slug_unique''"
definition PRESENTING_SPONSOR_FK :: string where
  "PRESENTING_SPONSOR_FK = ''events_presenting_sponsor_id_sponsors_id_fk''"

definition rethrowWriteConflict :: "jstr \<Rightarrow> uuid option \<Rightarrow> pg_error \<Rightarrow> app_error" where
  "rethrowWriteConflict slug sponsor err =
    (if isUniqueViolation err SLUG_UNIQUE then EventSlugTakenError slug
     else case sponsor of
         Some i \<Rightarrow> if isForeignKeyViolation err PRESENTING_SPONSOR_FK then SponsorNotFoundError i
           else PgError err
       | None \<Rightarrow> PgError err)"

definition events_list :: "db \<Rightarrow> event_row list" where
  "events_list s = sort_key (\<lambda>e. - e_startsAt e) (events s)"

definition events_listByStatus :: "event_status list \<Rightarrow> db \<Rightarrow> event_row list" where
  "events_listByStatus statuses s =
    sort_key e_startsAt (filter (\<lambda>e. e_status e \<in> set statuses) (events s))"

definition event_insert :: "event_row \<Rightarrow> event_row db_tx" where
  "event_insert row =
    mapError (rethrowWriteConflict (e_slug row) (e_presentingSponsorId row))
      (andThen (insert_events [row]) (\<lambda>_. return_tx row))"

definition event_update ::
  "uuid \<Rightarrow> jstr \<Rightarrow> uuid option \<Rightarrow> (event_row \<Rightarrow> event_row) \<Rightarrow> event_row option db_tx" where
  "event_update i slug sponsor patch =
    mapError (rethrowWriteConflict slug sponsor)
      (andThen (update_events (\<lambda>e. e_id e = i) patch) (\<lambda>rows. return_tx (first_row rows)))"

definition transitionStatus ::
  "instant \<Rightarrow> uuid \<Rightarrow> event_status \<Rightarrow> event_status \<Rightarrow> event_row option db_tx" where
  "transitionStatus now i frm to =
    mapError PgError (andThen
      (update_events (\<lambda>e. e_id e = i \<and> e_status e = frm)
        (\<lambda>e. e\<lparr>e_status := to, e_updatedAt := now\<rparr>))
      (\<lambda>rows. return_tx (first_row rows)))"

definition setImageKey :: "instant \<Rightarrow> uuid \<Rightarrow> jstr option \<Rightarrow> event_row option db_tx" where
  "setImageKey now i imageKey =
    mapError PgError (andThen
      (update_events (\<lambda>e. e_id e = i) (\<lambda>e. e\<lparr>e_imageKey := imageKey, e_updatedAt := now\<rparr>))
      (\<lambda>rows. return_tx (first_row rows)))"

record event_input =
  ei_title :: jstr
  ei_slug :: "jstr option"
  ei_description :: "jstr option"
  ei_venue :: "jstr option"
  ei_venueHidden :: "bool option"
  ei_venueArea :: "jstr option"
  ei_hideAvailability :: "bool option"
  ei_startsAt :: instant
  ei_endsAt :: "instant option"
  ei_registrationOpensAt :: "instant option"
  ei_registrationClosesAt :: "instant option"
  ei_presentingSponsorId :: "uuid option"

definition event_slug_of :: "(jstr \<Rightarrow> jstr) \<Rightarrow> event_input \<Rightarrow> jstr" where
  "event_slug_of slugify inp = or_default (ei_slug inp) (slugify (ei_title inp))"

text \<open>The fields the form sets, on a row that keeps the rest.\<close>

definition fill_event ::
  "(jstr option \<Rightarrow> jstr option) \<Rightarrow> (jstr \<Rightarrow> jstr) \<Rightarrow> event_input \<Rightarrow> event_row \<Rightarrow> event_row" where
  "fill_event clean slugify inp e =
    (let hidden = or_default (ei_venueHidden inp) False;
         defaults = defaultRegistrationWindow (ei_startsAt inp)
     in e\<lparr>e_title := ei_title inp, e_slug := event_slug_of slugify inp,
          e_description := clean (ei_description inp), e_venue := ei_venue inp,
          e_venueHidden := hidden, e_venueArea := (if hidden then ei_venueArea inp else None),
          e_hideAvailability := or_default (ei_hideAvailability inp) False,
          e_startsAt := ei_startsAt inp, e_endsAt := ei_endsAt inp,
          e_registrationOpensAt := Some (or_default (ei_registrationOpensAt inp) (fst defaults)),
          e_registrationClosesAt := Some (or_default (ei_registrationClosesAt inp) (snd defaults)),
          e_presentingSponsorId := ei_presentingSponsorId inp\<rparr>)"

definition blank_event :: "instant \<Rightarrow> uuid \<Rightarrow> event_row" where
  "blank_event ts newId =
    \<lparr>e_id = newId, e_slug = [], e_title = [], e_description = None, e_venue = None,
     e_venueHidden = False, e_hideAvailability = False, e_venueArea = None, e_startsAt = 0,
     e_endsAt = None, e_registrationOpensAt = None, e_registrationClosesAt = None,
     e_status = Draft, e_imageKey = None, e_presentingSponsorId = None, e_createdAt = ts,
     e_updatedAt = ts\<rparr>"

definition createEvent ::
  "(jstr option \<Rightarrow> jstr option) \<Rightarrow> (jstr \<Rightarrow> jstr) \<Rightarrow> instant \<Rightarrow> uuid \<Rightarrow> event_input
    \<Rightarrow> event_row db_tx" where
  "createEvent clean slugify ts newId inp =
    event_insert (fill_event clean slugify inp (blank_event ts newId))"

definition updateEvent ::
  "(jstr option \<Rightarrow> jstr option) \<Rightarrow> (jstr \<Rightarrow> jstr) \<Rightarrow> instant \<Rightarrow> uuid \<Rightarrow> event_input
    \<Rightarrow> event_row db_tx" where
  "updateEvent clean slugify now i inp =
    andThen (event_update i (event_slug_of slugify inp) (ei_presentingSponsorId inp)
      (\<lambda>e. (fill_event clean slugify inp e)\<lparr>e_updatedAt := now\<rparr>)) (\<lambda>updated.
    non_null updated (EventNotFoundError i))"

definition getEvent :: "uuid \<Rightarrow> db \<Rightarrow> event_row result" where
  "getEvent i snap =
    (case event_findById i snap of None \<Rightarrow> Inl (EventNotFoundError i) | Some e \<Rightarrow> Inr e)"

definition readinessOf :: "instant \<Rightarrow> event_row \<Rightarrow> db \<Rightarrow> publish_problem list" where
  "readinessOf now e snap =
    publishReadiness (e_startsAt e) (e_registrationOpensAt e) (e_registrationClosesAt e)
      (e_imageKey e) (int (length (listByEvent (e_id e) snap))) now"

definition publishReadinessFor :: "instant \<Rightarrow> uuid \<Rightarrow> db \<Rightarrow> publish_problem list result" where
  "publishReadinessFor now i snap = bindE (getEvent i snap) (\<lambda>e. Inr (readinessOf now e snap))"

definition changeEventStatus ::
  "db \<Rightarrow> instant \<Rightarrow> uuid \<Rightarrow> event_status \<Rightarrow> event_row db_tx" where
  "changeEventStatus snap now i to =
    andThen (lift_tx (getEvent i snap)) (\<lambda>event.
    andThen (lift_tx (assertEventTransition (e_status event) to)) (\<lambda>_.
    andThen (require_tx (to \<noteq> Published \<or> readinessOf now event snap = [])
      (EventNotPublishableError (readinessOf now event snap))) (\<lambda>_.
    andThen (transitionStatus now i (e_status event) to) (\<lambda>updated.
    non_null updated (EventStatusConflictError i)))))"

definition removeCoverImage :: "db \<Rightarrow> instant \<Rightarrow> uuid \<Rightarrow> event_row db_tx" where
  "removeCoverImage snap now i =
    andThen (lift_tx (getEvent i snap)) (\<lambda>_.
    andThen (setImageKey now i None) (\<lambda>updated.
    non_null updated (EventNotFoundError i)))"

section \<open>Public read models\<close>

definition forPublic :: "event_row \<Rightarrow> event_row" where
  "forPublic e = (if e_venueHidden e then e\<lparr>e_venue := None\<rparr> else e)"

definition getPublicEvent :: "jstr \<Rightarrow> db \<Rightarrow> (event_row \<times> ticket_type_row list) result" where
  "getPublicEvent slug snap =
    (case event_findBySlug slug snap of
       None \<Rightarrow> Inl (EventSlugNotFoundError slug)
     | Some e \<Rightarrow> if e_status e = Draft then Inl (EventSlugNotFoundError slug)
         else Inr (forPublic e, listByEvent (e_id e) snap))"

definition home_event_of :: "event_row \<Rightarrow> home_event" where
  "home_event_of e =
    \<lparr>he_id = e_id e, he_status = e_status e, he_startsAt = e_startsAt e,
     he_registrationClosesAt = e_registrationClosesAt e\<rparr>"

definition offer_type_of :: "ticket_type_row \<Rightarrow> offer_type" where
  "offer_type_of t =
    \<lparr>si_quantityTotal = tt_quantityTotal t, si_quantitySold = tt_quantitySold t,
     si_quantityReserved = tt_quantityReserved t, si_salesStartsAt = tt_salesStartsAt t,
     si_salesEndsAt = tt_salesEndsAt t, of_id = tt_id t, of_name = tt_name t,
     of_pricePaisa = tt_pricePaisa t\<rparr>"

record home_card =
  hc_event :: event_row
  hc_phase :: event_phase
  hc_offer :: offer_summary
  hc_availableTotal :: int
  hc_coverUrl :: "jstr option"

text \<open>\<open>publicUrl\<close> is the object storage's.\<close>

definition decorate :: "(jstr \<Rightarrow> jstr) \<Rightarrow> ticket_type_row list \<Rightarrow> instant \<Rightarrow> event_row \<Rightarrow> home_card" where
  "decorate publicUrl allTypes at e =
    (let types = filter (\<lambda>t. tt_eventId t = e_id e) allTypes;
         left = availableTotal types
     in \<lparr>hc_event = e,
         hc_phase = eventPhase (e_startsAt e) (e_registrationOpensAt e) (e_registrationClosesAt e) left at,
         hc_offer = offerSummary (map offer_type_of types) (e_registrationOpensAt e)
           (e_registrationClosesAt e) at,
         hc_availableTotal = left,
         hc_coverUrl = (if falsy (e_imageKey e) then None else map_option publicUrl (e_imageKey e))\<rparr>)"

text \<open>Picks name rows by id: the selection of \<open>home-events.ts\<close> works on the rows themselves.\<close>

definition picked_rows :: "event_row list \<Rightarrow> home_event list \<Rightarrow> event_row list" where
  "picked_rows rows picks = List.map_filter (\<lambda>h. row_by e_id (he_id h) rows) picks"

definition getUpcomingPage :: "(jstr \<Rightarrow> jstr) \<Rightarrow> instant \<Rightarrow> db \<Rightarrow> home_card list" where
  "getUpcomingPage publicUrl at snap =
    (let published = map forPublic (events_listByStatus [Published] snap);
         upcoming = picked_rows published (selectUpcomingEvents (map home_event_of published) at);
         types = listByEvents (map e_id upcoming) snap
     in map (decorate publicUrl types at) upcoming)"

record home_page =
  hp_featured :: "home_card option"
  hp_alsoUpcoming :: "home_card list"
  hp_upcomingTotal :: nat
  hp_past :: "home_card list"

definition getHomePage :: "(jstr \<Rightarrow> jstr) \<Rightarrow> instant \<Rightarrow> db \<Rightarrow> home_page" where
  "getHomePage publicUrl at snap =
    (let visible = map forPublic (events_listByStatus [Published, Archived] snap);
         picked = selectHomeEvents (map home_event_of visible) at;
         feat = (case featured picked of None \<Rightarrow> None | Some h \<Rightarrow> row_by e_id (he_id h) visible);
         also_up = picked_rows visible (alsoUpcoming picked);
         past = picked_rows visible (pastEvents picked);
         shown = (case feat of None \<Rightarrow> [] | Some e \<Rightarrow> [e]) @ also_up @ past;
         card = decorate publicUrl (listByEvents (map e_id shown) snap) at
     in \<lparr>hp_featured = map_option card feat, hp_alsoUpcoming = map card also_up,
         hp_upcomingTotal = upcomingTotal picked, hp_past = map card past\<rparr>)"

definition getArchivePage :: "(jstr \<Rightarrow> jstr) \<Rightarrow> instant \<Rightarrow> db \<Rightarrow> (event_row \<times> jstr option) list" where
  "getArchivePage publicUrl at snap =
    (let visible = map forPublic (events_listByStatus [Published, Archived] snap)
     in map (\<lambda>e. (e, if falsy (e_imageKey e) then None else map_option publicUrl (e_imageKey e)))
          (picked_rows visible (selectArchiveEvents (map home_event_of visible) at)))"

definition getSitemapEvents :: "db \<Rightarrow> (jstr \<times> instant) list" where
  "getSitemapEvents snap =
    map (\<lambda>e. (e_slug e, e_updatedAt e)) (events_listByStatus [Published, Archived] snap)"

section \<open>Facts\<close>

lemmas catalogue_defs =
  ticketType_insert_def ticketType_update_def event_insert_def event_update_def
  transitionStatus_def setImageKey_def

lemma forPublic_simps [simp]:
  "e_id (forPublic e) = e_id e" "e_status (forPublic e) = e_status e" "e_slug (forPublic e) = e_slug e"
  "e_startsAt (forPublic e) = e_startsAt e"
  "e_venueHidden (forPublic e) = e_venueHidden e"
  by (simp_all add: forPublic_def)

lemma forPublic_hides: "e_venueHidden (forPublic e) \<Longrightarrow> e_venue (forPublic e) = None"
  by (simp add: forPublic_def split: if_splits)

lemma picked_rows_set: "e \<in> set (picked_rows rows picks) \<Longrightarrow> e \<in> set rows"
  by (auto simp: picked_rows_def map_filter_def split: option.splits dest: row_by_Some)

end
