(* ===== verification/PromoAdmin.thy ===== *)
theory PromoAdmin
  imports Catalogue
begin

text \<open>
  The writes and lists of \<open>src/src/server/repositories/promo-codes.repository.ts\<close> and
  \<open>src/src/server/services/promo-codes.service.ts\<close>. \<open>rank\<close> is the database's collation of
  codes.
\<close>

definition PROMO_CODE_UNIQUE :: string where "PROMO_CODE_UNIQUE = ''promo_codes_code_unique''"
definition PROMO_ORDERS_FK :: string where "PROMO_ORDERS_FK = ''orders_promo_code_id_promo_codes_id_fk''"

section \<open>The repository\<close>

record promo_values =
  pv_type :: promo_type
  pv_amount :: int
  pv_active :: bool

definition rethrowUnknownTicketType :: "uuid list \<Rightarrow> pg_error \<Rightarrow> app_error" where
  "rethrowUnknownTicketType ids err =
    (if isForeignKeyViolation err PROMO_TYPE_FK then RestrictionTypesNotFoundError ids else PgError err)"

definition insert_restrictions_of :: "uuid \<Rightarrow> uuid list \<Rightarrow> (uuid \<times> uuid) list stmt" where
  "insert_restrictions_of i ids =
    (if ids = [] then return_tx [] else insert_restrictions (map (\<lambda>t. (i, t)) ids))"

definition promo_insert :: "instant \<Rightarrow> uuid \<Rightarrow> jstr \<Rightarrow> promo_values \<Rightarrow> uuid list \<Rightarrow> promo_row db_tx" where
  "promo_insert ts newId code v ids =
    (let row = \<lparr>p_id = newId, p_code = code, p_type = pv_type v, p_amount = pv_amount v,
       p_active = pv_active v, p_createdAt = ts, p_updatedAt = ts\<rparr>
     in mapError
          (\<lambda>err. if isUniqueViolation err PROMO_CODE_UNIQUE then PromoCodeTakenError code
            else rethrowUnknownTicketType ids err)
          (andThen (insert_promo_codes [row]) (\<lambda>_.
           andThen (insert_restrictions_of newId ids) (\<lambda>_. return_tx row))))"

definition edit_promo :: "instant \<Rightarrow> promo_values \<Rightarrow> promo_row \<Rightarrow> promo_row" where
  "edit_promo now v p =
    p\<lparr>p_type := pv_type v, p_amount := pv_amount v, p_active := pv_active v, p_updatedAt := now\<rparr>"

definition clear_restrictions :: "uuid \<Rightarrow> unit stmt" where
  "clear_restrictions i s =
    Inr ((), s\<lparr>promoCodeTicketTypes := delete_rows (\<lambda>r. fst r = i) (promoCodeTicketTypes s)\<rparr>)"

definition promo_update ::
  "instant \<Rightarrow> uuid \<Rightarrow> promo_values \<Rightarrow> uuid list \<Rightarrow> promo_row option db_tx" where
  "promo_update now i v ids =
    andThen (mapError PgError (update_promo_codes (\<lambda>p. p_id p = i) (edit_promo now v))) (\<lambda>rows.
    case first_row rows of
      None \<Rightarrow> return_tx None
    | Some row \<Rightarrow>
        andThen (mapError PgError (clear_restrictions i)) (\<lambda>_.
        andThen (mapError (rethrowUnknownTicketType ids) (insert_restrictions_of i ids)) (\<lambda>_.
        return_tx (Some row))))"

definition promo_setActive :: "instant \<Rightarrow> uuid \<Rightarrow> bool \<Rightarrow> promo_row option db_tx" where
  "promo_setActive now i active =
    mapError PgError (andThen
      (update_promo_codes (\<lambda>p. p_id p = i) (\<lambda>p. p\<lparr>p_active := active, p_updatedAt := now\<rparr>))
      (\<lambda>rows. return_tx (first_row rows)))"

text \<open>\<open>DELETE\<close>: held by the orders that used the code; its restrictions go with it.\<close>

definition delete_promo :: "uuid \<Rightarrow> nat stmt" where
  "delete_promo i s =
    (let gone = filter (\<lambda>p. p_id p = i) (promoCodes s)
     in if gone \<noteq> [] \<and> Some i \<in> o_promoCodeId ` set (orders s)
        then Inl (ForeignKeyViolation PROMO_ORDERS_FK)
        else Inr (length gone, s\<lparr>promoCodes := delete_rows (\<lambda>p. p_id p = i) (promoCodes s),
          promoCodeTicketTypes :=
            (if gone = [] then promoCodeTicketTypes s
             else delete_rows (\<lambda>r. fst r = i) (promoCodeTicketTypes s))\<rparr>))"

definition promo_delete :: "uuid \<Rightarrow> bool db_tx" where
  "promo_delete i =
    mapError
      (\<lambda>err. if isForeignKeyViolation err PROMO_ORDERS_FK then PromoCodeInUseError i else PgError err)
      (andThen (delete_promo i) (\<lambda>n. return_tx (n > 0)))"

record promo_restriction =
  rn_ticketTypeId :: uuid
  rn_ticketTypeName :: jstr
  rn_eventId :: uuid
  rn_eventTitle :: jstr

record promo_list_row =
  pw_promo :: promo_row
  pw_restrictions :: "promo_restriction list"
  pw_verifiedUses :: nat
  pw_discountGivenPaisa :: int
  pw_pendingUses :: nat
  pw_everUsed :: bool

definition promo_restrictions :: "db \<Rightarrow> uuid \<Rightarrow> promo_restriction list" where
  "promo_restrictions s i =
    map (\<lambda>(e, t). \<lparr>rn_ticketTypeId = tt_id t, rn_ticketTypeName = tt_name t, rn_eventId = e_id e,
        rn_eventTitle = e_title e\<rparr>)
      (sort_key (\<lambda>(e, t). e_startsAt e) (sort_key (\<lambda>(e, t). tt_createdAt t)
        (List.map_filter (\<lambda>r. case row_by tt_id (snd r) (ticketTypes s) of
             None \<Rightarrow> None
           | Some t \<Rightarrow> map_option (\<lambda>e. (e, t)) (row_by e_id (tt_eventId t) (events s)))
          (filter (\<lambda>r. fst r = i) (promoCodeTicketTypes s)))))"

text \<open>The summed discount must be valid paisa before it leaves the repository.\<close>

definition promo_list_row_of :: "db \<Rightarrow> promo_row \<Rightarrow> promo_list_row result" where
  "promo_list_row_of s p =
    (let users = filter (\<lambda>r. o_promoCodeId r = Some (p_id p)) (orders s);
         verified = filter (\<lambda>r. o_status r \<in> set REVENUE_STATUSES) users;
         given = sum_list (map o_discountPaisa verified)
     in bindE (assertValidPaisa given) (\<lambda>_.
        Inr \<lparr>pw_promo = p, pw_restrictions = promo_restrictions s (p_id p),
             pw_verifiedUses = length verified, pw_discountGivenPaisa = given,
             pw_pendingUses = length (filter (\<lambda>r. holdsInventory (o_status r)) users),
             pw_everUsed = (users \<noteq> [])\<rparr>))"

fun map_result :: "('a \<Rightarrow> 'b result) \<Rightarrow> 'a list \<Rightarrow> 'b list result" where
  "map_result f [] = Inr []"
| "map_result f (x # xs) = bindE (f x) (\<lambda>y. bindE (map_result f xs) (\<lambda>ys. Inr (y # ys)))"

definition promo_list :: "(jstr \<Rightarrow> nat) \<Rightarrow> db \<Rightarrow> promo_list_row list result" where
  "promo_list rank s =
    map_result (promo_list_row_of s) (sort_key (\<lambda>p. rank (p_code p)) (promoCodes s))"

section \<open>The service\<close>

record promo_input =
  pi_code :: jstr
  pi_values :: promo_values
  pi_ticketTypeIds :: "uuid list"

text \<open>\<open>[...new Set(ids)]\<close> keeps the first of each.\<close>

definition unique_ids :: "uuid list \<Rightarrow> uuid list" where
  "unique_ids ids = rev (remdups (rev ids))"

definition promo_get :: "uuid \<Rightarrow> db \<Rightarrow> promo_rule result" where
  "promo_get i snap =
    (case promo_findById i snap of None \<Rightarrow> Inl (PromoCodeNotFoundError i) | Some r \<Rightarrow> Inr r)"

definition promo_create :: "instant \<Rightarrow> uuid \<Rightarrow> promo_input \<Rightarrow> promo_row db_tx" where
  "promo_create ts newId inp =
    promo_insert ts newId (normalisePromoCode (pi_code inp)) (pi_values inp)
      (unique_ids (pi_ticketTypeIds inp))"

definition promo_edit :: "instant \<Rightarrow> uuid \<Rightarrow> promo_values \<Rightarrow> uuid list \<Rightarrow> promo_row db_tx" where
  "promo_edit now i v ids =
    andThen (promo_update now i v (unique_ids ids)) (\<lambda>row. non_null row (PromoCodeNotFoundError i))"

definition promo_switch :: "instant \<Rightarrow> uuid \<Rightarrow> bool \<Rightarrow> promo_row db_tx" where
  "promo_switch now i active =
    andThen (promo_setActive now i active) (\<lambda>row. non_null row (PromoCodeNotFoundError i))"

definition promo_remove :: "db \<Rightarrow> uuid \<Rightarrow> unit db_tx" where
  "promo_remove snap i =
    andThen (non_null (promo_findById i snap) (PromoCodeNotFoundError i)) (\<lambda>_.
    andThen (promo_delete i) (\<lambda>deleted.
    require_tx deleted (PromoCodeNotFoundError i)))"

record picker_type =
  pk_id :: uuid
  pk_name :: jstr
  pk_pricePaisa :: int
  pk_saleEnded :: bool

definition pickerOptions :: "instant \<Rightarrow> uuid list \<Rightarrow> db \<Rightarrow> (event_row \<times> picker_type list) list" where
  "pickerOptions at keep snap =
    (let candidates = sort_key e_startsAt (events_list snap);
         types = listByEvents (map e_id candidates) snap;
         own = (\<lambda>e. filter (\<lambda>t. tt_eventId t = e_id e) types);
         live = filter (\<lambda>e. (\<exists>t \<in> set (own e). tt_id t \<in> set keep) \<or>
           (e_status e \<noteq> Archived \<and> at < e_startsAt e \<and> own e \<noteq> [])) candidates
     in map (\<lambda>e. (e, map (\<lambda>t. \<lparr>pk_id = tt_id t, pk_name = tt_name t, pk_pricePaisa = tt_pricePaisa t,
          pk_saleEnded = (ticketTypeSaleState (sale_input t) at = Some WindowEnded)\<rparr>) (own e))) live)"

end
