(* ===== verification/Sponsors.thy ===== *)
theory Sponsors
  imports Catalogue
begin

text \<open>
  \<open>src/src/server/repositories/sponsors.repository.ts\<close> and
  \<open>src/src/server/services/sponsors.service.ts\<close>: the sponsors of the home page and the
  footer, their levels and their dense order. The advisory lock every write takes is the
  atomicity of a transaction. A logo has been inspected and stored before the transaction;
  its key and dimensions are arguments, and the storage calls around it are outside the
  store.
\<close>

section \<open>The repository\<close>

definition ONE_PRESENTING :: string where "ONE_PRESENTING = ''sponsors_one_presenting''"

definition rethrowPresenting :: "pg_error \<Rightarrow> app_error" where
  "rethrowPresenting err =
    (if isUniqueViolation err ONE_PRESENTING then SponsorPresentingConflictError else PgError err)"

text \<open>The enum's declaration order.\<close>

definition level_rank :: "sponsor_level \<Rightarrow> nat" where
  "level_rank l = (case l of Presenting \<Rightarrow> 0 | Partner \<Rightarrow> 1 | Supporter \<Rightarrow> 2)"

definition display_order :: "sponsor_row list \<Rightarrow> sponsor_row list" where
  "display_order rs =
    sort_key (\<lambda>p. level_rank (sp_level p)) (sort_key sp_position
      (sort_key sp_createdAt (sort_key sp_id rs)))"

definition sponsor_findById :: "uuid \<Rightarrow> db \<Rightarrow> sponsor_row option" where
  "sponsor_findById i s = row_by sp_id i (sponsors s)"

definition sponsors_listAll :: "db \<Rightarrow> sponsor_row list" where
  "sponsors_listAll s = display_order (sponsors s)"

definition sponsors_listActive :: "db \<Rightarrow> sponsor_row list" where
  "sponsors_listActive s = display_order (filter sp_active (sponsors s))"

definition listIdsByLevel :: "sponsor_level \<Rightarrow> db \<Rightarrow> uuid list" where
  "listIdsByLevel l s = map sp_id (display_order (filter (\<lambda>p. sp_level p = l) (sponsors s)))"

definition sponsor_insert :: "sponsor_row \<Rightarrow> sponsor_row db_tx" where
  "sponsor_insert row =
    mapError rethrowPresenting (andThen (insert_sponsors [row]) (\<lambda>_. return_tx row))"

definition sponsor_update :: "uuid \<Rightarrow> (sponsor_row \<Rightarrow> sponsor_row) \<Rightarrow> sponsor_row option db_tx" where
  "sponsor_update i patch =
    mapError rethrowPresenting (andThen (update_sponsors (\<lambda>p. sp_id p = i) patch)
      (\<lambda>rows. return_tx (first_row rows)))"

text \<open>\<open>ON DELETE SET NULL\<close>: the events it presented keep their rows.\<close>

definition sponsor_delete :: "uuid \<Rightarrow> sponsor_row option db_tx" where
  "sponsor_delete i s =
    (let gone = filter (\<lambda>p. sp_id p = i) (sponsors s)
     in Inr (first_row gone,
          s\<lparr>sponsors := delete_rows (\<lambda>p. sp_id p = i) (sponsors s),
            events := (if gone = [] then events s
              else update_rows (\<lambda>e. e_presentingSponsorId e = Some i)
                     (\<lambda>e. e\<lparr>e_presentingSponsorId := None\<rparr>) (events s))\<rparr>))"

definition presenting_to_demote :: "uuid option \<Rightarrow> db \<Rightarrow> uuid option" where
  "presenting_to_demote keepId s =
    map_option sp_id (first_row (filter (\<lambda>p. sp_level p = Presenting \<and> Some (sp_id p) \<noteq> keepId) (sponsors s)))"

definition demotePresenting :: "uuid option \<Rightarrow> instant \<Rightarrow> sponsor_row option db_tx" where
  "demotePresenting keepId at =
    andThen (read_tx (presenting_to_demote keepId)) (\<lambda>current.
    case current of
      None \<Rightarrow> return_tx None
    | Some i \<Rightarrow>
        andThen (mapError PgError (update_sponsors (\<lambda>p. sp_level p = Partner)
          (\<lambda>p. p\<lparr>sp_position := sp_position p + 1\<rparr>))) (\<lambda>_.
        andThen (mapError PgError (update_sponsors (\<lambda>p. sp_id p = i)
          (\<lambda>p. p\<lparr>sp_level := Partner, sp_position := 1, sp_updatedAt := at\<rparr>))) (\<lambda>rows.
        return_tx (first_row rows))))"

text \<open>The position a list gives an id, from 1.\<close>

fun place_of :: "uuid list \<Rightarrow> uuid \<Rightarrow> int option" where
  "place_of [] i = None"
| "place_of (x # xs) i = (if x = i then Some 1 else map_option (\<lambda>n. n + 1) (place_of xs i))"

definition renumber :: "uuid list \<Rightarrow> unit db_tx" where
  "renumber ids =
    (if ids = [] then return_tx ()
     else mapError PgError (andThen
       (update_sponsors (\<lambda>p. case place_of ids (sp_id p) of None \<Rightarrow> False | Some n \<Rightarrow> sp_position p \<noteq> n)
         (\<lambda>p. p\<lparr>sp_position := (case place_of ids (sp_id p) of None \<Rightarrow> sp_position p | Some n \<Rightarrow> n)\<rparr>))
       (\<lambda>_. return_tx ())))"

section \<open>The service\<close>

record sponsor_input =
  sn_name :: jstr
  sn_websiteUrl :: "jstr option"
  sn_level :: sponsor_level
  sn_tileTone :: tile_tone
  sn_active :: bool
  sn_position :: "int option"

record stored_logo =
  sl_key :: jstr
  sl_width :: double
  sl_height :: double

text \<open>
  \<open>placeIn\<close>: the requested place clamped to 1...n+1, the end when there is none (the type
  makes every requested place an integer).
\<close>

definition placeIn :: "uuid list \<Rightarrow> uuid \<Rightarrow> int option \<Rightarrow> uuid list \<times> int" where
  "placeIn order i requested =
    (let last = int (length order) + 1;
         position = (case requested of None \<Rightarrow> last | Some n \<Rightarrow> min (max n 1) last);
         k = nat (position - 1)
     in (take k order @ [i] @ drop k order, position))"

definition fill_sponsor :: "sponsor_input \<Rightarrow> sponsor_row \<Rightarrow> sponsor_row" where
  "fill_sponsor inp p =
    p\<lparr>sp_name := sn_name inp, sp_websiteUrl := sn_websiteUrl inp, sp_level := sn_level inp,
      sp_tileTone := sn_tileTone inp, sp_active := sn_active inp\<rparr>"

definition new_sponsor_row ::
  "instant \<Rightarrow> uuid \<Rightarrow> sponsor_input \<Rightarrow> stored_logo \<Rightarrow> int \<Rightarrow> sponsor_row" where
  "new_sponsor_row at i inp logo position =
    \<lparr>sp_id = i, sp_name = sn_name inp, sp_websiteUrl = sn_websiteUrl inp, sp_level = sn_level inp,
     sp_logoKey = sl_key logo, sp_logoWidth = sl_width logo, sp_logoHeight = sl_height logo,
     sp_tileTone = sn_tileTone inp, sp_active = sn_active inp, sp_position = position,
     sp_createdAt = at, sp_updatedAt = at\<rparr>"

definition sponsor_create ::
  "instant \<Rightarrow> uuid \<Rightarrow> sponsor_input \<Rightarrow> stored_logo \<Rightarrow> (sponsor_row \<times> sponsor_row option) db_tx" where
  "sponsor_create at i inp logo =
    andThen (if sn_level inp = Presenting then demotePresenting None at else return_tx None) (\<lambda>demoted.
    andThen (read_tx (listIdsByLevel (sn_level inp))) (\<lambda>order.
    case placeIn order i (sn_position inp) of (order', position) \<Rightarrow>
      andThen (sponsor_insert (new_sponsor_row at i inp logo position)) (\<lambda>row.
      andThen (renumber order') (\<lambda>_.
      return_tx (row, demoted)))))"

definition sponsor_edit ::
  "instant \<Rightarrow> sponsor_input \<Rightarrow> stored_logo option \<Rightarrow> int \<Rightarrow> sponsor_row \<Rightarrow> sponsor_row" where
  "sponsor_edit at inp logo position p =
    (let q = (fill_sponsor inp p)\<lparr>sp_position := position, sp_updatedAt := at\<rparr>
     in case logo of None \<Rightarrow> q
        | Some l \<Rightarrow> q\<lparr>sp_logoKey := sl_key l, sp_logoWidth := sl_width l, sp_logoHeight := sl_height l\<rparr>)"

definition sponsor_update_tx ::
  "instant \<Rightarrow> uuid \<Rightarrow> sponsor_input \<Rightarrow> stored_logo option
    \<Rightarrow> (sponsor_row \<times> jstr option \<times> sponsor_row option) db_tx" where
  "sponsor_update_tx at i inp logo =
    andThen (read_tx (sponsor_findById i)) (\<lambda>found.
    andThen (non_null found (SponsorNotFoundError i)) (\<lambda>current.
    andThen (if sn_level inp = Presenting then demotePresenting (Some i) at else return_tx None) (\<lambda>demoted.
    andThen (read_tx (listIdsByLevel (sn_level inp))) (\<lambda>ids.
    let order = filter (\<lambda>x. x \<noteq> i) ids;
        sameLevel = (sp_level current = sn_level inp);
        requested = (case sn_position inp of Some n \<Rightarrow> Some n
                     | None \<Rightarrow> if sameLevel then Some (sp_position current) else None)
    in case placeIn order i requested of (order', position) \<Rightarrow>
      andThen (sponsor_update i (sponsor_edit at inp logo position)) (\<lambda>updated.
      andThen (non_null updated (SponsorNotFoundError i)) (\<lambda>row.
      andThen (renumber order') (\<lambda>_.
      andThen (if sameLevel then return_tx ()
               else andThen (read_tx (listIdsByLevel (sp_level current))) renumber) (\<lambda>_.
      return_tx (row, if logo = None then None else Some (sp_logoKey current), demoted)))))))))"

definition sponsor_update_service ::
  "db \<Rightarrow> instant \<Rightarrow> uuid \<Rightarrow> sponsor_input \<Rightarrow> stored_logo option
    \<Rightarrow> (sponsor_row \<times> jstr option \<times> sponsor_row option) db_tx" where
  "sponsor_update_service snap at i inp logo =
    andThen (non_null (sponsor_findById i snap) (SponsorNotFoundError i)) (\<lambda>_.
    sponsor_update_tx at i inp logo)"

definition sponsor_setActive :: "instant \<Rightarrow> uuid \<Rightarrow> bool \<Rightarrow> sponsor_row db_tx" where
  "sponsor_setActive at i active =
    andThen (sponsor_update i (\<lambda>p. p\<lparr>sp_active := active, sp_updatedAt := at\<rparr>)) (\<lambda>row.
    non_null row (SponsorNotFoundError i))"

definition sponsor_setPosition :: "uuid \<Rightarrow> int \<Rightarrow> sponsor_row db_tx" where
  "sponsor_setPosition i position =
    andThen (read_tx (sponsor_findById i)) (\<lambda>found.
    andThen (non_null found (SponsorNotFoundError i)) (\<lambda>current.
    andThen (read_tx (listIdsByLevel (sp_level current))) (\<lambda>ids.
    case placeIn (filter (\<lambda>x. x \<noteq> i) ids) i (Some position) of (order', placed) \<Rightarrow>
      andThen (renumber order') (\<lambda>_.
      return_tx (current\<lparr>sp_position := placed\<rparr>)))))"

definition sponsor_remove :: "uuid \<Rightarrow> sponsor_row db_tx" where
  "sponsor_remove i =
    andThen (sponsor_delete i) (\<lambda>found.
    andThen (non_null found (SponsorNotFoundError i)) (\<lambda>deleted.
    andThen (read_tx (listIdsByLevel (sp_level deleted))) (\<lambda>ids.
    andThen (renumber ids) (\<lambda>_.
    return_tx deleted))))"

definition listForAdmin :: "db \<Rightarrow> (sponsor_level \<times> sponsor_row list) list" where
  "listForAdmin snap =
    map (\<lambda>l. (l, filter (\<lambda>p. sp_level p = l) (sponsors_listAll snap))) [Presenting, Partner, Supporter]"

text \<open>What the public pages draw; \<open>publicUrl\<close> is the storage's.\<close>

record public_sponsor =
  ps_id :: uuid
  ps_name :: jstr
  ps_websiteUrl :: "jstr option"
  ps_level :: sponsor_level
  ps_tileTone :: tile_tone
  ps_logoUrl :: jstr
  ps_logoWidth :: double
  ps_logoHeight :: double

definition listPublic :: "(jstr \<Rightarrow> jstr) \<Rightarrow> db \<Rightarrow> public_sponsor list" where
  "listPublic publicUrl snap =
    map (\<lambda>p. \<lparr>ps_id = sp_id p, ps_name = sp_name p, ps_websiteUrl = sp_websiteUrl p, ps_level = sp_level p,
        ps_tileTone = sp_tileTone p, ps_logoUrl = publicUrl (sp_logoKey p),
        ps_logoWidth = sp_logoWidth p, ps_logoHeight = sp_logoHeight p\<rparr>)
      (sponsors_listActive snap)"

end
