(* ===== verification/Covers.thy ===== *)
theory Covers
  imports Catalogue
begin

text \<open>
  Cover images: the rules of \<open>src/src/server/lib/cover-image.ts\<close> and the upload steps of
  \<open>events.service.ts\<close>. The text of an id, the random part of a key and what the object
  storage reports of an object are arguments; a size that is no integer is \<open>None\<close>.
\<close>

section \<open>cover-image.ts\<close>

definition COVER_IMAGE_MAX_BYTES :: int where "COVER_IMAGE_MAX_BYTES = 5 * 1024 * 1024"

definition COVER_IMAGE_TYPES :: "(jstr \<times> jstr) list" where
  "COVER_IMAGE_TYPES =
    [(lit ''image/jpeg'', lit ''jpg''), (lit ''image/png'', lit ''png''),
     (lit ''image/webp'', lit ''webp'')]"

text \<open>The members every JavaScript object inherits: \<open>in\<close> and \<open>[]\<close> find them too.\<close>

definition OBJECT_MEMBERS :: "jstr list" where
  "OBJECT_MEMBERS = map lit
    [''constructor'', ''__proto__'', ''hasOwnProperty'', ''isPrototypeOf'',
     ''propertyIsEnumerable'', ''toLocaleString'', ''toString'', ''valueOf'',
     ''__defineGetter__'', ''__defineSetter__'', ''__lookupGetter__'', ''__lookupSetter__'']"

record cover_meta =
  cm_contentType :: jstr
  cm_size :: "int option"

definition validateCoverImage :: "cover_meta \<Rightarrow> unit result" where
  "validateCoverImage m =
    (if map_of COVER_IMAGE_TYPES (cm_contentType m) = None \<and> cm_contentType m \<notin> set OBJECT_MEMBERS
     then Inl (CoverImageInvalidError CoverWrongType)
     else case cm_size m of
         None \<Rightarrow> Inl (CoverImageInvalidError CoverEmpty)
       | Some n \<Rightarrow>
           if n \<le> 0 then Inl (CoverImageInvalidError CoverEmpty)
           else if n > COVER_IMAGE_MAX_BYTES then Inl (CoverImageInvalidError CoverTooBig)
           else Inr ())"

definition coverImagePrefix :: "(uuid \<Rightarrow> jstr) \<Rightarrow> uuid \<Rightarrow> jstr" where
  "coverImagePrefix text i = lit ''events/'' @ text i @ lit ''/''"

text \<open>\<open>member_text\<close> is what an inherited member prints as; it is never empty.\<close>

definition coverImageKey ::
  "(uuid \<Rightarrow> jstr) \<Rightarrow> (jstr \<Rightarrow> jstr) \<Rightarrow> jstr \<Rightarrow> uuid \<Rightarrow> jstr \<Rightarrow> jstr result" where
  "coverImageKey text member_text nano i contentType =
    (case map_of COVER_IMAGE_TYPES contentType of
       Some ext \<Rightarrow> Inr (coverImagePrefix text i @ lit ''cover-'' @ nano @ lit ''.'' @ ext)
     | None \<Rightarrow>
         if contentType \<in> set OBJECT_MEMBERS
         then Inr (coverImagePrefix text i @ lit ''cover-'' @ nano @ lit ''.'' @ member_text contentType)
         else Inl (CoverImageInvalidError CoverWrongType))"

definition key_char :: "nat \<Rightarrow> bool" where
  "key_char c \<longleftrightarrow> is_upper c \<or> is_lower c \<or> is_digit c \<or> c = 95 \<or> c = 45"

text \<open>\<open>/^cover-[A-Za-z0-9_-]{12}\.(jpg|png|webp)$/\<close>\<close>

definition cover_name :: "jstr \<Rightarrow> bool" where
  "cover_name r \<longleftrightarrow>
    take 6 r = lit ''cover-'' \<and> length (take 12 (drop 6 r)) = 12 \<and>
    list_all key_char (take 12 (drop 6 r)) \<and>
    drop 18 r \<in> set (map lit [''.jpg'', ''.png'', ''.webp''])"

definition isCoverKeyForEvent :: "(uuid \<Rightarrow> jstr) \<Rightarrow> jstr \<Rightarrow> uuid \<Rightarrow> bool" where
  "isCoverKeyForEvent text key i \<longleftrightarrow>
    (let prefix = coverImagePrefix text i
     in take (length prefix) key = prefix \<and> cover_name (drop (length prefix) key))"

section \<open>The upload\<close>

text \<open>What is presigned: the key, the type and the size the PUT is bound to.\<close>

definition createCoverUpload ::
  "(uuid \<Rightarrow> jstr) \<Rightarrow> (jstr \<Rightarrow> jstr) \<Rightarrow> jstr \<Rightarrow> uuid \<Rightarrow> cover_meta \<Rightarrow> db
    \<Rightarrow> (jstr \<times> jstr \<times> int option) result" where
  "createCoverUpload text member_text nano i m snap =
    bindE (getEvent i snap) (\<lambda>_.
    bindE (validateCoverImage m) (\<lambda>_.
    bindE (coverImageKey text member_text nano i (cm_contentType m)) (\<lambda>key.
    Inr (key, cm_contentType m, cm_size m))))"

text \<open>
  \<open>head\<close> is what the storage reports of a key: nothing, or a type and a size that may each
  be missing. The old object is deleted after the row points at the new one.
\<close>

definition setCoverImage ::
  "(uuid \<Rightarrow> jstr) \<Rightarrow> (jstr \<Rightarrow> (jstr option \<times> int option) option) \<Rightarrow> db \<Rightarrow> instant \<Rightarrow> uuid \<Rightarrow> jstr
    \<Rightarrow> event_row db_tx" where
  "setCoverImage text head snap now i key =
    andThen (lift_tx (getEvent i snap)) (\<lambda>_.
    andThen (require_tx (isCoverKeyForEvent text key i) (CoverImageNotUploadedError key)) (\<lambda>_.
    andThen (lift_tx (case head key of
        Some (Some contentType, Some n) \<Rightarrow>
          validateCoverImage \<lparr>cm_contentType = contentType, cm_size = Some n\<rparr>
      | _ \<Rightarrow> Inl (CoverImageNotUploadedError key))) (\<lambda>_.
    andThen (setImageKey now i (Some key)) (\<lambda>updated.
    non_null updated (EventNotFoundError i)))))"

definition coverImageUrl :: "(jstr \<Rightarrow> jstr) \<Rightarrow> event_row \<Rightarrow> jstr option" where
  "coverImageUrl publicUrl e =
    (if falsy (e_imageKey e) then None else map_option publicUrl (e_imageKey e))"

section \<open>Facts\<close>

text \<open>A key the server issued for one of the three types is one it accepts for that event.\<close>

lemma issued_key_accepted:
  assumes "coverImageKey text member_text nano i ct = Inr key" "map_of COVER_IMAGE_TYPES ct \<noteq> None"
    and "length nano = 12" "list_all key_char nano"
  shows "isCoverKeyForEvent text key i"
proof -
  have six: "length (lit ''cover-'') = 6" by (simp add: lit_def)
  obtain ext where ext: "map_of COVER_IMAGE_TYPES ct = Some ext" using assms(2) by auto
  then have e: "lit ''.'' @ ext \<in> set (map lit [''.jpg'', ''.png'', ''.webp''])"
    by (auto simp: COVER_IMAGE_TYPES_def lit_def split: if_splits)
  have key: "key = coverImagePrefix text i @ lit ''cover-'' @ nano @ lit ''.'' @ ext"
    using assms(1) ext by (simp add: coverImageKey_def)
  have "drop 6 (lit ''cover-'' @ nano @ lit ''.'' @ ext) = nano @ lit ''.'' @ ext"
    "drop 18 (lit ''cover-'' @ nano @ lit ''.'' @ ext) = lit ''.'' @ ext"
    "take 6 (lit ''cover-'' @ nano @ lit ''.'' @ ext) = lit ''cover-''"
    using assms(3) six by simp_all
  then show ?thesis
    using e assms(3,4) by (simp add: isCoverKeyForEvent_def key cover_name_def Let_def)
qed

end
