(* ===== verification/Laws.thy ===== *)
theory Laws
  imports DoorDesk TicketService PromoAdmin Sponsors Covers
begin

text \<open>
  What every service call keeps if every repository statement keeps it. The locales are the
  interfaces between the repositories and the services: \<open>side_law\<close> for the services that move
  no order (passes, undoing a check-in, the catalogue, renaming), \<open>gate_law\<close> for scanning,
  \<open>order_law\<close> for the orders, \<open>repository_law\<close> for all of them. The retries and rollbacks are part
  of what the lemmas carry the predicate through.
\<close>

lemma keeps_reads:
  "keeps I (order_findByIdForUpdate i)" "keeps I (ticket_findByIdForUpdate i)"
  "keeps I (countOpenForBuyer e ph now)" "keeps I (countIssuedByOrder i)" "keeps I (lockActivePass p)"
  unfolding order_findByIdForUpdate_def ticket_findByIdForUpdate_def countOpenForBuyer_def
    countIssuedByOrder_def lockActivePass_def
  by (intro keeps_intros)+

text \<open>What may commit in between keeps it too.\<close>

lemma keeps_meanwhile: "(\<And>x. I x \<Longrightarrow> I (f x)) \<Longrightarrow> keeps I (meanwhile f)"
  by (rule keepsI) (auto simp: meanwhile_def)

text \<open>
  The audit rows without statuses: none of them records an approval, whose rows date the sales.
\<close>

lemma note_actions:
  "lit ''email.resend_requested'' \<noteq> lit ''payment.approved''" "lit ''ticket.renamed'' \<noteq> lit ''payment.approved''"
  "lit ''ticket.check_in_undone'' \<noteq> lit ''payment.approved''" "lit ''ticket.checked_in'' \<noteq> lit ''payment.approved''"
  by simp_all

locale side_law =
  fixes I :: "db \<Rightarrow> bool"
  assumes note_row: "act \<noteq> lit ''payment.approved'' \<Longrightarrow> keeps I (order_insertEvent (audit ts i actor act None None n))"
    and tickets: "keeps I (ticket_undoCheckIn ts i sc)" "keeps I (updateAttendeeName ts i old new)"
    and door: "keeps I (insertPass pass)" "keeps I (repo_revokePass ts i)" "keeps I (insertScan scn)"
      "keeps I (insertDecision dec)"
    and ticketTypes: "keeps I (createTicketType ts i e inp)" "keeps I (ticketType_update ts i inp)"
      "keeps I (ticketType_delete i)"
    and events: "keeps I (event_insert ev)" "(\<And>e. e_id (f e) = e_id e) \<Longrightarrow> keeps I (event_update i slug sp f)"
      "keeps I (transitionStatus ts i st st')" "keeps I (setImageKey ts i key)"
    and promos: "keeps I (promo_insert ts i code v ids)" "keeps I (promo_update ts i v ids)"
      "keeps I (promo_setActive ts i b)" "keeps I (promo_delete i)"
    and sponsors: "keeps I (sponsor_insert sp_row)" "(\<And>p. sp_id (g p) = sp_id p) \<Longrightarrow> keeps I (sponsor_update i g)"
      "keeps I (sponsor_delete i)" "keeps I (demotePresenting keep ts)" "keeps I (renumber ids)"
begin

lemmas side = note_row note_actions tickets door ticketTypes events promos sponsors keeps_reads

section \<open>Tickets and email\<close>

lemma resendTicketsEmail: "keeps I (resendTicketsEmail snap ts i a)"
  unfolding resendTicketsEmail_def by (intro keeps_intros side)

lemma renameAttendee: "keeps I (renameAttendee snap ts now c n)"
  unfolding renameAttendee_def case_prod_unfold by (intro keeps_intros side)

section \<open>The door\<close>

lemma createPass: "keeps I (createPass snap ts now ids codes e l a)"
  unfolding createPass_def by (intro keeps_intros side)

lemma revokePass: "keeps I (revokePass snap ts now e p)"
  unfolding revokePass_def by (intro keeps_intros side)

lemma undo_each: "keeps I (undo_each ts p reason actor cs)"
proof (induction cs)
  case (Cons c cs)
  then show ?case unfolding undo_each.simps case_prod_unfold by (intro keeps_intros side)
qed (simp only: undo_each.simps keeps_basic)

lemma revokeAndUndo: "keeps I (revokeAndUndo snap ts now e p reason actor)"
  unfolding revokeAndUndo_def revoke_undo_tx_def case_prod_unfold
  by (intro keeps_intros side undo_each)

lemma undoOwnAdmit: "keeps I (undoOwnAdmit snap ts now ctx sc reason)"
  unfolding undoOwnAdmit_def by (intro keeps_intros side)

lemma undoCheckInAsAdmin: "keeps I (undoCheckInAsAdmin clock ts i o' sc reason actor)"
  unfolding undoCheckInAsAdmin_def by (intro keeps_intros side)

lemma decide: "keeps I (decide snap rcv now ctx sc d)"
  unfolding decide_def by (intro keeps_intros side)

section \<open>The catalogue\<close>

lemma updateTicketType: "keeps I (updateTicketType now i inp)"
  unfolding updateTicketType_def by (intro keeps_intros side)

lemma deleteTicketType: "keeps I (deleteTicketType snap i)"
  unfolding deleteTicketType_def by (intro keeps_intros side)

lemma createEvent: "keeps I (createEvent cl sl ts i inp)"
  unfolding createEvent_def by (intro side)

lemma updateEvent: "keeps I (updateEvent cl sl now i inp)"
  unfolding updateEvent_def by (intro keeps_intros side) (simp add: fill_event_def Let_def)

lemma changeEventStatus: "keeps I (changeEventStatus snap now i st)"
  unfolding changeEventStatus_def by (intro keeps_intros side)

lemma setCoverImage: "keeps I (setCoverImage text head snap now i key)"
  unfolding setCoverImage_def by (intro keeps_intros side)

lemma removeCoverImage: "keeps I (removeCoverImage snap now i)"
  unfolding removeCoverImage_def by (intro keeps_intros side)

lemma promo_create: "keeps I (promo_create ts i inp)"
  unfolding promo_create_def by (intro side)

lemma promo_edit: "keeps I (promo_edit now i v ids)"
  unfolding promo_edit_def by (intro keeps_intros side)

lemma promo_switch: "keeps I (promo_switch now i b)"
  unfolding promo_switch_def by (intro keeps_intros side)

lemma promo_remove: "keeps I (promo_remove snap i)"
  unfolding promo_remove_def by (intro keeps_intros side)

lemma sponsor_create: "keeps I (sponsor_create at i inp logo)"
  unfolding sponsor_create_def case_prod_unfold by (intro keeps_intros side)

lemma sponsor_update_service: "keeps I (sponsor_update_service snap at i inp logo)"
  unfolding sponsor_update_service_def sponsor_update_tx_def Let_def case_prod_unfold
  by (intro keeps_intros side) (simp add: sponsor_edit_def fill_sponsor_def Let_def split: option.splits)

lemma sponsor_setActive: "keeps I (sponsor_setActive at i b)"
  unfolding sponsor_setActive_def by (intro keeps_intros side) simp

lemma sponsor_setPosition: "keeps I (sponsor_setPosition i n)"
  unfolding sponsor_setPosition_def case_prod_unfold by (intro keeps_intros side)

lemma sponsor_remove: "keeps I (sponsor_remove i)"
  unfolding sponsor_remove_def by (intro keeps_intros side)

end

locale gate_law = side_law +
  assumes checkIn: "keeps I (ticket_checkIn ts i gate sc at)"
begin

text \<open>A scan, while the other gates keep it too.\<close>

lemma admit_tx:
  assumes "\<And>k x. I x \<Longrightarrow> I (env k x)"
  shows "keeps I (admit_tx env ts now rcv ctx item t inp)"
  unfolding admit_tx_def admit_attempts_def record_admission_def record_refusal_def Let_def
    case_prod_unfold
  by (intro keeps_intros side checkIn keeps_meanwhile assms; assumption)

lemma fresh_scan:
  assumes "\<And>k x. I x \<Longrightarrow> I (env k x)"
  shows "keeps I (fresh_scan snap env ts now rcv ctx item)"
  unfolding fresh_scan_def Let_def case_prod_unfold
  by (intro keeps_intros side checkIn admit_tx assms; assumption)

lemma scan:
  assumes "\<And>k x. I x \<Longrightarrow> I (env k x)"
  shows "keeps I (scan snap env after ts now rcv ctx item)"
proof (rule keepsI)
  have fresh: "keeps I (fresh_scan snap env ts now rcv ctx item)"
    by (rule fresh_scan) (rule assms)
  fix s x s' assume s: "I s" "scan snap env after ts now rcv ctx item s = Inr (x, s')"
  then have "s' = s \<or> fresh_scan snap env ts now rcv ctx item s = Inr (x, s')"
    by (simp add: scan_def split: option.splits sum.splits app_error.splits)
  then show "I s'" using keepsD [OF fresh _ s(1)] s(1) by blast
qed

end

text \<open>The expiry job keeps what expiring one hold keeps.\<close>

lemma expire_each_keeps:
  assumes "\<And>h. keeps I (expire_one ts h)"
  shows "I s \<Longrightarrow> I (snd (expire_each ts hs run s))"
  by (induction hs arbitrary: run s) (auto split: sum.splits dest: keepsD [OF assms])

lemma expiry_keeps:
  assumes "\<And>h. keeps I (expire_one ts h)"
  shows "I s \<Longrightarrow> I (snd (expireLapsedHolds ts at s))"
proof -
  have "I s \<Longrightarrow> I (snd (expire_batches n ts at run s))" for n run
  proof (induction n arbitrary: run s)
    case (Suc n)
    have "I s'" if "expire_each ts hs run s = (run', s')" for hs run' s'
      using expire_each_keeps [OF assms Suc.prems, of hs run] that by simp
    then show ?case using Suc by (auto simp: Let_def split: prod.splits)
  qed simp
  then show "I s \<Longrightarrow> I (snd (expireLapsedHolds ts at s))" unfolding expireLapsedHolds_def .
qed

locale order_law =
  fixes I :: "db \<Rightarrow> bool"
  assumes inventory: "keeps I (hold t q)" "keeps I (release t q)" "keeps I (convertToSold t q)"
      "keeps I (releaseSold t q)"
    and orders: "keeps I (order_insert row)" "keeps I (transition ts i frm to patch)"
      "keeps I (order_insertEvent ev)"
    and issuing: "keeps I (tickets_insertMany (tickets_for ts ord d))" "keeps I (ticket_cancel ts i)"
begin

lemmas law = inventory orders issuing keeps_reads

section \<open>Orders\<close>

lemma createOrder: "keeps I (createOrder snap ts at ids refs inp)"
  unfolding createOrder_def createOrder_tx_def by (intro keeps_intros law)

lemma submitPayment: "keeps I (submitPayment ts now i x m)"
  unfolding submitPayment_def Let_def by (intro keeps_intros law)

lemma expire_one: "keeps I (expire_one ts h)"
  unfolding expire_one_def by (intro keeps_intros law)

lemma expireLapsedHolds: "I s \<Longrightarrow> I (snd (expireLapsedHolds ts at s))"
  by (rule expiry_keeps) (rule expire_one)

lemma approveOrder: "keeps I (approveOrder ts draw i a v)"
  unfolding approveOrder_def approve_tx_def by (intro keeps_intros law)

lemma issueComplimentary: "keeps I (issueComplimentaryTickets snap ts draw inp)"
  unfolding issueComplimentaryTickets_def comp_tx_def by (intro keeps_intros law)

lemma rejectOrder: "keeps I (rejectOrder ts i a rs nt)"
  unfolding rejectOrder_def Let_def by (intro keeps_intros law)

lemma cancelTicket: "keeps I (cancelTicket ts tk i a rs)"
  unfolding cancelTicket_def by (intro keeps_intros law)

end

locale repository_law = gate_law + order_law

end
