(* ===== verification/System.thy ===== *)
theory System
  imports Laws
begin

text \<open>
  The whole server over its store: any sequence of service calls, each on the store the ones
  before it committed. The snapshots a call read before its transaction are arbitrary, and so
  are the clocks, the generated ids and the codes; between two statements of a scan, any calls
  may commit.
\<close>

inductive run :: "db \<Rightarrow> db \<Rightarrow> bool" where
  run_refl: "run s s"
| run_createOrder: "run s s1 \<Longrightarrow> createOrder snap ts at ids refs inp s1 = Inr (r1, s2) \<Longrightarrow> run s s2"
| run_submitPayment: "run s s1 \<Longrightarrow> submitPayment ts now i x m s1 = Inr (r2, s2) \<Longrightarrow> run s s2"
| run_expire: "run s s1 \<Longrightarrow> expireLapsedHolds ts at s1 = (r3, s2) \<Longrightarrow> run s s2"
| run_approve: "run s s1 \<Longrightarrow> approveOrder ts draw i actor v s1 = Inr (r4, s2) \<Longrightarrow> run s s2"
| run_comp: "run s s1 \<Longrightarrow> issueComplimentaryTickets snap ts draw cinp s1 = Inr (r5, s2) \<Longrightarrow> run s s2"
| run_reject: "run s s1 \<Longrightarrow> rejectOrder ts i actor reason nt s1 = Inr (r6, s2) \<Longrightarrow> run s s2"
| run_cancel: "run s s1 \<Longrightarrow> cancelTicket ts tk i actor reason s1 = Inr (r7, s2) \<Longrightarrow> run s s2"
| run_resend: "run s s1 \<Longrightarrow> resendTicketsEmail snap ts i actor s1 = Inr (r8, s2) \<Longrightarrow> run s s2"
| run_rename: "run s s1 \<Longrightarrow> renameAttendee snap ts now c n s1 = Inr (r9, s2) \<Longrightarrow> run s s2"
| run_createPass: "run s s1 \<Longrightarrow> createPass snap ts now pids pcodes i l actor s1 = Inr (r10, s2) \<Longrightarrow> run s s2"
| run_revokePass: "run s s1 \<Longrightarrow> revokePass snap ts now i p s1 = Inr (r11, s2) \<Longrightarrow> run s s2"
| run_revokeAndUndo:
    "run s s1 \<Longrightarrow> revokeAndUndo snap ts now i p reason actor s1 = Inr (r12, s2) \<Longrightarrow> run s s2"
| run_scan: "run s s1 \<Longrightarrow> (\<And>k x. run x (env k x)) \<Longrightarrow>
    scan snap env after ts now rcv ctx item s1 = Inr (r13, s2) \<Longrightarrow> run s s2"
| run_undoOwn: "run s s1 \<Longrightarrow> undoOwnAdmit snap ts now ctx sc why s1 = Inr (r14, s2) \<Longrightarrow> run s s2"
| run_undoAdmin:
    "run s s1 \<Longrightarrow> undoCheckInAsAdmin clock ts tk i sc reason actor s1 = Inr (r15, s2) \<Longrightarrow> run s s2"
| run_decide: "run s s1 \<Longrightarrow> decide snap rcv now ctx sc dec s1 = Inr (r16, s2) \<Longrightarrow> run s s2"
| run_createType: "run s s1 \<Longrightarrow> createTicketType ts i e tinp s1 = Inr (r17, s2) \<Longrightarrow> run s s2"
| run_updateType: "run s s1 \<Longrightarrow> updateTicketType now i tinp s1 = Inr (r18, s2) \<Longrightarrow> run s s2"
| run_deleteType: "run s s1 \<Longrightarrow> deleteTicketType snap i s1 = Inr (r19, s2) \<Longrightarrow> run s s2"
| run_createEvent: "run s s1 \<Longrightarrow> createEvent clean slug ts i einp s1 = Inr (r20, s2) \<Longrightarrow> run s s2"
| run_updateEvent: "run s s1 \<Longrightarrow> updateEvent clean slug now i einp s1 = Inr (r21, s2) \<Longrightarrow> run s s2"
| run_eventStatus: "run s s1 \<Longrightarrow> changeEventStatus snap now i st s1 = Inr (r22, s2) \<Longrightarrow> run s s2"
| run_setCover: "run s s1 \<Longrightarrow> setCoverImage text head snap now i key s1 = Inr (r33, s2) \<Longrightarrow> run s s2"
| run_removeCover: "run s s1 \<Longrightarrow> removeCoverImage snap now i s1 = Inr (r23, s2) \<Longrightarrow> run s s2"
| run_promoCreate: "run s s1 \<Longrightarrow> promo_create ts i pinp s1 = Inr (r24, s2) \<Longrightarrow> run s s2"
| run_promoEdit: "run s s1 \<Longrightarrow> promo_edit now i pv pids' s1 = Inr (r25, s2) \<Longrightarrow> run s s2"
| run_promoSwitch: "run s s1 \<Longrightarrow> promo_switch now i b s1 = Inr (r26, s2) \<Longrightarrow> run s s2"
| run_promoRemove: "run s s1 \<Longrightarrow> promo_remove snap i s1 = Inr (r27, s2) \<Longrightarrow> run s s2"
| run_sponsorCreate: "run s s1 \<Longrightarrow> sponsor_create at i sinp logo s1 = Inr (r28, s2) \<Longrightarrow> run s s2"
| run_sponsorUpdate:
    "run s s1 \<Longrightarrow> sponsor_update_service snap at i sinp ologo s1 = Inr (r29, s2) \<Longrightarrow> run s s2"
| run_sponsorActive: "run s s1 \<Longrightarrow> sponsor_setActive at i b s1 = Inr (r30, s2) \<Longrightarrow> run s s2"
| run_sponsorPosition: "run s s1 \<Longrightarrow> sponsor_setPosition i pos s1 = Inr (r31, s2) \<Longrightarrow> run s s2"
| run_sponsorRemove: "run s s1 \<Longrightarrow> sponsor_remove i s1 = Inr (r32, s2) \<Longrightarrow> run s s2"

section \<open>Laws carried along a run\<close>

locale service_law = side_law +
  assumes createOrder: "keeps I (createOrder snap ts at ids refs inp)"
    and submitPayment: "keeps I (submitPayment ts now i x m)"
    and expireLapsedHolds: "I s \<Longrightarrow> I (snd (expireLapsedHolds ts at s))"
    and approveOrder: "keeps I (approveOrder ts draw i actor v)"
    and issueComplimentary: "keeps I (issueComplimentaryTickets snap ts draw cinp)"
    and rejectOrder: "keeps I (rejectOrder ts i actor reason nt)"
    and cancelTicket: "keeps I (cancelTicket ts tk i actor reason)"
    and scan: "(\<And>k x. I x \<Longrightarrow> I (env k x)) \<Longrightarrow> keeps I (scan snap env after ts now rcv ctx item)"
begin

lemmas steps =
  createOrder [THEN keepsD] submitPayment [THEN keepsD] approveOrder [THEN keepsD]
  issueComplimentary [THEN keepsD] rejectOrder [THEN keepsD] cancelTicket [THEN keepsD]
  resendTicketsEmail [THEN keepsD] renameAttendee [THEN keepsD] createPass [THEN keepsD]
  revokePass [THEN keepsD] revokeAndUndo [THEN keepsD] undoOwnAdmit [THEN keepsD]
  undoCheckInAsAdmin [THEN keepsD] decide [THEN keepsD] ticketTypes(1) [THEN keepsD]
  updateTicketType [THEN keepsD] deleteTicketType [THEN keepsD] createEvent [THEN keepsD]
  updateEvent [THEN keepsD] changeEventStatus [THEN keepsD] setCoverImage [THEN keepsD] removeCoverImage [THEN keepsD]
  promo_create [THEN keepsD] promo_edit [THEN keepsD] promo_switch [THEN keepsD]
  promo_remove [THEN keepsD] sponsor_create [THEN keepsD] sponsor_update_service [THEN keepsD]
  sponsor_setActive [THEN keepsD] sponsor_setPosition [THEN keepsD] sponsor_remove [THEN keepsD]

lemma run_keeps: "run s s' \<Longrightarrow> I s \<Longrightarrow> I s'"
proof (induction rule: run.induct)
  case (run_expire s s1 ts at r3 s2)
  then show ?case using expireLapsedHolds [of s1 ts at] by simp
next
  case (run_scan s s1 env snap "after" ts now rcv ctx item r13 s2)
  have "keeps I (scan snap env after ts now rcv ctx item)"
    by (rule scan) (erule run_scan.IH(2))
  from keepsD [OF this run_scan.hyps(3)] show ?case using run_scan.IH(1) run_scan.prems by simp
qed (assumption | erule steps, simp)+

end

sublocale repository_law \<subseteq> services: service_law
  by unfold_locales (rule createOrder submitPayment approveOrder issueComplimentary rejectOrder
      cancelTicket | erule expireLapsedHolds | rule scan, blast)+

end
