(* ===== verification/SystemLaws.thy ===== *)
theory SystemLaws
  imports System OrderBooks
begin

text \<open>
  The laws a run of the server keeps, each as an interpretation: the table constraints and the
  append-only logs (statement by statement), what never changes of an order, a ticket or a
  pass (repository call by repository call), and the books (service by service).
\<close>

section \<open>Statement by statement\<close>

locale statement_law =
  fixes I :: "db \<Rightarrow> bool"
  assumes inserts: "keeps I (insert_events es)" "keeps I (insert_ticket_types tts)"
      "keeps I (insert_promo_codes ps)" "keeps I (insert_restrictions rs)" "keeps I (insert_orders os)"
      "keeps I (insert_order_events evs)" "keeps I (insert_tickets tks)" "keeps I (insert_door_passes dps)"
      "keeps I (insert_door_scans scs)" "keeps I (insert_door_decisions dds)" "keeps I (insert_sponsors sps)"
    and updates: "(\<And>r. e_id (fe r) = e_id r) \<Longrightarrow> keeps I (update_events pe fe)"
      "(\<And>r. tt_id (ft r) = tt_id r) \<Longrightarrow> keeps I (update_ticket_types pt ft)"
      "(\<And>r. p_id (fp r) = p_id r) \<Longrightarrow> keeps I (update_promo_codes pp fp)"
      "(\<And>r. o_id (fo r) = o_id r) \<Longrightarrow> keeps I (update_orders po fo)"
      "(\<And>r. t_id (fk r) = t_id r) \<Longrightarrow> keeps I (update_tickets pk fk)"
      "(\<And>r. dp_id (fd r) = dp_id r) \<Longrightarrow> keeps I (update_door_passes pd fd)"
      "(\<And>r. sp_id (fs r) = sp_id r) \<Longrightarrow> keeps I (update_sponsors ps' fs)"
    and deletes: "keeps I (delete_ticket_type i)" "keeps I (clear_restrictions i)" "keeps I (delete_promo i)"
      "keeps I (sponsor_delete i)"
begin

lemmas statements = inserts updates deletes

lemma insertDecision: "keeps I (insertDecision row)"
proof (rule keepsI)
  fix s x s' assume "I s" "insertDecision row s = Inr (x, s')"
  moreover have "keeps I (mapError PgError (andThen (insert_door_decisions [row]) (\<lambda>_. return_tx True)))"
    by (intro keeps_intros statements)
  ultimately show "I s'" by (auto simp: insertDecision_def split: if_splits dest: keepsD)
qed

end

sublocale statement_law \<subseteq> repository_law
  by (unfold_locales, unfold repo_defs door_repo_defs inventory_defs createTicketType_def
      catalogue_defs ticketType_delete_def promo_insert_def promo_update_def promo_setActive_def
      promo_delete_def insert_restrictions_of_def sponsor_insert_def sponsor_update_def
      demotePresenting_def renumber_def Let_def)
    (intro keeps_intros statements insertDecision; simp add: edit_ticket_type_def edit_promo_def)+

section \<open>The constraints\<close>

text \<open>A DELETE leaves the constraints of its own table, and those of the rows that do not name
  what it deleted.\<close>

lemma check_rows_filter: "check_rows cs rs = None \<Longrightarrow> check_rows cs (filter P rs) = None"
  by (auto simp: check_rows_None list_all_iff)

lemma unique_rows_filter: "unique_rows n key rs = None \<Longrightarrow> unique_rows n key (filter P rs) = None"
proof -
  have "filter (\<lambda>x. key x \<noteq> None) (filter P rs) = filter P (filter (\<lambda>x. key x \<noteq> None) rs)"
    by (simp add: conj_commute)
  then show "unique_rows n key rs = None \<Longrightarrow> unique_rows n key (filter P rs) = None"
    unfolding unique_rows_None map_filter_def by (simp only: distinct_map_filter)
qed

lemma references_rows_filter:
  "references_rows n key ks rs = None \<Longrightarrow> references_rows n key ks (filter P rs) = None"
  by (auto simp: references_rows_None list_all_iff)

text \<open>The rows of another table do not name the deleted key.\<close>

lemma references_rows_shrink:
  assumes "references_rows n key (map kf ks) rs = None" "\<And>r. r \<in> set rs \<Longrightarrow> key r \<noteq> Some i"
  shows "references_rows n key (map kf (filter (\<lambda>k. kf k \<noteq> i) ks)) rs = None"
  using assms by (fastforce simp: references_rows_None list_all_iff split: option.splits)

lemmas rows_filter = check_rows_filter unique_rows_filter references_rows_filter

lemma delete_ticket_type_ok: "keeps db_ok (delete_ticket_type i)"
proof (rule keepsI)
  fix s n s' assume ok: "db_ok s" and d: "delete_ticket_type i s = Inr (n, s')"
  show "db_ok s'"
  proof (cases "filter (\<lambda>t. tt_id t = i) (ticketTypes s) = []")
    case True
    then have "delete_rows (\<lambda>t. tt_id t = i) (ticketTypes s) = ticketTypes s"
      by (auto simp: delete_rows_def filter_empty_conv filter_id_conv)
    then show ?thesis using d ok True by (simp add: delete_ticket_type_def Let_def)
  next
    case False
    then have s': "s' = s\<lparr>ticketTypes := filter (\<lambda>t. tt_id t \<noteq> i) (ticketTypes s)\<rparr>"
      and free: "i \<notin> o_ticketTypeId ` set (orders s)" "i \<notin> t_ticketTypeId ` set (tickets s)"
        "i \<notin> snd ` set (promoCodeTicketTypes s)"
      using d by (auto simp: delete_ticket_type_def delete_rows_def Let_def split: if_splits)
    have ne: "\<And>r. r \<in> set (orders s) \<Longrightarrow> o_ticketTypeId r \<noteq> i"
      "\<And>t. t \<in> set (tickets s) \<Longrightarrow> t_ticketTypeId t \<noteq> i"
      "\<And>r. r \<in> set (promoCodeTicketTypes s) \<Longrightarrow> snd r \<noteq> i"
      using free by auto
    show ?thesis
      using ok unfolding s' db_ok_def
      by (simp add: violation_defs first_violation_None rows_filter references_rows_shrink ne)
  qed
qed

lemma clear_restrictions_ok: "keeps db_ok (clear_restrictions i)"
proof (rule keepsI)
  fix s n s' assume ok: "db_ok s" and d: "clear_restrictions i s = Inr (n, s')"
  have s': "s' = s\<lparr>promoCodeTicketTypes := filter (\<lambda>r. fst r \<noteq> i) (promoCodeTicketTypes s)\<rparr>"
    using d by (simp add: clear_restrictions_def delete_rows_def)
  show "db_ok s'"
    using ok unfolding s' db_ok_def by (simp add: violation_defs first_violation_None rows_filter)
qed

lemma delete_promo_ok: "keeps db_ok (delete_promo i)"
proof (rule keepsI)
  fix s n s' assume ok: "db_ok s" and d: "delete_promo i s = Inr (n, s')"
  show "db_ok s'"
  proof (cases "filter (\<lambda>p. p_id p = i) (promoCodes s) = []")
    case True
    then have "delete_rows (\<lambda>p. p_id p = i) (promoCodes s) = promoCodes s"
      by (auto simp: delete_rows_def filter_empty_conv filter_id_conv)
    then show ?thesis using d ok True by (simp add: delete_promo_def Let_def)
  next
    case False
    then have s': "s' = s\<lparr>promoCodes := filter (\<lambda>p. p_id p \<noteq> i) (promoCodes s),
        promoCodeTicketTypes := filter (\<lambda>r. fst r \<noteq> i) (promoCodeTicketTypes s)\<rparr>"
      and free: "\<And>r. r \<in> set (orders s) \<Longrightarrow> o_promoCodeId r \<noteq> Some i"
      using d by (auto simp: delete_promo_def delete_rows_def image_iff Let_def split: if_splits)
    have "references_rows n (\<lambda>r. Some (fst r)) (map p_id (filter (\<lambda>p. p_id p \<noteq> i) (promoCodes s)))
        (filter (\<lambda>r. fst r \<noteq> i) (promoCodeTicketTypes s)) = None"
      if "references_rows n (\<lambda>r. Some (fst r)) (map p_id (promoCodes s)) (promoCodeTicketTypes s) = None"
      for n
      by (rule references_rows_shrink) (use that in \<open>auto intro: rows_filter\<close>)
    then show ?thesis
      using ok unfolding s' db_ok_def
      by (simp add: violation_defs first_violation_None rows_filter references_rows_shrink free)
  qed
qed

lemma sponsor_delete_ok: "keeps db_ok (sponsor_delete i)"
proof (rule keepsI)
  fix s n s' assume ok: "db_ok s" and d: "sponsor_delete i s = Inr (n, s')"
  show "db_ok s'"
  proof (cases "filter (\<lambda>p. sp_id p = i) (sponsors s) = []")
    case True
    then have "delete_rows (\<lambda>p. sp_id p = i) (sponsors s) = sponsors s"
      by (auto simp: delete_rows_def filter_empty_conv filter_id_conv)
    then show ?thesis using d ok True by (auto simp: sponsor_delete_def Let_def)
  next
    case False
    let ?f = "\<lambda>e. e\<lparr>e_presentingSponsorId := None\<rparr>"
    let ?es = "update_rows (\<lambda>e. e_presentingSponsorId e = Some i) ?f (events s)"
    have s': "s' = s\<lparr>sponsors := filter (\<lambda>p. sp_id p \<noteq> i) (sponsors s), events := ?es\<rparr>"
      using d False by (auto simp: sponsor_delete_def delete_rows_def Let_def)
    have ids: "map e_id ?es = map e_id (events s)" "map e_slug ?es = map e_slug (events s)"
      by (rule map_update_rows; simp)+
    have ev: "events_violation s (events s) = None" using ok by (simp add: db_ok_def)
    have "events_violation s' ?es = None"
      using ev ids
      by (auto simp: s' events_violation_def first_violation_None check_rows_None unique_rows_None
          references_rows_None list_all_iff event_checks_def set_update_rows map_filter_Some image_iff
          split: option.splits) blast
    then show ?thesis
      using ok unfolding s' db_ok_def
      by (auto simp: violation_defs first_violation_None ids intro: rows_filter)
  qed
qed

interpretation constraints: statement_law db_ok
  by unfold_locales
    (intro keeps_intros delete_ticket_type_ok clear_restrictions_ok delete_promo_ok sponsor_delete_ok; simp)+

section \<open>The logs\<close>

text \<open>The audit trail and the scan log only grow.\<close>

definition grown :: "db \<Rightarrow> db \<Rightarrow> bool" where
  "grown s0 s \<longleftrightarrow>
    (\<exists>evs. orderEvents s = orderEvents s0 @ evs) \<and> (\<exists>scs. doorScans s = doorScans s0 @ scs) \<and>
    (\<exists>dds. doorDecisions s = doorDecisions s0 @ dds)"

interpretation logs: statement_law "grown s0" for s0
  by unfold_locales
    (auto simp: keeps_def tx_simps grown_def delete_ticket_type_def clear_restrictions_def
      delete_promo_def sponsor_delete_def Let_def split: if_splits)

end
