(* ===== verification/Lasting.thy ===== *)
theory Lasting
  imports SystemLaws
begin

text \<open>
  What never changes once it is written: the terms of an order, the identity of a ticket and
  everything of a cancelled one, and a pass, but for being revoked once.
\<close>

definition same_terms :: "order_row \<Rightarrow> order_row \<Rightarrow> bool" where
  "same_terms r r' \<longleftrightarrow>
    r' = r\<lparr>o_status := o_status r', o_bkashTrxId := o_bkashTrxId r',
      o_bkashSenderMsisdn := o_bkashSenderMsisdn r', o_rejectionReason := o_rejectionReason r',
      o_rejectionNote := o_rejectionNote r', o_updatedAt := o_updatedAt r'\<rparr>"

definition same_ticket :: "ticket_row \<Rightarrow> ticket_row \<Rightarrow> bool" where
  "same_ticket t t' \<longleftrightarrow>
    t' = t\<lparr>t_attendeeName := t_attendeeName t', t_status := t_status t',
      t_checkedInAt := t_checkedInAt t', t_checkedInBy := t_checkedInBy t',
      t_checkedInScanId := t_checkedInScanId t', t_updatedAt := t_updatedAt t'\<rparr> \<and>
    (t_status t = TicketCancelled \<longrightarrow> t' = t)"

definition same_pass :: "door_pass_row \<Rightarrow> door_pass_row \<Rightarrow> bool" where
  "same_pass p p' \<longleftrightarrow>
    p' = p\<lparr>dp_revokedAt := dp_revokedAt p'\<rparr> \<and> (dp_revokedAt p \<noteq> None \<longrightarrow> p' = p)"

lemma same_refl [simp]: "same_terms r r" "same_ticket t t" "same_pass p p"
  by (simp_all add: same_terms_def same_ticket_def same_pass_def)

lemma same_trans:
  "same_terms a b \<Longrightarrow> same_terms b c \<Longrightarrow> same_terms a c"
  "same_ticket t u \<Longrightarrow> same_ticket u v \<Longrightarrow> same_ticket t v"
  "same_pass p q \<Longrightarrow> same_pass q r \<Longrightarrow> same_pass p r"
proof -
  show "same_terms a b \<Longrightarrow> same_terms b c \<Longrightarrow> same_terms a c"
    unfolding same_terms_def by (cases a; cases b; cases c) simp
  show "same_ticket t u \<Longrightarrow> same_ticket u v \<Longrightarrow> same_ticket t v"
    unfolding same_ticket_def by (cases t; cases u; cases v) auto
  show "same_pass p q \<Longrightarrow> same_pass q r \<Longrightarrow> same_pass p r"
    unfolding same_pass_def by (cases p; cases q; cases r) auto
qed

text \<open>Every row of a table lives on in a later one.\<close>

definition lives_on :: "('r \<Rightarrow> 'r \<Rightarrow> bool) \<Rightarrow> 'r list \<Rightarrow> 'r list \<Rightarrow> bool" where
  "lives_on R rs rs' \<longleftrightarrow> (\<forall>r \<in> set rs. \<exists>r' \<in> set rs'. R r r')"

lemma lives_on_update:
  "(\<And>r. r \<in> set rs \<Longrightarrow> p r \<Longrightarrow> R r (f r)) \<Longrightarrow> (\<And>r. R r r) \<Longrightarrow> lives_on R rs (update_rows p f rs)"
  unfolding lives_on_def
proof
  fix r assume *: "\<And>r. r \<in> set rs \<Longrightarrow> p r \<Longrightarrow> R r (f r)" "\<And>r. R r r" "r \<in> set rs"
  then show "\<exists>r' \<in> set (update_rows p f rs). R r r'"
    by (intro bexI [of _ "if p r then f r else r"]) (auto simp: update_rows_def)
qed

lemma lives_on_append: "(\<And>r. R r r) \<Longrightarrow> lives_on R rs (rs @ new)"
  by (auto simp: lives_on_def)

lemma lives_on_trans:
  "lives_on R a b \<Longrightarrow> lives_on R b c \<Longrightarrow> (\<And>x y z. R x y \<Longrightarrow> R y z \<Longrightarrow> R x z) \<Longrightarrow> lives_on R a c"
  unfolding lives_on_def by meson

definition lasting :: "db \<Rightarrow> db \<Rightarrow> bool" where
  "lasting s0 s \<longleftrightarrow> db_ok s \<and> lives_on same_terms (orders s0) (orders s) \<and>
    lives_on same_ticket (tickets s0) (tickets s) \<and> lives_on same_pass (doorPasses s0) (doorPasses s)"

lemma lasting_step:
  assumes "lasting s0 s" "db_ok s'" "lives_on same_terms (orders s) (orders s')"
    "lives_on same_ticket (tickets s) (tickets s')" "lives_on same_pass (doorPasses s) (doorPasses s')"
  shows "lasting s0 s'"
proof -
  have l: "lives_on same_terms (orders s0) (orders s)" "lives_on same_ticket (tickets s0) (tickets s)"
    "lives_on same_pass (doorPasses s0) (doorPasses s)"
    using assms(1) by (simp_all add: lasting_def)
  show ?thesis unfolding lasting_def
    by (intro conjI assms(2) lives_on_trans [OF l(1) assms(3) same_trans(1)]
        lives_on_trans [OF l(2) assms(4) same_trans(2)] lives_on_trans [OF l(3) assms(5) same_trans(3)])
qed

lemma lives_on_refl: "lives_on same_terms os os" "lives_on same_ticket ts ts" "lives_on same_pass ps ps"
  by (auto simp: lives_on_def intro: same_refl)

lemma lasting_orders:
  assumes "keeps db_ok m" "\<And>s x s'. db_ok s \<Longrightarrow> m s = Inr (x, s') \<Longrightarrow>
      lives_on same_terms (orders s) (orders s') \<and> lives_on same_ticket (tickets s) (tickets s') \<and>
      lives_on same_pass (doorPasses s) (doorPasses s')"
  shows "keeps (lasting s0) m"
proof (rule keepsI)
  fix s x s' assume s: "lasting s0 s" "m s = Inr (x, s')"
  then have "db_ok s" by (simp add: lasting_def)
  with keepsD [OF assms(1) s(2)] assms(2) [of s x s'] s show "lasting s0 s'"
    by (intro lasting_step [OF s(1)]) auto
qed

lemma lasting_quiet:
  assumes "keeps db_ok m" "\<And>w. keeps (\<lambda>s. (orders s, tickets s, doorPasses s) = w) m"
  shows "keeps (lasting s0) m"
proof (rule lasting_orders [OF assms(1)])
  fix s x s' assume "m s = Inr (x, s')"
  then have "(orders s', tickets s', doorPasses s') = (orders s, tickets s, doorPasses s)"
    using keepsD [OF assms(2) [of "(orders s, tickets s, doorPasses s)"]] by blast
  then show "lives_on same_terms (orders s) (orders s') \<and> lives_on same_ticket (tickets s) (tickets s') \<and>
      lives_on same_pass (doorPasses s) (doorPasses s')"
    by (simp add: lives_on_refl)
qed

lemma quiet:
  fixes w defines "Q \<equiv> \<lambda>s. (orders s, tickets s, doorPasses s) = w"
  shows "keeps Q (hold t q)" "keeps Q (release t q)" "keeps Q (convertToSold t q)"
    "keeps Q (releaseSold t q)" "keeps Q (order_insertEvent ev)" "keeps Q (insertScan scn)"
    "keeps Q (insertDecision dec)" "keeps Q (createTicketType ts i e inp)"
    "keeps Q (ticketType_update ts i inp)" "keeps Q (ticketType_delete i)" "keeps Q (event_insert r)"
    "keeps Q (event_update i slug sp f)" "keeps Q (transitionStatus ts i st st')"
    "keeps Q (setImageKey ts i key)" "keeps Q (promo_setActive ts i b)" "keeps Q (promo_delete i)"
    "keeps Q (sponsor_insert spr)" "keeps Q (sponsor_update i g)" "keeps Q (sponsor_delete i)"
  unfolding keeps_def Q_def
  by (auto simp: tx_simps inventory_defs createTicketType_def catalogue_defs ticketType_delete_def
      delete_ticket_type_def promo_setActive_def promo_delete_def delete_promo_def
      sponsor_insert_def sponsor_update_def sponsor_delete_def insertDecision_def Let_def
      split: if_splits)

lemma quiet_multi:
  fixes w defines "Q \<equiv> \<lambda>s. (orders s, tickets s, doorPasses s) = w"
  shows "keeps Q (promo_insert ts i code v ids)" "keeps Q (promo_update ts i v ids)"
    "keeps Q (demotePresenting keep ts)" "keeps Q (renumber ids)"
  unfolding keeps_def Q_def
  by (auto simp: tx_simps promo_insert_def promo_update_def insert_restrictions_of_def
      clear_restrictions_def demotePresenting_def renumber_def Let_def split: if_splits option.splits)

lemmas lasting_quiets =
  lasting_quiet [OF _ quiet(1)] lasting_quiet [OF _ quiet(2)] lasting_quiet [OF _ quiet(3)]
  lasting_quiet [OF _ quiet(4)] lasting_quiet [OF _ quiet(5)] lasting_quiet [OF _ quiet(6)]
  lasting_quiet [OF _ quiet(7)] lasting_quiet [OF _ quiet(8)] lasting_quiet [OF _ quiet(9)]
  lasting_quiet [OF _ quiet(10)] lasting_quiet [OF _ quiet(11)] lasting_quiet [OF _ quiet(12)]
  lasting_quiet [OF _ quiet(13)] lasting_quiet [OF _ quiet(14)] lasting_quiet [OF _ quiet(15)]
  lasting_quiet [OF _ quiet(16)] lasting_quiet [OF _ quiet(17)] lasting_quiet [OF _ quiet(18)]
  lasting_quiet [OF _ quiet(19)] lasting_quiet [OF _ quiet_multi(1)] lasting_quiet [OF _ quiet_multi(2)]
  lasting_quiet [OF _ quiet_multi(3)] lasting_quiet [OF _ quiet_multi(4)]

text \<open>On an accepted store a cancelled ticket is not checked in.\<close>

lemma checked_in_issued:
  "db_ok s \<Longrightarrow> t \<in> set (tickets s) \<Longrightarrow> t_checkedInAt t \<noteq> None \<Longrightarrow> t_status t = TicketIssued"
  using db_ok_tickets [of s]
  by (auto simp: tickets_violation_def first_violation_None check_rows_None ticket_checks_def list_all_iff)

lemma lasting_moves:
  "keeps (lasting s0) (order_insert row)" "keeps (lasting s0) (transition ts i frm to patch)"
  "keeps (lasting s0) (tickets_insertMany (tickets_for ts ord d))" "keeps (lasting s0) (ticket_cancel ts i)"
  "keeps (lasting s0) (ticket_checkIn ts i gate sc at)" "keeps (lasting s0) (ticket_undoCheckIn ts i sc)"
  "keeps (lasting s0) (updateAttendeeName ts i old new)" "keeps (lasting s0) (insertPass pass)"
  "keeps (lasting s0) (repo_revokePass ts i)"
proof -
  note k = constraints.law constraints.side
  show "keeps (lasting s0) (order_insert row)"
    by (rule lasting_orders [OF k(5)]) (auto simp: tx_simps lives_on_refl intro!: lives_on_append)
  show "keeps (lasting s0) (transition ts i frm to patch)"
    by (rule lasting_orders [OF k(6)])
      (auto simp: transition_def tx_simps lives_on_refl same_terms_def apply_patch_def
        intro!: lives_on_update)
  show "keeps (lasting s0) (tickets_insertMany (tickets_for ts ord d))"
    by (rule lasting_orders [OF k(8)])
      (auto simp: tickets_insertMany_def tx_simps lives_on_refl split: if_splits
        intro!: lives_on_append)
  show "keeps (lasting s0) (ticket_cancel ts i)"
    by (rule lasting_orders [OF k(9)])
      (auto simp: ticket_cancel_def tx_simps lives_on_refl same_ticket_def intro!: lives_on_update)
  show "keeps (lasting s0) (ticket_checkIn ts i gate sc at)"
    by (rule lasting_orders [OF constraints.checkIn])
      (auto simp: ticket_checkIn_def tx_simps lives_on_refl same_ticket_def intro!: lives_on_update)
  show "keeps (lasting s0) (ticket_undoCheckIn ts i sc)"
    by (rule lasting_orders [OF constraints.tickets(1)])
      (auto simp: ticket_undoCheckIn_def tx_simps lives_on_refl same_ticket_def
        dest: checked_in_issued intro!: lives_on_update)
  show "keeps (lasting s0) (updateAttendeeName ts i old new)"
    by (rule lasting_orders [OF constraints.tickets(2)])
      (auto simp: updateAttendeeName_def tx_simps lives_on_refl same_ticket_def intro!: lives_on_update)
  show "keeps (lasting s0) (insertPass pass)"
    by (rule lasting_orders [OF constraints.door(1)]) (auto simp: tx_simps lives_on_refl intro!: lives_on_append)
  show "keeps (lasting s0) (repo_revokePass ts i)"
    by (rule lasting_orders [OF constraints.door(2)])
      (auto simp: repo_revokePass_def tx_simps lives_on_refl same_pass_def intro!: lives_on_update)
qed

interpretation terms: repository_law "lasting s0" for s0
  by unfold_locales
    (rule lasting_moves lasting_quiets constraints.law constraints.side constraints.checkIn | assumption)+

end
