(* ===== verification/SystemBooks.thy ===== *)
theory SystemBooks
  imports Lasting Expiry
begin

text \<open>
  The books hold along every run: what the door, the catalogue, the promo codes and the sponsors
  write leaves the seats, the tickets and the trails as they were.
\<close>

section \<open>Frames\<close>

lemma books_frame:
  assumes "books_ok s" "db_ok s'" "orders s' = orders s" "tickets s' = tickets s"
    "orderEvents s' = orderEvents s" "held_seats s' = held_seats s" "sold_seats s' = sold_seats s"
  shows "books_ok s'"
proof -
  note k = books_okD [OF assms(1)]
  have "seats_balanced s'" using k(2) unfolding seats_balanced_def assms(3-7) .
  moreover have "tickets_match s'" using k(3) unfolding tickets_match_def live_ticket_of_def assms(3,4) .
  moreover have "trail_ok s'" using k(4) unfolding trail_ok_def trail_def assms(3,5) .
  ultimately show ?thesis using assms(2) by (simp add: books_ok_def)
qed

lemma books_keeps:
  assumes "keeps db_ok m"
    "\<And>s x s'. db_ok s \<Longrightarrow> db_ok s' \<Longrightarrow> books_ok s \<Longrightarrow> m s = Inr (x, s') \<Longrightarrow>
      orders s' = orders s \<and> tickets s' = tickets s \<and> orderEvents s' = orderEvents s \<and>
      held_seats s' = held_seats s \<and> sold_seats s' = sold_seats s"
  shows "keeps books_ok m"
proof (rule keepsI)
  fix s x s' assume s: "books_ok s" "m s = Inr (x, s')"
  then have "db_ok s" by (simp add: books_ok_def)
  moreover from keepsD [OF assms(1) s(2) this] have "db_ok s'" .
  ultimately show "books_ok s'" using assms(2) [of s s' x] s by (intro books_frame [OF s(1)]) auto
qed

text \<open>Statements that leave these four tables alone.\<close>

lemma books_quiet:
  assumes "keeps db_ok m"
    "\<And>w. keeps (\<lambda>s. (orders s, tickets s, orderEvents s, ticketTypes s) = w) m"
  shows "keeps books_ok m"
proof (rule books_keeps [OF assms(1)])
  fix s x s' assume "m s = Inr (x, s')"
  from keepsD [OF assms(2) [of "(orders s, tickets s, orderEvents s, ticketTypes s)"] this]
  show "orders s' = orders s \<and> tickets s' = tickets s \<and> orderEvents s' = orderEvents s \<and>
      held_seats s' = held_seats s \<and> sold_seats s' = sold_seats s"
    by (auto simp: seat_of_def fun_eq_iff)
qed

lemma four_tables:
  fixes w defines "Q \<equiv> \<lambda>s. (orders s, tickets s, orderEvents s, ticketTypes s) = w"
  shows "keeps Q (insertPass pass)" "keeps Q (repo_revokePass ts i)" "keeps Q (insertScan scn)"
    "keeps Q (insertDecision dec)" "keeps Q (event_insert r)" "keeps Q (event_update i slug sp f)"
    "keeps Q (transitionStatus ts i st st')" "keeps Q (setImageKey ts i key)"
    "keeps Q (promo_setActive ts i b)" "keeps Q (promo_delete i)" "keeps Q (sponsor_insert spr)"
    "keeps Q (sponsor_update i g)" "keeps Q (sponsor_delete i)" "keeps Q (promo_insert ts i code v ids)"
    "keeps Q (promo_update ts i v ids)" "keeps Q (demotePresenting keep ts)" "keeps Q (renumber ids)"
  unfolding keeps_def Q_def
  by (auto simp: tx_simps repo_revokePass_def catalogue_defs promo_setActive_def promo_delete_def
      delete_promo_def sponsor_insert_def sponsor_update_def sponsor_delete_def insertDecision_def
      promo_insert_def promo_update_def insert_restrictions_of_def clear_restrictions_def
      demotePresenting_def renumber_def Let_def split: if_splits option.splits)

lemmas books_quiets =
  books_quiet [OF _ four_tables(1)] books_quiet [OF _ four_tables(2)] books_quiet [OF _ four_tables(3)]
  books_quiet [OF _ four_tables(4)] books_quiet [OF _ four_tables(5)] books_quiet [OF _ four_tables(6)]
  books_quiet [OF _ four_tables(7)] books_quiet [OF _ four_tables(8)] books_quiet [OF _ four_tables(9)]
  books_quiet [OF _ four_tables(10)] books_quiet [OF _ four_tables(11)] books_quiet [OF _ four_tables(12)]
  books_quiet [OF _ four_tables(13)] books_quiet [OF _ four_tables(14)] books_quiet [OF _ four_tables(15)]
  books_quiet [OF _ four_tables(16)] books_quiet [OF _ four_tables(17)]

section \<open>Notes and check-ins\<close>

lemma note_books: "keeps books_ok (order_insertEvent (audit ts i actor act None None n))"
proof (rule keepsI)
  fix s x s' assume s: "books_ok s" "order_insertEvent (audit ts i actor act None None n) s = Inr (x, s')"
  note k = books_okD [OF s(1)]
  have s': "s' = s\<lparr>orderEvents := orderEvents s @ [audit ts i actor act None None n]\<rparr>"
    using s(2) by (auto simp: tx_simps)
  have evs: "orderEvents s' = orderEvents s @ [audit ts i actor act None None n]"
    and tabs: "orders s' = orders s" "tickets s' = tickets s" "\<And>g. seat_of g s' = seat_of g s"
    by (simp_all add: s')
  have "trail_ok s'" by (rule trail_note [OF k(4) tabs(1) evs]) simp
  moreover have "db_ok s'" by (rule keepsD [OF constraints.orders(3) s(2) k(1)])
  ultimately show "books_ok s'"
    using k(2,3)
    unfolding books_ok_def seats_balanced_def tickets_match_def live_ticket_of_def tabs by blast
qed

lemma tickets_rewrite_keeps:
  assumes f: "\<And>t. t_id (f t) = t_id t \<and> t_orderId (f t) = t_orderId t \<and>
      t_ticketTypeId (f t) = t_ticketTypeId t \<and> t_status (f t) = t_status t"
  shows "keeps books_ok (mapError PgError (andThen (update_tickets p f) (\<lambda>rows. return_tx (first_row rows))))"
proof (rule keepsI)
  let ?m = "mapError PgError (andThen (update_tickets p f) (\<lambda>rows. return_tx (first_row rows)))"
  fix s x s' assume s: "books_ok s" "?m s = Inr (x, s')"
  note k = books_okD [OF s(1)]
  have s': "s' = s\<lparr>tickets := update_rows p f (tickets s)\<rparr>" using s(2) by (auto simp: tx_simps)
  have "keeps db_ok ?m" by (intro keeps_intros) (simp add: f)
  from keepsD [OF this s(2) k(1)] have ok: "db_ok s'" .
  have "trail_ok s'" using k(4) by (simp add: s' trail_ok_def trail_def)
  then show "books_ok s'"
    by (intro tickets_rewrite_books [OF s(1) ok, of f p]) (simp_all add: s' f)
qed

lemma check_in_books: "keeps books_ok (ticket_checkIn ts i gate sc at)"
  and undo_check_in_books: "keeps books_ok (ticket_undoCheckIn ts i sc)"
  and rename_books: "keeps books_ok (updateAttendeeName ts i old new)"
  unfolding ticket_checkIn_def ticket_undoCheckIn_def updateAttendeeName_def
  by (rule tickets_rewrite_keeps; simp)+

section \<open>Ticket types\<close>

lemma create_type_books: "keeps books_ok (createTicketType ts i e inp)"
proof (rule books_keeps [OF constraints.ticketTypes(1)])
  fix s x s' assume ok: "db_ok s'" and c: "createTicketType ts i e inp s = Inr (x, s')"
  have s': "s' = s\<lparr>ticketTypes := ticketTypes s @ [new_ticket_type ts i e inp]\<rparr>"
    using c by (auto simp: createTicketType_def ticketType_insert_def tx_simps)
  have "i \<notin> tt_id ` set (ticketTypes s)"
    using ticket_types_ok(1) [OF db_ok_ticket_types [OF ok]] by (simp add: s' new_ticket_type_def)
  then have none: "row_by tt_id i (ticketTypes s) = None" by (simp add: row_by_None)
  have "seat_of g s' = seat_of g s" if "g (new_ticket_type ts i e inp) = 0" for g
    using none that
    by (auto simp: seat_of_def fun_eq_iff s' row_by_append new_ticket_type_def split: option.splits)
  then show "orders s' = orders s \<and> tickets s' = tickets s \<and> orderEvents s' = orderEvents s \<and>
      held_seats s' = held_seats s \<and> sold_seats s' = sold_seats s"
    by (simp add: s' new_ticket_type_def)
qed

lemma update_type_books: "keeps books_ok (ticketType_update now i inp)"
proof (rule books_keeps [OF constraints.ticketTypes(2)])
  fix s x s' assume c: "ticketType_update now i inp s = Inr (x, s')"
  have s': "s' = s\<lparr>ticketTypes := update_rows (\<lambda>t. tt_id t = i) (edit_ticket_type now inp) (ticketTypes s)\<rparr>"
    using c by (auto simp: ticketType_update_def tx_simps)
  have id: "tt_id (edit_ticket_type now inp t) = tt_id t" for t by (simp add: edit_ticket_type_def)
  have "seat_of g s' = seat_of g s" if "\<And>t. g (edit_ticket_type now inp t) = g t" for g
    by (auto simp: seat_of_def fun_eq_iff s' row_by_update_rows that id split: option.splits)
  then show "orders s' = orders s \<and> tickets s' = tickets s \<and> orderEvents s' = orderEvents s \<and>
      held_seats s' = held_seats s \<and> sold_seats s' = sold_seats s"
    by (simp add: s' edit_ticket_type_def)
qed

lemma delete_type_books: "keeps books_ok (ticketType_delete i)"
proof (rule books_keeps [OF constraints.ticketTypes(3)])
  fix s x s' assume b: "books_ok s" and c: "ticketType_delete i s = Inr (x, s')"
  show "orders s' = orders s \<and> tickets s' = tickets s \<and> orderEvents s' = orderEvents s \<and>
      held_seats s' = held_seats s \<and> sold_seats s' = sold_seats s"
  proof (cases "row_by tt_id i (ticketTypes s)")
    case None
    then have "delete_rows (\<lambda>t. tt_id t = i) (ticketTypes s) = ticketTypes s"
      by (auto simp: row_by_None delete_rows_def filter_id_conv)
    then show ?thesis
      using c by (auto simp: ticketType_delete_def delete_ticket_type_def tx_simps Let_def split: if_splits)
  next
    case (Some tt)
    then have "filter (\<lambda>t. tt_id t = i) (ticketTypes s) \<noteq> []"
      by (auto simp: filter_empty_conv dest: row_by_Some)
    then have s': "s' = s\<lparr>ticketTypes := delete_rows (\<lambda>t. tt_id t = i) (ticketTypes s)\<rparr>"
      and free: "i \<notin> o_ticketTypeId ` set (orders s)" "i \<notin> t_ticketTypeId ` set (tickets s)"
      using c by (auto simp: ticketType_delete_def delete_ticket_type_def tx_simps Let_def split: if_splits)
    have "total_of (pending_weight i) (orders s) = 0" "total_of (live_weight i) (tickets s) = 0"
      using free by (auto intro!: total_zero simp: pending_weight_def live_weight_def)
    then have zero: "held_seats s i = 0" "sold_seats s i = 0"
      using books_okD(2) [OF b] by (simp_all add: seats_balanced_def)
    have row: "row_by tt_id j (delete_rows (\<lambda>t. tt_id t = i) rs) = (if j = i then None else row_by tt_id j rs)"
      for j rs
      by (induction rs) (auto simp: delete_rows_def)
    have "seat_of g s' j = (if j = i then 0 else seat_of g s j)" for g j
      by (simp add: seat_of_def s' row)
    then show ?thesis using zero by (auto simp: s' fun_eq_iff)
  qed
qed

interpretation gate_books: gate_law books_ok
  by unfold_locales
    (rule note_books check_in_books undo_check_in_books rename_books create_type_books update_type_books
      delete_type_books books_quiets constraints.side | assumption)+

lemma expire_books:
  assumes "books_ok s"
  shows "books_ok (snd (expireLapsedHolds ts at s))"
proof -
  let ?run = "\<lparr>xr_expired = 0, xr_failed = 0, xr_skipped = []\<rparr>"
  have "\<exists>run' s'. expire_batches EXPIRY_MAX_BATCHES ts at ?run s = (run', s') \<and> books_ok s'"
    using expire_batches_succeeds [OF assms expired_from_refl, of ?run EXPIRY_MAX_BATCHES ts at] by auto
  then show ?thesis by (auto simp: expireLapsedHolds_def)
qed

interpretation books: service_law books_ok
  by unfold_locales
    (auto intro: keepsI createOrder_books submitPayment_books approveOrder_books issueComplimentary_books
      rejectOrder_books cancelTicket_books expire_books gate_books.scan)

end
