(* ===== verification/DoorBooks.thy ===== *)
theory DoorBooks
  imports SystemBooks Lasting
begin

text \<open>
  The door's book: every check-in that stands was logged as an admission of that very ticket,
  by the scan the ticket names. Only a scan's admitting transaction checks anyone in, and it
  logs in the same commit; everything else keeps the book row by row.
\<close>

definition logged_in :: "db \<Rightarrow> ticket_row \<Rightarrow> bool" where
  "logged_in s t \<longleftrightarrow>
    (\<forall>sc. t_checkedInScanId t = Some sc \<longrightarrow>
      (\<exists>d \<in> set (doorScans s). ds_scanId d = sc \<and> ds_result d = ScanAdmitted \<and>
        ds_ticketId d = Some (t_id t) \<and> ds_mode d \<noteq> Practice))"

definition door_ok :: "db \<Rightarrow> bool" where
  "door_ok s \<longleftrightarrow> db_ok s \<and> (\<forall>t \<in> set (tickets s). logged_in s t)"

text \<open>Tickets that keep their check-in or lose it, while the log grows.\<close>

definition no_new_check_in :: "db \<Rightarrow> db \<Rightarrow> bool" where
  "no_new_check_in s s' \<longleftrightarrow>
    (\<forall>t' \<in> set (tickets s'). t_checkedInScanId t' = None \<or>
      (\<exists>t \<in> set (tickets s). t_id t = t_id t' \<and> t_checkedInScanId t = t_checkedInScanId t'))"

lemma no_new_check_in_same: "tickets s' = tickets s \<Longrightarrow> no_new_check_in s s'"
  by (auto simp: no_new_check_in_def)

lemma door_ok_step:
  assumes "door_ok s" "db_ok s'" "no_new_check_in s s'" "grown s s'"
  shows "door_ok s'"
proof -
  have scans: "set (doorScans s) \<subseteq> set (doorScans s')" using assms(4) by (auto simp: grown_def)
  have "logged_in s' t'" if "t' \<in> set (tickets s')" for t'
    using assms(1,3) that scans unfolding door_ok_def no_new_check_in_def logged_in_def by fastforce
  then show ?thesis using assms(2) by (simp add: door_ok_def)
qed

lemma grown_refl: "grown s s"
  by (simp add: grown_def)

lemma lasting_refl: "db_ok s \<Longrightarrow> lasting s s"
  by (simp add: lasting_def lives_on_refl)

text \<open>An operation that checks nobody in.\<close>

definition quietly :: "'a db_tx \<Rightarrow> bool" where
  "quietly m \<longleftrightarrow> (\<forall>s x s'. m s = Inr (x, s') \<longrightarrow> no_new_check_in s s')"

lemma tickets_same:
  fixes w defines "Q \<equiv> \<lambda>s. tickets s = w"
  shows "keeps Q (order_insertEvent ev)" "keeps Q (insertPass pass)" "keeps Q (repo_revokePass ts i)"
    "keeps Q (insertScan scn)" "keeps Q (insertDecision dec)" "keeps Q (createTicketType ts i e inp)"
    "keeps Q (ticketType_update ts i inp)" "keeps Q (ticketType_delete i)" "keeps Q (event_insert r)"
    "keeps Q (event_update i slug sp f)" "keeps Q (transitionStatus ts i st st')"
    "keeps Q (setImageKey ts i key)" "keeps Q (promo_insert ts i code v ids)"
    "keeps Q (promo_update ts i v ids)" "keeps Q (promo_setActive ts i b)" "keeps Q (promo_delete i)"
    "keeps Q (sponsor_insert spr)" "keeps Q (sponsor_update i g)" "keeps Q (sponsor_delete i)"
    "keeps Q (demotePresenting keep ts)" "keeps Q (renumber ids)"
    "keeps Q (hold t q)" "keeps Q (release t q)" "keeps Q (convertToSold t q)" "keeps Q (releaseSold t q)"
    "keeps Q (order_insert row)" "keeps Q (transition ts i frm to patch)"
  unfolding keeps_def Q_def
  by (auto simp: tx_simps repo_revokePass_def insertDecision_def createTicketType_def catalogue_defs
      ticketType_delete_def delete_ticket_type_def promo_setActive_def promo_delete_def delete_promo_def
      promo_insert_def promo_update_def insert_restrictions_of_def clear_restrictions_def
      sponsor_insert_def sponsor_update_def sponsor_delete_def demotePresenting_def renumber_def
      inventory_defs transition_def Let_def split: if_splits option.splits)

lemma quietly_same:
  assumes "\<And>w. keeps (\<lambda>s. tickets s = w) m"
  shows "quietly m"
  unfolding quietly_def
proof (intro allI impI no_new_check_in_same)
  fix s x s' assume "m s = Inr (x, s')"
  then show "tickets s' = tickets s" using keepsD [OF assms [of "tickets s"]] by blast
qed

lemmas quietly_rows =
  quietly_same [OF tickets_same(1)]
  quietly_same [OF tickets_same(2)]
  quietly_same [OF tickets_same(3)]
  quietly_same [OF tickets_same(4)]
  quietly_same [OF tickets_same(5)]
  quietly_same [OF tickets_same(6)]
  quietly_same [OF tickets_same(7)]
  quietly_same [OF tickets_same(8)]
  quietly_same [OF tickets_same(9)]
  quietly_same [OF tickets_same(10)]
  quietly_same [OF tickets_same(11)]
  quietly_same [OF tickets_same(12)]
  quietly_same [OF tickets_same(13)]
  quietly_same [OF tickets_same(14)]
  quietly_same [OF tickets_same(15)]
  quietly_same [OF tickets_same(16)]
  quietly_same [OF tickets_same(17)]
  quietly_same [OF tickets_same(18)]
  quietly_same [OF tickets_same(19)]
  quietly_same [OF tickets_same(20)]
  quietly_same [OF tickets_same(21)]
  quietly_same [OF tickets_same(22)]
  quietly_same [OF tickets_same(23)]
  quietly_same [OF tickets_same(24)]
  quietly_same [OF tickets_same(25)]
  quietly_same [OF tickets_same(26)]
  quietly_same [OF tickets_same(27)]

lemma quietly_tickets:
  "quietly (ticket_undoCheckIn ts i sc)" "quietly (updateAttendeeName ts i old new)"
  "quietly (ticket_cancel ts i)" "quietly (tickets_insertMany (tickets_for ts ord d))"
proof -
  show "quietly (ticket_undoCheckIn ts i sc)"
    by (auto simp: quietly_def ticket_undoCheckIn_def tx_simps no_new_check_in_def set_update_rows)
  show "quietly (updateAttendeeName ts i old new)"
    unfolding quietly_def by (fastforce simp: updateAttendeeName_def tx_simps no_new_check_in_def set_update_rows)
  show "quietly (ticket_cancel ts i)"
    unfolding quietly_def by (fastforce simp: ticket_cancel_def tx_simps no_new_check_in_def set_update_rows)
  show "quietly (tickets_insertMany (tickets_for ts ord d))"
    by (auto simp: quietly_def tickets_insertMany_def tx_simps no_new_check_in_def tickets_for_def
        ticket_for_def split: if_splits)
qed

text \<open>
  A law of the door's book: it survives whatever checks nobody in, appends to the logs and lets
  every row live on. Every operation but a scan is such a step.
\<close>

locale check_in_law =
  fixes I :: "db \<Rightarrow> bool"
  assumes accepted: "I s \<Longrightarrow> db_ok s"
    and step: "I s \<Longrightarrow> db_ok s' \<Longrightarrow> no_new_check_in s s' \<Longrightarrow> grown s s' \<Longrightarrow> lasting s s' \<Longrightarrow> I s'"
begin

lemma quiet_keeps:
  assumes "keeps db_ok m" "\<And>s0. keeps (grown s0) m" "\<And>s0. keeps (lasting s0) m" "quietly m"
  shows "keeps I m"
proof (rule keepsI)
  fix s x s' assume s: "I s" "m s = Inr (x, s')"
  have ok: "db_ok s" by (rule accepted [OF s(1)])
  have q: "no_new_check_in s s'" using assms(4) s(2) by (auto simp: quietly_def)
  show "I s'"
    by (rule step [OF s(1) keepsD [OF assms(1) s(2) ok] q keepsD [OF assms(2) s(2) grown_refl]
        keepsD [OF assms(3) s(2) lasting_refl [OF ok]]])
qed

end

sublocale check_in_law \<subseteq> side: side_law I
  by unfold_locales
    (rule quiet_keeps constraints.side logs.side terms.side quietly_rows quietly_tickets | assumption)+

sublocale check_in_law \<subseteq> ordering: order_law I
  by unfold_locales
    (rule quiet_keeps constraints.law logs.law terms.law quietly_rows quietly_tickets | assumption)+


interpretation door_law: check_in_law door_ok
  by unfold_locales (simp add: door_ok_def, rule door_ok_step)

section \<open>An admission\<close>

lemma ticket_checkIn_Inr:
  assumes "db_ok s" "ticket_checkIn ts i gate sc at s = Inr (r, s')"
  shows "case r of
      None \<Rightarrow> s' = s \<and> (\<forall>t. ticket_findById i s = Some t \<longrightarrow> t_status t \<noteq> TicketIssued \<or> t_checkedInAt t \<noteq> None)
    | Some t' \<Rightarrow> \<exists>t. ticket_findById i s = Some t \<and> t_status t = TicketIssued \<and> t_checkedInAt t = None \<and>
        t' = t\<lparr>t_checkedInAt := Some (case at of None \<Rightarrow> ts | Some x \<Rightarrow> x), t_checkedInBy := Some gate,
          t_checkedInScanId := Some sc, t_updatedAt := ts\<rparr> \<and>
        s' = s\<lparr>tickets := update_rows (\<lambda>q. t_id q = i) (\<lambda>_. t') (tickets s)\<rparr>"
proof -
  let ?c = "\<lambda>t. t_status t = TicketIssued \<and> t_checkedInAt t = None"
  let ?f = "\<lambda>t. t\<lparr>t_checkedInAt := Some (case at of None \<Rightarrow> ts | Some x \<Rightarrow> x), t_checkedInBy := Some gate,
          t_checkedInScanId := Some sc, t_updatedAt := ts\<rparr>"
  have d: "distinct (map t_id (tickets s))"
    using db_ok_tickets [OF assms(1)] by (auto simp: tickets_violation_def violation_None)
  have r: "r = first_row (returned (\<lambda>t. t_id t = i \<and> ?c t) ?f (tickets s))"
    and s': "s' = s\<lparr>tickets := update_rows (\<lambda>t. t_id t = i \<and> ?c t) ?f (tickets s)\<rparr>"
    using assms(2) by (auto simp: ticket_checkIn_def tx_simps)
  have uniq: "t = u" if "t \<in> set (tickets s)" "u \<in> set (tickets s)" "t_id t = t_id u" for t u
    using that d by (auto simp: distinct_map dest: inj_onD)
  show ?thesis
  proof (cases "ticket_findById i s")
    case None
    have no: "\<not> (t_id u = i \<and> ?c u)" if "u \<in> set (tickets s)" for u
      using that None by (auto simp: ticket_findById_def row_by_None)
    have "returned (\<lambda>t. t_id t = i \<and> ?c t) ?f (tickets s) = []"
      using no unfolding returned_empty by blast
    moreover have "update_rows (\<lambda>t. t_id t = i \<and> ?c t) ?f (tickets s) = tickets s"
      by (rule update_rows_none) (rule no)
    ultimately show ?thesis using None by (simp add: r s')
  next
    case (Some t)
    then have t: "t \<in> set (tickets s)" "t_id t = i" by (auto simp: ticket_findById_def dest: row_by_Some)
    show ?thesis
    proof (cases "?c t")
      case True
      have rows: "returned (\<lambda>t. t_id t = i \<and> ?c t) ?f (tickets s) = [?f t]"
        using Some True by (simp add: returned_key [OF d] ticket_findById_def)
      have "update_rows (\<lambda>q. t_id q = i \<and> ?c q) ?f (tickets s) =
          update_rows (\<lambda>q. t_id q = i) (\<lambda>_. ?f t) (tickets s)"
        unfolding update_rows_def using True t uniq by (intro map_cong refl) metis
      then show ?thesis using Some True rows by (simp add: r s')
    next
      case False
      have no: "\<not> (t_id u = i \<and> ?c u)" if "u \<in> set (tickets s)" for u
        using uniq [OF that t(1)] t(2) False by auto
      have "returned (\<lambda>t. t_id t = i \<and> ?c t) ?f (tickets s) = []"
        using no unfolding returned_empty by blast
      moreover have "update_rows (\<lambda>t. t_id t = i \<and> ?c t) ?f (tickets s) = tickets s"
        by (rule update_rows_none) (rule no)
      ultimately show ?thesis using Some False by (simp add: r s')
    qed
  qed
qed

text \<open>
  What the admitting transaction did: it either admitted, on the store as it was when its
  UPDATE found the ticket free, or it only logged a refusal. \<open>s1\<close> is that store: the one the
  transaction started on, or what the other gates made of it.
\<close>

definition admitted_row :: "instant \<Rightarrow> jstr \<Rightarrow> uuid \<Rightarrow> instant option \<Rightarrow> ticket_row \<Rightarrow> ticket_row" where
  "admitted_row ts gate sc at t =
    t\<lparr>t_checkedInAt := Some (case at of None \<Rightarrow> ts | Some x \<Rightarrow> x), t_checkedInBy := Some gate,
      t_checkedInScanId := Some sc, t_updatedAt := ts\<rparr>"

definition admits_on ::
  "instant \<Rightarrow> instant \<Rightarrow> instant \<Rightarrow> door_context \<Rightarrow> scan_item \<Rightarrow> door_ticket \<Rightarrow> jstr \<Rightarrow> scan_answer \<Rightarrow> db \<Rightarrow> db
    \<Rightarrow> bool" where
  "admits_on ts now rcv ctx item ticket inp answer s1 s' \<longleftrightarrow>
    (\<exists>t. ticket_findById (dt_id ticket) s1 = Some t \<and> t_status t = TicketIssued \<and>
      t_checkedInAt t = None \<and>
      (let t' = admitted_row ts (dp_label (cx_pass ctx)) (it_scanId item) (offline_time now ctx item) t
       in answer = (plain_answer (it_scanId item) (Logged ScanAdmitted) (scan_practice ctx item))
            \<lparr>an_ticket := Some (t_attendeeName t, dt_ticketTypeName ticket, dt_position ticket,
               dt_orderQuantity ticket),
             an_at := t_checkedInAt t', an_gate := Some (dp_label (cx_pass ctx))\<rparr> \<and>
          s' = s1\<lparr>tickets := update_rows (\<lambda>q. t_id q = dt_id ticket) (\<lambda>_. t') (tickets s1),
            orderEvents := orderEvents s1 @
              [audit ts (dt_orderId ticket) (lit ''door:'' @ dp_label (cx_pass ctx))
                (lit ''ticket.checked_in'') None None
                (check_in_note ticket (dp_label (cx_pass ctx)) item)],
            doorScans := doorScans s1 @ [scan_row now rcv ctx item (Some ticket) inp ScanAdmitted]\<rparr>))"

text \<open>The row a scan is logged with, but for the earlier check-in it may name.\<close>

definition log_of ::
  "instant \<Rightarrow> instant \<Rightarrow> door_context \<Rightarrow> scan_item \<Rightarrow> door_ticket option \<Rightarrow> jstr \<Rightarrow> scan_result
    \<Rightarrow> door_scan_row \<Rightarrow> bool" where
  "log_of now rcv ctx item ticket inp r d \<longleftrightarrow>
    (\<exists>pa pb. d = (scan_row now rcv ctx item ticket inp r)
      \<lparr>ds_priorCheckedInAt := pa, ds_priorCheckedInBy := pb\<rparr>)"

lemma log_ofI [intro]:
  "log_of now rcv ctx item ticket inp r (scan_row now rcv ctx item ticket inp r)"
  "log_of now rcv ctx item ticket inp r ((scan_row now rcv ctx item ticket inp r)
    \<lparr>ds_priorCheckedInAt := pa, ds_priorCheckedInBy := pb\<rparr>)"
proof -
  have "scan_row now rcv ctx item ticket inp r = (scan_row now rcv ctx item ticket inp r)
      \<lparr>ds_priorCheckedInAt := None, ds_priorCheckedInBy := None\<rparr>" by (simp add: scan_row_def)
  then show "log_of now rcv ctx item ticket inp r (scan_row now rcv ctx item ticket inp r)"
    unfolding log_of_def by blast
  show "log_of now rcv ctx item ticket inp r ((scan_row now rcv ctx item ticket inp r)
    \<lparr>ds_priorCheckedInAt := pa, ds_priorCheckedInBy := pb\<rparr>)"
    unfolding log_of_def by blast
qed

lemma log_of_fields:
  assumes "log_of now rcv ctx item ticket inp r d"
  shows "ds_scanId d = it_scanId item" "ds_passId d = dp_id (cx_pass ctx)" "ds_result d = r"
    "ds_ticketId d = map_option dt_id ticket" "ds_input d = inp"
    "ds_doorVerdict d = map_option os_verdict (it_offline item)"
    "ds_mode d = (if it_offline item \<noteq> None then Offline
       else if scan_practice ctx item then Practice else Online)"
    "ds_eventId d = e_id (cx_event ctx)" "ds_receivedAt d = rcv"
  using assms by (auto simp: log_of_def scan_row_def)

definition refuses_on ::
  "instant \<Rightarrow> instant \<Rightarrow> door_context \<Rightarrow> scan_item \<Rightarrow> door_ticket \<Rightarrow> jstr \<Rightarrow> scan_answer \<Rightarrow> db \<Rightarrow> db \<Rightarrow> bool" where
  "refuses_on now rcv ctx item ticket inp answer s1 s' \<longleftrightarrow>
    (\<exists>r d. (r = ScanCancelled \<or> r = ScanAlreadyIn) \<and> an_result answer = Logged r \<and>
      log_of now rcv ctx item (Some ticket) inp r d \<and> s' = s1\<lparr>doorScans := doorScans s1 @ [d]\<rparr>)"

lemma record_refusal_refuses:
  assumes "record_refusal now rcv ctx item ticket inp latest s = Inr (answer, s')"
  shows "refuses_on now rcv ctx item ticket inp answer s s'"
proof -
  let ?log = "scan_row now rcv ctx item (Some ticket) inp"
  show ?thesis
  proof (cases "latest = None \<or> dt_status (the latest) = TicketCancelled")
    case True
    then have "an_result answer = Logged ScanCancelled \<and>
        s' = s\<lparr>doorScans := doorScans s @ [?log ScanCancelled]\<rparr>"
      using assms
      by (cases latest) (auto simp: record_refusal_def Let_def tx_simps plain_answer_def)
    then show ?thesis
      unfolding refuses_on_def
      by (intro exI [of _ ScanCancelled] exI [of _ "?log ScanCancelled"]) auto
  next
    case False
    then obtain l where l: "latest = Some l" "dt_status l \<noteq> TicketCancelled" by auto
    let ?d = "(?log ScanAlreadyIn)\<lparr>ds_priorCheckedInAt := dt_checkedInAt l,
        ds_priorCheckedInBy := dt_checkedInBy l\<rparr>"
    have "an_result answer = Logged ScanAlreadyIn \<and>
        s' = s\<lparr>doorScans := doorScans s @ [?d]\<rparr>"
      using assms l by (auto simp: record_refusal_def Let_def tx_simps plain_answer_def)
    then show ?thesis
      unfolding refuses_on_def
      by (intro exI [of _ ScanAlreadyIn] exI [of _ ?d]) auto
  qed
qed

lemma record_ok:
  "keeps db_ok (record_admission ts now rcv ctx item ticket inp t)"
  "keeps db_ok (record_refusal now rcv ctx item ticket inp latest)"
  unfolding record_admission_def record_refusal_def Let_def
  by (intro keeps_intros constraints.side constraints.checkIn; assumption)+

lemma admit_tx_cases:
  assumes "admit_tx env ts now rcv ctx item ticket inp s = Inr (answer, s')" "db_ok s"
    "db_ok (env 0 s)" "db_ok (env 1 (env 0 s))" "db_ok (env 2 (env 0 s))" "db_ok (env 2 (env 1 (env 0 s)))"
  shows "db_ok s' \<and> (\<exists>p \<in> set (doorPasses s). dp_id p = dp_id (cx_pass ctx) \<and> dp_revokedAt p = None) \<and>
    ((\<exists>s1 \<in> {s, env 1 (env 0 s)}. admits_on ts now rcv ctx item ticket inp answer s1 s') \<or>
     (\<exists>s1 \<in> {env 0 s, env 2 (env 0 s), env 2 (env 1 (env 0 s))}.
        refuses_on now rcv ctx item ticket inp answer s1 s'))"
proof -
  let ?gate = "dp_label (cx_pass ctx)" and ?at = "offline_time now ctx item" and ?i = "dt_id ticket"
  from assms(1) obtain admitted current s1 where
    act: "\<exists>p \<in> set (doorPasses s). dp_id p = dp_id (cx_pass ctx) \<and> dp_revokedAt p = None"
    and att: "admit_attempts env ts ?i ?gate (it_scanId item) ?at s = Inr ((admitted, current), s1)"
    by (auto simp: admit_tx_def tx_simps)
  note ok0 = assms(3) and ok1 = assms(4)
  have first: "(\<exists>s2 t. s2 \<in> {s, env 1 (env 0 s)} \<and> admitted = Some t \<and>
        ticket_checkIn ts ?i ?gate (it_scanId item) ?at s2 = Inr (Some t, s1)) \<or>
      (admitted = None \<and> ((s1 = env 0 s \<and> current = findTicketById ?i (env 0 s)) \<or>
        (s1 = env 1 (env 0 s) \<and> current = None)))"
  proof (cases "ticket_checkIn ts ?i ?gate (it_scanId item) ?at s")
    case (Inr p)
    show ?thesis
    proof (cases "fst p")
      case None
      then have p: "p = (None, s)"
        using ticket_checkIn_Inr [OF assms(2), of ts ?i ?gate "it_scanId item" ?at "fst p" "snd p"] Inr
        by (auto simp: prod_eq_iff)
      have eq: "ticket_checkIn ts ?i ?gate (it_scanId item) ?at s = Inr (None, s)" using Inr p by simp
      show ?thesis
      proof (cases "admits_now (findTicketById ?i (env 0 s))")
        case True
        then obtain again where
          again: "ticket_checkIn ts ?i ?gate (it_scanId item) ?at (env 1 (env 0 s)) = Inr (again, s1)"
            "admitted = again" "current = None"
          using att eq by (auto simp: admit_attempts_def tx_simps meanwhile_def)
        show ?thesis
        proof (cases again)
          case None
          then have "s1 = env 1 (env 0 s)" using ticket_checkIn_Inr [OF ok1 again(1)] by simp
          then show ?thesis using again None by simp
        qed (use again in auto)
      next
        case False
        then show ?thesis using att eq by (auto simp: admit_attempts_def tx_simps meanwhile_def)
      qed
    next
      case (Some t)
      then show ?thesis using att Inr by (cases p) (auto simp: admit_attempts_def tx_simps)
    qed
  qed (use att in \<open>auto simp: admit_attempts_def andThen_def\<close>)
  then show ?thesis
  proof
    assume "\<exists>s2 t. s2 \<in> {s, env 1 (env 0 s)} \<and> admitted = Some t \<and>
        ticket_checkIn ts ?i ?gate (it_scanId item) ?at s2 = Inr (Some t, s1)"
    then obtain s2 t' where s2: "s2 \<in> {s, env 1 (env 0 s)}" "admitted = Some t'"
      and c: "ticket_checkIn ts ?i ?gate (it_scanId item) ?at s2 = Inr (Some t', s1)" by blast
    have "db_ok s2" using s2(1) assms(2) ok1 by auto
    from ticket_checkIn_Inr [OF this c] obtain t where
      t: "ticket_findById ?i s2 = Some t" "t_status t = TicketIssued" "t_checkedInAt t = None"
        "t' = admitted_row ts ?gate (it_scanId item) ?at t"
        "s1 = s2\<lparr>tickets := update_rows (\<lambda>q. t_id q = ?i) (\<lambda>_. t') (tickets s2)\<rparr>"
      by (auto simp: admitted_row_def)
    have "record_admission ts now rcv ctx item ticket inp t' s1 = Inr (answer, s')"
      using assms(1) att s2(2) by (auto simp: admit_tx_def tx_simps)
    then have "db_ok s'"
      using keepsD [OF record_ok(1)] keepsD [OF constraints.checkIn c \<open>db_ok s2\<close>] by blast
    moreover have "admits_on ts now rcv ctx item ticket inp answer s2 s'"
      unfolding admits_on_def Let_def
      by (rule exI [of _ t])
        (use assms(1) att s2(2) t in \<open>auto simp: admit_tx_def record_admission_def Let_def tx_simps admitted_row_def\<close>)
    ultimately show ?thesis using act s2(1) by blast
  next
    assume no: "admitted = None \<and> ((s1 = env 0 s \<and> current = findTicketById ?i (env 0 s)) \<or>
        (s1 = env 1 (env 0 s) \<and> current = None))"
    from assms(1) att no obtain latest s2 where s2: "s2 = s1 \<and> current \<noteq> None \<or> s2 = env 2 s1"
      and rec: "record_refusal now rcv ctx item ticket inp latest s2 = Inr (answer, s')"
      by (auto simp: admit_tx_def tx_simps meanwhile_def split: if_splits)
    have "refuses_on now rcv ctx item ticket inp answer s2 s'"
      by (rule record_refusal_refuses [OF rec])
    moreover have "s2 \<in> {env 0 s, env 2 (env 0 s), env 2 (env 1 (env 0 s))}" using no s2 by auto
    moreover from this have "db_ok s2" using assms by blast
    then have "db_ok s'" by (rule keepsD [OF record_ok(2) rec])
    ultimately show ?thesis using act by blast
  qed
qed

section \<open>A fresh scan\<close>

text \<open>A fresh scan only logs its answer, or goes through the admitting transaction.\<close>

definition only_logs ::
  "instant \<Rightarrow> instant \<Rightarrow> door_context \<Rightarrow> scan_item \<Rightarrow> door_ticket option \<Rightarrow> jstr \<Rightarrow> scan_answer \<Rightarrow> db \<Rightarrow> db
    \<Rightarrow> bool" where
  "only_logs now rcv ctx item ticket inp answer s1 s' \<longleftrightarrow>
    (\<exists>r d. r \<noteq> ScanAdmitted \<and> an_result answer = Logged r \<and>
      log_of now rcv ctx item ticket inp r d \<and> s' = s1\<lparr>doorScans := doorScans s1 @ [d]\<rparr>)"

lemma refuses_only_logs:
  "refuses_on now rcv ctx item ticket inp answer s1 s' \<Longrightarrow>
    only_logs now rcv ctx item (Some ticket) inp answer s1 s'"
  unfolding refuses_on_def only_logs_def by blast

definition may_admit :: "door_context \<Rightarrow> scan_item \<Rightarrow> door_ticket \<Rightarrow> bool" where
  "may_admit ctx item ticket \<longleftrightarrow>
    dt_eventId ticket = e_id (cx_event ctx) \<and> \<not> scan_practice ctx item \<and>
    \<not> (it_method item = BySearch \<and> dt_buyerPhoneLast3 ticket \<noteq> None \<and>
        it_phoneLast3 item \<noteq> dt_buyerPhoneLast3 ticket) \<and>
    (it_offline item = None \<or> map_option os_verdict (it_offline item) = Some VAdmitted)"

lemma fresh_scan_cases:
  assumes "fresh_scan snap env ts now rcv ctx item s = Inr ((answer, anns), s')"
  obtains (logged) "anns = []"
      "only_logs now rcv ctx item (fst (scanned_ticket item snap)) (snd (scanned_ticket item snap))
        answer s s'"
      "db_ok s \<Longrightarrow> db_ok s'"
  | (tried) ticket inp where "scanned_ticket item snap = (Some ticket, inp)" "may_admit ctx item ticket"
      "admit_tx env ts now rcv ctx item ticket inp s = Inr (answer, s')"
      "anns = (if an_result answer = Logged ScanAdmitted
        then [AnnounceIn (dt_id ticket) (case an_at answer of Some a \<Rightarrow> a | None \<Rightarrow> now) (dp_label (cx_pass ctx))]
        else [])"
proof (cases "scanned_ticket item snap")
  case (Pair tk inp)
  let ?log = "scan_row now rcv ctx item tk inp"
  have logged': thesis
    if "anns = []" "r \<noteq> ScanAdmitted" "an_result answer = Logged r"
      "insertScan ((?log r)\<lparr>ds_priorCheckedInAt := pa, ds_priorCheckedInBy := pb\<rparr>) s = Inr (d, s')"
    for r pa pb d
  proof (rule logged [OF that(1)])
    show "db_ok s \<Longrightarrow> db_ok s'" by (rule keepsD [OF constraints.door(3) that(4)])
    show "only_logs now rcv ctx item (fst (scanned_ticket item snap)) (snd (scanned_ticket item snap))
        answer s s'"
      unfolding only_logs_def Pair using that(2-4) unfolding insertScan_Inr
      by (intro exI [of _ r] exI [of _ "(?log r)\<lparr>ds_priorCheckedInAt := pa, ds_priorCheckedInBy := pb\<rparr>"])
        auto
  qed
  have plain: "?log r = (?log r)\<lparr>ds_priorCheckedInAt := None, ds_priorCheckedInBy := None\<rparr>" for r
    by (simp add: scan_row_def)
  show thesis
  proof (cases tk)
    case None
    then have "anns = [] \<and> an_result answer = Logged ScanUnknown \<and>
        insertScan (?log ScanUnknown) s = Inr (?log ScanUnknown, s')"
      using assms by (auto simp: fresh_scan_def Let_def Pair tx_simps plain_answer_def)
    then show thesis using plain [of ScanUnknown] by (intro logged' [of ScanUnknown None None]) auto
  next
    case (Some ticket)
    let ?practice = "scan_practice ctx item"
    let ?mismatch = "it_method item = BySearch \<and> dt_buyerPhoneLast3 ticket \<noteq> None \<and>
        it_phoneLast3 item \<noteq> dt_buyerPhoneLast3 ticket"
    let ?not_admitting = "it_offline item \<noteq> None \<and> map_option os_verdict (it_offline item) \<noteq> Some VAdmitted"
    consider (event) "dt_eventId ticket \<noteq> e_id (cx_event ctx)"
      | (phone) "dt_eventId ticket = e_id (cx_event ctx)" ?mismatch
      | (would) "dt_eventId ticket = e_id (cx_event ctx)" "\<not> ?mismatch" "?practice \<or> ?not_admitting"
      | (admit) "dt_eventId ticket = e_id (cx_event ctx)" "\<not> ?mismatch" "\<not> (?practice \<or> ?not_admitting)"
      by blast
    then show thesis
    proof cases
      case event
      then have "anns = [] \<and> an_result answer = Logged ScanWrongEvent \<and>
          insertScan (?log ScanWrongEvent) s = Inr (?log ScanWrongEvent, s')"
        using assms by (auto simp: fresh_scan_def Let_def Pair Some tx_simps plain_answer_def)
      then show thesis using plain [of ScanWrongEvent] by (intro logged' [of ScanWrongEvent None None]) auto
    next
      case phone
      then have "anns = [] \<and> an_result answer = Logged ScanPhoneMismatch \<and>
          insertScan (?log ScanPhoneMismatch) s = Inr (?log ScanPhoneMismatch, s')"
        using assms by (auto simp: fresh_scan_def Let_def Pair Some tx_simps plain_answer_def)
      then show thesis using plain [of ScanPhoneMismatch] by (intro logged' [of ScanPhoneMismatch None None]) auto
    next
      case would
      let ?r = "would_answer ?practice ticket"
      let ?in = "?r = ScanAlreadyIn"
      let ?pa = "if ?in then dt_checkedInAt ticket else None"
      let ?pb = "if ?in then dt_checkedInBy ticket else None"
      let ?d = "(?log ?r)\<lparr>ds_priorCheckedInAt := ?pa, ds_priorCheckedInBy := ?pb\<rparr>"
      have "fresh_scan snap env ts now rcv ctx item s =
          andThen (insertScan ((?log ?r)
             \<lparr>ds_priorCheckedInAt := (if ?in then dt_checkedInAt ticket else None),
              ds_priorCheckedInBy := (if ?in then dt_checkedInBy ticket else None)\<rparr>))
            (\<lambda>_. return_tx ((plain_answer (it_scanId item) (Logged ?r) ?practice)
              \<lparr>an_ticket := describe ticket, an_at := (if ?in then dt_checkedInAt ticket else None),
               an_gate := (if ?in then dt_checkedInBy ticket else None)\<rparr>, [])) s"
        unfolding fresh_scan_def Let_def Pair Some option.case prod.case
        by (subst if_not_P, simp add: would(1), subst if_not_P, rule would(2), subst if_P, rule would(3), rule refl)
      with assms have "an_result answer = Logged ?r" "anns = []" "insertScan ?d s = Inr (?d, s')"
        by (simp_all only: andThen_Inr insertScan_Inr return_tx_Inr prod.inject) (auto simp: plain_answer_def)
      moreover have "?r \<noteq> ScanAdmitted" by (simp add: would_answer_def)
      ultimately show thesis by (intro logged' [of ?r ?pb ?pa ?d])
    next
      case admit
      have eq: "fresh_scan snap env ts now rcv ctx item s =
          andThen (admit_tx env ts now rcv ctx item ticket inp) (\<lambda>answer.
            return_tx (answer,
              if an_result answer = Logged ScanAdmitted
              then [AnnounceIn (dt_id ticket) (case an_at answer of Some a \<Rightarrow> a | None \<Rightarrow> now)
                (dp_label (cx_pass ctx))] else [])) s"
        unfolding fresh_scan_def Let_def Pair Some option.case prod.case
        by (subst if_not_P, simp add: admit(1), subst if_not_P, rule admit(2), subst if_not_P, rule admit(3), rule refl)
      have "admit_tx env ts now rcv ctx item ticket inp s = Inr (answer, s') \<and>
          anns = (if an_result answer = Logged ScanAdmitted
            then [AnnounceIn (dt_id ticket) (case an_at answer of Some a \<Rightarrow> a | None \<Rightarrow> now)
              (dp_label (cx_pass ctx))] else [])"
        using assms unfolding eq by (auto simp: tx_simps)
      then show thesis using admit Pair Some by (intro tried [of ticket inp]) (auto simp: may_admit_def)
    qed
  qed
qed

lemma door_ok_log:
  "door_ok s \<Longrightarrow> db_ok (s\<lparr>doorScans := doorScans s @ [d]\<rparr>) \<Longrightarrow> door_ok (s\<lparr>doorScans := doorScans s @ [d]\<rparr>)"
  by (erule door_ok_step) (auto simp: no_new_check_in_def grown_def)

lemma door_ok_admits:
  assumes "admits_on ts now rcv ctx item ticket inp answer s1 s'" "door_ok s1" "db_ok s'"
    "may_admit ctx item ticket"
  shows "door_ok s'"
proof -
  let ?d = "scan_row now rcv ctx item (Some ticket) inp ScanAdmitted"
  from assms(1) obtain t where t: "ticket_findById (dt_id ticket) s1 = Some t"
    and tickets: "tickets s' = update_rows (\<lambda>q. t_id q = dt_id ticket)
      (\<lambda>_. admitted_row ts (dp_label (cx_pass ctx)) (it_scanId item) (offline_time now ctx item) t) (tickets s1)"
    and scans: "doorScans s' = doorScans s1 @ [?d]"
    by (auto simp: admits_on_def Let_def)
  have id: "t_id t = dt_id ticket" using t by (auto simp: ticket_findById_def dest: row_by_Some)
  have new: "logged_in s' (admitted_row ts (dp_label (cx_pass ctx)) (it_scanId item) (offline_time now ctx item) t)"
    using assms(4) by (auto simp: logged_in_def scans admitted_row_def scan_row_def id may_admit_def)
  have old: "logged_in s' u" if "u \<in> set (tickets s1)" for u
    using assms(2) that unfolding door_ok_def logged_in_def scans by fastforce
  show ?thesis using new old assms(3) by (auto simp: door_ok_def tickets set_update_rows)
qed

lemma scan_door:
  assumes env: "\<And>k x. door_ok x \<Longrightarrow> door_ok (env k x)"
  shows "keeps door_ok (scan snap env after ts now rcv ctx item)"
proof (rule keepsI)
  fix s x s' assume ok: "door_ok s" and r: "scan snap env after ts now rcv ctx item s = Inr (x, s')"
  have k: "door_ok (env 0 s)" "door_ok (env 1 (env 0 s))" "door_ok (env 2 (env 0 s))"
    "door_ok (env 2 (env 1 (env 0 s)))"
    using ok env by auto
  have dbs: "\<And>x. door_ok x \<Longrightarrow> db_ok x" by (simp add: door_ok_def)
  have log: "door_ok s'" if "only_logs now rcv ctx item tk inp a s1 s'" "door_ok s1" "db_ok s'" for tk inp a s1
    using that unfolding only_logs_def by (auto intro: door_ok_log)
  obtain answer anns where x: "x = (answer, anns)" by fastforce
  have "s' = s \<or> fresh_scan snap env ts now rcv ctx item s = Inr (x, s')"
    using r by (simp add: scan_def split: option.splits sum.splits app_error.splits)
  then show "door_ok s'"
  proof
    assume f: "fresh_scan snap env ts now rcv ctx item s = Inr (x, s')"
    from f [unfolded x] show "door_ok s'"
    proof (cases rule: fresh_scan_cases)
      case logged
      then show ?thesis using log ok dbs by blast
    next
      case (tried ticket inp)
      from admit_tx_cases [OF tried(3) dbs [OF ok] dbs [OF k(1)] dbs [OF k(2)] dbs [OF k(3)] dbs [OF k(4)]]
      have "db_ok s'" "(\<exists>s1 \<in> {s, env 1 (env 0 s)}. admits_on ts now rcv ctx item ticket inp answer s1 s') \<or>
        (\<exists>s1 \<in> {env 0 s, env 2 (env 0 s), env 2 (env 1 (env 0 s))}.
          refuses_on now rcv ctx item ticket inp answer s1 s')"
        by blast+
      then show ?thesis
        using ok k log [OF refuses_only_logs] door_ok_admits [OF _ _ _ tried(2)]
        by (elim disjE bexE) (metis insertE singletonD)+
    qed
  qed (use ok in simp)
qed

interpretation doors: service_law door_ok
  by unfold_locales
    (rule door_law.ordering.createOrder door_law.ordering.submitPayment door_law.ordering.approveOrder
      door_law.ordering.issueComplimentary door_law.ordering.rejectOrder door_law.ordering.cancelTicket
    | erule door_law.ordering.expireLapsedHolds | rule scan_door, blast)+

end
