(* ===== verification/DoorRules.thy ===== *)
theory DoorRules
  imports DoorBooks
begin

text \<open>
  What the door's other operations do on an accepted store: the row an undo clears, the log row
  every fresh scan leaves, what a retry of it reads back, and the loop that undoes a pass.
\<close>

lemma findTicketById_id: "findTicketById i s = Some d \<Longrightarrow> dt_id d = i"
proof -
  assume "findTicketById i s = Some d"
  then have "d \<in> set (List.map_filter (door_ticket_of s) (filter (\<lambda>t. t_id t = i) (tickets s)))"
    by (cases "List.map_filter (door_ticket_of s) (filter (\<lambda>t. t_id t = i) (tickets s))")
      (auto simp: findTicketById_def)
  then show ?thesis
    by (auto simp: map_filter_def door_ticket_of_def split: option.splits)
qed

lemma scans_distinct: "db_ok s \<Longrightarrow> distinct (map ds_scanId (doorScans s))"
  by (auto simp: db_ok_def door_scans_violation_def violation_None)

lemma findScan_set:
  "db_ok s \<Longrightarrow> findScanByScanId i s = Some d \<longleftrightarrow> d \<in> set (doorScans s) \<and> ds_scanId d = i"
  by (simp add: findScanByScanId_def row_by_unique [OF scans_distinct])

lemma scan_ticket_exists:
  assumes "db_ok s" "d \<in> set (doorScans s)" "ds_ticketId d = Some i"
  shows "\<exists>t. ticket_findById i s = Some t"
proof -
  have "door_scans_violation s (doorScans s) = None" using assms(1) by (simp add: db_ok_def)
  then have "i \<in> t_id ` set (tickets s)"
    using assms(2,3) by (force simp: door_scans_violation_def violation_None)
  then show ?thesis by (simp add: ticket_findById_def row_by_in)
qed

section \<open>Undoing\<close>

definition cleared :: "instant \<Rightarrow> ticket_row \<Rightarrow> ticket_row" where
  "cleared ts t = t\<lparr>t_checkedInAt := None, t_checkedInBy := None, t_checkedInScanId := None,
    t_updatedAt := ts\<rparr>"

lemma undo_Inr:
  assumes "db_ok s" "ticket_undoCheckIn ts i sc s = Inr (r, s')"
  shows "case r of
      None \<Rightarrow> s' = s \<and> (\<forall>t. ticket_findById i s = Some t \<longrightarrow> t_checkedInScanId t \<noteq> Some sc)
    | Some t' \<Rightarrow> \<exists>t. ticket_findById i s = Some t \<and> t_checkedInScanId t = Some sc \<and>
        t_checkedInAt t \<noteq> None \<and> t' = cleared ts t \<and>
        s' = s\<lparr>tickets := update_rows (\<lambda>q. t_id q = i) (\<lambda>_. t') (tickets s)\<rparr>"
proof -
  let ?c = "\<lambda>t. t_checkedInAt t \<noteq> None \<and> t_checkedInScanId t = Some sc"
  have ok: "tickets_violation s (tickets s) = None" using assms(1) by (rule db_ok_tickets)
  have d: "distinct (map t_id (tickets s))" using tickets_ok(1) [OF ok] .
  have in_at: "t_checkedInAt t \<noteq> None" if "t \<in> set (tickets s)" "t_checkedInScanId t = Some sc" for t
    using tickets_ok(7) [OF ok that(1)] that(2) by simp
  have r: "r = first_row (returned (\<lambda>t. t_id t = i \<and> ?c t) (cleared ts) (tickets s))"
    and s': "s' = s\<lparr>tickets := update_rows (\<lambda>t. t_id t = i \<and> ?c t) (cleared ts) (tickets s)\<rparr>"
    using assms(2) by (auto simp: ticket_undoCheckIn_def tx_simps cleared_def [abs_def])
  have uniq: "t = u" if "t \<in> set (tickets s)" "u \<in> set (tickets s)" "t_id t = t_id u" for t u
    using that d by (auto simp: distinct_map dest: inj_onD)
  show ?thesis
  proof (cases "Option.bind (ticket_findById i s) (\<lambda>t. if ?c t then Some t else None)")
    case None
    have no: "\<not> (t_id u = i \<and> ?c u)" if "u \<in> set (tickets s)" for u
    proof
      assume u: "t_id u = i \<and> ?c u"
      then have "ticket_findById i s = Some u"
        using that by (simp add: ticket_findById_def row_by_unique [OF d])
      then show False using None u by simp
    qed
    have "returned (\<lambda>t. t_id t = i \<and> ?c t) (cleared ts) (tickets s) = []"
      using no unfolding returned_empty by blast
    moreover have "update_rows (\<lambda>t. t_id t = i \<and> ?c t) (cleared ts) (tickets s) = tickets s"
      by (rule update_rows_none) (rule no)
    moreover have "t_checkedInScanId t \<noteq> Some sc" if "ticket_findById i s = Some t" for t
      using None that in_at [of t] by (auto simp: ticket_findById_def dest: row_by_Some)
    ultimately show ?thesis by (simp add: r s')
  next
    case (Some t)
    then have f: "ticket_findById i s = Some t" and c: "?c t"
      by (auto simp: Option.bind_eq_Some_conv split: if_splits)
    then have t: "t \<in> set (tickets s)" "t_id t = i" by (auto simp: ticket_findById_def dest: row_by_Some)
    have rows: "returned (\<lambda>t. t_id t = i \<and> ?c t) (cleared ts) (tickets s) = [cleared ts t]"
      using f c by (simp add: returned_key [OF d] ticket_findById_def)
    have "update_rows (\<lambda>q. t_id q = i \<and> ?c q) (cleared ts) (tickets s) =
        update_rows (\<lambda>q. t_id q = i) (\<lambda>_. cleared ts t) (tickets s)"
      unfolding update_rows_def using c t uniq by (intro map_cong refl) metis
    then show ?thesis using f c rows by (simp add: r s')
  qed
qed

section \<open>The log row of a fresh scan, and its retry\<close>

lemma fresh_scan_log:
  assumes "fresh_scan snap env ts now rcv ctx item s = Inr ((answer, anns), s')"
    and "db_ok s" "\<And>k x. db_ok x \<Longrightarrow> db_ok (env k x)"
  shows "db_ok s' \<and> (\<exists>d \<in> set (doorScans s'). \<exists>r. an_result answer = Logged r \<and>
    (r = ScanAdmitted \<longrightarrow> fst (scanned_ticket item snap) \<noteq> None) \<and>
    log_of now rcv ctx item (fst (scanned_ticket item snap)) (snd (scanned_ticket item snap)) r d)"
  using assms(1)
proof (cases rule: fresh_scan_cases)
  case logged
  then show ?thesis using assms(2) unfolding only_logs_def by fastforce
next
  case (tried ticket inp)
  have dbs: "db_ok (env 0 s)" "db_ok (env 1 (env 0 s))" "db_ok (env 2 (env 0 s))"
    "db_ok (env 2 (env 1 (env 0 s)))"
    using assms(2,3) by auto
  note a = admit_tx_cases [OF tried(3) assms(2) dbs]
  have "\<exists>d \<in> set (doorScans s'). \<exists>r. an_result answer = Logged r \<and>
      log_of now rcv ctx item (Some ticket) inp r d"
    using a
  proof (elim conjE disjE bexE)
    fix s1 assume "admits_on ts now rcv ctx item ticket inp answer s1 s'"
    then show ?thesis
      unfolding admits_on_def Let_def
      by (intro bexI [of _ "scan_row now rcv ctx item (Some ticket) inp ScanAdmitted"] exI [of _ ScanAdmitted])
        (auto simp: plain_answer_def)
  next
    fix s1 assume "refuses_on now rcv ctx item ticket inp answer s1 s'"
    then show ?thesis unfolding refuses_on_def by fastforce
  qed
  then show ?thesis using a tried(1) by simp
qed

lemma sameScan_of_log:
  assumes "log_of now rcv ctx item (fst (scanned_ticket item snap)) (snd (scanned_ticket item snap)) r d"
    and "dp_id (cx_pass ctx') = dp_id (cx_pass ctx)"
  shows "sameScan ctx' item d"
proof -
  note f = log_of_fields [OF assms(1)]
  show ?thesis
  proof (cases "it_ticketId item")
    case None
    then show ?thesis using f assms(2) by (simp add: sameScan_def scanned_ticket_def Let_def)
  next
    case (Some i)
    then show ?thesis
      using f assms(2) findTicketById_id [of i snap]
      by (cases "findTicketById i snap") (simp_all add: sameScan_def scanned_ticket_def Let_def)
  qed
qed

lemma replay_result:
  assumes "door_ok w" "d \<in> set (doorScans w)" "sameScan ctx item d"
  shows "an_result (replay now ctx item d w) =
    (if ds_result d = ScanAdmitted \<and> ds_ticketId d \<noteq> None \<and>
        (\<forall>t \<in> set (tickets w). t_checkedInScanId t \<noteq> Some (ds_scanId d))
     then Rescan else Logged (ds_result d))"
proof (cases "ds_ticketId d")
  case None
  then show ?thesis using assms(3) by (simp add: replay_def Let_def plain_answer_def)
next
  case (Some i)
  have ok: "db_ok w" using assms(1) by (simp add: door_ok_def)
  from scan_ticket_exists [OF ok assms(2) Some] obtain t where t: "ticket_findById i w = Some t" by blast
  from findTicketById_Some [OF ok t] obtain k where
    k: "findTicketById i w = Some k" "dt_checkedInScanId k = t_checkedInScanId t" by blast
  have mem: "t \<in> set (tickets w)" "t_id t = i" using t by (auto simp: ticket_findById_def dest: row_by_Some)
  have only: "u = t" if "u \<in> set (tickets w)" "t_checkedInScanId u = Some (ds_scanId d)" for u
  proof -
    from assms(1) that obtain e where e: "e \<in> set (doorScans w)" "ds_scanId e = ds_scanId d"
      "ds_ticketId e = Some (t_id u)"
      unfolding door_ok_def logged_in_def by blast
    have "e = d" using e(1,2) assms(2) scans_distinct [OF ok] by (auto simp: distinct_map dest: inj_onD)
    then have "t_id u = t_id t" using e(3) Some mem by simp
    then show "u = t"
      using that(1) mem(1) tickets_ok(1) [OF db_ok_tickets [OF ok]] by (auto simp: distinct_map dest: inj_onD)
  qed
  have iff: "(\<forall>u \<in> set (tickets w). t_checkedInScanId u \<noteq> Some (ds_scanId d)) \<longleftrightarrow>
      dt_checkedInScanId k \<noteq> Some (ds_scanId d)"
    using only mem k(2) by metis
  show ?thesis
    unfolding iff using assms(3) Some k(1)
    by (cases "ds_result d"; cases "ds_priorCheckedInAt d") (simp_all add: replay_def Let_def plain_answer_def)
qed

section \<open>Revoking with undo\<close>

text \<open>The ticket stands checked in by a scan this pass made.\<close>

definition in_by :: "uuid \<Rightarrow> db \<Rightarrow> ticket_row \<Rightarrow> bool" where
  "in_by p s t \<longleftrightarrow> t_checkedInAt t \<noteq> None \<and>
    (\<exists>d \<in> set (doorScans s). t_checkedInScanId t = Some (ds_scanId d) \<and> ds_passId d = p)"

definition standing_row :: "ticket_row \<Rightarrow> standing_check_in" where
  "standing_row t = \<lparr>sc_id = t_id t, sc_code = t_code t, sc_orderId = t_orderId t,
    sc_scanId = the (t_checkedInScanId t), sc_at = t_checkedInAt t\<rparr>"

lemma standing_row_simps:
  "sc_id (standing_row t) = t_id t" "sc_code (standing_row t) = t_code t"
  "sc_orderId (standing_row t) = t_orderId t" "sc_scanId (standing_row t) = the (t_checkedInScanId t)"
  "sc_at (standing_row t) = t_checkedInAt t"
  by (simp_all add: standing_row_def)

definition undo_audit :: "instant \<Rightarrow> door_pass_row \<Rightarrow> jstr \<Rightarrow> jstr \<Rightarrow> ticket_row \<Rightarrow> order_event_row" where
  "undo_audit ts p reason actor t =
    audit ts (t_orderId t) actor (lit ''ticket.check_in_undone'') None None
      (t_code t @ lit '' '' @ [183] @ lit '' pass '' @ dp_label p @ lit '' revoked: '' @ reason)"

lemma map_filter_if: "List.map_filter (\<lambda>x. if P x then Some (f x) else None) xs = map f (filter P xs)"
  by (induction xs) (simp_all add: map_filter_def)

lemma standing_rows:
  assumes "db_ok s"
  shows "ticketsCheckedInByPass p s = map standing_row (filter (in_by p s) (tickets s))"
proof -
  have one: "(case Option.bind (t_checkedInScanId t) (\<lambda>i. findScanByScanId i s) of
         None \<Rightarrow> None
       | Some d \<Rightarrow> if ds_passId d = p \<and> t_checkedInAt t \<noteq> None
           then Some \<lparr>sc_id = t_id t, sc_code = t_code t, sc_orderId = t_orderId t,
             sc_scanId = ds_scanId d, sc_at = t_checkedInAt t\<rparr>
           else None) = (if in_by p s t then Some (standing_row t) else None)" for t
  proof (cases "Option.bind (t_checkedInScanId t) (\<lambda>i. findScanByScanId i s)")
    case None
    have "findScanByScanId (ds_scanId d) s = Some d" if "d \<in> set (doorScans s)" for d
      using that by (simp add: findScan_set [OF assms])
    then have "\<not> in_by p s t" using None by (auto simp: in_by_def)
    then show ?thesis using None by simp
  next
    case (Some d)
    then have d: "t_checkedInScanId t = Some (ds_scanId d)" "d \<in> set (doorScans s)"
      using findScan_set [OF assms] by (auto simp: Option.bind_eq_Some_conv)
    have "e = d" if "e \<in> set (doorScans s)" "ds_scanId e = ds_scanId d" for e
      using that d(2) scans_distinct [OF assms] by (auto simp: distinct_map dest: inj_onD)
    then have "in_by p s t \<longleftrightarrow> ds_passId d = p \<and> t_checkedInAt t \<noteq> None"
      using d unfolding in_by_def by (metis option.inject)
    then show ?thesis using Some d(1) by (simp add: standing_row_def)
  qed
  show ?thesis unfolding ticketsCheckedInByPass_def one by (rule map_filter_if)
qed

lemma undo_each_effect:
  assumes "undo_each ts p reason actor (map standing_row us) s = Inr ((n, anns), s')" "db_ok s"
    and "distinct (map t_id us)" "\<And>u. u \<in> set us \<Longrightarrow> u \<in> set (tickets s) \<and> t_checkedInAt u \<noteq> None"
  shows "n = length us \<and> anns = map (\<lambda>u. AnnounceUndo (t_id u) (the (t_checkedInAt u))) us \<and>
    s' = s\<lparr>tickets := update_rows (\<lambda>t. t_id t \<in> t_id ` set us) (cleared ts) (tickets s),
      orderEvents := orderEvents s @ map (undo_audit ts p reason actor) us\<rparr>"
  using assms
proof (induction us arbitrary: s n anns)
  case Nil
  then show ?case by (simp add: return_tx_Inr update_rows_none)
next
  case (Cons u us)
  have u: "u \<in> set (tickets s)" "t_checkedInAt u \<noteq> None" using Cons.prems(4) by auto
  have ok: "tickets_violation s (tickets s) = None" using Cons.prems(2) by (rule db_ok_tickets)
  have found: "ticket_findById (t_id u) s = Some u"
    using u by (simp add: ticket_findById_def row_by_unique [OF tickets_ok(1) [OF ok]])
  obtain sc where sc: "t_checkedInScanId u = Some sc" using tickets_ok(7) [OF ok u(1)] u(2) by auto
  have "undo_each ts p reason actor (map standing_row (u # us)) s =
      andThen (ticket_undoCheckIn ts (t_id u) sc) (\<lambda>row.
      if row = None then undo_each ts p reason actor (map standing_row us)
      else andThen (order_insertEvent (undo_audit ts p reason actor u)) (\<lambda>_.
         andThen (undo_each ts p reason actor (map standing_row us)) (\<lambda>(n, anns).
         return_tx (n + 1,
           (case t_checkedInAt u of None \<Rightarrow> anns | Some a \<Rightarrow> AnnounceUndo (t_id u) a # anns))))) s"
    by (simp only: list.map undo_each.simps standing_row_simps sc option.sel undo_audit_def)
  from Cons.prems(1) [unfolded this andThen_Inr] obtain row s1 where
    undo: "ticket_undoCheckIn ts (t_id u) sc s = Inr (row, s1)"
    and rest: "(if row = None then undo_each ts p reason actor (map standing_row us)
      else andThen (order_insertEvent (undo_audit ts p reason actor u)) (\<lambda>_.
         andThen (undo_each ts p reason actor (map standing_row us)) (\<lambda>(n, anns).
         return_tx (n + 1,
           (case t_checkedInAt u of None \<Rightarrow> anns | Some a \<Rightarrow> AnnounceUndo (t_id u) a # anns))))) s1
      = Inr ((n, anns), s')"
    by (auto simp: andThen_Inr)
  have "row \<noteq> None" using undo_Inr [OF Cons.prems(2) undo] found sc by (cases row) auto
  then have s1: "s1 = s\<lparr>tickets := update_rows (\<lambda>q. t_id q = t_id u) (\<lambda>_. cleared ts u) (tickets s)\<rparr>"
    using undo_Inr [OF Cons.prems(2) undo] found by auto
  define s2 where "s2 = s1\<lparr>orderEvents := orderEvents s1 @ [undo_audit ts p reason actor u]\<rparr>"
  from rest \<open>row \<noteq> None\<close> obtain m bs where
    ins: "order_insertEvent (undo_audit ts p reason actor u) s1 = Inr (undo_audit ts p reason actor u, s2)"
    and each: "undo_each ts p reason actor (map standing_row us) s2 = Inr ((m, bs), s')"
    and res: "n = m + 1" "anns = AnnounceUndo (t_id u) (the (t_checkedInAt u)) # bs"
    using u(2) by (auto simp: tx_simps s2_def)
  have "db_ok s1" by (rule keepsD [OF constraints.tickets(1) undo Cons.prems(2)])
  then have ok2: "db_ok s2" by (rule keepsD [OF constraints.note_row [OF note_actions(3)] ins [unfolded undo_audit_def]])
  have others: "v \<in> set (tickets s2)" if "v \<in> set us" for v
  proof -
    have "t_id u \<notin> t_id ` set us" using Cons.prems(3) by simp
    then have "v \<in> set (tickets s)" "t_id v \<noteq> t_id u" using that Cons.prems(4) by (auto, metis imageI)
    then show ?thesis by (auto simp: s2_def s1 set_update_rows)
  qed
  have IH: "m = length us \<and> bs = map (\<lambda>u. AnnounceUndo (t_id u) (the (t_checkedInAt u))) us \<and>
    s' = s2\<lparr>tickets := update_rows (\<lambda>t. t_id t \<in> t_id ` set us) (cleared ts) (tickets s2),
      orderEvents := orderEvents s2 @ map (undo_audit ts p reason actor) us\<rparr>"
    using Cons.prems(3,4) others by (intro Cons.IH [OF each ok2]) auto
  have only: "t = u" if "t \<in> set (tickets s)" "t_id t = t_id u" for t
    using that u(1) tickets_ok(1) [OF ok] by (auto simp: distinct_map dest: inj_onD)
  have "update_rows (\<lambda>t. t_id t \<in> t_id ` set us) (cleared ts)
      (update_rows (\<lambda>q. t_id q = t_id u) (\<lambda>_. cleared ts u) (tickets s)) =
      update_rows (\<lambda>t. t_id t \<in> t_id ` set (u # us)) (cleared ts) (tickets s)"
    using Cons.prems(3) only unfolding update_rows_def
    by (auto simp: cleared_def image_iff)
  then show ?case using IH res by (simp add: s2_def s1)
qed

lemma revoked_rows:
  "q \<in> set (update_rows (\<lambda>q. dp_id q = i \<and> dp_revokedAt q = None) (\<lambda>q. q\<lparr>dp_revokedAt := Some ts\<rparr>) ps)
    \<Longrightarrow> dp_id q = i \<Longrightarrow> dp_revokedAt q \<noteq> None"
  unfolding set_update_rows by (elim bexE disjE conjE) simp_all

lemma revoke_undo_effect:
  assumes "db_ok s" "revokeAndUndo snap ts now eventId passId reason actor s = Inr ((n, anns), s')"
  shows "\<exists>p. findPassById passId snap = Some p \<and> dp_eventId p = eventId \<and>
    n = length (filter (in_by passId s) (tickets s)) \<and>
    anns = announceRevoke s' now eventId passId #
      map (\<lambda>t. AnnounceUndo (t_id t) (the (t_checkedInAt t))) (filter (in_by passId s) (tickets s)) \<and>
    s' = s\<lparr>doorPasses := update_rows (\<lambda>q. dp_id q = passId \<and> dp_revokedAt q = None)
        (\<lambda>q. q\<lparr>dp_revokedAt := Some ts\<rparr>) (doorPasses s),
      tickets := update_rows (in_by passId s) (cleared ts) (tickets s),
      orderEvents := orderEvents s @
        map (undo_audit ts p reason actor) (filter (in_by passId s) (tickets s))\<rparr> \<and>
    (\<forall>q \<in> set (doorPasses s'). dp_id q = passId \<longrightarrow> dp_revokedAt q \<noteq> None) \<and>
    ticketsCheckedInByPass passId s' = []"
proof -
  let ?in = "filter (in_by passId s) (tickets s)"
  from assms(2) obtain p undos where p: "pass_of_event snap eventId passId = Inr p"
    and tx: "revoke_undo_tx ts p reason actor s = Inr ((n, undos), s')"
    and anns: "anns = announceRevoke s' now eventId passId # undos"
    by (auto simp: revokeAndUndo_def tx_simps)
  have pass: "findPassById passId snap = Some p" "dp_eventId p = eventId" "dp_id p = passId"
    using p by (auto simp: pass_of_event_def findPassById_def dest: row_by_Some split: option.splits if_splits)
  from tx obtain row s1 where rev: "repo_revokePass ts passId s = Inr (row, s1)"
    and each: "undo_each ts p reason actor (ticketsCheckedInByPass passId s1) s1 = Inr ((n, undos), s')"
    by (auto simp: revoke_undo_tx_def tx_simps pass(3))
  have s1: "s1 = s\<lparr>doorPasses := update_rows (\<lambda>q. dp_id q = passId \<and> dp_revokedAt q = None)
        (\<lambda>q. q\<lparr>dp_revokedAt := Some ts\<rparr>) (doorPasses s)\<rparr>"
    using rev by (auto simp: repo_revokePass_def tx_simps)
  have ok1: "db_ok s1" by (rule keepsD [OF constraints.door(2) rev assms(1)])
  have same: "in_by passId s1 = in_by passId s" "tickets s1 = tickets s"
    by (auto simp: fun_eq_iff in_by_def s1)
  have ids: "distinct (map t_id (tickets s))" by (rule tickets_ok(1) [OF db_ok_tickets [OF assms(1)]])
  have "distinct (map t_id ?in)" using ids by (simp add: distinct_map_filter)
  from undo_each_effect [OF each [unfolded standing_rows [OF ok1] same] ok1 this]
  have eff: "n = length ?in" "undos = map (\<lambda>u. AnnounceUndo (t_id u) (the (t_checkedInAt u))) ?in"
    "s' = s1\<lparr>tickets := update_rows (\<lambda>t. t_id t \<in> t_id ` set ?in) (cleared ts) (tickets s1),
      orderEvents := orderEvents s1 @ map (undo_audit ts p reason actor) ?in\<rparr>"
    using same(2) by (auto simp: in_by_def)
  have "t_id t \<in> t_id ` set ?in \<longleftrightarrow> in_by passId s t" if "t \<in> set (tickets s)" for t
    using that ids by (auto simp: distinct_map dest: inj_onD)
  then have rows: "update_rows (\<lambda>t. t_id t \<in> t_id ` set ?in) (cleared ts) (tickets s) =
      update_rows (in_by passId s) (cleared ts) (tickets s)"
    unfolding update_rows_def by (intro map_cong refl) simp
  have s': "s' = s\<lparr>doorPasses := update_rows (\<lambda>q. dp_id q = passId \<and> dp_revokedAt q = None)
        (\<lambda>q. q\<lparr>dp_revokedAt := Some ts\<rparr>) (doorPasses s),
      tickets := update_rows (in_by passId s) (cleared ts) (tickets s),
      orderEvents := orderEvents s @ map (undo_audit ts p reason actor) ?in\<rparr>"
    using eff(3) same(2) rows by (simp add: s1)
  have "db_ok s'" by (rule keepsD [OF constraints.revokeAndUndo assms(2,1)])
  moreover have "tickets s' = update_rows (in_by passId s) (cleared ts) (tickets s)"
    "doorScans s' = doorScans s"
    by (subst s', simp)+
  then have "\<not> in_by passId s' t" if "t \<in> set (tickets s')" for t
    using that by (auto simp: in_by_def set_update_rows cleared_def)
  ultimately have "ticketsCheckedInByPass passId s' = []"
    by (metis (no_types, lifting) standing_rows filter_False list.map_disc_iff)
  moreover have "doorPasses s' = update_rows (\<lambda>q. dp_id q = passId \<and> dp_revokedAt q = None)
      (\<lambda>q. q\<lparr>dp_revokedAt := Some ts\<rparr>) (doorPasses s)"
    by (subst s') simp
  then have "\<forall>q \<in> set (doorPasses s'). dp_id q = passId \<longrightarrow> dp_revokedAt q \<noteq> None"
    by (auto dest: revoked_rows)
  moreover note pass(1,2) eff(1) anns [unfolded eff(2)] s'
  ultimately show ?thesis by - (intro exI [of _ p] conjI; assumption)
qed

text \<open>The same scan again, on any later store.\<close>

lemma scan_again:
  assumes "fresh_scan snap env ts now rcv ctx item s = Inr ((answer, anns), s')"
    and "db_ok s" "\<And>k x. db_ok x \<Longrightarrow> db_ok (env k x)"
    and "grown s' w" "door_ok w" "dp_id (cx_pass ctx') = dp_id (cx_pass ctx)"
  shows "\<exists>a. scan w env' later' ts' now' rcv' ctx' item x = Inr ((a, []), x) \<and>
    an_result a =
      (if an_result answer = Logged ScanAdmitted \<and>
          (\<forall>t \<in> set (tickets w). t_checkedInScanId t \<noteq> Some (it_scanId item))
       then Rescan else an_result answer)"
proof -
  from fresh_scan_log [OF assms(1-3)] obtain d r where
    d: "d \<in> set (doorScans s')" and a: "an_result answer = Logged r"
    and t: "r = ScanAdmitted \<longrightarrow> fst (scanned_ticket item snap) \<noteq> None"
    and log: "log_of now rcv ctx item (fst (scanned_ticket item snap)) (snd (scanned_ticket item snap)) r d"
    by blast
  note f = log_of_fields [OF log]
  have dw: "d \<in> set (doorScans w)" using d assms(4) by (auto simp: grown_def)
  then have found: "findScanByScanId (it_scanId item) w = Some d"
    using assms(5) f(1) by (simp add: door_ok_def findScan_set)
  have "an_result (replay now' ctx' item d w) =
      (if an_result answer = Logged ScanAdmitted \<and>
          (\<forall>t \<in> set (tickets w). t_checkedInScanId t \<noteq> Some (it_scanId item))
       then Rescan else an_result answer)"
    unfolding replay_result [OF assms(5) dw sameScan_of_log [OF log assms(6)]]
    using a t f(1,3,4) by simp
  then show ?thesis using found by (simp add: scan_def)
qed

end
