(* ===== verification/DoorSamples.thy ===== *)
theory DoorSamples
  imports DoorBooks Samples
begin

text \<open>Sample stores of the door: the gate of the sample pass, a scan, and what it left.\<close>

definition DOOR_CTX :: door_context where
  "DOOR_CTX = \<lparr>cx_pass = hd (doorPasses SAMPLE_DB), cx_event = SAMPLE_EVENT,
     cx_window = event_window SAMPLE_EVENT, cx_practice = False\<rparr>"

definition DOOR_ITEM :: scan_item where
  "DOOR_ITEM = \<lparr>it_scanId = 500, it_input = None, it_ticketId = Some 200,
     it_phoneLast3 = Some (lit ''801''), it_method = BySearch, it_scannedAt = None,
     it_offline = None\<rparr>"

lemma SAMPLE_DB_door: "door_ok SAMPLE_DB"
proof -
  have "list_all (\<lambda>t. t_checkedInScanId t = None) (tickets SAMPLE_DB)" by code_simp
  then show ?thesis by (auto simp: door_ok_def SAMPLE_DB_ok logged_in_def list_all_iff)
qed

text \<open>The same store with the first ticket let in by the gate's scan 500, at time 9.\<close>

definition CHECKED_IN_DB :: db where
  "CHECKED_IN_DB = SAMPLE_DB
    \<lparr>tickets := update_rows (\<lambda>t. t_id t = 200)
       (admitted_row 9 (lit ''North'') 500 None) (tickets SAMPLE_DB),
     doorScans := [scan_row 9 9 DOOR_CTX DOOR_ITEM (findTicketById 200 SAMPLE_DB)
       (lit ''TKT-AAAAAAAA'') ScanAdmitted]\<rparr>"

lemma CHECKED_IN_DB_ok: "db_ok CHECKED_IN_DB"
  by code_simp

lemma CHECKED_IN_DB_door: "door_ok CHECKED_IN_DB"
proof -
  have "list_all (\<lambda>t. case t_checkedInScanId t of None \<Rightarrow> True
      | Some sc \<Rightarrow> list_ex (\<lambda>d. ds_scanId d = sc \<and> ds_result d = ScanAdmitted \<and>
          ds_ticketId d = Some (t_id t) \<and> ds_mode d \<noteq> Practice) (doorScans CHECKED_IN_DB))
    (tickets CHECKED_IN_DB)"
    by code_simp
  then show ?thesis
    by (auto simp: door_ok_def CHECKED_IN_DB_ok logged_in_def list_all_iff list_ex_iff split: option.splits)
qed

end
