(* ===== verification/DoorClaims.thy ===== *)
theory DoorClaims
  imports DoorRules DoorSamples
begin

text \<open>
  The guarantees of the door: what a scan may do, that retries are harmless, what an undo
  reaches, what revoking a pass leaves behind, who gets in as a gate, and decisions.
\<close>

section \<open>A scan\<close>

text \<open>C13: A scan has exactly three outcomes, whatever the other gates commit meanwhile. It repeats
  the stored answer and changes nothing; or it adds one row to the scan log, admits nobody and
  announces nothing; or it admits: then the pass was active, the ticket is one of the pass's
  event, the scan was not practice, a searched ticket came with the buyer's phone digits, an
  offline scan had admitted, and on the store it found, the ticket was issued and not in. It
  sets exactly that ticket's check-in, adds one audit row and one log row, and announces it.\<close>

theorem scan_outcomes:
  assumes "db_ok s" and env: "\<And>k x. db_ok x \<Longrightarrow> db_ok (env k x)"
    and r: "scan snap env later ts now rcv ctx item s = Inr ((answer, anns), s')"
  shows
    "(\<exists>w \<in> {snap, later}. \<exists>d. findScanByScanId (it_scanId item) w = Some d \<and>
        answer = replay now ctx item d w \<and> anns = [] \<and> s' = s) \<or>
     (\<exists>s1 \<in> {s, env 0 s, env 2 (env 0 s), env 2 (env 1 (env 0 s))}.
        only_logs now rcv ctx item (fst (scanned_ticket item snap)) (snd (scanned_ticket item snap))
          answer s1 s' \<and> anns = []) \<or>
     (\<exists>s1 \<in> {s, env 1 (env 0 s)}. \<exists>ticket inp. scanned_ticket item snap = (Some ticket, inp) \<and>
        (\<exists>p \<in> set (doorPasses s). dp_id p = dp_id (cx_pass ctx) \<and> dp_revokedAt p = None) \<and>
        may_admit ctx item ticket \<and> admits_on ts now rcv ctx item ticket inp answer s1 s' \<and>
        anns = [AnnounceIn (dt_id ticket) (the (an_at answer)) (dp_label (cx_pass ctx))])"
proof -
  have dbs: "db_ok (env 0 s)" "db_ok (env 1 (env 0 s))" "db_ok (env 2 (env 0 s))"
    "db_ok (env 2 (env 1 (env 0 s)))"
    using assms(1) env by auto
  have "(\<exists>w \<in> {snap, later}. \<exists>d. findScanByScanId (it_scanId item) w = Some d \<and>
        answer = replay now ctx item d w \<and> anns = [] \<and> s' = s) \<or>
      fresh_scan snap env ts now rcv ctx item s = Inr ((answer, anns), s')"
    using r by (auto simp: scan_def split: option.splits sum.splits app_error.splits)
  then show ?thesis
  proof
    assume "fresh_scan snap env ts now rcv ctx item s = Inr ((answer, anns), s')"
    then show ?thesis
    proof (cases rule: fresh_scan_cases)
      case (tried ticket inp)
      note cases = admit_tx_cases [OF tried(3) assms(1) dbs]
      have admitted: "an_result answer = Logged ScanAdmitted \<and> an_at answer \<noteq> None"
        if "admits_on ts now rcv ctx item ticket inp answer s1 s'" for s1
        using that by (auto simp: admits_on_def Let_def plain_answer_def admitted_row_def)
      have refused: "an_result answer \<noteq> Logged ScanAdmitted"
        if "refuses_on now rcv ctx item ticket inp answer s1 s'" for s1
        using that by (auto simp: refuses_on_def)
      from cases tried show ?thesis
        using admitted refused refuses_only_logs by (auto split: option.splits; fastforce)
    qed blast
  qed blast
qed

theorem scan_outcomes_witness:
  "\<exists>answer anns s'. scan SAMPLE_DB (\<lambda>_ x. x) SAMPLE_DB 9 9 9 DOOR_CTX DOOR_ITEM SAMPLE_DB =
      Inr ((answer, anns), s') \<and> an_result answer = Logged ScanAdmitted \<and> anns \<noteq> [] \<and>
    length (doorScans s') = 1"
proof -
  have "succeeds (scan SAMPLE_DB (\<lambda>_ x. x) SAMPLE_DB 9 9 9 DOOR_CTX DOOR_ITEM SAMPLE_DB)"
    by code_simp
  then obtain answer anns s' where
    e: "scan SAMPLE_DB (\<lambda>_ x. x) SAMPLE_DB 9 9 9 DOOR_CTX DOOR_ITEM SAMPLE_DB = Inr ((answer, anns), s')"
    by (metis succeedsE surj_pair)
  have "(case scan SAMPLE_DB (\<lambda>_ x. x) SAMPLE_DB 9 9 9 DOOR_CTX DOOR_ITEM SAMPLE_DB of
      Inr ((answer, anns), s') \<Rightarrow> an_result answer = Logged ScanAdmitted | _ \<Rightarrow> False)"
    by code_simp
  then have "an_result answer = Logged ScanAdmitted" by (simp add: e)
  moreover have "findScanByScanId (it_scanId DOOR_ITEM) SAMPLE_DB = None" "doorScans SAMPLE_DB = []"
    by code_simp+
  ultimately have "anns \<noteq> [] \<and> length (doorScans s') = 1"
    using scan_outcomes [OF SAMPLE_DB_ok _ e] by (auto simp: only_logs_def admits_on_def Let_def)
  then show ?thesis using e \<open>an_result answer = Logged ScanAdmitted\<close> by blast
qed

text \<open>Sending a scan again is harmless. Once a scan was recorded, the same request from the
  same pass, on any later store and whatever the transaction runs on, changes nothing and
  announces nothing, and gets the answer it got the first time, except that an admission that
  was undone since asks for a fresh scan.\<close>

theorem scan_retry:
  assumes "fresh_scan snap env ts now rcv ctx item s = Inr ((answer, anns), s')"
    and "db_ok s" "\<And>k x. db_ok x \<Longrightarrow> db_ok (env k x)"
    and "grown s' w" "door_ok w" "dp_id (cx_pass ctx') = dp_id (cx_pass ctx)"
  shows "\<exists>a. scan w env' later' ts' now' rcv' ctx' item x = Inr ((a, []), x) \<and>
    an_result a =
      (if an_result answer = Logged ScanAdmitted \<and>
          (\<forall>t \<in> set (tickets w). t_checkedInScanId t \<noteq> Some (it_scanId item))
       then Rescan else an_result answer)"
  by (rule scan_again [OF assms])

theorem scan_retry_witness:
  "\<exists>answer anns s' a. fresh_scan SAMPLE_DB (\<lambda>_ x. x) 9 9 9 DOOR_CTX DOOR_ITEM SAMPLE_DB =
      Inr ((answer, anns), s') \<and>
    scan s' (\<lambda>_ x. x) s' 20 20 20 DOOR_CTX DOOR_ITEM s' = Inr ((a, []), s') \<and>
    an_result a = Logged ScanAdmitted"
proof -
  have c: "(case fresh_scan SAMPLE_DB (\<lambda>_ x. x) 9 9 9 DOOR_CTX DOOR_ITEM SAMPLE_DB of
      Inr ((answer, anns), s') \<Rightarrow> an_result answer = Logged ScanAdmitted \<and>
        \<not> list_all (\<lambda>t. t_checkedInScanId t \<noteq> Some (it_scanId DOOR_ITEM)) (tickets s')
    | _ \<Rightarrow> False)"
    by code_simp
  then obtain answer anns s' where
    e: "fresh_scan SAMPLE_DB (\<lambda>_ x. x) 9 9 9 DOOR_CTX DOOR_ITEM SAMPLE_DB = Inr ((answer, anns), s')"
    by (cases "fresh_scan SAMPLE_DB (\<lambda>_ x. x) 9 9 9 DOOR_CTX DOOR_ITEM SAMPLE_DB") auto
  have "findScanByScanId (it_scanId DOOR_ITEM) SAMPLE_DB = None" by code_simp
  then have sc: "scan SAMPLE_DB (\<lambda>_ x. x) SAMPLE_DB 9 9 9 DOOR_CTX DOOR_ITEM SAMPLE_DB = Inr ((answer, anns), s')"
    by (simp add: scan_def e)
  have "door_ok s'" by (rule keepsD [OF scan_door, OF _ sc SAMPLE_DB_door])
  moreover have "grown s' s'" by (rule grown_refl)
  ultimately show ?thesis
    using scan_retry [OF e SAMPLE_DB_ok, of s' DOOR_CTX "\<lambda>_ x. x" s' 20 20 20 s'] c e
    by (auto simp: list_all_iff)
qed

section \<open>Undoing and revoking\<close>

text \<open>C14: A gate takes back only its own fresh admission: an undo that returns found an admitting
  scan of this very pass, at most two minutes old, the pass still active, and the ticket still
  in by that scan. It clears exactly that ticket's check-in, writes one audit row, keeps the
  scan log, and announces the check-in it cleared.\<close>

theorem undoOwnAdmit_spec:
  assumes "db_ok s" "undoOwnAdmit snap ts now ctx sc reason s = Inr (anns, s')"
  shows "\<exists>d t. findScanByScanId sc snap = Some d \<and> ds_result d = ScanAdmitted \<and>
    ds_passId d = dp_id (cx_pass ctx) \<and> now - scanTime d \<le> DOOR_UNDO_WINDOW_MS \<and>
    (\<exists>p \<in> set (doorPasses s). dp_id p = dp_id (cx_pass ctx) \<and> dp_revokedAt p = None) \<and>
    ds_ticketId d = Some (t_id t) \<and> t \<in> set (tickets s) \<and> t_checkedInScanId t = Some sc \<and>
    anns = [AnnounceUndo (t_id t) (the (t_checkedInAt t))] \<and>
    s' = s\<lparr>tickets := update_rows (\<lambda>q. t_id q = t_id t) (\<lambda>_. cleared ts t) (tickets s),
      orderEvents := orderEvents s @ [audit ts (t_orderId t) (lit ''door:'' @ dp_label (cx_pass ctx))
        (lit ''ticket.check_in_undone'') None None
        (t_code t @ lit '' '' @ [183] @ lit '' '' @ undo_reason_label reason)]\<rparr>"
proof -
  from assms(2) obtain i undone s1 where
    checks: "own_admit_checks snap now ctx sc = Inr i"
    and active: "\<exists>p \<in> set (doorPasses s). dp_id p = dp_id (cx_pass ctx) \<and> dp_revokedAt p = None"
    and undo: "ticket_undoCheckIn ts i sc s = Inr (Some undone, s1)"
    and rest: "anns = (case Option.bind (findTicketById i s) dt_checkedInAt of
        None \<Rightarrow> [] | Some a \<Rightarrow> [AnnounceUndo i a])"
      "s' = s1\<lparr>orderEvents := orderEvents s1 @ [audit ts (t_orderId undone)
        (lit ''door:'' @ dp_label (cx_pass ctx)) (lit ''ticket.check_in_undone'') None None
        (t_code undone @ lit '' '' @ [183] @ lit '' '' @ undo_reason_label reason)]\<rparr>"
    by (auto simp: undoOwnAdmit_def tx_simps)
  from undo_Inr [OF assms(1) undo] obtain t where t: "ticket_findById i s = Some t"
    "t_checkedInScanId t = Some sc" "t_checkedInAt t \<noteq> None" "undone = cleared ts t"
    "s1 = s\<lparr>tickets := update_rows (\<lambda>q. t_id q = i) (\<lambda>_. undone) (tickets s)\<rparr>"
    by auto
  have mem: "t \<in> set (tickets s)" "t_id t = i" using t(1) by (auto simp: ticket_findById_def dest: row_by_Some)
  from checks obtain d where "findScanByScanId sc snap = Some d" "ds_result d = ScanAdmitted"
    "ds_passId d = dp_id (cx_pass ctx)" "now - scanTime d \<le> DOOR_UNDO_WINDOW_MS" "ds_ticketId d = Some i"
    by (auto simp: own_admit_checks_def not_less split: option.splits if_splits)
  moreover from findTicketById_Some [OF assms(1) t(1)] t(3)
  have "anns = [AnnounceUndo i (the (t_checkedInAt t))]" by (auto simp: rest(1))
  ultimately show ?thesis
    using active mem t(2,4,5) rest(2)
    by (intro exI [of _ d] exI [of _ t] conjI) (simp_all add: cleared_def)
qed

theorem undoOwnAdmit_spec_witness:
  "\<exists>s'. undoOwnAdmit CHECKED_IN_DB 11 120009 DOOR_CTX 500 MisTap CHECKED_IN_DB =
      Inr ([AnnounceUndo 200 9], s') \<and> length (orderEvents s') = length (orderEvents CHECKED_IN_DB) + 1"
proof -
  have "succeeds (undoOwnAdmit CHECKED_IN_DB 11 120009 DOOR_CTX 500 MisTap CHECKED_IN_DB)"
    by code_simp
  then obtain anns s' where
    e: "undoOwnAdmit CHECKED_IN_DB 11 120009 DOOR_CTX 500 MisTap CHECKED_IN_DB = Inr (anns, s')"
    using succeedsE by blast
  have "map_option ds_ticketId (findScanByScanId 500 CHECKED_IN_DB) = Some (Some 200)"
    and "list_all (\<lambda>t. t_id t = 200 \<longrightarrow> t_checkedInAt t = Some 9) (tickets CHECKED_IN_DB)"
    by code_simp+
  then show ?thesis
    using e undoOwnAdmit_spec [OF CHECKED_IN_DB_ok e] by (auto simp: list_all_iff)
qed

text \<open>C15: Revoking a pass with undo leaves nothing of it standing: the pass was one of this event,
  it is revoked afterwards (at its first revocation's time), exactly the tickets standing
  checked in by its scans are cleared, each with one audit row of the actor, the count is their
  number, the gates hear the revocation and every undo, and the scan log stays.\<close>

theorem revokeAndUndo_spec:
  assumes "db_ok s" "revokeAndUndo snap ts now eventId passId reason actor s = Inr ((n, anns), s')"
  shows "\<exists>p. findPassById passId snap = Some p \<and> dp_eventId p = eventId \<and>
    n = length (filter (in_by passId s) (tickets s)) \<and>
    anns = announceRevoke s' now eventId passId #
      map (\<lambda>t. AnnounceUndo (t_id t) (the (t_checkedInAt t))) (filter (in_by passId s) (tickets s)) \<and>
    s' = s\<lparr>doorPasses := update_rows (\<lambda>q. dp_id q = passId \<and> dp_revokedAt q = None)
        (\<lambda>q. q\<lparr>dp_revokedAt := Some ts\<rparr>) (doorPasses s),
      tickets := update_rows (in_by passId s) (cleared ts) (tickets s),
      orderEvents := orderEvents s @
        map (undo_audit ts p reason actor) (filter (in_by passId s) (tickets s))\<rparr> \<and>
    (\<forall>q \<in> set (doorPasses s'). dp_id q = passId \<longrightarrow> dp_revokedAt q \<noteq> None) \<and>
    ticketsCheckedInByPass passId s' = []"
  by (rule revoke_undo_effect [OF assms])

theorem revokeAndUndo_spec_witness:
  "\<exists>anns s'. revokeAndUndo CHECKED_IN_DB 11 11 1 50 (lit ''x'') (lit ''raj'') CHECKED_IN_DB =
      Inr ((1, anns), s') \<and> ticketsCheckedInByPass 50 s' = []"
proof -
  have "succeeds (revokeAndUndo CHECKED_IN_DB 11 11 1 50 (lit ''x'') (lit ''raj'') CHECKED_IN_DB)"
    by code_simp
  then obtain n anns s' where
    e: "revokeAndUndo CHECKED_IN_DB 11 11 1 50 (lit ''x'') (lit ''raj'') CHECKED_IN_DB = Inr ((n, anns), s')"
    by (metis succeedsE surj_pair)
  have "length (filter (in_by 50 CHECKED_IN_DB) (tickets CHECKED_IN_DB)) = 1" by code_simp
  then show ?thesis using revokeAndUndo_spec [OF CHECKED_IN_DB_ok e] e by auto
qed

section \<open>Decisions\<close>

text \<open>The gate's answer to a refused scan is given once: a decision that returns concerns a
  scan of this pass that neither admitted nor was practice, at most ten minutes old; it is
  stored when it is the first of its scan and otherwise changes nothing, and every further
  answer to the same scan leaves the first standing.\<close>

theorem decide_spec:
  assumes "decide snap rcv now ctx sc dec s = Inr (b, s')"
  shows "(\<exists>d. findScanByScanId sc snap = Some d \<and> ds_passId d = dp_id (cx_pass ctx) \<and>
      ds_result d \<noteq> ScanAdmitted \<and> ds_result d \<noteq> ScanPracticeOk \<and>
      now - ds_receivedAt d \<le> DOOR_DECISION_WINDOW_MS) \<and>
    (if sc \<in> dd_scanId ` set (doorDecisions s) then \<not> b \<and> s' = s
     else b \<and> s' = s\<lparr>doorDecisions := doorDecisions s @
       [\<lparr>dd_scanId = sc, dd_passId = dp_id (cx_pass ctx), dd_eventId = e_id (cx_event ctx),
         dd_decision = dec, dd_decidedAt = rcv\<rparr>]\<rparr>) \<and>
    decide snap rcv' now ctx sc dec' s' = Inr (False, s')"
proof -
  from assms obtain d where d: "findScanByScanId sc snap = Some d" "ds_passId d = dp_id (cx_pass ctx)"
      "ds_result d \<noteq> ScanAdmitted \<and> ds_result d \<noteq> ScanPracticeOk"
      "now - ds_receivedAt d \<le> DOOR_DECISION_WINDOW_MS"
    and ins: "insertDecision \<lparr>dd_scanId = sc, dd_passId = dp_id (cx_pass ctx),
      dd_eventId = e_id (cx_event ctx), dd_decision = dec, dd_decidedAt = rcv\<rparr> s = Inr (b, s')"
    by (auto simp: decide_def tx_simps)
  have eff: "if sc \<in> dd_scanId ` set (doorDecisions s) then \<not> b \<and> s' = s
     else b \<and> s' = s\<lparr>doorDecisions := doorDecisions s @
       [\<lparr>dd_scanId = sc, dd_passId = dp_id (cx_pass ctx), dd_eventId = e_id (cx_event ctx),
         dd_decision = dec, dd_decidedAt = rcv\<rparr>]\<rparr>"
    using ins row_by_None [of dd_scanId sc "doorDecisions s"]
    by (auto simp: insertDecision_def tx_simps split: if_splits)
  then have "sc \<in> dd_scanId ` set (doorDecisions s')" by (auto split: if_splits)
  then have "row_by dd_scanId sc (doorDecisions s') \<noteq> None" by (simp add: row_by_None)
  then have again: "decide snap rcv' now ctx sc dec' s' = Inr (False, s')"
    using d by (simp add: decide_def insertDecision_def tx_run)
  show ?thesis using d eff again by blast
qed

text \<open>The sample store after the gate's scan 501 was refused.\<close>

definition REFUSED_DB :: db where
  "REFUSED_DB = SAMPLE_DB\<lparr>doorScans :=
    [\<lparr>ds_scanId = 501, ds_passId = 50, ds_eventId = 1, ds_ticketId = Some 200, ds_input = [],
      ds_result = ScanAlreadyIn, ds_method = ByQr, ds_mode = Online, ds_priorCheckedInAt = None,
      ds_priorCheckedInBy = None, ds_scannedAt = None, ds_receivedAt = 9, ds_doorVerdict = None,
      ds_supersedesScanId = None\<rparr>]\<rparr>"

theorem decide_spec_witness:
  "\<exists>s'. decide REFUSED_DB 20 20 DOOR_CTX 501 TurnedAway REFUSED_DB = Inr (True, s') \<and>
    decide REFUSED_DB 30 20 DOOR_CTX 501 LetIn s' = Inr (False, s')"
proof -
  have "succeeds (decide REFUSED_DB 20 20 DOOR_CTX 501 TurnedAway REFUSED_DB)" by code_simp
  then obtain b s' where e: "decide REFUSED_DB 20 20 DOOR_CTX 501 TurnedAway REFUSED_DB = Inr (b, s')"
    using succeedsE by blast
  have "doorDecisions REFUSED_DB = []" by code_simp
  then have "b = True" using decide_spec [OF e] by simp
  moreover have "decide REFUSED_DB 30 20 DOOR_CTX 501 LetIn s' = Inr (False, s')"
    using decide_spec [OF e] by blast
  ultimately show ?thesis using e by blast
qed

section \<open>Getting in as a gate\<close>

lemma alphabet_plain:
  "c \<in> set ORDER_REFERENCE_ALPHABET \<or> c = 45 \<Longrightarrow> upper_unit c = [c] \<and> \<not> is_space c"
proof -
  assume "c \<in> set ORDER_REFERENCE_ALPHABET \<or> c = 45"
  moreover have "list_all (\<lambda>c. 45 \<le> c \<and> c \<le> 90) ORDER_REFERENCE_ALPHABET" by code_simp
  ultimately have c: "45 \<le> c" "c \<le> 90" by (auto simp: list_all_iff)
  then have "map_of UPPER_TO_ASCII c = None" by (simp add: UPPER_TO_ASCII_def)
  then show ?thesis using c by (simp add: upper_unit_def is_lower_def is_space_def)
qed

lemma alphabet_no_dash: "45 \<notin> set ORDER_REFERENCE_ALPHABET"
  by (simp add: ORDER_REFERENCE_ALPHABET_def lit_def)

lemma upper_plain: "(\<And>c. c \<in> set s \<Longrightarrow> upper_unit c = [c]) \<Longrightarrow> toUpperCase s = s"
  by (induction s) (auto simp: toUpperCase_def)

lemma normalise_format:
  assumes "PASS_CODE_PATTERN c"
  shows "normalisePassCode (formatPassCode c) = Some c" "normalisePassCode c = Some c"
proof -
  have abc: "x \<in> set ORDER_REFERENCE_ALPHABET" if "x \<in> set c" for x
    using assms that by (auto simp: PASS_CODE_PATTERN_def code_symbols_def list_all_iff)
  then have plain: "upper_unit x = [x]" "\<not> is_space x" if "x \<in> set (formatPassCode c)" for x
    using formatPassCode_set [OF that] alphabet_plain by blast+
  have "45 \<notin> set c" using abc alphabet_no_dash by blast
  have "filter (\<lambda>x. \<not> is_space x \<and> x \<noteq> 45) (formatPassCode c) = filter (\<lambda>x. x \<noteq> 45) (formatPassCode c)"
    using plain(2) by (intro filter_cong) auto
  also have "\<dots> = c" by (rule formatPassCode_strip) fact
  finally show "normalisePassCode (formatPassCode c) = Some c"
    using assms upper_plain [OF plain(1)] by (simp add: normalisePassCode_def)
  have "toUpperCase c = c" using abc alphabet_plain by (intro upper_plain) blast
  moreover have "filter (\<lambda>x. \<not> is_space x \<and> x \<noteq> 45) c = c"
    using abc alphabet_plain \<open>45 \<notin> set c\<close> by (intro filter_True) auto
  ultimately show "normalisePassCode c = Some c" using assms by (simp add: normalisePassCode_def)
qed

text \<open>A phone gets in as a gate exactly with the code of a pass that is not revoked, whose event
  is no draft and whose window is not over; it gets that pass and its event, in practice mode
  exactly before the doors open. The code works as stored and as it is printed, with dashes.\<close>

theorem authenticate_spec:
  assumes "db_ok s"
  shows "(authenticate now raw s = Some ctx \<longleftrightarrow>
      (\<exists>p \<in> set (doorPasses s). \<exists>e \<in> set (events s). normalisePassCode raw = Some (dp_code p) \<and>
        dp_revokedAt p = None \<and> e_id e = dp_eventId p \<and> e_status e \<noteq> Draft \<and>
        now \<le> validUntil (event_window e) \<and>
        ctx = \<lparr>cx_pass = p, cx_event = e, cx_window = event_window e,
          cx_practice = (now < validFrom (event_window e))\<rparr>)) \<and>
    (\<forall>p \<in> set (doorPasses s). normalisePassCode (formatPassCode (dp_code p)) = Some (dp_code p) \<and>
      authenticate now (formatPassCode (dp_code p)) s = authenticate now (dp_code p) s)"
proof (intro conjI ballI)
  have ok: "door_passes_violation s (doorPasses s) = None" "events_violation s (events s) = None"
    using assms by (simp_all add: db_ok_def)
  have d: "distinct (map dp_code (doorPasses s))" "distinct (map e_id (events s))"
    using ok by (auto simp: door_passes_violation_def events_violation_def violation_None)
  have pass: "findPassByCode c s = Some p \<longleftrightarrow> p \<in> set (doorPasses s) \<and> dp_code p = c" for c p
    by (simp add: findPassByCode_def row_by_unique [OF d(1)])
  have ev: "event_findById i s = Some e \<longleftrightarrow> e \<in> set (events s) \<and> e_id e = i" for i e
    by (simp add: event_findById_def row_by_unique [OF d(2)])
  show "authenticate now raw s = Some ctx \<longleftrightarrow>
      (\<exists>p \<in> set (doorPasses s). \<exists>e \<in> set (events s). normalisePassCode raw = Some (dp_code p) \<and>
        dp_revokedAt p = None \<and> e_id e = dp_eventId p \<and> e_status e \<noteq> Draft \<and>
        now \<le> validUntil (event_window e) \<and>
        ctx = \<lparr>cx_pass = p, cx_event = e, cx_window = event_window e,
          cx_practice = (now < validFrom (event_window e))\<rparr>)"
    by (auto simp: authenticate_def Option.bind_eq_Some_conv pass ev Let_def not_less split: if_splits)
  fix p assume p: "p \<in> set (doorPasses s)"
  then have "PASS_CODE_PATTERN (dp_code p)"
    using ok(1) by (auto simp: door_passes_violation_def violation_None list_all_iff)
  note n = normalise_format [OF this]
  show "normalisePassCode (formatPassCode (dp_code p)) = Some (dp_code p)" by (rule n(1))
  show "authenticate now (formatPassCode (dp_code p)) s = authenticate now (dp_code p) s"
    by (simp add: authenticate_def n)
qed

theorem authenticate_spec_witness:
  "authenticate 2592000000 (formatPassCode (lit ''K7QM4XPDR2TW'')) SAMPLE_DB = Some DOOR_CTX"
proof -
  let ?p = "hd (doorPasses SAMPLE_DB)"
  have p: "?p \<in> set (doorPasses SAMPLE_DB)" "dp_code ?p = lit ''K7QM4XPDR2TW''" "dp_revokedAt ?p = None"
    "dp_eventId ?p = 1"
    by (simp_all add: SAMPLE_DB_def)
  have e: "SAMPLE_EVENT \<in> set (events SAMPLE_DB)" "e_id SAMPLE_EVENT = 1" "e_status SAMPLE_EVENT = Published"
    by (simp_all add: SAMPLE_DB_def SAMPLE_EVENT_def)
  have w: "(2592000000 :: int) \<le> validUntil (event_window SAMPLE_EVENT)"
    "\<not> (2592000000 :: int) < validFrom (event_window SAMPLE_EVENT)"
    by code_simp+
  note spec = authenticate_spec [OF SAMPLE_DB_ok, of 2592000000 "formatPassCode (dp_code ?p)" DOOR_CTX]
  have "normalisePassCode (formatPassCode (dp_code ?p)) = Some (dp_code ?p)" using spec p(1) by blast
  then have "authenticate 2592000000 (formatPassCode (dp_code ?p)) SAMPLE_DB = Some DOOR_CTX"
    using spec p(1,3,4) e w by (intro iffD2 [OF conjunct1 [OF spec]]) (force simp: DOOR_CTX_def)
  then show ?thesis by (simp add: p(2))
qed

end
