(* ===== verification/PassBooks.thy ===== *)
theory PassBooks
  imports DoorRules
begin

text \<open>
  A revoked pass stays out: once nothing of a revoked pass stands, no sequence of calls lets
  anybody in by it again, and no scan of it that is still under way does.
\<close>

definition shut_out :: "uuid \<Rightarrow> db \<Rightarrow> bool" where
  "shut_out p s \<longleftrightarrow> door_ok s \<and>
    (\<exists>q \<in> set (doorPasses s). dp_id q = p \<and> dp_revokedAt q \<noteq> None) \<and>
    (\<forall>t \<in> set (tickets s). \<not> in_by p s t)"

lemma passes_distinct: "db_ok s \<Longrightarrow> distinct (map dp_id (doorPasses s))"
  by (auto simp: db_ok_def door_passes_violation_def violation_None)

lemma unique_scan: "db_ok s \<Longrightarrow> d \<in> set (doorScans s) \<Longrightarrow> e \<in> set (doorScans s) \<Longrightarrow>
    ds_scanId d = ds_scanId e \<Longrightarrow> d = e"
  using scans_distinct [of s] by (auto simp: distinct_map dest: inj_onD)

lemma unique_pass: "db_ok s \<Longrightarrow> p \<in> set (doorPasses s) \<Longrightarrow> q \<in> set (doorPasses s) \<Longrightarrow>
    dp_id p = dp_id q \<Longrightarrow> p = q"
  using passes_distinct [of s] by (auto simp: distinct_map dest: inj_onD)

lemma in_has_time:
  "db_ok s \<Longrightarrow> t \<in> set (tickets s) \<Longrightarrow> t_checkedInScanId t = Some sc \<Longrightarrow> t_checkedInAt t \<noteq> None"
  using tickets_ok(7) [OF db_ok_tickets] by fastforce

lemma shut_out_step:
  assumes s: "shut_out p s" and ok': "db_ok s'" and q: "no_new_check_in s s'" and g: "grown s s'"
    and l: "lasting s s'"
  shows "shut_out p s'"
proof -
  have d: "door_ok s" "db_ok s" using s by (auto simp: shut_out_def door_ok_def)
  have d': "door_ok s'" by (rule door_ok_step [OF d(1) ok' q g])
  obtain r where r: "r \<in> set (doorPasses s)" "dp_id r = p" "dp_revokedAt r \<noteq> None"
    using s by (auto simp: shut_out_def)
  from l r(1) obtain r' where r': "r' \<in> set (doorPasses s')" "same_pass r r'"
    by (auto simp: lasting_def lives_on_def)
  have pass: "r \<in> set (doorPasses s')" using r(3) r' by (auto simp: same_pass_def)
  have "\<not> in_by p s' t'" if t': "t' \<in> set (tickets s')" for t'
  proof
    assume "in_by p s' t'"
    then obtain e where e: "e \<in> set (doorScans s')" "t_checkedInScanId t' = Some (ds_scanId e)" "ds_passId e = p"
      by (auto simp: in_by_def)
    from q t' e(2) obtain t where t: "t \<in> set (tickets s)" "t_checkedInScanId t = Some (ds_scanId e)"
      by (auto simp: no_new_check_in_def)
    from d(1) t obtain e0 where e0: "e0 \<in> set (doorScans s)" "ds_scanId e0 = ds_scanId e"
      unfolding door_ok_def logged_in_def by blast
    have "e0 \<in> set (doorScans s')" using e0(1) g by (auto simp: grown_def)
    then have "e0 = e" by (rule unique_scan [OF ok' _ e(1) e0(2)])
    then have "in_by p s t"
      using e0(1) e(3) t in_has_time [OF d(2) t] by (auto simp: in_by_def)
    then show False using s t(1) by (simp add: shut_out_def)
  qed
  then show ?thesis using d' pass r by (auto simp: shut_out_def)
qed

interpretation shut: check_in_law "shut_out p" for p
  by unfold_locales (simp add: shut_out_def door_ok_def, rule shut_out_step)

lemma shut_out_log:
  assumes "only_logs now rcv ctx item tk inp a s1 s'" "shut_out p s1" "db_ok s'"
  shows "shut_out p s'"
proof -
  from assms(1) obtain d where s': "s' = s1\<lparr>doorScans := doorScans s1 @ [d]\<rparr>"
    by (auto simp: only_logs_def)
  have "no_new_check_in s1 s'" "grown s1 s'" "lasting s1 s'"
    using assms(3) by (simp_all add: s' no_new_check_in_same grown_def lasting_def lives_on_refl)
  then show ?thesis by (rule shut_out_step [OF assms(2,3)])
qed

lemma shut_out_admits:
  assumes a: "admits_on ts now rcv ctx item ticket inp answer s1 s'" and s: "shut_out p s1"
    and ok': "db_ok s'" and m: "may_admit ctx item ticket" and other: "dp_id (cx_pass ctx) \<noteq> p"
  shows "shut_out p s'"
proof -
  let ?new = "scan_row now rcv ctx item (Some ticket) inp ScanAdmitted"
  have ok: "door_ok s1" "db_ok s1" using s by (auto simp: shut_out_def door_ok_def)
  from a obtain t where
    tickets: "tickets s' = update_rows (\<lambda>q. t_id q = dt_id ticket)
      (\<lambda>_. admitted_row ts (dp_label (cx_pass ctx)) (it_scanId item) (offline_time now ctx item) t) (tickets s1)"
    and scans: "doorScans s' = doorScans s1 @ [?new]" and passes: "doorPasses s' = doorPasses s1"
    by (auto simp: admits_on_def Let_def)
  have new: "?new \<in> set (doorScans s')" "ds_scanId ?new = it_scanId item" "ds_passId ?new \<noteq> p"
    using other by (simp_all add: scans scan_row_def)
  have "\<not> in_by p s' u" if u: "u \<in> set (tickets s')" for u
  proof
    assume "in_by p s' u"
    then obtain e where e: "e \<in> set (doorScans s')" "t_checkedInScanId u = Some (ds_scanId e)" "ds_passId e = p"
      by (auto simp: in_by_def)
    then have "e \<noteq> ?new" using new(3) by auto
    then have not_new: "ds_scanId e \<noteq> it_scanId item" using unique_scan [OF ok' e(1) new(1)] new(2) by auto
    then have old: "u \<in> set (tickets s1)"
      using u e(2) by (auto simp: tickets set_update_rows admitted_row_def)
    have "e \<in> set (doorScans s1)" using e(1) \<open>e \<noteq> ?new\<close> by (simp add: scans)
    then have "in_by p s1 u" using e(2,3) in_has_time [OF ok(2) old e(2)] by (auto simp: in_by_def)
    then show False using s old by (simp add: shut_out_def)
  qed
  then show ?thesis
    using door_ok_admits [OF a ok(1) ok' m] s passes by (auto simp: shut_out_def)
qed

lemma scan_shut:
  assumes env: "\<And>k x. shut_out p x \<Longrightarrow> shut_out p (env k x)"
  shows "keeps (shut_out p) (scan snap env after ts now rcv ctx item)"
proof (rule keepsI)
  fix s x s' assume ok: "shut_out p s" and r: "scan snap env after ts now rcv ctx item s = Inr (x, s')"
  have k: "shut_out p (env 0 s)" "shut_out p (env 1 (env 0 s))" "shut_out p (env 2 (env 0 s))"
    "shut_out p (env 2 (env 1 (env 0 s)))"
    using ok env by auto
  have dbs: "\<And>x. shut_out p x \<Longrightarrow> db_ok x" by (simp add: shut_out_def door_ok_def)
  obtain answer anns where x: "x = (answer, anns)" by fastforce
  have "s' = s \<or> fresh_scan snap env ts now rcv ctx item s = Inr (x, s')"
    using r by (simp add: scan_def split: option.splits sum.splits app_error.splits)
  then show "shut_out p s'"
  proof
    assume f: "fresh_scan snap env ts now rcv ctx item s = Inr (x, s')"
    from f [unfolded x] show "shut_out p s'"
    proof (cases rule: fresh_scan_cases)
      case logged
      then show ?thesis using shut_out_log ok dbs by blast
    next
      case (tried ticket inp)
      from admit_tx_cases [OF tried(3) dbs [OF ok] dbs [OF k(1)] dbs [OF k(2)] dbs [OF k(3)] dbs [OF k(4)]]
      have c: "db_ok s'" "(\<exists>s1 \<in> {s, env 1 (env 0 s)}. admits_on ts now rcv ctx item ticket inp answer s1 s') \<or>
        (\<exists>s1 \<in> {env 0 s, env 2 (env 0 s), env 2 (env 1 (env 0 s))}.
          refuses_on now rcv ctx item ticket inp answer s1 s')"
        and act: "\<exists>q \<in> set (doorPasses s). dp_id q = dp_id (cx_pass ctx) \<and> dp_revokedAt q = None"
        by blast+
      have "dp_id (cx_pass ctx) \<noteq> p"
        using act ok unique_pass [OF dbs [OF ok]] by (force simp: shut_out_def)
      then show ?thesis
        using ok k c shut_out_log [OF refuses_only_logs] shut_out_admits [OF _ _ _ tried(2)]
        by (elim disjE bexE) (metis insertE singletonD)+
    qed
  qed (use ok in simp)
qed

interpretation shut_services: service_law "shut_out p" for p
  by unfold_locales
    (rule shut.ordering.createOrder shut.ordering.submitPayment shut.ordering.approveOrder
      shut.ordering.issueComplimentary shut.ordering.rejectOrder shut.ordering.cancelTicket
    | erule shut.ordering.expireLapsedHolds | rule scan_shut, blast)+

end
