(* ===== verification/SystemClaims.thy ===== *)
theory SystemClaims
  imports PassBooks DoorSamples
begin

text \<open>
  The guarantees that span services: what holds after any sequence of calls, with any scans
  of other gates committing in between.
\<close>

lemma EMPTY_DB_ok: "db_ok EMPTY_DB"
  unfolding db_ok_def by (simp add: EMPTY_DB_def violation_defs violation_None)

lemma EMPTY_DB_books: "books_ok EMPTY_DB"
  using EMPTY_DB_ok
  by (simp add: books_ok_def seats_balanced_def tickets_match_def trail_ok_def EMPTY_DB_def seat_of_def)

lemma total_quantities:
  "total_of (pending_weight i) rs = sum_list (map o_quantity
    (filter (\<lambda>r. holdsInventory (o_status r) \<and> o_ticketTypeId r = i) rs))"
  by (induction rs) (simp_all add: pending_weight_def)

lemma total_live:
  "total_of (live_weight i) ts = int (length
    (filter (\<lambda>t. t_status t = TicketIssued \<and> t_ticketTypeId t = i) ts))"
  by (induction ts) (simp_all add: live_weight_def)

section \<open>Seats\<close>

text \<open>C16: No ticket type is ever oversold. Whatever calls were made since the database was empty (or
  since any store whose books agree), the held and sold counters of every ticket type are not
  negative and together within its total; the held counter is exactly the quantity of the orders
  that still wait for payment or verification, the sold counter exactly the number of its
  issued tickets.\<close>

theorem never_oversold:
  assumes "run s0 s" "books_ok s0" "tt \<in> set (ticketTypes s)"
  shows "books_ok EMPTY_DB \<and> 0 \<le> tt_quantityReserved tt \<and> 0 \<le> tt_quantitySold tt \<and>
    tt_quantityReserved tt + tt_quantitySold tt \<le> tt_quantityTotal tt \<and>
    tt_quantityReserved tt = sum_list (map o_quantity
      (filter (\<lambda>r. holdsInventory (o_status r) \<and> o_ticketTypeId r = tt_id tt) (orders s))) \<and>
    tt_quantitySold tt = int (length
      (filter (\<lambda>t. t_status t = TicketIssued \<and> t_ticketTypeId t = tt_id tt) (tickets s)))"
proof -
  have b: "books_ok s" by (rule books.run_keeps [OF assms(1,2)])
  note v = db_ok_ticket_types [OF books_okD(1) [OF b]]
  have "row_by tt_id (tt_id tt) (ticketTypes s) = Some tt"
    using assms(3) by (simp add: row_by_unique [OF ticket_types_ok(1) [OF v]])
  with books_okD(2) [OF b] have "tt_quantityReserved tt = sum_list (map o_quantity
      (filter (\<lambda>r. holdsInventory (o_status r) \<and> o_ticketTypeId r = tt_id tt) (orders s)))"
    "tt_quantitySold tt = int (length
      (filter (\<lambda>t. t_status t = TicketIssued \<and> t_ticketTypeId t = tt_id tt) (tickets s)))"
    unfolding seats_balanced_def total_quantities total_live
    by (auto simp: seat_of_def dest!: spec [where x = "tt_id tt"])
  then show ?thesis using ticket_types_ok(2,3) [OF v assms(3)] EMPTY_DB_books by auto
qed

text \<open>One call on the sample store: the complimentary ticket is cancelled.\<close>

lemma sample_cancel:
  obtains res s' where "cancelTicket 9 202 103 [] (lit ''x'') SAMPLE_DB = Inr (res, s')" "run SAMPLE_DB s'"
proof -
  have "succeeds (cancelTicket 9 202 103 [] (lit ''x'') SAMPLE_DB)" by code_simp
  then obtain res s' where e: "cancelTicket 9 202 103 [] (lit ''x'') SAMPLE_DB = Inr (res, s')"
    using succeedsE by blast
  then show thesis using that run_cancel [OF run_refl e] by blast
qed

theorem never_oversold_witness:
  "\<exists>s. run SAMPLE_DB s \<and> s \<noteq> SAMPLE_DB \<and> list_all (\<lambda>tt. 0 \<le> tt_quantitySold tt \<and>
    tt_quantityReserved tt + tt_quantitySold tt \<le> tt_quantityTotal tt) (ticketTypes s)"
proof -
  obtain res s' where e: "cancelTicket 9 202 103 [] (lit ''x'') SAMPLE_DB = Inr (res, s')"
    and r: "run SAMPLE_DB s'"
    by (rule sample_cancel)
  have "(case cancelTicket 9 202 103 [] (lit ''x'') SAMPLE_DB of
      Inr (_, s) \<Rightarrow> length (orderEvents s) \<noteq> 8 | Inl _ \<Rightarrow> False)"
    by code_simp
  then have "length (orderEvents s') \<noteq> 8" unfolding e by simp
  moreover have "length (orderEvents SAMPLE_DB) = 8" by code_simp
  ultimately have "s' \<noteq> SAMPLE_DB" by blast
  then show ?thesis
    using r never_oversold [OF r SAMPLE_DB_books] by (auto simp: list_all_iff)
qed

section \<open>History\<close>

text \<open>C17: History is only ever added to: after any sequence of calls the audit trail, the scan log and
  the door decisions are what they were, with rows appended.\<close>

theorem history_append_only:
  assumes "run s s'"
  shows "(\<exists>evs. orderEvents s' = orderEvents s @ evs) \<and> (\<exists>scs. doorScans s' = doorScans s @ scs) \<and>
    (\<exists>dds. doorDecisions s' = doorDecisions s @ dds)"
  using logs.services.run_keeps [OF assms grown_refl] by (simp add: grown_def)

theorem history_append_only_witness:
  "\<exists>s evs. run SAMPLE_DB s \<and> orderEvents s = SAMPLE_TRAIL @ evs"
proof -
  obtain res s' where "run SAMPLE_DB s'" by (rule sample_cancel)
  moreover have "orderEvents SAMPLE_DB = SAMPLE_TRAIL" by (simp add: SAMPLE_DB_def)
  ultimately show ?thesis using history_append_only [of SAMPLE_DB s'] by auto
qed

lemma same_terms_fields:
  assumes "same_terms r r'"
  shows "o_id r' = o_id r" "o_reference r' = o_reference r" "o_quantity r' = o_quantity r"
proof -
  note e = assms [unfolded same_terms_def]
  show "o_id r' = o_id r" "o_reference r' = o_reference r" "o_quantity r' = o_quantity r"
    by (subst e, simp)+
qed

lemma same_pass_id: "same_pass p q \<Longrightarrow> dp_id q = dp_id p"
proof -
  assume "same_pass p q"
  then have e: "q = p\<lparr>dp_revokedAt := dp_revokedAt q\<rparr>" by (simp add: same_pass_def)
  show ?thesis by (subst e) simp
qed

text \<open>C18: No order, ticket or pass is ever lost or rewritten: after any sequence of calls every order
  is still there with the same reference, buyer, names, quantity, prices, discount and hold
  (only its status, payment details and rejection may differ), every ticket with the same
  order, type, event, code and position, a cancelled one unchanged in everything, and every pass
  with the same code and label, a revoked one revoked at the same time.\<close>

theorem rows_last:
  assumes "run s s'" "db_ok s"
  shows "(\<forall>r \<in> set (orders s). \<exists>r' \<in> set (orders s'). same_terms r r') \<and>
    (\<forall>t \<in> set (tickets s). \<exists>t' \<in> set (tickets s'). same_ticket t t') \<and>
    (\<forall>p \<in> set (doorPasses s). \<exists>p' \<in> set (doorPasses s'). same_pass p p')"
  using terms.services.run_keeps [OF assms(1) lasting_refl [OF assms(2)]]
  by (simp add: lasting_def lives_on_def)

theorem rows_last_witness:
  "\<exists>s. run SAMPLE_DB s \<and> (\<exists>r' \<in> set (orders s). o_reference r' = lit ''EA-D'' \<and> o_quantity r' = 1)"
proof -
  obtain res s' where r: "run SAMPLE_DB s'" by (rule sample_cancel)
  have "SAMPLE_COMP \<in> set (orders SAMPLE_DB)" by (simp add: SAMPLE_DB_def)
  then obtain r' where "r' \<in> set (orders s')" "same_terms SAMPLE_COMP r'"
    using rows_last [OF r SAMPLE_DB_ok] by blast
  then have "o_reference r' = lit ''EA-D'' \<and> o_quantity r' = 1"
    using same_terms_fields by (simp add: SAMPLE_COMP_def SAMPLE_ORDER_def)
  then show ?thesis using r \<open>r' \<in> set (orders s')\<close> by blast
qed

lemma follow_path:
  "follow (Some a) es = Some c \<Longrightarrow> \<exists>bs. c = Some (last (a # bs)) \<and> path_of ORDER_TRANSITIONS a bs"
proof (induction es arbitrary: a)
  case Nil
  then show ?case by (intro exI [of _ "[]"]) simp
next
  case (Cons e es)
  show ?case
  proof (cases "oe_toStatus e")
    case None
    then show ?thesis using Cons by simp
  next
    case (Some b)
    then have leg: "legal_move (Some a) b" and rest: "follow (Some b) es = Some c"
      using Cons.prems by (auto split: if_splits)
    from Cons.IH [OF rest] obtain bs where bs: "c = Some (last (b # bs))" "path_of ORDER_TRANSITIONS b bs"
      by blast
    show ?thesis
    proof (cases "a = b")
      case True
      then show ?thesis using bs by blast
    next
      case False
      then have "path_of ORDER_TRANSITIONS a (b # bs)"
        using leg bs(2) by (simp add: legal_move_def isOrderTransitionAllowed_def)
      then show ?thesis using bs(1) by (intro exI [of _ "b # bs"]) simp
    qed
  qed
qed

text \<open>C19: Between any two moments an order's status moved along the transition table, never twice
  through the same status: from the status it had to the one it has there is a path of the
  table, and a rejected, expired or cancelled order keeps its status for good.\<close>

theorem order_moves_legally:
  assumes "run s s'" "books_ok s" "r \<in> set (orders s)"
  shows "\<exists>r' \<in> set (orders s'). \<exists>path. o_id r' = o_id r \<and>
    path_of ORDER_TRANSITIONS (o_status r) path \<and> distinct (o_status r # path) \<and>
    o_status r' = last (o_status r # path) \<and>
    (o_status r \<in> {Rejected, Expired, Cancelled} \<longrightarrow> o_status r' = o_status r)"
proof -
  have b: "books_ok s'" by (rule books.run_keeps [OF assms(1,2)])
  obtain r' where r': "r' \<in> set (orders s')" "same_terms r r'"
    using terms.services.run_keeps [OF assms(1) lasting_refl [OF books_okD(1) [OF assms(2)]]] assms(3)
    by (auto simp: lasting_def lives_on_def)
  then have i: "o_id r' = o_id r" by (simp add: same_terms_fields)
  obtain evs where evs: "orderEvents s' = orderEvents s @ evs"
    using logs.services.run_keeps [OF assms(1) grown_refl] by (auto simp: grown_def)
  have "follow None (trail s (o_id r)) = Some (Some (o_status r))"
    using books_okD(4) [OF assms(2)] assms(3) by (simp add: trail_ok_def)
  moreover have "follow None (trail s' (o_id r)) = Some (Some (o_status r'))"
    using books_okD(4) [OF b] r'(1) i by (auto simp: trail_ok_def)
  ultimately have "follow (Some (o_status r)) (filter (\<lambda>e. oe_orderId e = o_id r) evs) = Some (Some (o_status r'))"
    by (simp add: trail_def evs follow_append)
  from follow_path [OF this] obtain path where p: "o_status r' = last (o_status r # path)"
    "path_of ORDER_TRANSITIONS (o_status r) path" by auto
  have "path = []" if "o_status r \<in> {Rejected, Expired, Cancelled}"
    using p(2) that by (cases path) auto
  then show ?thesis
    using p r'(1) i order_machine.path_distinct [OF p(2)]
    by (intro bexI [of _ r'] exI [of _ path]) auto
qed

theorem order_moves_legally_witness:
  "\<exists>s r' path. run SAMPLE_DB s \<and> r' \<in> set (orders s) \<and> o_id r' = 103 \<and>
    path_of ORDER_TRANSITIONS Issued path \<and> o_status r' = last (Issued # path)"
proof -
  obtain res s' where r: "run SAMPLE_DB s'" by (rule sample_cancel)
  have "SAMPLE_COMP \<in> set (orders SAMPLE_DB)" "o_status SAMPLE_COMP = Issued" "o_id SAMPLE_COMP = 103"
    by (simp_all add: SAMPLE_DB_def SAMPLE_COMP_def SAMPLE_ORDER_def)
  then show ?thesis using r order_moves_legally [OF r SAMPLE_DB_books] by metis
qed

section \<open>The door\<close>

text \<open>C20: Nobody is in without a logged admission: after any sequence of calls since the database was
  empty (or since any store whose door book is right), a ticket that stands checked in is
  issued, and the scan it names is in the log exactly once, as the admission of this very
  ticket, and not in practice.\<close>

theorem admissions_logged:
  assumes "run s0 s" "door_ok s0" "t \<in> set (tickets s)" "t_checkedInAt t \<noteq> None"
  shows "door_ok EMPTY_DB \<and> t_status t = TicketIssued \<and>
    (\<exists>!d. d \<in> set (doorScans s) \<and> t_checkedInScanId t = Some (ds_scanId d)) \<and>
    (\<exists>d \<in> set (doorScans s). t_checkedInScanId t = Some (ds_scanId d) \<and>
      ds_result d = ScanAdmitted \<and> ds_ticketId d = Some (t_id t) \<and> ds_mode d \<noteq> Practice)"
proof -
  have d: "door_ok s" by (rule doors.run_keeps [OF assms(1,2)])
  then have ok: "db_ok s" by (simp add: door_ok_def)
  obtain sc where sc: "t_checkedInScanId t = Some sc"
    using tickets_ok(7) [OF db_ok_tickets [OF ok] assms(3)] assms(4) by auto
  obtain e where e: "e \<in> set (doorScans s)" "ds_scanId e = sc" "ds_result e = ScanAdmitted"
    "ds_ticketId e = Some (t_id t)" "ds_mode e \<noteq> Practice"
    using d assms(3) sc unfolding door_ok_def logged_in_def by blast
  have "\<exists>!d. d \<in> set (doorScans s) \<and> t_checkedInScanId t = Some (ds_scanId d)"
    using e(1,2) sc unique_scan [OF ok] by (intro ex1I [of _ e]) auto
  moreover have "door_ok EMPTY_DB" by (simp add: door_ok_def EMPTY_DB_ok) (simp add: EMPTY_DB_def)
  ultimately show ?thesis
    using e sc tickets_ok(4) [OF db_ok_tickets [OF ok] assms(3,4)] by auto
qed

theorem admissions_logged_witness:
  "\<exists>s t. run CHECKED_IN_DB s \<and> t \<in> set (tickets s) \<and>
    (\<exists>d \<in> set (doorScans s). t_checkedInScanId t = Some (ds_scanId d) \<and> ds_result d = ScanAdmitted)"
proof -
  have r: "run CHECKED_IN_DB CHECKED_IN_DB" by (rule run_refl)
  have "list_ex (\<lambda>t. t_checkedInAt t \<noteq> None) (tickets CHECKED_IN_DB)" by code_simp
  then obtain t where "t \<in> set (tickets CHECKED_IN_DB)" "t_checkedInAt t \<noteq> None"
    by (auto simp: list_ex_iff)
  then show ?thesis using r admissions_logged [OF r CHECKED_IN_DB_door] by blast
qed

text \<open>C21: A revoked pass is out for good. After a pass was revoked with its check-ins undone, no
  sequence of calls - scans of that pass that were already under way, retries and offline
  batches included - ever leaves a ticket checked in by it, and it stays revoked.\<close>

theorem revoked_for_good:
  assumes "run snap s" "door_ok snap"
    and "revokeAndUndo snap ts now eventId passId reason actor s = Inr (r, s1)" "run s1 s2"
  shows "ticketsCheckedInByPass passId s2 = [] \<and>
    (\<forall>q \<in> set (doorPasses s2). dp_id q = passId \<longrightarrow> dp_revokedAt q \<noteq> None)"
proof -
  have ok: "door_ok s" by (rule doors.run_keeps [OF assms(1,2)])
  then have dbs: "db_ok s" "db_ok snap" using assms(2) by (simp_all add: door_ok_def)
  obtain n anns where r: "r = (n, anns)" by (cases r)
  from revoke_undo_effect [OF dbs(1) assms(3) [unfolded r]] obtain p where
    p: "findPassById passId snap = Some p"
    and rev: "\<forall>q \<in> set (doorPasses s1). dp_id q = passId \<longrightarrow> dp_revokedAt q \<noteq> None"
    and none: "ticketsCheckedInByPass passId s1 = []"
    by blast
  have ok1: "door_ok s1" by (rule keepsD [OF door_law.side.revokeAndUndo assms(3) ok])
  then have db1: "db_ok s1" by (simp add: door_ok_def)
  have "p \<in> set (doorPasses snap)" "dp_id p = passId" using p by (auto simp: findPassById_def dest: row_by_Some)
  then obtain q where q: "q \<in> set (doorPasses s)" "same_pass p q"
    using terms.services.run_keeps [OF assms(1) lasting_refl [OF dbs(2)]]
    by (auto simp: lasting_def lives_on_def)
  moreover have "lasting s s1"
    by (rule keepsD [OF terms.revokeAndUndo assms(3) lasting_refl [OF dbs(1)]])
  ultimately obtain q' where q': "q' \<in> set (doorPasses s1)" "same_pass q q'"
    by (auto simp: lasting_def lives_on_def)
  have "dp_id q' = passId" using q(2) q'(2) \<open>dp_id p = passId\<close> by (simp add: same_pass_id)
  then have "shut_out passId s1"
    using ok1 q'(1) rev none standing_rows [OF db1]
    by (auto simp: shut_out_def filter_empty_conv)
  then have out: "shut_out passId s2" by (rule shut_services.run_keeps [OF assms(4)])
  then have db2: "db_ok s2" by (simp add: shut_out_def door_ok_def)
  obtain y where y: "y \<in> set (doorPasses s2)" "dp_id y = passId" "dp_revokedAt y \<noteq> None"
    using out by (auto simp: shut_out_def)
  have "dp_revokedAt x \<noteq> None" if "x \<in> set (doorPasses s2)" "dp_id x = passId" for x
    using unique_pass [OF db2 that(1) y(1)] that(2) y(2,3) by simp
  moreover have "ticketsCheckedInByPass passId s2 = []"
    using out by (simp add: standing_rows [OF db2] shut_out_def filter_empty_conv)
  ultimately show ?thesis by blast
qed

theorem revoked_for_good_witness:
  "\<exists>r s1 s2. revokeAndUndo CHECKED_IN_DB 11 11 1 50 (lit ''x'') (lit ''raj'') CHECKED_IN_DB = Inr (r, s1) \<and>
    run s1 s2 \<and> s1 \<noteq> s2 \<and> ticketsCheckedInByPass 50 s2 = []"
proof -
  have c: "(case revokeAndUndo CHECKED_IN_DB 11 11 1 50 (lit ''x'') (lit ''raj'') CHECKED_IN_DB of
      Inl _ \<Rightarrow> False
    | Inr (_, s1) \<Rightarrow> (case promo_switch 12 20 False s1 of
        Inl _ \<Rightarrow> False | Inr (_, s2) \<Rightarrow> map p_active (promoCodes s1) \<noteq> map p_active (promoCodes s2)))"
    by code_simp
  then obtain r s1 where e: "revokeAndUndo CHECKED_IN_DB 11 11 1 50 (lit ''x'') (lit ''raj'') CHECKED_IN_DB = Inr (r, s1)"
    by (auto split: sum.splits)
  with c have c': "case promo_switch 12 20 False s1 of
        Inl _ \<Rightarrow> False | Inr (_, s2) \<Rightarrow> map p_active (promoCodes s1) \<noteq> map p_active (promoCodes s2)"
    unfolding e by simp
  then obtain u s2 where f: "promo_switch 12 20 False s1 = Inr (u, s2)" by (auto split: sum.splits)
  have "s1 \<noteq> s2" using c' unfolding f by auto
  moreover have run: "run s1 s2" by (rule run_promoSwitch [OF run_refl f])
  ultimately show ?thesis
    using e revoked_for_good [OF run_refl CHECKED_IN_DB_door e run] by blast
qed

section \<open>Well-typed rows\<close>



end
