(* ===== verification/Relay.thy ===== *)
theory Relay
  imports Prelude Errors
begin

text \<open>
  The gate relay of \<open>src/relay/src/room.ts\<close>, over the store \<open>src/relay/src/index.ts\<close> keeps in
  its SQLite tables: one row per ticket (a claim, a confirmed check-in or a tombstone), the
  last sequence number, the room's epoch and the revoked passes. A message arrives here as
  what \<open>JSON.parse\<close> makes of it, with a field that fails its type check as \<open>None\<close>; times are
  whole milliseconds.
\<close>

section \<open>The store\<close>

datatype remover = ByGate | ByServer

record stored_check_in =
  rc_ticketId :: uuid
  rc_atMs :: int
  rc_gate :: "jstr option"
  rc_passId :: "uuid option"
  rc_confirmed :: bool
  rc_seq :: nat
  rc_removed :: "remover option"

record room =
  rm_rows :: "stored_check_in list"
  rm_seq :: nat
  rm_epoch :: nat
  rm_revoked :: "uuid list"

definition new_room :: "nat \<Rightarrow> room" where
  "new_room epoch = \<lparr>rm_rows = [], rm_seq = 0, rm_epoch = epoch, rm_revoked = []\<rparr>"

definition room_get :: "room \<Rightarrow> uuid \<Rightarrow> stored_check_in option" where
  "room_get m i = row_by rc_ticketId i (rm_rows m)"

text \<open>\<open>INSERT OR REPLACE\<close>: the row with this key goes, the new one is written.\<close>

definition room_put :: "stored_check_in \<Rightarrow> room \<Rightarrow> room" where
  "room_put r m =
    m\<lparr>rm_rows := delete_rows (\<lambda>x. rc_ticketId x = rc_ticketId r) (rm_rows m) @ [r]\<rparr>"

definition room_after :: "nat \<Rightarrow> nat \<Rightarrow> room \<Rightarrow> stored_check_in list" where
  "room_after n limit m = take limit (sort_key rc_seq (filter (\<lambda>r. n < rc_seq r) (rm_rows m)))"

definition claimsOf :: "uuid \<Rightarrow> room \<Rightarrow> stored_check_in list" where
  "claimsOf p m =
    filter (\<lambda>r. rc_passId r = Some p \<and> \<not> rc_confirmed r \<and> rc_removed r = None) (rm_rows m)"

definition rowsOf :: "uuid \<Rightarrow> room \<Rightarrow> nat" where
  "rowsOf p m = length (filter (\<lambda>r. rc_passId r = Some p) (rm_rows m))"

definition isRevoked :: "uuid \<Rightarrow> room \<Rightarrow> bool" where
  "isRevoked p m \<longleftrightarrow> p \<in> set (rm_revoked m)"

definition room_revoke :: "uuid \<Rightarrow> room \<Rightarrow> room" where
  "room_revoke p m =
    (if p \<in> set (rm_revoked m) then m else m\<lparr>rm_revoked := rm_revoked m @ [p]\<rparr>)"

text \<open>A row written under the next sequence number: \<open>seq: store.nextSeq()\<close>, then \<open>store.put\<close>.\<close>

definition put_next :: "stored_check_in \<Rightarrow> room \<Rightarrow> stored_check_in \<times> room" where
  "put_next r m =
    (let n = rm_seq m + 1; r' = r\<lparr>rc_seq := n\<rparr>
     in (r', room_put r' (m\<lparr>rm_seq := n\<rparr>)))"

section \<open>Messages\<close>

record room_check_in =
  wr_ticketId :: uuid
  wr_at :: int
  wr_gate :: "jstr option"
  wr_confirmed :: bool
  wr_seq :: nat

datatype room_message =
    Hello nat nat
  | CheckIns "room_check_in list"
  | Undo uuid remover int nat

record sender =
  sd_passId :: uuid
  sd_gate :: jstr

record ok_action =
  ac_broadcast :: "room_message list"
  ac_skipSender :: bool
  ac_closePass :: "uuid option"
  ac_keepUntil :: "int option"
  ac_warn :: bool

datatype room_action = Reject | Ok ok_action

datatype phone_item =
    ItemIn "uuid option" "int option"
  | ItemUndo "uuid option"
  | ItemOther

datatype phone_body =
    NotJson
  | NotObject
  | BodyClaims "phone_item list option"
  | BodyItem phone_item

datatype server_body =
    ServerNotObject
  | ServerIn "uuid option" "int option" "jstr option"
  | ServerUndo "uuid option" "int option"
  | ServerRevoke "uuid option" "int option"
  | ServerOther

definition MAX_MESSAGE_BYTES :: nat where "MAX_MESSAGE_BYTES = 1024"
definition MAX_BATCH_BYTES :: nat where "MAX_BATCH_BYTES = 32 * 1024"
definition MAX_BATCH_ITEMS :: nat where "MAX_BATCH_ITEMS = 300"
definition BACKLOG_PAGE :: nat where "BACKLOG_PAGE = 1000"
definition ROOM_CAP :: nat where "ROOM_CAP = 20000"
definition PASS_CLAIM_CAP :: nat where "PASS_CLAIM_CAP = 2000"
definition UNDO_SLACK_MS :: int where "UNDO_SLACK_MS = 5000"
definition FUTURE_SLACK_MS :: int where "FUTURE_SLACK_MS = 5 * 60000"
definition PAST_LIMIT_MS :: int where "PAST_LIMIT_MS = 36 * 3600000"

definition nothing :: ok_action where
  "nothing = \<lparr>ac_broadcast = [], ac_skipSender = False, ac_closePass = None, ac_keepUntil = None,
    ac_warn = False\<rparr>"

definition standing :: "stored_check_in option \<Rightarrow> bool" where
  "standing r \<longleftrightarrow> (case r of None \<Rightarrow> False | Some x \<Rightarrow> rc_removed x = None)"

definition wire :: "stored_check_in \<Rightarrow> room_check_in" where
  "wire r = \<lparr>wr_ticketId = rc_ticketId r, wr_at = rc_atMs r, wr_gate = rc_gate r,
    wr_confirmed = rc_confirmed r, wr_seq = rc_seq r\<rparr>"

definition undoMessage :: "stored_check_in \<Rightarrow> room_message" where
  "undoMessage r =
    Undo (rc_ticketId r) (case rc_removed r of Some b \<Rightarrow> b | None \<Rightarrow> ByServer) (rc_atMs r) (rc_seq r)"

fun rows_of_message :: "room_message \<Rightarrow> room_check_in list" where
  "rows_of_message (CheckIns rs) = rs"
| "rows_of_message _ = []"

definition merge_messages :: "room_message list \<Rightarrow> room_message list" where
  "merge_messages ms =
    (let rows = concat (map rows_of_message ms);
         rest = filter (\<lambda>m. case m of CheckIns _ \<Rightarrow> False | _ \<Rightarrow> True) ms
     in (if rows = [] then [] else [CheckIns rows]) @ rest)"

section \<open>The room's rules\<close>

definition plausibleTime :: "int \<Rightarrow> int \<Rightarrow> bool" where
  "plausibleTime now at \<longleftrightarrow> at \<le> now + FUTURE_SLACK_MS \<and> now - PAST_LIMIT_MS \<le> at"

text \<open>\<open>None\<close> is a malformed item.\<close>

definition claim :: "int \<Rightarrow> sender \<Rightarrow> uuid option \<Rightarrow> int option \<Rightarrow> room \<Rightarrow> ok_action option \<times> room" where
  "claim now who ticket at m =
    (case (ticket, at) of
       (Some i, Some t) \<Rightarrow>
         if \<not> plausibleTime now t then (None, m)
         else if standing (room_get m i) then (Some nothing, m)
         else if length (rm_rows m) \<ge> ROOM_CAP then (Some nothing, m)
         else if rowsOf (sd_passId who) m \<ge> PASS_CLAIM_CAP then (Some (nothing\<lparr>ac_warn := True\<rparr>), m)
         else (case put_next \<lparr>rc_ticketId = i, rc_atMs = t, rc_gate = Some (sd_gate who),
                  rc_passId = Some (sd_passId who), rc_confirmed = False, rc_seq = 0,
                  rc_removed = None\<rparr> m of
             (r, m') \<Rightarrow> (Some (nothing\<lparr>ac_broadcast := [CheckIns [wire r]], ac_skipSender := True\<rparr>), m'))
     | _ \<Rightarrow> (None, m))"

definition unclaim :: "sender \<Rightarrow> uuid option \<Rightarrow> room \<Rightarrow> ok_action option \<times> room" where
  "unclaim who ticket m =
    (case ticket of
       None \<Rightarrow> (None, m)
     | Some i \<Rightarrow>
         (case room_get m i of
            Some r \<Rightarrow>
              if rc_removed r \<noteq> None \<or> rc_confirmed r \<or> rc_passId r \<noteq> Some (sd_passId who)
              then (Some nothing, m)
              else (case put_next (r\<lparr>rc_removed := Some ByGate\<rparr>) m of
                  (tomb, m') \<Rightarrow>
                    (Some (nothing\<lparr>ac_broadcast := [undoMessage tomb], ac_skipSender := True\<rparr>), m'))
          | None \<Rightarrow> (Some nothing, m)))"

fun phone_item_action :: "int \<Rightarrow> sender \<Rightarrow> phone_item \<Rightarrow> room \<Rightarrow> ok_action option \<times> room" where
  "phone_item_action now who (ItemIn i t) m = claim now who i t m"
| "phone_item_action now who (ItemUndo i) m = unclaim who i m"
| "phone_item_action now who ItemOther m = (None, m)"

fun batch_items ::
  "int \<Rightarrow> sender \<Rightarrow> phone_item list \<Rightarrow> room \<Rightarrow> (room_message list \<times> bool) \<times> room" where
  "batch_items now who [] m = (([], False), m)"
| "batch_items now who (x # xs) m =
    (case phone_item_action now who x m of
       (act, m1) \<Rightarrow>
         (case batch_items now who xs m1 of
            ((ms, w), m2) \<Rightarrow>
              (case act of
                 None \<Rightarrow> ((ms, w), m2)
               | Some a \<Rightarrow> ((ac_broadcast a @ ms, ac_warn a \<or> w), m2))))"

definition as_action :: "ok_action option \<times> room \<Rightarrow> room_action \<times> room" where
  "as_action p = (case fst p of None \<Rightarrow> (Reject, snd p) | Some a \<Rightarrow> (Ok a, snd p))"

definition fromPhone :: "int \<Rightarrow> sender \<Rightarrow> nat \<Rightarrow> phone_body \<Rightarrow> room \<Rightarrow> room_action \<times> room" where
  "fromPhone now who len body m =
    (if len > MAX_BATCH_BYTES then (Reject, m)
     else case body of
         NotJson \<Rightarrow> (Reject, m)
       | NotObject \<Rightarrow> (Reject, m)
       | BodyClaims None \<Rightarrow> (Reject, m)
       | BodyClaims (Some items) \<Rightarrow>
           if length items > MAX_BATCH_ITEMS then (Reject, m)
           else (case batch_items now who items m of
               ((ms, w), m') \<Rightarrow>
                 (Ok (nothing\<lparr>ac_broadcast := merge_messages ms, ac_skipSender := True, ac_warn := w\<rparr>), m'))
       | BodyItem x \<Rightarrow>
           if len > MAX_MESSAGE_BYTES then (Reject, m)
           else as_action (phone_item_action now who x m))"

fun tombstone_all :: "stored_check_in list \<Rightarrow> room \<Rightarrow> room_message list \<times> room" where
  "tombstone_all [] m = ([], m)"
| "tombstone_all (r # rs) m =
    (case put_next (r\<lparr>rc_removed := Some ByGate\<rparr>) m of
       (tomb, m1) \<Rightarrow> (case tombstone_all rs m1 of (ms, m2) \<Rightarrow> (undoMessage tomb # ms, m2)))"

definition server_in :: "uuid \<Rightarrow> int \<Rightarrow> jstr option \<Rightarrow> room \<Rightarrow> ok_action \<times> room" where
  "server_in i at gate m =
    (let had = room_get m i;
         known = (case had of None \<Rightarrow> False
           | Some r \<Rightarrow> rc_removed r = None \<and> rc_confirmed r \<and> rc_atMs r = at);
         undone = (case had of None \<Rightarrow> False
           | Some r \<Rightarrow> rc_removed r = Some ByServer \<and> rc_atMs r \<ge> at)
     in if known \<or> undone then (nothing, m)
        else (case put_next \<lparr>rc_ticketId = i, rc_atMs = at,
                 rc_gate = (case gate of Some g \<Rightarrow> if g = [] then None else Some g | None \<Rightarrow> None),
                 rc_passId = None, rc_confirmed = True, rc_seq = 0, rc_removed = None\<rparr> m of
            (r, m') \<Rightarrow> (nothing\<lparr>ac_broadcast := [CheckIns [wire r]]\<rparr>, m')))"

definition server_undo :: "uuid \<Rightarrow> int \<Rightarrow> room \<Rightarrow> ok_action \<times> room" where
  "server_undo i at m =
    (let had = room_get m i;
         other = (case had of None \<Rightarrow> False
           | Some r \<Rightarrow> rc_removed r = None \<and>
               (rc_confirmed r \<and> rc_atMs r \<noteq> at \<or>
                \<not> rc_confirmed r \<and> rc_atMs r > at + UNDO_SLACK_MS))
     in if other then (nothing, m)
        else (case put_next \<lparr>rc_ticketId = i, rc_atMs = at,
                 rc_gate = (case had of Some r \<Rightarrow> rc_gate r | None \<Rightarrow> None),
                 rc_passId = None, rc_confirmed = True, rc_seq = 0, rc_removed = Some ByServer\<rparr> m of
            (tomb, m') \<Rightarrow> (nothing\<lparr>ac_broadcast := [undoMessage tomb]\<rparr>, m')))"

definition server_revoke :: "uuid \<Rightarrow> int option \<Rightarrow> room \<Rightarrow> ok_action \<times> room" where
  "server_revoke p until m =
    (let m1 = room_revoke p m
     in case tombstone_all (claimsOf p m1) m1 of
          (ms, m2) \<Rightarrow>
            (nothing\<lparr>ac_broadcast := ms, ac_closePass := Some p, ac_keepUntil := until\<rparr>, m2))"

definition fromServer :: "server_body \<Rightarrow> room \<Rightarrow> ok_action option \<times> room" where
  "fromServer body m =
    (case body of
       ServerRevoke (Some p) until \<Rightarrow> (case server_revoke p until m of (a, m') \<Rightarrow> (Some a, m'))
     | ServerIn (Some i) (Some at) gate \<Rightarrow> (case server_in i at gate m of (a, m') \<Rightarrow> (Some a, m'))
     | ServerUndo (Some i) (Some at) \<Rightarrow> (case server_undo i at m of (a, m') \<Rightarrow> (Some a, m'))
     | _ \<Rightarrow> (None, m))"

section \<open>Catching up\<close>

text \<open>
  The \<open>for (;;)\<close> of \<open>backlog\<close>, with fuel: a page that is full is followed by the next one.
\<close>

definition page_messages :: "stored_check_in list \<Rightarrow> room_message list" where
  "page_messages page =
    (let rows = map wire (filter (\<lambda>r. rc_removed r = None) page)
     in (if rows = [] then [] else [CheckIns rows]) @
        map undoMessage (filter (\<lambda>r. rc_removed r \<noteq> None) page))"

fun backlog_pages :: "nat \<Rightarrow> nat \<Rightarrow> nat \<Rightarrow> room \<Rightarrow> room_message list option" where
  "backlog_pages 0 len cursor m = None"
| "backlog_pages (Suc fuel) len cursor m =
    (let page = room_after cursor len m
     in if page = [] then Some []
        else if length page < len then Some (page_messages page)
        else map_option (\<lambda>rest. page_messages page @ rest)
               (backlog_pages fuel len (rc_seq (last page)) m))"

definition backlog_from :: "nat \<Rightarrow> nat option \<Rightarrow> room \<Rightarrow> nat" where
  "backlog_from afterSeq epoch m =
    (if epoch \<noteq> Some (rm_epoch m) \<or> afterSeq > rm_seq m then 0 else afterSeq)"

definition backlog :: "nat \<Rightarrow> nat \<Rightarrow> nat option \<Rightarrow> room \<Rightarrow> room_message list option" where
  "backlog fuel afterSeq epoch m =
    map_option (\<lambda>pages. Hello (rm_epoch m) (rm_seq m) # pages)
      (backlog_pages fuel BACKLOG_PAGE (backlog_from afterSeq epoch m) m)"

end
