(* ===== verification/RelayLaws.thy ===== *)
theory RelayLaws
  imports Relay
begin

text \<open>
  What the room guarantees: its well-formedness invariant, that every change is a new row
  under a fresh sequence number, and that a phone that applies what it missed holds exactly
  the room's rows.
\<close>

section \<open>Well-formed rooms\<close>

definition room_ok :: "room \<Rightarrow> bool" where
  "room_ok m \<longleftrightarrow>
    distinct (map rc_ticketId (rm_rows m)) \<and> distinct (map rc_seq (rm_rows m)) \<and>
    (\<forall>r \<in> set (rm_rows m). 1 \<le> rc_seq r \<and> rc_seq r \<le> rm_seq m \<and>
      (rc_confirmed r \<longleftrightarrow> rc_passId r = None) \<and>
      (rc_removed r = Some ByServer \<longrightarrow> rc_confirmed r) \<and>
      (rc_removed r = Some ByGate \<longrightarrow> \<not> rc_confirmed r))"

lemma room_ok_new [simp]: "room_ok (new_room e)"
  by (simp add: room_ok_def new_room_def)

lemma room_get_put [simp]:
  "room_get (room_put r m) i = (if i = rc_ticketId r then Some r else room_get m i)"
proof -
  have "row_by rc_ticketId i (delete_rows (\<lambda>x. rc_ticketId x = rc_ticketId r) rs @ [r]) =
      (if i = rc_ticketId r then Some r else row_by rc_ticketId i rs)" for rs
    by (induction rs) (auto simp: delete_rows_def)
  then show ?thesis by (simp add: room_get_def room_put_def)
qed

lemma room_get_seq [simp]: "room_get (m\<lparr>rm_seq := n\<rparr>) i = room_get m i"
  by (simp add: room_get_def)

lemma room_get_Some:
  "room_get m i = Some r \<Longrightarrow> r \<in> set (rm_rows m) \<and> rc_ticketId r = i"
  unfolding room_get_def by (rule row_by_Some)

lemma room_get_iff:
  "room_ok m \<Longrightarrow> room_get m i = Some r \<longleftrightarrow> r \<in> set (rm_rows m) \<and> rc_ticketId r = i"
  unfolding room_get_def by (rule row_by_unique) (simp add: room_ok_def)

section \<open>One change\<close>

text \<open>
  What one step may do: nothing, or write one row under the next sequence number. Every
  operation of the room is a sequence of such steps, which is what the catch-up rests on.
\<close>

definition row_shape :: "stored_check_in \<Rightarrow> bool" where
  "row_shape r \<longleftrightarrow>
    (rc_confirmed r \<longleftrightarrow> rc_passId r = None) \<and>
    (rc_removed r = Some ByServer \<longrightarrow> rc_confirmed r) \<and>
    (rc_removed r = Some ByGate \<longrightarrow> \<not> rc_confirmed r)"

inductive grows :: "room \<Rightarrow> room \<Rightarrow> bool" where
  grows_refl: "grows m m"
| grows_put: "grows m m1 \<Longrightarrow> row_shape r \<Longrightarrow> put_next r m1 = (r', m2) \<Longrightarrow> grows m m2"
| grows_revoke: "grows m m1 \<Longrightarrow> grows m (room_revoke p m1)"

lemma grows_put1: "put_next r m = (r', m') \<Longrightarrow> row_shape r \<Longrightarrow> grows m m'"
  by (rule grows_put [OF grows_refl])

lemma grows_trans: "grows b c \<Longrightarrow> grows a b \<Longrightarrow> grows a c"
  by (induction rule: grows.induct) (auto intro: grows.intros)

lemma put_next_simps:
  assumes "put_next r m = (r', m')"
  shows "r' = r\<lparr>rc_seq := rm_seq m + 1\<rparr>" "rm_seq m' = rm_seq m + 1" "rm_epoch m' = rm_epoch m"
    "rm_revoked m' = rm_revoked m"
    "rm_rows m' = delete_rows (\<lambda>x. rc_ticketId x = rc_ticketId r) (rm_rows m) @ [r']"
    "room_get m' i = (if i = rc_ticketId r then Some r' else room_get m i)"
proof -
  have *: "r' = r\<lparr>rc_seq := rm_seq m + 1\<rparr>" "m' = room_put r' (m\<lparr>rm_seq := rm_seq m + 1\<rparr>)"
    using assms by (auto simp: put_next_def Let_def)
  show "r' = r\<lparr>rc_seq := rm_seq m + 1\<rparr>" by (rule *(1))
  show "rm_seq m' = rm_seq m + 1" "rm_epoch m' = rm_epoch m" "rm_revoked m' = rm_revoked m"
    unfolding *(2) by (simp_all add: room_put_def)
  show "rm_rows m' = delete_rows (\<lambda>x. rc_ticketId x = rc_ticketId r) (rm_rows m) @ [r']"
    unfolding *(2) by (simp add: room_put_def *(1))
  show "room_get m' i = (if i = rc_ticketId r then Some r' else room_get m i)"
    unfolding *(2) by (simp add: *(1))
qed

lemma room_revoke_simps [simp]:
  "rm_rows (room_revoke p m) = rm_rows m" "rm_seq (room_revoke p m) = rm_seq m"
  "rm_epoch (room_revoke p m) = rm_epoch m" "room_get (room_revoke p m) i = room_get m i"
  "claimsOf q (room_revoke p m) = claimsOf q m"
  "isRevoked q (room_revoke p m) \<longleftrightarrow> q = p \<or> isRevoked q m"
  by (auto simp: room_revoke_def room_get_def claimsOf_def isRevoked_def)

lemma room_revoke_ok [simp]: "room_ok (room_revoke p m) = room_ok m"
  by (simp add: room_ok_def)

lemma put_next_ok:
  assumes "room_ok m" "row_shape r" "put_next r m = (r', m')"
  shows "room_ok m'"
proof -
  note p = put_next_simps [OF assms(3)]
  let ?old = "delete_rows (\<lambda>x. rc_ticketId x = rc_ticketId r) (rm_rows m)"
  have d: "distinct (map rc_ticketId ?old)" "distinct (map rc_seq ?old)"
    using assms(1) by (auto simp: room_ok_def delete_rows_def distinct_map_filter)
  have old: "x \<in> set (rm_rows m) \<and> rc_ticketId x \<noteq> rc_ticketId r" if "x \<in> set ?old" for x
    using that by (simp add: delete_rows_def)
  have "rc_seq x \<le> rm_seq m" if "x \<in> set ?old" for x
    using old [OF that] assms(1) by (simp add: room_ok_def)
  then have "rm_seq m + 1 \<notin> rc_seq ` set ?old" by fastforce
  moreover have "rc_ticketId r \<notin> rc_ticketId ` set ?old"
    by (auto simp: delete_rows_def)
  moreover have "\<forall>x \<in> set ?old. 1 \<le> rc_seq x \<and> rc_seq x \<le> rm_seq m + 1 \<and> row_shape x"
    using old assms(1) by (fastforce simp: room_ok_def row_shape_def)
  ultimately show ?thesis
    using d assms(2) unfolding room_ok_def p(1,2,5) by (auto simp: row_shape_def)
qed

lemma grows_ok: "grows m m' \<Longrightarrow> room_ok m \<Longrightarrow> room_ok m'"
  by (induction rule: grows.induct) (auto intro: put_next_ok)

lemma grows_epoch: "grows m m' \<Longrightarrow> rm_epoch m' = rm_epoch m"
  by (induction rule: grows.induct) (auto dest: put_next_simps)

lemma grows_seq: "grows m m' \<Longrightarrow> rm_seq m \<le> rm_seq m'"
  by (induction rule: grows.induct) (auto dest: put_next_simps(2))

lemma grows_revoked: "grows m m' \<Longrightarrow> isRevoked p m \<Longrightarrow> isRevoked p m'"
  by (induction rule: grows.induct) (auto simp: isRevoked_def room_revoke_def dest: put_next_simps(4))

text \<open>What changed since, and only that, has a newer sequence number.\<close>

lemma grows_rows:
  assumes "grows m m'" "room_ok m"
  shows "\<forall>i. case room_get m' i of
      None \<Rightarrow> room_get m i = None
    | Some r \<Rightarrow> rc_seq r > rm_seq m \<or> room_get m i = Some r"
  using assms
proof (induction rule: grows.induct)
  case (grows_refl m)
  then show ?case by (simp split: option.splits)
next
  case (grows_put m m1 r r' m2)
  note p = put_next_simps [OF grows_put.hyps(3)]
  have "rm_seq m \<le> rm_seq m1" by (rule grows_seq) (rule grows_put.hyps)
  with grows_put.IH [OF grows_put.prems] show ?case by (simp add: p(1,6) split: option.splits)
next
  case (grows_revoke m m1 p)
  then show ?case by simp
qed

section \<open>Every operation is such a sequence\<close>

lemma claim_grows: "claim now who i t m = (a, m') \<Longrightarrow> grows m m'"
  by (auto simp: claim_def row_shape_def grows_refl split: option.splits if_splits prod.splits
      elim: grows_put1)

lemma unclaim_grows:
  assumes "room_ok m" "unclaim who i m = (a, m')"
  shows "grows m m'"
proof (cases "m' = m")
  case False
  then obtain j r tomb where r: "room_get m j = Some r" "rc_removed r = None" "\<not> rc_confirmed r"
    and p: "put_next (r\<lparr>rc_removed := Some ByGate\<rparr>) m = (tomb, m')"
    using assms(2) by (auto simp: unclaim_def split: option.splits if_splits prod.splits)
  have "rc_passId r \<noteq> None" using r assms(1) by (auto simp: room_ok_def dest!: room_get_Some)
  then show ?thesis using r by (intro grows_put1 [OF p]) (simp add: row_shape_def)
qed (simp add: grows_refl)

lemma phone_item_grows: "room_ok m \<Longrightarrow> phone_item_action now who x m = (a, m') \<Longrightarrow> grows m m'"
  by (cases x) (auto simp: grows_refl intro: claim_grows unclaim_grows)

lemma batch_grows: "room_ok m \<Longrightarrow> batch_items now who xs m = (a, m') \<Longrightarrow> grows m m'"
proof (induction xs arbitrary: m a m')
  case (Cons x xs)
  obtain act m1 where s: "phone_item_action now who x m = (act, m1)" by fastforce
  have g: "grows m m1" by (rule phone_item_grows [OF Cons.prems(1) s])
  obtain b m2 where t: "batch_items now who xs m1 = (b, m2)" by fastforce
  have "grows m1 m2" by (rule Cons.IH [OF grows_ok [OF g Cons.prems(1)] t])
  moreover have "m' = m2" using Cons.prems(2) s t by (auto split: prod.splits option.splits)
  ultimately show ?case using g grows_trans by blast
qed (simp add: grows_refl)

lemma as_action_snd: "as_action p = (a, m') \<Longrightarrow> m' = snd p"
  by (auto simp: as_action_def split: option.splits)

lemma fromPhone_grows: "room_ok m \<Longrightarrow> fromPhone now who len body m = (a, m') \<Longrightarrow> grows m m'"
  by (auto simp: fromPhone_def grows_refl dest!: as_action_snd
      intro: batch_grows phone_item_grows [OF _ surjective_pairing]
      split: if_splits phone_body.splits option.splits prod.splits)

lemma tombstone_all_grows:
  assumes "\<forall>r \<in> set rs. \<not> rc_confirmed r \<and> rc_passId r \<noteq> None" "tombstone_all rs m = (ms, m')"
  shows "grows m m'"
  using assms
proof (induction rs arbitrary: m ms m')
  case (Cons r rs)
  obtain tomb m1 where p: "put_next (r\<lparr>rc_removed := Some ByGate\<rparr>) m = (tomb, m1)" by fastforce
  obtain ms' m2 where t: "tombstone_all rs m1 = (ms', m2)" by fastforce
  have "grows m1 m2" using Cons.prems(1) by (intro Cons.IH [OF _ t]) simp
  moreover have "grows m m1"
    using Cons.prems(1) by (intro grows_put [OF grows_refl _ p]) (simp add: row_shape_def)
  moreover have "m' = m2" using Cons.prems(2) p t by simp
  ultimately show ?case using grows_trans by blast
qed (simp add: grows_refl)

lemma server_revoke_grows:
  assumes "server_revoke p until m = (a, m')"
  shows "grows m m'"
proof -
  obtain ms m2 where t: "tombstone_all (claimsOf p m) (room_revoke p m) = (ms, m2)" by fastforce
  have "grows (room_revoke p m) m2"
    by (rule tombstone_all_grows [OF _ t]) (auto simp: claimsOf_def)
  moreover have "grows m (room_revoke p m)" by (rule grows_revoke [OF grows_refl])
  moreover have "m' = m2" using assms t by (simp add: server_revoke_def Let_def)
  ultimately show ?thesis using grows_trans by blast
qed

lemma server_in_grows: "server_in i at g m = (a, m') \<Longrightarrow> grows m m'"
  by (auto simp: server_in_def Let_def row_shape_def grows_refl split: if_splits prod.splits
      elim: grows_put1)

lemma server_undo_grows: "server_undo i at m = (a, m') \<Longrightarrow> grows m m'"
  by (auto simp: server_undo_def Let_def row_shape_def grows_refl split: if_splits prod.splits
      elim: grows_put1)

lemma fromServer_grows: "fromServer body m = (a, m') \<Longrightarrow> grows m m'"
  by (auto simp: fromServer_def split: server_body.splits option.splits prod.splits
      intro: grows_refl server_in_grows server_undo_grows server_revoke_grows)

section \<open>A life of a room\<close>

inductive room_run :: "room \<Rightarrow> room \<Rightarrow> bool" where
  run_start: "room_run m m"
| run_phone: "room_run m m1 \<Longrightarrow> fromPhone now who len body m1 = (a, m2) \<Longrightarrow> room_run m m2"
| run_server: "room_run m m1 \<Longrightarrow> fromServer body m1 = (b, m2) \<Longrightarrow> room_run m m2"

lemma room_run_grows: "room_run m m' \<Longrightarrow> room_ok m \<Longrightarrow> grows m m'"
proof (induction rule: room_run.induct)
  case (run_phone m m1 now who len body a m2)
  have "grows m m1" by (rule run_phone.IH [OF run_phone.prems])
  moreover have "grows m1 m2"
    by (rule fromPhone_grows [OF grows_ok [OF calculation run_phone.prems] run_phone.hyps(2)])
  ultimately show ?case using grows_trans by blast
next
  case (run_server m m1 body b m2)
  have "grows m m1" by (rule run_server.IH [OF run_server.prems])
  moreover have "grows m1 m2" by (rule fromServer_grows [OF run_server.hyps(2)])
  ultimately show ?case using grows_trans by blast
qed (rule grows_refl)

end
