(* ===== verification/RelayCatchUp.thy ===== *)
theory RelayCatchUp
  imports RelayLaws
begin

text \<open>
  The paged catch-up of \<open>src/relay/src/room.ts\<close> against its specification: what a listener
  that applies every message in order ends up with.
\<close>

section \<open>A listener\<close>

text \<open>What a room stands for: the check-ins that stand, by ticket.\<close>

definition shown :: "stored_check_in \<Rightarrow> room_check_in option" where
  "shown r = (if rc_removed r = None then Some (wire r) else None)"

definition room_view :: "room \<Rightarrow> uuid \<rightharpoonup> room_check_in" where
  "room_view m i = Option.bind (room_get m i) shown"

text \<open>A listener that believes each message.\<close>

fun hear :: "(uuid \<rightharpoonup> room_check_in) \<Rightarrow> room_message \<Rightarrow> (uuid \<rightharpoonup> room_check_in)" where
  "hear v (Hello e n) = v"
| "hear v (CheckIns rs) = foldl (\<lambda>v r. v(wr_ticketId r \<mapsto> r)) v rs"
| "hear v (Undo i by at n) = v(i := None)"

text \<open>A list of stored rows laid over a view.\<close>

definition overlay :: "stored_check_in list \<Rightarrow> (uuid \<rightharpoonup> room_check_in) \<Rightarrow> uuid \<rightharpoonup> room_check_in" where
  "overlay rs v i = (case row_by rc_ticketId i rs of Some r \<Rightarrow> shown r | None \<Rightarrow> v i)"

lemma overlay_Nil [simp]: "overlay [] v = v"
  by (rule ext) (simp add: overlay_def)

lemma overlay_append:
  assumes "distinct (map rc_ticketId (xs @ ys))"
  shows "overlay ys (overlay xs v) = overlay (xs @ ys) v"
proof
  fix i
  have "row_by rc_ticketId i xs = None \<or> row_by rc_ticketId i ys = None"
    using assms by (auto simp: row_by_None)
  then show "overlay ys (overlay xs v) i = overlay (xs @ ys) v i"
    by (auto simp: overlay_def row_by_append split: option.splits)
qed

lemma hear_rows:
  "distinct (map rc_ticketId rs) \<Longrightarrow>
    foldl (\<lambda>v r. v(wr_ticketId r \<mapsto> r)) v (map wire rs) i =
      (case row_by rc_ticketId i rs of Some r \<Rightarrow> Some (wire r) | None \<Rightarrow> v i)"
proof (induction rs arbitrary: v)
  case (Cons r rs)
  then have "rc_ticketId r \<notin> rc_ticketId ` set rs" by simp
  then have "row_by rc_ticketId (rc_ticketId r) rs = None" by (simp add: row_by_None)
  then show ?case using Cons by (auto simp: wire_def split: option.splits)
qed simp

lemma hear_undos:
  "foldl hear v (map undoMessage rs) i = (if i \<in> rc_ticketId ` set rs then None else v i)"
  by (induction rs arbitrary: v) (auto simp: undoMessage_def)

lemma row_by_filter:
  "distinct (map key rs) \<Longrightarrow> row_by key k (filter p rs) =
    (case row_by key k rs of Some r \<Rightarrow> if p r then Some r else None | None \<Rightarrow> None)"
proof (induction rs)
  case (Cons a rs)
  then have "row_by key (key a) rs = None" by (simp add: row_by_None)
  then show ?case using Cons by (auto split: option.splits)
qed simp

lemma hear_page:
  assumes d: "distinct (map rc_ticketId page)"
  shows "foldl hear v (page_messages page) = overlay page v"
proof
  fix i
  let ?up = "filter (\<lambda>r. rc_removed r = None) page" and ?gone = "filter (\<lambda>r. rc_removed r \<noteq> None) page"
  have "foldl hear v (page_messages page) i =
      foldl hear (foldl (\<lambda>v r. v(wr_ticketId r \<mapsto> r)) v (map wire ?up)) (map undoMessage ?gone) i"
    by (simp add: page_messages_def Let_def)
  also have "\<dots> = (if i \<in> rc_ticketId ` set ?gone then None
      else case row_by rc_ticketId i ?up of Some r \<Rightarrow> Some (wire r) | None \<Rightarrow> v i)"
    unfolding hear_undos by (simp add: hear_rows distinct_map_filter d)
  also have "\<dots> = overlay page v i"
  proof (cases "row_by rc_ticketId i page")
    case None
    then have "i \<notin> rc_ticketId ` set page" by (simp add: row_by_None)
    then show ?thesis by (auto simp: overlay_def row_by_filter [OF d] None)
  next
    case (Some r)
    then have r: "r \<in> set page" "rc_ticketId r = i" by (auto dest: row_by_Some)
    have one: "r' = r" if "r' \<in> set page" "rc_ticketId r' = i" for r'
      using inj_onD [of rc_ticketId "set page" r' r] d that r by (simp add: distinct_map)
    have "i \<in> rc_ticketId ` set ?gone \<longleftrightarrow>
        (\<exists>r' \<in> set page. rc_removed r' \<noteq> None \<and> rc_ticketId r' = i)" by auto
    also have "\<dots> \<longleftrightarrow> rc_removed r \<noteq> None" using r one by blast
    finally show ?thesis by (simp add: overlay_def row_by_filter [OF d] Some shown_def)
  qed
  finally show "foldl hear v (page_messages page) i = overlay page v i" .
qed

section \<open>Paging\<close>

text \<open>Everything after a cursor, unpaged.\<close>

definition news :: "nat \<Rightarrow> room \<Rightarrow> stored_check_in list" where
  "news c m = sort_key rc_seq (filter (\<lambda>r. c < rc_seq r) (rm_rows m))"

lemma room_after_news: "room_after c n m = take n (news c m)"
  by (simp add: room_after_def news_def)

lemma news_distinct:
  assumes "room_ok m"
  shows "distinct (map rc_ticketId (news c m))" "sorted_wrt (<) (map rc_seq (news c m))"
proof -
  have d: "distinct (map rc_ticketId (rm_rows m))" "distinct (map rc_seq (rm_rows m))"
    using assms by (auto simp: room_ok_def)
  have key: "distinct (map f (sort_key rc_seq xs)) = distinct (map f xs)"
    for f :: "stored_check_in \<Rightarrow> nat" and xs
    by (metis distinct_map distinct_sort set_sort)
  show "distinct (map rc_ticketId (news c m))"
    unfolding news_def key by (intro distinct_map_filter d)
  have "distinct (map rc_seq (news c m))"
    unfolding news_def key by (intro distinct_map_filter d)
  moreover have "sorted (map rc_seq (news c m))" by (simp add: news_def)
  ultimately show "sorted_wrt (<) (map rc_seq (news c m))" by (simp add: strict_sorted_iff)
qed

lemma news_later:
  assumes "c < c'"
  shows "news c' m = filter (\<lambda>r. c' < rc_seq r) (news c m)"
proof -
  have "filter (\<lambda>r. c' < rc_seq r) (rm_rows m) =
      filter (\<lambda>r. c' < rc_seq r) (filter (\<lambda>r. c < rc_seq r) (rm_rows m))"
    using assms by (auto intro: filter_cong)
  then show ?thesis by (simp only: news_def filter_sort)
qed

text \<open>The next page starts where the last one ended.\<close>

lemma news_next:
  assumes ok: "room_ok m" and len: "0 < n" "n \<le> length (news c m)"
  shows "news (rc_seq (last (take n (news c m)))) m = drop n (news c m)"
proof -
  let ?s = "news c m" and ?c = "rc_seq (last (take n (news c m)))"
  have last: "?c = map rc_seq ?s ! (n - 1)"
  proof -
    have "take n ?s \<noteq> []" using len by auto
    then have "last (take n ?s) = ?s ! (n - 1)" using len by (simp add: last_conv_nth min_absorb2)
    then show ?thesis using len by simp
  qed
  have s: "map rc_seq ?s ! i < map rc_seq ?s ! j" if "i < j" "j < length ?s" for i j
    using news_distinct(2) [OF ok] that by (auto simp: sorted_wrt_iff_nth_less)
  have low: "rc_seq r \<le> ?c" if "r \<in> set (take n ?s)" for r
  proof -
    from that obtain i where i: "i < n" "i < length ?s" "r = ?s ! i"
      by (auto simp: in_set_conv_nth)
    show ?thesis
    proof (cases "i = n - 1")
      case False
      then have "map rc_seq ?s ! i < map rc_seq ?s ! (n - 1)" using i len by (intro s) auto
      then show ?thesis using i by (simp add: last)
    qed (use i last in simp)
  qed
  have high: "?c < rc_seq r" if "r \<in> set (drop n ?s)" for r
  proof -
    from that obtain i where "i < length (drop n ?s)" "r = drop n ?s ! i"
      unfolding in_set_conv_nth by blast
    then have i: "n + i < length ?s" "r = ?s ! (n + i)" using len by auto
    have "map rc_seq ?s ! (n - 1) < map rc_seq ?s ! (n + i)" using i len by (intro s) auto
    then show ?thesis using i by (simp add: last)
  qed
  have "c < ?c"
  proof -
    have "take n ?s \<noteq> []" using len by auto
    then have "last (take n ?s) \<in> set ?s" using in_set_takeD last_in_set by metis
    then show ?thesis by (simp add: news_def)
  qed
  then have "news ?c m = filter (\<lambda>r. ?c < rc_seq r) ?s" by (rule news_later)
  also have "\<dots> = filter (\<lambda>r. ?c < rc_seq r) (take n ?s @ drop n ?s)" by simp
  also have "\<dots> = drop n ?s"
    unfolding filter_append using low high by (fastforce simp: filter_empty_conv filter_id_conv)
  finally show ?thesis .
qed

lemma backlog_pages_hear:
  assumes ok: "room_ok m" and len: "0 < len" and fuel: "length (news c m) div len < fuel"
  shows "\<exists>ms. backlog_pages fuel len c m = Some ms \<and> foldl hear v ms = overlay (news c m) v"
  using fuel
proof (induction fuel arbitrary: c v)
  case (Suc fuel)
  let ?page = "take len (news c m)"
  have page: "room_after c len m = ?page" by (rule room_after_news)
  have d: "distinct (map rc_ticketId ?page)"
    using news_distinct(1) [OF ok] by (simp flip: take_map)
  show ?case
  proof (cases "length (news c m) < len")
    case True
    then have "?page = news c m" by simp
    then show ?thesis
      using True hear_page [OF d, of v] by (auto simp: page Let_def room_after_news)
  next
    case False
    let ?c = "rc_seq (last ?page)"
    have next': "news ?c m = drop len (news c m)"
      using False len by (intro news_next ok) auto
    then have "length (news ?c m) div len < fuel"
      using Suc.prems False len by (simp add: div_if [of "length (news c m)"])
    from Suc.IH [OF this, of "overlay ?page v"] obtain ms where
      ms: "backlog_pages fuel len ?c m = Some ms"
        "foldl hear (overlay ?page v) ms = overlay (news ?c m) (overlay ?page v)" by blast
    have "overlay (news ?c m) (overlay ?page v) = overlay (?page @ drop len (news c m)) v"
      unfolding next' by (rule overlay_append) (simp add: news_distinct(1) [OF ok])
    moreover have "?page \<noteq> []" "length ?page = len" using False len by auto
    ultimately show ?thesis
      using ms hear_page [OF d, of v] by (auto simp: page Let_def)
  qed
qed simp

section \<open>Catching up\<close>

lemma row_by_news:
  assumes "room_ok m"
  shows "row_by rc_ticketId i (news c m) =
    (case room_get m i of Some r \<Rightarrow> if c < rc_seq r then Some r else None | None \<Rightarrow> None)"
proof -
  have d: "distinct (map rc_ticketId (rm_rows m))" using assms by (simp add: room_ok_def)
  have "row_by rc_ticketId i (news c m) = Some r \<longleftrightarrow>
      row_by rc_ticketId i (filter (\<lambda>r. c < rc_seq r) (rm_rows m)) = Some r" for r
    using row_by_unique [OF news_distinct(1) [OF assms]] row_by_unique [OF distinct_map_filter [OF d]]
    by (simp add: news_def)
  then have "row_by rc_ticketId i (news c m) =
      row_by rc_ticketId i (filter (\<lambda>r. c < rc_seq r) (rm_rows m))"
    by (metis option.exhaust)
  then show ?thesis by (simp add: row_by_filter [OF d] room_get_def)
qed

lemma seq_bounds: "room_ok m \<Longrightarrow> room_get m i = Some r \<Longrightarrow> 0 < rc_seq r \<and> rc_seq r \<le> rm_seq m"
  by (auto simp: room_ok_def dest!: room_get_Some)

lemma overlay_from_start: "room_ok m \<Longrightarrow> overlay (news 0 m) Map.empty = room_view m"
  by (rule ext) (auto simp: overlay_def row_by_news room_view_def dest: seq_bounds
      split: option.splits)

lemma overlay_since:
  assumes "room_ok m" "grows m m'"
  shows "overlay (news (rm_seq m) m') (room_view m) = room_view m'"
proof
  fix i
  have ok: "room_ok m'" by (rule grows_ok [OF assms(2,1)])
  have "case room_get m' i of None \<Rightarrow> room_get m i = None
      | Some r \<Rightarrow> rc_seq r > rm_seq m \<or> room_get m i = Some r"
    using grows_rows [OF assms(2,1)] by blast
  then show "overlay (news (rm_seq m) m') (room_view m) i = room_view m' i"
    using seq_bounds [OF assms(1)]
    by (fastforce simp: overlay_def row_by_news [OF ok] room_view_def split: option.splits)
qed

lemma news_length: "length (news c m) \<le> length (rm_rows m)"
  by (simp add: news_def)

lemma enough_fuel:
  "length (rm_rows m) div n < fuel \<Longrightarrow> length (news c m) div n < fuel"
  using div_le_mono [OF news_length, of c m n] by simp

end
