(* ===== verification/RelayRules.thy ===== *)
theory RelayRules
  imports RelayCatchUp
begin

text \<open>
  The lemmas behind the room's guarantees: what a phone's message can change, how many rows a
  pass can hold, and what revoking a pass does.
\<close>

section \<open>What a phone may change\<close>

text \<open>The rows no message of this sender may touch.\<close>

definition out_of_reach :: "sender \<Rightarrow> stored_check_in \<Rightarrow> bool" where
  "out_of_reach who r \<longleftrightarrow>
    rc_removed r = None \<and> (rc_confirmed r \<or> rc_passId r \<noteq> Some (sd_passId who))"

text \<open>One phone item: every ticket's row stays, or becomes an unconfirmed row of the sender.\<close>

definition own_change :: "sender \<Rightarrow> room \<Rightarrow> room \<Rightarrow> bool" where
  "own_change who m m' \<longleftrightarrow>
    (\<forall>i. room_get m' i = room_get m i \<or>
      (\<forall>r. room_get m i = Some r \<longrightarrow> \<not> out_of_reach who r) \<and>
      (\<exists>r. room_get m' i = Some r \<and> rc_passId r = Some (sd_passId who) \<and> \<not> rc_confirmed r \<and>
        rc_removed r \<noteq> Some ByServer)) \<and>
    rm_revoked m' = rm_revoked m"

lemma own_change_refl: "own_change who m m"
  by (simp add: own_change_def)

lemma own_change_trans:
  assumes "own_change who m m1" "own_change who m1 m2"
  shows "own_change who m m2"
  unfolding own_change_def
proof (intro conjI allI)
  show "rm_revoked m2 = rm_revoked m" using assms by (simp add: own_change_def)
  fix i
  have a: "room_get m1 i = room_get m i \<or> (\<forall>r. room_get m i = Some r \<longrightarrow> \<not> out_of_reach who r) \<and>
      (\<exists>r. room_get m1 i = Some r \<and> rc_passId r = Some (sd_passId who) \<and> \<not> rc_confirmed r \<and>
        rc_removed r \<noteq> Some ByServer)"
    using assms(1) unfolding own_change_def by blast
  have b: "room_get m2 i = room_get m1 i \<or> (\<forall>r. room_get m1 i = Some r \<longrightarrow> \<not> out_of_reach who r) \<and>
      (\<exists>r. room_get m2 i = Some r \<and> rc_passId r = Some (sd_passId who) \<and> \<not> rc_confirmed r \<and>
        rc_removed r \<noteq> Some ByServer)"
    using assms(2) unfolding own_change_def by blast
  show "room_get m2 i = room_get m i \<or> (\<forall>r. room_get m i = Some r \<longrightarrow> \<not> out_of_reach who r) \<and>
      (\<exists>r. room_get m2 i = Some r \<and> rc_passId r = Some (sd_passId who) \<and> \<not> rc_confirmed r \<and>
        rc_removed r \<noteq> Some ByServer)"
    using a b by auto
qed

lemma own_put:
  assumes "put_next r m = (r', m')" "rc_passId r = Some (sd_passId who)" "\<not> rc_confirmed r"
    "rc_removed r \<noteq> Some ByServer"
    "\<And>x. room_get m (rc_ticketId r) = Some x \<Longrightarrow> \<not> out_of_reach who x"
  shows "own_change who m m'"
  unfolding own_change_def using assms(2-5) put_next_simps [OF assms(1)] by auto

lemma claim_own: "claim now who i t m = (a, m') \<Longrightarrow> own_change who m m'"
  by (auto simp: claim_def own_change_refl out_of_reach_def standing_def
      split: option.splits if_splits prod.splits elim!: own_put)

lemma room_get_id: "room_get m i = Some r \<Longrightarrow> rc_ticketId r = i"
  by (simp add: room_get_Some)

lemma room_get_self: "room_get m i = Some r \<Longrightarrow> room_get m (rc_ticketId r) = Some r"
  by (simp add: room_get_id)

lemma unclaim_cases:
  assumes "unclaim who i m = (a, m')"
  obtains "m' = m"
  | r r' where "room_get m (rc_ticketId r) = Some r" "rc_removed r = None" "\<not> rc_confirmed r"
      "rc_passId r = Some (sd_passId who)" "put_next (r\<lparr>rc_removed := Some ByGate\<rparr>) m = (r', m')"
  using assms
  by (auto simp: unclaim_def dest: room_get_self split: option.splits if_splits prod.splits)

lemma unclaim_own: "unclaim who i m = (a, m') \<Longrightarrow> own_change who m m'"
  by (erule unclaim_cases) (auto simp: own_change_refl out_of_reach_def elim!: own_put)

lemma phone_item_own: "phone_item_action now who x m = (a, m') \<Longrightarrow> own_change who m m'"
  by (cases x) (auto simp: own_change_refl dest: claim_own unclaim_own)

lemma batch_own: "room_ok m \<Longrightarrow> batch_items now who xs m = (a, m') \<Longrightarrow> own_change who m m'"
proof (induction xs arbitrary: m a m')
  case (Cons x xs)
  obtain act m1 where s: "phone_item_action now who x m = (act, m1)" by fastforce
  obtain b m2 where t: "batch_items now who xs m1 = (b, m2)" by fastforce
  have "room_ok m1" by (rule grows_ok [OF phone_item_grows [OF Cons.prems(1) s] Cons.prems(1)])
  then have "own_change who m1 m2" by (rule Cons.IH [OF _ t])
  moreover have "own_change who m m1" by (rule phone_item_own [OF s])
  moreover have "m' = m2" using Cons.prems(2) s t by (auto split: prod.splits option.splits)
  ultimately show ?case using own_change_trans by blast
qed (simp add: own_change_refl)

lemma fromPhone_own: "room_ok m \<Longrightarrow> fromPhone now who len body m = (a, m') \<Longrightarrow> own_change who m m'"
  by (auto simp: fromPhone_def own_change_refl dest!: as_action_snd
      intro: batch_own phone_item_own [OF surjective_pairing]
      split: if_splits phone_body.splits option.splits prod.splits)

section \<open>Rows per pass\<close>

lemma rows_put_le:
  "length (filter P (delete_rows q rs)) \<le> length (filter P rs)"
  by (induction rs) (auto simp: delete_rows_def)

lemma rows_put_less:
  "x \<in> set rs \<Longrightarrow> P x \<Longrightarrow> q x \<Longrightarrow> length (filter P (delete_rows q rs)) < length (filter P rs)"
proof (induction rs)
  case (Cons a rs)
  have "length (filter P (delete_rows q rs)) \<le> length (filter P rs)" by (rule rows_put_le)
  with Cons show ?case by (fastforce simp: delete_rows_def)
qed simp

lemma rowsOf_put_next:
  assumes "put_next r m = (r', m')"
  shows "rowsOf p m' \<le> rowsOf p m + (if rc_passId r = Some p then 1 else 0)"
    and "room_get m (rc_ticketId r) = Some x \<Longrightarrow> rc_passId x = rc_passId r \<Longrightarrow> rowsOf p m' \<le> rowsOf p m"
proof -
  note s = put_next_simps [OF assms]
  let ?P = "\<lambda>x. rc_passId x = Some p" and ?q = "\<lambda>x. rc_ticketId x = rc_ticketId r"
  show "rowsOf p m' \<le> rowsOf p m + (if rc_passId r = Some p then 1 else 0)"
    using rows_put_le [of ?P ?q "rm_rows m"] by (simp add: rowsOf_def s(1,5))
  assume x: "room_get m (rc_ticketId r) = Some x" "rc_passId x = rc_passId r"
  show "rowsOf p m' \<le> rowsOf p m"
    using rows_put_le [of ?P ?q "rm_rows m"] rows_put_less [of x "rm_rows m" ?P ?q] x
    by (auto simp: rowsOf_def s(1,5) dest!: room_get_Some)
qed

definition capped :: "room \<Rightarrow> bool" where
  "capped m \<longleftrightarrow> (\<forall>p. rowsOf p m \<le> PASS_CLAIM_CAP)"

lemma cappedD: "capped m \<Longrightarrow> rowsOf p m \<le> PASS_CLAIM_CAP"
  by (simp add: capped_def)

lemma capped_put_server:
  "put_next r m = (r', m') \<Longrightarrow> rc_passId r = None \<Longrightarrow> capped m \<Longrightarrow> capped m'"
  unfolding capped_def using rowsOf_put_next(1) [of r m r' m'] by (fastforce intro: order_trans)

lemma capped_put_same:
  "put_next r m = (r', m') \<Longrightarrow> room_get m (rc_ticketId r) = Some x \<Longrightarrow> rc_passId x = rc_passId r \<Longrightarrow>
    capped m \<Longrightarrow> capped m'"
  unfolding capped_def using rowsOf_put_next(2) [of r m r' m'] by (blast intro: order_trans)

lemma capped_put_own:
  assumes "put_next r m = (r', m')" "rc_passId r = Some q" "rowsOf q m < PASS_CLAIM_CAP" "capped m"
  shows "capped m'"
  unfolding capped_def
proof
  fix p
  show "rowsOf p m' \<le> PASS_CLAIM_CAP"
    using rowsOf_put_next(1) [OF assms(1), of p] assms(2,3) cappedD [OF assms(4), of p]
    by (cases "p = q") auto
qed

lemma phone_item_capped:
  assumes "capped m" "phone_item_action now who x m = (a, m')"
  shows "capped m'"
proof (cases x)
  case (ItemIn i t)
  with assms show ?thesis
    by (auto simp: claim_def split: option.splits if_splits prod.splits intro: capped_put_own)
next
  case (ItemUndo i)
  then have "unclaim who i m = (a, m')" using assms(2) by simp
  then show ?thesis
  proof (cases rule: unclaim_cases)
    case (2 r r')
    then show ?thesis by (intro capped_put_same [OF 2(5) _ _ assms(1), of r]) simp_all
  qed (use assms in simp)
qed (use assms in simp)

lemma batch_capped: "capped m \<Longrightarrow> batch_items now who xs m = (a, m') \<Longrightarrow> capped m'"
proof (induction xs arbitrary: m a m')
  case (Cons x xs)
  obtain act m1 where s: "phone_item_action now who x m = (act, m1)" by fastforce
  obtain b m2 where t: "batch_items now who xs m1 = (b, m2)" by fastforce
  have "capped m2" by (rule Cons.IH [OF phone_item_capped [OF Cons.prems(1) s] t])
  moreover have "m' = m2" using Cons.prems(2) s t by (auto split: prod.splits option.splits)
  ultimately show ?case by simp
qed simp

lemma fromPhone_capped: "capped m \<Longrightarrow> fromPhone now who len body m = (a, m') \<Longrightarrow> capped m'"
  by (auto simp: fromPhone_def dest!: as_action_snd
      intro: batch_capped phone_item_capped [OF _ surjective_pairing]
      split: if_splits phone_body.splits option.splits prod.splits)

section \<open>Revoking a pass\<close>

text \<open>Tombstoning standing claims one by one: each is dropped, everything else stays.\<close>

lemma tombstone_all_effect:
  assumes "\<forall>r \<in> set rs. room_get m (rc_ticketId r) = Some r" "distinct (map rc_ticketId rs)"
    and "tombstone_all rs m = (ms, m')"
  shows "rm_revoked m' = rm_revoked m \<and> (capped m \<longrightarrow> capped m') \<and>
    (\<forall>i. i \<notin> rc_ticketId ` set rs \<longrightarrow> room_get m' i = room_get m i) \<and>
    (\<forall>r \<in> set rs. \<exists>n. room_get m' (rc_ticketId r) = Some (r\<lparr>rc_removed := Some ByGate, rc_seq := n\<rparr>) \<and>
      Undo (rc_ticketId r) ByGate (rc_atMs r) n \<in> set ms)"
  using assms
proof (induction rs arbitrary: m ms m')
  case (Cons r rs)
  obtain tomb m1 where p: "put_next (r\<lparr>rc_removed := Some ByGate\<rparr>) m = (tomb, m1)" by fastforce
  obtain ms' m2 where t: "tombstone_all rs m1 = (ms', m2)" by fastforce
  note s = put_next_simps [OF p]
  have get: "room_get m1 i = (if i = rc_ticketId r then Some tomb else room_get m i)" for i
    using s(6) by simp
  have fresh: "rc_ticketId r \<notin> rc_ticketId ` set rs" using Cons.prems(2) by simp
  have later: "\<forall>x \<in> set rs. room_get m1 (rc_ticketId x) = Some x"
  proof
    fix x assume x: "x \<in> set rs"
    then have "rc_ticketId x \<in> rc_ticketId ` set rs" by (rule imageI)
    then have "rc_ticketId x \<noteq> rc_ticketId r" using fresh by auto
    then show "room_get m1 (rc_ticketId x) = Some x" using Cons.prems(1) x by (simp add: get)
  qed
  have d: "distinct (map rc_ticketId rs)" using Cons.prems(2) by simp
  note ih = Cons.IH [OF later d t]
  have cap: "capped m \<longrightarrow> capped m1"
    using Cons.prems(1) by (auto intro!: capped_put_same [OF p, where x = r])
  have m: "m' = m2" "ms = undoMessage tomb # ms'" using Cons.prems(3) p t by auto
  show ?case
  proof (intro conjI allI impI ballI)
    show "rm_revoked m' = rm_revoked m" using ih s(4) by (simp add: m)
    show "capped m'" if "capped m" using that ih cap by (simp add: m)
    show "room_get m' i = room_get m i" if "i \<notin> rc_ticketId ` set (r # rs)" for i
      using that ih by (simp add: m get)
    show "\<exists>n. room_get m' (rc_ticketId x) = Some (x\<lparr>rc_removed := Some ByGate, rc_seq := n\<rparr>) \<and>
        Undo (rc_ticketId x) ByGate (rc_atMs x) n \<in> set ms" if x: "x \<in> set (r # rs)" for x
    proof (cases "x = r")
      case True
      have "room_get m' (rc_ticketId r) = Some tomb"
        using ih fresh by (simp add: m get)
      then show ?thesis by (auto simp: True m s(1) undoMessage_def)
    next
      case False
      then have "x \<in> set rs" using x by simp
      with ih obtain n where
        "room_get m' (rc_ticketId x) = Some (x\<lparr>rc_removed := Some ByGate, rc_seq := n\<rparr>)"
        "Undo (rc_ticketId x) ByGate (rc_atMs x) n \<in> set ms'" unfolding m by blast
      then show ?thesis by (intro exI [of _ n]) (simp add: m)
    qed
  qed
qed simp

lemma claimsOf_rows:
  assumes "room_ok m"
  shows "\<forall>r \<in> set (claimsOf p m). room_get m (rc_ticketId r) = Some r"
    and "distinct (map rc_ticketId (claimsOf p m))"
proof -
  show "\<forall>r \<in> set (claimsOf p m). room_get m (rc_ticketId r) = Some r"
    by (simp add: room_get_iff [OF assms] claimsOf_def)
  have "distinct (map rc_ticketId (rm_rows m))" using assms by (simp add: room_ok_def)
  then show "distinct (map rc_ticketId (claimsOf p m))"
    unfolding claimsOf_def by (rule distinct_map_filter)
qed

lemma server_revoke_effect:
  assumes "room_ok m" "server_revoke p until m = (a, m')"
  shows "isRevoked p m' \<and> (\<forall>q. isRevoked q m' \<longleftrightarrow> q = p \<or> isRevoked q m) \<and>
    (capped m \<longrightarrow> capped m') \<and> ac_closePass a = Some p \<and> ac_skipSender a = False \<and>
    (\<forall>i. i \<notin> rc_ticketId ` set (claimsOf p m) \<longrightarrow> room_get m' i = room_get m i) \<and>
    (\<forall>r \<in> set (claimsOf p m). \<exists>n.
      room_get m' (rc_ticketId r) = Some (r\<lparr>rc_removed := Some ByGate, rc_seq := n\<rparr>) \<and>
      Undo (rc_ticketId r) ByGate (rc_atMs r) n \<in> set (ac_broadcast a))"
proof -
  let ?m = "room_revoke p m"
  obtain ms m2 where t: "tombstone_all (claimsOf p m) ?m = (ms, m2)" by fastforce
  have "\<forall>r \<in> set (claimsOf p m). room_get ?m (rc_ticketId r) = Some r"
    using claimsOf_rows(1) [OF assms(1)] by simp
  note e = tombstone_all_effect [OF this claimsOf_rows(2) [OF assms(1)] t]
  have m: "m' = m2" "a = nothing\<lparr>ac_broadcast := ms, ac_closePass := Some p, ac_keepUntil := until\<rparr>"
    using assms(2) t by (auto simp: server_revoke_def Let_def)
  have cap: "capped ?m = capped m" by (simp add: capped_def rowsOf_def)
  have rev: "isRevoked q m2 \<longleftrightarrow> q = p \<or> isRevoked q m" for q
    using e room_revoke_simps(6) [of q p m] by (simp add: isRevoked_def)
  show ?thesis using e by (simp add: m cap rev nothing_def)
qed

lemma server_put_capped: "capped m \<Longrightarrow> server_in i at g m = (a, m') \<Longrightarrow> capped m'"
  "capped m \<Longrightarrow> server_undo i at m = (a, m') \<Longrightarrow> capped m'"
  by (auto simp: server_in_def server_undo_def Let_def split: if_splits prod.splits
      elim!: capped_put_server)

lemma fromServer_capped:
  "room_ok m \<Longrightarrow> capped m \<Longrightarrow> fromServer body m = (a, m') \<Longrightarrow> capped m'"
  by (auto simp: fromServer_def split: server_body.splits option.splits prod.splits
      dest: server_put_capped server_revoke_effect)

lemma room_run_ok: "room_run m m' \<Longrightarrow> room_ok m \<Longrightarrow> room_ok m'"
  by (rule grows_ok [OF room_run_grows])

lemma room_run_capped: "room_run m m' \<Longrightarrow> room_ok m \<Longrightarrow> capped m \<Longrightarrow> capped m'"
proof (induction rule: room_run.induct)
  case (run_phone m m1 now who len body a m2)
  then show ?case by (blast intro: fromPhone_capped)
next
  case (run_server m m1 body b m2)
  then show ?case by (blast intro: fromServer_capped room_run_ok)
qed

end
