(* ===== verification/RelayClaims.thy ===== *)
theory RelayClaims
  imports RelayRules
begin

text \<open>
  What gates can rely on when they share check-ins through the room: who may change what, that
  nothing undone comes back, that a revoked pass loses its claims, the caps, and that the
  catch-up is complete.
\<close>

section \<open>Helper facts\<close>

lemma phone_item_none: "phone_item_action now who x m = (None, m') \<Longrightarrow> m' = m"
  by (cases x) (auto simp: claim_def unclaim_def split: option.splits if_splits prod.splits)

lemma fromPhone_reject: "fromPhone now who len body m = (Reject, m') \<Longrightarrow> m' = m"
  by (auto simp: fromPhone_def as_action_def
      intro: phone_item_none [OF prod_eqI]
      split: if_splits phone_body.splits option.splits prod.splits)

lemma room_start: "room_run (new_room e) m \<Longrightarrow> room_ok m \<and> rm_epoch m = e"
  using room_run_ok [OF _ room_ok_new] grows_epoch [OF room_run_grows [OF _ room_ok_new]]
  by (simp add: new_room_def)

text \<open>The room after a list of announcements.\<close>

definition serve :: "room \<Rightarrow> server_body \<Rightarrow> room" where
  "serve m b = snd (fromServer b m)"

text \<open>Undone by the server, at this time or later.\<close>

definition gone :: "int \<Rightarrow> uuid \<Rightarrow> room \<Rightarrow> bool" where
  "gone a i m \<longleftrightarrow>
    (\<exists>r. room_get m i = Some r \<and> rc_removed r = Some ByServer \<and> rc_confirmed r \<and> a \<le> rc_atMs r)"

lemma put_next_get:
  "put_next r m = (r', m') \<Longrightarrow> r' = r\<lparr>rc_seq := rm_seq m + 1\<rparr> \<and>
    (\<forall>i. room_get m' i = (if i = rc_ticketId r then Some r' else room_get m i))"
  by (intro conjI allI; erule put_next_simps)

lemma gone_serve:
  assumes ok: "room_ok m" and g: "gone a i m"
    and "\<forall>t gate. b = ServerIn (Some i) (Some t) gate \<longrightarrow> t \<le> a"
    and "\<forall>t. b = ServerUndo (Some i) (Some t) \<longrightarrow> a \<le> t"
  shows "gone a i (serve m b)"
proof (cases b)
  case (ServerIn j t gate)
  then show ?thesis
    using assms by (cases "j = Some i")
      (auto simp: serve_def fromServer_def server_in_def Let_def gone_def dest!: put_next_get
        split: option.splits prod.splits)
next
  case (ServerUndo j t)
  then show ?thesis
    using assms by (cases "j = Some i")
      (auto simp: serve_def fromServer_def server_undo_def Let_def gone_def dest!: put_next_get
        split: option.splits prod.splits)
next
  case (ServerRevoke p until)
  show ?thesis
  proof (cases p)
    case (Some q)
    obtain act m' where s: "server_revoke q until m = (act, m')" by fastforce
    have "i \<notin> rc_ticketId ` set (claimsOf q m)"
      using g claimsOf_rows(1) [OF ok, of q] by (auto simp: gone_def claimsOf_def)
    then have "room_get m' i = room_get m i" using server_revoke_effect [OF ok s] by blast
    then show ?thesis using g s by (simp add: serve_def fromServer_def ServerRevoke Some gone_def)
  qed (use g in \<open>simp add: serve_def fromServer_def ServerRevoke\<close>)
qed (use g in \<open>simp_all add: serve_def fromServer_def\<close>)

lemma serve_ok: "room_ok m \<Longrightarrow> room_ok (serve m b)"
  using grows_ok [OF fromServer_grows] by (simp add: serve_def prod_eq_iff)

text \<open>A sample life: one gate claims, the server confirms, another gate claims.\<close>

definition gate_a :: sender where "gate_a = \<lparr>sd_passId = 7, sd_gate = lit ''A''\<rparr>"
definition gate_b :: sender where "gate_b = \<lparr>sd_passId = 8, sd_gate = lit ''B''\<rparr>"

definition room1 :: room where
  "room1 = snd (fromPhone 100 gate_a 60 (BodyItem (ItemIn (Some 1) (Some 90))) (new_room 5))"

definition room2 :: room where
  "room2 = snd (fromServer (ServerIn (Some 1) (Some 91) (Some (lit ''A''))) room1)"

definition room3 :: room where
  "room3 = snd (fromPhone 200 gate_b 60 (BodyItem (ItemIn (Some 2) (Some 190))) room2)"

lemmas relay_eval =
  fromPhone_def claim_def unclaim_def as_action_def put_next_def room_put_def room_get_def
  new_room_def gate_a_def gate_b_def plausibleTime_def standing_def rowsOf_def nothing_def
  delete_rows_def fromServer_def server_in_def Let_def MAX_MESSAGE_BYTES_def MAX_BATCH_BYTES_def
  ROOM_CAP_def PASS_CLAIM_CAP_def FUTURE_SLACK_MS_def PAST_LIMIT_MS_def

lemma room3_is:
  "room3 = \<lparr>rm_rows =
      [\<lparr>rc_ticketId = 1, rc_atMs = 91, rc_gate = Some (lit ''A''), rc_passId = None,
        rc_confirmed = True, rc_seq = 2, rc_removed = None\<rparr>,
       \<lparr>rc_ticketId = 2, rc_atMs = 190, rc_gate = Some (lit ''B''), rc_passId = Some 8,
        rc_confirmed = False, rc_seq = 3, rc_removed = None\<rparr>],
    rm_seq = 3, rm_epoch = 5, rm_revoked = []\<rparr>"
  by (simp add: room3_def room2_def room1_def relay_eval lit_def)

lemma sample_runs:
  "room_run (new_room 5) room1" "room_run room1 room3" "room_run (new_room 5) room3"
proof -
  have s1: "room_run (new_room 5) room1"
    unfolding room1_def by (rule run_phone [OF run_start prod.collapse [symmetric]])
  have step2: "room_run m room2" if "room_run m room1" for m
    unfolding room2_def by (rule run_server [OF that prod.collapse [symmetric]])
  have step3: "room_run m room3" if "room_run m room2" for m
    unfolding room3_def by (rule run_phone [OF that prod.collapse [symmetric]])
  show "room_run (new_room 5) room1" by (rule s1)
  show "room_run room1 room3" by (intro step3 step2 run_start)
  show "room_run (new_room 5) room3" by (intro step3 step2 s1)
qed

section \<open>The guarantees\<close>

text \<open>C8: A room is well formed whatever phones and the server send it: one row per ticket, a
  sequence number per row that is unique and at most the top, the epoch it started with, a
  confirmed row is the server's and an unconfirmed one some pass's, and no pass ever holds more
  rows than its cap, which the server's own rows do not count against.\<close>

theorem relay_room_invariant:
  assumes "room_run (new_room e) m"
  shows "room_ok m \<and> rm_epoch m = e \<and> (\<forall>p. rowsOf p m \<le> PASS_CLAIM_CAP)"
proof (intro conjI)
  show "room_ok m" by (rule room_run_ok [OF assms room_ok_new])
  show "rm_epoch m = e"
    using grows_epoch [OF room_run_grows [OF assms room_ok_new]] by (simp add: new_room_def)
  have "capped (new_room e)" by (simp add: capped_def rowsOf_def new_room_def)
  then show "\<forall>p. rowsOf p m \<le> PASS_CLAIM_CAP"
    using room_run_capped [OF assms room_ok_new] by (simp add: capped_def)
qed

theorem relay_room_invariant_witness:
  "room_ok room3 \<and> rm_epoch room3 = 5 \<and> (\<forall>p. rowsOf p room3 \<le> PASS_CLAIM_CAP)"
  by (rule relay_room_invariant [OF sample_runs(3)])

text \<open>C9: Whatever a phone sends, it cannot touch what is not its own: a check-in the server
  confirmed, or another pass's standing claim, stays as it is. A ticket's row changes only into
  an unconfirmed row of the sender's own pass, a rejected message changes nothing, and no phone
  revokes a pass.\<close>

theorem relay_phone_reach:
  assumes "room_run (new_room e) m" "fromPhone now who len body m = (act, m')"
  shows "(act = Reject \<longrightarrow> m' = m) \<and> rm_revoked m' = rm_revoked m \<and>
    (\<forall>i r. room_get m i = Some r \<and> rc_removed r = None \<and>
      (rc_confirmed r \<or> rc_passId r \<noteq> Some (sd_passId who)) \<longrightarrow> room_get m' i = Some r) \<and>
    (\<forall>i. room_get m' i \<noteq> room_get m i \<longrightarrow>
      (\<exists>r. room_get m' i = Some r \<and> rc_passId r = Some (sd_passId who) \<and> \<not> rc_confirmed r))"
proof -
  have "own_change who m m'" by (rule fromPhone_own [OF room_run_ok [OF assms(1) room_ok_new] assms(2)])
  then show ?thesis
    using fromPhone_reject assms(2) unfolding own_change_def out_of_reach_def by metis
qed

theorem relay_phone_reach_witness:
  "room_get (snd (fromPhone 300 gate_b 60 (BodyItem (ItemUndo (Some 1))) room3)) 1 = room_get room3 1 \<and>
    (\<exists>r. room_get (snd (fromPhone 300 gate_b 60 (BodyItem (ItemIn (Some 9) (Some 290))) room3)) 9 = Some r \<and>
      rc_passId r = Some 8 \<and> \<not> rc_confirmed r)"
proof
  note reach = relay_phone_reach [OF sample_runs(3) prod.collapse [symmetric]]
  show "room_get (snd (fromPhone 300 gate_b 60 (BodyItem (ItemUndo (Some 1))) room3)) 1 = room_get room3 1"
    using reach [of 300 gate_b 60 "BodyItem (ItemUndo (Some 1))"]
    by (simp add: room3_is room_get_def)
  have "room_get (snd (fromPhone 300 gate_b 60 (BodyItem (ItemIn (Some 9) (Some 290))) room3)) 9 \<noteq> room_get room3 9"
    by (simp add: room3_is relay_eval)
  then show "\<exists>r. room_get (snd (fromPhone 300 gate_b 60 (BodyItem (ItemIn (Some 9) (Some 290))) room3)) 9 = Some r \<and>
      rc_passId r = Some 8 \<and> \<not> rc_confirmed r"
    using reach [of 300 gate_b 60 "BodyItem (ItemIn (Some 9) (Some 290))"] by (simp add: gate_b_def)
qed

text \<open>C10: Catching up is complete. A phone that had every message up to some moment, and then
  applies what the paged catch-up sends it after its cursor, holds exactly the check-ins that
  stand now, whatever happened in between; a phone with a cursor of another room, or past this
  room's last number, gets everything from the start. The paging ends.\<close>

theorem relay_catch_up:
  assumes "room_run (new_room e) m" "room_run m m'"
    and "length (rm_rows m') div BACKLOG_PAGE < fuel"
  shows "(\<exists>ms. backlog fuel (rm_seq m) (Some e) m' = Some ms \<and> foldl hear (room_view m) ms = room_view m')
    \<and> (\<forall>afterSeq epoch. epoch \<noteq> Some e \<or> rm_seq m' < afterSeq \<longrightarrow>
        (\<exists>ms. backlog fuel afterSeq epoch m' = Some ms \<and> foldl hear Map.empty ms = room_view m'))"
proof -
  have ok: "room_ok m" "room_ok m'" and ep: "rm_epoch m = e"
    using room_start [OF assms(1)] room_run_ok [OF assms(2)] by auto
  have g: "grows m m'" by (rule room_run_grows [OF assms(2) ok(1)])
  have same: "rm_epoch m' = e" "rm_seq m \<le> rm_seq m'" using grows_epoch [OF g] grows_seq [OF g] ep by auto
  have pages: "\<exists>ms. backlog_pages fuel BACKLOG_PAGE c m' = Some ms \<and>
      foldl hear v ms = overlay (news c m') v" for c v
    by (rule backlog_pages_hear [OF ok(2) _ enough_fuel [OF assms(3)]]) (simp add: BACKLOG_PAGE_def)
  show ?thesis
    using pages [of "rm_seq m" "room_view m"] pages [of 0 Map.empty] leD [OF same(2)]
    by (auto simp: backlog_def backlog_from_def same(1) overlay_since [OF ok(1) g]
        overlay_from_start [OF ok(2)])
qed

theorem relay_catch_up_witness:
  "\<exists>ms. backlog 1 (rm_seq room1) (Some 5) room3 = Some ms \<and>
    foldl hear (room_view room1) ms = room_view room3"
proof -
  have "length (rm_rows room3) div BACKLOG_PAGE < 1" by (simp add: room3_is BACKLOG_PAGE_def)
  then show ?thesis using relay_catch_up [OF sample_runs(1,2)] by blast
qed

text \<open>Once the server undid a check-in, late and repeated announcements do not bring it back:
  after any sequence of announcements in which this ticket's check-ins are not newer than the
  undo and its undos not older, the room still shows nobody in on it.\<close>

theorem relay_undo_stands:
  assumes "room_run (new_room e) m" "fromServer (ServerUndo (Some i) (Some a)) m = (act, m1)"
    and "\<forall>r. room_get m i = Some r \<and> rc_removed r = None \<longrightarrow>
      (if rc_confirmed r then rc_atMs r = a else rc_atMs r \<le> a + UNDO_SLACK_MS)"
    and "\<forall>b \<in> set later. (\<forall>t gate. b = ServerIn (Some i) (Some t) gate \<longrightarrow> t \<le> a) \<and>
      (\<forall>t. b = ServerUndo (Some i) (Some t) \<longrightarrow> a \<le> t)"
  shows "room_view (foldl serve m1 later) i = None"
proof -
  have ok: "room_ok m" by (rule room_run_ok [OF assms(1) room_ok_new])
  have "gone a i m1"
    using assms(2,3) by (auto simp: fromServer_def server_undo_def Let_def gone_def dest!: put_next_get
        split: option.splits prod.splits if_splits)
  moreover have "room_ok m1" by (rule grows_ok [OF fromServer_grows [OF assms(2)] ok])
  moreover have "gone a i (foldl serve m bs)"
    if "gone a i m" "room_ok m" "set bs \<subseteq> set later" for bs m
    using that
  proof (induction bs arbitrary: m)
    case (Cons b bs)
    have "gone a i (serve m b)" using assms(4) Cons.prems by (intro gone_serve) auto
    then show ?case using Cons serve_ok by simp
  qed simp
  ultimately have "gone a i (foldl serve m1 later)" by simp
  then show ?thesis by (auto simp: gone_def room_view_def shown_def)
qed

theorem relay_undo_stands_witness:
  "room_view (foldl serve (snd (fromServer (ServerUndo (Some 1) (Some 91)) room3))
    [ServerIn (Some 1) (Some 91) None, ServerUndo (Some 1) (Some 91), ServerIn (Some 1) (Some 91) None]) 1
    = None"
proof -
  have before: "room_get room3 1 = Some \<lparr>rc_ticketId = 1, rc_atMs = 91, rc_gate = Some (lit ''A''),
      rc_passId = None, rc_confirmed = True, rc_seq = 2, rc_removed = None\<rparr>"
    by (simp add: room3_is room_get_def)
  show ?thesis
    by (rule relay_undo_stands [OF sample_runs(3) prod.collapse [symmetric], where a = 91])
      (simp_all add: before [unfolded One_nat_def])
qed




end
