(* ===== verification/DateText.thy ===== *)
theory DateText
  imports IsoDate
begin

text \<open>
  Instants on the wire: \<open>Date.parse\<close> of the text \<open>toISOString\<close> writes, the only date text the
  server and the door phones exchange (\<open>None\<close> is \<open>NaN\<close>), and that it reads back.
\<close>

definition slice :: "nat \<Rightarrow> nat \<Rightarrow> jstr \<Rightarrow> jstr" where
  "slice a n s = take n (drop a s)"

definition digits_value :: "jstr \<Rightarrow> nat" where
  "digits_value s = foldl (\<lambda>n c. n * 10 + (c - 48)) 0 s"

definition field :: "nat \<Rightarrow> nat \<Rightarrow> jstr \<Rightarrow> int" where
  "field a n s = int (digits_value (slice a n s))"

text \<open>Days since 1970-01-01 of a year, month and day.\<close>

definition days_from_civil :: "int \<Rightarrow> int \<Rightarrow> int \<Rightarrow> int" where
  "days_from_civil y m d =
    (let y' = (if m \<le> 2 then y - 1 else y);
         yoe = y' mod 400;
         mp = (m + 9) mod 12;
         doy = (153 * mp + 2) div 5 + d - 1;
         doe = yoe * 365 + yoe div 4 - yoe div 100 + doy
     in y' div 400 * 146097 + doe - 719468)"

definition iso_shape :: "jstr \<Rightarrow> bool" where
  "iso_shape s \<longleftrightarrow> length s = 24 \<and>
    slice 4 1 s = [45] \<and> slice 7 1 s = [45] \<and> slice 10 1 s = lit ''T'' \<and>
    slice 13 1 s = [58] \<and> slice 16 1 s = [58] \<and> slice 19 1 s = [46] \<and> slice 23 1 s = lit ''Z'' \<and>
    list_all is_digit (slice 0 4 s @ slice 5 2 s @ slice 8 2 s @ slice 11 2 s @ slice 14 2 s @
      slice 17 2 s @ slice 20 3 s)"

definition dateParse :: "jstr \<Rightarrow> int option" where
  "dateParse s =
    (if \<not> iso_shape s \<or> field 5 2 s < 1 \<or> field 5 2 s > 12 \<or> field 8 2 s < 1 \<or> field 8 2 s > 31 \<or>
        field 11 2 s > 23 \<or> field 14 2 s > 59 \<or> field 17 2 s > 59
     then None
     else Some (days_from_civil (field 0 4 s) (field 5 2 s) (field 8 2 s) * 86400000 +
       field 11 2 s * 3600000 + field 14 2 s * 60000 + field 17 2 s * 1000 + field 20 3 s))"

section \<open>Digits\<close>

lemma digits_value_append:
  "digits_value (s @ [c]) = digits_value s * 10 + (c - 48)"
  by (simp add: digits_value_def)

lemma digits_value_decimal: "digits_value (decimal n) = n"
proof (induction n rule: decimal.induct)
  case (1 n)
  show ?case
  proof (cases "n < 10")
    case True
    then show ?thesis by (simp add: decimal.simps [of n] digits_value_def)
  next
    case False
    then show ?thesis using 1 by (simp add: decimal.simps [of n] digits_value_append)
  qed
qed

lemma digits_value_zeros: "digits_value (replicate k 48 @ s) = digits_value s"
proof -
  have "foldl (\<lambda>n c. n * 10 + (c - 48)) 0 (replicate k 48) = (0 :: nat)" by (induction k) simp_all
  then show ?thesis by (simp add: digits_value_def)
qed

lemma decimal_length: "n < 10 ^ k \<Longrightarrow> 0 < k \<Longrightarrow> length (decimal n) \<le> k"
proof (induction n arbitrary: k rule: decimal.induct)
  case (1 n)
  show ?case
  proof (cases "n < 10")
    case True
    then show ?thesis using 1 by (simp add: decimal.simps [of n])
  next
    case False
    then obtain j where j: "k = Suc j" "0 < j" using 1(2,3) by (cases k; cases "k - 1") auto
    have "n div 10 < 10 ^ j" using 1(2) j(1) by (simp add: less_mult_imp_div_less mult.commute)
    then show ?thesis using 1(1) [OF False, of j] False j by (simp add: decimal.simps [of n])
  qed
qed

lemma decimal_all_digits: "list_all is_digit (decimal n)"
proof (induction n rule: decimal.induct)
  case (1 n)
  show ?case
  proof (cases "n < 10")
    case True
    then show ?thesis by (simp add: decimal.simps [of n] is_digit_def)
  next
    case False
    then show ?thesis using 1 by (simp add: decimal.simps [of n] is_digit_def)
  qed
qed

lemma pad_decimal:
  assumes "n < 10 ^ k" "0 < k"
  shows "length (pad_to k (decimal n)) = k" "digits_value (pad_to k (decimal n)) = n"
    "list_all is_digit (pad_to k (decimal n))"
  using decimal_length [OF assms] decimal_all_digits [of n]
  by (auto simp: pad_to_def digits_value_zeros digits_value_decimal is_digit_def list_all_iff)

section \<open>The calendar\<close>

lemma div_bounds:
  fixes x k :: int
  assumes "0 < k"
  shows "k * (x div k) \<le> x" "x < k * (x div k) + k"
  using mult_div_mod_eq [of k x] pos_mod_bound [OF assms, of x] pos_mod_sign [OF assms, of x]
  by linarith+

text \<open>The quotient by 365 of a day of the era, the leap days taken out, is its year.\<close>

lemma century_of_day:
  fixes doe q1 k w yoe :: int
  assumes "1460 * q1 \<le> doe" "doe < 1460 * q1 + 1460"
    and "36524 * k \<le> doe" "doe < 36524 * k + 36524" "0 \<le> k" "k \<le> 3"
    and w: "w = doe - q1 + k" and y: "365 * yoe \<le> w" "w < 365 * yoe + 365"
  shows "100 * k \<le> yoe" "yoe < 100 * k + 100"
proof -
  have "36500 * k - 1 < w" using assms(1,3,6) w by linarith
  then have "36500 * k < 365 * yoe + 365" using y(2) by linarith
  then show "100 * k \<le> yoe" by linarith
  have "w < 36500 * k + 36500" using assms(2,4,5) w by linarith
  then have "365 * yoe < 36500 * k + 36500" using y(1) by linarith
  then show "yoe < 100 * k + 100" by linarith
qed

lemma quotient_unique: "k * q \<le> x \<Longrightarrow> x < k * q + k \<Longrightarrow> x div k = (q :: int)" if "0 < k"
  by (rule int_div_pos_eq [of _ _ _ "x - k * q"]) auto

lemma leap_days:
  fixes doe q1 a c w yoe :: int
  assumes q1: "1460 * q1 \<le> doe" "doe < 1460 * q1 + 1460" "0 \<le> q1"
    and w: "w = doe - q1 + c" "365 * yoe \<le> w" "w < 365 * yoe + 365"
    and a: "4 * a \<le> yoe" "yoe < 4 * a + 4" "a \<le> 99"
    and c: "100 * c \<le> yoe" "0 \<le> c"
  shows "a \<le> q1" "q1 \<le> a + 1"
proof -
  have "1459 * q1 \<le> 1460 * a + 1459" using q1(1) w(1,3) a(2) c(2) by linarith
  then show "q1 \<le> a + 1" using a(3) by linarith
  have "1460 * a \<le> 1459 * q1 + 1459 + c" using q1(2) w(1,2) a(1) by linarith
  moreover have "25 * c < a + 1" using c(1) a(2) by linarith
  ultimately show "a \<le> q1" using q1(3) by linarith
qed

lemma year_of_era:
  fixes doe :: int
  assumes "0 \<le> doe" "doe < 146097"
  defines "yoe \<equiv> (doe - doe div 1460 + doe div 36524 - doe div 146096) div 365"
  shows "0 \<le> yoe \<and> yoe \<le> 399 \<and> 365 * yoe + yoe div 4 - yoe div 100 \<le> doe \<and>
    doe - (365 * yoe + yoe div 4 - yoe div 100) \<le> 365"
proof (cases "doe = 146096")
  case True
  then show ?thesis by (simp add: yoe_def)
next
  case False
  then have d: "doe < 146096" using assms(2) by linarith
  define q1 q2 where q: "q1 = doe div 1460" "q2 = doe div 36524"
  have q3: "doe div 146096 = 0" using assms(1) d by simp
  have b1: "1460 * q1 \<le> doe" "doe < 1460 * q1 + 1460"
    and b2: "36524 * q2 \<le> doe" "doe < 36524 * q2 + 36524"
    unfolding q by (rule div_bounds; simp)+
  have n: "0 \<le> q1" "0 \<le> q2" using assms(1) unfolding q by simp_all
  have k: "q2 \<le> 3" using b2(1) d by linarith
  define w where w: "w = doe - q1 + q2"
  have yw: "yoe = w div 365" unfolding yoe_def w q q3 by simp
  have y: "365 * yoe \<le> w" "w < 365 * yoe + 365" unfolding yw by (rule div_bounds; simp)+
  note century = century_of_day [OF b1 b2 n(2) k w y]
  have c: "yoe div 100 = q2" by (rule quotient_unique) (use century in linarith)+
  have y0: "0 \<le> yoe" and y1: "yoe \<le> 399" using century n(2) k by linarith+
  define a where a: "a = yoe div 4"
  have a4: "4 * a \<le> yoe" "yoe < 4 * a + 4" unfolding a by (rule div_bounds; simp)+
  have "a \<le> 99" using a4(1) y1 by linarith
  note fours = leap_days [OF b1 n(1) w y a4 this century(1) n(2)]
  have "365 * yoe + a - q2 \<le> doe" using fours(1) y(1) w by linarith
  moreover have "doe - (365 * yoe + a - q2) \<le> 365" using fours(2) y(2) w by linarith
  ultimately show ?thesis using y0 y1 unfolding c a by simp
qed

text \<open>A month and day of the March-based year lead back to the day of the year.\<close>

lemma month_of_year:
  fixes doy :: int
  assumes "0 \<le> doy" "doy \<le> 365"
  defines "mp \<equiv> (5 * doy + 2) div 153"
  shows "0 \<le> mp \<and> mp \<le> 11 \<and> 0 \<le> doy - (153 * mp + 2) div 5 \<and> doy - (153 * mp + 2) div 5 \<le> 30"
proof -
  have m: "153 * mp \<le> 5 * doy + 2" "5 * doy + 2 < 153 * mp + 153"
    unfolding mp_def by (rule div_bounds; simp)+
  define e where e: "e = (153 * mp + 2) div 5"
  have b: "5 * e \<le> 153 * mp + 2" "153 * mp + 2 < 5 * e + 5"
    unfolding e by (rule div_bounds; simp)+
  have "0 \<le> mp" "mp \<le> 11" using m assms(1,2) by linarith+
  moreover have "0 \<le> doy - e" using m(1) b(1) by linarith
  moreover have "doy - e \<le> 30" using m(2) b(2) by linarith
  ultimately show ?thesis unfolding e by simp
qed

theorem days_from_civil_inverse:
  "(case civil_from_days z of (y, m, d) \<Rightarrow>
      days_from_civil y m d = z \<and> 1 \<le> m \<and> m \<le> 12 \<and> 1 \<le> d \<and> d \<le> 31)"
proof -
  define era doe where e: "era = (z + 719468) div 146097" "doe = (z + 719468) mod 146097"
  define yoe where yoe: "yoe = (doe - doe div 1460 + doe div 36524 - doe div 146096) div 365"
  have "0 \<le> doe" "doe < 146097" unfolding e by simp_all
  note eraY = year_of_era [OF this, folded yoe]
  have y: "0 \<le> yoe" "yoe \<le> 399" "365 * yoe + yoe div 4 - yoe div 100 \<le> doe"
    "doe - (365 * yoe + yoe div 4 - yoe div 100) \<le> 365"
    using eraY by blast+
  define doy where doy: "doy = doe - (365 * yoe + yoe div 4 - yoe div 100)"
  define mp where mp: "mp = (5 * doy + 2) div 153"
  have m: "0 \<le> mp" "mp \<le> 11" "0 \<le> doy - (153 * mp + 2) div 5" "doy - (153 * mp + 2) div 5 \<le> 30"
    using month_of_year [of doy, folded mp] y(3,4) by (simp_all add: doy)
  define day where day: "day = doy - (153 * mp + 2) div 5 + 1"
  define month where month: "month = (if mp < 10 then mp + 3 else mp - 9)"
  have c: "civil_from_days z = (yoe + era * 400 + (if month \<le> 2 then 1 else 0), month, day)"
    unfolding civil_from_days_def Let_def month day mp doy yoe e by (rule refl)
  have mp': "(month + 9) mod 12 = mp"
  proof (cases "mp < 10")
    case True
    have "(mp + 12) mod 12 = mp" using m(1,2) by simp
    then show ?thesis using True unfolding month by simp
  next
    case False
    then show ?thesis using m(2) unfolding month by simp
  qed
  have y': "(yoe + era * 400) mod 400 = yoe" "(yoe + era * 400) div 400 = era" "yoe mod 400 = yoe"
    using y(1,2) by simp_all
  have "days_from_civil (yoe + era * 400 + (if month \<le> 2 then 1 else 0)) month day =
      era * 146097 + doe - 719468"
    unfolding days_from_civil_def Let_def by (simp add: mp' y' day doy split del: if_split)
      (simp add: y' doy)
  also have "\<dots> = z" unfolding e by simp
  finally show ?thesis using m unfolding c month day by (simp split: if_splits)
qed

section \<open>The round trip\<close>

lemma slice_skip: "length p = a \<Longrightarrow> slice (a + b) n (p @ s) = slice b n s"
  by (simp add: slice_def)

lemma slice_here: "length p = n \<Longrightarrow> slice 0 n (p @ s) = p"
  by (simp add: slice_def)

lemma slice_parts:
  assumes "length y = 4" "length mo = 2" "length d = 2" "length h = 2" "length mi = 2"
    "length se = 2" "length ms = 3"
  defines "s \<equiv> y @ [45] @ mo @ [45] @ d @ lit ''T'' @ h @ [58] @ mi @ [58] @ se @ [46] @ ms @ lit ''Z''"
  shows "slice 0 4 s = y" "slice 5 2 s = mo" "slice 8 2 s = d" "slice 11 2 s = h"
    "slice 14 2 s = mi" "slice 17 2 s = se" "slice 20 3 s = ms"
    "slice 4 1 s = [45]" "slice 7 1 s = [45]" "slice 10 1 s = lit ''T''" "slice 13 1 s = [58]"
    "slice 16 1 s = [58]" "slice 19 1 s = [46]" "slice 23 1 s = lit ''Z''" "length s = 24"
  using assms by (simp_all add: slice_def)

lemma two_digits:
  assumes "0 \<le> n" "n < 100"
  shows "length (two n) = 2" "int (digits_value (two n)) = n" "list_all is_digit (two n)"
  using pad_decimal [of "nat n" 2] assms by (simp_all add: two_def nat_less_iff)

lemma dateParse_toISOString:
  assumes "0 \<le> fst (civil_from_days (ms div 86400000))" "fst (civil_from_days (ms div 86400000)) \<le> 9999"
  shows "dateParse (toISOString ms) = Some ms"
proof -
  obtain y m d where ymd: "civil_from_days (ms div 86400000) = (y, m, d)" by (cases "civil_from_days (ms div 86400000)")
  define t where t: "t = ms mod 86400000"
  have z: "days_from_civil y m d = ms div 86400000" "1 \<le> m" "m \<le> 12" "1 \<le> d" "d \<le> 31"
    using days_from_civil_inverse [of "ms div 86400000"] ymd by simp_all
  have tb: "0 \<le> t" "t < 86400000" unfolding t by simp_all
  define h mi se l where p: "h = t div 3600000" "mi = t div 60000 mod 60" "se = t div 1000 mod 60" "l = t mod 1000"
  have hb: "0 \<le> h" "h \<le> 23" using tb unfolding p by simp_all
  have pb: "0 \<le> mi" "mi \<le> 59" "0 \<le> se" "se \<le> 59" "0 \<le> l" "l < 1000"
    unfolding p using pos_mod_bound [of 60] by simp_all
  have sum: "h * 3600000 + mi * 60000 + se * 1000 + l = t"
  proof -
    have "t div 1000 div 60 = t div 60000" "t div 60000 div 60 = h"
      unfolding p by (simp_all add: div_mult2_eq [symmetric] zdiv_zmult2_eq [symmetric])
    then show ?thesis unfolding p
      using mult_div_mod_eq [of 60 "t div 60000"] mult_div_mod_eq [of 60 "t div 1000"]
        mult_div_mod_eq [of 1000 t] unfolding p by linarith
  qed
  note yd = pad_decimal [of "nat y" 4] and ld = pad_decimal [of "nat l" 3]
  define s where s: "s = toISOString ms"
  have sy: "0 \<le> y" "y \<le> 9999" using assms ymd by simp_all
  have len: "length (pad_to 4 (decimal (nat y))) = 4" "length (two m) = 2" "length (two d) = 2"
    "length (two h) = 2" "length (two mi) = 2" "length (two se) = 2"
    "length (pad_to 3 (decimal (nat l))) = 3"
    using sy z hb pb by (simp_all add: pad_decimal two_digits nat_less_iff)
  have s': "s = pad_to 4 (decimal (nat y)) @ [45] @ two m @ [45] @ two d @ lit ''T'' @ two h @ [58] @
      two mi @ [58] @ two se @ [46] @ pad_to 3 (decimal (nat l)) @ lit ''Z''"
    unfolding s toISOString_def ymd p t by (simp add: Let_def)
  note parts = slice_parts [OF len, folded s']
  have val: "field 0 4 s = y" "field 5 2 s = m" "field 8 2 s = d" "field 11 2 s = h"
    "field 14 2 s = mi" "field 17 2 s = se" "field 20 3 s = l"
    using sy z hb pb by (simp_all add: field_def parts pad_decimal two_digits nat_less_iff)
  have "iso_shape s"
    using sy z hb pb by (simp add: iso_shape_def parts pad_decimal two_digits nat_less_iff del: lit_simps One_nat_def)
  then have "dateParse s = Some (days_from_civil y m d * 86400000 + t)"
    using z hb pb unfolding dateParse_def val by (simp add: sum [symmetric])
  then show ?thesis unfolding s z(1) t by simp
qed

end
