(* ===== verification/PhoneRules.thy ===== *)
theory PhoneRules
  imports Door DateText Relay "HOL-Library.AList"
begin

text \<open>
  The bookkeeping rules of a door phone, \<open>src/src/app/door/offline/rules.ts\<close>, and the rows its
  outbox holds (\<open>OutboxItem\<close> of \<open>store.ts\<close>). Times are instants: \<open>DateText\<close> shows that the texts
  on the wire read back as the instants they were written from, and the one place where a
  phone meets a text it cannot read is an \<open>option\<close> (\<open>None\<close> is \<open>NaN\<close>).
\<close>

section \<open>What the phone keeps\<close>

record outbox_item =
  ob_scanId :: uuid
  ob_passId :: uuid
  ob_method :: scan_method
  ob_input :: jstr
  ob_scannedAt :: instant
  ob_verdict :: door_verdict
  ob_supersedesScanId :: "uuid option"
  ob_attempted :: bool
  ob_ticketId :: "uuid option"
  ob_attendeeName :: "jstr option"
  ob_ticketTypeName :: "jstr option"

datatype mark_source = FromOwn | FromServer | FromRelay

record mark =
  mk_at :: instant
  mk_gate :: jstr
  mk_byThisPhone :: bool
  mk_knownSince :: "instant option"
  mk_source :: mark_source

text \<open>A JavaScript \<open>Map\<close> from ticket ids: an association list in insertion order.\<close>

type_synonym marks = "(uuid \<times> mark) list"

record relay_row =
  rr_ticketId :: uuid
  rr_at :: "instant option"
  rr_gate :: "jstr option"
  rr_confirmed :: bool
  rr_seq :: int

datatype own_mark = OwnIn uuid instant | OwnUndo uuid

section \<open>The rules\<close>

definition MARK_GRACE_MS :: int where "MARK_GRACE_MS = 15000"
definition SAME_CHECK_IN_MS :: int where "SAME_CHECK_IN_MS = 1000"
definition PHONE_UNDO_SLACK_MS :: int where "PHONE_UNDO_SLACK_MS = 5000"

definition listCovers :: "instant option \<Rightarrow> instant option \<Rightarrow> bool" where
  "listCovers knownSince listAsOf =
    (case (knownSince, listAsOf) of
       (Some k, Some l) \<Rightarrow> k + MARK_GRACE_MS < l
     | _ \<Rightarrow> False)"

datatype offline_undo = UndoDone | UndoSent | UndoNotFound

definition localUndo :: "outbox_item option \<Rightarrow> instant \<Rightarrow> bool \<Rightarrow> offline_undo" where
  "localUndo item now inFlight =
    (case item of
       None \<Rightarrow> UndoNotFound
     | Some i \<Rightarrow>
         if ob_verdict i \<noteq> VAdmitted then UndoNotFound
         else if ob_attempted i \<or> inFlight then UndoSent
         else if now - ob_scannedAt i > DOOR_UNDO_WINDOW_MS then UndoNotFound
         else UndoDone)"

definition markFromRelay :: "mark option \<Rightarrow> relay_row \<Rightarrow> instant \<Rightarrow> mark option" where
  "markFromRelay existing row now =
    (case rr_at row of
       None \<Rightarrow> None
     | Some at \<Rightarrow>
         (case existing of
            None \<Rightarrow>
              Some \<lparr>mk_at = at, mk_gate = or_default (rr_gate row) (lit ''?''), mk_byThisPhone = False,
                mk_knownSince = (if rr_confirmed row then Some now else None),
                mk_source = FromRelay\<rparr>
          | Some m \<Rightarrow>
              if mk_source m = FromRelay \<and> (mk_knownSince m = None \<or> rr_confirmed row)
              then Some (m\<lparr>mk_at := at, mk_gate := or_default (rr_gate row) (mk_gate m),
                mk_knownSince := (if rr_confirmed row
                  then Some (or_default (mk_knownSince m) now) else None)\<rparr>)
              else None))"

definition relayUndoRemoves :: "mark option \<Rightarrow> remover \<Rightarrow> instant option \<Rightarrow> bool" where
  "relayUndoRemoves mark by undoAt =
    (case mark of
       None \<Rightarrow> False
     | Some m \<Rightarrow>
         if mk_source m = FromOwn \<and> mk_knownSince m = None then False
         else let unconfirmedClaim = (mk_source m = FromRelay \<and> mk_knownSince m = None)
           in if by = ByGate then unconfirmedClaim
              else case undoAt of
                  None \<Rightarrow> False
                | Some at \<Rightarrow>
                    if unconfirmedClaim then mk_at m \<le> at + PHONE_UNDO_SLACK_MS
                    else \<bar>mk_at m - at\<bar> < SAME_CHECK_IN_MS)"

definition unconfirmedOwnClaims :: "marks \<Rightarrow> outbox_item list \<Rightarrow> own_mark list" where
  "unconfirmedOwnClaims ms outbox =
    map (\<lambda>(i, m). OwnIn i (mk_at m))
      (filter (\<lambda>(i, m). mk_source m = FromOwn \<and> mk_knownSince m = None) ms) @
    List.map_filter
      (\<lambda>x. case ob_ticketId x of
           Some i \<Rightarrow> if ob_verdict x = VUndone \<and> map_of ms i = None then Some (OwnUndo i) else None
         | None \<Rightarrow> None)
      outbox"

section \<open>Facts\<close>

text \<open>A mark of this phone that the server has not had.\<close>

definition unsent_own :: "mark option \<Rightarrow> bool" where
  "unsent_own m \<longleftrightarrow> (case m of None \<Rightarrow> False | Some x \<Rightarrow> mk_source x = FromOwn \<and> mk_knownSince x = None)"

lemma unsent_own_simps [simp]:
  "\<not> unsent_own None"
  "unsent_own (Some x) \<longleftrightarrow> mk_source x = FromOwn \<and> mk_knownSince x = None"
  by (simp_all add: unsent_own_def)

lemma listCovers_None [simp]: "\<not> listCovers None l"
  by (simp add: listCovers_def)

lemma markFromRelay_own [simp]: "unsent_own m \<Longrightarrow> markFromRelay m row now = None"
  by (cases m) (auto simp: markFromRelay_def split: option.splits)

lemma markFromRelay_known: "markFromRelay (Some m) row now = Some m' \<Longrightarrow> mk_source m' = FromRelay"
  by (auto simp: markFromRelay_def split: option.splits if_splits)

lemma markFromRelay_new: "markFromRelay None row now = None \<longleftrightarrow> rr_at row = None"
  by (auto simp: markFromRelay_def split: option.splits)

lemma relayUndoRemoves_own [simp]: "unsent_own m \<Longrightarrow> \<not> relayUndoRemoves m by at"
  by (cases m) (auto simp: relayUndoRemoves_def)

lemma relayUndoRemoves_gate:
  "relayUndoRemoves (Some m) ByGate at \<longleftrightarrow> mk_source m = FromRelay \<and> mk_knownSince m = None"
  by (auto simp: relayUndoRemoves_def Let_def)

lemma localUndo_done:
  "localUndo item now inFlight = UndoDone \<longleftrightarrow>
    (\<exists>i. item = Some i \<and> ob_verdict i = VAdmitted \<and> \<not> ob_attempted i \<and> \<not> inFlight \<and>
      now - ob_scannedAt i \<le> DOOR_UNDO_WINDOW_MS)"
  by (auto simp: localUndo_def split: option.splits)

end
