(* ===== verification/DoorPhone.thy ===== *)
theory DoorPhone
  imports PhoneRules
begin

text \<open>
  The door phone of \<open>src/src/app/door/offline/use-offline.ts\<close> over the store of \<open>store.ts\<close>: the
  saved ticket list, the "already in" marks, the outbox of scans answered without signal and
  its sending.

  Each operation is the synchronous step the code runs between two awaits. An operation that
  looks a code up awaits the digest: \<open>l\<close> is then the list it captured before, and the phone it
  works on is the one it finds after. \<open>now\<close> is the phone's clock corrected by the list's offset,
  in whole milliseconds, \<open>scanId\<close> the \<open>crypto.randomUUID()\<close> drawn. What the phone tells the
  relay (\<open>onOwnMark\<close>) is the first component of a result. Writes to the store are queued and
  land in order; the screen's snapshot and messages are not modelled.
\<close>

section \<open>The phone\<close>

datatype store_write =
    PutItem outbox_item
  | RemoveItems "uuid list"
  | SaveList offline_list
  | ClearAll

text \<open>\<open>sendOutbox\<close>: not running, waiting for its writes, or waiting for the server's answer.\<close>

datatype send_state = Idle | Writing "outbox_item list" | Asking "outbox_item list"

record phone =
  ph_list :: "offline_list option"
  ph_marks :: marks
  ph_outbox :: "outbox_item list"
  ph_inFlight :: "uuid list"
  ph_send :: send_state
  ph_kept :: "outbox_item list"
  ph_keptList :: "offline_list option"
  ph_writes :: "store_write list"
  ph_sent :: "scan_item list"

definition SYNC_BATCH :: nat where "SYNC_BATCH = 50"
definition SEARCH_LIMIT :: nat where "SEARCH_LIMIT = 10"

definition new_phone :: phone where
  "new_phone = \<lparr>ph_list = None, ph_marks = [], ph_outbox = [], ph_inFlight = [], ph_send = Idle,
    ph_kept = [], ph_keptList = None, ph_writes = [], ph_sent = []\<rparr>"

definition mark_of :: "phone \<Rightarrow> uuid \<Rightarrow> mark option" where
  "mark_of p i = map_of (ph_marks p) i"

definition set_mark :: "uuid \<Rightarrow> mark \<Rightarrow> phone \<Rightarrow> phone" where
  "set_mark i m p = p\<lparr>ph_marks := AList.update i m (ph_marks p)\<rparr>"

definition delete_mark :: "uuid \<Rightarrow> phone \<Rightarrow> phone" where
  "delete_mark i p = p\<lparr>ph_marks := AList.delete i (ph_marks p)\<rparr>"

definition queue_write :: "store_write \<Rightarrow> phone \<Rightarrow> phone" where
  "queue_write w p = p\<lparr>ph_writes := ph_writes p @ [w]\<rparr>"

text \<open>\<open>{ at, gate, byThisPhone: true, knownSince: null, source: 'own' }\<close>\<close>

definition own_admit :: "jstr \<Rightarrow> instant \<Rightarrow> mark" where
  "own_admit gate at = \<lparr>mk_at = at, mk_gate = gate, mk_byThisPhone = True, mk_knownSince = None,
    mk_source = FromOwn\<rparr>"

section \<open>The list\<close>

text \<open>\<open>new Map(entries.map((e) => [e.d, e]))\<close>: of two entries with one digest the later wins.\<close>

definition list_index :: "offline_list \<Rightarrow> jstr \<Rightarrow> offline_entry option" where
  "list_index l d = map_of (rev (map (\<lambda>e. (le_d e, e)) (ol_entries l))) d"

definition adopt :: "jstr \<Rightarrow> offline_list \<Rightarrow> phone \<Rightarrow> phone" where
  "adopt gate stored p =
    (let since = dateParse (ol_serverTime stored);
         kept = filter (\<lambda>(i, m). \<not> listCovers (mk_knownSince m) since) (ph_marks p)
     in foldl (\<lambda>p item.
            case ob_ticketId item of
              Some i \<Rightarrow> if ob_verdict item = VAdmitted
                then set_mark i (own_admit gate (ob_scannedAt item)) p else p
            | None \<Rightarrow> p)
          (p\<lparr>ph_list := Some stored, ph_marks := kept\<rparr>) (ph_outbox p))"

text \<open>\<open>refreshList\<close> once the list arrived.\<close>

definition refreshList :: "jstr \<Rightarrow> offline_list \<Rightarrow> phone \<Rightarrow> phone" where
  "refreshList gate data p = queue_write (SaveList data) (adopt gate data p)"

definition findEntry ::
  "(jstr \<Rightarrow> jstr) \<Rightarrow> offline_list option \<Rightarrow> jstr \<Rightarrow> offline_entry option" where
  "findEntry sha l raw =
    (case (l, parseScanToken raw) of
       (Some current, Some code) \<Rightarrow> list_index current (offlineDigest sha (ol_salt current) code)
     | _ \<Rightarrow> None)"

definition past :: "instant \<Rightarrow> jstr \<Rightarrow> bool" where
  "past at t = (case dateParse t of Some u \<Rightarrow> at > u | None \<Rightarrow> False)"

section \<open>Answering\<close>

record phone_answer =
  pa_scanId :: "uuid option"
  pa_result :: offline_result
  pa_practice :: bool
  pa_entry :: "offline_entry option"
  pa_at :: "jstr option"
  pa_gate :: "jstr option"
  pa_byThisPass :: "bool option"
  pa_secondsAgo :: "int option"

definition loggableInput :: "jstr \<Rightarrow> jstr" where
  "loggableInput raw =
    (let trimmed = take SCAN_INPUT_MAX (trim raw)
     in case parseScanToken trimmed of
          Some c \<Rightarrow> c
        | None \<Rightarrow> replicate (max 1 (length trimmed)) 35)"

text \<open>The list's judgement of one read, over the marks the phone has.\<close>

definition judge ::
  "offline_list \<Rightarrow> offline_entry option \<Rightarrow> instant \<Rightarrow> phone \<Rightarrow> offline_judgement" where
  "judge l entry at p =
    judgeOffline entry
      (case Option.bind entry (\<lambda>e. mark_of p (le_id e)) of
         None \<Rightarrow> None
       | Some m \<Rightarrow> Some \<lparr>la_at = toISOString (mk_at m), la_gate = mk_gate m,
           la_byThisPhone = mk_byThisPhone m\<rparr>)
      at (or_default (dateParse (ol_validFrom l)) at)"

definition phone_reply ::
  "jstr \<Rightarrow> uuid option \<Rightarrow> offline_entry option \<Rightarrow> instant \<Rightarrow> offline_judgement \<Rightarrow> phone_answer" where
  "phone_reply gate scanId entry at j =
    (let admitted = (oj_result j = OffAdmitted)
     in \<lparr>pa_scanId = scanId, pa_result = oj_result j, pa_practice = oj_practice j, pa_entry = entry,
         pa_at = (case oj_at j of Some t \<Rightarrow> Some t
           | None \<Rightarrow> if admitted then Some (toISOString at) else None),
         pa_gate = (case oj_gate j of Some g \<Rightarrow> Some g
           | None \<Rightarrow> if admitted then Some gate else None),
         pa_byThisPass = oj_byThisPhone j,
         pa_secondsAgo = None\<rparr>)"

definition outbox_of ::
  "uuid \<Rightarrow> uuid \<Rightarrow> scan_method \<Rightarrow> jstr \<Rightarrow> instant \<Rightarrow> door_verdict \<Rightarrow> uuid option
    \<Rightarrow> offline_entry option \<Rightarrow> outbox_item" where
  "outbox_of scanId passId by_method raw at verdict supersedes entry =
    \<lparr>ob_scanId = scanId, ob_passId = passId, ob_method = by_method, ob_input = loggableInput raw,
     ob_scannedAt = at, ob_verdict = verdict, ob_supersedesScanId = supersedes,
     ob_attempted = False, ob_ticketId = map_option le_id entry,
     ob_attendeeName = map_option le_name entry, ob_ticketTypeName = map_option le_type entry\<rparr>"

text \<open>\<open>outbox.current = [...outbox.current, item]; store.putOutbox(item)\<close>\<close>

definition push_item :: "outbox_item \<Rightarrow> phone \<Rightarrow> phone" where
  "push_item item p = queue_write (PutItem item) (p\<lparr>ph_outbox := ph_outbox p @ [item]\<rparr>)"

definition phone_scan ::
  "(jstr \<Rightarrow> jstr) \<Rightarrow> jstr \<Rightarrow> uuid \<Rightarrow> offline_list option \<Rightarrow> instant \<Rightarrow> jstr \<Rightarrow> scan_method
    \<Rightarrow> uuid option \<Rightarrow> uuid \<Rightarrow> phone \<Rightarrow> phone_answer option \<times> own_mark list \<times> phone" where
  "phone_scan sha gate passId l at raw by_method supersedes scanId p =
    (case l of
       None \<Rightarrow> (None, [], p)
     | Some current \<Rightarrow>
         if past at (ol_validUntil current) then (None, [], p)
         else
           (let entry = findEntry sha l raw;
                j = judge current entry at p;
                item = outbox_of scanId passId by_method raw at (oj_verdict j) supersedes entry;
                marked = (case entry of
                    Some e \<Rightarrow> if oj_verdict j = VAdmitted
                      then ([OwnIn (le_id e) at], set_mark (le_id e) (own_admit gate at) p)
                      else ([], p)
                  | None \<Rightarrow> ([], p));
                answer = phone_reply gate (Some scanId) entry at j
            in (Some (answer\<lparr>pa_secondsAgo :=
                  (if falsy (oj_at j) then None
                   else map_option (\<lambda>t. whole_seconds (at - t)) (Option.bind (oj_at j) dateParse))\<rparr>),
                fst marked, push_item item (snd marked))))"

definition peek ::
  "(jstr \<Rightarrow> jstr) \<Rightarrow> jstr \<Rightarrow> offline_list option \<Rightarrow> instant \<Rightarrow> jstr \<Rightarrow> phone
    \<Rightarrow> (phone_answer \<times> uuid option) option" where
  "peek sha gate l at raw p =
    (case l of
       None \<Rightarrow> None
     | Some current \<Rightarrow>
         if past at (ol_validUntil current) then None
         else (let entry = findEntry sha l raw
           in Some (phone_reply gate None entry at (judge current entry at p),
                map_option le_id entry)))"

section \<open>Learning\<close>

text \<open>
  \<open>learn\<close>: an online answer's check-in. \<open>read\<close> is the ticket's id or the text read; \<open>l\<close> is
  the list when the answer came, \<open>p\<close> the phone once the code was looked up.
\<close>

definition learn ::
  "(jstr \<Rightarrow> jstr) \<Rightarrow> jstr \<Rightarrow> offline_list option \<Rightarrow> instant \<Rightarrow> uuid option \<Rightarrow> jstr option
    \<Rightarrow> scan_answer \<Rightarrow> phone \<Rightarrow> own_mark list \<times> phone" where
  "learn sha gate l now ticketId raw result p =
    (if l = None then ([], p)
     else if an_result result \<noteq> Logged ScanAdmitted \<and> an_result result \<noteq> Logged ScanAlreadyIn
     then ([], p)
     else case (case ticketId of
         Some i \<Rightarrow> Some i
       | None \<Rightarrow> if falsy raw then None
           else map_option le_id (findEntry sha l (or_default raw []))) of
         None \<Rightarrow> ([], p)
       | Some i \<Rightarrow>
           if (case mark_of p i of Some m \<Rightarrow> mk_source m \<noteq> FromRelay | None \<Rightarrow> False) then ([], p)
           else (let own = (an_result result = Logged ScanAdmitted \<or> an_byThisPass result = Some True);
                     at = or_default (an_at result) now
             in (if an_result result = Logged ScanAdmitted then [OwnIn i at] else [],
                 set_mark i \<lparr>mk_at = at, mk_gate = or_default (an_gate result) gate,
                   mk_byThisPhone = own, mk_knownSince = Some now,
                   mk_source = (if own then FromOwn else FromServer)\<rparr> p)))"

definition admitEarly :: "jstr \<Rightarrow> instant \<Rightarrow> uuid \<Rightarrow> phone \<Rightarrow> own_mark list \<times> phone" where
  "admitEarly gate now i p = ([OwnIn i now], set_mark i (own_admit gate now) p)"

definition settleEarly ::
  "jstr \<Rightarrow> instant \<Rightarrow> uuid \<Rightarrow> scan_answer \<Rightarrow> phone \<Rightarrow> own_mark list \<times> phone" where
  "settleEarly gate now i result p =
    (if an_result result = Logged ScanAdmitted
     then ([], case mark_of p i of
         Some m \<Rightarrow> set_mark i (m\<lparr>mk_knownSince := Some now,
           mk_at := or_default (an_at result) (mk_at m)\<rparr>) p
       | None \<Rightarrow> p)
     else if an_result result = Logged ScanAlreadyIn
     then ([], set_mark i \<lparr>mk_at = or_default (an_at result) now,
         mk_gate = or_default (an_gate result) gate,
         mk_byThisPhone = (an_byThisPass result = Some True), mk_knownSince = Some now,
         mk_source = FromServer\<rparr> p)
     else ([OwnUndo i], delete_mark i p))"

definition queueEarlyAdmit ::
  "(jstr \<Rightarrow> jstr) \<Rightarrow> uuid \<Rightarrow> offline_list option \<Rightarrow> instant \<Rightarrow> jstr \<Rightarrow> scan_method \<Rightarrow> uuid
    \<Rightarrow> uuid \<Rightarrow> phone \<Rightarrow> phone" where
  "queueEarlyAdmit sha passId l now raw by_method supersedes scanId p =
    push_item (outbox_of scanId passId by_method raw now VAdmitted (Some supersedes)
      (findEntry sha l raw)) p"

definition on_list :: "phone \<Rightarrow> uuid \<Rightarrow> bool" where
  "on_list p i \<longleftrightarrow> (case ph_list p of None \<Rightarrow> False | Some l \<Rightarrow> i \<in> set (map le_id (ol_entries l)))"

record wire_check_in =
  wc_ticketId :: uuid
  wc_at :: instant
  wc_gate :: "jstr option"

definition learnCheckIns :: "jstr \<Rightarrow> instant \<Rightarrow> wire_check_in list \<Rightarrow> phone \<Rightarrow> phone" where
  "learnCheckIns gate now rows p =
    foldl (\<lambda>p row.
        if \<not> on_list p (wc_ticketId row) then p
        else if (case mark_of p (wc_ticketId row) of Some m \<Rightarrow> mk_source m \<noteq> FromRelay | None \<Rightarrow> False)
        then p
        else set_mark (wc_ticketId row) \<lparr>mk_at = wc_at row, mk_gate = or_default (wc_gate row) (lit ''?''),
          mk_byThisPhone = (wc_gate row = Some gate), mk_knownSince = Some now,
          mk_source = FromServer\<rparr> p)
      p rows"

definition learnRelayRow :: "instant \<Rightarrow> relay_row \<Rightarrow> phone \<Rightarrow> phone" where
  "learnRelayRow now row p =
    (if \<not> on_list p (rr_ticketId row) then p
     else case markFromRelay (mark_of p (rr_ticketId row)) row now of
         Some m \<Rightarrow> set_mark (rr_ticketId row) m p
       | None \<Rightarrow> p)"

definition learnRelayRows :: "instant \<Rightarrow> relay_row list \<Rightarrow> phone \<Rightarrow> phone" where
  "learnRelayRows now rows p = foldl (\<lambda>p row. learnRelayRow now row p) p rows"

definition learnRelayUndo ::
  "uuid \<Rightarrow> remover \<Rightarrow> instant option \<Rightarrow> phone \<Rightarrow> own_mark list \<times> phone" where
  "learnRelayUndo i by at p =
    (if relayUndoRemoves (mark_of p i) by at then ([], delete_mark i p)
     else case mark_of p i of
         Some m \<Rightarrow> if mk_source m = FromOwn \<and> mk_knownSince m = None then ([OwnIn i (mk_at m)], p)
           else ([], p)
       | None \<Rightarrow> ([], p))"

definition ownClaims :: "phone \<Rightarrow> own_mark list" where
  "ownClaims p = unconfirmedOwnClaims (ph_marks p) (ph_outbox p)"

section \<open>Undo, search, the end of the session\<close>

definition outbox_item_of :: "uuid \<Rightarrow> phone \<Rightarrow> outbox_item option" where
  "outbox_item_of scanId p = row_by ob_scanId scanId (ph_outbox p)"

definition phone_undo :: "instant \<Rightarrow> uuid \<Rightarrow> phone \<Rightarrow> offline_undo \<times> own_mark list \<times> phone" where
  "phone_undo now scanId p =
    (let item = outbox_item_of scanId p;
         outcome = localUndo item now (scanId \<in> set (ph_inFlight p))
     in case item of
          None \<Rightarrow> (outcome, [], p)
        | Some x \<Rightarrow>
            if outcome \<noteq> UndoDone then (outcome, [], p)
            else
              (let undone = x\<lparr>ob_verdict := VUndone\<rparr>;
                   p1 = p\<lparr>ph_outbox := map (\<lambda>i. if ob_scanId i = scanId then undone else i) (ph_outbox p)\<rparr>;
                   p2 = (case ob_ticketId x of Some i \<Rightarrow> delete_mark i p1 | None \<Rightarrow> p1)
               in (UndoDone, (case ob_ticketId x of Some i \<Rightarrow> [OwnUndo i] | None \<Rightarrow> []),
                   queue_write (PutItem undone) p2)))"

record phone_search_row =
  ps_ticketId :: uuid
  ps_attendeeName :: jstr
  ps_ticketTypeName :: jstr
  ps_status :: ticket_status
  ps_checkedInAt :: "jstr option"
  ps_checkedInBy :: "jstr option"
  ps_phoneOnFile :: bool

definition phone_search ::
  "(jstr \<Rightarrow> jstr) \<Rightarrow> (jstr \<Rightarrow> nat) \<Rightarrow> (jstr \<Rightarrow> jstr) \<Rightarrow> offline_list option \<Rightarrow> jstr \<Rightarrow> phone
    \<Rightarrow> phone_search_row list option" where
  "phone_search sha rank fold_case l term p =
    (case l of
       None \<Rightarrow> None
     | Some current \<Rightarrow>
         (let t = fold_case (trim term)
          in if length t < 2 then Some []
             else
               (let byCode = findEntry sha l term;
                    hits = filter (\<lambda>e. includes_text (fold_case (le_name e)) t \<or>
                      (case byCode of Some b \<Rightarrow> le_id e = le_id b | None \<Rightarrow> False)) (ol_entries current)
                in Some (map (\<lambda>e. let m = mark_of p (le_id e) in
                     \<lparr>ps_ticketId = le_id e, ps_attendeeName = le_name e, ps_ticketTypeName = le_type e,
                      ps_status = le_status e,
                      ps_checkedInAt = (case m of Some x \<Rightarrow> Some (toISOString (mk_at x)) | None \<Rightarrow> le_inAt e),
                      ps_checkedInBy = (case m of Some x \<Rightarrow> Some (mk_gate x) | None \<Rightarrow> le_inBy e),
                      ps_phoneOnFile = False\<rparr>)
                   (take SEARCH_LIMIT (sort_key (\<lambda>e. rank (le_name e)) (sort_key le_pos hits)))))))"

definition phone_clear :: "phone \<Rightarrow> nat \<times> phone" where
  "phone_clear p =
    (length (ph_outbox p),
     queue_write ClearAll (p\<lparr>ph_outbox := [], ph_list := None, ph_marks := []\<rparr>))"

section \<open>Sending the outbox\<close>

definition attempt :: "outbox_item \<Rightarrow> outbox_item" where
  "attempt item = (if ob_attempted item then item else item\<lparr>ob_attempted := True\<rparr>)"

text \<open>The message \<open>SyncScan\<close> one item is sent as, in the server's terms.\<close>

definition message :: "outbox_item \<Rightarrow> scan_item" where
  "message item =
    \<lparr>it_scanId = ob_scanId item, it_input = Some (ob_input item), it_ticketId = None,
     it_phoneLast3 = None, it_method = ob_method item, it_scannedAt = Some (ob_scannedAt item),
     it_offline = Some \<lparr>os_verdict = ob_verdict item, os_supersedesScanId = ob_supersedesScanId item\<rparr>\<rparr>"

text \<open>One round: the batch taken, marked, put in flight and written, in one synchronous step.\<close>

definition send_begin :: "phone \<Rightarrow> phone" where
  "send_begin p =
    (let batch = map attempt (take SYNC_BATCH (ph_outbox p))
     in p\<lparr>ph_outbox := map (\<lambda>i. or_default (row_by ob_scanId (ob_scanId i) (rev batch)) i) (ph_outbox p),
          ph_inFlight := ph_inFlight p @ map ob_scanId batch,
          ph_send := Writing batch,
          ph_writes := ph_writes p @ map PutItem batch\<rparr>)"

text \<open>The request, once the batch's writes landed.\<close>

definition send_go :: "phone \<Rightarrow> phone" where
  "send_go p =
    (case ph_send p of
       Writing batch \<Rightarrow> p\<lparr>ph_send := Asking batch, ph_sent := ph_sent p @ map message batch\<rparr>
     | _ \<Rightarrow> p)"

datatype sync_reply = SyncOk | SyncRefused | SyncFailed

definition confirm_marks :: "instant \<Rightarrow> outbox_item list \<Rightarrow> phone \<Rightarrow> phone" where
  "confirm_marks known batch p =
    foldl (\<lambda>p item.
        case Option.bind (ob_ticketId item) (\<lambda>i. map_option (Pair i) (mark_of p i)) of
          Some (i, m) \<Rightarrow> if mk_knownSince m = None
            then set_mark i (m\<lparr>mk_knownSince := Some known\<rparr>) p else p
        | None \<Rightarrow> p)
      p batch"

definition send_reply :: "instant \<Rightarrow> sync_reply \<Rightarrow> phone \<Rightarrow> phone" where
  "send_reply now reply p =
    (case ph_send p of
       Asking batch \<Rightarrow>
         (let ids = map ob_scanId batch;
              p1 = p\<lparr>ph_inFlight := filter (\<lambda>i. i \<notin> set ids) (ph_inFlight p), ph_send := Idle\<rparr>;
              p2 = (if reply = SyncOk then confirm_marks now batch p1 else p1)
          in if reply = SyncFailed then p1
             else queue_write (RemoveItems ids)
               (p2\<lparr>ph_outbox := filter (\<lambda>i. ob_scanId i \<notin> set ids) (ph_outbox p2)\<rparr>))
     | _ \<Rightarrow> p)"

section \<open>The store\<close>

fun store_write_to :: "store_write \<Rightarrow> outbox_item list \<times> offline_list option
    \<Rightarrow> outbox_item list \<times> offline_list option" where
  "store_write_to (PutItem x) (items, l) =
    (if ob_scanId x \<in> ob_scanId ` set items
     then map (\<lambda>i. if ob_scanId i = ob_scanId x then x else i) items else items @ [x], l)"
| "store_write_to (RemoveItems ids) (items, l) = (filter (\<lambda>i. ob_scanId i \<notin> set ids) items, l)"
| "store_write_to (SaveList v) (items, l) = (items, Some v)"
| "store_write_to ClearAll (items, l) = ([], None)"

text \<open>The oldest queued write lands.\<close>

definition write_lands :: "phone \<Rightarrow> phone" where
  "write_lands p =
    (case ph_writes p of
       [] \<Rightarrow> p
     | w # ws \<Rightarrow>
         (let r = store_write_to w (ph_kept p, ph_keptList p)
          in p\<lparr>ph_kept := fst r, ph_keptList := snd r, ph_writes := ws\<rparr>))"

text \<open>\<open>getAll\<close> in key order, then oldest scan first.\<close>

definition loadOutbox :: "phone \<Rightarrow> outbox_item list" where
  "loadOutbox p = sort_key ob_scannedAt (sort_key ob_scanId (ph_kept p))"

text \<open>
  The page opens again (writes still queued when it closed are lost): this pass's scans come
  back, another's are removed, and a list that is still usable is adopted.
\<close>

definition reload :: "jstr \<Rightarrow> uuid \<Rightarrow> instant \<Rightarrow> phone \<Rightarrow> phone" where
  "reload gate passId now p =
    (let queued = loadOutbox p;
         mine = filter (\<lambda>i. ob_passId i = passId) queued;
         theirs = filter (\<lambda>i. ob_passId i \<noteq> passId) queued;
         p1 = p\<lparr>ph_list := None, ph_marks := [], ph_outbox := mine, ph_inFlight := [], ph_send := Idle,
           ph_writes := (if theirs = [] then [] else [RemoveItems (map ob_scanId theirs)])\<rparr>
     in case ph_keptList p of
          Some l \<Rightarrow>
            if ol_v l = OFFLINE_LIST_VERSION \<and> ol_passId l = passId \<and>
               (case dateParse (ol_validUntil l) of Some u \<Rightarrow> u > now | None \<Rightarrow> False)
            then adopt gate l p1 else p1
        | None \<Rightarrow> p1)"

end
