(* ===== verification/PhoneLaws.thy ===== *)
theory PhoneLaws
  imports DoorPhone
begin

text \<open>
  The door phone as a step relation over every operation, in any interleaving with the store's
  writes, the answers to its sends and reopening the page, and the invariant that keeps what
  was sent from changing.
\<close>

section \<open>Steps\<close>

definition batch_of :: "phone \<Rightarrow> outbox_item list" where
  "batch_of p = (case ph_send p of Idle \<Rightarrow> [] | Writing b \<Rightarrow> b | Asking b \<Rightarrow> b)"

text \<open>Every copy of an outbox item the phone holds: in memory, stored, queued and being sent.\<close>

definition copies :: "phone \<Rightarrow> outbox_item set" where
  "copies p = set (ph_outbox p) \<union> set (ph_kept p) \<union> {x. PutItem x \<in> set (ph_writes p)} \<union>
    set (batch_of p)"

text \<open>A fresh random id is one the phone holds nowhere and never sent.\<close>

definition fresh_scan_id :: "uuid \<Rightarrow> phone \<Rightarrow> bool" where
  "fresh_scan_id i p \<longleftrightarrow> i \<notin> ob_scanId ` copies p \<and> i \<notin> it_scanId ` set (ph_sent p)"

inductive phone_step :: "phone \<Rightarrow> phone \<Rightarrow> bool" where
  step_scan: "fresh_scan_id i p \<Longrightarrow>
    phone_step p (snd (snd (phone_scan sha gate passId l at raw by_method supersedes i p)))"
| step_queueEarly: "fresh_scan_id i p \<Longrightarrow>
    phone_step p (queueEarlyAdmit sha passId l now raw by_method supersedes i p)"
| step_list: "phone_step p (refreshList gate data p)"
| step_learn: "phone_step p (snd (learn sha gate l now ticketId raw' result p))"
| step_admitEarly: "phone_step p (snd (admitEarly gate now t p))"
| step_settleEarly: "phone_step p (snd (settleEarly gate now t result p))"
| step_checkIns: "phone_step p (learnCheckIns gate now rows p)"
| step_relayRows: "phone_step p (learnRelayRows now relay_rows p)"
| step_relayUndo: "phone_step p (snd (learnRelayUndo t by at' p))"
| step_undo: "phone_step p (snd (snd (phone_undo now scanId p)))"
| step_clear: "phone_step p (snd (phone_clear p))"
| step_begin: "ph_send p = Idle \<Longrightarrow> ph_outbox p \<noteq> [] \<Longrightarrow> phone_step p (send_begin p)"
| step_go: "ph_send p = Writing batch \<Longrightarrow> \<forall>x \<in> set batch. PutItem x \<notin> set (ph_writes p) \<Longrightarrow>
    phone_step p (send_go p)"
| step_reply: "phone_step p (send_reply now reply p)"
| step_write: "phone_step p (write_lands p)"
| step_reload: "phone_step p (reload gate passId now p)"

definition phone_run :: "phone \<Rightarrow> phone \<Rightarrow> bool" where
  "phone_run = phone_step\<^sup>*\<^sup>*"

section \<open>The invariant\<close>

text \<open>In the queued writes, an older copy of the item is always followed by this one.\<close>

fun settles :: "outbox_item \<Rightarrow> store_write list \<Rightarrow> bool" where
  "settles b [] \<longleftrightarrow> True"
| "settles b (PutItem y # ws) \<longleftrightarrow>
    (ob_scanId y = ob_scanId b \<longrightarrow> y = b \<or> PutItem b \<in> set ws) \<and> settles b ws"
| "settles b (_ # ws) \<longleftrightarrow> settles b ws"

definition writing_ok :: "phone \<Rightarrow> bool" where
  "writing_ok p \<longleftrightarrow> (\<forall>b \<in> set (batch_of p).
     ob_attempted b \<and>
     (\<forall>x \<in> set (ph_outbox p) \<union> set (batch_of p). ob_scanId x = ob_scanId b \<longrightarrow> x = b) \<and>
     (\<forall>x \<in> set (ph_kept p). ob_scanId x = ob_scanId b \<longrightarrow> x = b \<or> PutItem b \<in> set (ph_writes p)) \<and>
     settles b (ph_writes p))"

definition sent_ok :: "phone \<Rightarrow> bool" where
  "sent_ok p \<longleftrightarrow> (\<forall>m \<in> set (ph_sent p).
     (\<forall>x \<in> copies p. ob_scanId x = it_scanId m \<longrightarrow> ob_attempted x \<and> message x = m) \<and>
     (\<forall>m' \<in> set (ph_sent p). it_scanId m' = it_scanId m \<longrightarrow> m' = m))"

text \<open>What the store will hold once its queued writes landed.\<close>

definition stored_items :: "phone \<Rightarrow> outbox_item list" where
  "stored_items p = fst (foldl (\<lambda>r w. store_write_to w r) (ph_kept p, ph_keptList p) (ph_writes p))"

definition phone_ok :: "phone \<Rightarrow> bool" where
  "phone_ok p \<longleftrightarrow> distinct (map ob_scanId (ph_outbox p)) \<and> distinct (map ob_scanId (ph_kept p)) \<and>
    writing_ok p \<and> sent_ok p \<and> set (stored_items p) = set (ph_outbox p)"

section \<open>Steps that leave the outbox and the store alone\<close>

definition same_outbox :: "phone \<Rightarrow> phone \<Rightarrow> bool" where
  "same_outbox p q \<longleftrightarrow> ph_outbox q = ph_outbox p \<and> ph_inFlight q = ph_inFlight p \<and>
    ph_send q = ph_send p \<and> ph_kept q = ph_kept p \<and> ph_keptList q = ph_keptList p \<and>
    ph_writes q = ph_writes p \<and> ph_sent q = ph_sent p"

lemma same_outbox_refl [simp]: "same_outbox p p"
  by (simp add: same_outbox_def)

lemma same_outbox_trans: "same_outbox p q \<Longrightarrow> same_outbox q r \<Longrightarrow> same_outbox p r"
  by (simp add: same_outbox_def)

lemma same_outbox_marks [simp]:
  "same_outbox p (set_mark i m q) = same_outbox p q"
  "same_outbox p (delete_mark i q) = same_outbox p q"
  "same_outbox p (q\<lparr>ph_list := l\<rparr>) = same_outbox p q"
  "same_outbox p (q\<lparr>ph_marks := ms\<rparr>) = same_outbox p q"
  by (simp_all add: same_outbox_def set_mark_def delete_mark_def)

lemma foldl_same:
  "(\<And>q x. same_outbox q (f q x)) \<Longrightarrow> same_outbox p (foldl f p xs)"
  by (induction xs arbitrary: p) (auto intro: same_outbox_trans)

lemma adopt_same: "same_outbox p (adopt gate l p)"
proof -
  have "same_outbox (p\<lparr>ph_list := Some l, ph_marks := k\<rparr>) (adopt gate l p)"
    if "k = filter (\<lambda>(i, m). \<not> listCovers (mk_knownSince m) (dateParse (ol_serverTime l))) (ph_marks p)"
    for k unfolding adopt_def Let_def that by (rule foldl_same) (simp split: option.splits)
  then show ?thesis by (auto simp: same_outbox_def)
qed

lemma learn_same: "same_outbox p (snd (learn sha gate l now t raw res p))"
  by (simp add: learn_def Let_def split: option.splits)

lemma early_same:
  "same_outbox p (snd (admitEarly gate now t p))"
  "same_outbox p (snd (settleEarly gate now t res p))"
  by (simp_all add: admitEarly_def settleEarly_def split: option.splits)

lemma rows_same:
  "same_outbox p (learnCheckIns gate now rows p)"
  "same_outbox p (learnRelayRows now rr p)"
  "same_outbox p (snd (learnRelayUndo t by at p))"
  "same_outbox p (confirm_marks now batch p)"
  by (auto simp: learnCheckIns_def learnRelayRows_def learnRelayUndo_def learnRelayRow_def
      confirm_marks_def intro!: foldl_same split: option.splits)

lemma phone_ok_same: "same_outbox p q \<Longrightarrow> phone_ok q \<longleftrightarrow> phone_ok p"
  by (simp add: same_outbox_def phone_ok_def writing_ok_def sent_ok_def copies_def batch_of_def
      stored_items_def)

section \<open>The store\<close>

lemma store_put:
  "set (fst (store_write_to (PutItem x) r)) = {i \<in> set (fst r). ob_scanId i \<noteq> ob_scanId x} \<union> {x}"
  by (cases r) (auto simp: image_iff)

lemma store_other:
  "set (fst (store_write_to (RemoveItems ids) r)) = {i \<in> set (fst r). ob_scanId i \<notin> set ids}"
  "fst (store_write_to (SaveList l) r) = fst r"
  "fst (store_write_to ClearAll r) = []"
  by (cases r; simp)+

lemma map_ids: "map ob_scanId (map (\<lambda>i. if ob_scanId i = ob_scanId x then x else i) xs) = map ob_scanId xs"
  by simp

lemma store_distinct:
  "distinct (map ob_scanId (fst r)) \<Longrightarrow> distinct (map ob_scanId (fst (store_write_to w r)))"
  by (cases r; cases w) (auto simp: distinct_map_filter map_ids simp del: map_map)

lemma stored_write [simp]:
  "stored_items (queue_write w p) =
    fst (store_write_to w (foldl (\<lambda>r w. store_write_to w r) (ph_kept p, ph_keptList p) (ph_writes p)))"
  by (simp add: stored_items_def queue_write_def)

lemma stored_fst:
  "fst (foldl (\<lambda>r w. store_write_to w r) (ph_kept p, ph_keptList p) (ph_writes p)) = stored_items p"
  by (simp add: stored_items_def)

lemma stored_lands: "stored_items (write_lands p) = stored_items p"
  by (cases "ph_writes p") (simp_all add: stored_items_def write_lands_def Let_def)

lemma settles_append_put:
  "settles b ws \<Longrightarrow> settles b (ws @ [PutItem x])" if "ob_scanId x \<noteq> ob_scanId b \<or> x = b"
proof (induction ws)
  case (Cons w ws)
  then show ?case using that by (cases w) auto
qed (use that in auto)

lemma settles_append_other: "settles b ws \<Longrightarrow> (\<forall>x. w \<noteq> PutItem x) \<Longrightarrow> settles b (ws @ [w])"
proof (induction ws)
  case Nil
  then show ?case by (cases w) auto
next
  case (Cons v ws)
  then show ?case by (cases v) auto
qed

lemma settles_none: "settles b ws \<Longrightarrow> PutItem b \<notin> set ws \<Longrightarrow> PutItem y \<in> set ws \<Longrightarrow> ob_scanId y \<noteq> ob_scanId b"
proof (induction ws)
  case (Cons w ws)
  then show ?case by (cases w) auto
qed simp

lemma settles_put_all:
  assumes "\<And>x. x \<in> set xs \<Longrightarrow> ob_scanId x = ob_scanId b \<Longrightarrow> x = b" "b \<in> set xs"
  shows "settles b (ws @ map PutItem xs)"
proof (induction ws)
  case Nil
  have "settles b (map PutItem ys)" if "set ys \<subseteq> set xs" for ys
    using that assms(1) by (induction ys) auto
  then show ?case by simp
next
  case (Cons w ws)
  then show ?case using assms(2) by (cases w) auto
qed

lemma sent_ok_mono:
  "sent_ok p \<Longrightarrow> copies q \<subseteq> copies p \<Longrightarrow> ph_sent q = ph_sent p \<Longrightarrow> sent_ok q"
  unfolding sent_ok_def by (metis subsetD)

section \<open>Every step keeps the invariant\<close>

lemma write_lands_ok:
  assumes "phone_ok p"
  shows "phone_ok (write_lands p)"
proof (cases "ph_writes p")
  case Nil
  then show ?thesis using assms by (simp add: write_lands_def)
next
  case (Cons w ws)
  let ?r = "store_write_to w (ph_kept p, ph_keptList p)"
  let ?q = "write_lands p"
  have q: "ph_outbox ?q = ph_outbox p" "ph_kept ?q = fst ?r" "ph_writes ?q = ws" "ph_sent ?q = ph_sent p"
    "batch_of ?q = batch_of p"
    using Cons by (simp_all add: write_lands_def Let_def batch_of_def)
  have kept: "x \<in> set (ph_kept p) \<or> w = PutItem x" if "x \<in> set (fst ?r)" for x
    using that by (cases w) (auto split: if_splits)
  have gone: "x \<in> set (fst ?r) \<Longrightarrow> w = PutItem b \<Longrightarrow> ob_scanId x = ob_scanId b \<Longrightarrow> x = b" for x b
    using store_put [of b "(ph_kept p, ph_keptList p)"] by auto
  have "writing_ok ?q"
    unfolding writing_ok_def q
  proof (intro ballI conjI impI)
    fix b assume b: "b \<in> set (batch_of p)"
    with assms have w: "ob_attempted b"
      "\<forall>x \<in> set (ph_outbox p) \<union> set (batch_of p). ob_scanId x = ob_scanId b \<longrightarrow> x = b"
      "\<forall>x \<in> set (ph_kept p). ob_scanId x = ob_scanId b \<longrightarrow> x = b \<or> PutItem b \<in> set (w # ws)"
      "settles b (w # ws)"
      by (auto simp: phone_ok_def writing_ok_def Cons)
    show "ob_attempted b" by (fact w(1))
    show "x = b" if "x \<in> set (ph_outbox p) \<union> set (batch_of p)" "ob_scanId x = ob_scanId b" for x
      using w(2) that by blast
    show "settles b ws" using w(4) by (cases w) auto
    show "x = b \<or> PutItem b \<in> set ws" if x: "x \<in> set (fst ?r)" "ob_scanId x = ob_scanId b" for x
    proof (cases "w = PutItem x")
      case True
      then show ?thesis using w(4) x(2) by simp
    next
      case False
      then have "x \<in> set (ph_kept p)" using kept [OF x(1)] by simp
      then have "x = b \<or> PutItem b = w \<or> PutItem b \<in> set ws" using w(3) x(2) by auto
      then show ?thesis using gone [OF x(1) _ x(2)] by blast
    qed
  qed
  moreover have "sent_ok ?q"
    by (rule sent_ok_mono [of p]) (use assms kept in \<open>auto simp: phone_ok_def copies_def q Cons\<close>)
  ultimately show ?thesis
    using assms store_distinct [of "(ph_kept p, ph_keptList p)" w] stored_lands [of p]
    by (simp add: phone_ok_def q)
qed

lemma push_item_ok:
  assumes "phone_ok p" "fresh_scan_id (ob_scanId item) p"
  shows "phone_ok (push_item item p)"
proof -
  let ?q = "push_item item p"
  have new: "ob_scanId x \<noteq> ob_scanId item" if "x \<in> copies p" for x
    using assms(2) that unfolding fresh_scan_id_def by (metis imageI)
  have unsent: "it_scanId m \<noteq> ob_scanId item" if "m \<in> set (ph_sent p)" for m
    using assms(2) that unfolding fresh_scan_id_def by (metis imageI)
  have q: "ph_outbox ?q = ph_outbox p @ [item]" "ph_kept ?q = ph_kept p" "ph_writes ?q = ph_writes p @ [PutItem item]"
    "ph_sent ?q = ph_sent p" "batch_of ?q = batch_of p"
    by (simp_all add: push_item_def queue_write_def batch_of_def)
  have c: "copies ?q = insert item (copies p)" by (auto simp: copies_def q)
  have "ob_scanId item \<notin> ob_scanId ` set (ph_outbox p)"
    using new by (fastforce simp: copies_def)
  moreover have "writing_ok ?q"
    unfolding writing_ok_def q
  proof
    fix b assume b: "b \<in> set (batch_of p)"
    then have "ob_scanId item \<noteq> ob_scanId b" using new [of b] by (auto simp: copies_def)
    then show "ob_attempted b \<and>
      (\<forall>x\<in>set (ph_outbox p @ [item]) \<union> set (batch_of p). ob_scanId x = ob_scanId b \<longrightarrow> x = b) \<and>
      (\<forall>x\<in>set (ph_kept p). ob_scanId x = ob_scanId b \<longrightarrow> x = b \<or> PutItem b \<in> set (ph_writes p @ [PutItem item])) \<and>
      settles b (ph_writes p @ [PutItem item])"
      using assms(1) b by (auto simp: phone_ok_def writing_ok_def intro: settles_append_put)
  qed
  moreover have "sent_ok ?q"
    using assms(1) unsent unfolding phone_ok_def sent_ok_def c q by fastforce
  moreover have "set (stored_items ?q) = set (ph_outbox ?q)"
  proof -
    have "set (stored_items ?q) = {i \<in> set (stored_items p). ob_scanId i \<noteq> ob_scanId item} \<union> {item}"
      by (simp add: push_item_def store_put stored_fst del: store_write_to.simps)
    also have "set (stored_items p) = set (ph_outbox p)" using assms(1) by (simp add: phone_ok_def)
    finally show ?thesis using new by (auto simp: q copies_def)
  qed
  ultimately show ?thesis using assms(1) by (simp add: phone_ok_def q)
qed

lemma undo_ok:
  assumes "phone_ok p"
  shows "phone_ok (snd (snd (phone_undo now scanId p)))"
proof (cases "fst (phone_undo now scanId p) = UndoDone \<and> outbox_item_of scanId p \<noteq> None")
  case False
  then have "snd (snd (phone_undo now scanId p)) = p"
    by (cases "outbox_item_of scanId p") (auto simp: phone_undo_def Let_def split: if_splits)
  then show ?thesis using assms by simp
next
  case True
  then obtain x where x: "outbox_item_of scanId p = Some x" by blast
  then have l: "localUndo (Some x) now (scanId \<in> set (ph_inFlight p)) = UndoDone"
    using True by (auto simp: phone_undo_def Let_def split: if_splits)
  then have fresh: "\<not> ob_attempted x" by (simp add: localUndo_done)
  have xo: "x \<in> set (ph_outbox p)" "ob_scanId x = scanId"
    using x unfolding outbox_item_of_def by (auto dest: row_by_Some)
  define undone where "undone = x\<lparr>ob_verdict := VUndone\<rparr>"
  define q where "q = snd (snd (phone_undo now scanId p))"
  have q: "ph_outbox q = map (\<lambda>i. if ob_scanId i = scanId then undone else i) (ph_outbox p)"
    "ph_kept q = ph_kept p" "ph_writes q = ph_writes p @ [PutItem undone]" "ph_sent q = ph_sent p"
    "batch_of q = batch_of p" "ph_keptList q = ph_keptList p"
    using x l unfolding q_def undone_def
    by (simp_all add: phone_undo_def Let_def queue_write_def batch_of_def delete_mark_def split: option.splits)
  have u: "ob_scanId undone = scanId" using xo by (simp add: undone_def)
  have out: "set (ph_outbox q) = {i \<in> set (ph_outbox p). ob_scanId i \<noteq> scanId} \<union> {undone}"
    using xo by (auto simp: q)
  have batch: "ob_scanId b \<noteq> scanId" if "b \<in> set (batch_of p)" for b
  proof
    assume "ob_scanId b = scanId"
    then have "x = b" "ob_attempted b" using assms that xo by (auto simp: phone_ok_def writing_ok_def)
    then show False using fresh by simp
  qed
  have unsent: "it_scanId m \<noteq> scanId" if "m \<in> set (ph_sent p)" for m
  proof
    assume "it_scanId m = scanId"
    moreover have "x \<in> copies p" using xo by (simp add: copies_def)
    ultimately have "ob_attempted x" using assms that xo unfolding phone_ok_def sent_ok_def by auto
    then show False using fresh by simp
  qed
  have c: "copies q \<subseteq> insert undone (copies p)" unfolding copies_def out q by auto
  have "map ob_scanId (ph_outbox q) = map ob_scanId (ph_outbox p)" by (simp add: q u cong: map_cong)
  moreover have "writing_ok q"
    unfolding writing_ok_def q(2,3,5) out
  proof
    fix b assume b: "b \<in> set (batch_of p)"
    then have n: "ob_scanId undone \<noteq> ob_scanId b" using batch [of b] u by simp
    then show "ob_attempted b \<and>
      (\<forall>x\<in>{i \<in> set (ph_outbox p). ob_scanId i \<noteq> scanId} \<union> {undone} \<union> set (batch_of p).
         ob_scanId x = ob_scanId b \<longrightarrow> x = b) \<and>
      (\<forall>x\<in>set (ph_kept p). ob_scanId x = ob_scanId b \<longrightarrow> x = b \<or> PutItem b \<in> set (ph_writes p @ [PutItem undone])) \<and>
      settles b (ph_writes p @ [PutItem undone])"
      using assms b by (auto simp: phone_ok_def writing_ok_def intro: settles_append_put)
  qed
  moreover have "sent_ok q"
    unfolding sent_ok_def q
  proof (intro ballI conjI impI)
    fix m assume m: "m \<in> set (ph_sent p)"
    have s: "sent_ok p" using assms by (simp add: phone_ok_def)
    { fix y assume y: "y \<in> copies q" "ob_scanId y = it_scanId m"
      then have "y \<in> copies p" using c unsent [OF m] u by auto
      then have "ob_attempted y \<and> message y = m" using s m y(2) unfolding sent_ok_def by blast }
    then show "\<And>y. y \<in> copies q \<Longrightarrow> ob_scanId y = it_scanId m \<Longrightarrow> ob_attempted y"
      "\<And>y. y \<in> copies q \<Longrightarrow> ob_scanId y = it_scanId m \<Longrightarrow> message y = m" by blast+
    show "m' = m" if "m' \<in> set (ph_sent p)" "it_scanId m' = it_scanId m" for m'
      using s m that unfolding sent_ok_def by blast
  qed
  moreover have "set (stored_items q) = set (ph_outbox q)"
  proof -
    have "set (stored_items q) = {i \<in> set (stored_items p). ob_scanId i \<noteq> scanId} \<union> {undone}"
      by (simp add: stored_items_def q store_put u del: store_write_to.simps)
    then show ?thesis using assms by (simp add: out phone_ok_def)
  qed
  ultimately show ?thesis using assms unfolding q_def [symmetric] by (simp add: phone_ok_def q(2))
qed

lemma clear_ok: "phone_ok p \<Longrightarrow> phone_ok (snd (phone_clear p))"
proof -
  assume p: "phone_ok p"
  let ?q = "snd (phone_clear p)"
  have q: "ph_outbox ?q = []" "ph_kept ?q = ph_kept p" "ph_writes ?q = ph_writes p @ [ClearAll]"
    "ph_sent ?q = ph_sent p" "batch_of ?q = batch_of p"
    by (simp_all add: phone_clear_def queue_write_def batch_of_def)
  have "writing_ok ?q" using p
    by (auto simp: writing_ok_def phone_ok_def q intro!: settles_append_other)
  moreover have "sent_ok ?q"
    by (rule sent_ok_mono [of p]) (use p in \<open>auto simp: phone_ok_def copies_def q\<close>)
  moreover have "stored_items ?q = []" by (simp add: phone_clear_def store_other)
  ultimately show ?thesis using p by (simp add: phone_ok_def q)
qed

subsection \<open>Sending\<close>

lemma attempt_simps [simp]:
  "ob_scanId (attempt x) = ob_scanId x" "ob_attempted (attempt x)" "message (attempt x) = message x"
  "ob_attempted x \<Longrightarrow> attempt x = x"
  by (simp_all add: attempt_def message_def)

lemma stored_puts:
  "distinct (map ob_scanId xs) \<Longrightarrow>
    set (fst (foldl (\<lambda>r w. store_write_to w r) r (map PutItem xs))) =
      {i \<in> set (fst r). ob_scanId i \<notin> ob_scanId ` set xs} \<union> set xs"
proof (induction xs rule: rev_induct)
  case (snoc x xs)
  then have "ob_scanId x \<notin> ob_scanId ` set xs" by simp
  moreover have "set (fst (foldl (\<lambda>r w. store_write_to w r) r (map PutItem xs))) =
      {i \<in> set (fst r). ob_scanId i \<notin> ob_scanId ` set xs} \<union> set xs" using snoc by simp
  ultimately show ?case by (auto simp: store_put image_iff simp del: store_write_to.simps)
qed simp

lemma outbox_marked:
  assumes "distinct (map ob_scanId xs)"
  shows "map (\<lambda>i. or_default (row_by ob_scanId (ob_scanId i) (rev (map attempt (take n xs)))) i) xs =
    map attempt (take n xs) @ drop n xs"
proof -
  let ?f = "\<lambda>i. or_default (row_by ob_scanId (ob_scanId i) (rev (map attempt (take n xs)))) i"
  have d: "distinct (map ob_scanId (take n xs))" "set (map ob_scanId (take n xs)) \<inter> set (map ob_scanId (drop n xs)) = {}"
    using assms append_take_drop_id [of n xs] by (metis distinct_append map_append)+
  have d': "distinct (map ob_scanId (rev (map attempt (take n xs))))"
    using d(1) by (simp add: rev_map [symmetric] comp_def del: rev_map)
  have "?f x = attempt x" if "x \<in> set (take n xs)" for x
  proof -
    have "row_by ob_scanId (ob_scanId x) (rev (map attempt (take n xs))) = Some (attempt x)"
      using that by (subst row_by_unique [OF d']) auto
    then show ?thesis by (simp add: or_default_def)
  qed
  moreover have "?f x = x" if "x \<in> set (drop n xs)" for x
  proof -
    have "row_by ob_scanId (ob_scanId x) (rev (map attempt (take n xs))) = None"
      using d(2) imageI [OF that, of ob_scanId] by (auto simp: row_by_None)
    then show ?thesis by (simp add: or_default_def)
  qed
  ultimately have "map ?f (take n xs @ drop n xs) = map attempt (take n xs) @ drop n xs"
    by (simp only: map_append map_ext [of "take n xs"]) (simp cong: map_cong)
  then show ?thesis by simp
qed

lemma send_begin_ok:
  assumes "phone_ok p" "ph_send p = Idle"
  shows "phone_ok (send_begin p)"
proof -
  define os where "os = ph_outbox p"
  define batch where "batch = map attempt (take SYNC_BATCH os)"
  define q where "q = send_begin p"
  have d: "distinct (map ob_scanId os)" using assms(1) by (simp add: phone_ok_def os_def)
  have q: "ph_outbox q = batch @ drop SYNC_BATCH os" "ph_kept q = ph_kept p"
    "ph_writes q = ph_writes p @ map PutItem batch" "ph_sent q = ph_sent p" "batch_of q = batch"
    "ph_keptList q = ph_keptList p"
    unfolding q_def send_begin_def Let_def batch_def os_def [symmetric]
    by (simp_all add: outbox_marked [OF d] batch_of_def)
  have ids: "map ob_scanId (ph_outbox q) = map ob_scanId os"
  proof -
    have "map ob_scanId (ph_outbox q) = map ob_scanId (take SYNC_BATCH os) @ map ob_scanId (drop SYNC_BATCH os)"
      by (simp add: q batch_def comp_def)
    then show ?thesis by (simp flip: map_append)
  qed
  then have dq: "distinct (map ob_scanId (ph_outbox q))" using d by simp
  have one: "x = y" if "x \<in> set (ph_outbox q)" "y \<in> set (ph_outbox q)" "ob_scanId x = ob_scanId y" for x y
    using that dq by (simp add: distinct_map inj_on_def)
  have old: "\<exists>y \<in> copies p. ob_scanId y = ob_scanId x \<and> message x = message y \<and>
      (ob_attempted y \<longrightarrow> ob_attempted x)" if "x \<in> copies q" for x
  proof -
    have "x \<in> copies p \<or> x \<in> set batch"
      using that unfolding copies_def q os_def by (auto dest: in_set_dropD)
    then show ?thesis
    proof
      assume "x \<in> set batch"
      then obtain y where "y \<in> set (take SYNC_BATCH os)" "x = attempt y" unfolding batch_def by auto
      moreover from this(1) have "y \<in> copies p" unfolding copies_def os_def by (auto dest: in_set_takeD)
      ultimately show ?thesis by (intro bexI [of _ y]) simp_all
    qed blast
  qed
  have "writing_ok q"
    unfolding writing_ok_def q(2,3,5)
  proof (intro ballI conjI impI)
    fix b assume b: "b \<in> set batch"
    then show "ob_attempted b" unfolding batch_def by auto
    have bq: "b \<in> set (ph_outbox q)" using b by (simp add: q)
    show "x = b" if "x \<in> set (ph_outbox q) \<union> set batch" "ob_scanId x = ob_scanId b" for x
      using one [of x b] that bq by (auto simp: q)
    show "x = b \<or> PutItem b \<in> set (ph_writes p @ map PutItem batch)" for x using b by simp
    show "settles b (ph_writes p @ map PutItem batch)"
    proof (rule settles_put_all)
      show "x = b" if "x \<in> set batch" "ob_scanId x = ob_scanId b" for x
        using one [of x b] that bq by (simp add: q)
    qed (fact b)
  qed
  moreover have "sent_ok q"
    unfolding sent_ok_def q(4)
  proof (intro ballI conjI impI)
    have s: "sent_ok p" using assms(1) by (simp add: phone_ok_def)
    fix m assume m: "m \<in> set (ph_sent p)"
    { fix x assume x: "x \<in> copies q" "ob_scanId x = it_scanId m"
      from old [OF x(1)] obtain y where y: "y \<in> copies p" "ob_scanId y = ob_scanId x"
        "message x = message y" "ob_attempted y \<longrightarrow> ob_attempted x" by blast
      then have "ob_attempted y \<and> message y = m" using s m x(2) unfolding sent_ok_def by metis
      then have "ob_attempted x \<and> message x = m" using y by simp }
    then show "\<And>x. x \<in> copies q \<Longrightarrow> ob_scanId x = it_scanId m \<Longrightarrow> ob_attempted x"
      "\<And>x. x \<in> copies q \<Longrightarrow> ob_scanId x = it_scanId m \<Longrightarrow> message x = m" by blast+
    show "m' = m" if "m' \<in> set (ph_sent p)" "it_scanId m' = it_scanId m" for m'
      using s m that unfolding sent_ok_def by blast
  qed
  moreover have "set (stored_items q) = set (ph_outbox q)"
  proof -
    have db: "distinct (map ob_scanId batch)" using dq by (simp add: q)
    have "set (stored_items q) = {i \<in> set (stored_items p). ob_scanId i \<notin> ob_scanId ` set batch} \<union> set batch"
      unfolding stored_items_def q by (simp add: stored_puts [OF db])
    also have "set (stored_items p) = set os" using assms(1) by (simp add: phone_ok_def os_def)
    also have "{i \<in> set os. ob_scanId i \<notin> ob_scanId ` set batch} = set (drop SYNC_BATCH os)"
    proof -
      have "{i \<in> set (take n os @ drop n os). ob_scanId i \<notin> ob_scanId ` set (take n os)} = set (drop n os)" for n
      proof -
        have "set (map ob_scanId (take n os)) \<inter> set (map ob_scanId (drop n os)) = {}"
          using d append_take_drop_id [of n os] by (metis distinct_append map_append)
        then show ?thesis by (simp only: set_append set_map) blast
      qed
      moreover have "ob_scanId ` set batch = ob_scanId ` set (take SYNC_BATCH os)"
        unfolding batch_def by (simp add: image_image)
      ultimately show ?thesis by simp
    qed
    finally show ?thesis by (auto simp: q)
  qed
  ultimately show ?thesis using assms(1) dq unfolding q_def [symmetric] by (simp add: phone_ok_def q(2))
qed

lemma send_go_ok:
  assumes "phone_ok p" "ph_send p = Writing batch" "\<forall>x \<in> set batch. PutItem x \<notin> set (ph_writes p)"
  shows "phone_ok (send_go p)"
proof -
  define q where "q = send_go p"
  have q: "ph_outbox q = ph_outbox p" "ph_kept q = ph_kept p" "ph_writes q = ph_writes p"
    "ph_sent q = ph_sent p @ map message batch" "batch_of q = batch" "batch_of p = batch"
    "ph_keptList q = ph_keptList p"
    using assms(2) by (simp_all add: q_def send_go_def batch_of_def)
  have w: "writing_ok p" and s: "sent_ok p" using assms(1) by (simp_all add: phone_ok_def)
  have c: "copies q = copies p" by (simp add: copies_def q)
  have same: "x = b" if "b \<in> set batch" "x \<in> copies p" "ob_scanId x = ob_scanId b" for x b
  proof -
    have wb: "\<forall>x \<in> set (ph_outbox p) \<union> set batch. ob_scanId x = ob_scanId b \<longrightarrow> x = b"
      "\<forall>x \<in> set (ph_kept p). ob_scanId x = ob_scanId b \<longrightarrow> x = b \<or> PutItem b \<in> set (ph_writes p)"
      "settles b (ph_writes p)"
      using w that(1) unfolding writing_ok_def q(6) by blast+
    have n: "PutItem b \<notin> set (ph_writes p)" using assms(3) that(1) by blast
    have "PutItem x \<notin> set (ph_writes p)" using settles_none [OF wb(3) n] that(3) by blast
    then show ?thesis using wb n that(2,3) unfolding copies_def q(6) by blast
  qed
  have mid: "it_scanId (message x) = ob_scanId x" for x by (simp add: message_def)
  have att: "b \<in> set batch \<Longrightarrow> ob_attempted b" for b using w unfolding writing_ok_def q(6) by blast
  have bc: "b \<in> set batch \<Longrightarrow> b \<in> copies p" for b by (simp add: copies_def q(6))
  have "sent_ok q"
    unfolding sent_ok_def
  proof (intro ballI conjI impI)
    fix m assume m: "m \<in> set (ph_sent q)"
    then consider (old) "m \<in> set (ph_sent p)" | (new) b where "b \<in> set batch" "m = message b"
      unfolding q by auto
    note kinds = this
    { fix x assume x: "x \<in> copies q" "ob_scanId x = it_scanId m"
      from kinds have "ob_attempted x \<and> message x = m"
      proof cases
        case old
        then show ?thesis using s x unfolding sent_ok_def c by blast
      next
        case new
        then have "x = b" using same [of b x] x mid c by simp
        then show ?thesis using new att by simp
      qed }
    note this_one = this
    then show "\<And>x. x \<in> copies q \<Longrightarrow> ob_scanId x = it_scanId m \<Longrightarrow> ob_attempted x"
      "\<And>x. x \<in> copies q \<Longrightarrow> ob_scanId x = it_scanId m \<Longrightarrow> message x = m" by blast+
    fix m' assume m': "m' \<in> set (ph_sent q)" "it_scanId m' = it_scanId m"
    then consider (old') "m' \<in> set (ph_sent p)" | (new') b where "b \<in> set batch" "m' = message b"
      unfolding q by auto
    then show "m' = m"
    proof cases
      case new'
      then show ?thesis using this_one [of b] m'(2) bc c mid by simp
    next
      case old'
      from kinds show ?thesis
      proof cases
        case old
        then show ?thesis using s old' m'(2) unfolding sent_ok_def by blast
      next
        case new
        then have "message b = m'" using s old' m'(2) bc mid unfolding sent_ok_def by metis
        then show ?thesis using new by simp
      qed
    qed
  qed
  moreover have "writing_ok q" using w by (simp add: writing_ok_def q)
  ultimately show ?thesis using assms(1) unfolding q_def [symmetric]
    by (simp add: phone_ok_def q stored_items_def)
qed

lemma send_reply_ok:
  assumes "phone_ok p"
  shows "phone_ok (send_reply now reply p)"
proof (cases "ph_send p")
  case (Asking batch)
  define p1 where "p1 = p\<lparr>ph_inFlight := filter (\<lambda>i. i \<notin> set (map ob_scanId batch)) (ph_inFlight p), ph_send := Idle\<rparr>"
  have ok1: "phone_ok p1"
  proof -
    have "sent_ok p1"
      by (rule sent_ok_mono [of p]) (use assms in \<open>auto simp: phone_ok_def copies_def p1_def batch_of_def\<close>)
    then show ?thesis using assms
      by (simp add: phone_ok_def p1_def writing_ok_def batch_of_def stored_items_def)
  qed
  define p2 where "p2 = (if reply = SyncOk then confirm_marks now batch p1 else p1)"
  have "same_outbox p1 p2" unfolding p2_def using rows_same(4) by simp
  then have ok2: "phone_ok p2" using ok1 phone_ok_same by blast
  have idle: "ph_send p2 = Idle" using \<open>same_outbox p1 p2\<close> by (simp add: same_outbox_def p1_def)
  define q where "q = queue_write (RemoveItems (map ob_scanId batch))
    (p2\<lparr>ph_outbox := filter (\<lambda>i. ob_scanId i \<notin> set (map ob_scanId batch)) (ph_outbox p2)\<rparr>)"
  have "sent_ok q"
    by (rule sent_ok_mono [of p2]) (use ok2 in \<open>auto simp: phone_ok_def copies_def q_def batch_of_def queue_write_def\<close>)
  moreover have "set (stored_items q) = {i \<in> set (stored_items p2). ob_scanId i \<notin> set (map ob_scanId batch)}"
    by (simp only: q_def stored_write store_other) (simp add: stored_fst)
  ultimately have ok3: "phone_ok q"
    using ok2 idle by (auto simp: phone_ok_def q_def queue_write_def writing_ok_def batch_of_def distinct_map_filter)
  show ?thesis
    using ok1 ok3 Asking unfolding q_def p2_def p1_def by (simp add: send_reply_def Let_def)
qed (use assms in \<open>simp_all add: send_reply_def\<close>)

lemma reload_ok:
  assumes "phone_ok p"
  shows "phone_ok (reload gate passId now p)"
proof -
  define queued where "queued = loadOutbox p"
  define theirs where "theirs = filter (\<lambda>i. ob_passId i \<noteq> passId) queued"
  define p1 where "p1 = p\<lparr>ph_list := None, ph_marks := [], ph_outbox := filter (\<lambda>i. ob_passId i = passId) queued,
    ph_inFlight := [], ph_send := Idle,
    ph_writes := (if theirs = [] then [] else [RemoveItems (map ob_scanId theirs)])\<rparr>"
  have s: "set queued = set (ph_kept p)" by (simp add: queued_def loadOutbox_def)
  have d: "distinct (map ob_scanId queued)"
    using assms by (simp add: queued_def loadOutbox_def phone_ok_def distinct_map)
  have "sent_ok p1"
    by (rule sent_ok_mono [of p])
      (use assms s in \<open>auto simp: phone_ok_def copies_def p1_def batch_of_def split: if_splits\<close>)
  moreover have "writing_ok p1" by (simp add: writing_ok_def batch_of_def p1_def)
  moreover have "set (stored_items p1) = set (ph_outbox p1)"
  proof -
    have "x \<in> set (ph_kept p) \<Longrightarrow> ob_scanId x \<in> ob_scanId ` set theirs \<Longrightarrow> ob_passId x \<noteq> passId" for x
      using d unfolding theirs_def s [symmetric] distinct_map inj_on_def by auto
    moreover have "ob_passId x = passId \<or> x \<in> set theirs" if "x \<in> set (ph_kept p)" for x
      using that unfolding theirs_def s [symmetric] by simp
    ultimately show ?thesis using s by (cases "theirs = []") (fastforce simp: stored_items_def p1_def)+
  qed
  ultimately have ok: "phone_ok p1" using assms d by (simp add: phone_ok_def p1_def distinct_map_filter)
  have "reload gate passId now p = p1 \<or> (\<exists>l. reload gate passId now p = adopt gate l p1)"
    unfolding reload_def Let_def queued_def [symmetric] theirs_def [symmetric] p1_def [symmetric]
    by (auto split: option.splits)
  then show ?thesis using ok phone_ok_same [OF adopt_same] by metis
qed

lemma phone_step_ok: "phone_step p q \<Longrightarrow> phone_ok p \<Longrightarrow> phone_ok q"
proof (induction rule: phone_step.induct)
  case (step_scan i p sha gate passId l at raw by_method supersedes)
  show ?case
  proof (cases "fst (phone_scan sha gate passId l at raw by_method supersedes i p)")
    case None
    then have "snd (snd (phone_scan sha gate passId l at raw by_method supersedes i p)) = p"
      by (cases l) (auto simp: phone_scan_def Let_def split: if_splits)
    then show ?thesis using step_scan by simp
  next
    case (Some a)
    then obtain v e p' where e: "snd (snd (phone_scan sha gate passId l at raw by_method supersedes i p)) =
        push_item (outbox_of i passId by_method raw at v supersedes e) p'" "same_outbox p p'"
      by (auto simp: phone_scan_def Let_def split: option.splits if_splits)
    have "fresh_scan_id i p'" using step_scan(1) e(2)
      by (simp add: fresh_scan_id_def same_outbox_def copies_def batch_of_def)
    then show ?thesis unfolding e(1) using phone_ok_same [OF e(2)] step_scan(2)
      by (intro push_item_ok) (simp_all add: outbox_of_def)
  qed
next
  case (step_queueEarly i p sha passId l now raw by_method supersedes)
  then show ?case by (simp add: queueEarlyAdmit_def push_item_ok outbox_of_def)
next
  case (step_list p gate data)
  have "same_outbox p (adopt gate data p)" by (rule adopt_same)
  then have "phone_ok (adopt gate data p)" using step_list phone_ok_same by blast
  then show ?case unfolding refreshList_def
    by (auto simp: phone_ok_def writing_ok_def sent_ok_def copies_def queue_write_def batch_of_def
        stored_items_def store_other intro: settles_append_other)
next
  case (step_go p batch)
  then show ?case by (intro send_go_ok)
qed (simp_all add: phone_ok_same [OF learn_same] phone_ok_same [OF early_same(1)]
  phone_ok_same [OF early_same(2)] phone_ok_same [OF rows_same(1)] phone_ok_same [OF rows_same(2)]
  phone_ok_same [OF rows_same(3)] undo_ok clear_ok send_begin_ok send_reply_ok write_lands_ok reload_ok)

lemma phone_ok_new [simp]: "phone_ok new_phone"
  by (simp add: phone_ok_def new_phone_def writing_ok_def sent_ok_def batch_of_def stored_items_def)

lemma phone_run_ok: "phone_run p q \<Longrightarrow> phone_ok p \<Longrightarrow> phone_ok q"
  unfolding phone_run_def by (induction rule: rtranclp_induct) (auto intro: phone_step_ok)

section \<open>One mark per ticket\<close>

definition marks_ok :: "phone \<Rightarrow> bool" where
  "marks_ok p \<longleftrightarrow> distinct (map fst (ph_marks p))"

lemma marks_ok_simps [simp]:
  "marks_ok p \<Longrightarrow> marks_ok (set_mark i m p)"
  "marks_ok p \<Longrightarrow> marks_ok (delete_mark i p)"
  "marks_ok (queue_write w p) = marks_ok p"
  "marks_ok (push_item item p) = marks_ok p"
  "marks_ok (p\<lparr>ph_outbox := os\<rparr>) = marks_ok p"
  "marks_ok p \<Longrightarrow> marks_ok (p\<lparr>ph_list := l, ph_marks := filter f (ph_marks p)\<rparr>)"
  by (simp_all add: marks_ok_def set_mark_def delete_mark_def queue_write_def push_item_def
      distinct_update distinct_delete distinct_map_filter)

lemma foldl_marks_ok:
  "(\<And>q x. marks_ok q \<Longrightarrow> marks_ok (f q x)) \<Longrightarrow> marks_ok p \<Longrightarrow> marks_ok (foldl f p xs)"
  by (induction xs arbitrary: p) auto

lemma adopt_marks_ok: "marks_ok p \<Longrightarrow> marks_ok (adopt gate l p)"
  unfolding adopt_def Let_def by (rule foldl_marks_ok) (auto split: option.splits)

lemma phone_step_marks: "phone_step p q \<Longrightarrow> marks_ok p \<Longrightarrow> marks_ok q"
proof (induction rule: phone_step.induct)
  case (step_scan i p sha gate passId l at raw by_method supersedes)
  then show ?case by (cases l) (auto simp: phone_scan_def Let_def split: option.splits)
next
  case (step_learn p sha gate l now ticketId raw' result)
  then show ?case by (auto simp: learn_def Let_def split: option.splits)
next
  case (step_settleEarly p gate now t result)
  then show ?case by (auto simp: settleEarly_def split: option.splits)
next
  case (step_checkIns p gate now rows)
  then show ?case unfolding learnCheckIns_def by (intro foldl_marks_ok) auto
next
  case (step_relayRows p now rows)
  then show ?case unfolding learnRelayRows_def learnRelayRow_def
    by (intro foldl_marks_ok) (auto split: option.splits)
next
  case (step_relayUndo p t who a)
  then show ?case by (auto simp: learnRelayUndo_def split: option.splits)
next
  case (step_undo p now scanId)
  then show ?case by (auto simp: phone_undo_def Let_def split: option.splits)
next
  case (step_reply p now reply)
  have "marks_ok (confirm_marks now b q)" if "marks_ok q" for b q
    unfolding confirm_marks_def by (rule foldl_marks_ok [OF _ that]) (auto split: option.splits)
  moreover have "marks_ok (p\<lparr>ph_inFlight := x, ph_send := y\<rparr>)" for x y
    using step_reply by (simp add: marks_ok_def)
  ultimately show ?case using step_reply by (simp add: send_reply_def Let_def split: send_state.split)
next
  case (step_write p)
  then show ?case by (simp add: write_lands_def Let_def marks_ok_def split: list.split)
next
  case (step_reload p gate passId now)
  have "marks_ok q \<and> marks_ok (adopt gate l q)" if "ph_marks q = []" for q l
    using that adopt_marks_ok [of q] by (simp add: marks_ok_def)
  then show ?case unfolding reload_def Let_def by (auto split: option.split)
next
  case (step_go p batch)
  then show ?case by (simp add: send_go_def marks_ok_def)
next
  case (step_begin p)
  then show ?case by (simp add: send_begin_def Let_def marks_ok_def)
next
  case (step_clear p)
  then show ?case by (simp add: phone_clear_def queue_write_def marks_ok_def)
qed (simp_all add: queueEarlyAdmit_def refreshList_def adopt_marks_ok admitEarly_def)

lemma marks_ok_new [simp]: "marks_ok new_phone"
  by (simp add: marks_ok_def new_phone_def)

lemma phone_run_marks: "phone_run p q \<Longrightarrow> marks_ok p \<Longrightarrow> marks_ok q"
  unfolding phone_run_def by (induction rule: rtranclp_induct) (auto intro: phone_step_marks)

end
