(* ===== verification/PhoneSync.thy ===== *)
theory PhoneSync
  imports PhoneLaws
begin

text \<open>
  The loop of \<open>sendOutbox\<close> in \<open>src/src/app/door/offline/use-offline.ts\<close>: the rounds of
  \<open>DoorPhone\<close> one after the other, nothing else happening between them. The answer to the k-th
  request is an argument. Every round the server takes shortens the outbox, so the loop ends.
\<close>

section \<open>The loop\<close>

text \<open>\<open>await Promise.all(putOutbox)\<close>: the queued writes land.\<close>

definition writes_land :: "phone \<Rightarrow> phone" where
  "writes_land p = (write_lands ^^ length (ph_writes p)) p"

lemma write_lands_simps [simp]:
  "ph_outbox (write_lands p) = ph_outbox p" "ph_send (write_lands p) = ph_send p"
  "ph_sent (write_lands p) = ph_sent p" "ph_writes (write_lands p) = tl (ph_writes p)"
  "ph_marks (write_lands p) = ph_marks p" "ph_inFlight (write_lands p) = ph_inFlight p"
  "ph_list (write_lands p) = ph_list p"
  by (cases "ph_writes p"; simp add: write_lands_def Let_def)+

lemma writes_land_fields [simp]:
  "ph_outbox (writes_land p) = ph_outbox p" "ph_send (writes_land p) = ph_send p"
  "ph_sent (writes_land p) = ph_sent p" "ph_writes (writes_land p) = []"
  "ph_marks (writes_land p) = ph_marks p" "ph_inFlight (writes_land p) = ph_inFlight p"
  "ph_list (writes_land p) = ph_list p"
proof -
  have "ph_outbox ((write_lands ^^ n) p) = ph_outbox p \<and> ph_send ((write_lands ^^ n) p) = ph_send p \<and>
    ph_sent ((write_lands ^^ n) p) = ph_sent p \<and> ph_writes ((write_lands ^^ n) p) = drop n (ph_writes p) \<and>
    ph_marks ((write_lands ^^ n) p) = ph_marks p \<and> ph_inFlight ((write_lands ^^ n) p) = ph_inFlight p \<and>
    ph_list ((write_lands ^^ n) p) = ph_list p" for n
    by (induction n) (auto simp: drop_Suc tl_drop)
  then show "ph_outbox (writes_land p) = ph_outbox p" "ph_send (writes_land p) = ph_send p"
    "ph_sent (writes_land p) = ph_sent p" "ph_writes (writes_land p) = []"
    "ph_marks (writes_land p) = ph_marks p" "ph_inFlight (writes_land p) = ph_inFlight p"
    "ph_list (writes_land p) = ph_list p"
    by (simp_all add: writes_land_def)
qed

definition send_round :: "instant \<Rightarrow> sync_reply \<Rightarrow> phone \<Rightarrow> phone" where
  "send_round now reply p = send_reply now reply (send_go (writes_land (send_begin p)))"

lemma send_round_outbox:
  "map ob_scanId (ph_outbox (send_round now reply p)) =
    (if reply = SyncFailed then map ob_scanId (ph_outbox p)
     else filter (\<lambda>i. i \<notin> set (map ob_scanId (take SYNC_BATCH (ph_outbox p)))) (map ob_scanId (ph_outbox p)))"
proof -
  define f where "f = (\<lambda>i. or_default (row_by ob_scanId (ob_scanId i)
    (rev (map attempt (take SYNC_BATCH (ph_outbox p))))) i)"
  have f: "ob_scanId (f i) = ob_scanId i" for i
    by (cases "row_by ob_scanId (ob_scanId i) (rev (map attempt (take SYNC_BATCH (ph_outbox p))))")
      (auto simp: f_def or_default_def dest: row_by_Some)
  have o: "ph_outbox (send_begin p) = map f (ph_outbox p)"
    by (simp add: send_begin_def Let_def f_def)
  have same: "ph_outbox (confirm_marks now b q) = ph_outbox q" for b q
    using rows_same(4) [of q now b] by (simp add: same_outbox_def)
  have b: "ph_send (send_begin p) = Writing (map attempt (take SYNC_BATCH (ph_outbox p)))"
    by (simp add: send_begin_def Let_def)
  show ?thesis
    by (simp add: send_round_def send_reply_def send_go_def b Let_def queue_write_def o same f
        filter_map comp_def image_image)
qed

lemma send_round_shorter:
  assumes "ph_outbox p \<noteq> []" "reply \<noteq> SyncFailed"
  shows "length (ph_outbox (send_round now reply p)) < length (ph_outbox p)"
proof -
  obtain x xs where x: "ph_outbox p = x # xs" using assms(1) by (cases "ph_outbox p") auto
  have "length (ph_outbox (send_round now reply p)) = length (filter (\<lambda>i. i \<notin> set (map ob_scanId
      (take SYNC_BATCH (ph_outbox p)))) (map ob_scanId (ph_outbox p)))"
    using send_round_outbox [of now reply p] assms(2) by (metis length_map)
  also have "\<dots> < length (map ob_scanId (ph_outbox p))"
    by (rule length_filter_less [of "ob_scanId x"]) (simp_all add: x SYNC_BATCH_def)
  finally show ?thesis by simp
qed

function sendOutbox ::
  "(nat \<Rightarrow> instant) \<Rightarrow> (nat \<Rightarrow> sync_reply) \<Rightarrow> nat \<Rightarrow> phone \<Rightarrow> bool \<times> phone" where
  "sendOutbox clock replies k p =
    (if ph_outbox p = [] then (True, p)
     else let q = send_round (clock k) (replies k) p
       in case replies k of
            SyncOk \<Rightarrow> sendOutbox clock replies (k + 1) q
          | SyncRefused \<Rightarrow> (True, q)
          | SyncFailed \<Rightarrow> (False, q))"
  by pat_completeness auto
termination
  by (relation "measure (\<lambda>(clock, replies, k, p). length (ph_outbox p))") (auto simp: send_round_shorter)

declare sendOutbox.simps [simp del]

section \<open>Rounds are steps\<close>

lemma writes_land_run: "phone_run p (writes_land p)"
proof -
  have "phone_run p ((write_lands ^^ n) p)" for n
    unfolding phone_run_def
    by (induction n) (auto intro: rtranclp.rtrancl_into_rtrancl step_write)
  then show ?thesis by (simp add: writes_land_def)
qed

lemma send_round_run:
  assumes "ph_send p = Idle" "ph_outbox p \<noteq> []"
  shows "phone_run p (send_round now reply p)"
proof -
  let ?b = "send_begin p" and ?w = "writes_land (send_begin p)"
  have "phone_step p ?b" using assms by (rule step_begin)
  moreover have "phone_run ?b ?w" by (rule writes_land_run)
  moreover have "ph_send ?w = Writing (map attempt (take SYNC_BATCH (ph_outbox p)))"
    by (simp add: send_begin_def Let_def)
  then have "phone_step ?w (send_go ?w)" by (rule step_go) simp
  moreover have "phone_step (send_go ?w) (send_round now reply p)"
    unfolding send_round_def by (rule step_reply)
  ultimately show ?thesis unfolding phone_run_def by (meson converse_rtranclp_into_rtranclp rtranclp.rtrancl_into_rtrancl rtranclp_trans)
qed

lemma send_round_fields:
  assumes "distinct (map ob_scanId (ph_outbox p))"
  shows "ph_sent (send_round now reply p) = ph_sent p @ map message (take SYNC_BATCH (ph_outbox p))"
    "ph_send (send_round now reply p) = Idle"
    "ph_outbox (send_round now reply p) =
      (if reply = SyncFailed then map attempt (take SYNC_BATCH (ph_outbox p)) @ drop SYNC_BATCH (ph_outbox p)
       else drop SYNC_BATCH (ph_outbox p))"
proof -
  let ?o = "ph_outbox p"
  define b where "b = map attempt (take SYNC_BATCH ?o)"
  have beg: "ph_outbox (send_begin p) = b @ drop SYNC_BATCH ?o" "ph_send (send_begin p) = Writing b"
    "ph_sent (send_begin p) = ph_sent p"
    unfolding send_begin_def Let_def by (simp_all add: outbox_marked [OF assms] b_def)
  have same: "ph_outbox (confirm_marks now x q) = ph_outbox q" "ph_sent (confirm_marks now x q) = ph_sent q"
    "ph_send (confirm_marks now x q) = ph_send q" for x q
    using rows_same(4) [of q now x] by (simp_all add: same_outbox_def)
  have "set (map ob_scanId (take SYNC_BATCH ?o)) \<inter> set (map ob_scanId (drop SYNC_BATCH ?o)) = {}"
    using assms append_take_drop_id [of SYNC_BATCH ?o] by (metis distinct_append map_append)
  then have later: "filter (\<lambda>i. ob_scanId i \<notin> ob_scanId ` set b) (drop SYNC_BATCH ?o) = drop SYNC_BATCH ?o"
    unfolding b_def by (intro filter_True) (auto simp: image_image)
  have none: "filter (\<lambda>i. ob_scanId i \<notin> ob_scanId ` set b) b = []" by (rule filter_False) simp
  have msg: "map message b = map message (take SYNC_BATCH ?o)" by (simp add: b_def)
  show "ph_sent (send_round now reply p) = ph_sent p @ map message (take SYNC_BATCH ?o)"
    "ph_send (send_round now reply p) = Idle"
    by (simp_all add: send_round_def send_reply_def send_go_def beg Let_def queue_write_def same msg)
  show "ph_outbox (send_round now reply p) =
      (if reply = SyncFailed then map attempt (take SYNC_BATCH ?o) @ drop SYNC_BATCH ?o
       else drop SYNC_BATCH ?o)"
    by (simp add: send_round_def send_reply_def send_go_def beg Let_def queue_write_def same later none b_def [symmetric])
qed

text \<open>With every answer in, the outbox is sent in order and empty.\<close>

lemma sendOutbox_empties:
  assumes "phone_ok p" "ph_send p = Idle"
    and "\<And>j. j < (length (ph_outbox p) + SYNC_BATCH - 1) div SYNC_BATCH \<Longrightarrow> replies (k + j) = SyncOk"
  shows "\<exists>q. sendOutbox clock replies k p = (True, q) \<and> ph_outbox q = [] \<and>
    ph_sent q = ph_sent p @ map message (ph_outbox p) \<and> phone_run p q"
  using assms
proof (induction clock replies k p rule: sendOutbox.induct)
  case (1 clock replies k p)
  show ?case
  proof (cases "ph_outbox p = []")
    case True
    then show ?thesis by (simp add: sendOutbox.simps [of _ _ _ p] phone_run_def)
  next
    case False
    define n where "n = length (ph_outbox p)"
    have n: "0 < n" using False by (simp add: n_def)
    have ok: "replies k = SyncOk" using 1(4) [of 0] n
      by (simp add: n_def SYNC_BATCH_def div_greater_zero_iff Suc_le_eq)
    let ?q = "send_round (clock k) (replies k) p"
    have d: "distinct (map ob_scanId (ph_outbox p))" using 1(2) by (simp add: phone_ok_def)
    note f = send_round_fields [OF d, of "clock k" "replies k"]
    have run: "phone_run p ?q" by (rule send_round_run [OF 1(3) False])
    have len: "length (ph_outbox ?q) = n - SYNC_BATCH"
      unfolding f(3) n_def by (simp add: ok)
    have "replies (k + 1 + j) = SyncOk" if "j < (length (ph_outbox ?q) + SYNC_BATCH - 1) div SYNC_BATCH" for j
    proof -
      have "j + 1 < (n + SYNC_BATCH - 1) div SYNC_BATCH"
        using that len unfolding SYNC_BATCH_def by (cases "n \<le> 50") auto
      then show ?thesis using 1(4) [of "j + 1"] by (simp add: n_def add.commute add.left_commute)
    qed
    then obtain q where q: "sendOutbox clock replies (k + 1) ?q = (True, q)" "ph_outbox q = []"
      "ph_sent q = ph_sent ?q @ map message (ph_outbox ?q)" "phone_run ?q q"
      using 1(1) [OF False refl ok phone_run_ok [OF run 1(2)] f(2)] by blast
    have "sendOutbox clock replies k p = (True, q)"
      using False ok q(1) by (simp add: sendOutbox.simps [of _ _ _ p] Let_def)
    moreover have "ph_sent q = ph_sent p @ map message (ph_outbox p)"
    proof -
      have "map message (take SYNC_BATCH (ph_outbox p)) @ map message (drop SYNC_BATCH (ph_outbox p)) =
          map message (ph_outbox p)" by (simp flip: map_append)
      then show ?thesis unfolding q(3) f(1,3) by (simp add: ok)
    qed
    ultimately show ?thesis using q(2,4) run unfolding phone_run_def by (blast intro: rtranclp_trans)
  qed
qed

end
