(* ===== verification/ScanTokens.thy ===== *)
theory ScanTokens
  imports Codes
begin

text \<open>
  Reading a code back: every form in which \<open>src/src/server/lib/scan-token.ts\<close> meets a ticket's
  code - as stored, with spaces around it, typed in small letters, behind the link a QR holds,
  or without its prefix.
\<close>

section \<open>Plain units\<close>

definition plain_unit :: "nat \<Rightarrow> bool" where
  "plain_unit u \<longleftrightarrow> u < 1632"

lemma normalise_unit_plain: "plain_unit u \<Longrightarrow> normalise_unit u = u"
  by (simp add: normalise_unit_def ZEROS_def plain_unit_def)

lemma normaliseDigits_plain: "\<forall>u \<in> set s. plain_unit u \<Longrightarrow> normaliseDigits s = s"
  by (simp add: normaliseDigits_def map_idI normalise_unit_plain)

lemma normalise_unit_cases: "normalise_unit u = u \<or> (48 \<le> normalise_unit u \<and> normalise_unit u \<le> 57 \<and> 1632 \<le> u \<and> u \<le> 2543)"
  by (auto simp: normalise_unit_def ZEROS_def)

lemma normalise_unit_space [simp]: "is_space (normalise_unit u) = is_space u"
proof -
  have "\<not> is_space v" if "48 \<le> v" "v \<le> 57" for v using that by (auto simp: is_space_def)
  moreover have "\<not> is_space v" if "1632 \<le> v" "v \<le> 2543" for v using that by (auto simp: is_space_def)
  ultimately show ?thesis using normalise_unit_cases [of u] by metis
qed

lemma trim_map: "(\<And>u. is_space (f u) = is_space u) \<Longrightarrow> trim (map f s) = map f (trim s)"
  by (simp add: trim_def dropWhile_map rev_map comp_def)

lemma dropWhile_twice [simp]: "dropWhile P (dropWhile P s) = dropWhile P s"
  by (induction s) auto

lemma dropWhile_none: "s = [] \<or> \<not> P (hd s) \<Longrightarrow> dropWhile P s = s"
  by (cases s) auto

lemma trim_closed: "s = [] \<or> (\<not> is_space (hd s) \<and> \<not> is_space (last s)) \<Longrightarrow> trim s = s"
  by (cases "s = []") (simp_all add: trim_def dropWhile_none hd_rev)

lemma trim_shape: "trim s = [] \<or> (\<not> is_space (hd (trim s)) \<and> \<not> is_space (last (trim s)))"
proof (cases "trim s = []")
  case False
  define t where "t = dropWhile is_space s"
  have ts: "trim s = rev (dropWhile is_space (rev t))" by (simp add: trim_def t_def)
  have ne: "dropWhile is_space (rev t) \<noteq> []" using False unfolding ts rev_is_Nil_conv .
  then have ne': "t \<noteq> []" by auto
  have h: "\<not> is_space (hd t)" using ne' unfolding t_def by (rule hd_dropWhile)
  have l: "\<not> is_space (last (trim s))"
    unfolding ts last_rev using ne by (rule hd_dropWhile)
  have "hd (trim s) = hd t"
  proof -
    have "rev t = takeWhile is_space (rev t) @ dropWhile is_space (rev t)" by simp
    then have "t = trim s @ rev (takeWhile is_space (rev t))"
      unfolding ts by (metis rev_append rev_rev_ident)
    then show ?thesis using False by (metis hd_append2)
  qed
  then show ?thesis using h l by simp
qed simp

lemma trim_trim [simp]: "trim (trim s) = trim s"
  by (rule trim_closed [OF trim_shape])

lemma trim_length: "length (trim s) \<le> length s"
  unfolding trim_def length_rev
  by (rule le_trans [OF length_dropWhile_le]) (simp add: length_dropWhile_le)

lemma trim_spaces:
  assumes "list_all is_space a" "list_all is_space b" "s \<noteq> []" "\<not> is_space (hd s)" "\<not> is_space (last s)"
  shows "trim (a @ s @ b) = s"
proof -
  have "dropWhile is_space (a @ s @ b) = s @ b"
    using assms(1,3,4) by (induction a) (auto simp: hd_conv_nth neq_Nil_conv)
  moreover have "dropWhile is_space (rev b @ rev s) = rev s"
    using assms(2,3,5) by (induction b rule: rev_induct) (cases s rule: rev_cases; auto)+
  ultimately show ?thesis by (simp add: trim_def)
qed

section \<open>Upper case\<close>

definition lower_unit :: "nat \<Rightarrow> nat" where
  "lower_unit u = (if is_upper u then u + 32 else u)"

lemma upper_unit_small: "u < 97 \<Longrightarrow> upper_unit u = [u]"
  by (simp add: upper_unit_def is_lower_def UPPER_TO_ASCII_def)

lemma upper_unit_lower: "u < 97 \<Longrightarrow> upper_unit (lower_unit u) = [u]"
proof (cases "is_upper u")
  case True
  then show ?thesis by (simp add: upper_unit_def lower_unit_def is_lower_def is_upper_def)
qed (simp add: lower_unit_def upper_unit_small)

lemma toUpperCase_small: "\<forall>u \<in> set s. u < 97 \<Longrightarrow> toUpperCase s = s"
  by (induction s) (auto simp: toUpperCase_def upper_unit_small)

lemma toUpperCase_lower: "\<forall>u \<in> set s. u < 97 \<Longrightarrow> toUpperCase (map lower_unit s) = s"
  by (induction s) (auto simp: toUpperCase_def upper_unit_lower)

lemma remove_spaces_none: "\<forall>u \<in> set s. \<not> is_space u \<Longrightarrow> remove_spaces s = s"
  by (simp add: remove_spaces_def)

section \<open>The forms of a code\<close>

text \<open>What the parser makes of a text once the digits, spaces and letters are settled.\<close>

lemma parse_upper:
  assumes "s \<noteq> []" "length s \<le> SCAN_INPUT_MAX"
    and "url_code (trim (normaliseDigits s)) = None"
    and "toUpperCase (trim (normaliseDigits s)) = c" "\<forall>u \<in> set c. \<not> is_space u"
    and "TICKET_CODE_PATTERN (TICKET_CODE_PREFIX @ strip_prefix (lit ''TKT'') c)"
  shows "parseScanToken s = Some (TICKET_CODE_PREFIX @ strip_prefix (lit ''TKT'') c)"
  using assms by (simp add: parseScanToken_def Let_def remove_spaces_none)

lemma code_ends:
  assumes "\<forall>u \<in> set c. \<not> is_space u" "c \<noteq> []"
  shows "\<not> is_space (hd c)" "\<not> is_space (last c)"
  using assms by simp_all

lemma parse_spaced:
  assumes "TICKET_CODE_PATTERN c" "list_all is_space a" "list_all is_space b"
    and "length (a @ c @ b) \<le> SCAN_INPUT_MAX"
  shows "parseScanToken (a @ c @ b) = Some c"
proof -
  note u = ticket_code_units [OF assms(1)]
  have ne: "c \<noteq> []" using u(2) by auto
  have nd: "trim (normaliseDigits (a @ c @ b)) = c"
  proof -
    have "normaliseDigits c = c" using u(1) by (intro normaliseDigits_plain) (auto simp: plain_unit_def)
    moreover have "list_all is_space (normaliseDigits x) = list_all is_space x" for x
      by (induction x) (simp_all add: normaliseDigits_def)
    ultimately show ?thesis
      using trim_spaces [of "normaliseDigits a" "normaliseDigits b" c] code_ends [OF _ ne] u(1) ne assms(2,3)
      by (simp add: normaliseDigits_def)
  qed
  have "url_code c = None" using u(1) by (intro url_code_plain) auto
  moreover have "toUpperCase c = c" using u(1) by (intro toUpperCase_small) auto
  ultimately show ?thesis
    using parse_upper [of "a @ c @ b" c] ne assms(1,4) u(1) nd finish_parse [OF assms(1)] by simp
qed

lemma parse_lower:
  assumes "TICKET_CODE_PATTERN c"
  shows "parseScanToken (map lower_unit c) = Some c"
proof -
  note u = ticket_code_units [OF assms(1)]
  let ?s = "map lower_unit c"
  have ne: "c \<noteq> []" using u(2) by auto
  have sp: "\<forall>x \<in> set ?s. \<not> is_space x \<and> x \<noteq> 47 \<and> plain_unit x"
  proof
    fix x assume "x \<in> set ?s"
    then obtain y where y: "y \<in> set c" "x = lower_unit y" by auto
    then have "y < 97" "\<not> is_space y" "y \<noteq> 47" using u(1) by blast+
    moreover have "\<not> is_space v \<and> v \<noteq> 47 \<and> plain_unit v" if "97 \<le> v" "v \<le> 122" for v
      using that by (simp add: is_space_def plain_unit_def)
    ultimately show "\<not> is_space x \<and> x \<noteq> 47 \<and> plain_unit x"
      unfolding y(2) lower_unit_def by (simp add: is_upper_def plain_unit_def)
  qed
  have "normaliseDigits ?s = ?s" using sp by (intro normaliseDigits_plain) blast
  moreover have "trim ?s = ?s"
    using code_ends [of ?s] sp ne by (intro trim_closed) blast
  ultimately have t: "trim (normaliseDigits ?s) = ?s" by simp
  have "url_code ?s = None" using sp by (intro url_code_plain) auto
  moreover have "toUpperCase ?s = c" using u(1) by (intro toUpperCase_lower) auto
  ultimately show ?thesis
    using parse_upper [of ?s c] ne assms u t finish_parse [OF assms(1)] by (simp add: SCAN_INPUT_MAX_def)
qed

lemma parse_bare:
  assumes "code_symbols 8 s" "take 3 s \<noteq> lit ''TKT''"
  shows "parseScanToken s = Some (TICKET_CODE_PREFIX @ s)"
proof -
  have u: "\<forall>x \<in> set s. x < 97 \<and> \<not> is_space x \<and> x \<noteq> 47" "length s = 8"
    using code_symbols_plain [OF assms(1)] assms(1) by (auto simp: code_symbols_def)
  have ne: "s \<noteq> []" using u(2) by auto
  have t: "trim (normaliseDigits s) = s"
    using u(1) ne by (subst normaliseDigits_plain) (auto simp: plain_unit_def intro!: trim_closed)
  have "length (lit ''TKT'') = 3" by simp
  then have c: "strip_prefix (lit ''TKT'') s = s" using assms(2) by (simp only: strip_prefix_def if_False)
  have p: "TICKET_CODE_PATTERN (TICKET_CODE_PREFIX @ s)"
    using assms(1) by (simp add: TICKET_CODE_PATTERN_def ticket_prefix(2))
  have "url_code s = None" using u(1) by (intro url_code_plain) auto
  moreover have "toUpperCase s = s" using u(1) by (intro toUpperCase_small) auto
  ultimately show ?thesis
    using parse_upper [of s s] ne u t p by (simp add: SCAN_INPUT_MAX_def c del: lit_simps)
qed

text \<open>The first \<open>/tickets/\<close> of a link is the one before its code.\<close>

lemma url_code_link:
  assumes "url_code (p @ TICKETS_PATH) = None" "\<forall>u \<in> set c. url_char u" "c \<noteq> []"
  shows "url_code (p @ TICKETS_PATH @ c) = Some c"
  using assms(1)
proof (induction p)
  case Nil
  have "takeWhile url_char c = c" using assms(2) by simp
  note tw = this
  have "take 9 (TICKETS_PATH @ c) = TICKETS_PATH" "drop 9 (TICKETS_PATH @ c) = c"
    by (simp_all add: TICKETS_PATH_def)
  moreover obtain x xs where "TICKETS_PATH @ c = x # xs" by (cases "TICKETS_PATH @ c") (auto simp: TICKETS_PATH_def)
  ultimately show ?case unfolding append_Nil using assms(3) by (simp only: url_code.simps Let_def tw simp_thms if_True)
next
  case (Cons a p)
  let ?w = "a # p @ TICKETS_PATH"
  have len: "9 < length ?w" by (simp add: TICKETS_PATH_def lit_def)
  have none: "take 9 ?w = TICKETS_PATH \<Longrightarrow> takeWhile url_char (drop 9 ?w) = []"
    and tl: "url_code (p @ TICKETS_PATH) = None"
    using Cons(2) by (auto simp: Let_def split: if_splits simp del: take_Suc_Cons drop_Suc_Cons)
  have t: "take 9 (a # p @ TICKETS_PATH @ c) = take 9 ?w" using len by simp
  have d: "drop 9 (a # p @ TICKETS_PATH @ c) = drop 9 ?w @ c" using len by simp
  have "takeWhile url_char (drop 9 ?w @ c) = [] \<longleftrightarrow> takeWhile url_char (drop 9 ?w) = []"
    using len by (cases "drop 9 ?w") auto
  then show ?case using none Cons(1) [OF tl] t d by (auto simp: Let_def)
qed

lemma parse_link:
  assumes "TICKET_CODE_PATTERN c" "url_code (p @ TICKETS_PATH) = None"
    and "\<forall>u \<in> set p. plain_unit u" "p \<noteq> []" "\<not> is_space (hd p)"
    and "length p + 21 \<le> SCAN_INPUT_MAX"
  shows "parseScanToken (p @ TICKETS_PATH @ c) = Some c"
proof -
  note u = ticket_code_units [OF assms(1)]
  have ne: "c \<noteq> []" using u(2) by auto
  let ?s = "p @ TICKETS_PATH @ c"
  have "\<forall>x \<in> set ?s. plain_unit x"
    using assms(3) u(1) by (auto simp: TICKETS_PATH_def lit_def plain_unit_def)
  then have t: "trim (normaliseDigits ?s) = ?s"
    using assms(4,5) ne u(1) by (subst normaliseDigits_plain) (auto intro!: trim_closed)
  have "url_code ?s = Some c" using u(1) ne assms(2) by (intro url_code_link) auto
  moreover have "toUpperCase c = c" using u(1) by (intro toUpperCase_small) auto
  moreover have "length ?s \<le> SCAN_INPUT_MAX" "length ?s \<noteq> 0"
    using assms(6) u(2) by (simp_all add: TICKETS_PATH_def lit_def)
  ultimately show ?thesis
    unfolding parseScanToken_def t
    using assms(1) u(1) finish_parse [OF assms(1)] by (simp add: Let_def remove_spaces_none)
qed

text \<open>A text and the text without the spaces around it are one code.\<close>

lemma parse_trim: "parseScanToken s = Some c \<Longrightarrow> parseScanToken (trim s) = Some c"
proof -
  assume p: "parseScanToken s = Some c"
  have t: "trim (normaliseDigits (trim s)) = trim (normaliseDigits s)"
    unfolding normaliseDigits_def by (simp add: trim_map)
  have "trim s \<noteq> []"
  proof
    assume "trim s = []"
    then have "trim (normaliseDigits s) = []" unfolding normaliseDigits_def by (simp add: trim_map)
    then show False using p
      by (simp add: parseScanToken_def Let_def toUpperCase_def remove_spaces_def strip_prefix_def
          TICKET_CODE_PATTERN_def code_symbols_def ticket_prefix(2) split: if_splits)
  qed
  then show ?thesis using p trim_length [of s] unfolding parseScanToken_def t by (auto simp: Let_def split: if_splits)
qed

section \<open>Evaluation\<close>

text \<open>The tables of letters, digits and spaces are looked up only for units outside ASCII.\<close>

lemma upper_unit_ascii [code]:
  "upper_unit c =
    (if is_lower c then [c - 32] else if c < 223 then [c]
     else case map_of UPPER_TO_ASCII c of Some u \<Rightarrow> u | None \<Rightarrow> [c])"
  by (auto simp: upper_unit_def UPPER_TO_ASCII_def)

lemma normalise_unit_code [code]:
  "normalise_unit c =
    (if c < 1632 then c
     else case List.find (\<lambda>z. z \<le> c \<and> c \<le> z + 9) ZEROS of None \<Rightarrow> c | Some z \<Rightarrow> 48 + (c - z))"
  by (simp add: normalise_unit_def ZEROS_def)

lemma is_space_ascii [code]:
  "is_space c =
    (if c < 160 then (9 \<le> c \<and> c \<le> 13) \<or> c = 32
     else c = 160 \<or> c = 5760 \<or> (8192 \<le> c \<and> c \<le> 8202) \<or> c = 8232 \<or> c = 8233 \<or> c = 8239 \<or>
       c = 8287 \<or> c = 12288 \<or> c = 65279)"
  by (auto simp: is_space_def)

end
