(* ===== verification/PhoneSamples.thy ===== *)
theory PhoneSamples
  imports PhoneSync ScanTokens
begin

text \<open>
  A sample door phone: a list of two tickets, the digest taken as the identity, and what the
  phone has after one scan without signal.
\<close>

definition PHONE_ENTRY :: offline_entry where
  "PHONE_ENTRY = \<lparr>le_d = lit ''S:TKT-AAAAAAAA'', le_id = 20, le_name = lit ''Mitu'', le_type = lit ''Early'',
    le_pos = 1, le_of = 2, le_status = TicketIssued, le_inAt = None, le_inBy = None\<rparr>"

definition PHONE_LIST :: offline_list where
  "PHONE_LIST = \<lparr>ol_v = 1, ol_eventId = 1, ol_passId = 7, ol_salt = lit ''S'',
    ol_serverTime = lit ''1970-01-01T00:01:00.000Z'', ol_validFrom = lit ''1970-01-01T00:00:00.000Z'',
    ol_validUntil = lit ''1970-01-01T08:00:00.000Z'',
    ol_entries = [PHONE_ENTRY, PHONE_ENTRY\<lparr>le_d := lit ''S:TKT-BBBBBBBB'', le_id := 21\<rparr>],
    ol_relay = None\<rparr>"

definition LISTED_PHONE :: phone where
  "LISTED_PHONE = refreshList (lit ''North'') PHONE_LIST new_phone"

definition sample_scan :: "instant \<Rightarrow> uuid \<Rightarrow> phone \<Rightarrow> phone_answer option \<times> own_mark list \<times> phone" where
  "sample_scan at i p =
    phone_scan (\<lambda>s. s) (lit ''North'') 7 (Some PHONE_LIST) at (lit ''TKT-AAAAAAAA'') ByQr None i p"

definition SCANNED_PHONE :: phone where
  "SCANNED_PHONE = snd (snd (sample_scan 60000 5 LISTED_PHONE))"

text \<open>The first send times out, the page is opened again and the scan is sent once more.\<close>

definition TIMED_OUT_PHONE :: phone where
  "TIMED_OUT_PHONE = send_round 70000 SyncFailed SCANNED_PHONE"

definition REOPENED_PHONE :: phone where
  "REOPENED_PHONE = reload (lit ''North'') 7 80000 TIMED_OUT_PHONE"

definition RESENT_PHONE :: phone where
  "RESENT_PHONE = send_round 90000 SyncOk REOPENED_PHONE"

text \<open>The queued input of a code is the code.\<close>

lemma logged_code: "parseScanToken raw = Some c \<Longrightarrow> loggableInput raw = c"
proof -
  assume p: "parseScanToken raw = Some c"
  then have "length raw \<le> SCAN_INPUT_MAX" by (simp add: parseScanToken_def split: if_splits)
  then have "length (trim raw) \<le> SCAN_INPUT_MAX" using trim_length [of raw] by simp
  then show ?thesis using parse_trim [OF p] by (simp add: loggableInput_def Let_def)
qed

lemma parse_code: "TICKET_CODE_PATTERN c \<Longrightarrow> parseScanToken c = Some c"
  using parse_spaced [of c "[]" "[]"] ticket_code_units(2) [of c] by (simp add: SCAN_INPUT_MAX_def)

lemma sample_code: "parseScanToken (lit ''TKT-AAAAAAAA'') = Some (lit ''TKT-AAAAAAAA'')"
  by (rule parse_code)
    (simp add: TICKET_CODE_PATTERN_def ticket_prefix(2) code_symbols_def alphabet_units)

lemma sample_dates:
  "dateParse (ol_serverTime PHONE_LIST) = Some 60000" "dateParse (ol_validFrom PHONE_LIST) = Some 0"
  "dateParse (ol_validUntil PHONE_LIST) = Some 28800000"
  by code_simp+

lemma sample_find: "findEntry (\<lambda>s. s) (Some PHONE_LIST) (lit ''TKT-AAAAAAAA'') = Some PHONE_ENTRY"
  unfolding findEntry_def sample_code
  by (simp add: list_index_def offlineDigest_def DIGEST_HEX_def PHONE_LIST_def PHONE_ENTRY_def)

text \<open>What the phone has after the scan.\<close>

definition SCANNED_ITEM :: outbox_item where
  "SCANNED_ITEM = outbox_of 5 7 ByQr (lit ''TKT-AAAAAAAA'') 60000 VAdmitted None (Some PHONE_ENTRY)"

lemma listed_is:
  "LISTED_PHONE = new_phone\<lparr>ph_list := Some PHONE_LIST, ph_writes := [SaveList PHONE_LIST]\<rparr>"
  by (simp add: LISTED_PHONE_def refreshList_def adopt_def Let_def new_phone_def queue_write_def)

lemma sample_judge:
  "judge PHONE_LIST (Some PHONE_ENTRY) at LISTED_PHONE =
    (if at < 0 then judge PHONE_LIST (Some PHONE_ENTRY) at LISTED_PHONE
     else \<lparr>oj_result = OffAdmitted, oj_verdict = VAdmitted, oj_practice = False,
       oj_entry = Some PHONE_ENTRY, oj_at = None, oj_gate = None, oj_byThisPhone = None\<rparr>)"
  by (simp add: judge_def sample_dates or_default_def judgeOffline_def Let_def mark_of_def listed_is
      new_phone_def PHONE_ENTRY_def falsy_def)

lemma scanned_is:
  "sample_scan 60000 5 LISTED_PHONE =
    (Some \<lparr>pa_scanId = Some 5, pa_result = OffAdmitted, pa_practice = False,
       pa_entry = Some PHONE_ENTRY, pa_at = Some (toISOString 60000), pa_gate = Some (lit ''North''),
       pa_byThisPass = None, pa_secondsAgo = None\<rparr>,
     [OwnIn 20 60000],
     new_phone\<lparr>ph_list := Some PHONE_LIST, ph_marks := [(20, own_admit (lit ''North'') 60000)],
       ph_outbox := [SCANNED_ITEM], ph_writes := [SaveList PHONE_LIST, PutItem SCANNED_ITEM]\<rparr>)"
proof -
  have "le_id PHONE_ENTRY = 20" by (simp add: PHONE_ENTRY_def)
  moreover have "\<not> past 60000 (ol_validUntil PHONE_LIST)" by (simp add: past_def sample_dates)
  ultimately show ?thesis
    unfolding sample_scan_def phone_scan_def Let_def sample_find option.case
    by (subst (1 2 3 4 5 6) sample_judge)
      (simp add: phone_reply_def push_item_def queue_write_def set_mark_def listed_is new_phone_def
        SCANNED_ITEM_def falsy_def Let_def)
qed

lemma listed_run: "phone_run new_phone LISTED_PHONE"
  unfolding phone_run_def LISTED_PHONE_def by (intro r_into_rtranclp step_list)

lemma scanned_run: "phone_run new_phone SCANNED_PHONE"
proof -
  have "ph_outbox LISTED_PHONE = [] \<and> ph_kept LISTED_PHONE = [] \<and> ph_writes LISTED_PHONE = [SaveList PHONE_LIST] \<and>
    ph_send LISTED_PHONE = Idle \<and> ph_sent LISTED_PHONE = []"
    by (simp add: listed_is new_phone_def)
  then have "fresh_scan_id 5 LISTED_PHONE" by (auto simp: fresh_scan_id_def copies_def batch_of_def)
  then have "phone_step LISTED_PHONE SCANNED_PHONE"
    unfolding SCANNED_PHONE_def sample_scan_def by (rule step_scan)
  with listed_run show ?thesis unfolding phone_run_def by (rule rtranclp.rtrancl_into_rtrancl)
qed

lemma phone_run_trans: "phone_run p q \<Longrightarrow> phone_run q r \<Longrightarrow> phone_run p r"
  unfolding phone_run_def by (rule rtranclp_trans)

lemma timed_out_run: "phone_run new_phone TIMED_OUT_PHONE"
proof (rule phone_run_trans [OF scanned_run])
  have "ph_send SCANNED_PHONE = Idle" "ph_outbox SCANNED_PHONE \<noteq> []"
    by (simp_all add: SCANNED_PHONE_def scanned_is new_phone_def)
  then show "phone_run SCANNED_PHONE TIMED_OUT_PHONE" unfolding TIMED_OUT_PHONE_def by (rule send_round_run)
qed

lemma timed_out_is:
  "TIMED_OUT_PHONE = new_phone\<lparr>ph_list := Some PHONE_LIST,
     ph_marks := [(20, own_admit (lit ''North'') 60000)], ph_outbox := [attempt SCANNED_ITEM],
     ph_kept := [attempt SCANNED_ITEM], ph_keptList := Some PHONE_LIST, ph_sent := [message SCANNED_ITEM]\<rparr>"
  by (simp add: TIMED_OUT_PHONE_def SCANNED_PHONE_def scanned_is new_phone_def send_round_def
      send_begin_def SYNC_BATCH_def or_default_def writes_land_def numeral_3_eq_3 write_lands_def Let_def
      send_go_def send_reply_def)

lemma reopened_is:
  "REOPENED_PHONE = TIMED_OUT_PHONE\<lparr>ph_marks := [(20, own_admit (lit ''North'') 60000)]\<rparr>"
proof -
  have "ob_passId SCANNED_ITEM = 7" "ob_scannedAt SCANNED_ITEM = 60000" "ob_verdict SCANNED_ITEM = VAdmitted"
    "ob_ticketId SCANNED_ITEM = Some 20"
    by (simp_all add: SCANNED_ITEM_def outbox_of_def PHONE_ENTRY_def)
  then have a: "ob_passId (attempt SCANNED_ITEM) = 7" "ob_scannedAt (attempt SCANNED_ITEM) = 60000"
    "ob_verdict (attempt SCANNED_ITEM) = VAdmitted" "ob_ticketId (attempt SCANNED_ITEM) = Some 20"
    by (simp_all add: attempt_def)
  have l: "ol_v PHONE_LIST = OFFLINE_LIST_VERSION" "ol_passId PHONE_LIST = 7"
    by (simp_all add: PHONE_LIST_def OFFLINE_LIST_VERSION_def)
  show ?thesis
    by (simp add: REOPENED_PHONE_def timed_out_is reload_def Let_def loadOutbox_def a l sample_dates
        adopt_def set_mark_def new_phone_def)
qed

lemma resent_run: "phone_run new_phone RESENT_PHONE"
proof (rule phone_run_trans [OF timed_out_run])
  have "phone_run TIMED_OUT_PHONE REOPENED_PHONE"
    unfolding REOPENED_PHONE_def phone_run_def by (intro r_into_rtranclp step_reload)
  moreover have "ph_send REOPENED_PHONE = Idle" "ph_outbox REOPENED_PHONE \<noteq> []"
    by (simp_all add: reopened_is timed_out_is new_phone_def)
  then have "phone_run REOPENED_PHONE RESENT_PHONE" unfolding RESENT_PHONE_def by (rule send_round_run)
  ultimately show "phone_run TIMED_OUT_PHONE RESENT_PHONE" by (rule phone_run_trans)
qed

end
