(* ===== verification/PhoneClaims.thy ===== *)
theory PhoneClaims
  imports PhoneSamples DoorRules DoorSamples
begin

text \<open>
  The properties of the door phone: what an offline answer rests on, what is sent and kept,
  whose word its marks follow, and what the server makes of a scan that arrives twice.
\<close>

section \<open>Marks\<close>

lemma mark_of_simps [simp]:
  "mark_of (set_mark i m p) j = (if j = i then Some m else mark_of p j)"
  "mark_of (delete_mark i p) j = (if j = i then None else mark_of p j)"
  "mark_of (queue_write w p) j = mark_of p j"
  "mark_of (push_item item p) j = mark_of p j"
  "mark_of (p\<lparr>ph_outbox := os\<rparr>) j = mark_of p j"
  by (simp_all add: mark_of_def set_mark_def delete_mark_def queue_write_def push_item_def
      update_conv' delete_conv')

lemma on_list_marks [simp]:
  "on_list (set_mark i m p) j = on_list p j" "on_list (delete_mark i p) j = on_list p j"
  by (simp_all add: on_list_def set_mark_def delete_mark_def)







section \<open>Answering without signal\<close>

text \<open>C22: What an offline answer rests on. The phone answers only from a list whose time is not
  over; it lets in exactly a listed, live ticket it has no mark for, that the list does not show
  as in, once the doors are open; the scan is queued once, unsent, with the shown verdict; an
  admission marks the ticket as this phone's own and tells the relay, anything else marks
  nothing. The ticket is then no longer let in here.\<close>

theorem phone_scan_spec:
  assumes "phone_scan sha gate passId l at raw by_method supersedes i p = (Some a, told, q)"
  shows "\<exists>current. l = Some current \<and> \<not> past at (ol_validUntil current) \<and>
    (pa_result a = OffAdmitted \<longleftrightarrow>
      (\<exists>e. findEntry sha l raw = Some e \<and> le_status e = TicketIssued \<and> mark_of p (le_id e) = None \<and>
        falsy (le_inAt e) \<and> or_default (dateParse (ol_validFrom current)) at \<le> at)) \<and>
    (\<exists>item. ph_outbox q = ph_outbox p @ [item] \<and> ph_writes q = ph_writes p @ [PutItem item] \<and>
      ob_scanId item = i \<and> ob_passId item = passId \<and> ob_scannedAt item = at \<and> \<not> ob_attempted item \<and>
      ob_input item = loggableInput raw \<and> ob_supersedesScanId item = supersedes \<and>
      ob_ticketId item = map_option le_id (findEntry sha l raw) \<and> ob_verdict item \<noteq> VUndone \<and>
      (ob_verdict item = VAdmitted \<longleftrightarrow> pa_result a = OffAdmitted)) \<and>
    (if pa_result a = OffAdmitted
     then \<exists>e. findEntry sha l raw = Some e \<and> told = [OwnIn (le_id e) at] \<and>
       (\<forall>t. mark_of q t = (if t = le_id e then Some (own_admit gate at) else mark_of p t))
     else told = [] \<and> ph_marks q = ph_marks p)"
proof -
  obtain c where c: "l = Some c" "\<not> past at (ol_validUntil c)"
    using assms by (cases l) (auto simp: phone_scan_def split: if_splits)
  define e where "e = findEntry sha l raw"
  define j where "j = judge c e at p"
  define item where "item = outbox_of i passId by_method raw at (oj_verdict j) supersedes e"
  define marked where "marked = (case e of
      Some x \<Rightarrow> if oj_verdict j = VAdmitted
        then ([OwnIn (le_id x) at], set_mark (le_id x) (own_admit gate at) p) else ([], p)
    | None \<Rightarrow> ([], p))"
  have r: "pa_result a = oj_result j" "told = fst marked" "q = push_item item (snd marked)"
    using assms c(2) unfolding c(1) phone_scan_def option.case Let_def marked_def item_def j_def e_def
    by (auto simp: phone_reply_def Let_def)
  have v: "oj_verdict j = VAdmitted \<longleftrightarrow>
      (\<exists>x. e = Some x \<and> le_status x = TicketIssued \<and> mark_of p (le_id x) = None \<and>
        falsy (le_inAt x) \<and> or_default (dateParse (ol_validFrom c)) at \<le> at)"
    unfolding j_def judge_def judgeOffline_admits by (cases e) (auto split: option.splits)
  have ra: "pa_result a = OffAdmitted \<longleftrightarrow> oj_verdict j = VAdmitted"
    unfolding r(1) j_def judge_def by (rule judgeOffline_admitted)
  have it: "ob_verdict item = oj_verdict j" "oj_verdict j \<noteq> VUndone"
    by (simp_all add: item_def outbox_of_def j_def judge_def judgeOffline_never_undone)
  have o: "ph_outbox (snd marked) = ph_outbox p" "ph_writes (snd marked) = ph_writes p"
    unfolding marked_def by (simp_all add: set_mark_def split: option.split)
  have pushed: "ph_outbox q = ph_outbox p @ [item]" "ph_writes q = ph_writes p @ [PutItem item]"
    "ph_marks q = ph_marks (snd marked)" "\<And>t. mark_of q t = mark_of (snd marked) t"
    unfolding r(3) by (simp_all add: push_item_def queue_write_def o mark_of_def)
  have part3: "\<exists>item. ph_outbox q = ph_outbox p @ [item] \<and> ph_writes q = ph_writes p @ [PutItem item] \<and>
      ob_scanId item = i \<and> ob_passId item = passId \<and> ob_scannedAt item = at \<and> \<not> ob_attempted item \<and>
      ob_input item = loggableInput raw \<and> ob_supersedesScanId item = supersedes \<and>
      ob_ticketId item = map_option le_id e \<and> ob_verdict item \<noteq> VUndone \<and>
      (ob_verdict item = VAdmitted \<longleftrightarrow> pa_result a = OffAdmitted)"
    using it ra pushed(1,2) by (intro exI [of _ item]) (simp add: item_def outbox_of_def)
  have part4: "if pa_result a = OffAdmitted
     then \<exists>x. e = Some x \<and> told = [OwnIn (le_id x) at] \<and>
       (\<forall>t. mark_of q t = (if t = le_id x then Some (own_admit gate at) else mark_of p t))
     else told = [] \<and> ph_marks q = ph_marks p"
    using v unfolding ra r(2) pushed(3,4) marked_def by (cases e) auto
  show ?thesis
    using c v part3 part4 ra unfolding e_def by blast
qed

theorem phone_scan_spec_witness:
  "\<exists>a told q. sample_scan 60000 5 LISTED_PHONE = (Some a, told, q) \<and> pa_result a = OffAdmitted \<and>
    mark_of q 20 = Some (own_admit (lit ''North'') 60000) \<and> told = [OwnIn 20 60000] \<and>
    length (ph_outbox q) = 1"
proof -
  obtain a told q where e: "sample_scan 60000 5 LISTED_PHONE = (Some a, told, q)" "pa_result a = OffAdmitted"
    by (simp add: scanned_is)
  have "le_id PHONE_ENTRY = 20" "ph_outbox LISTED_PHONE = []"
    by (simp_all add: PHONE_ENTRY_def listed_is new_phone_def)
  then show ?thesis
    using phone_scan_spec [OF e(1) [unfolded sample_scan_def]] e unfolding sample_find by auto
qed

section \<open>Sending\<close>

text \<open>C23: Whatever happens - scans, undos, failed sends, writes still under way, the page closed
  and opened again - two messages the phone sent for one scan are the same message, and every
  copy it still keeps of a sent scan says what was sent and is marked as sent, so it is never
  undone on the phone.\<close>

theorem phone_sends_one_story:
  assumes "phone_run new_phone p"
  shows "(\<forall>m m'. m \<in> set (ph_sent p) \<and> m' \<in> set (ph_sent p) \<and> it_scanId m = it_scanId m' \<longrightarrow> m = m') \<and>
    (\<forall>m x. m \<in> set (ph_sent p) \<and> x \<in> set (ph_outbox p) \<union> set (ph_kept p) \<and>
      ob_scanId x = it_scanId m \<longrightarrow> ob_attempted x \<and> message x = m) \<and>
    (\<forall>m now. m \<in> set (ph_sent p) \<longrightarrow> fst (phone_undo now (it_scanId m) p) \<noteq> UndoDone)"
proof -
  have s: "sent_ok p" using phone_run_ok [OF assms phone_ok_new] by (simp add: phone_ok_def)
  have kept: "ob_attempted x \<and> message x = m"
    if "m \<in> set (ph_sent p)" "x \<in> set (ph_outbox p) \<union> set (ph_kept p)" "ob_scanId x = it_scanId m" for m x
  proof -
    have "x \<in> copies p" using that(2) by (auto simp: copies_def)
    then show ?thesis using s that(1,3) unfolding sent_ok_def by blast
  qed
  moreover have "fst (phone_undo now (it_scanId m) p) \<noteq> UndoDone" if m: "m \<in> set (ph_sent p)" for m now
  proof
    assume d: "fst (phone_undo now (it_scanId m) p) = UndoDone"
    then obtain x where x: "outbox_item_of (it_scanId m) p = Some x" "\<not> ob_attempted x"
      by (auto simp: phone_undo_def Let_def localUndo_done split: option.splits if_splits)
    then have "x \<in> set (ph_outbox p)" "ob_scanId x = it_scanId m"
      unfolding outbox_item_of_def by (auto dest: row_by_Some)
    then show False using kept [OF m] x(2) by blast
  qed
  ultimately show ?thesis using s unfolding sent_ok_def by (metis (no_types))
qed

lemma resent_sent: "ph_sent RESENT_PHONE = [message SCANNED_ITEM, message SCANNED_ITEM]"
proof -
  have o: "ph_outbox REOPENED_PHONE = [attempt SCANNED_ITEM]" "ph_sent REOPENED_PHONE = [message SCANNED_ITEM]"
    by (simp_all add: reopened_is timed_out_is)
  then have "distinct (map ob_scanId (ph_outbox REOPENED_PHONE))" by simp
  from send_round_fields(1) [OF this] show ?thesis
    by (simp add: RESENT_PHONE_def o SYNC_BATCH_def)
qed

theorem phone_sends_one_story_witness:
  "length (ph_sent RESENT_PHONE) = 2 \<and> ph_sent RESENT_PHONE ! 0 = ph_sent RESENT_PHONE ! 1 \<and>
    fst (phone_undo 95000 5 RESENT_PHONE) \<noteq> UndoDone"
proof -
  have l: "length (ph_sent RESENT_PHONE) = 2" by (simp add: resent_sent)
  have i: "it_scanId (ph_sent RESENT_PHONE ! 0) = 5" "it_scanId (ph_sent RESENT_PHONE ! 1) = 5"
    by (simp_all add: resent_sent message_def SCANNED_ITEM_def outbox_of_def)
  have m: "ph_sent RESENT_PHONE ! 0 \<in> set (ph_sent RESENT_PHONE)" "ph_sent RESENT_PHONE ! 1 \<in> set (ph_sent RESENT_PHONE)"
    using l by simp_all
  note c = phone_sends_one_story [OF resent_run]
  have "fst (phone_undo 95000 (it_scanId (ph_sent RESENT_PHONE ! 0)) RESENT_PHONE) \<noteq> UndoDone"
    using c m(1) by blast
  moreover have "ph_sent RESENT_PHONE ! 0 = ph_sent RESENT_PHONE ! 1" using c m i by metis
  ultimately show ?thesis using l i by simp
qed

text \<open>C24: Closing the page loses no queued scan. From every reachable state, once the queued
  writes landed, opening the page for a pass brings back exactly the scans of that pass the
  outbox held, oldest first, each once.\<close>

theorem phone_reload_keeps:
  assumes "phone_run new_phone p"
  shows "set (ph_outbox (reload gate passId now (writes_land p))) =
      {x \<in> set (ph_outbox p). ob_passId x = passId} \<and>
    sorted (map ob_scannedAt (ph_outbox (reload gate passId now (writes_land p)))) \<and>
    distinct (map ob_scanId (ph_outbox (reload gate passId now (writes_land p))))"
proof -
  let ?w = "writes_land p"
  let ?mine = "filter (\<lambda>i. ob_passId i = passId) (loadOutbox ?w)"
  have ok: "phone_ok ?w"
    by (rule phone_run_ok [OF writes_land_run phone_run_ok [OF assms phone_ok_new]])
  have "stored_items ?w = ph_kept ?w" by (simp add: stored_items_def)
  then have k: "set (ph_kept ?w) = set (ph_outbox p)" using ok by (simp add: phone_ok_def)
  have "ph_outbox (reload gate passId now ?w) = ?mine"
  proof -
    have "ph_outbox (adopt gate l q) = ph_outbox q" for l q
      using adopt_same [of q gate l] by (simp add: same_outbox_def)
    then show ?thesis unfolding reload_def Let_def by (simp split: option.split)
  qed
  moreover have "set ?mine = {x \<in> set (ph_outbox p). ob_passId x = passId}"
    by (auto simp: loadOutbox_def k)
  moreover have "sorted (map ob_scannedAt ?mine)"
    unfolding loadOutbox_def by (rule sorted_filter) simp
  moreover have "distinct (map ob_scanId (ph_outbox (reload gate passId now ?w)))"
    using reload_ok [OF ok, of gate passId now] by (simp add: phone_ok_def)
  ultimately show ?thesis by simp
qed

theorem phone_reload_keeps_witness:
  "set (ph_outbox (reload (lit ''North'') 7 80000 (writes_land SCANNED_PHONE))) = {SCANNED_ITEM}"
proof -
  have "ph_outbox SCANNED_PHONE = [SCANNED_ITEM]" "ob_passId SCANNED_ITEM = 7"
    by (simp_all add: SCANNED_PHONE_def scanned_is SCANNED_ITEM_def outbox_of_def)
  then show ?thesis using phone_reload_keeps [OF scanned_run, of "lit ''North''" 7 80000] by auto
qed



text \<open>C26: The outbox empties. Sending in batches of fifty, with nothing else happening, ends after at
  most one request per fifty scans when the server takes each of them: every queued scan is
  then sent exactly once, in order, and nothing is left. When the first request fails, sending
  stops and the outbox still holds every scan under the same message.\<close>

theorem outbox_empties:
  assumes "phone_run new_phone p" "ph_send p = Idle"
  shows "((\<forall>j < (length (ph_outbox p) + SYNC_BATCH - 1) div SYNC_BATCH. replies j = SyncOk) \<longrightarrow>
      (\<exists>q. sendOutbox clock replies 0 p = (True, q) \<and> ph_outbox q = [] \<and>
        ph_sent q = ph_sent p @ map message (ph_outbox p))) \<and>
    (ph_outbox p \<noteq> [] \<and> replies 0 = SyncFailed \<longrightarrow>
      (\<exists>q. sendOutbox clock replies 0 p = (False, q) \<and>
        map message (ph_outbox q) = map message (ph_outbox p)))"
proof -
  have ok: "phone_ok p" by (rule phone_run_ok [OF assms(1) phone_ok_new])
  have taken: "(\<forall>j < (length (ph_outbox p) + SYNC_BATCH - 1) div SYNC_BATCH. replies j = SyncOk) \<longrightarrow>
      (\<exists>q. sendOutbox clock replies 0 p = (True, q) \<and> ph_outbox q = [] \<and>
        ph_sent q = ph_sent p @ map message (ph_outbox p))"
    using sendOutbox_empties [OF ok assms(2), of replies 0 clock] by auto
  have d: "distinct (map ob_scanId (ph_outbox p))" using ok by (simp add: phone_ok_def)
  have "map message (take SYNC_BATCH (ph_outbox p)) @ map message (drop SYNC_BATCH (ph_outbox p)) =
      map message (ph_outbox p)" by (simp flip: map_append)
  then have "ph_outbox p \<noteq> [] \<and> replies 0 = SyncFailed \<longrightarrow>
      (\<exists>q. sendOutbox clock replies 0 p = (False, q) \<and>
        map message (ph_outbox q) = map message (ph_outbox p))"
    by (auto simp: sendOutbox.simps [of _ _ _ p] Let_def send_round_fields(3) [OF d] comp_def)
  with taken show ?thesis by (rule conjI)
qed

theorem outbox_empties_witness:
  "\<exists>q. sendOutbox (\<lambda>_. 70000) (\<lambda>_. SyncOk) 0 SCANNED_PHONE = (True, q) \<and> ph_outbox q = [] \<and>
    ph_sent q = [message SCANNED_ITEM]"
proof -
  have "ph_send SCANNED_PHONE = Idle" "ph_outbox SCANNED_PHONE = [SCANNED_ITEM]" "ph_sent SCANNED_PHONE = []"
    by (simp_all add: SCANNED_PHONE_def scanned_is new_phone_def)
  then show ?thesis
    using outbox_empties [OF scanned_run, where replies = "\<lambda>_. SyncOk" and clock = "\<lambda>_. 70000"] by simp
qed

lemma in_map_filter: "y \<in> set (List.map_filter f xs) \<longleftrightarrow> (\<exists>x \<in> set xs. f x = Some y)"
  by (induction xs) (auto simp: List.map_filter_simps split: option.splits)

lemma own_claims_in:
  "OwnIn i t \<in> set (unconfirmedOwnClaims ms os) \<longleftrightarrow>
    (\<exists>m. (i, m) \<in> set ms \<and> mk_source m = FromOwn \<and> mk_knownSince m = None \<and> t = mk_at m)"
proof -
  let ?f = "\<lambda>x. case ob_ticketId x of
      Some i \<Rightarrow> if ob_verdict x = VUndone \<and> map_of ms i = None then Some (OwnUndo i) else None
    | None \<Rightarrow> None"
  have "?f x \<noteq> Some (OwnIn i t)" for x by (simp split: option.split)
  then have "OwnIn i t \<notin> set (List.map_filter ?f os)" unfolding in_map_filter by blast
  then show ?thesis by (force simp: unconfirmedOwnClaims_def)
qed

lemma confirm_one:
  "mark_of (confirm_marks now [a] r) i = map_option (\<lambda>m.
    if ob_ticketId a = Some i \<and> mk_knownSince m = None then m\<lparr>mk_knownSince := Some now\<rparr> else m) (mark_of r i)"
proof (cases "ob_ticketId a")
  case None
  then show ?thesis by (simp add: confirm_marks_def option.map_id0 [unfolded id_def])
next
  case (Some j)
  then show ?thesis
    by (cases "mark_of r j"; cases "j = i"; cases "mark_of r i") (auto simp: confirm_marks_def)
qed

text \<open>What an answered send confirms. When the server took a batch, the mark of every ticket
  in it counts as known to the server and is not told to the relay again when the link opens -
  also when that ticket was let in again meanwhile, by a scan outside the batch that stays in
  the outbox, unsent.\<close>

theorem sync_confirms_by_ticket:
  assumes "phone_run new_phone p" "ph_send p = Asking batch"
    and "x \<in> set batch" "ob_ticketId x = Some i" "mark_of p i = Some m"
  shows "(\<exists>m'. mark_of (send_reply now SyncOk p) i = Some m' \<and> mk_knownSince m' \<noteq> None) \<and>
    (\<forall>t. OwnIn i t \<notin> set (ownClaims (send_reply now SyncOk p))) \<and>
    (\<forall>y \<in> set (ph_outbox p). y \<in> set (ph_outbox (send_reply now SyncOk p)) \<or>
      ob_scanId y \<in> ob_scanId ` set batch)"
proof -
  define q where "q = send_reply now SyncOk p"
  define p1 where "p1 = p\<lparr>ph_inFlight := filter (\<lambda>i. i \<notin> set (map ob_scanId batch)) (ph_inFlight p), ph_send := Idle\<rparr>"
  have q: "ph_marks q = ph_marks (confirm_marks now batch p1)"
    "ph_outbox q = filter (\<lambda>i. ob_scanId i \<notin> set (map ob_scanId batch)) (ph_outbox (confirm_marks now batch p1))"
    by (simp_all add: q_def send_reply_def assms(2) Let_def queue_write_def p1_def)
  have known: "\<exists>m'. mark_of (confirm_marks now xs r) i = Some m' \<and> (x \<in> set xs \<or> mk_knownSince m \<noteq> None \<longrightarrow> mk_knownSince m' \<noteq> None)"
    if "mark_of r i = Some m" for xs r m
    using that
  proof (induction xs arbitrary: r m)
    case Nil
    then show ?case by (simp add: confirm_marks_def)
  next
    case (Cons a xs)
    let ?r = "confirm_marks now [a] r"
    have c: "confirm_marks now (a # xs) r = confirm_marks now xs ?r" by (simp add: confirm_marks_def)
    obtain m1 where m1: "mark_of ?r i = Some m1"
      "ob_ticketId a = Some i \<or> mk_knownSince m \<noteq> None \<longrightarrow> mk_knownSince m1 \<noteq> None"
      using Cons(2) by (simp add: confirm_one split: if_splits)
    from Cons(1) [OF m1(1)] show ?case unfolding c using m1(2) assms(4) by auto
  qed
  have "mark_of p1 i = Some m" using assms(5) by (simp add: p1_def mark_of_def)
  then obtain m' where m': "mark_of q i = Some m'" "mk_knownSince m' \<noteq> None"
    using known [of p1 m batch] assms(3) by (auto simp: mark_of_def q)
  have "marks_ok q" unfolding q_def
    using phone_step_marks [OF step_reply phone_run_marks [OF assms(1) marks_ok_new]] .
  then have "OwnIn i t \<notin> set (ownClaims q)" for t
    using m' unfolding ownClaims_def own_claims_in marks_ok_def mark_of_def
    by (auto dest: eq_key_imp_eq_value)
  moreover have "ph_outbox (confirm_marks now batch p1) = ph_outbox p"
    using rows_same(4) [of p1 now batch] by (simp add: same_outbox_def p1_def)
  ultimately show ?thesis using m' unfolding q_def [symmetric] q(2) by auto
qed

text \<open>The sample: taken back, sent, and let in again while the send is under way.\<close>

definition RESENDING_PHONE :: phone where
  "RESENDING_PHONE =
    send_go (writes_land (send_begin (snd (snd (phone_undo 61000 5 SCANNED_PHONE)))))"

definition UNDONE_ITEM :: outbox_item where
  "UNDONE_ITEM = attempt (SCANNED_ITEM\<lparr>ob_verdict := VUndone\<rparr>)"

definition READMITTED_PHONE :: phone where
  "READMITTED_PHONE = snd (snd (sample_scan 62000 6 RESENDING_PHONE))"

lemma sample_fields:
  "ob_scanId SCANNED_ITEM = 5" "ob_verdict SCANNED_ITEM = VAdmitted" "ob_scannedAt SCANNED_ITEM = 60000"
  "\<not> ob_attempted SCANNED_ITEM" "ob_ticketId SCANNED_ITEM = Some 20"
  by (simp_all add: SCANNED_ITEM_def outbox_of_def PHONE_ENTRY_def)

lemma undo_is:
  "snd (snd (phone_undo 61000 5 SCANNED_PHONE)) =
    new_phone\<lparr>ph_list := Some PHONE_LIST, ph_outbox := [SCANNED_ITEM\<lparr>ob_verdict := VUndone\<rparr>],
      ph_writes := [SaveList PHONE_LIST, PutItem SCANNED_ITEM, PutItem (SCANNED_ITEM\<lparr>ob_verdict := VUndone\<rparr>)]\<rparr>"
  by (simp add: phone_undo_def SCANNED_PHONE_def scanned_is outbox_item_of_def new_phone_def sample_fields
      localUndo_def DOOR_UNDO_WINDOW_MS_def Let_def delete_mark_def queue_write_def)

lemma resending_is:
  "ph_send RESENDING_PHONE = Asking [UNDONE_ITEM]" "ph_outbox RESENDING_PHONE = [UNDONE_ITEM]"
  "ph_marks RESENDING_PHONE = []" "ph_list RESENDING_PHONE = Some PHONE_LIST"
  "ph_kept RESENDING_PHONE = [UNDONE_ITEM]" "ph_writes RESENDING_PHONE = []"
  "ph_sent RESENDING_PHONE = [message UNDONE_ITEM]"
  by (simp_all add: RESENDING_PHONE_def undo_is send_begin_def new_phone_def SYNC_BATCH_def or_default_def
      writes_land_def numeral_3_eq_3 write_lands_def Let_def send_go_def sample_fields UNDONE_ITEM_def)

lemma resending_run: "phone_run new_phone RESENDING_PHONE"
proof -
  let ?u = "snd (snd (phone_undo 61000 5 SCANNED_PHONE))"
  have "phone_step SCANNED_PHONE ?u" by (rule step_undo)
  moreover have "ph_send ?u = Idle" "ph_outbox ?u \<noteq> []" by (simp_all add: undo_is new_phone_def)
  then have "phone_step ?u (send_begin ?u)" by (rule step_begin)
  moreover have "phone_run (send_begin ?u) (writes_land (send_begin ?u))" by (rule writes_land_run)
  moreover have "phone_step (writes_land (send_begin ?u)) RESENDING_PHONE"
    unfolding RESENDING_PHONE_def by (rule step_go) (simp_all add: send_begin_def Let_def)
  ultimately show ?thesis using scanned_run unfolding phone_run_def
    by (meson rtranclp.rtrancl_into_rtrancl rtranclp_trans)
qed

lemma readmitted_is:
  "ph_send READMITTED_PHONE = Asking [UNDONE_ITEM] \<and>
   ph_outbox READMITTED_PHONE = [UNDONE_ITEM, outbox_of 6 7 ByQr (lit ''TKT-AAAAAAAA'') 62000 VAdmitted None (Some PHONE_ENTRY)] \<and>
   mark_of READMITTED_PHONE 20 = Some (own_admit (lit ''North'') 62000)"
proof -
  have e: "le_id PHONE_ENTRY = 20" by (simp add: PHONE_ENTRY_def)
  have "\<not> past 62000 (ol_validUntil PHONE_LIST)" by (simp add: past_def sample_dates)
  moreover have "oj_verdict (judge PHONE_LIST (Some PHONE_ENTRY) 62000 RESENDING_PHONE) = VAdmitted"
    unfolding judge_def judgeOffline_admits
    by (simp add: mark_of_def resending_is sample_dates or_default_def PHONE_ENTRY_def falsy_def)
  ultimately show ?thesis
    unfolding READMITTED_PHONE_def sample_scan_def phone_scan_def Let_def sample_find option.case
    by (simp add: push_item_def queue_write_def set_mark_def resending_is e mark_of_def)
qed

lemma readmitted_run: "phone_run new_phone READMITTED_PHONE"
proof -
  have "ob_scanId UNDONE_ITEM = 5" by (simp add: UNDONE_ITEM_def sample_fields)
  then have "fresh_scan_id 6 RESENDING_PHONE"
    by (simp add: fresh_scan_id_def copies_def batch_of_def resending_is message_def)
  then have "phone_step RESENDING_PHONE READMITTED_PHONE"
    unfolding READMITTED_PHONE_def sample_scan_def by (rule step_scan)
  with resending_run show ?thesis unfolding phone_run_def by (rule rtranclp.rtrancl_into_rtrancl)
qed

theorem sync_confirms_by_ticket_witness:
  "\<exists>y. y \<in> set (ph_outbox (send_reply 63000 SyncOk READMITTED_PHONE)) \<and> ob_verdict y = VAdmitted \<and>
    \<not> ob_attempted y \<and> ob_ticketId y = Some 20 \<and>
    OwnIn 20 62000 \<notin> set (ownClaims (send_reply 63000 SyncOk READMITTED_PHONE))"
proof -
  let ?y = "outbox_of 6 7 ByQr (lit ''TKT-AAAAAAAA'') 62000 VAdmitted None (Some PHONE_ENTRY)"
  have u: "ob_ticketId UNDONE_ITEM = Some 20" "ob_scanId UNDONE_ITEM = 5"
    by (simp_all add: UNDONE_ITEM_def attempt_def sample_fields)
  have r: "ph_send READMITTED_PHONE = Asking [UNDONE_ITEM]" "?y \<in> set (ph_outbox READMITTED_PHONE)"
    "mark_of READMITTED_PHONE 20 = Some (own_admit (lit ''North'') 62000)"
    using readmitted_is by simp_all
  have "UNDONE_ITEM \<in> set [UNDONE_ITEM]" by simp
  note c = sync_confirms_by_ticket [OF readmitted_run r(1) this u(1) r(3), of 63000]
  have "ob_scanId ?y = 6" "ob_verdict ?y = VAdmitted" "\<not> ob_attempted ?y" "ob_ticketId ?y = Some 20"
    by (simp_all add: outbox_of_def PHONE_ENTRY_def)
  then show ?thesis using c r(2) u(2) by (intro exI [of _ ?y]) auto
qed

section \<open>Twice at the server\<close>

text \<open>C27: A scan the phone sends twice is recorded once. When the server recorded one message of a
  phone, any other message the phone sends for the same scan, on any later store, changes
  nothing there, announces nothing and gets the answer of the first - or asks for a fresh scan,
  when that admission was undone since.\<close>

theorem phone_scan_recorded_once:
  assumes "phone_run new_phone p" "m \<in> set (ph_sent p)" "m' \<in> set (ph_sent p)"
    and "it_scanId m' = it_scanId m"
    and "fresh_scan snap env ts now rcv ctx m s = Inr ((answer, anns), s')"
    and "db_ok s" "\<And>k x. db_ok x \<Longrightarrow> db_ok (env k x)"
    and "grown s' w" "door_ok w" "dp_id (cx_pass ctx') = dp_id (cx_pass ctx)"
  shows "\<exists>a. scan w env' later' ts' now' rcv' ctx' m' x = Inr ((a, []), x) \<and>
    an_result a =
      (if an_result answer = Logged ScanAdmitted \<and>
          (\<forall>t \<in> set (tickets w). t_checkedInScanId t \<noteq> Some (it_scanId m))
       then Rescan else an_result answer)"
proof -
  have "sent_ok p" using phone_run_ok [OF assms(1) phone_ok_new] by (simp add: phone_ok_def)
  then have "m' = m" using assms(2-4) unfolding sent_ok_def by blast
  then show ?thesis using scan_again [OF assms(5-10)] by simp
qed

lemma sample_message:
  "message SCANNED_ITEM = \<lparr>it_scanId = 5, it_input = Some (lit ''TKT-AAAAAAAA''), it_ticketId = None,
     it_phoneLast3 = None, it_method = ByQr, it_scannedAt = Some 60000,
     it_offline = Some \<lparr>os_verdict = VAdmitted, os_supersedesScanId = None\<rparr>\<rparr>"
  by (simp add: message_def SCANNED_ITEM_def outbox_of_def logged_code [OF sample_code] del: lit_simps)

theorem phone_scan_recorded_once_witness:
  "\<exists>answer anns s' a. fresh_scan SAMPLE_DB (\<lambda>_ x. x) 9 9 9 DOOR_CTX (ph_sent RESENT_PHONE ! 0) SAMPLE_DB =
      Inr ((answer, anns), s') \<and>
    scan s' (\<lambda>_ x. x) s' 20 20 20 DOOR_CTX (ph_sent RESENT_PHONE ! 1) s' = Inr ((a, []), s') \<and>
    an_result a = Logged ScanAdmitted"
proof -
  define m where "m = message SCANNED_ITEM"
  have sent: "ph_sent RESENT_PHONE = [m, m]" by (simp add: resent_sent m_def)
  have c: "(case fresh_scan SAMPLE_DB (\<lambda>_ x. x) 9 9 9 DOOR_CTX m SAMPLE_DB of
      Inr ((answer, anns), s') \<Rightarrow> an_result answer = Logged ScanAdmitted \<and>
        \<not> list_all (\<lambda>t. t_checkedInScanId t \<noteq> Some (it_scanId m)) (tickets s')
    | _ \<Rightarrow> False)"
    unfolding m_def sample_message by code_simp
  then obtain answer anns s' where
    e: "fresh_scan SAMPLE_DB (\<lambda>_ x. x) 9 9 9 DOOR_CTX m SAMPLE_DB = Inr ((answer, anns), s')"
    by (cases "fresh_scan SAMPLE_DB (\<lambda>_ x. x) 9 9 9 DOOR_CTX m SAMPLE_DB") auto
  have "findScanByScanId (it_scanId m) SAMPLE_DB = None" unfolding m_def sample_message by code_simp
  then have sc: "scan SAMPLE_DB (\<lambda>_ x. x) SAMPLE_DB 9 9 9 DOOR_CTX m SAMPLE_DB = Inr ((answer, anns), s')"
    by (simp add: scan_def e)
  have "door_ok s'" by (rule keepsD [OF scan_door, OF _ sc SAMPLE_DB_door]) (simp_all)
  then obtain a where a: "scan s' (\<lambda>_ x. x) s' 20 20 20 DOOR_CTX m s' = Inr ((a, []), s')"
    "an_result a = (if an_result answer = Logged ScanAdmitted \<and>
        (\<forall>t \<in> set (tickets s'). t_checkedInScanId t \<noteq> Some (it_scanId m))
      then Rescan else an_result answer)"
    using phone_scan_recorded_once [OF resent_run, where m = m and m' = m and env = "\<lambda>_ x. x" and env' = "\<lambda>_ x. x"
        and ctx' = DOOR_CTX and w = s' and x = s' and later' = s' and ts' = 20 and now' = 20 and rcv' = 20,
        OF _ _ refl e SAMPLE_DB_ok]
    by (auto simp: sent grown_refl)
  have "an_result a = Logged ScanAdmitted" using a(2) c unfolding e by (auto simp: list_all_iff)
  then show ?thesis using e a(1) by (simp add: sent)
qed

end
