(* ===== verification/CodeClaims.thy ===== *)
theory CodeClaims
  imports PhoneSamples
begin

text \<open>The round trip of what is printed, scanned and sent: ticket codes.\<close>



end
