(* ===== verification/FixedWindow.thy ===== *)
theory FixedWindow
  imports Prelude
begin

text \<open>
  The contract of a fixed-window counter, which the relay host's message budget and the site's
  rate limiter share: a hit counts in the window that is open, or opens a new one once the old
  one is over. From it alone follows what a budget of \<open>limit\<close> hits per window is worth.
\<close>

text \<open>How many hits of a sequence of moments were within the budget.\<close>

fun hits_within :: "(int \<Rightarrow> 's \<Rightarrow> nat \<times> 's) \<Rightarrow> nat \<Rightarrow> int list \<Rightarrow> 's \<Rightarrow> nat" where
  "hits_within hit limit [] s = 0"
| "hits_within hit limit (t # ts) s =
    (case hit t s of (n, s') \<Rightarrow> (if n \<le> limit then 1 else 0) + hits_within hit limit ts s')"

locale fixed_window =
  fixes hit :: "int \<Rightarrow> 's \<Rightarrow> nat \<times> 's"
    and opened :: "'s \<Rightarrow> int option"
    and counted :: "'s \<Rightarrow> nat"
    and over :: "int \<Rightarrow> int \<Rightarrow> bool"
    and window :: int
  assumes over_window: "over a t \<Longrightarrow> a + window \<le> t"
    and opens: "opened s = None \<or> (\<exists>a. opened s = Some a \<and> over a t) \<Longrightarrow>
      fst (hit t s) = 1 \<and> opened (snd (hit t s)) = Some t \<and> counted (snd (hit t s)) = 1"
    and counts: "opened s = Some a \<Longrightarrow> \<not> over a t \<Longrightarrow>
      fst (hit t s) = counted s + 1 \<and> opened (snd (hit t s)) = Some a \<and>
      counted (snd (hit t s)) = counted s + 1"
begin

text \<open>Inside a window that stays open, the budget is what is left of it.\<close>

lemma within_open:
  assumes "opened s = Some a" "\<forall>t \<in> set ts. t < a + window"
  shows "hits_within hit limit ts s \<le> limit - counted s"
  using assms
proof (induction ts arbitrary: s)
  case (Cons t ts)
  have "\<not> over a t" using over_window [of a t] Cons(3) by auto
  note c = counts [OF Cons(2) this]
  obtain n s' where h: "hit t s = (n, s')" by (cases "hit t s")
  have "hits_within hit limit ts s' \<le> limit - counted s'"
    by (rule Cons(1)) (use c h Cons(3) in auto)
  then show ?case using c h by auto
qed simp

text \<open>Sorted moments less than a window apart fall into at most two windows.\<close>

lemma within_two:
  assumes "sorted ts" "\<forall>t \<in> set ts. lo \<le> t \<and> t < lo + window"
  shows "hits_within hit limit ts s \<le> 2 * limit"
proof -
  have new: "hits_within hit limit (t # ts) s \<le> limit"
    if "opened s = None \<or> (\<exists>a. opened s = Some a \<and> over a t)"
      "sorted (t # ts)" "\<forall>u \<in> set (t # ts). lo \<le> u \<and> u < lo + window" for t ts s
  proof -
    obtain n s' where h: "hit t s = (n, s')" by (cases "hit t s")
    have o: "n = 1" "opened s' = Some t" "counted s' = 1" using opens [OF that(1)] h by auto
    have "\<forall>u \<in> set ts. u < t + window" using that(2,3) by fastforce
    from within_open [OF o(2) this, of limit] show ?thesis using h o by auto
  qed
  have "hits_within hit limit ts s \<le> (case opened s of None \<Rightarrow> limit | Some _ \<Rightarrow> limit + (limit - counted s))"
    using assms
  proof (induction ts arbitrary: s)
    case (Cons t ts)
    show ?case
    proof (cases "\<exists>a. opened s = Some a \<and> \<not> over a t")
      case True
      then obtain a where a: "opened s = Some a" "\<not> over a t" by blast
      obtain n s' where h: "hit t s = (n, s')" by (cases "hit t s")
      have c: "n = counted s + 1" "opened s' = Some a" "counted s' = counted s + 1"
        using counts [OF a] h by auto
      have "hits_within hit limit ts s' \<le> limit + (limit - counted s')"
        using Cons(1) [of s'] Cons(2,3) c by auto
      then show ?thesis using h c a by auto
    next
      case False
      then have "opened s = None \<or> (\<exists>a. opened s = Some a \<and> over a t)" by (cases "opened s") auto
      from new [OF this Cons(2,3)] show ?thesis by (cases "opened s") auto
    qed
  qed (simp split: option.split)
  then show ?thesis by (auto split: option.splits)
qed

end

end
