(* ===== verification/RelayHost.thy ===== *)
theory RelayHost
  imports RelayCatchUp RelayRules FixedWindow "HOL-Library.AList"
begin

text \<open>
  The relay's Durable Object and the worker in front of it, \<open>src/relay/src/index.ts\<close>, with the
  relay pass of \<open>src/src/server/lib/relay-pass.ts\<close>. WebCrypto's HMAC, \<open>atob\<close> and
  \<open>JSON.parse\<close> are parameters. A socket the host closed is gone; times are milliseconds, a
  pass's expiry is in unix seconds.
\<close>

section \<open>The relay pass\<close>

datatype relay_role = GateRole | ServerRole

text \<open>What \<open>JSON.parse\<close> made of the claims: a field that fails its type check is \<open>None\<close>.\<close>

record raw_claims =
  rw_v :: "int option"
  rw_role :: "relay_role option"
  rw_eventId :: "uuid option"
  rw_passId :: "uuid option"
  rw_gate :: "jstr option"
  rw_exp :: "int option"

definition RELAY_SECRET_MIN_LENGTH :: nat where "RELAY_SECRET_MIN_LENGTH = 32"
definition GATE_MAX :: nat where "GATE_MAX = 60"

definition validClaims :: "raw_claims \<Rightarrow> bool" where
  "validClaims c \<longleftrightarrow> rw_v c = Some 1 \<and> rw_role c \<noteq> None \<and> rw_eventId c \<noteq> None \<and> rw_exp c \<noteq> None \<and>
    (rw_role c = Some GateRole \<longrightarrow> rw_passId c \<noteq> None \<and>
      (case rw_gate c of None \<Rightarrow> False | Some g \<Rightarrow> g \<noteq> [] \<and> length g \<le> GATE_MAX))"

text \<open>\<open>text.split('.')\<close>\<close>

fun split_dots :: "jstr \<Rightarrow> jstr list" where
  "split_dots [] = [[]]"
| "split_dots (c # s) =
    (if c = 46 then [] # split_dots s
     else (case split_dots s of p # ps \<Rightarrow> (c # p) # ps | [] \<Rightarrow> [[c]]))"

definition base64url_char :: "nat \<Rightarrow> bool" where
  "base64url_char c \<longleftrightarrow> is_upper c \<or> is_lower c \<or> is_digit c \<or> c = 95 \<or> c = 45"

text \<open>\<open>atob\<close> of the text in the ordinary alphabet, when every character is one of its own.\<close>

definition fromBase64Url :: "(jstr \<Rightarrow> jstr option) \<Rightarrow> jstr \<Rightarrow> jstr option" where
  "fromBase64Url atob s =
    (if list_all base64url_char s
     then atob (map (\<lambda>c. if c = 45 then 43 else if c = 95 then 47 else c) s)
     else None)"

text \<open>\<open>Inl\<close> is the throw on a secret that is too short.\<close>

definition verifyRelayPass ::
  "(jstr \<Rightarrow> jstr option) \<Rightarrow> (jstr \<Rightarrow> jstr \<Rightarrow> jstr \<Rightarrow> bool) \<Rightarrow> (jstr \<Rightarrow> raw_claims option)
    \<Rightarrow> jstr \<Rightarrow> jstr \<Rightarrow> int \<Rightarrow> unit + raw_claims option" where
  "verifyRelayPass atob hmac_ok parse token secret nowMs =
    (case split_dots token of
       [body, sig] \<Rightarrow>
         if body = [] \<or> sig = [] then Inr None
         else (case (fromBase64Url atob sig, fromBase64Url atob body) of
             (Some sigBytes, Some bodyBytes) \<Rightarrow>
               if length secret < RELAY_SECRET_MIN_LENGTH then Inl ()
               else if \<not> hmac_ok secret sigBytes body then Inr None
               else (case parse bodyBytes of
                   None \<Rightarrow> Inr None
                 | Some c \<Rightarrow>
                     if \<not> validClaims c then Inr None
                     else if (case rw_exp c of Some e \<Rightarrow> e * 1000 > nowMs | None \<Rightarrow> False)
                     then Inr (Some c) else Inr None)
           | _ \<Rightarrow> Inr None)
     | _ \<Rightarrow> Inr None)"

section \<open>The worker\<close>

datatype relay_route = RouteHealth | RouteUnknown | RouteAnnounce uuid | RouteWs uuid

record relay_request =
  rq_route :: relay_route
  rq_post :: bool
  rq_bearer :: jstr
  rq_websocket :: bool
  rq_originAllowed :: bool
  rq_token :: jstr
  rq_after :: "int option"
  rq_epoch :: "nat option"

datatype worker_answer =
    Status nat
  | Announce uuid
  | Join uuid uuid jstr int nat "nat option"

text \<open>\<open>fetch\<close> up to the room it hands the request to.\<close>

definition worker_fetch ::
  "(jstr \<Rightarrow> int \<Rightarrow> raw_claims option) \<Rightarrow> int \<Rightarrow> relay_request \<Rightarrow> worker_answer" where
  "worker_fetch verify now rq =
    (case rq_route rq of
       RouteHealth \<Rightarrow> Status 200
     | RouteUnknown \<Rightarrow> Status 404
     | RouteAnnounce eventId \<Rightarrow>
         if \<not> rq_post rq then Status 405
         else (case verify (rq_bearer rq) now of
             None \<Rightarrow> Status 401
           | Some c \<Rightarrow> if rw_role c \<noteq> Some ServerRole \<or> rw_eventId c \<noteq> Some eventId then Status 401
               else Announce eventId)
     | RouteWs eventId \<Rightarrow>
         if \<not> rq_websocket rq then Status 426
         else if \<not> rq_originAllowed rq then Status 403
         else (case verify (rq_token rq) now of
             None \<Rightarrow> Status 401
           | Some c \<Rightarrow> if rw_role c \<noteq> Some GateRole \<or> rw_eventId c \<noteq> Some eventId then Status 401
               else (case (rw_passId c, rw_gate c, rw_exp c) of
                   (Some p, Some g, Some e) \<Rightarrow>
                     Join eventId p g e
                       (case rq_after rq of Some n \<Rightarrow> if n > 0 then nat n else 0 | None \<Rightarrow> 0) (rq_epoch rq)
                 | _ \<Rightarrow> Status 400)))"

section \<open>The host of one room\<close>

record socket =
  sk_id :: nat
  sk_passId :: uuid
  sk_gate :: jstr
  sk_exp :: int

record host =
  ho_room :: room
  ho_schema :: "nat option"
  ho_sockets :: "socket list"
  ho_rate :: "(uuid \<times> int \<times> nat) list"
  ho_alarm :: "int option"

datatype outgoing =
    Sends nat room_message
  | Closes nat nat

definition RATE_PER_WINDOW :: nat where "RATE_PER_WINDOW = 50"
definition RATE_WINDOW_MS :: int where "RATE_WINDOW_MS = 10000"
definition SOCKETS_PER_PASS :: nat where "SOCKETS_PER_PASS = 4"
definition SCHEMA_VERSION :: nat where "SCHEMA_VERSION = 3"
definition KEEP_AFTER_MS :: int where "KEEP_AFTER_MS = 24 * 3600000"

text \<open>A room of an older schema is rebuilt empty under a new epoch; its revocations stay.\<close>

definition ensureSchema :: "nat \<Rightarrow> host \<Rightarrow> host" where
  "ensureSchema epoch h =
    (if ho_schema h \<noteq> Some SCHEMA_VERSION
     then h\<lparr>ho_room := (new_room epoch)\<lparr>rm_revoked := rm_revoked (ho_room h)\<rparr>,
            ho_schema := Some SCHEMA_VERSION\<rparr>
     else h)"

text \<open>The object is constructed again: a new room, a deploy, or a room that slept.\<close>

definition host_wake :: "nat \<Rightarrow> host \<Rightarrow> host" where
  "host_wake epoch h = (ensureSchema epoch h)\<lparr>ho_rate := []\<rparr>"

definition empty_host :: host where
  "empty_host = \<lparr>ho_room = new_room 0, ho_schema = None, ho_sockets = [], ho_rate = [], ho_alarm = None\<rparr>"

definition host_keepUntil :: "int \<Rightarrow> host \<Rightarrow> host" where
  "host_keepUntil at h =
    (if (case ho_alarm h of None \<Rightarrow> True | Some a \<Rightarrow> a < at) then h\<lparr>ho_alarm := Some at\<rparr> else h)"

definition withinRate :: "uuid \<Rightarrow> int \<Rightarrow> host \<Rightarrow> nat \<times> host" where
  "withinRate p now h =
    (case map_of (ho_rate h) p of
       None \<Rightarrow> (1, h\<lparr>ho_rate := AList.update p (now, 1) (ho_rate h)\<rparr>)
     | Some (start, n) \<Rightarrow>
         if now - start > RATE_WINDOW_MS
         then (1, h\<lparr>ho_rate := AList.update p (now, 1) (ho_rate h)\<rparr>)
         else (n + 1, h\<lparr>ho_rate := AList.update p (start, n + 1) (ho_rate h)\<rparr>))"

definition close_socket :: "nat \<Rightarrow> host \<Rightarrow> host" where
  "close_socket i h = h\<lparr>ho_sockets := filter (\<lambda>k. sk_id k \<noteq> i) (ho_sockets h)\<rparr>"

definition expired :: "int \<Rightarrow> socket \<Rightarrow> bool" where
  "expired now k \<longleftrightarrow> sk_exp k * 1000 \<le> now"

text \<open>One message to every socket but the sender's; an expired pass is closed instead.\<close>

definition broadcast_one ::
  "int \<Rightarrow> nat option \<Rightarrow> room_message \<Rightarrow> host \<Rightarrow> outgoing list \<times> host" where
  "broadcast_one now skip msg h =
    (let there = filter (\<lambda>k. Some (sk_id k) \<noteq> skip) (ho_sockets h)
     in (map (\<lambda>k. if expired now k then Closes (sk_id k) 4001 else Sends (sk_id k) msg) there,
         h\<lparr>ho_sockets := filter (\<lambda>k. Some (sk_id k) = skip \<or> \<not> expired now k) (ho_sockets h)\<rparr>))"

fun broadcast_all ::
  "int \<Rightarrow> nat option \<Rightarrow> room_message list \<Rightarrow> host \<Rightarrow> outgoing list \<times> host" where
  "broadcast_all now skip [] h = ([], h)"
| "broadcast_all now skip (m # ms) h =
    (let r = broadcast_one now skip m h; r' = broadcast_all now skip ms (snd r)
     in (fst r @ fst r', snd r'))"

definition host_apply :: "int \<Rightarrow> room_action \<Rightarrow> nat option \<Rightarrow> host \<Rightarrow> outgoing list \<times> host" where
  "host_apply now act who h =
    (case act of
       Reject \<Rightarrow> (case who of Some i \<Rightarrow> ([Closes i 1008], close_socket i h) | None \<Rightarrow> ([], h))
     | Ok a \<Rightarrow>
         (let (sent, h1) = broadcast_all now (if ac_skipSender a then who else None) (ac_broadcast a) h;
              (shut, h2) = (case ac_closePass a of
                  None \<Rightarrow> ([], h1)
                | Some p \<Rightarrow>
                    (map (\<lambda>k. Closes (sk_id k) 4003) (filter (\<lambda>k. sk_passId k = p) (ho_sockets h1)),
                     h1\<lparr>ho_sockets := filter (\<lambda>k. sk_passId k \<noteq> p) (ho_sockets h1)\<rparr>));
              h3 = (case ac_keepUntil a of
                  None \<Rightarrow> h2 | Some u \<Rightarrow> if u = 0 then h2 else host_keepUntil (u + KEEP_AFTER_MS) h2)
          in (sent @ shut, h3)))"

text \<open>A door phone joins; \<open>sock\<close> is the new socket, \<open>fuel\<close> the pages of its catch-up.\<close>

definition host_join ::
  "nat \<Rightarrow> nat \<Rightarrow> uuid \<Rightarrow> jstr \<Rightarrow> int \<Rightarrow> nat \<Rightarrow> nat option \<Rightarrow> host \<Rightarrow> nat \<times> outgoing list \<times> host" where
  "host_join fuel sock p gate exp after_seq epoch h =
    (if gate = [] then (400, [], h)
     else if isRevoked p (ho_room h) then (401, [], h)
     else
       (let same = filter (\<lambda>k. sk_passId k = p) (ho_sockets h);
            old = take (length same + 1 - SOCKETS_PER_PASS) same;
            h1 = h\<lparr>ho_sockets := filter (\<lambda>k. k \<notin> set old) (ho_sockets h) @
              [\<lparr>sk_id = sock, sk_passId = p, sk_gate = gate, sk_exp = exp\<rparr>]\<rparr>
        in (101,
            map (\<lambda>k. Closes (sk_id k) 4008) old @
            map (Sends sock) (or_default (backlog fuel after_seq epoch (ho_room h)) []),
            host_keepUntil (exp * 1000 + KEEP_AFTER_MS) h1)))"

text \<open>A message on a socket; \<open>None\<close> as its text is one that is not a string.\<close>

definition host_message ::
  "int \<Rightarrow> socket \<Rightarrow> (nat \<times> phone_body) option \<Rightarrow> host \<Rightarrow> outgoing list \<times> host" where
  "host_message now k text h =
    (if expired now k then ([Closes (sk_id k) 4001], close_socket (sk_id k) h)
     else case text of
         None \<Rightarrow> ([Closes (sk_id k) 1008], close_socket (sk_id k) h)
       | Some (len, body) \<Rightarrow>
           (let (n, h1) = withinRate (sk_passId k) now h
            in if n > RATE_PER_WINDOW then ([Closes (sk_id k) 1008], close_socket (sk_id k) h1)
               else
                 (let (act, m) = fromPhone now \<lparr>sd_passId = sk_passId k, sd_gate = sk_gate k\<rparr> len body (ho_room h1)
                  in host_apply now act (Some (sk_id k)) (h1\<lparr>ho_room := m\<rparr>))))"

text \<open>An announcement of the server; \<open>None\<close> is a body that is no JSON.\<close>

definition host_announce :: "int \<Rightarrow> server_body option \<Rightarrow> host \<Rightarrow> nat \<times> outgoing list \<times> host" where
  "host_announce now body h =
    (case body of
       None \<Rightarrow> (400, [], h)
     | Some b \<Rightarrow>
         (case fromServer b (ho_room h) of
            (None, m) \<Rightarrow> (400, [], h\<lparr>ho_room := m\<rparr>)
          | (Some a, m) \<Rightarrow>
              (let (out, h1) = host_apply now (Ok a) None (h\<lparr>ho_room := m\<rparr>)
               in (204, out, host_keepUntil (now + KEEP_AFTER_MS) h1))))"

text \<open>The alarm: expired sockets go; with none left, everything stored goes.\<close>

definition host_alarm :: "int \<Rightarrow> nat \<Rightarrow> host \<Rightarrow> outgoing list \<times> host" where
  "host_alarm now epoch h =
    (let live = filter (\<lambda>k. \<not> expired now k) (ho_sockets h);
         shut = map (\<lambda>k. Closes (sk_id k) 4001) (filter (expired now) (ho_sockets h));
         h1 = h\<lparr>ho_sockets := live\<rparr>
     in if live \<noteq> [] then (shut, h1\<lparr>ho_alarm := Some (now + KEEP_AFTER_MS)\<rparr>)
        else (shut, ensureSchema epoch
          (h1\<lparr>ho_room := new_room 0, ho_schema := None, ho_alarm := None\<rparr>)))"

text \<open>A phone hangs up.\<close>

definition host_hangup :: "nat \<Rightarrow> host \<Rightarrow> host" where
  "host_hangup i h = close_socket i h"

end
