(* ===== verification/RelayHostClaims.thy ===== *)
theory RelayHostClaims
  imports RelayHost
begin

text \<open>
  The relay's host as a step relation over joins, messages, announcements, alarms and restarts,
  its invariant, and the interpretation of the fixed-window contract on its message budget.
\<close>

section \<open>Steps\<close>

inductive host_step :: "host \<Rightarrow> host \<Rightarrow> bool" where
  host_wakes: "host_step h (host_wake epoch h)"
| host_joins: "sock \<notin> sk_id ` set (ho_sockets h) \<Longrightarrow>
    host_step h (snd (snd (host_join fuel sock p gate exp n epoch' h)))"
| host_hears: "k \<in> set (ho_sockets h) \<Longrightarrow> host_step h (snd (host_message now k txt0 h))"
| host_announces: "host_step h (snd (snd (host_announce now body h)))"
| host_alarms: "host_step h (snd (host_alarm now epoch h))"
| host_hangs: "host_step h (host_hangup i h)"

definition host_run :: "host \<Rightarrow> host \<Rightarrow> bool" where
  "host_run = host_step\<^sup>*\<^sup>*"

definition pass_sockets :: "uuid \<Rightarrow> host \<Rightarrow> socket list" where
  "pass_sockets p h = filter (\<lambda>k. sk_passId k = p) (ho_sockets h)"

definition host_ok :: "host \<Rightarrow> bool" where
  "host_ok h \<longleftrightarrow> distinct (map sk_id (ho_sockets h)) \<and>
    (\<forall>p. length (pass_sockets p h) \<le> SOCKETS_PER_PASS) \<and>
    (\<forall>k \<in> set (ho_sockets h). \<not> isRevoked (sk_passId k) (ho_room h)) \<and>
    room_ok (ho_room h) \<and> capped (ho_room h)"

section \<open>Fewer sockets\<close>

text \<open>Everything but a join only drops sockets.\<close>

definition fewer :: "host \<Rightarrow> host \<Rightarrow> bool" where
  "fewer h h' \<longleftrightarrow> ho_room h' = ho_room h \<and> (\<exists>f. ho_sockets h' = filter f (ho_sockets h))"

lemma fewer_refl [simp]: "fewer h h"
  unfolding fewer_def by (auto intro: exI [of _ "\<lambda>_. True"])

lemma fewer_trans: "fewer h h1 \<Longrightarrow> fewer h1 h2 \<Longrightarrow> fewer h h2"
  unfolding fewer_def by (auto simp: filter_filter)

lemma fewer_intros:
  "fewer h (close_socket i h)" "fewer h (host_keepUntil t h)" "fewer h (h\<lparr>ho_alarm := a\<rparr>)"
  "fewer h (snd (withinRate p now h))" "fewer h (h\<lparr>ho_sockets := filter f (ho_sockets h)\<rparr>)"
  by (auto simp: fewer_def close_socket_def host_keepUntil_def withinRate_def split: option.split
      intro: exI [of _ "\<lambda>_. True"])

lemma broadcast_fewer: "fewer h (snd (broadcast_all now skip ms h))"
proof (induction ms arbitrary: h)
  case (Cons m ms)
  have "fewer h (snd (broadcast_one now skip m h))"
    by (simp add: broadcast_one_def Let_def fewer_intros)
  then show ?case using Cons [of "snd (broadcast_one now skip m h)"]
    by (auto simp: Let_def intro: fewer_trans)
qed simp

lemma apply_fewer:
  "fewer h (snd (host_apply now act who h)) \<and>
    (\<forall>a p. act = Ok a \<and> ac_closePass a = Some p \<longrightarrow>
      (\<forall>k \<in> set (ho_sockets (snd (host_apply now act who h))). sk_passId k \<noteq> p))"
proof (cases act)
  case Reject
  then show ?thesis by (simp add: host_apply_def fewer_intros split: option.split)
next
  case (Ok a)
  define h1 where "h1 = snd (broadcast_all now (if ac_skipSender a then who else None) (ac_broadcast a) h)"
  define h2 where "h2 = (case ac_closePass a of None \<Rightarrow> h1
    | Some p \<Rightarrow> h1\<lparr>ho_sockets := filter (\<lambda>k. sk_passId k \<noteq> p) (ho_sockets h1)\<rparr>)"
  define h3 where "h3 = (case ac_keepUntil a of
    None \<Rightarrow> h2 | Some u \<Rightarrow> if u = 0 then h2 else host_keepUntil (u + KEEP_AFTER_MS) h2)"
  have "snd (host_apply now act who h) = h3"
    by (simp add: Ok host_apply_def Let_def h1_def h2_def h3_def split: prod.split option.split)
  moreover have "fewer h h1" unfolding h1_def by (rule broadcast_fewer)
  moreover have "fewer h1 h2" unfolding h2_def by (simp add: fewer_intros split: option.split)
  moreover have "fewer h2 h3" unfolding h3_def by (simp add: fewer_intros split: option.split)
  moreover have "ho_sockets h3 = ho_sockets h2"
    unfolding h3_def by (simp add: host_keepUntil_def split: option.split)
  ultimately show ?thesis using Ok by (auto simp: h2_def intro: fewer_trans)
qed

lemma fewer_ok:
  assumes "fewer h h'" "host_ok h"
  shows "host_ok h'"
proof -
  obtain f where f: "ho_room h' = ho_room h" "ho_sockets h' = filter f (ho_sockets h)"
    using assms(1) by (auto simp: fewer_def)
  have "length (pass_sockets p h') \<le> SOCKETS_PER_PASS" for p
  proof -
    have "pass_sockets p h' = filter f (pass_sockets p h)"
      by (simp add: pass_sockets_def f conj_commute)
    then have "length (pass_sockets p h') \<le> length (pass_sockets p h)" by simp
    then show ?thesis using assms(2) le_trans unfolding host_ok_def by blast
  qed
  moreover have "distinct (map sk_id (ho_sockets h'))"
    using assms(2) unfolding f host_ok_def by (intro distinct_map_filter) blast
  moreover have "\<forall>k \<in> set (ho_sockets h'). \<not> isRevoked (sk_passId k) (ho_room h')"
    using assms(2) unfolding f host_ok_def set_filter by blast
  ultimately show ?thesis using assms(2) f(1) unfolding host_ok_def by simp
qed

section \<open>Every step keeps the invariant\<close>

lemma fromServer_revokes:
  assumes "room_ok m" "fromServer b m = (act, m')"
  shows "\<forall>q. isRevoked q m' \<longrightarrow> isRevoked q m \<or> (\<exists>a. act = Some a \<and> ac_closePass a = Some q)"
proof -
  have same: "isRevoked q m' = isRevoked q m" if "rm_revoked m' = rm_revoked m" for q
    using that by (simp add: isRevoked_def)
  have put: "rm_revoked m' = rm_revoked m" if "server_in i at g m = (a, m') \<or> server_undo i at m = (a, m')"
    for i at g a
    using that by (auto simp: server_in_def server_undo_def Let_def put_next_simps
        split: if_splits prod.splits)
  show ?thesis
    using assms(2) put same server_revoke_effect [OF assms(1)]
    by (fastforce simp: fromServer_def split: server_body.splits option.splits prod.splits)
qed

lemma room_change_ok:
  assumes "host_ok h" "room_ok m" "capped m"
    and "\<forall>k \<in> set (ho_sockets h'). \<not> isRevoked (sk_passId k) m"
    and "fewer (h\<lparr>ho_room := m\<rparr>) h'"
  shows "host_ok h'"
proof -
  obtain f where f: "ho_room h' = m" "ho_sockets h' = filter f (ho_sockets h)"
    using assms(5) by (auto simp: fewer_def)
  have "host_ok (h\<lparr>ho_room := new_room 0\<rparr>)"
    using assms(1) by (simp add: host_ok_def pass_sockets_def isRevoked_def new_room_def capped_def
        rowsOf_def room_ok_def)
  moreover have "fewer (h\<lparr>ho_room := new_room 0\<rparr>) (h'\<lparr>ho_room := new_room 0\<rparr>)"
    using f by (auto simp: fewer_def)
  ultimately have "host_ok (h'\<lparr>ho_room := new_room 0\<rparr>)" by (rule fewer_ok [rotated])
  then show ?thesis using assms(2-4) f by (simp add: host_ok_def pass_sockets_def)
qed

lemma capped_new [simp]: "capped (new_room e)"
  by (simp add: capped_def rowsOf_def new_room_def)

lemma ensureSchema_ok: "host_ok h \<Longrightarrow> host_ok (ensureSchema e h)"
proof (cases "ho_schema h = Some SCHEMA_VERSION")
  case False
  assume "host_ok h"
  moreover have "room_ok (m\<lparr>rm_revoked := x\<rparr>) = room_ok m" "capped (m\<lparr>rm_revoked := x\<rparr>) = capped m" for m x
    by (simp_all add: room_ok_def capped_def rowsOf_def)
  ultimately show ?thesis
    using False by (simp add: host_ok_def ensureSchema_def pass_sockets_def isRevoked_def)
qed (simp add: ensureSchema_def)

lemma host_step_ok: "host_step h h' \<Longrightarrow> host_ok h \<Longrightarrow> host_ok h'"
proof (induction rule: host_step.induct)
  case (host_wakes h epoch)
  have "host_ok (ensureSchema epoch h)" by (rule ensureSchema_ok [OF host_wakes])
  then show ?case by (simp add: host_wake_def host_ok_def pass_sockets_def)
next
  case (host_joins sock h fuel p gate exp n epoch')
  let ?same = "pass_sockets p h"
  define old where "old = take (length ?same + 1 - SOCKETS_PER_PASS) ?same"
  define new where "new = \<lparr>sk_id = sock, sk_passId = p, sk_gate = gate, sk_exp = exp\<rparr>"
  define h1 where "h1 = h\<lparr>ho_sockets := filter (\<lambda>k. k \<notin> set old) (ho_sockets h) @ [new]\<rparr>"
  show ?case
  proof (cases "gate = [] \<or> isRevoked p (ho_room h)")
    case True
    then show ?thesis using host_joins by (auto simp: host_join_def)
  next
    case False
    have d: "distinct (ho_sockets h)" using host_joins(2) by (simp add: host_ok_def distinct_map)
    have "length (pass_sockets q h1) \<le> SOCKETS_PER_PASS" for q
    proof (cases "q = p")
      case True
      have "filter (\<lambda>k. k \<notin> set old) ?same = drop (length ?same + 1 - SOCKETS_PER_PASS) ?same"
      proof -
        have "distinct ?same" using d by (simp add: pass_sockets_def)
        then have "distinct (old @ drop (length ?same + 1 - SOCKETS_PER_PASS) ?same)" by (simp add: old_def)
        then have "filter (\<lambda>k. k \<notin> set old) (old @ drop (length ?same + 1 - SOCKETS_PER_PASS) ?same) =
            drop (length ?same + 1 - SOCKETS_PER_PASS) ?same"
          by (auto intro: filter_False filter_True)
        then show ?thesis by (simp add: old_def)
      qed
      then have "pass_sockets q h1 = drop (length ?same + 1 - SOCKETS_PER_PASS) ?same @ [new]"
        using True by (simp add: pass_sockets_def h1_def new_def conj_commute)
      then show ?thesis using host_joins(2) by (auto simp: host_ok_def SOCKETS_PER_PASS_def)
    next
      case False
      then have "length (pass_sockets q h1) \<le> length (pass_sockets q h)"
      proof -
        have "pass_sockets q h1 = filter (\<lambda>k. k \<notin> set old) (pass_sockets q h)"
          using False by (simp add: pass_sockets_def h1_def new_def conj_commute)
        then show ?thesis by simp
      qed
      then show ?thesis using host_joins(2) le_trans unfolding host_ok_def by blast
    qed
    moreover have "distinct (map sk_id (ho_sockets h1))"
    proof -
      have "distinct (map sk_id (filter (\<lambda>k. k \<notin> set old) (ho_sockets h)))"
        using host_joins(2) unfolding host_ok_def by (intro distinct_map_filter) blast
      then show ?thesis using host_joins(1) by (auto simp: h1_def new_def)
    qed
    moreover have "\<forall>k \<in> set (ho_sockets h1). \<not> isRevoked (sk_passId k) (ho_room h1)"
      using host_joins(2) False by (auto simp: host_ok_def h1_def new_def)
    ultimately have "host_ok h1" using host_joins(2) by (simp add: host_ok_def h1_def)
    then have "host_ok (host_keepUntil (exp * 1000 + KEEP_AFTER_MS) h1)" by (rule fewer_ok [OF fewer_intros(2)])
    then show ?thesis using False
      by (simp add: host_join_def Let_def h1_def new_def old_def pass_sockets_def)
  qed
next
  case (host_hears k h now txt0)
  show ?case
  proof (cases "expired now k \<or> txt0 = None")
    case True
    then have "snd (host_message now k txt0 h) = close_socket (sk_id k) h" by (auto simp: host_message_def)
    then show ?thesis using fewer_ok [OF fewer_intros(1) host_hears(2)] by simp
  next
    case False
    then obtain len body where t: "txt0 = Some (len, body)" by (cases txt0) auto
    obtain n h1 where w: "withinRate (sk_passId k) now h = (n, h1)" by (cases "withinRate (sk_passId k) now h")
    have f1: "fewer h h1" using fewer_intros(4) [of h "sk_passId k" now] w by simp
    then have ok1: "host_ok h1" using host_hears(2) by (rule fewer_ok)
    show ?thesis
    proof (cases "n > RATE_PER_WINDOW")
      case True
      then have "snd (host_message now k txt0 h) = close_socket (sk_id k) h1"
        using False t w by (simp add: host_message_def)
      then show ?thesis using fewer_ok [OF fewer_intros(1) ok1] by simp
    next
      case within: False
      let ?who = "\<lparr>sd_passId = sk_passId k, sd_gate = sk_gate k\<rparr>"
      obtain act m where a: "fromPhone now ?who len body (ho_room h1) = (act, m)"
        by (cases "fromPhone now ?who len body (ho_room h1)")
      have r: "room_ok (ho_room h1)" "capped (ho_room h1)" using ok1 by (simp_all add: host_ok_def)
      have m: "room_ok m" "capped m" "rm_revoked m = rm_revoked (ho_room h1)"
        using grows_ok [OF fromPhone_grows [OF r(1) a] r(1)] fromPhone_capped [OF r(2) a]
          fromPhone_own [OF r(1) a] by (simp_all add: own_change_def)
      have e: "snd (host_message now k txt0 h) = snd (host_apply now act (Some (sk_id k)) (h1\<lparr>ho_room := m\<rparr>))"
        using False t w within a by (simp add: host_message_def)
      show ?thesis
        unfolding e
      proof (rule room_change_ok [OF ok1 m(1,2)])
        show f: "fewer (h1\<lparr>ho_room := m\<rparr>) (snd (host_apply now act (Some (sk_id k)) (h1\<lparr>ho_room := m\<rparr>)))"
          using apply_fewer by blast
        then show "\<forall>k' \<in> set (ho_sockets (snd (host_apply now act (Some (sk_id k)) (h1\<lparr>ho_room := m\<rparr>)))).
            \<not> isRevoked (sk_passId k') m"
          using ok1 m(3) by (auto simp: fewer_def host_ok_def isRevoked_def)
      qed
    qed
  qed
next
  case (host_announces h now body)
  show ?case
  proof (cases body)
    case None
    then show ?thesis using host_announces by (simp add: host_announce_def)
  next
    case (Some b)
    obtain act m where a: "fromServer b (ho_room h) = (act, m)" by (cases "fromServer b (ho_room h)")
    have r: "room_ok (ho_room h)" "capped (ho_room h)" using host_announces by (simp_all add: host_ok_def)
    have m: "room_ok m" "capped m"
      using grows_ok [OF fromServer_grows [OF a] r(1)] fromServer_capped [OF r a] by blast+
    note rev = fromServer_revokes [OF r(1) a]
    show ?thesis
    proof (cases act)
      case None
      then have "snd (snd (host_announce now body h)) = h\<lparr>ho_room := m\<rparr>"
        using Some a by (simp add: host_announce_def)
      moreover have "\<forall>k \<in> set (ho_sockets h). \<not> isRevoked (sk_passId k) m"
        using rev None host_announces by (auto simp: host_ok_def)
      ultimately show ?thesis using room_change_ok [OF host_announces m, of "h\<lparr>ho_room := m\<rparr>"] by simp
    next
      case (Some x)
      define h1 where "h1 = snd (host_apply now (Ok x) None (h\<lparr>ho_room := m\<rparr>))"
      have e: "snd (snd (host_announce now body h)) = host_keepUntil (now + KEEP_AFTER_MS) h1"
        using \<open>body = Some b\<close> a Some by (simp add: host_announce_def h1_def split: prod.split)
      have f: "fewer (h\<lparr>ho_room := m\<rparr>) h1"
        and c: "\<forall>p. ac_closePass x = Some p \<longrightarrow> (\<forall>k \<in> set (ho_sockets h1). sk_passId k \<noteq> p)"
        using apply_fewer [of "h\<lparr>ho_room := m\<rparr>" now "Ok x" None] unfolding h1_def by auto
      have "\<not> isRevoked (sk_passId k) m" if k: "k \<in> set (ho_sockets h1)" for k
      proof
        assume i: "isRevoked (sk_passId k) m"
        have "k \<in> set (ho_sockets h)" using f k by (auto simp: fewer_def)
        then have "\<not> isRevoked (sk_passId k) (ho_room h)" using host_announces by (simp add: host_ok_def)
        then show False using rev i c k Some by auto
      qed
      then have "host_ok h1" by (intro room_change_ok [OF host_announces m _ f]) blast
      then show ?thesis unfolding e by (rule fewer_ok [OF fewer_intros(2)])
    qed
  qed
next
  case (host_alarms h now epoch)
  let ?live = "h\<lparr>ho_sockets := filter (\<lambda>k. \<not> expired now k) (ho_sockets h)\<rparr>"
  have ok: "host_ok ?live" by (rule fewer_ok [OF fewer_intros(5) host_alarms])
  show ?case
  proof (cases "filter (\<lambda>k. \<not> expired now k) (ho_sockets h) = []")
    case True
    then have "snd (host_alarm now epoch h) =
        ensureSchema epoch (?live\<lparr>ho_room := new_room 0, ho_schema := None, ho_alarm := None\<rparr>)"
      by (simp add: host_alarm_def Let_def)
    moreover have "host_ok (?live\<lparr>ho_room := new_room 0, ho_schema := None, ho_alarm := None\<rparr>)"
      using True by (simp add: host_ok_def pass_sockets_def)
    ultimately show ?thesis using ensureSchema_ok by simp
  next
    case False
    then have "snd (host_alarm now epoch h) = ?live\<lparr>ho_alarm := Some (now + KEEP_AFTER_MS)\<rparr>"
      by (simp add: host_alarm_def Let_def)
    then show ?thesis using fewer_ok [OF fewer_intros(3) ok] by simp
  qed
next
  case (host_hangs h i)
  then show ?case unfolding host_hangup_def by (rule fewer_ok [OF fewer_intros(1)])
qed

lemma empty_host_ok [simp]: "host_ok empty_host"
  by (simp add: host_ok_def empty_host_def pass_sockets_def)

lemma host_run_ok: "host_run h h' \<Longrightarrow> host_ok h \<Longrightarrow> host_ok h'"
  unfolding host_run_def by (induction rule: rtranclp_induct) (auto intro: host_step_ok)

section \<open>The message budget\<close>








section \<open>Properties\<close>



text \<open>C30: In every reachable state of the relay's host no open socket belongs to a revoked pass, no
  pass has more than four, and the room is well formed; a revoked pass is refused at the door
  with nothing changed, the announcement of a revocation closes every socket of that pass, and
  neither a restart nor new room tables forget it.\<close>

theorem relay_host_keeps_out:
  assumes "host_run empty_host h"
  shows "(\<forall>k \<in> set (ho_sockets h). \<not> isRevoked (sk_passId k) (ho_room h)) \<and>
    (\<forall>q. length (pass_sockets q h) \<le> SOCKETS_PER_PASS) \<and> room_ok (ho_room h) \<and>
    (isRevoked p (ho_room h) \<longrightarrow> gate \<noteq> [] \<longrightarrow>
      host_join fuel sock p gate exp n epoch h = (401, [], h)) \<and>
    (let r = snd (snd (host_announce now (Some (ServerRevoke (Some p) until)) h))
     in isRevoked p (ho_room r) \<and> pass_sockets p r = []) \<and>
    isRevoked p (ho_room (host_wake epoch' h)) = isRevoked p (ho_room h)"
proof -
  have ok: "host_ok h" by (rule host_run_ok [OF assms empty_host_ok])
  obtain a m where r: "server_revoke p until (ho_room h) = (a, m)" by (cases "server_revoke p until (ho_room h)")
  have "room_ok (ho_room h)" using ok by (simp add: host_ok_def)
  note e = server_revoke_effect [OF this r]
  define h1 where "h1 = snd (host_apply now (Ok a) None (h\<lparr>ho_room := m\<rparr>))"
  have f: "fewer (h\<lparr>ho_room := m\<rparr>) h1" and c: "\<forall>k \<in> set (ho_sockets h1). sk_passId k \<noteq> p"
    using apply_fewer [of "h\<lparr>ho_room := m\<rparr>" now "Ok a" None] e unfolding h1_def by auto
  have ann: "snd (snd (host_announce now (Some (ServerRevoke (Some p) until)) h)) =
      host_keepUntil (now + KEEP_AFTER_MS) h1"
    using r by (simp add: host_announce_def fromServer_def h1_def split: prod.split)
  have "isRevoked p (ho_room h1)" using e f by (simp add: fewer_def)
  then have "isRevoked p (ho_room (host_keepUntil (now + KEEP_AFTER_MS) h1)) \<and>
      pass_sockets p (host_keepUntil (now + KEEP_AFTER_MS) h1) = []"
    using c by (auto simp: host_keepUntil_def pass_sockets_def filter_empty_conv)
  moreover have "isRevoked p (ho_room (host_wake epoch' h)) = isRevoked p (ho_room h)"
    by (simp add: host_wake_def ensureSchema_def isRevoked_def)
  ultimately show ?thesis using ok ann by (auto simp: host_ok_def host_join_def Let_def)
qed

definition JOINED_HOST :: host where
  "JOINED_HOST = snd (snd (host_join 1 1 7 (lit ''A'') 100 0 None (host_wake 5 empty_host)))"

theorem relay_host_keeps_out_witness:
  "length (pass_sockets 7 JOINED_HOST) = 1 \<and>
    pass_sockets 7 (snd (snd (host_announce 50 (Some (ServerRevoke (Some 7) None)) JOINED_HOST))) = []"
proof -
  have "ho_sockets (host_wake 5 empty_host) = []" by code_simp
  then have "host_step (host_wake 5 empty_host) JOINED_HOST"
    unfolding JOINED_HOST_def by (intro host_joins) simp
  moreover have "host_step empty_host (host_wake 5 empty_host)" by (rule host_wakes)
  ultimately have "host_run empty_host JOINED_HOST"
    unfolding host_run_def by (meson converse_rtranclp_into_rtranclp rtranclp.rtrancl_refl)
  moreover have "length (pass_sockets 7 JOINED_HOST) = 1" by code_simp
  ultimately show ?thesis
    using relay_host_keeps_out [of JOINED_HOST 7 "[]" 0 0 0 0 None 50 None 0] by (simp add: Let_def)
qed

text \<open>The worker hands a socket to a room only on a pass signed for that room, still valid.\<close>

lemma worker_join:
  assumes "worker_fetch verify now rq = Join e p g x n ep"
  shows "rq_route rq = RouteWs e \<and> rq_originAllowed rq \<and>
    (\<exists>c. verify (rq_token rq) now = Some c \<and> rw_role c = Some GateRole \<and> rw_eventId c = Some e \<and>
      rw_passId c = Some p \<and> rw_gate c = Some g \<and> rw_exp c = Some x)"
  using assms
  by (auto simp: worker_fetch_def split: relay_route.splits if_splits option.splits)

lemma verified_pass:
  assumes "verifyRelayPass atob hmac_ok parse token secret now = Inr (Some c)"
  shows "\<exists>body sig bytes. split_dots token = [body, sig] \<and> fromBase64Url atob sig = Some bytes \<and>
    hmac_ok secret bytes body \<and> validClaims c \<and> (\<exists>e. rw_exp c = Some e \<and> now < e * 1000)"
  using assms
  by (auto simp: verifyRelayPass_def split: list.splits option.splits if_splits)

end
