(* ===== verification/RelayLink.thy ===== *)
theory RelayLink
  imports PhoneSync RelayCatchUp
begin

text \<open>
  The phone's end of the gate relay, \<open>src/src/app/door/use-relay.ts\<close>: reading the room's
  messages, the cursor a reconnect picks up from, the claims re-sent when the link opens and
  the waits between attempts. A message arrives as what \<open>JSON.parse\<close> made of it; a field that
  fails its type check is \<open>None\<close>.
\<close>

section \<open>Messages\<close>

datatype raw_gate = GateNull | GateText jstr | GateOther

record raw_row =
  rx_ticketId :: "uuid option"
  rx_at :: "int option"
  rx_gate :: raw_gate
  rx_confirmed :: "bool option"
  rx_seq :: "int option"

datatype link_message =
    MsgHello nat
  | MsgCheckIns "raw_row list"
  | MsgUndo uuid remover "int option" "int option"
  | MsgOther

definition relayRow :: "raw_row \<Rightarrow> relay_row option" where
  "relayRow r =
    (case (rx_ticketId r, rx_at r, rx_gate r, rx_confirmed r, rx_seq r) of
       (Some i, Some at, gate, Some c, Some n) \<Rightarrow>
         (case gate of
            GateOther \<Rightarrow> None
          | GateNull \<Rightarrow> Some \<lparr>rr_ticketId = i, rr_at = Some at, rr_gate = None, rr_confirmed = c, rr_seq = n\<rparr>
          | GateText g \<Rightarrow> Some \<lparr>rr_ticketId = i, rr_at = Some at, rr_gate = Some g, rr_confirmed = c, rr_seq = n\<rparr>)
     | _ \<Rightarrow> None)"

section \<open>The link\<close>

datatype link_state = LinkOff | LinkConnecting | LinkLive

record link =
  lk_state :: link_state
  lk_socket :: bool
  lk_heard :: nat
  lk_epoch :: "nat option"
  lk_retryMs :: int
  lk_lastPong :: instant

definition PING_EVERY_MS :: int where "PING_EVERY_MS = 30000"
definition PONG_DEADLINE_MS :: int where "PONG_DEADLINE_MS = 2 * PING_EVERY_MS + 5000"
definition RETRY_MIN_MS :: int where "RETRY_MIN_MS = 1000"
definition RETRY_MAX_MS :: int where "RETRY_MAX_MS = 30000"
definition CROWDED_CLOSE :: nat where "CROWDED_CLOSE = 4008"
definition CROWDED_WAIT_MS :: int where "CROWDED_WAIT_MS = 60000"
definition CLAIMS_PER_BATCH :: nat where "CLAIMS_PER_BATCH = 200"
definition FINAL_CLOSE :: "nat list" where "FINAL_CLOSE = [4001, 4003]"

definition new_link :: link where
  "new_link = \<lparr>lk_state = LinkOff, lk_socket = False, lk_heard = 0, lk_epoch = None,
    lk_retryMs = RETRY_MIN_MS, lk_lastPong = 0\<rparr>"

definition seen :: "int \<Rightarrow> link \<Rightarrow> link" where
  "seen n l = (if n > int (lk_heard l) then l\<lparr>lk_heard := nat n\<rparr> else l)"

definition link_receive ::
  "instant \<Rightarrow> link_message \<Rightarrow> link \<times> phone \<Rightarrow> link \<times> phone" where
  "link_receive now msg lp =
    (case lp of (l0, p) \<Rightarrow>
      (let l = l0\<lparr>lk_lastPong := now\<rparr>
       in case msg of
         MsgHello e \<Rightarrow>
           ((if lk_epoch l \<noteq> Some e then l\<lparr>lk_heard := 0\<rparr> else l)\<lparr>lk_epoch := Some e\<rparr>, p)
       | MsgCheckIns rows \<Rightarrow>
           (let rs = List.map_filter relayRow rows
            in (foldl (\<lambda>l r. seen (rr_seq r) l) l rs, learnRelayRows now rs p))
       | MsgUndo i who at n \<Rightarrow>
           ((case n of Some k \<Rightarrow> seen k l | None \<Rightarrow> l), snd (learnRelayUndo i who at p))
       | MsgOther \<Rightarrow> (l, p)))"

text \<open>Slices of \<open>n\<close>, in order: \<open>claims.slice(i, i + n)\<close>.\<close>

function chunks :: "nat \<Rightarrow> 'a list \<Rightarrow> 'a list list" where
  "chunks n xs = (if xs = [] \<or> n = 0 then [] else take n xs # chunks n (drop n xs))"
  by pat_completeness auto
termination
  by (relation "measure (\<lambda>(n, xs). length xs)") auto

declare chunks.simps [simp del]

definition link_open :: "instant \<Rightarrow> phone \<Rightarrow> link \<Rightarrow> own_mark list list \<times> link" where
  "link_open now p l =
    (chunks CLAIMS_PER_BATCH (ownClaims p),
     l\<lparr>lk_state := LinkLive, lk_socket := True, lk_retryMs := RETRY_MIN_MS, lk_lastPong := now\<rparr>)"

text \<open>\<open>retry\<close>: the wait is drawn around the first number; the second is the next one's.\<close>

definition link_retry :: "link \<Rightarrow> int \<times> link" where
  "link_retry l =
    (lk_retryMs l,
     l\<lparr>lk_state := LinkConnecting,
       lk_retryMs := min (max RETRY_MAX_MS (lk_retryMs l)) (lk_retryMs l * 2)\<rparr>)"

definition link_close :: "nat \<Rightarrow> link \<Rightarrow> int option \<times> link" where
  "link_close code l =
    (let l1 = l\<lparr>lk_socket := False\<rparr>
     in if code \<in> set FINAL_CLOSE then (None, l1\<lparr>lk_state := LinkOff\<rparr>)
        else (case link_retry (if code = CROWDED_CLOSE then l1\<lparr>lk_retryMs := CROWDED_WAIT_MS\<rparr> else l1) of
            (w, l2) \<Rightarrow> (Some w, l2)))"

text \<open>The ping timer: a link without a pong is closed, else a ping goes out.\<close>

definition link_ping :: "instant \<Rightarrow> link \<Rightarrow> bool" where
  "link_ping now l \<longleftrightarrow> now - lk_lastPong l \<le> PONG_DEADLINE_MS"

definition link_online :: "link \<Rightarrow> link" where
  "link_online l =
    (if lk_socket l then l else l\<lparr>lk_retryMs := RETRY_MIN_MS, lk_state := LinkConnecting\<rparr>)"

section \<open>What the room's messages do to a phone\<close>

text \<open>A message of the room as the phone receives it.\<close>

fun received :: "room_message \<Rightarrow> link_message" where
  "received (Hello e n) = MsgHello e"
| "received (CheckIns rs) =
    MsgCheckIns (map (\<lambda>r. \<lparr>rx_ticketId = Some (wr_ticketId r), rx_at = Some (wr_at r),
      rx_gate = (case wr_gate r of None \<Rightarrow> GateNull | Some g \<Rightarrow> GateText g),
      rx_confirmed = Some (wr_confirmed r), rx_seq = Some (int (wr_seq r))\<rparr>) rs)"
| "received (Undo i who at n) = MsgUndo i who (Some at) (Some (int n))"

definition link_hears :: "instant \<Rightarrow> room_message list \<Rightarrow> link \<times> phone \<Rightarrow> link \<times> phone" where
  "link_hears now ms lp = foldl (\<lambda>lp m. link_receive now (received m) lp) lp ms"

text \<open>Every listed ticket that stands in the room has a mark here, so it is not let in again.\<close>

definition covers :: "phone \<Rightarrow> (uuid \<rightharpoonup> room_check_in) \<Rightarrow> bool" where
  "covers p v \<longleftrightarrow> (\<forall>i. on_list p i \<and> v i \<noteq> None \<longrightarrow> mark_of p i \<noteq> None)"

definition relay_row_of :: "room_check_in \<Rightarrow> relay_row" where
  "relay_row_of r = \<lparr>rr_ticketId = wr_ticketId r, rr_at = Some (wr_at r), rr_gate = wr_gate r,
    rr_confirmed = wr_confirmed r, rr_seq = int (wr_seq r)\<rparr>"

lemma received_rows:
  "link_receive now (received (CheckIns rs)) (l, p) =
    (foldl (\<lambda>l r. seen (int (wr_seq r)) l) (l\<lparr>lk_lastPong := now\<rparr>) rs,
     foldl (\<lambda>p r. learnRelayRow now (relay_row_of r) p) p rs)"
proof -
  have "List.map_filter relayRow (map (\<lambda>r. \<lparr>rx_ticketId = Some (wr_ticketId r), rx_at = Some (wr_at r),
      rx_gate = (case wr_gate r of None \<Rightarrow> GateNull | Some g \<Rightarrow> GateText g),
      rx_confirmed = Some (wr_confirmed r), rx_seq = Some (int (wr_seq r))\<rparr>) rs) = map relay_row_of rs"
    by (induction rs) (simp_all add: List.map_filter_simps relayRow_def relay_row_of_def split: option.split)
  then show ?thesis
    by (simp add: link_receive_def Let_def learnRelayRows_def foldl_map relay_row_of_def)
qed

end
