(* ===== verification/RelayLinkClaims.thy ===== *)
theory RelayLinkClaims
  imports RelayLink PhoneSamples RelayRules
begin

text \<open>
  The phone and the room together: after a catch-up the phone knows of everyone who stands in
  the room, and lets none of them in again.
\<close>

section \<open>Covering the room\<close>

lemma mark_of_set [simp]: "mark_of (set_mark i m p) j = (if j = i then Some m else mark_of p j)"
  by (simp add: mark_of_def set_mark_def update_conv')

lemma mark_of_del [simp]: "mark_of (delete_mark i p) j = (if j = i then None else mark_of p j)"
  by (simp add: mark_of_def delete_mark_def delete_conv')

lemma on_list_simps [simp]:
  "on_list (set_mark i m p) j = on_list p j" "on_list (delete_mark i p) j = on_list p j"
  by (simp_all add: on_list_def set_mark_def delete_mark_def)

lemma learn_row_covers:
  "covers p v \<Longrightarrow> covers (learnRelayRow now (relay_row_of r) p) (v(wr_ticketId r \<mapsto> r))"
  using markFromRelay_new [of "relay_row_of r" now]
  by (auto simp: covers_def learnRelayRow_def relay_row_of_def split: option.splits)

lemma learn_undo_covers: "covers p v \<Longrightarrow> covers (snd (learnRelayUndo i who at p)) (v(i := None))"
  by (auto simp: covers_def learnRelayUndo_def split: option.splits)

lemma receive_covers:
  "covers p v \<Longrightarrow> covers (snd (link_receive now (received m) (l, p))) (hear v m)"
proof (induction m)
  case (CheckIns rs)
  have "covers p v \<Longrightarrow> covers (foldl (\<lambda>p r. learnRelayRow now (relay_row_of r) p) p rs)
      (foldl (\<lambda>v r. v(wr_ticketId r \<mapsto> r)) v rs)" for p v
    by (induction rs arbitrary: p v) (simp_all add: learn_row_covers)
  then show ?case using CheckIns unfolding received_rows by simp
qed (simp_all add: link_receive_def Let_def learn_undo_covers)

lemma hears_covers: "covers p v \<Longrightarrow> covers (snd (link_hears now ms (l, p))) (foldl hear v ms)"
proof (induction ms arbitrary: l p v)
  case (Cons m ms)
  obtain l' p' where e: "link_receive now (received m) (l, p) = (l', p')" by fastforce
  have "covers p' (hear v m)" using receive_covers [OF Cons(2), of now m l] e by simp
  from Cons(1) [OF this] show ?case by (simp add: link_hears_def e)
qed (simp add: link_hears_def)

section \<open>The cursor\<close>

fun message_seqs :: "room_message \<Rightarrow> nat set" where
  "message_seqs (Hello e n) = {}"
| "message_seqs (CheckIns rs) = wr_seq ` set rs"
| "message_seqs (Undo i who at n) = {n}"

lemma seen_fields [simp]:
  "lk_heard (seen (int n) l) = max (lk_heard l) n" "lk_epoch (seen n' l) = lk_epoch l"
  by (simp_all add: seen_def max_def)

lemma Max_insert_Max:
  fixes a :: nat
  assumes "finite A" "finite B"
  shows "Max (insert (Max (insert a A)) B) = Max (insert a (A \<union> B))"
proof (cases "B = {}")
  case False
  have "Max (insert a A \<union> B) = max (Max (insert a A)) (Max B)"
    using assms False by (intro Max_Un) auto
  then show ?thesis using assms(2) False by simp
qed simp

lemma seen_epoch: "lk_epoch (foldl (\<lambda>l r. seen (int (wr_seq r)) l) l rs) = lk_epoch l"
  by (induction rs arbitrary: l) simp_all

lemma seen_all:
  "lk_heard (foldl (\<lambda>l r. seen (int (wr_seq r)) l) l rs) = Max (insert (lk_heard l) (wr_seq ` set rs))"
proof (induction rs arbitrary: l)
  case (Cons r rs)
  have "max (lk_heard l) (wr_seq r) = Max (insert (lk_heard l) {wr_seq r})" by simp
  then have "Max (insert (max (lk_heard l) (wr_seq r)) (wr_seq ` set rs)) =
      Max (insert (lk_heard l) ({wr_seq r} \<union> wr_seq ` set rs))"
    using Max_insert_Max [of "{wr_seq r}" "wr_seq ` set rs" "lk_heard l"] by simp
  then show ?case using Cons [of "seen (int (wr_seq r)) l"] by simp
qed simp

lemma hears_cursor:
  assumes "\<forall>m \<in> set ms. \<forall>e n. m \<noteq> Hello e n"
  shows "lk_heard (fst (link_hears now ms (l, p))) = Max (insert (lk_heard l) (\<Union> (message_seqs ` set ms))) \<and>
    lk_epoch (fst (link_hears now ms (l, p))) = lk_epoch l"
  using assms
proof (induction ms arbitrary: l p)
  case (Cons m ms)
  obtain l' p' where e: "link_receive now (received m) (l, p) = (l', p')" by fastforce
  have fin: "finite (message_seqs x)" for x by (cases x) auto
  have one: "lk_heard l' = Max (insert (lk_heard l) (message_seqs m)) \<and> lk_epoch l' = lk_epoch l"
  proof (cases m)
    case (CheckIns rs)
    then show ?thesis using e received_rows [of now rs l p] seen_all [of "l\<lparr>lk_lastPong := now\<rparr>" rs]
        seen_epoch [of "l\<lparr>lk_lastPong := now\<rparr>" rs] by auto
  qed (use e Cons(2) in \<open>auto simp: link_receive_def Let_def max_def\<close>)
  have "lk_heard (fst (link_hears now ms (l', p'))) = Max (insert (lk_heard l') (\<Union> (message_seqs ` set ms))) \<and>
      lk_epoch (fst (link_hears now ms (l', p'))) = lk_epoch l'"
    using Cons by simp
  moreover have "Max (insert (lk_heard l') (\<Union> (message_seqs ` set ms))) =
      Max (insert (lk_heard l) (\<Union> (message_seqs ` set (m # ms))))"
    using Max_insert_Max [of "message_seqs m" "\<Union> (message_seqs ` set ms)" "lk_heard l"] fin one by simp
  ultimately show ?case using one by (simp add: link_hears_def e)
qed (simp add: link_hears_def)

lemma page_seqs: "\<Union> (message_seqs ` set (page_messages page)) = rc_seq ` set page"
proof -
  let ?up = "filter (\<lambda>r. rc_removed r = None) page" and ?gone = "filter (\<lambda>r. rc_removed r \<noteq> None) page"
  have gone: "\<Union> (message_seqs ` set (map undoMessage ?gone)) = rc_seq ` set ?gone"
    by (auto simp: undoMessage_def)
  have up: "\<Union> (message_seqs ` set (if map wire ?up = [] then [] else [CheckIns (map wire ?up)])) = rc_seq ` set ?up"
    by (cases "map wire ?up = []") (simp_all add: image_image wire_def)
  have "set page = set ?up \<union> set ?gone" by auto
  then have "rc_seq ` set page = rc_seq ` set ?up \<union> rc_seq ` set ?gone" by (metis image_Un)
  then show ?thesis unfolding page_messages_def Let_def set_append image_Un Union_Un_distrib gone up by simp
qed

lemma pages_seqs:
  assumes "room_ok m" "0 < len" "backlog_pages fuel len c m = Some ms"
  shows "\<Union> (message_seqs ` set ms) = rc_seq ` set (news c m) \<and> (\<forall>x \<in> set ms. \<forall>e n. x \<noteq> Hello e n)"
  using assms(3)
proof (induction fuel arbitrary: c ms)
  case (Suc fuel)
  let ?page = "take len (news c m)"
  have page: "room_after c len m = ?page" by (rule room_after_news)
  have no: "\<forall>x \<in> set (page_messages ?page). \<forall>e n. x \<noteq> Hello e n"
    by (auto simp: page_messages_def Let_def undoMessage_def)
  show ?case
  proof (cases "length (news c m) < len")
    case True
    then have "ms = (if news c m = [] then [] else page_messages ?page)" using Suc(2) by (auto simp: page Let_def)
    then show ?thesis using page_seqs [of ?page] no True by (auto split: if_splits)
  next
    case False
    let ?c = "rc_seq (last ?page)"
    have ne: "?page \<noteq> []" "length ?page = len" using False assms(2) by auto
    then obtain rest where r: "backlog_pages fuel len ?c m = Some rest" "ms = page_messages ?page @ rest"
      using Suc(2) by (auto simp: page Let_def)
    have "news ?c m = drop len (news c m)" using False assms(2) by (intro news_next assms(1)) auto
    then have "set (news c m) = set ?page \<union> set (news ?c m)"
      by (metis append_take_drop_id set_append)
    then show ?thesis using Suc(1) [OF r(1)] page_seqs [of ?page] no r(2) by (auto simp: image_Un)
  qed
qed simp

section \<open>Catching up\<close>

text \<open>The phone has heard all of the room: its cursor is this room's, nothing newer stands there,
  and every listed ticket that stands there has a mark.\<close>

definition caught_up :: "link \<times> phone \<Rightarrow> room \<Rightarrow> bool" where
  "caught_up lp m \<longleftrightarrow> lk_epoch (fst lp) = Some (rm_epoch m) \<and> lk_heard (fst lp) \<le> rm_seq m \<and>
    (\<forall>r \<in> set (rm_rows m). rc_seq r \<le> lk_heard (fst lp)) \<and> covers (snd lp) (room_view m)"

lemma overlay_from:
  assumes "room_ok m" "grows m m'" "c \<le> rm_seq m" "\<forall>r \<in> set (rm_rows m). rc_seq r \<le> c"
  shows "overlay (news c m') (room_view m) = room_view m'"
proof
  fix i
  have ok: "room_ok m'" by (rule grows_ok [OF assms(2,1)])
  have "case room_get m' i of None \<Rightarrow> room_get m i = None
      | Some r \<Rightarrow> rc_seq r > rm_seq m \<or> room_get m i = Some r"
    using grows_rows [OF assms(2,1)] by blast
  moreover have "room_get m i = Some r \<Longrightarrow> rc_seq r \<le> c" for r
    using assms(4) room_get_Some [of m i r] by blast
  ultimately show "overlay (news c m') (room_view m) i = room_view m' i"
    using assms(3) by (fastforce simp: overlay_def row_by_news [OF ok] room_view_def split: option.splits)
qed

text \<open>Hearing the room changes no list.\<close>

lemma rows_on_list [simp]: "on_list (foldl (\<lambda>p r. learnRelayRow now (relay_row_of r) p) p rs) i = on_list p i"
  by (induction rs arbitrary: p) (simp_all add: learnRelayRow_def split: option.split)

lemma hears_on_list [simp]: "on_list (snd (link_hears now ms (l, p))) i = on_list p i"
proof (induction ms arbitrary: l p)
  case (Cons y ys)
  obtain l' p' where e: "link_receive now (received y) (l, p) = (l', p')" by fastforce
  have "on_list p' i = on_list p i"
  proof (cases y)
    case (CheckIns rs)
    then show ?thesis using e received_rows [of now rs l p] by simp
  qed (use e in \<open>auto simp: link_receive_def Let_def learnRelayUndo_def split: option.splits if_splits\<close>)
  then show ?case using Cons [of l' p'] by (simp add: link_hears_def e)
qed (simp add: link_hears_def)

lemma marked_never_admitted:
  assumes "mark_of q (le_id ent) \<noteq> None" "findEntry sha (Some cur) raw = Some ent"
    and "fst (phone_scan sha gate passId (Some cur) at raw by_method prior scanId q) = Some a"
  shows "pa_result a \<noteq> OffAdmitted"
proof -
  have "oj_verdict (judge cur (Some ent) at q) \<noteq> VAdmitted"
    using assms(1) unfolding judge_def judgeOffline_admits by auto
  then have "oj_result (judge cur (Some ent) at q) \<noteq> OffAdmitted"
    unfolding judge_def judgeOffline_admitted .
  then show ?thesis using assms(2,3) by (auto simp: phone_scan_def Let_def phone_reply_def split: if_splits)
qed

text \<open>Where the catch-up starts: the cursor the room takes, and a view the phone covers from there.\<close>

lemma catch_up_start:
  assumes "room_ok m" "grows m m'" "room_ok m'" "rm_epoch m' = e"
    and "caught_up (l, p) m \<or> lk_epoch l \<noteq> Some e"
  obtains v where "covers p v" "overlay (news (backlog_from (lk_heard l) (lk_epoch l) m') m') v = room_view m'"
    "lk_epoch l = Some e \<Longrightarrow> lk_heard l = backlog_from (lk_heard l) (lk_epoch l) m'"
    "lk_epoch l \<noteq> Some e \<Longrightarrow> backlog_from (lk_heard l) (lk_epoch l) m' = 0"
    "backlog_from (lk_heard l) (lk_epoch l) m' \<le> rm_seq m'"
proof (cases "lk_epoch l = Some e")
  case True
  then have cu: "caught_up (l, p) m" using assms(5) by simp
  have seq: "rm_seq m \<le> rm_seq m'" by (rule grows_seq [OF assms(2)])
  then have "backlog_from (lk_heard l) (lk_epoch l) m' = lk_heard l"
    using cu True by (simp add: backlog_from_def assms(4) caught_up_def)
  then show thesis using cu overlay_from [OF assms(1,2), of "lk_heard l"] seq True
    by (intro that [of "room_view m"]) (auto simp: caught_up_def)
next
  case False
  then have "backlog_from (lk_heard l) (lk_epoch l) m' = 0" by (simp add: backlog_from_def assms(4))
  then show thesis using overlay_from_start [OF assms(3)] False
    by (intro that [of Map.empty]) (auto simp: covers_def)
qed

text \<open>Hearing every page from there on leaves nothing unheard.\<close>

lemma pages_catch_up:
  assumes "room_ok m'" "backlog_pages fuel BACKLOG_PAGE c m' = Some ms"
    and "\<And>v. foldl hear v ms = overlay (news c m') v" "covers p v" "overlay (news c m') v = room_view m'"
    and "lk_heard l = c" "lk_epoch l = Some (rm_epoch m')" "c \<le> rm_seq m'"
  shows "caught_up (link_hears now ms (l, p)) m'"
proof -
  define q where "q = link_hears now ms (l, p)"
  have cur: "lk_heard (fst q) = Max (insert c (rc_seq ` set (news c m')))" "lk_epoch (fst q) = Some (rm_epoch m')"
    using hears_cursor [of ms now l p] pages_seqs [OF assms(1) _ assms(2)] assms(6,7)
    unfolding q_def by (simp_all add: BACKLOG_PAGE_def)
  have "covers (snd q) (room_view m')"
    using hears_covers [OF assms(4), of now ms l] assms(3,5) unfolding q_def by simp
  moreover have "rc_seq r \<le> rm_seq m'" if "r \<in> set (news c m')" for r
    using that assms(1) by (auto simp: news_def room_ok_def)
  then have "lk_heard (fst q) \<le> rm_seq m'" using cur(1) assms(8) by simp
  moreover have "rc_seq r \<le> lk_heard (fst q)" if "r \<in> set (rm_rows m')" for r
    unfolding cur(1) by (intro Max_ge_iff [THEN iffD2]) (use that in \<open>auto simp: news_def\<close>)
  ultimately show ?thesis using cur(2) unfolding caught_up_def q_def by blast
qed

text \<open>C31: A phone that reconnects knows of everyone the room knows. Whatever the phones and the server
  told the room since the phone last heard all of it, after the catch-up the phone asks for by
  its cursor it has again heard all of it: every listed ticket that stands in the room has a
  mark, so no scan of it is answered with an admission. A phone whose cursor is of another
  room, or that has none, gets there from any state.\<close>

theorem phone_catch_up:
  assumes "room_run (new_room e) m" "room_run m m'"
    and "caught_up (l, p) m \<or> lk_epoch l \<noteq> Some e"
    and "length (rm_rows m') div BACKLOG_PAGE < fuel"
  shows "\<exists>ms. backlog fuel (lk_heard l) (lk_epoch l) m' = Some ms \<and> caught_up (link_hears now ms (l, p)) m' \<and>
    (\<forall>i a sha gate passId cur at raw by_method sup scanId ent.
      room_view m' i \<noteq> None \<and> on_list p i \<and> findEntry sha (Some cur) raw = Some ent \<and> le_id ent = i \<and>
      fst (phone_scan sha gate passId (Some cur) at raw by_method sup scanId (snd (link_hears now ms (l, p)))) = Some a
      \<longrightarrow> pa_result a \<noteq> OffAdmitted)"
proof -
  have okm: "room_ok m" "rm_epoch m = e"
    using room_run_ok [OF assms(1) room_ok_new] grows_epoch [OF room_run_grows [OF assms(1) room_ok_new]]
    by (simp_all add: new_room_def)
  have g: "grows m m'" by (rule room_run_grows [OF assms(2) okm(1)])
  have ok: "room_ok m'" "rm_epoch m' = e" using grows_ok [OF g okm(1)] grows_epoch [OF g] okm(2) by auto
  define c where "c = backlog_from (lk_heard l) (lk_epoch l) m'"
  have pages: "\<exists>ms. backlog_pages fuel BACKLOG_PAGE c m' = Some ms \<and> foldl hear v ms = overlay (news c m') v" for v
    by (rule backlog_pages_hear [OF ok(1) _ enough_fuel [OF assms(4)]]) (simp add: BACKLOG_PAGE_def)
  from pages [of Map.empty] obtain ms where ms: "backlog_pages fuel BACKLOG_PAGE c m' = Some ms" by blast
  have views: "foldl hear v ms = overlay (news c m') v" for v using pages [of v] ms by auto
  have asked: "backlog fuel (lk_heard l) (lk_epoch l) m' = Some (Hello e (rm_seq m') # ms)"
    using ms by (simp add: backlog_def c_def ok(2))
  obtain v where v: "covers p v" "overlay (news c m') v = room_view m'" "lk_epoch l = Some e \<Longrightarrow> lk_heard l = c"
    "lk_epoch l \<noteq> Some e \<Longrightarrow> c = 0" "c \<le> rm_seq m'"
    unfolding c_def by (rule catch_up_start [OF okm(1) g ok assms(3)]) blast
  let ?l = "fst (link_receive now (MsgHello e) (l, p))"
  define q where "q = link_hears now (Hello e (rm_seq m') # ms) (l, p)"
  have q: "q = link_hears now ms (?l, p)"
    by (simp add: q_def link_hears_def link_receive_def Let_def)
  have "lk_heard ?l = c" "lk_epoch ?l = Some (rm_epoch m')"
    using v(3,4) ok(2) by (auto simp: link_receive_def Let_def)
  from pages_catch_up [OF ok(1) ms views v(1,2) this v(5)]
  have finished: "caught_up q m'" unfolding q .
  then have "mark_of (snd q) i \<noteq> None" if "room_view m' i \<noteq> None" "on_list p i" for i
    using that unfolding caught_up_def covers_def q by simp
  then show ?thesis using asked finished marked_never_admitted unfolding q_def by blast
qed

definition ROOM_20 :: room where
  "ROOM_20 = snd (fromServer (ServerIn (Some 20) (Some 50000) (Some (lit ''South''))) (new_room 5))"

theorem phone_catch_up_witness:
  "\<exists>ms a. backlog 1 0 None ROOM_20 = Some ms \<and> caught_up (link_hears 60000 ms (new_link, LISTED_PHONE)) ROOM_20 \<and>
    fst (phone_scan (\<lambda>s. s) (lit ''North'') 7 (Some PHONE_LIST) 60000 (lit ''TKT-AAAAAAAA'') ByQr None 5
      (snd (link_hears 60000 ms (new_link, LISTED_PHONE)))) = Some a \<and> pa_result a \<noteq> OffAdmitted"
proof -
  obtain act where "fromServer (ServerIn (Some 20) (Some 50000) (Some (lit ''South''))) (new_room 5) = (act, ROOM_20)"
    unfolding ROOM_20_def by (metis surjective_pairing)
  then have run: "room_run (new_room 5) ROOM_20" by (rule run_server [OF run_start])
  have r: "rm_rows ROOM_20 = [\<lparr>rc_ticketId = 20, rc_atMs = 50000, rc_gate = Some (lit ''South''), rc_passId = None,
      rc_confirmed = True, rc_seq = 1, rc_removed = None\<rparr>]"
    by (simp add: ROOM_20_def fromServer_def server_in_def Let_def room_get_def new_room_def put_next_def
        room_put_def delete_rows_def)
  have "lk_epoch new_link \<noteq> Some 5" "lk_heard new_link = 0" "lk_epoch new_link = None" by (simp_all add: new_link_def)
  moreover have "length (rm_rows ROOM_20) div BACKLOG_PAGE < 1" by (simp add: r BACKLOG_PAGE_def)
  ultimately obtain ms where ms: "backlog 1 0 None ROOM_20 = Some ms"
    "caught_up (link_hears 60000 ms (new_link, LISTED_PHONE)) ROOM_20"
    and no: "\<And>i a sha gate passId cur at raw by_method sup scanId ent.
      room_view ROOM_20 i \<noteq> None \<Longrightarrow> on_list LISTED_PHONE i \<Longrightarrow> findEntry sha (Some cur) raw = Some ent \<Longrightarrow> le_id ent = i \<Longrightarrow>
      fst (phone_scan sha gate passId (Some cur) at raw by_method sup scanId (snd (link_hears 60000 ms (new_link, LISTED_PHONE)))) = Some a
      \<Longrightarrow> pa_result a \<noteq> OffAdmitted"
    using phone_catch_up [OF run run_start, where l = new_link and p = LISTED_PHONE and now = 60000 and fuel = 1]
    by metis
  let ?p = "snd (link_hears 60000 ms (new_link, LISTED_PHONE))"
  have "\<not> past 60000 (ol_validUntil PHONE_LIST)" by (simp add: past_def sample_dates)
  then obtain a where a: "fst (phone_scan (\<lambda>s. s) (lit ''North'') 7 (Some PHONE_LIST) 60000 (lit ''TKT-AAAAAAAA'') ByQr None 5 ?p) = Some a"
    by (simp add: phone_scan_def Let_def)
  have "room_view ROOM_20 20 \<noteq> None" by (simp add: room_view_def room_get_def r shown_def)
  moreover have "on_list LISTED_PHONE 20" by (simp add: on_list_def listed_is PHONE_LIST_def PHONE_ENTRY_def)
  moreover have "le_id PHONE_ENTRY = 20" by (simp add: PHONE_ENTRY_def)
  ultimately have "pa_result a \<noteq> OffAdmitted" using no sample_find a by blast
  then show ?thesis using ms a by blast
qed

end
