(* ===== verification/Days.thy ===== *)
theory Days
  imports DateText Money
begin

text \<open>
  Calendar days as the \<open>yyyy-MM-dd\<close> texts of \<open>src/src/server/lib/sales-report.ts\<close>: stepping from
  one to the next, counting them, and why comparing the texts compares the days. Everything is
  for the years 0 to 9999, whose texts have four digits.
\<close>

section \<open>Comparing strings\<close>

text \<open>\<open><\<close> on strings compares their UTF-16 units.\<close>

fun str_less :: "jstr \<Rightarrow> jstr \<Rightarrow> bool" where
  "str_less s [] = False"
| "str_less [] (b # t) = True"
| "str_less (a # s) (b # t) = (a < b \<or> a = b \<and> str_less s t)"

definition str_le :: "jstr \<Rightarrow> jstr \<Rightarrow> bool" where
  "str_le s t \<longleftrightarrow> \<not> str_less t s"

section \<open>Days\<close>

definition DAY_MS :: int where "DAY_MS = 86400000"

definition dayText :: "int \<Rightarrow> jstr" where
  "dayText d = take 10 (toISOString (d * DAY_MS))"

text \<open>
  \<open>Date.parse(`${day}T00:00:00Z`)\<close>: a text without its milliseconds reads as one with zero of
  them.
\<close>

definition dayStart :: "jstr \<Rightarrow> int option" where
  "dayStart day = dateParse (day @ lit ''T00:00:00.000Z'')"

text \<open>\<open>toISOString\<close> of a day that cannot be read throws.\<close>

definition shiftDay :: "jstr \<Rightarrow> int \<Rightarrow> jstr result" where
  "shiftDay day n =
    (case dayStart day of
       None \<Rightarrow> Inl RangeError
     | Some d \<Rightarrow> Inr (take 10 (toISOString (d + n * DAY_MS))))"

text \<open>\<open>None\<close> is \<open>NaN\<close>.\<close>

definition daysBetween :: "jstr \<Rightarrow> jstr \<Rightarrow> int option" where
  "daysBetween from_day to_day =
    (case (dayStart from_day, dayStart to_day) of
       (Some a, Some b) \<Rightarrow> Some (round_div (b - a) DAY_MS + 1)
     | _ \<Rightarrow> None)"

text \<open>
  \<open>for (let day = from; day <= to; day = shiftDay(day, 1))\<close>: the days it visits; \<open>None\<close> when the
  fuel is used up.
\<close>

fun window_days :: "nat \<Rightarrow> jstr \<Rightarrow> jstr \<Rightarrow> jstr list result option" where
  "window_days 0 day to_day = None"
| "window_days (Suc fuel) day to_day =
    (if str_le day to_day
     then (case shiftDay day 1 of
             Inl e \<Rightarrow> Some (Inl e)
           | Inr next_day \<Rightarrow> map_option (\<lambda>r. bindE r (\<lambda>ds. Inr (day # ds))) (window_days fuel next_day to_day))
     else Some (Inr []))"

definition four_digit_year :: "int \<Rightarrow> bool" where
  "four_digit_year d \<longleftrightarrow> 0 \<le> fst (civil_from_days d) \<and> fst (civil_from_days d) \<le> 9999"

section \<open>The calendar is ordered\<close>

definition year_start :: "int \<Rightarrow> int" where
  "year_start y = 365 * y + y div 4 - y div 100 + y div 400"

lemma year_start_step: "year_start y \<le> year_start (y + 1)"
proof -
  have "y div 4 \<le> (y + 1) div 4" "y div 400 \<le> (y + 1) div 400" by (intro zdiv_mono1; simp)+
  moreover have "(y + 1) div 100 \<le> y div 100 + 1"
    using div_bounds [of 100 y] div_bounds [of 100 "y + 1"] by linarith
  ultimately show ?thesis unfolding year_start_def by simp
qed

lemma year_start_mono: "y \<le> y' \<Longrightarrow> year_start y \<le> year_start y'"
  by (induction y' rule: int_ge_induct) (auto intro: order_trans year_start_step)

lemma year_end:
  fixes doe :: int
  assumes "0 \<le> doe" "doe < 146097"
  defines "yoe \<equiv> (doe - doe div 1460 + doe div 36524 - doe div 146096) div 365"
  shows "yoe < 399 \<Longrightarrow> doe < 365 * yoe + 365 + (yoe + 1) div 4 - (yoe + 1) div 100"
proof -
  assume less: "yoe < 399"
  have d: "doe < 146096"
  proof (rule ccontr)
    assume "\<not> doe < 146096"
    then have "doe = 146096" using assms(2) by linarith
    then show False using less by (simp add: yoe_def)
  qed
  define q1 q2 where q: "q1 = doe div 1460" "q2 = doe div 36524"
  have q3: "doe div 146096 = 0" using assms(1) d by simp
  have b1: "1460 * q1 \<le> doe" "doe < 1460 * q1 + 1460"
    and b2: "36524 * q2 \<le> doe" "doe < 36524 * q2 + 36524"
    unfolding q by (rule div_bounds; simp)+
  have n: "0 \<le> q1" "0 \<le> q2" using assms(1) unfolding q by simp_all
  have k: "q2 \<le> 3" using b2(1) d by linarith
  define w where w: "w = doe - q1 + q2"
  have yw: "yoe = w div 365" unfolding yoe_def w q q3 by simp
  have y: "365 * yoe \<le> w" "w < 365 * yoe + 365" unfolding yw by (rule div_bounds; simp)+
  note century = century_of_day [OF b1 b2 n(2) k w y]
  define a where a: "a = yoe div 4"
  have a4: "4 * a \<le> yoe" "yoe < 4 * a + 4" unfolding a by (rule div_bounds; simp)+
  have "a \<le> 99" using a4(1) less by linarith
  note fours = leap_days [OF b1 n(1) w y a4 this century(1) n(2)]
  define a' c' where ac: "a' = (yoe + 1) div 4" "c' = (yoe + 1) div 100"
  have a'b: "4 * a' \<le> yoe + 1" "yoe + 1 < 4 * a' + 4" unfolding ac by (rule div_bounds; simp)+
  have c'b: "100 * c' \<le> yoe + 1" "yoe + 1 < 100 * c' + 100" unfolding ac by (rule div_bounds; simp)+
  have c': "c' = q2 \<or> (c' = q2 + 1 \<and> yoe = 100 * q2 + 99)" using century c'b by linarith
  have "doe < 365 * yoe + 365 + a' - c'"
  proof (cases "c' = q2")
    case True
    show ?thesis
    proof (cases "q1 = a")
      case True
      moreover have "a \<le> a'" using a4(1) a'b(2) by presburger
      ultimately show ?thesis using \<open>c' = q2\<close> y(2) w by linarith
    next
      case False
      then have q1: "q1 = a + 1" using fours by linarith
      have "yoe = 4 * a + 3"
      proof (rule ccontr)
        assume "yoe \<noteq> 4 * a + 3"
        then have "365 * yoe \<le> 1460 * a + 730" using a4(2) by linarith
        then have "doe < 1460 * a + 730 + 365 + a + 1 - q2" using y(2) w q1 by linarith
        moreover have "1460 * a + 1460 \<le> doe" using b1(1) q1 by linarith
        ultimately show False using n(2) \<open>a \<le> 99\<close> by linarith
      qed
      then have "a' = a + 1" using a'b by linarith
      then show ?thesis using \<open>c' = q2\<close> y(2) w q1 by linarith
    qed
  next
    case False
    then have c: "c' = q2 + 1" "yoe = 100 * q2 + 99" using c' by auto
    then have "a' = 25 * q2 + 25" using a'b by linarith
    then show ?thesis using b2(2) c by linarith
  qed
  then show "doe < 365 * yoe + 365 + (yoe + 1) div 4 - (yoe + 1) div 100" unfolding ac .
qed

text \<open>A day's date by its March-based year and month, and where that month and year end.\<close>

lemma civil_shape:
  obtains y mp d where
    "civil_from_days z = (y + (if mp < 10 then 0 else 1), if mp < 10 then mp + 3 else mp - 9, d)"
    "0 \<le> mp" "mp \<le> 11" "1 \<le> d" "d \<le> 31" "z + 719468 = year_start y + (153 * mp + 2) div 5 + d - 1"
    "z + 719468 < year_start (y + 1)" "(153 * mp + 2) div 5 + d - 1 < (153 * (mp + 1) + 2) div 5"
proof -
  define era doe where e: "era = (z + 719468) div 146097" "doe = (z + 719468) mod 146097"
  define yoe where yoe: "yoe = (doe - doe div 1460 + doe div 36524 - doe div 146096) div 365"
  have db: "0 \<le> doe" "doe < 146097" unfolding e by simp_all
  note yb = year_of_era [OF db, folded yoe] and ye = year_end [OF db, folded yoe]
  define doy where doy: "doy = doe - (365 * yoe + yoe div 4 - yoe div 100)"
  have doy_b: "0 \<le> doy" "doy \<le> 365" using yb doy by linarith+
  define mp where mp: "mp = (5 * doy + 2) div 153"
  note mb = month_of_year [OF doy_b, folded mp]
  define d where d: "d = doy - (153 * mp + 2) div 5 + 1"
  define y where y: "y = yoe + era * 400"
  have z: "z + 719468 = era * 146097 + doe" unfolding e by simp
  have parts: "y div 4 = yoe div 4 + 100 * era" "y div 100 = yoe div 100 + 4 * era" "y div 400 = era"
    using yb div_mult_self1 [of 4 yoe "100 * era"] div_mult_self1 [of 100 yoe "4 * era"]
      div_mult_self1 [of 400 yoe era]
    unfolding y by (simp_all add: algebra_simps)
  have start: "year_start y = era * 146097 + (365 * yoe + yoe div 4 - yoe div 100)"
    unfolding year_start_def parts unfolding y by (simp add: algebra_simps)
  have ends: "z + 719468 < year_start (y + 1)"
  proof (cases "yoe < 399")
    case True
    have "(y + 1) div 4 = (yoe + 1) div 4 + 100 * era" "(y + 1) div 100 = (yoe + 1) div 100 + 4 * era"
      "(y + 1) div 400 = era"
      using yb True div_mult_self1 [of 4 "yoe + 1" "100 * era"] div_mult_self1 [of 100 "yoe + 1" "4 * era"]
        div_mult_self1 [of 400 "yoe + 1" era]
      unfolding y by (simp_all add: algebra_simps)
    then have "year_start (y + 1) = era * 146097 + (365 * yoe + 365 + (yoe + 1) div 4 - (yoe + 1) div 100)"
      unfolding year_start_def unfolding y by (simp add: algebra_simps)
    then show ?thesis using ye [OF True] z by linarith
  next
    case False
    then have "yoe = 399" using yb by linarith
    then have "y + 1 = (era + 1) * 400" unfolding y by simp
    then have "year_start (y + 1) = era * 146097 + 146097"
      unfolding year_start_def by (simp add: algebra_simps)
    then show ?thesis using db z by linarith
  qed
  have next_month: "(153 * mp + 2) div 5 + d - 1 < (153 * (mp + 1) + 2) div 5"
  proof -
    have "5 * doy + 2 < 153 * mp + 153" unfolding mp by (rule div_bounds) simp
    moreover have "153 * mp + 155 < 5 * ((153 * mp + 155) div 5) + 5" by (rule div_bounds) simp
    moreover have "153 * (mp + 1) + 2 = 153 * mp + 155" by simp
    ultimately show ?thesis unfolding d by linarith
  qed
  have "civil_from_days z = (y + (if mp < 10 then 0 else 1), if mp < 10 then mp + 3 else mp - 9, d)"
  proof -
    define month where month: "month = (if mp < 10 then mp + 3 else mp - 9)"
    have "civil_from_days z = (yoe + era * 400 + (if month \<le> 2 then 1 else 0), month, d)"
      unfolding civil_from_days_def Let_def month d mp doy yoe e by (rule refl)
    then show ?thesis using mb unfolding month y by (cases "mp < 10") simp_all
  qed
  moreover have "z + 719468 = year_start y + (153 * mp + 2) div 5 + d - 1"
    unfolding z start d doy by simp
  ultimately show thesis using that [of y mp d] mb ends next_month unfolding d by auto
qed

definition date_less :: "int \<times> int \<times> int \<Rightarrow> int \<times> int \<times> int \<Rightarrow> bool" where
  "date_less a b \<longleftrightarrow>
    (case (a, b) of ((y, m, d), (y', m', d')) \<Rightarrow> y < y' \<or> y = y' \<and> (m < m' \<or> m = m' \<and> d < d'))"

lemma civil_mono: "a < b \<Longrightarrow> date_less (civil_from_days a) (civil_from_days b)"
proof -
  assume less: "a < b"
  obtain ya ma da where A: "civil_from_days a = (ya + (if ma < 10 then 0 else 1), if ma < 10 then ma + 3 else ma - 9, da)"
    "0 \<le> ma" "ma \<le> 11" "1 \<le> da" "a + 719468 = year_start ya + (153 * ma + 2) div 5 + da - 1"
    by (rule civil_shape [of a]) blast
  obtain yb mb db where B: "civil_from_days b = (yb + (if mb < 10 then 0 else 1), if mb < 10 then mb + 3 else mb - 9, db)"
    "0 \<le> mb" "mb \<le> 11" "b + 719468 = year_start yb + (153 * mb + 2) div 5 + db - 1"
    "b + 719468 < year_start (yb + 1)" "(153 * mb + 2) div 5 + db - 1 < (153 * (mb + 1) + 2) div 5"
    by (rule civil_shape [of b]) blast
  have m0: "0 \<le> (153 * ma + 2) div 5" using A(2) by simp
  have "\<not> yb < ya"
  proof
    assume "yb < ya"
    then have "year_start (yb + 1) \<le> year_start ya" by (intro year_start_mono) simp
    then show False using A(4,5) B(5) m0 less by linarith
  qed
  moreover have "\<not> mb < ma" if "ya = yb"
  proof
    assume "mb < ma"
    then have "(153 * (mb + 1) + 2) div 5 \<le> (153 * ma + 2) div 5" by (intro zdiv_mono1) simp_all
    moreover have "year_start ya = year_start yb" using that by simp
    ultimately show False using A(4,5) B(4,6) less by linarith
  qed
  moreover have "da < db" if "ya = yb" "ma = mb" using that A(5) B(4) less by simp
  ultimately have "ya < yb \<or> ya = yb \<and> (ma < mb \<or> ma = mb \<and> da < db)" by linarith
  then show ?thesis unfolding A(1) B(1) date_less_def using A(2,3) B(2,3) by auto
qed

section \<open>So are the texts\<close>

lemma str_less_append:
  "length x = length y \<Longrightarrow> str_less (x @ s) (y @ t) \<longleftrightarrow> str_less x y \<or> x = y \<and> str_less s t"
  by (induction x y rule: list_induct2) auto

lemma str_less_irrefl [simp]: "\<not> str_less s s"
  by (induction s) auto

lemma str_less_digits:
  assumes "length x = length y" "list_all is_digit x" "list_all is_digit y"
  shows "(str_less x y \<longleftrightarrow> digits_value x < digits_value y) \<and> (x = y \<longleftrightarrow> digits_value x = digits_value y)"
  using assms
proof (induction x arbitrary: y rule: rev_induct)
  case (snoc a x)
  then obtain b z where y: "y = z @ [b]" by (cases y rule: rev_cases) auto
  have IH: "(str_less x z \<longleftrightarrow> digits_value x < digits_value z) \<and> (x = z \<longleftrightarrow> digits_value x = digits_value z)"
    using snoc y by simp
  have d: "48 \<le> a" "a \<le> 57" "48 \<le> b" "b \<le> 57" using snoc(3,4) y by (simp_all add: is_digit_def)
  have "str_less (x @ [a]) (z @ [b]) \<longleftrightarrow> str_less x z \<or> x = z \<and> a < b"
    using str_less_append [of x z "[a]" "[b]"] snoc(2) y by simp
  then show ?case using IH d unfolding y by (auto simp: digits_value_append)
qed (simp add: digits_value_def)

lemma dayText_parts:
  assumes "civil_from_days d = (y, m, dd)" "0 \<le> y" "y \<le> 9999"
  shows "toISOString (d * DAY_MS) = dayText d @ lit ''T00:00:00.000Z''"
    "dayText d = pad_to 4 (decimal (nat y)) @ [45] @ two m @ [45] @ two dd"
proof -
  have b: "1 \<le> m" "m \<le> 12" "1 \<le> dd" "dd \<le> 31" using days_from_civil_inverse [of d] assms(1) by simp_all
  have len: "length (pad_to 4 (decimal (nat y))) = 4" "length (two m) = 2" "length (two dd) = 2"
    using assms(2,3) b by (simp_all add: pad_decimal two_digits nat_less_iff)
  have z: "two 0 = [48, 48]" "pad_to 3 (decimal 0) = [48, 48, 48]"
    by (simp_all add: two_def pad_to_def decimal.simps [of 0] numeral_2_eq_2 numeral_3_eq_3)
  have t: "toISOString (d * DAY_MS) =
      (pad_to 4 (decimal (nat y)) @ [45] @ two m @ [45] @ two dd) @ lit ''T00:00:00.000Z''"
    unfolding toISOString_def DAY_MS_def by (simp add: assms(1) z)
  show *: "dayText d = pad_to 4 (decimal (nat y)) @ [45] @ two m @ [45] @ two dd"
    unfolding dayText_def t using len by simp
  show "toISOString (d * DAY_MS) = dayText d @ lit ''T00:00:00.000Z''" unfolding t * ..
qed

lemma dayStart_dayText:
  assumes "four_digit_year d"
  shows "dayStart (dayText d) = Some (d * DAY_MS)"
proof -
  obtain y m dd where c: "civil_from_days d = (y, m, dd)" by (cases "civil_from_days d")
  then have "dayStart (dayText d) = dateParse (toISOString (d * DAY_MS))"
    using dayText_parts(1) [OF c] assms by (simp add: dayStart_def four_digit_year_def)
  also have "\<dots> = Some (d * DAY_MS)"
    using assms by (intro dateParse_toISOString) (simp_all add: DAY_MS_def four_digit_year_def)
  finally show ?thesis .
qed

lemma shiftDay_dayText: "four_digit_year d \<Longrightarrow> shiftDay (dayText d) n = Inr (dayText (d + n))"
  by (simp add: shiftDay_def dayStart_dayText) (simp add: dayText_def distrib_right)

lemma daysBetween_dayText:
  "four_digit_year a \<Longrightarrow> four_digit_year b \<Longrightarrow> daysBetween (dayText a) (dayText b) = Some (b - a + 1)"
proof -
  have "round_div (b * DAY_MS - a * DAY_MS) DAY_MS = b - a"
    by (simp add: round_div_def DAY_MS_def)
  then show "four_digit_year a \<Longrightarrow> four_digit_year b \<Longrightarrow> ?thesis"
    by (simp add: daysBetween_def dayStart_dayText)
qed

lemma two_order:
  assumes "0 \<le> n" "n < 100" "0 \<le> k" "k < 100"
  shows "str_less (two n) (two k) \<longleftrightarrow> n < k" "two n = two k \<longleftrightarrow> n = k"
proof -
  note a = two_digits [OF assms(1,2)] and b = two_digits [OF assms(3,4)]
  have "length (two n) = length (two k)" using a(1) b(1) by simp
  note c = str_less_digits [OF this a(3) b(3)]
  show "str_less (two n) (two k) \<longleftrightarrow> n < k" "two n = two k \<longleftrightarrow> n = k"
    using c a(2) b(2) by linarith+
qed

lemma year_order:
  assumes "0 \<le> y" "y \<le> 9999" "0 \<le> z" "z \<le> 9999"
  shows "str_less (pad_to 4 (decimal (nat y))) (pad_to 4 (decimal (nat z))) \<longleftrightarrow> y < z"
    "pad_to 4 (decimal (nat y)) = pad_to 4 (decimal (nat z)) \<longleftrightarrow> y = z"
    "length (pad_to 4 (decimal (nat y))) = length (pad_to 4 (decimal (nat z)))"
proof -
  have n: "nat y < 10 ^ 4" "nat z < 10 ^ 4" using assms by simp_all
  note a = pad_decimal [OF n(1)] and b = pad_decimal [OF n(2)]
  show len: "length (pad_to 4 (decimal (nat y))) = length (pad_to 4 (decimal (nat z)))" using a(1) b(1) by simp
  note c = str_less_digits [OF len] a b
  show "str_less (pad_to 4 (decimal (nat y))) (pad_to 4 (decimal (nat z))) \<longleftrightarrow> y < z"
    "pad_to 4 (decimal (nat y)) = pad_to 4 (decimal (nat z)) \<longleftrightarrow> y = z"
    using c assms by auto
qed

lemma str_less_earlier:
  assumes "a < b" "four_digit_year a" "four_digit_year b"
  shows "str_less (dayText a) (dayText b)"
proof -
  obtain y m d y' m' d' where c: "civil_from_days a = (y, m, d)" "civil_from_days b = (y', m', d')"
    by (cases "civil_from_days a"; cases "civil_from_days b")
  have y: "0 \<le> y" "y \<le> 9999" "0 \<le> y'" "y' \<le> 9999" using assms c by (simp_all add: four_digit_year_def)
  have r: "0 \<le> m" "m < 100" "0 \<le> d" "d < 100" "0 \<le> m'" "m' < 100" "0 \<le> d'" "d' < 100"
    using days_from_civil_inverse [of a] days_from_civil_inverse [of b] c by simp_all
  have len: "length (two m) = length (two m')" "length (two d) = length (two d')"
    using two_digits(1) [of m] two_digits(1) [of m'] two_digits(1) [of d] two_digits(1) [of d'] r by simp_all
  have "date_less (y, m, d) (y', m', d')" using civil_mono [OF assms(1)] c by simp
  then show ?thesis
    unfolding dayText_parts(2) [OF c(1) y(1,2)] dayText_parts(2) [OF c(2) y(3,4)] date_less_def
      str_less_append [OF year_order(3) [OF y]] year_order(1,2) [OF y] prod.case
    by (auto simp: str_less_append len two_order [OF r(1,2,5,6)] two_order [OF r(3,4,7,8)])
qed

lemma str_less_days:
  assumes "four_digit_year a" "four_digit_year b"
  shows "str_less (dayText a) (dayText b) \<longleftrightarrow> a < b"
proof -
  have "\<not> str_less t s" if "str_less s t" for s t
    using that by (induction s t rule: str_less.induct) auto
  then show ?thesis
    using str_less_earlier [OF _ assms] str_less_earlier [OF _ assms(2,1)] by (metis linorder_neqE str_less_irrefl)
qed

lemma str_le_days: "four_digit_year a \<Longrightarrow> four_digit_year b \<Longrightarrow> str_le (dayText a) (dayText b) \<longleftrightarrow> a \<le> b"
  by (auto simp: str_le_def str_less_days)

lemma dayText_inject: "four_digit_year a \<Longrightarrow> four_digit_year b \<Longrightarrow> dayText a = dayText b \<longleftrightarrow> a = b"
  by (metis less_irrefl linorder_neqE str_less_days str_less_irrefl)

text \<open>The loop visits every day once, in order, and ends.\<close>

lemma window_days_all:
  assumes "\<And>d. a \<le> d \<Longrightarrow> d \<le> b + 1 \<Longrightarrow> four_digit_year d" "four_digit_year a" "four_digit_year b"
    and "nat (b + 1 - a) < fuel"
  shows "window_days fuel (dayText a) (dayText b) = Some (Inr (map dayText [a..b]))"
  using assms
proof (induction fuel arbitrary: a)
  case (Suc fuel)
  show ?case
  proof (cases "a \<le> b")
    case True
    have "four_digit_year (a + 1)" using Suc(2) [of "a + 1"] True by simp
    then have "window_days fuel (dayText (a + 1)) (dayText b) = Some (Inr (map dayText [a + 1..b]))"
      using Suc(2,4,5) True by (intro Suc(1)) auto
    then show ?thesis
      using True Suc(3,4) by (simp add: str_le_days shiftDay_dayText upto_rec1 [of a])
  next
    case False
    then show ?thesis using Suc(3,4) by (simp add: str_le_days)
  qed
qed simp

end
