(* ===== verification/SalesReport.thy ===== *)
theory SalesReport
  imports Days JsNumber Orders
begin

text \<open>
  The pure half of the sales report, \<open>src/src/server/lib/sales-report.ts\<close>: the window a range
  means, the daily and the running series, totals, changes, the order funnel, histograms and
  order sizes. \<open>dhaka\<close> stands for the Dhaka calendar day of an instant and \<open>label\<close> for the printed
  label of a day, which the time-zone library computes.
\<close>

section \<open>Rows and windows\<close>

record daily_sales_row =
  dy_day :: jstr
  dy_orders :: int
  dy_tickets :: int
  dy_paisa :: int

datatype report_range = Last14 | Last30 | Last90 | AllTime

record report_window =
  rw_from :: jstr
  rw_to :: jstr
  rw_days :: "int option"
  rw_range :: report_range
  rw_today :: jstr

fun range_days :: "report_range \<Rightarrow> int" where
  "range_days Last14 = 14"
| "range_days Last30 = 30"
| "range_days Last90 = 90"
| "range_days AllTime = 0"

definition rangeWindow ::
  "report_range \<Rightarrow> jstr \<Rightarrow> jstr option \<Rightarrow> jstr \<Rightarrow> report_window result" where
  "rangeWindow rg to_day earliest today =
    (if rg = AllTime
     then (let f = (case earliest of
                 Some e \<Rightarrow> if e \<noteq> [] \<and> str_less e to_day then e else to_day
               | None \<Rightarrow> to_day)
           in Inr \<lparr>rw_from = f, rw_to = to_day, rw_days = daysBetween f to_day,
                rw_range = rg, rw_today = today\<rparr>)
     else bindE (shiftDay to_day (- (range_days rg - 1))) (\<lambda>f.
       Inr \<lparr>rw_from = f, rw_to = to_day, rw_days = Some (range_days rg),
         rw_range = rg, rw_today = today\<rparr>))"

definition inDays :: "int \<Rightarrow> jstr" where
  "inDays days =
    (if days \<le> 0 then lit ''today''
     else if days = 1 then lit ''tomorrow''
     else lit ''in '' @ decimal (nat days) @ lit '' days'')"

definition dhakaDaysUntil :: "(instant \<Rightarrow> jstr) \<Rightarrow> instant \<Rightarrow> instant \<Rightarrow> int option" where
  "dhakaDaysUntil dhaka date now = map_option (\<lambda>n. n - 1) (daysBetween (dhaka now) (dhaka date))"

section \<open>Series\<close>

record daily_point =
  pt_day :: jstr
  pt_orders :: int
  pt_tickets :: int
  pt_paisa :: int
  pt_label :: jstr
  pt_isToday :: bool

record daily_series =
  sr_points :: "daily_point list"
  sr_peak :: "daily_point option"
  sr_maxTickets :: int

text \<open>\<open>new Map(rows.map((r) => [r.day, r]))\<close>: the last row of a day wins.\<close>

definition by_day :: "daily_sales_row list \<Rightarrow> jstr \<Rightarrow> daily_sales_row option" where
  "by_day rows = map_of (rev (map (\<lambda>r. (dy_day r, r)) rows))"

definition daily_point_of ::
  "(jstr \<Rightarrow> jstr) \<Rightarrow> daily_sales_row list \<Rightarrow> jstr \<Rightarrow> jstr \<Rightarrow> daily_point" where
  "daily_point_of label rows today day =
    (let r = by_day rows day
     in \<lparr>pt_day = day,
          pt_orders = (case r of Some x \<Rightarrow> dy_orders x | None \<Rightarrow> 0),
          pt_tickets = (case r of Some x \<Rightarrow> dy_tickets x | None \<Rightarrow> 0),
          pt_paisa = (case r of Some x \<Rightarrow> dy_paisa x | None \<Rightarrow> 0),
          pt_label = label day, pt_isToday = (day = today)\<rparr>)"

definition peak_day :: "daily_point list \<Rightarrow> daily_point option" where
  "peak_day points = foldl (\<lambda>peak p.
     if pt_tickets p > 0 \<and> (case peak of None \<Rightarrow> True | Some q \<Rightarrow> pt_tickets p > pt_tickets q)
     then Some p else peak) None points"

definition dailySeries ::
  "(jstr \<Rightarrow> jstr) \<Rightarrow> nat \<Rightarrow> daily_sales_row list \<Rightarrow> report_window \<Rightarrow> daily_series result option" where
  "dailySeries label fuel rows w =
    map_option (\<lambda>r. bindE r (\<lambda>ds.
      let points = map (daily_point_of label rows (rw_today w)) ds; peak = peak_day points
      in Inr \<lparr>sr_points = points, sr_peak = peak,
           sr_maxTickets = (case peak of Some p \<Rightarrow> pt_tickets p | None \<Rightarrow> 0)\<rparr>))
      (window_days fuel (rw_from w) (rw_to w))"

record cumulative_point =
  cp_day :: jstr
  cp_label :: jstr
  cp_cumulative :: int
  cp_isToday :: bool

record cumulative_series =
  cu_points :: "cumulative_point list"
  cu_before :: int
  cu_end :: int

definition before_window :: "daily_sales_row list \<Rightarrow> report_window \<Rightarrow> int" where
  "before_window rows w =
    sum_list (map dy_tickets (filter (\<lambda>r. str_less (dy_day r) (rw_from w)) rows))"

definition tickets_on :: "daily_sales_row list \<Rightarrow> report_window \<Rightarrow> jstr \<Rightarrow> int" where
  "tickets_on rows w day =
    sum_list (map dy_tickets (filter (\<lambda>r. \<not> str_less (dy_day r) (rw_from w) \<and>
      str_le (dy_day r) (rw_to w) \<and> dy_day r = day) rows))"

fun running_points ::
  "(jstr \<Rightarrow> jstr) \<Rightarrow> (jstr \<Rightarrow> int) \<Rightarrow> jstr \<Rightarrow> int \<Rightarrow> jstr list \<Rightarrow> cumulative_point list \<times> int" where
  "running_points label sold today running [] = ([], running)"
| "running_points label sold today running (day # ds) =
    (let now = running + sold day
     in case running_points label sold today now ds of (ps, final) \<Rightarrow>
       (\<lparr>cp_day = day, cp_label = label day, cp_cumulative = now, cp_isToday = (day = today)\<rparr> # ps, final))"

definition cumulativeSeries ::
  "(jstr \<Rightarrow> jstr) \<Rightarrow> nat \<Rightarrow> daily_sales_row list \<Rightarrow> report_window \<Rightarrow> cumulative_series result option" where
  "cumulativeSeries label fuel rows w =
    map_option (\<lambda>r. bindE r (\<lambda>ds.
      let before = before_window rows w
      in case running_points label (tickets_on rows w) (rw_today w) before ds of (ps, final) \<Rightarrow>
        Inr \<lparr>cu_points = ps, cu_before = before, cu_end = final\<rparr>))
      (window_days fuel (rw_from w) (rw_to w))"

record period_totals =
  pe_orders :: int
  pe_tickets :: int
  pe_paisa :: int

definition periodTotals :: "daily_sales_row list \<Rightarrow> jstr \<Rightarrow> jstr \<Rightarrow> period_totals" where
  "periodTotals rows from_day to_day =
    (let inside = filter (\<lambda>r. \<not> (str_less (dy_day r) from_day \<or> str_less to_day (dy_day r))) rows
     in \<lparr>pe_orders = sum_list (map dy_orders inside), pe_tickets = sum_list (map dy_tickets inside),
          pe_paisa = sum_list (map dy_paisa inside)\<rparr>)"

record delta =
  de_current :: int
  de_prior :: int
  de_change :: int
  de_pct :: "int option"

definition delta_of :: "int \<Rightarrow> int \<Rightarrow> delta" where
  "delta_of current prior =
    \<lparr>de_current = current, de_prior = prior, de_change = current - prior,
      de_pct = (if prior = 0 then None
        else Some (math_round (double_times
          (to_double (if prior < 0 then prior - current else current - prior) \<bar>prior\<bar>) 100)))\<rparr>"

definition percent :: "int \<Rightarrow> int \<Rightarrow> int" where
  "percent n whole =
    (if whole > 0 then math_round (double_times (to_double n whole) 100) else 0)"

section \<open>The funnel\<close>

record period_money =
  pm_count :: int
  pm_paisa :: int

record funnel =
  fu_placed :: int
  fu_submitted :: int
  fu_verified :: int
  fu_conversionPct :: int
  fu_pendingPayment :: period_money
  fu_pendingVerification :: period_money
  fu_verifiedMoney :: period_money
  fu_rejected :: period_money
  fu_expired :: period_money
  fu_cancelled :: period_money

definition pick_status :: "status_total list \<Rightarrow> order_status \<Rightarrow> period_money" where
  "pick_status rows st =
    (case List.find (\<lambda>r. st_status r = st) rows of
       Some t \<Rightarrow> \<lparr>pm_count = st_count t, pm_paisa = st_totalPaisa t\<rparr>
     | None \<Rightarrow> \<lparr>pm_count = 0, pm_paisa = 0\<rparr>)"

definition add_money :: "period_money \<Rightarrow> period_money \<Rightarrow> period_money" where
  "add_money a b = \<lparr>pm_count = pm_count a + pm_count b, pm_paisa = pm_paisa a + pm_paisa b\<rparr>"

definition funnel_of :: "status_total list \<Rightarrow> funnel" where
  "funnel_of rows =
    (let pv = pick_status rows PendingVerification;
         vm = foldl add_money \<lparr>pm_count = 0, pm_paisa = 0\<rparr> (map (pick_status rows) REVENUE_STATUSES);
         rj = pick_status rows Rejected;
         ca = pick_status rows Cancelled;
         placed = sum_list (map st_count rows)
     in \<lparr>fu_placed = placed, fu_submitted = pm_count pv + pm_count vm + pm_count rj + pm_count ca,
          fu_verified = pm_count vm, fu_conversionPct = percent (pm_count vm) placed,
          fu_pendingPayment = pick_status rows PendingPayment, fu_pendingVerification = pv,
          fu_verifiedMoney = vm, fu_rejected = rj, fu_expired = pick_status rows Expired,
          fu_cancelled = ca\<rparr>)"

section \<open>When people register, and how many tickets they take\<close>

record weekday_hour_row =
  wh_dow :: int
  wh_hour :: int
  wh_n :: int

record histograms =
  hi_byHour :: "int list"
  hi_byWeekday :: "int list"
  hi_peakHour :: "nat option"
  hi_peakWeekday :: "nat option"
  hi_total :: int

definition add_at :: "int \<Rightarrow> int \<Rightarrow> int list \<Rightarrow> int list" where
  "add_at i n xs = xs[nat i := xs ! nat i + n]"

definition peak_index :: "int list \<Rightarrow> nat option" where
  "peak_index xs = foldl (\<lambda>best i.
     if xs ! i > 0 \<and> (case best of None \<Rightarrow> True | Some j \<Rightarrow> xs ! i > xs ! j) then Some i else best)
     None [0..<length xs]"

definition histograms_of :: "weekday_hour_row list \<Rightarrow> histograms" where
  "histograms_of rows =
    (let inside = filter (\<lambda>r. \<not> (wh_hour r < 0 \<or> wh_hour r > 23 \<or> wh_dow r < 0 \<or> wh_dow r > 6)) rows;
         byHour = foldl (\<lambda>xs r. add_at (wh_hour r) (wh_n r) xs) (replicate 24 0) inside;
         byWeekday = foldl (\<lambda>xs r. add_at (wh_dow r) (wh_n r) xs) (replicate 7 0) inside
     in \<lparr>hi_byHour = byHour, hi_byWeekday = byWeekday, hi_peakHour = peak_index byHour,
          hi_peakWeekday = peak_index byWeekday, hi_total = sum_list (map wh_n inside)\<rparr>)"

record order_size_row =
  os_quantity :: int
  os_n :: int

record order_size_stats =
  oz_histogram :: "int list"
  oz_orders :: int
  oz_tickets :: int
  oz_average :: double

definition orderSizeStats :: "order_size_row list \<Rightarrow> order_size_stats" where
  "orderSizeStats rows =
    (let inside = filter (\<lambda>r. \<not> (os_quantity r < 1 \<or> os_quantity r > 10)) rows;
         n = sum_list (map os_n inside);
         tix = sum_list (map (\<lambda>r. os_n r * os_quantity r) inside)
     in \<lparr>oz_histogram = foldl (\<lambda>xs r. add_at (os_quantity r - 1) (os_n r) xs) (replicate 10 0) inside,
          oz_orders = n, oz_tickets = tix,
          oz_average = (if n > 0 then to_double (math_round (double_times (to_double tix n) 10)) 10
            else (0, 0))\<rparr>)"

section \<open>Labels and the first event\<close>

definition WEEKDAY_LABELS :: "jstr list" where
  "WEEKDAY_LABELS = map lit [''Sun'', ''Mon'', ''Tue'', ''Wed'', ''Thu'', ''Fri'', ''Sat'']"

definition formatDuration :: "double \<Rightarrow> jstr" where
  "formatDuration seconds =
    (let s = max 0 (math_round seconds);
         mins = math_round (to_double s 60);
         hours = mins div 60;
         rest = mins mod 60;
         days = math_round (to_double hours 24)
     in if s < 60 then lit ''under a minute''
        else if mins < 60 then decimal (nat mins) @ lit '' min''
        else if hours < 24
          then if rest = 0 then decimal (nat hours) @ lit ''h''
               else decimal (nat hours) @ lit ''h '' @ decimal (nat rest) @ lit ''m''
        else decimal (nat days) @ lit '' '' @ (if days = 1 then lit ''day'' else lit ''days''))"

text \<open>Both sorts are stable.\<close>

definition defaultReportEvent :: "event_row list \<Rightarrow> instant \<Rightarrow> event_row option" where
  "defaultReportEvent evs now =
    (case sort_key e_startsAt (filter (\<lambda>e. e_status e = Published \<and> e_startsAt e > now) evs) of
       e # _ \<Rightarrow> Some e
     | [] \<Rightarrow> first_row (sort_key (\<lambda>e. - e_startsAt e) evs))"

section \<open>Facts\<close>

lemma percent_bounds:
  assumes "0 \<le> n" "n \<le> whole"
  shows "0 \<le> percent n whole" "percent n whole \<le> 100"
  using share_percent [OF assms] by (simp_all add: percent_def)

lemma formatDuration_samples:
  "formatDuration (to_double 59 1) = lit ''under a minute''"
  "formatDuration (to_double 7800 1) = lit ''2h 10m''"
  "formatDuration (to_double 86400 1) = lit ''1 day''"
  by code_simp+

end
