(* ===== verification/Forms.thy ===== *)
theory Forms
  imports ScanTokens Orders
begin

text \<open>
  What people type into the forms, \<open>src/src/lib/validation/orders.ts\<close> and
  \<open>src/src/lib/validation/orders-search.ts\<close>, and the sort links of
  \<open>src/src/lib/table-sort.ts\<close>: mobile numbers, transaction ids, order references and search
  terms, brought to the form they are stored in. \<open>None\<close> is a refused value.
\<close>

section \<open>validation/orders.ts\<close>

definition BD_MOBILE_PREFIX :: jstr where "BD_MOBILE_PREFIX = lit ''+880''"

text \<open>\<open>/^1[3-9]\d{8}$/\<close>\<close>

definition BD_MOBILE_PATTERN :: "jstr \<Rightarrow> bool" where
  "BD_MOBILE_PATTERN s \<longleftrightarrow>
    length s = 10 \<and> s ! 0 = 49 \<and> 51 \<le> s ! 1 \<and> s ! 1 \<le> 57 \<and> list_all is_digit s"

text \<open>\<open>.replace(/^(\+?880|0)/, '')\<close>\<close>

definition strip_country :: "jstr \<Rightarrow> jstr" where
  "strip_country s =
    (if take 4 s = lit ''+880'' then drop 4 s
     else if take 3 s = lit ''880'' then drop 3 s
     else if take 1 s = lit ''0'' then drop 1 s
     else s)"

definition bdMobile :: "jstr \<Rightarrow> jstr option" where
  "bdMobile v =
    (let digits = strip_country (filter (\<lambda>c. \<not> is_space c \<and> c \<noteq> 45) (normaliseDigits v))
     in if BD_MOBILE_PATTERN digits then Some (BD_MOBILE_PREFIX @ digits) else None)"

definition personName :: "jstr \<Rightarrow> jstr option" where
  "personName v =
    (let name = trim v
     in if length name < NAME_MIN \<or> length name > NAME_MAX then None else Some name)"

definition TRX_ID_PATTERN :: "jstr \<Rightarrow> bool" where
  "TRX_ID_PATTERN s \<longleftrightarrow> length s = 10 \<and> list_all (\<lambda>c. is_upper c \<or> is_digit c) s"

definition trxIdField :: "jstr \<Rightarrow> jstr option" where
  "trxIdField v =
    (let t = remove_spaces (toUpperCase (trim (normaliseDigits v)))
     in if TRX_ID_PATTERN t then Some t else None)"

definition paymentForm :: "jstr \<Rightarrow> jstr \<Rightarrow> (jstr \<times> jstr) option" where
  "paymentForm trxId senderPhone =
    (case (trxIdField trxId, bdMobile senderPhone) of
       (Some t, Some p) \<Rightarrow> Some (t, p)
     | _ \<Rightarrow> None)"

definition referenceField :: "jstr \<Rightarrow> jstr option" where
  "referenceField v =
    (let r = ORDER_REFERENCE_PREFIX @ strip_prefix (lit ''EA'') (toUpperCase (trim (normaliseDigits v)))
     in if ORDER_REFERENCE_PATTERN r then Some r else None)"

definition findOrderForm :: "jstr \<Rightarrow> jstr \<Rightarrow> (jstr \<times> jstr) option" where
  "findOrderForm reference phone =
    (case (referenceField reference, bdMobile phone) of
       (Some r, Some p) \<Rightarrow> Some (r, p)
     | _ \<Rightarrow> None)"

section \<open>validation/orders-search.ts\<close>

record search_term =
  se_reference :: "jstr option"
  se_trxId :: "jstr option"
  se_phone :: "jstr option"
  se_email :: "jstr option"

text \<open>\<open>lower\<close> is \<open>toLowerCase\<close>.\<close>

definition normaliseSearchTerm :: "(jstr \<Rightarrow> jstr) \<Rightarrow> jstr \<Rightarrow> search_term" where
  "normaliseSearchTerm lower raw =
    (let term = trim (normaliseDigits raw)
     in if term = [] then \<lparr>se_reference = None, se_trxId = None, se_phone = None, se_email = None\<rparr>
        else let upper = toUpperCase term;
                 asReference = ORDER_REFERENCE_PREFIX @ strip_prefix (lit ''EA'') upper
             in \<lparr>se_reference = (if ORDER_REFERENCE_PATTERN asReference then Some asReference else None),
                  se_trxId = (if TRX_ID_PATTERN upper then Some upper else None),
                  se_phone = bdMobile term,
                  se_email = Some (lower term)\<rparr>)"

section \<open>table-sort.ts\<close>

record sort_state =
  so_column :: jstr
  so_desc :: bool

text \<open>\<open>split(':')\<close> has exactly two parts when there is exactly one colon.\<close>

definition parseSort :: "jstr option \<Rightarrow> jstr list \<Rightarrow> sort_state \<Rightarrow> sort_state" where
  "parseSort param allowed fallback =
    (case param of
       None \<Rightarrow> fallback
     | Some p \<Rightarrow>
         if length (filter (\<lambda>c. c = 58) p) \<noteq> 1 then fallback
         else let column = takeWhile (\<lambda>c. c \<noteq> 58) p;
                  dir = drop 1 (dropWhile (\<lambda>c. c \<noteq> 58) p)
              in if column = [] \<or> column \<notin> set allowed then fallback
                 else if dir \<noteq> lit ''asc'' \<and> dir \<noteq> lit ''desc'' then fallback
                 else \<lparr>so_column = column, so_desc = (dir = lit ''desc'')\<rparr>)"

definition formatSort :: "sort_state \<Rightarrow> jstr" where
  "formatSort s = so_column s @ [58] @ lit (if so_desc s then ''desc'' else ''asc'')"

definition nextSort :: "sort_state \<Rightarrow> jstr \<Rightarrow> bool \<Rightarrow> sort_state" where
  "nextSort current column firstDesc =
    (if so_column current = column then \<lparr>so_column = column, so_desc = \<not> so_desc current\<rparr>
     else \<lparr>so_column = column, so_desc = firstDesc\<rparr>)"

section \<open>Mobile numbers\<close>

lemma prefix_units: "BD_MOBILE_PREFIX = [43, 56, 56, 48]"
  by (simp add: BD_MOBILE_PREFIX_def)

lemma mobile_units:
  assumes "BD_MOBILE_PATTERN d" "c \<in> set d"
  shows "is_digit c" "normalise_unit c = c" "\<not> is_space c" "c \<noteq> 45"
proof -
  show d: "is_digit c" using assms by (auto simp: BD_MOBILE_PATTERN_def list_all_iff)
  then show "normalise_unit c = c" "\<not> is_space c" "c \<noteq> 45"
    by (auto simp: is_digit_def is_space_def intro: normalise_unit_ascii)
qed

lemma mobile_no_country:
  assumes "BD_MOBILE_PATTERN d"
  shows "strip_country d = d"
proof -
  obtain a b t where "d = a # b # t" "a = 49"
    using assms by (cases d; cases "tl d") (auto simp: BD_MOBILE_PATTERN_def)
  then show ?thesis by (simp add: strip_country_def)
qed

text \<open>What the number's digits look like once spaces, dashes and digit sets are out of the way.\<close>

definition mobile_digits :: "jstr \<Rightarrow> jstr" where
  "mobile_digits v = filter (\<lambda>c. \<not> is_space c \<and> c \<noteq> 45) (normaliseDigits v)"

lemma bdMobile_forms:
  assumes "BD_MOBILE_PATTERN d"
    and "mobile_digits v \<in> {d, lit ''0'' @ d, lit ''880'' @ d, lit ''+880'' @ d}"
  shows "bdMobile v = Some (BD_MOBILE_PREFIX @ d)"
proof -
  have "strip_country (lit ''0'' @ d) = d" "strip_country (lit ''880'' @ d) = d" "strip_country (lit ''+880'' @ d) = d"
    by (simp_all add: strip_country_def)
  then have "strip_country (mobile_digits v) = d" using assms mobile_no_country by auto
  then show ?thesis using assms(1) by (simp add: bdMobile_def mobile_digits_def Let_def)
qed

text \<open>A stored number reads back as itself.\<close>

lemma bdMobile_stored:
  assumes "bdMobile v = Some p"
  shows "bdMobile p = Some p" "\<exists>d. BD_MOBILE_PATTERN d \<and> p = BD_MOBILE_PREFIX @ d"
proof -
  obtain d where d: "BD_MOBILE_PATTERN d" "p = BD_MOBILE_PREFIX @ d"
    using assms by (auto simp: bdMobile_def Let_def split: if_splits)
  then show "\<exists>d. BD_MOBILE_PATTERN d \<and> p = BD_MOBILE_PREFIX @ d" by blast
  have n: "normaliseDigits p = p"
    using mobile_units(2) [OF d(1)] by (auto simp: d(2) prefix_units normaliseDigits_def normalise_unit_ascii map_idI)
  have "mobile_digits p = lit ''+880'' @ d"
    unfolding mobile_digits_def n using mobile_units(3,4) [OF d(1)]
    by (simp add: d(2) prefix_units is_space_def filter_id_conv)
  then show "bdMobile p = Some p" unfolding d(2) by (intro bdMobile_forms [OF d(1)]) simp
qed

lemma split_colon:
  "58 \<notin> set c \<Longrightarrow> takeWhile (\<lambda>u. u \<noteq> 58) (c @ 58 # t) = c \<and> dropWhile (\<lambda>u. u \<noteq> 58) (c @ 58 # t) = 58 # t"
  for c :: jstr
  by (induction c) auto

lemma parseSort_formatSort:
  assumes "so_column s \<in> set allowed" "so_column s \<noteq> []" "58 \<notin> set (so_column s)"
  shows "parseSort (Some (formatSort s)) allowed fallback = s"
proof -
  have "filter (\<lambda>c. c = 58) (so_column s) = []" using assms(3) by (auto simp: filter_empty_conv)
  then show ?thesis using assms(1,2) split_colon [OF assms(3)] by (cases "so_desc s") (simp_all add: parseSort_def formatSort_def)
qed

section \<open>Order references\<close>

text \<open>What a typed reference looks like once spaces, digit sets and letter cases are settled.\<close>

definition settled :: "jstr \<Rightarrow> jstr" where
  "settled v = toUpperCase (trim (normaliseDigits v))"

lemma reference_split:
  assumes "ORDER_REFERENCE_PATTERN r"
  obtains b where "r = ORDER_REFERENCE_PREFIX @ b" "code_symbols 6 b" "b = drop 3 r"
  using assms append_take_drop_id [of 3 r] by (metis ORDER_REFERENCE_PATTERN_def)

lemma no_dash: "code_symbols n b \<Longrightarrow> take 1 b \<noteq> [45]"
  by (cases b) (auto simp: code_symbols_def ORDER_REFERENCE_ALPHABET_def)

lemma strip_reference:
  assumes "code_symbols 6 b"
  shows "strip_prefix (lit ''EA'') (ORDER_REFERENCE_PREFIX @ b) = b"
    "strip_prefix (lit ''EA'') (lit ''EA'' @ b) = b"
    "take 2 b \<noteq> lit ''EA'' \<Longrightarrow> strip_prefix (lit ''EA'') b = b"
    "take 2 b = lit ''EA'' \<Longrightarrow> strip_prefix (lit ''EA'') b = drop 2 b"
proof -
  show "strip_prefix (lit ''EA'') (ORDER_REFERENCE_PREFIX @ b) = b"
    by (simp add: strip_prefix_def ORDER_REFERENCE_PREFIX_def Let_def)
  show "strip_prefix (lit ''EA'') (lit ''EA'' @ b) = b"
    using no_dash [OF assms] by (simp add: strip_prefix_def Let_def)
  have l: "length (lit ''EA'') = 2" by simp
  show "take 2 b \<noteq> lit ''EA'' \<Longrightarrow> strip_prefix (lit ''EA'') b = b"
    unfolding strip_prefix_def l by simp
  have "code_symbols 4 (drop 2 b)"
    using assms by (auto simp: code_symbols_def list_all_iff dest: in_set_dropD)
  from no_dash [OF this] show "take 2 b = lit ''EA'' \<Longrightarrow> strip_prefix (lit ''EA'') b = drop 2 b"
    unfolding strip_prefix_def l Let_def by simp
qed

lemma referenceField_forms:
  assumes "ORDER_REFERENCE_PATTERN r"
    and "settled v \<in> {r, lit ''EA'' @ drop 3 r} \<or> settled v = drop 3 r \<and> take 2 (drop 3 r) \<noteq> lit ''EA''"
  shows "referenceField v = Some r"
proof -
  obtain b where b: "r = ORDER_REFERENCE_PREFIX @ b" "code_symbols 6 b" "b = drop 3 r"
    by (rule reference_split [OF assms(1)])
  then have "strip_prefix (lit ''EA'') (settled v) = b"
    using assms(2) strip_reference(1-3) [OF b(2)] by (metis insertE singletonD)
  then show ?thesis using assms(1) b(1) by (simp add: referenceField_def settled_def Let_def)
qed

text \<open>The body of a reference that starts with the letters of the prefix is not read without it.\<close>

lemma referenceField_bare:
  assumes "ORDER_REFERENCE_PATTERN r" "settled v = drop 3 r" "take 2 (drop 3 r) = lit ''EA''"
  shows "referenceField v = None"
proof -
  obtain b where b: "r = ORDER_REFERENCE_PREFIX @ b" "code_symbols 6 b" "b = drop 3 r"
    by (rule reference_split [OF assms(1)])
  have "strip_prefix (lit ''EA'') (settled v) = drop 2 b" using strip_reference(4) [OF b(2)] assms(2,3) b(3) by simp
  moreover have "\<not> ORDER_REFERENCE_PATTERN (ORDER_REFERENCE_PREFIX @ drop 2 b)"
    using b(2) by (simp add: ORDER_REFERENCE_PATTERN_def code_symbols_def ORDER_REFERENCE_PREFIX_def)
  ultimately show ?thesis by (simp add: referenceField_def settled_def Let_def)
qed

lemma settled_search:
  "settled v \<noteq> [] \<Longrightarrow> se_reference (normaliseSearchTerm lower v) = referenceField v"
  by (auto simp: settled_def normaliseSearchTerm_def referenceField_def Let_def)

end
