(* ===== verification/OrderSearch.thy ===== *)
theory OrderSearch
  imports Forms "HOL-Library.Multiset"
begin

text \<open>
  The orders list of the admin desk: \<open>search\<close> and \<open>totalsByStatus\<close> of
  \<open>src/src/server/repositories/orders.repository.ts\<close>, and \<open>searchOrders\<close>, \<open>exportOrders\<close> and
  \<open>orderTotals\<close> of \<open>src/src/server/services/orders.service.ts\<close>. \<open>rank\<close> is the collation of
  the database, \<open>midnight\<close> the instant a Dhaka day starts and \<open>add_day\<close> \<open>addDays(.., 1)\<close>, which the
  date library computes.
\<close>

section \<open>LIKE\<close>

text \<open>
  \<open>%\<close> (37) stands for any text, \<open>_\<close> (95) for any character, and a backslash (92) takes the next
  character as it is.
\<close>

function like :: "jstr \<Rightarrow> jstr \<Rightarrow> bool" where
  "like [] s = (s = [])"
| "like (c # p) s =
    (if c = 37 then list_ex (\<lambda>k. like p (drop k s)) [0..<Suc (length s)]
     else if c = 95 then (case s of [] \<Rightarrow> False | x # xs \<Rightarrow> like p xs)
     else if c = 92 then
       (case (p, s) of (d # q, x # xs) \<Rightarrow> x = d \<and> like q xs | _ \<Rightarrow> False)
     else (case s of [] \<Rightarrow> False | x # xs \<Rightarrow> x = c \<and> like p xs))"
  by pat_completeness auto
termination by (relation "measure (\<lambda>(p, s). length p)") auto

text \<open>\<open>ILIKE\<close> compares in lower case; \<open>lower\<close> is given on the ASCII letters, the alphabet of an email.\<close>

definition pg_lower :: "jstr \<Rightarrow> jstr" where
  "pg_lower s = map (\<lambda>c. if is_upper c then c + 32 else c) s"

definition ilike :: "jstr \<Rightarrow> jstr \<Rightarrow> bool" where
  "ilike s p = like (pg_lower p) (pg_lower s)"

definition escapeLike :: "jstr \<Rightarrow> jstr" where
  "escapeLike term = concat (map (\<lambda>c. if c \<in> {92, 37, 95} then [92, c] else [c]) term)"

section \<open>Filters\<close>

record orders_filter =
  of_term :: "search_term option"
  of_status :: "order_status option"
  of_eventId :: "uuid option"
  of_createdFrom :: "instant option"
  of_createdBefore :: "instant option"

definition term_matches :: "search_term \<Rightarrow> order_row \<Rightarrow> bool" where
  "term_matches t r \<longleftrightarrow>
    (\<not> falsy (se_reference t) \<and> Some (o_reference r) = se_reference t) \<or>
    (\<not> falsy (se_trxId t) \<and> o_bkashTrxId r = se_trxId t) \<or>
    (\<not> falsy (se_phone t) \<and> o_buyerPhone r = se_phone t) \<or>
    (case se_email t of
       Some e \<Rightarrow> e \<noteq> [] \<and> ilike (o_buyerEmail r) ([37] @ escapeLike e @ [37])
     | None \<Rightarrow> False)"

definition searchWhere :: "orders_filter \<Rightarrow> order_row \<Rightarrow> bool" where
  "searchWhere f r \<longleftrightarrow>
    (case of_term f of
       None \<Rightarrow> True
     | Some t \<Rightarrow>
         (falsy (se_reference t) \<and> falsy (se_trxId t) \<and> falsy (se_phone t) \<and> falsy (se_email t)) \<or>
         term_matches t r) \<and>
    (case of_status f of None \<Rightarrow> True | Some st \<Rightarrow> o_status r = st) \<and>
    (case of_eventId f of None \<Rightarrow> True | Some e \<Rightarrow> o_eventId r = e) \<and>
    (case of_createdFrom f of None \<Rightarrow> True | Some a \<Rightarrow> o_createdAt r \<ge> a) \<and>
    (case of_createdBefore f of None \<Rightarrow> True | Some b \<Rightarrow> o_createdAt r < b)"

section \<open>The page\<close>

datatype orders_sort_column = ByCreated | ByTotal | ByReference | ByStatus | ByBuyer

record orders_sort =
  os_column :: orders_sort_column
  os_desc :: bool

text \<open>An enumeration sorts in the order its values were declared.\<close>

fun status_position :: "order_status \<Rightarrow> int" where
  "status_position PendingPayment = 0"
| "status_position PendingVerification = 1"
| "status_position Paid = 2"
| "status_position Rejected = 4"
| "status_position Expired = 5"
| "status_position Cancelled = 6"
| "status_position Issued = 3"

fun sort_value :: "(jstr \<Rightarrow> nat) \<Rightarrow> orders_sort_column \<Rightarrow> order_row \<Rightarrow> int" where
  "sort_value rank ByCreated r = o_createdAt r"
| "sort_value rank ByTotal r = o_totalPaisa r"
| "sort_value rank ByReference r = int (rank (o_reference r))"
| "sort_value rank ByStatus r = status_position (o_status r)"
| "sort_value rank ByBuyer r = int (rank (o_buyerName r))"

definition sortOrder :: "(jstr \<Rightarrow> nat) \<Rightarrow> orders_sort \<Rightarrow> queue_row list \<Rightarrow> queue_row list" where
  "sortOrder rank so rows =
    sort_key (\<lambda>q. (if os_desc so then - 1 else 1) * sort_value rank (os_column so) (qr_order q))
      (sort_key (\<lambda>q. - int (o_id (qr_order q))) rows)"

record orders_page =
  op_rows :: "queue_row list"
  op_total :: nat

definition orders_search ::
  "(jstr \<Rightarrow> nat) \<Rightarrow> orders_filter \<Rightarrow> nat \<Rightarrow> nat \<Rightarrow> orders_sort \<Rightarrow> db \<Rightarrow> orders_page" where
  "orders_search rank f limit offset so s =
    \<lparr>op_rows = take limit (drop offset (sortOrder rank so
       (List.map_filter (join_order s) (filter (searchWhere f) (orders s))))),
     op_total = length (filter (searchWhere f) (orders s))\<rparr>"

text \<open>\<open>GROUP BY\<close>: the groups, in the order their keys first appear.\<close>

definition group_by :: "('r \<Rightarrow> 'k) \<Rightarrow> 'r list \<Rightarrow> ('k \<times> 'r list) list" where
  "group_by key rs = map (\<lambda>k. (k, filter (\<lambda>r. key r = k) rs)) (remdups (map key rs))"

definition totalsByStatus :: "orders_filter \<Rightarrow> db \<Rightarrow> status_total list" where
  "totalsByStatus f s =
    map (\<lambda>(st, rs). \<lparr>st_status = st, st_count = int (length rs),
        st_totalPaisa = sum_list (map o_totalPaisa rs),
        st_compCount = int (length (filter (\<lambda>r. o_complimentaryReason r \<noteq> None) rs))\<rparr>)
      (group_by o_status (filter (searchWhere (f\<lparr>of_status := None\<rparr>)) (orders s)))"

section \<open>The service\<close>

definition ORDERS_PAGE_SIZE :: nat where "ORDERS_PAGE_SIZE = 25"
definition ORDERS_EXPORT_CAP :: nat where "ORDERS_EXPORT_CAP = 10000"

record orders_search_input =
  si_q :: jstr
  si_status :: "order_status option"
  si_event :: "uuid option"
  si_from :: "jstr option"
  si_to :: "jstr option"
  si_page :: nat
  si_sort :: orders_sort
  si_size :: "nat option"

definition toSearchFilter ::
  "(jstr \<Rightarrow> jstr) \<Rightarrow> (jstr \<Rightarrow> instant) \<Rightarrow> (instant \<Rightarrow> instant) \<Rightarrow> orders_search_input \<Rightarrow> orders_filter" where
  "toSearchFilter lower midnight add_day inp =
    \<lparr>of_term = (if si_q inp = [] then None else Some (normaliseSearchTerm lower (si_q inp))),
     of_status = si_status inp, of_eventId = si_event inp,
     of_createdFrom = (if falsy (si_from inp) then None else map_option midnight (si_from inp)),
     of_createdBefore = (if falsy (si_to inp) then None else map_option (\<lambda>d. add_day (midnight d)) (si_to inp))\<rparr>"

datatype matched_field = MatchedReference | MatchedTrxId | MatchedPhone | MatchedEmail

definition matchedField :: "queue_row \<Rightarrow> search_term option \<Rightarrow> matched_field option" where
  "matchedField row term =
    (case term of
       None \<Rightarrow> None
     | Some t \<Rightarrow>
         if \<not> falsy (se_reference t) \<and> Some (o_reference (qr_order row)) = se_reference t then Some MatchedReference
         else if \<not> falsy (se_trxId t) \<and> o_bkashTrxId (qr_order row) = se_trxId t then Some MatchedTrxId
         else if \<not> falsy (se_phone t) \<and> o_buyerPhone (qr_order row) = se_phone t then Some MatchedPhone
         else (case se_email t of
             Some e \<Rightarrow> if e \<noteq> [] \<and> includes_text (o_buyerEmail (qr_order row)) e then Some MatchedEmail else None
           | None \<Rightarrow> None))"

record orders_result =
  or_rows :: "(queue_row \<times> matched_field option) list"
  or_total :: nat
  or_page :: nat
  or_pageSize :: nat
  or_pages :: nat

text \<open>\<open>again\<close> is the store the second query reads.\<close>

definition searchOrders ::
  "(jstr \<Rightarrow> nat) \<Rightarrow> (orders_search_input \<Rightarrow> orders_filter) \<Rightarrow> db \<Rightarrow> orders_search_input \<Rightarrow> db \<Rightarrow> orders_result" where
  "searchOrders rank to_filter again inp s =
    (let f = to_filter inp;
         size' = (case si_size inp of Some n \<Rightarrow> n | None \<Rightarrow> ORDERS_PAGE_SIZE);
         first = orders_search rank f size' ((si_page inp - 1) * size') (si_sort inp) s;
         pages = max 1 ((op_total first + size' - 1) div size');
         page = min (si_page inp) pages;
         result = (if page = si_page inp then first
           else orders_search rank f size' ((page - 1) * size') (si_sort inp) again)
     in \<lparr>or_rows = map (\<lambda>row. (row, matchedField row (of_term f))) (op_rows result),
          or_total = op_total result, or_page = page, or_pageSize = size', or_pages = pages\<rparr>)"

definition exportOrders ::
  "(jstr \<Rightarrow> nat) \<Rightarrow> (orders_search_input \<Rightarrow> orders_filter) \<Rightarrow> orders_search_input \<Rightarrow> db \<Rightarrow> orders_page" where
  "exportOrders rank to_filter inp s =
    orders_search rank (to_filter inp) ORDERS_EXPORT_CAP 0 (si_sort inp) s"

definition orderTotals :: "(orders_search_input \<Rightarrow> orders_filter) \<Rightarrow> orders_search_input \<Rightarrow> db \<Rightarrow> orders_summary" where
  "orderTotals to_filter inp s = summariseTotals (totalsByStatus (to_filter inp) s)"

section \<open>What a pattern with an escaped text matches\<close>

lemma like_escaped:
  "like (escapeLike t @ [37]) s \<longleftrightarrow> take (length t) s = t"
proof (induction t arbitrary: s)
  case Nil
  have "list_ex (\<lambda>k. drop k s = []) [0..<Suc (length s)]" unfolding list_ex_iff by (rule bexI [of _ "length s"]) simp_all
  then show ?case by (simp add: escapeLike_def)
next
  case (Cons c t)
  have e: "escapeLike (c # t) = (if c \<in> {92, 37, 95} then [92, c] else [c]) @ escapeLike t"
    by (simp add: escapeLike_def)
  show ?case unfolding e using Cons by (cases s) auto
qed

lemma includes_prefixes: "includes_text s t \<longleftrightarrow> (\<exists>k \<le> length s. take (length t) (drop k s) = t)"
proof (induction s)
  case (Cons c s)
  have "(\<exists>k \<le> length (c # s). take (length t) (drop k (c # s)) = t) \<longleftrightarrow>
      take (length t) (c # s) = t \<or> (\<exists>k \<le> length s. take (length t) (drop k s) = t)"
  proof
    assume "\<exists>k \<le> length (c # s). take (length t) (drop k (c # s)) = t"
    then obtain k where k: "k \<le> length (c # s)" "take (length t) (drop k (c # s)) = t" by blast
    then show "take (length t) (c # s) = t \<or> (\<exists>k \<le> length s. take (length t) (drop k s) = t)"
      by (cases k) auto
  next
    assume "take (length t) (c # s) = t \<or> (\<exists>k \<le> length s. take (length t) (drop k s) = t)"
    then show "\<exists>k \<le> length (c # s). take (length t) (drop k (c # s)) = t"
    proof
      assume "take (length t) (c # s) = t"
      then show ?thesis by (intro exI [of _ 0]) simp
    next
      assume "\<exists>k \<le> length s. take (length t) (drop k s) = t"
      then obtain k where "k \<le> length s" "take (length t) (drop k s) = t" by blast
      then show ?thesis by (intro exI [of _ "Suc k"]) simp
    qed
  qed
  then show ?case using Cons by simp
qed auto

text \<open>\<open>ILIKE '%' || escaped || '%'\<close> finds exactly the emails that contain the text, in any case.\<close>

lemma ilike_contains: "ilike s ([37] @ escapeLike t @ [37]) \<longleftrightarrow> includes_text (pg_lower s) (pg_lower t)"
proof -
  have "pg_lower (escapeLike t) = escapeLike (pg_lower t)"
    by (induction t) (auto simp: escapeLike_def pg_lower_def is_upper_def)
  then have "pg_lower ([37] @ escapeLike t @ [37]) = 37 # escapeLike (pg_lower t) @ [37]"
    by (simp add: pg_lower_def is_upper_def)
  moreover have "list_ex P [0..<Suc n] \<longleftrightarrow> (\<exists>k \<le> n. P k)" for P n
    unfolding list_ex_iff set_upt by (auto simp: less_Suc_eq_le)
  ultimately show ?thesis
    unfolding ilike_def includes_prefixes by (simp add: like_escaped del: upt_Suc)
qed

section \<open>Pages\<close>

lemma concat_pages: "concat (map (\<lambda>k. take n (drop (k * n) xs)) [0..<m]) = take (m * n) xs"
  by (induction m) (simp_all add: take_add [symmetric] add.commute)

lemma map_filter_all: "(\<And>x. x \<in> set xs \<Longrightarrow> f x \<noteq> None) \<Longrightarrow> List.map_filter f xs = map (the \<circ> f) xs"
  by (induction xs) (fastforce simp: List.map_filter_simps)+

lemma join_order_Some:
  assumes "db_ok s" "r \<in> set (orders s)"
  shows "\<exists>q. join_order s r = Some q \<and> qr_order q = r"
proof -
  note ok = orders_ok(5,6) [OF db_ok_orders [OF assms(1)] assms(2)]
  obtain e t where "row_by e_id (o_eventId r) (events s) = Some e"
    "row_by tt_id (o_ticketTypeId r) (ticketTypes s) = Some t"
    using ok row_by_None [of e_id "o_eventId r" "events s"] row_by_None [of tt_id "o_ticketTypeId r" "ticketTypes s"]
    by blast
  then show ?thesis by (simp add: join_order_def)
qed

lemma joined_rows:
  assumes "db_ok s"
  shows "map qr_order (List.map_filter (join_order s) (filter P (orders s))) = filter P (orders s)"
proof -
  have j: "join_order s r \<noteq> None \<and> qr_order (the (join_order s r)) = r" if "r \<in> set (filter P (orders s))" for r
    using join_order_Some [OF assms, of r] that by auto
  then have "List.map_filter (join_order s) (filter P (orders s)) = map (the \<circ> join_order s) (filter P (orders s))"
    by (intro map_filter_all) blast
  then have "map qr_order (List.map_filter (join_order s) (filter P (orders s))) =
      map (\<lambda>r. qr_order (the (join_order s r))) (filter P (orders s))"
    by simp
  also have "\<dots> = filter P (orders s)" using j by (intro map_idI) blast
  finally show ?thesis .
qed

definition found_orders :: "(jstr \<Rightarrow> nat) \<Rightarrow> orders_filter \<Rightarrow> orders_sort \<Rightarrow> db \<Rightarrow> queue_row list" where
  "found_orders rank f so s =
    sortOrder rank so (List.map_filter (join_order s) (filter (searchWhere f) (orders s)))"

lemma found_orders_all:
  assumes "db_ok s"
  shows "mset (map qr_order (found_orders rank f so s)) = mset (filter (searchWhere f) (orders s))"
    "distinct (map (\<lambda>q. o_id (qr_order q)) (found_orders rank f so s))"
    "length (found_orders rank f so s) = length (filter (searchWhere f) (orders s))"
proof -
  show m: "mset (map qr_order (found_orders rank f so s)) = mset (filter (searchWhere f) (orders s))"
  proof -
    have "mset (found_orders rank f so s) = mset (List.map_filter (join_order s) (filter (searchWhere f) (orders s)))"
      by (simp add: found_orders_def sortOrder_def)
    then have "mset (map qr_order (found_orders rank f so s)) =
        mset (map qr_order (List.map_filter (join_order s) (filter (searchWhere f) (orders s))))"
      by (metis mset_map)
    then show ?thesis unfolding joined_rows [OF assms] .
  qed
  have ids: "mset (map o_id (map qr_order (found_orders rank f so s))) = mset (map o_id (filter (searchWhere f) (orders s)))"
    by (metis m mset_map)
  have "distinct (map o_id (filter (searchWhere f) (orders s)))"
    by (rule distinct_map_filter) (rule orders_ok(1) [OF db_ok_orders [OF assms]])
  then have "distinct (map o_id (map qr_order (found_orders rank f so s)))"
    using mset_eq_imp_distinct_iff [OF ids] by blast
  then show "distinct (map (\<lambda>q. o_id (qr_order q)) (found_orders rank f so s))" by (simp add: comp_def)
  show "length (found_orders rank f so s) = length (filter (searchWhere f) (orders s))"
    using mset_eq_length [OF m] by simp
qed

lemma orders_search_page:
  "orders_search rank f limit offset so s =
    \<lparr>op_rows = take limit (drop offset (found_orders rank f so s)),
     op_total = length (filter (searchWhere f) (orders s))\<rparr>"
  by (simp add: orders_search_def found_orders_def)

lemma enough_pages:
  fixes n k :: nat
  assumes "0 < k"
  shows "n \<le> max 1 ((n + k - 1) div k) * k" "0 < n \<Longrightarrow> (max 1 ((n + k - 1) div k) - 1) * k < n"
proof -
  have d: "n + k - 1 < (n + k - 1) div k * k + k"
    using div_mult_mod_eq [of "n + k - 1" k] mod_less_divisor [OF assms, of "n + k - 1"] by linarith
  have e: "(n + k - 1) div k * k \<le> n + k - 1" by simp
  show "n \<le> max 1 ((n + k - 1) div k) * k"
  proof (cases "(n + k - 1) div k = 0")
    case True
    then show ?thesis using d assms by simp
  next
    case False
    then show ?thesis using d assms by (simp add: max_def not_le Suc_le_eq)
  qed
  assume n: "0 < n"
  then have "k \<le> n + k - 1" by simp
  then have "1 \<le> (n + k - 1) div k" using div_le_mono [of k "n + k - 1" k] assms by simp
  then have "(max 1 ((n + k - 1) div k) - 1) * k = (n + k - 1) div k * k - k"
    by (simp add: max_def diff_mult_distrib)
  then show "(max 1 ((n + k - 1) div k) - 1) * k < n" using e n assms by linarith
qed

end
