(* ===== verification/Reports.thy ===== *)
theory Reports
  imports SalesReport OrderSearch Catalogue
begin

text \<open>
  The sales report and the dashboard: the aggregate queries of
  \<open>src/src/server/repositories/reports.repository.ts\<close> and the services
  \<open>src/src/server/services/reports.service.ts\<close> and \<open>dashboard.service.ts\<close>, which only read.
  \<open>dhaka\<close> is the Dhaka calendar day of an instant (the same in the queries and in the code),
  \<open>clock\<close> its weekday and hour, \<open>median\<close> what \<open>percentile_cont(0.5)\<close> returns for a list of
  milliseconds. Sums of money stay whole numbers; the program reads them back as numbers that
  are exact up to \<open>MAX_SAFE_INTEGER\<close>.
\<close>

section \<open>reports.repository.ts\<close>

definition buyerOrder :: "order_row \<Rightarrow> bool" where
  "buyerOrder r \<longleftrightarrow> o_complimentaryReason r = None"

definition revenue :: "order_row \<Rightarrow> bool" where
  "revenue r \<longleftrightarrow> o_status r \<in> set REVENUE_STATUSES"

record ticket_type_sales =
  ts_ticketTypeId :: uuid
  ts_name :: jstr
  ts_pricePaisa :: int
  ts_quantityTotal :: int
  ts_quantitySold :: int
  ts_quantityReserved :: int
  ts_orderCount :: int
  ts_revenuePaisa :: int
  ts_discountPaisa :: int

definition salesByTicketType :: "uuid \<Rightarrow> db \<Rightarrow> ticket_type_sales list" where
  "salesByTicketType eventId s =
    map (\<lambda>t. let rs = filter (\<lambda>r. o_ticketTypeId r = tt_id t \<and> revenue r \<and> buyerOrder r) (orders s)
       in \<lparr>ts_ticketTypeId = tt_id t, ts_name = tt_name t, ts_pricePaisa = tt_pricePaisa t,
            ts_quantityTotal = tt_quantityTotal t, ts_quantitySold = tt_quantitySold t,
            ts_quantityReserved = tt_quantityReserved t, ts_orderCount = int (length rs),
            ts_revenuePaisa = sum_list (map o_totalPaisa rs),
            ts_discountPaisa = sum_list (map o_discountPaisa rs)\<rparr>)
      (sort_key tt_createdAt (sort_key tt_id (filter (\<lambda>t. tt_eventId t = eventId) (ticketTypes s))))"

text \<open>\<open>orders INNER JOIN order_events\<close> on the rows of one action.\<close>

definition with_action :: "string \<Rightarrow> db \<Rightarrow> order_row list \<Rightarrow> (order_row \<times> order_event_row) list" where
  "with_action act s rs =
    concat (map (\<lambda>r. map (\<lambda>e. (r, e))
      (filter (\<lambda>e. oe_orderId e = o_id r \<and> oe_action e = lit act) (orderEvents s))) rs)"

text \<open>Dates sort as their texts.\<close>

fun insert_day :: "daily_sales_row \<Rightarrow> daily_sales_row list \<Rightarrow> daily_sales_row list" where
  "insert_day r [] = [r]"
| "insert_day r (x # xs) = (if str_less (dy_day x) (dy_day r) then x # insert_day r xs else r # x # xs)"

definition dailySales :: "(instant \<Rightarrow> jstr) \<Rightarrow> uuid \<Rightarrow> db \<Rightarrow> daily_sales_row list" where
  "dailySales dhaka eventId s =
    foldr insert_day
      (map (\<lambda>(day, ps). \<lparr>dy_day = day, dy_orders = int (length ps),
          dy_tickets = sum_list (map (\<lambda>(r, e). o_quantity r) ps),
          dy_paisa = sum_list (map (\<lambda>(r, e). o_totalPaisa r) ps)\<rparr>)
        (group_by (\<lambda>(r, e). dhaka (oe_createdAt e))
          (with_action ''payment.approved'' s
            (filter (\<lambda>r. o_eventId r = eventId \<and> revenue r) (orders s))))) []"

record timings =
  tm_toPayMedian :: "double option"
  tm_toPayN :: int
  tm_toVerifyMedian :: "double option"
  tm_toVerifyN :: int

text \<open>The time between two actions of an order, over every pair of their rows.\<close>

definition between :: "string \<Rightarrow> string \<Rightarrow> uuid \<Rightarrow> db \<Rightarrow> int list" where
  "between earlier later eventId s =
    concat (map (\<lambda>(r, a). map (\<lambda>(q, b). oe_createdAt b - oe_createdAt a) (with_action later s [r]))
      (with_action earlier s (filter (\<lambda>r. o_eventId r = eventId) (orders s))))"

definition timings_of :: "(int list \<Rightarrow> double option) \<Rightarrow> uuid \<Rightarrow> db \<Rightarrow> timings" where
  "timings_of median eventId s =
    (let pay = between ''order.created'' ''payment.submitted'' eventId s;
         verify = between ''payment.submitted'' ''payment.approved'' eventId s
     in \<lparr>tm_toPayMedian = median pay, tm_toPayN = int (length pay),
          tm_toVerifyMedian = median verify, tm_toVerifyN = int (length verify)\<rparr>)"

definition ordersByWeekdayHour :: "(instant \<Rightarrow> int \<times> int) \<Rightarrow> uuid \<Rightarrow> db \<Rightarrow> weekday_hour_row list" where
  "ordersByWeekdayHour clock eventId s =
    map (\<lambda>((dow, hour), rs). \<lparr>wh_dow = dow, wh_hour = hour, wh_n = int (length rs)\<rparr>)
      (group_by (\<lambda>r. clock (o_createdAt r)) (filter (\<lambda>r. o_eventId r = eventId \<and> buyerOrder r) (orders s)))"

definition orderSizes :: "uuid \<Rightarrow> db \<Rightarrow> order_size_row list" where
  "orderSizes eventId s =
    map (\<lambda>(q, rs). \<lparr>os_quantity = q, os_n = int (length rs)\<rparr>)
      (group_by o_quantity (filter (\<lambda>r. o_eventId r = eventId \<and> revenue r \<and> buyerOrder r) (orders s)))"

definition countCancelledTickets :: "uuid \<Rightarrow> db \<Rightarrow> int" where
  "countCancelledTickets eventId s =
    int (length (filter (\<lambda>t. t_eventId t = eventId \<and> t_status t = TicketCancelled) (tickets s)))"

definition complimentary :: "uuid \<Rightarrow> db \<Rightarrow> (uuid \<times> int) list" where
  "complimentary eventId s =
    map (\<lambda>(tt, ts). (tt, int (length ts)))
      (group_by t_ticketTypeId (filter (\<lambda>t. t_status t = TicketIssued \<and>
        (case row_by o_id (t_orderId t) (orders s) of
           Some r \<Rightarrow> o_eventId r = eventId \<and> \<not> buyerOrder r
         | None \<Rightarrow> False)) (tickets s)))"

record day_totals =
  dt_ordersPlaced :: int
  dt_approvedOrders :: int
  dt_approvedPaisa :: int

definition dayTotals :: "instant \<Rightarrow> instant \<Rightarrow> db \<Rightarrow> day_totals" where
  "dayTotals from_at to_at s =
    (let approved = filter (\<lambda>(r, e). from_at \<le> oe_createdAt e \<and> oe_createdAt e < to_at)
           (with_action ''payment.approved'' s (filter revenue (orders s)))
     in \<lparr>dt_ordersPlaced = int (length (filter (\<lambda>r. buyerOrder r \<and> from_at \<le> o_createdAt r \<and>
            o_createdAt r < to_at) (orders s))),
          dt_approvedOrders = int (length approved),
          dt_approvedPaisa = sum_list (map (\<lambda>(r, e). o_totalPaisa r) approved)\<rparr>)"

definition holdsExpiring :: "instant \<Rightarrow> instant \<Rightarrow> db \<Rightarrow> int" where
  "holdsExpiring from_at until s =
    int (length (filter (\<lambda>r. o_status r = PendingPayment \<and>
      (case o_holdExpiresAt r of Some h \<Rightarrow> from_at < h \<and> h \<le> until | None \<Rightarrow> False)) (orders s)))"

record event_status_total =
  et_eventId :: uuid
  et_status :: order_status
  et_count :: int
  et_totalPaisa :: int

definition totalsByEventAndStatus :: "db \<Rightarrow> event_status_total list" where
  "totalsByEventAndStatus s =
    map (\<lambda>((e, st), rs). \<lparr>et_eventId = e, et_status = st, et_count = int (length rs),
        et_totalPaisa = sum_list (map o_totalPaisa rs)\<rparr>)
      (group_by (\<lambda>r. (o_eventId r, o_status r)) (filter buyerOrder (orders s)))"

section \<open>reports.service.ts\<close>

definition withoutComps :: "status_total list \<Rightarrow> status_total list" where
  "withoutComps rows =
    filter (\<lambda>r. st_count r > 0)
      (map (\<lambda>r. r\<lparr>st_count := st_count r - st_compCount r, st_compCount := 0\<rparr>) rows)"

record ticket_type_report = ticket_type_sales +
  ts_compTickets :: int

definition with_comps :: "(uuid \<times> int) list \<Rightarrow> ticket_type_sales \<Rightarrow> ticket_type_report" where
  "with_comps comps t =
    ticket_type_sales.extend t
      \<lparr>ts_compTickets = (case map_of (rev comps) (ts_ticketTypeId t) of Some n \<Rightarrow> n | None \<Rightarrow> 0)\<rparr>"

record report_seats =
  rs_sold :: int
  rs_total :: int
  rs_held :: int
  rs_left :: int
  rs_soldPct :: int

record sales_report =
  rp_event :: event_row
  rp_window :: report_window
  rp_generatedAt :: instant
  rp_seats :: report_seats
  rp_revenuePaisa :: int
  rp_revenueOrders :: int
  rp_discountPaisa :: int
  rp_avgTicketPaisa :: int
  rp_pendingOrders :: int
  rp_toVerify :: int
  rp_pendingPaisa :: int
  rp_cancelledTickets :: int
  rp_current :: period_totals
  rp_prior :: "period_totals option"
  rp_ticketsDelta :: "delta option"
  rp_paisaDelta :: "delta option"
  rp_pace7 :: double
  rp_daily :: daily_series
  rp_cumulative :: cumulative_series
  rp_funnel :: funnel
  rp_timings :: timings
  rp_orderSize :: order_size_stats
  rp_whenPeopleRegister :: histograms
  rp_byTicketType :: "ticket_type_report list"
  rp_compTickets :: int
  rp_compOrders :: int
  rp_noSalesYet :: bool

text \<open>\<open>[a, b].filter(not null).sort()[0]\<close> and \<open>[a, b].sort().at(-1)\<close>.\<close>

definition earlier_text :: "jstr option \<Rightarrow> jstr option \<Rightarrow> jstr option" where
  "earlier_text a b =
    (case (a, b) of
       (Some x, Some y) \<Rightarrow> Some (if str_less y x then y else x)
     | (Some x, None) \<Rightarrow> Some x
     | (None, y) \<Rightarrow> y)"

definition later_text :: "jstr \<Rightarrow> jstr \<Rightarrow> jstr" where
  "later_text a b = (if str_less b a then a else b)"

definition report_window_of ::
  "(instant \<Rightarrow> jstr) \<Rightarrow> event_row \<Rightarrow> daily_sales_row list \<Rightarrow> report_range option \<Rightarrow> instant
    \<Rightarrow> report_window result" where
  "report_window_of dhaka event rows rg now =
    (let today = dhaka now;
         earliest = earlier_text (map_option dhaka (e_registrationOpensAt event))
           (map_option dy_day (first_row rows));
         finished = e_startsAt event < now;
         eventDay = dhaka (e_startsAt event);
         to_day = (if finished
           then later_text eventDay (if rows = [] then eventDay else dy_day (last rows))
           else today)
     in rangeWindow (case rg of Some r \<Rightarrow> r | None \<Rightarrow> if finished then AllTime else Last14)
          (if str_less to_day today then to_day else today) earliest today)"

definition prior_period :: "daily_sales_row list \<Rightarrow> report_window \<Rightarrow> period_totals option result" where
  "prior_period rows w =
    (if rw_range w = AllTime then Inr None
     else case rw_days w of
         None \<Rightarrow> Inl RangeError
       | Some n \<Rightarrow> bindE (shiftDay (rw_from w) (- n)) (\<lambda>a.
           bindE (shiftDay (rw_from w) (- 1)) (\<lambda>b. Inr (Some (periodTotals rows a b)))))"

definition report_seats_of :: "ticket_type_report list \<Rightarrow> report_seats" where
  "report_seats_of ts =
    (let sold = sum_list (map ts_quantitySold ts); total = sum_list (map ts_quantityTotal ts);
         held = sum_list (map ts_quantityReserved ts)
     in \<lparr>rs_sold = sold, rs_total = total, rs_held = held, rs_left = max 0 (total - sold - held),
          rs_soldPct = percent sold total\<rparr>)"

definition no_filter :: orders_filter where
  "no_filter = \<lparr>of_term = None, of_status = None, of_eventId = None, of_createdFrom = None,
    of_createdBefore = None\<rparr>"

text \<open>
  \<open>salesReport\<close>: every query reads the same store \<open>s\<close>. The outer \<open>None\<close> is a window that does
  not end within the fuel.
\<close>

definition salesReport ::
  "(instant \<Rightarrow> jstr) \<Rightarrow> (jstr \<Rightarrow> jstr) \<Rightarrow> (instant \<Rightarrow> int \<times> int) \<Rightarrow> (int list \<Rightarrow> double option) \<Rightarrow> nat \<Rightarrow> instant
    \<Rightarrow> uuid \<Rightarrow> report_range option \<Rightarrow> db \<Rightarrow> sales_report result option" where
  "salesReport dhaka label clock median fuel now eventId rg s =
    (case event_findById eventId s of
       None \<Rightarrow> Some (Inl (EventNotFoundError eventId))
     | Some event \<Rightarrow>
       (let rows = dailySales dhaka eventId s;
            allByStatus = totalsByStatus (no_filter\<lparr>of_eventId := Some eventId\<rparr>) s;
            byTicketType = map (with_comps (complimentary eventId s)) (salesByTicketType eventId s);
            f = funnel_of (withoutComps allByStatus);
            sizes = orderSizeStats (orderSizes eventId s);
            today = dhaka now
        in case report_window_of dhaka event rows rg now of
             Inl e \<Rightarrow> Some (Inl e)
           | Inr w \<Rightarrow>
             (case (dailySeries label fuel rows w, cumulativeSeries label fuel rows w) of
                (Some daily_r, Some cumulative_r) \<Rightarrow>
                  Some (bindE (prior_period rows w) (\<lambda>prior.
                    bindE (shiftDay today (- 6)) (\<lambda>week.
                    bindE (averagePaisa (pm_paisa (fu_verifiedMoney f)) (oz_tickets sizes)) (\<lambda>avg.
                    bindE daily_r (\<lambda>daily. bindE cumulative_r (\<lambda>cumulative.
                      let current = periodTotals rows (rw_from w) (rw_to w) in
                      Inr \<lparr>rp_event = event, rp_window = w, rp_generatedAt = now,
                        rp_seats = report_seats_of byTicketType,
                        rp_revenuePaisa = pm_paisa (fu_verifiedMoney f),
                        rp_revenueOrders = pm_count (fu_verifiedMoney f),
                        rp_discountPaisa = sum_list (map ts_discountPaisa byTicketType),
                        rp_avgTicketPaisa = avg,
                        rp_pendingOrders = pm_count (fu_pendingPayment f) + pm_count (fu_pendingVerification f),
                        rp_toVerify = pm_count (fu_pendingVerification f),
                        rp_pendingPaisa = pm_paisa (fu_pendingPayment f) + pm_paisa (fu_pendingVerification f),
                        rp_cancelledTickets = countCancelledTickets eventId s,
                        rp_current = current, rp_prior = prior,
                        rp_ticketsDelta = map_option (\<lambda>p. delta_of (pe_tickets current) (pe_tickets p)) prior,
                        rp_paisaDelta = map_option (\<lambda>p. delta_of (pe_paisa current) (pe_paisa p)) prior,
                        rp_pace7 = to_double (math_round (double_times
                          (to_double (pe_tickets (periodTotals rows week today)) 7) 10)) 10,
                        rp_daily = daily, rp_cumulative = cumulative, rp_funnel = f,
                        rp_timings = timings_of median eventId s, rp_orderSize = sizes,
                        rp_whenPeopleRegister = histograms_of (ordersByWeekdayHour clock eventId s),
                        rp_byTicketType = byTicketType,
                        rp_compTickets = sum_list (map ts_compTickets byTicketType),
                        rp_compOrders = sum_list (map st_compCount allByStatus),
                        rp_noSalesYet = (pm_count (fu_verifiedMoney f) = 0 \<and> rows = [])\<rparr>))))))
              | _ \<Rightarrow> None)))"

record event_overview_row =
  ew_event :: event_row
  ew_total :: int
  ew_sold :: int
  ew_held :: int
  ew_revenuePaisa :: int
  ew_revenueOrders :: int
  ew_pendingPaisa :: int
  ew_pendingOrders :: int

definition overview_row :: "(uuid \<times> event_capacity) list \<Rightarrow> event_row \<Rightarrow> event_overview_row" where
  "overview_row caps e =
    (let c = map_of (rev caps) (e_id e)
     in \<lparr>ew_event = e,
          ew_total = (case c of Some x \<Rightarrow> ec_total x | None \<Rightarrow> 0),
          ew_sold = (case c of Some x \<Rightarrow> ec_sold x | None \<Rightarrow> 0),
          ew_held = (case c of Some x \<Rightarrow> ec_held x | None \<Rightarrow> 0),
          ew_revenuePaisa = 0, ew_revenueOrders = 0, ew_pendingPaisa = 0, ew_pendingOrders = 0\<rparr>)"

definition add_total :: "event_overview_row \<Rightarrow> event_status_total \<Rightarrow> event_overview_row" where
  "add_total row t =
    (if et_eventId t \<noteq> e_id (ew_event row) then row
     else if et_status t \<in> set REVENUE_STATUSES
     then row\<lparr>ew_revenuePaisa := ew_revenuePaisa row + et_totalPaisa t,
            ew_revenueOrders := ew_revenueOrders row + et_count t\<rparr>
     else if holdsInventory (et_status t)
     then row\<lparr>ew_pendingPaisa := ew_pendingPaisa row + et_totalPaisa t,
            ew_pendingOrders := ew_pendingOrders row + et_count t\<rparr>
     else row)"

definition overview :: "db \<Rightarrow> event_overview_row list" where
  "overview s =
    (let all = events_list s in
     if all = [] then []
     else foldl (\<lambda>rows t. map (\<lambda>row. add_total row t) rows)
       (map (overview_row (capacityByEvent (map e_id all) s)) all) (totalsByEventAndStatus s))"

section \<open>dashboard.service.ts\<close>

definition RECENT_ORDERS :: nat where "RECENT_ORDERS = 5"

record dashboard =
  da_pendingVerification :: nat
  da_today :: day_totals
  da_yesterday :: day_totals
  da_holdsExpiringSoon :: int
  da_revenueByEvent :: "uuid \<rightharpoonup> int"
  da_recentOrders :: "queue_row list"

definition revenue_by_event :: "event_status_total list \<Rightarrow> uuid \<rightharpoonup> int" where
  "revenue_by_event rows = foldl (\<lambda>m t.
     if et_status t \<notin> set REVENUE_STATUSES then m
     else m(et_eventId t \<mapsto> (case m (et_eventId t) of Some n \<Rightarrow> n | None \<Rightarrow> 0) + et_totalPaisa t))
     Map.empty rows"

text \<open>\<open>day_start\<close> is \<open>dhakaDayStart\<close>: when the Dhaka day so many days from the moment's starts.\<close>

definition dashboard_summary ::
  "(instant \<Rightarrow> int \<Rightarrow> instant) \<Rightarrow> (jstr \<Rightarrow> nat) \<Rightarrow> instant \<Rightarrow> db \<Rightarrow> dashboard" where
  "dashboard_summary day_start rank at s =
    \<lparr>da_pendingVerification = countByStatus PendingVerification s,
     da_today = dayTotals (day_start at 0) (day_start at 1) s,
     da_yesterday = dayTotals (day_start at (- 1)) (day_start at 0) s,
     da_holdsExpiringSoon = holdsExpiring (lapsedBefore at) (holdEndsAt at) s,
     da_revenueByEvent = revenue_by_event (totalsByEventAndStatus s),
     da_recentOrders = op_rows (orders_search rank no_filter RECENT_ORDERS 0
       \<lparr>os_column = ByCreated, os_desc = True\<rparr> s)\<rparr>"

definition vsYesterday :: "int \<Rightarrow> int \<Rightarrow> jstr" where
  "vsYesterday today yesterday =
    (if today = 0 then lit ''Quiet so far''
     else let d = today - yesterday
       in if d = 0 then lit ''same as yesterday''
          else (if d > 0 then lit ''+'' else [8722]) @ decimal (nat \<bar>d\<bar>) @ lit '' vs yesterday'')"

definition quietDay :: "dashboard \<Rightarrow> bool" where
  "quietDay d \<longleftrightarrow> da_pendingVerification d = 0 \<and> da_holdsExpiringSoon d = 0 \<and> dt_ordersPlaced (da_today d) = 0"

end
