(* ===== verification/SalesBooks.thy ===== *)
theory SalesBooks
  imports SystemBooks Reports
begin

text \<open>
  The book of sales: every order of a buyer that was paid for has exactly one approval row in
  its trail, whose time is the day of the sale, and no other order has any. It holds along every
  run, because only approving writes such a row.
\<close>

definition approvals :: "db \<Rightarrow> uuid \<Rightarrow> nat" where
  "approvals s i =
    length (filter (\<lambda>e. oe_orderId e = i \<and> oe_action e = lit ''payment.approved'') (orderEvents s))"

definition paid_for :: "order_row \<Rightarrow> bool" where
  "paid_for r \<longleftrightarrow> buyerOrder r \<and> o_status r \<in> {Paid, Issued, Cancelled}"

definition dated :: "db \<Rightarrow> bool" where
  "dated s \<longleftrightarrow> db_ok s \<and> (\<forall>r \<in> set (orders s). approvals s (o_id r) = (if paid_for r then 1 else 0))"

lemma datedD: "dated s \<Longrightarrow> db_ok s"
  by (simp add: dated_def)

section \<open>What moves it\<close>

lemma approvals_append:
  "orderEvents s' = orderEvents s @ evs \<Longrightarrow> approvals s' i = approvals s i +
    length (filter (\<lambda>e. oe_orderId e = i \<and> oe_action e = lit ''payment.approved'') evs)"
  by (simp add: approvals_def)

lemma dated_same:
  assumes "dated s" "db_ok s'" "orders s' = orders s" "orderEvents s' = orderEvents s @ evs"
    and "\<forall>e \<in> set evs. oe_action e \<noteq> lit ''payment.approved''"
  shows "dated s'"
proof -
  have "filter (\<lambda>e. oe_orderId e = i \<and> oe_action e = lit ''payment.approved'') evs = []" for i
    using assms(5) by (auto simp: filter_empty_conv)
  then have "approvals s' i = approvals s i" for i using approvals_append [OF assms(4), of i] by simp
  then show ?thesis using assms(1-3) by (simp add: dated_def)
qed

lemma dated_move:
  assumes "dated s" "db_ok s'" "order_findById i s = Some r"
    and "orders s' = update_rows (\<lambda>r. o_id r = i) f (orders s)" "o_id (f r) = i"
    and "orderEvents s' = orderEvents s @ evs" "\<forall>e \<in> set evs. oe_orderId e = i"
    and "length (filter (\<lambda>e. oe_action e = lit ''payment.approved'') evs) + (if paid_for r then 1 else 0) =
      (if paid_for (f r) then 1 else 0)"
  shows "dated s'"
  unfolding dated_def
proof (intro conjI ballI)
  note ok = datedD [OF assms(1)]
  fix q assume "q \<in> set (orders s')"
  then have q: "q = f r \<or> (q \<in> set (orders s) \<and> o_id q \<noteq> i)" using set_order_mem [OF ok assms(3)] assms(4) by simp
  have r: "r \<in> set (orders s)" "o_id r = i" using assms(3) order_findById_set [OF ok] by simp_all
  have evs: "filter (\<lambda>e. oe_orderId e = j \<and> oe_action e = lit ''payment.approved'') evs =
      (if j = i then filter (\<lambda>e. oe_action e = lit ''payment.approved'') evs else [])" for j
    using assms(7) by (auto simp: filter_empty_conv intro!: filter_cong)
  show "approvals s' (o_id q) = (if paid_for q then 1 else 0)"
    using q r assms(1,5,8) unfolding approvals_append [OF assms(6)] evs dated_def by auto
qed (rule assms(2))

lemma dated_insert:
  assumes "dated s" "db_ok s'" "o_id row \<notin> o_id ` set (orders s)" "orders s' = orders s @ [row]"
    and "orderEvents s' = orderEvents s @ [e]" "oe_orderId e = o_id row"
    and "oe_action e \<noteq> lit ''payment.approved''" "\<not> paid_for row"
  shows "dated s'"
  unfolding dated_def
proof (intro conjI ballI)
  fix q assume q: "q \<in> set (orders s')"
  have "oe_orderId x \<in> o_id ` set (orders s)" if "x \<in> set (orderEvents s)" for x
    using datedD [OF assms(1)] that by (auto simp: db_ok_def order_events_violation_def violation_None)
  then have "approvals s (o_id row) = 0"
    using assms(3) unfolding approvals_def length_0_conv filter_empty_conv by metis
  then show "approvals s' (o_id q) = (if paid_for q then 1 else 0)"
    using q assms(1,4,7,8) unfolding approvals_append [OF assms(5)] dated_def by auto
qed (rule assms(2))

section \<open>The services\<close>

lemma audit_action [simp]: "oe_action (audit ts i a ac f t n) = ac"
  by (simp add: audit_def)

lemma moved_buyer [simp]: "buyerOrder (transition_row ts st p r) = buyerOrder r" "o_id (transition_row ts st p r) = o_id r"
  by (simp_all add: buyerOrder_def transition_row_def apply_patch_def)

lemma moved_status [simp]: "o_status (transition_row ts st p r) = st"
  by (simp add: transition_row_def)

lemma createOrder_tx_dated: "keeps dated (createOrder_tx ts at inp pl i ref)"
proof (rule keepsI)
  fix s x s' assume s: "dated s" "createOrder_tx ts at inp pl i ref s = Inr (x, s')"
  note ok = datedD [OF s(1)]
  note eff = createOrder_tx_effect [OF ok s(2)]
  obtain nt where e: "orders s' = orders s @ [x]" "orderEvents s' = orderEvents s @
      [audit ts i (lit ''buyer'') (lit ''order.created'') None (Some PendingPayment) nt]"
    using eff(3) by blast
  show "dated s'"
    by (rule dated_insert [OF s(1) keepsD [OF createOrder_tx_keeps s(2) ok] eff(4) e])
      (simp_all add: eff(1) new_order_row_def paid_for_def)
qed

lemma submitPayment_dated: "keeps dated (submitPayment ts now i x m)"
proof (rule keepsI)
  fix s u s' assume s: "dated s" "submitPayment ts now i x m s = Inr (u, s')"
  note ok = datedD [OF s(1)]
  let ?f = "transition_row ts PendingVerification (submit_patch x m)"
  from submitPayment_effect [OF ok s(2)] obtain r a nt where
    r: "order_findById i s = Some r" "o_status r \<in> {PendingPayment, PendingVerification}"
    and a: "a \<noteq> lit ''payment.approved''"
    and s': "s' = (set_order i ?f s)\<lparr>orderEvents := orderEvents s @
        [audit ts i (lit ''buyer'') a (Some (o_status r)) (Some PendingVerification) nt]\<rparr>"
    by blast
  have "o_id r = i" using r(1) order_findById_set [OF ok] by simp
  then show "dated s'"
    using r(2) a
    by (intro dated_move [OF s(1) keepsD [OF submitPayment_keeps s(2) ok] r(1), where f = ?f
          and evs = "[audit ts i (lit ''buyer'') a (Some (o_status r)) (Some PendingVerification) nt]"])
      (auto simp: s' paid_for_def simp del: lit_simps)
qed

lemma expire_one_dated: "keeps dated (expire_one ts h)"
proof (rule keepsI)
  fix s b s' assume s: "dated s" "expire_one ts h s = Inr (b, s')"
  note ok = datedD [OF s(1)]
  show "dated s'"
  proof (cases b)
    case True
    then have "expire_one ts h s = Inr (True, s')" using s(2) by simp
    from expire_one_effect [OF ok this] obtain r nt where
      r: "order_findById (lh_id h) s = Some r" "o_status r = PendingPayment"
      and eff: "orders s' = update_rows (\<lambda>q. o_id q = lh_id h) (transition_row ts Expired NO_PATCH) (orders s)"
        "orderEvents s' = orderEvents s @
          [audit ts (lh_id h) (lit ''system'') (lit ''order.expired'') (Some PendingPayment) (Some Expired) nt]"
      by blast
    have "o_id r = lh_id h" using r(1) order_findById_set [OF ok] by simp
    then show ?thesis
      by (intro dated_move [OF s(1) keepsD [OF expire_one_keeps s(2) ok] r(1) eff(1) _ eff(2)])
        (simp_all add: paid_for_def r(2))
  next
    case False
    then show ?thesis using s expire_one_False [OF ok, of ts h s'] by simp
  qed
qed

lemma rejectOrder_dated: "keeps dated (rejectOrder ts i actor reason nt)"
proof (rule keepsI)
  fix s u s' assume s: "dated s" "rejectOrder ts i actor reason nt s = Inr (u, s')"
  note ok = datedD [OF s(1)]
  from rejectOrder_effect [OF ok s(2)] obtain r n patch where
    r: "order_findById i s = Some r" "o_status r = PendingVerification"
    and eff: "orders s' = update_rows (\<lambda>q. o_id q = i) (transition_row ts Rejected patch) (orders s)"
      "orderEvents s' = orderEvents s @
        [audit ts i actor (lit ''payment.rejected'') (Some PendingVerification) (Some Rejected) n]"
    by blast
  have "o_id r = i" using r(1) order_findById_set [OF ok] by simp
  then show "dated s'"
    by (intro dated_move [OF s(1) keepsD [OF rejectOrder_keeps s(2) ok] r(1) eff(1) _ eff(2)])
      (simp_all add: paid_for_def r(2))
qed

text \<open>Only a buyer's order waits for verification.\<close>

lemma waiting_is_buyer:
  assumes "db_ok s" "order_findById i s = Some r" "o_status r \<notin> {Issued, Cancelled}"
  shows "buyerOrder r"
  using orders_ok(8) [OF db_ok_orders [OF assms(1)], of r] assms order_findById_set [OF assms(1), of i r]
  by (cases "o_complimentaryReason r") (auto simp: buyerOrder_def)

lemma approve_tx_dated: "keeps dated (approve_tx ts d i actor v)"
proof (rule keepsI)
  fix s u s' assume s: "dated s" "approve_tx ts d i actor v s = Inr (u, s')"
  note ok = datedD [OF s(1)]
  let ?f = "\<lambda>q. transition_row ts Issued NO_PATCH (transition_row ts Paid NO_PATCH q)"
  from approve_tx_effect [OF ok s(2)] obtain r n1 n2 where
    r: "order_findById i s = Some r" "o_status r = PendingVerification"
    and eff: "orders s' = update_rows (\<lambda>q. o_id q = i) ?f (orders s)"
      "orderEvents s' = orderEvents s @
      [audit ts i actor (lit ''payment.approved'') (Some PendingVerification) (Some Paid) n1,
       audit ts i actor (lit ''tickets.issued'') (Some Paid) (Some Issued) n2]"
    by blast
  have "o_id r = i" using r(1) order_findById_set [OF ok] by simp
  moreover have "buyerOrder r" by (rule waiting_is_buyer [OF ok r(1)]) (simp add: r(2))
  ultimately show "dated s'"
    by (intro dated_move [OF s(1) keepsD [OF approve_tx_keeps s(2) ok] r(1) eff(1) _ eff(2)])
      (simp_all add: paid_for_def r(2))
qed

lemma comp_tx_dated: "keeps dated (comp_tx ts inp tt totals d)"
proof (rule keepsI)
  fix s u s' assume s: "dated s" "comp_tx ts inp tt totals d s = Inr (u, s')"
  note ok = datedD [OF s(1)]
  from comp_tx_effect [OF ok s(2)] obtain row nt where
    row: "row = comp_order_row ts inp tt totals d" "o_id row \<notin> o_id ` set (orders s)"
    and eff: "orders s' = orders s @ [row]" "orderEvents s' = orderEvents s @
      [audit ts (o_id row) (co_actor inp) (lit ''order.comp_issued'') None (Some Issued) nt]"
    by blast
  show "dated s'"
    by (rule dated_insert [OF s(1) keepsD [OF comp_tx_keeps s(2) ok] row(2) eff])
      (simp_all add: row(1) comp_order_row_def paid_for_def buyerOrder_def)
qed

lemma cancelTicket_dated: "keeps dated (cancelTicket ts tk i actor reason)"
proof (rule keepsI)
  fix s res s' assume s: "dated s" "cancelTicket ts tk i actor reason s = Inr (res, s')"
  note ok = datedD [OF s(1)]
  note ok' = keepsD [OF cancelTicket_keeps s(2) ok]
  from cancelTicket_effect [OF ok s(2)] obtain r n1 n2 where
    r: "order_findById i s = Some r" "o_status r = Issued"
    and ords: "orders s' = (if live_count s' i = 0
      then update_rows (\<lambda>q. o_id q = i) (transition_row ts Cancelled NO_PATCH) (orders s) else orders s)"
    and evs: "orderEvents s' = orderEvents s @ audit ts i actor (lit ''ticket.cancelled'') None None n1 #
      (if live_count s' i = 0
       then [audit ts i actor (lit ''order.cancelled'') (Some Issued) (Some Cancelled) n2] else [])"
    by blast
  have i: "o_id r = i" using r(1) order_findById_set [OF ok] by simp
  show "dated s'"
  proof (cases "live_count s' i = 0")
    case True
    then show ?thesis
      by (intro dated_move [OF s(1) ok' r(1) _ _ evs, where f = "transition_row ts Cancelled NO_PATCH"])
        (use i in \<open>simp_all add: ords paid_for_def r(2)\<close>)
  next
    case False
    then show ?thesis by (intro dated_same [OF s(1) ok' _ evs]) (simp_all add: ords)
  qed
qed

section \<open>Along every run\<close>

lemma note_dated:
  assumes "act \<noteq> lit ''payment.approved''"
  shows "keeps dated (order_insertEvent (audit ts i actor act None None n))"
proof (rule keepsI)
  fix s x s' assume s: "dated s" "order_insertEvent (audit ts i actor act None None n) s = Inr (x, s')"
  have "s' = s\<lparr>orderEvents := orderEvents s @ [audit ts i actor act None None n]\<rparr>"
    using s(2) by (auto simp: tx_simps)
  then show "dated s'"
    using assms
    by (intro dated_same [OF s(1) keepsD [OF constraints.orders(3) s(2) datedD [OF s(1)]],
          where evs = "[audit ts i actor act None None n]"]) simp_all
qed

lemma dated_quiet:
  assumes "keeps db_ok m" "\<And>w. keeps (\<lambda>s. (orders s, orderEvents s) = w) m"
  shows "keeps dated m"
proof (rule keepsI)
  fix s x s' assume s: "dated s" "m s = Inr (x, s')"
  from keepsD [OF assms(2) [of "(orders s, orderEvents s)"] s(2)]
  have "orders s' = orders s" "orderEvents s' = orderEvents s @ []" by simp_all
  from dated_same [OF s(1) keepsD [OF assms(1) s(2) datedD [OF s(1)]] this] show "dated s'" by simp
qed

lemma two_tables:
  fixes w defines "Q \<equiv> \<lambda>s. (orders s, orderEvents s) = w"
  shows "keeps Q (ticket_undoCheckIn ts i sc)" "keeps Q (updateAttendeeName ts i old new)"
    "keeps Q (ticket_checkIn ts i gate sc at)" "keeps Q (createTicketType ts i e tinp)"
    "keeps Q (ticketType_update ts i tinp)" "keeps Q (ticketType_delete i)"
    "keeps Q (insertPass pass)" "keeps Q (repo_revokePass ts i)" "keeps Q (insertScan scn)"
    "keeps Q (insertDecision dec)" "keeps Q (event_insert r)" "keeps Q (event_update i slug sp f)"
    "keeps Q (transitionStatus ts i st st')" "keeps Q (setImageKey ts i key)"
    "keeps Q (promo_setActive ts i b)" "keeps Q (promo_delete i)" "keeps Q (sponsor_insert spr)"
    "keeps Q (sponsor_update i g)" "keeps Q (sponsor_delete i)" "keeps Q (promo_insert ts i code v ids)"
    "keeps Q (promo_update ts i v ids)" "keeps Q (demotePresenting keep ts)" "keeps Q (renumber ids)"
  unfolding keeps_def Q_def
  by (auto simp: tx_simps repo_revokePass_def catalogue_defs promo_setActive_def promo_delete_def
      ticket_checkIn_def ticket_undoCheckIn_def updateAttendeeName_def createTicketType_def
      ticketType_delete_def delete_ticket_type_def
      delete_promo_def sponsor_insert_def sponsor_update_def sponsor_delete_def insertDecision_def
      promo_insert_def promo_update_def insert_restrictions_of_def clear_restrictions_def
      demotePresenting_def renumber_def Let_def split: if_splits option.splits)

lemmas dated_quiets =
  dated_quiet [OF _ two_tables(1)] dated_quiet [OF _ two_tables(2)] dated_quiet [OF _ two_tables(3)]
  dated_quiet [OF _ two_tables(4)] dated_quiet [OF _ two_tables(5)] dated_quiet [OF _ two_tables(6)]
  dated_quiet [OF _ two_tables(7)] dated_quiet [OF _ two_tables(8)] dated_quiet [OF _ two_tables(9)]
  dated_quiet [OF _ two_tables(10)] dated_quiet [OF _ two_tables(11)] dated_quiet [OF _ two_tables(12)]
  dated_quiet [OF _ two_tables(13)] dated_quiet [OF _ two_tables(14)] dated_quiet [OF _ two_tables(15)]
  dated_quiet [OF _ two_tables(16)] dated_quiet [OF _ two_tables(17)] dated_quiet [OF _ two_tables(18)]
  dated_quiet [OF _ two_tables(19)] dated_quiet [OF _ two_tables(20)] dated_quiet [OF _ two_tables(21)]
  dated_quiet [OF _ two_tables(22)] dated_quiet [OF _ two_tables(23)]

interpretation gate_dates: gate_law dated
  by unfold_locales
    (rule dated_quiets constraints.side constraints.checkIn | erule note_dated | assumption)+

lemma createOrder_dated: "keeps dated (createOrder snap ts at ids refs inp)"
  unfolding createOrder_def by (intro keeps_intros createOrder_tx_dated)

lemma approveOrder_dated: "keeps dated (approveOrder ts draw i actor v)"
  unfolding approveOrder_def by (intro keeps_intros approve_tx_dated)

lemma issueComplimentary_dated: "keeps dated (issueComplimentaryTickets snap ts draw cinp)"
  unfolding issueComplimentaryTickets_def by (intro keeps_intros comp_tx_dated)

interpretation dates: service_law dated
  by unfold_locales
    (rule createOrder_dated submitPayment_dated approveOrder_dated issueComplimentary_dated rejectOrder_dated
      cancelTicket_dated | erule expiry_keeps [OF expire_one_dated] | rule gate_dates.scan, blast)+

end
