(* ===== verification/ReportRules.thy ===== *)
theory ReportRules
  imports SalesBooks
begin

text \<open>
  Why the figures of the report agree: sums over groups, over the approval rows of the trail,
  per status, per event and per ticket type all add up the same orders.
\<close>

section \<open>Groups\<close>

lemma sum_groups_aux:
  fixes g :: "'r \<Rightarrow> int"
  assumes "finite K" "key ` set rows \<subseteq> K"
  shows "(\<Sum>k\<in>K. if P k then sum_list (map g (filter (\<lambda>r. key r = k) rows)) else 0) =
    sum_list (map g (filter (\<lambda>r. P (key r)) rows))"
  using assms(2)
proof (induction rows)
  case (Cons r rows)
  have "(\<Sum>k\<in>K. if P k then sum_list (map g (filter (\<lambda>x. key x = k) (r # rows))) else 0) =
      (\<Sum>k\<in>K. (if k = key r then if P k then g r else 0 else 0) +
        (if P k then sum_list (map g (filter (\<lambda>x. key x = k) rows)) else 0))"
    by (intro sum.cong) auto
  also have "\<dots> = (if P (key r) then g r else 0) + sum_list (map g (filter (\<lambda>x. P (key x)) rows))"
    using Cons assms(1) by (simp add: sum.distrib sum.delta)
  finally show ?case by simp
qed (simp cong: if_cong)

lemma group_sum:
  fixes g :: "'r \<Rightarrow> int"
  shows "sum_list (map (\<lambda>(k, rs). if P k then sum_list (map g rs) else 0) (group_by key rows)) =
    sum_list (map g (filter (\<lambda>r. P (key r)) rows))"
proof -
  have "sum_list (map (\<lambda>(k, rs). if P k then sum_list (map g rs) else 0) (group_by key rows)) =
      sum_list (map (\<lambda>k. if P k then sum_list (map g (filter (\<lambda>r. key r = k) rows)) else 0) (remdups (map key rows)))"
    by (simp add: group_by_def comp_def)
  also have "\<dots> = (\<Sum>k\<in>key ` set rows. if P k then sum_list (map g (filter (\<lambda>r. key r = k) rows)) else 0)"
    by (simp add: sum_list_distinct_conv_sum_set)
  finally show ?thesis by (simp add: sum_groups_aux)
qed

lemmas group_sum_all = group_sum [where P = "\<lambda>_. True", simplified]

lemma length_sum: "int (length rs) = sum_list (map (\<lambda>_. 1) rs)"
  by (induction rs) simp_all

lemma sum_if: "sum_list (map (\<lambda>x. if P x then f x else 0) xs) = sum_list (map f (filter P xs))" for f :: "'a \<Rightarrow> int"
  by (induction xs) simp_all

lemma sum_filter_same:
  "(\<And>x. x \<in> set xs \<Longrightarrow> P x = Q x) \<Longrightarrow> sum_list (map g (filter P xs)) = sum_list (map g (filter Q xs))"
  by (metis (mono_tags, lifting) filter_cong)

text \<open>The group of a key, and a status total of it.\<close>

lemma group_find:
  fixes key :: "'r \<Rightarrow> 'k"
  shows "List.find (\<lambda>x. fst x = k) (group_by key rows) =
    (if k \<in> key ` set rows then Some (k, filter (\<lambda>r. key r = k) rows) else None)"
proof -
  have "List.find (\<lambda>x. fst x = k) (map (\<lambda>k. (k, F k)) ks) = (if k \<in> set ks then Some (k, F k) else None)" for ks and F :: "'k \<Rightarrow> 'r list"
    by (induction ks) auto
  then show ?thesis by (simp add: group_by_def)
qed

section \<open>What was sold\<close>

definition sales :: "uuid \<Rightarrow> db \<Rightarrow> order_row list" where
  "sales e s = filter (\<lambda>r. o_eventId r = e \<and> revenue r \<and> buyerOrder r) (orders s)"

lemma comp_free:
  assumes "db_ok s" "r \<in> set (orders s)" "\<not> buyerOrder r"
  shows "o_totalPaisa r = 0"
  using orders_ok(7,8) [OF db_ok_orders [OF assms(1)] assms(2)] assms(3)
  by (cases "o_complimentaryReason r") (auto simp: buyerOrder_def)

lemma approval_rows:
  fixes g :: "order_row \<Rightarrow> int"
  assumes "\<And>r. r \<in> set rs \<Longrightarrow> approvals s (o_id r) = (if buyerOrder r then 1 else 0)"
  shows "sum_list (map (\<lambda>(r, e). g r) (with_action ''payment.approved'' s rs)) = sum_list (map g (filter buyerOrder rs))"
  using assms
proof (induction rs)
  case (Cons r rs)
  let ?es = "filter (\<lambda>e. oe_orderId e = o_id r \<and> oe_action e = lit ''payment.approved'') (orderEvents s)"
  have "length ?es = (if buyerOrder r then 1 else 0)" using Cons(2) [of r] by (simp add: approvals_def)
  moreover have "sum_list (map (\<lambda>(r, e). g r) (map (\<lambda>e. (r, e)) es)) = int (length es) * g r" for es :: "order_event_row list"
    by (induction es) (simp_all add: distrib_right)
  ultimately show ?case using Cons by (simp add: with_action_def)
qed (simp add: with_action_def)

lemma insert_day_mset: "mset (insert_day r xs) = add_mset r (mset xs)"
  by (induction xs) auto

lemma insert_days_mset: "mset (foldr insert_day xs []) = mset xs"
  by (induction xs) (simp_all add: insert_day_mset)

lemma sum_mset_list: "mset xs = mset ys \<Longrightarrow> sum_list (map f xs) = sum_list (map f ys)" for f :: "'a \<Rightarrow> int"
  by (metis mset_map sum_mset_sum_list)

definition day_row :: "jstr \<times> (order_row \<times> order_event_row) list \<Rightarrow> daily_sales_row" where
  "day_row = (\<lambda>(day, ps). \<lparr>dy_day = day, dy_orders = int (length ps),
    dy_tickets = sum_list (map (\<lambda>(r, e). o_quantity r) ps), dy_paisa = sum_list (map (\<lambda>(r, e). o_totalPaisa r) ps)\<rparr>)"

lemma dailySales_mset:
  "mset (dailySales dhaka e s) = mset (map day_row (group_by (\<lambda>(r, e). dhaka (oe_createdAt e))
    (with_action ''payment.approved'' s (filter (\<lambda>r. o_eventId r = e \<and> revenue r) (orders s)))))"
  unfolding dailySales_def insert_days_mset by (simp add: day_row_def)

lemma dailySales_sum:
  fixes g :: "order_row \<Rightarrow> int"
  assumes "dated s" "\<And>p. f (day_row p) = sum_list (map (\<lambda>(r, e). g r) (snd p))"
  shows "sum_list (map f (dailySales dhaka e s)) = sum_list (map g (sales e s))"
proof -
  let ?rs = "filter (\<lambda>r. o_eventId r = e \<and> revenue r) (orders s)"
  let ?ps = "with_action ''payment.approved'' s ?rs"
  have "sum_list (map f (dailySales dhaka e s)) =
      sum_list (map (\<lambda>(k, ps). sum_list (map (\<lambda>(r, e). g r) ps)) (group_by (\<lambda>(r, e). dhaka (oe_createdAt e)) ?ps))"
    unfolding sum_mset_list [OF dailySales_mset] map_map
    by (intro arg_cong [where f = sum_list] map_cong refl) (auto simp: assms(2))
  also have "\<dots> = sum_list (map (\<lambda>(r, e). g r) ?ps)" by (rule group_sum_all)
  also have "\<dots> = sum_list (map g (filter buyerOrder ?rs))"
  proof (rule approval_rows)
    fix r assume "r \<in> set ?rs"
    then have "r \<in> set (orders s)" "paid_for r = buyerOrder r"
      by (auto simp: revenue_def REVENUE_STATUSES_def paid_for_def)
    then show "approvals s (o_id r) = (if buyerOrder r then 1 else 0)" using assms(1) by (simp add: dated_def)
  qed
  finally show ?thesis by (simp add: sales_def conj_ac)
qed

lemma dailySales_days: "distinct (map dy_day (dailySales dhaka e s))"
proof -
  have a: "mset (map dy_day (dailySales dhaka e s)) = mset (map dy_day (map day_row (group_by (\<lambda>(r, e). dhaka (oe_createdAt e))
      (with_action ''payment.approved'' s (filter (\<lambda>r. o_eventId r = e \<and> revenue r) (orders s))))))"
    unfolding mset_map dailySales_mset ..
  have b: "map dy_day (map day_row (group_by key ps)) = remdups (map key ps)" for key ps
    by (simp add: group_by_def day_row_def comp_def)
  from mset_eq_imp_distinct_iff [OF a [unfolded b]] show ?thesis by simp
qed

section \<open>Per status\<close>

definition of_event :: "uuid \<Rightarrow> orders_filter" where
  "of_event e = no_filter\<lparr>of_eventId := Some e\<rparr>"

lemma of_event_where [simp]: "searchWhere ((of_event e)\<lparr>of_status := None\<rparr>) r \<longleftrightarrow> o_eventId r = e"
  by (simp add: of_event_def no_filter_def searchWhere_def)

definition status_row :: "order_status \<times> order_row list \<Rightarrow> status_total" where
  "status_row = (\<lambda>(st, rs). \<lparr>st_status = st, st_count = int (length rs),
    st_totalPaisa = sum_list (map o_totalPaisa rs),
    st_compCount = int (length (filter (\<lambda>r. o_complimentaryReason r \<noteq> None) rs))\<rparr>)"

lemma totalsByStatus_rows:
  "totalsByStatus f s = map status_row (group_by o_status (filter (searchWhere (f\<lparr>of_status := None\<rparr>)) (orders s)))"
  by (simp add: totalsByStatus_def status_row_def)

lemma buyers_left: "int (length rs) - int (length (filter (\<lambda>r. o_complimentaryReason r \<noteq> None) rs)) =
    int (length (filter buyerOrder rs))"
proof -
  have "length (filter buyerOrder rs) + length (filter (\<lambda>r. o_complimentaryReason r \<noteq> None) rs) = length rs"
    using sum_length_filter_compl [of buyerOrder rs] by (simp add: buyerOrder_def)
  then show ?thesis by linarith
qed

lemma find_map: "List.find P (map f xs) = map_option f (List.find (\<lambda>x. P (f x)) xs)"
  by (induction xs) auto

lemma find_filter: "List.find P (filter Q xs) = List.find (\<lambda>x. Q x \<and> P x) xs"
  by (induction xs) auto

lemma find_restrict:
  assumes "\<And>x y. x \<in> set xs \<Longrightarrow> y \<in> set xs \<Longrightarrow> P x \<Longrightarrow> P y \<Longrightarrow> x = y"
  shows "List.find (\<lambda>x. Q x \<and> P x) xs =
    (case List.find P xs of None \<Rightarrow> None | Some x \<Rightarrow> if Q x then Some x else None)"
  using assms
proof (induction xs)
  case (Cons a xs)
  have IH: "List.find (\<lambda>x. Q x \<and> P x) xs =
      (case List.find P xs of None \<Rightarrow> None | Some x \<Rightarrow> if Q x then Some x else None)"
    by (rule Cons(1)) (use Cons(2) in auto)
  show ?case
  proof (cases "P a \<and> \<not> Q a")
    case True
    then have "\<not> (Q x \<and> P x)" if "x \<in> set xs" for x using Cons(2) [of x a] that by auto
    then have "List.find (\<lambda>x. Q x \<and> P x) xs = None" by (simp add: find_None_iff)
    then show ?thesis using True by simp
  qed (use IH in auto)
qed simp

lemma pick_event_status:
  fixes e :: uuid
  assumes "db_ok s"
  defines "rs \<equiv> \<lambda>st. filter (\<lambda>r. o_status r = st \<and> o_eventId r = e \<and> buyerOrder r) (orders s)"
  shows "pick_status (withoutComps (totalsByStatus (of_event e) s)) st =
    \<lparr>pm_count = int (length (rs st)), pm_paisa = sum_list (map o_totalPaisa (rs st))\<rparr>"
proof -
  let ?all = "filter (\<lambda>r. o_eventId r = e) (orders s)"
  let ?G = "group_by o_status ?all"
  let ?u = "\<lambda>r. r\<lparr>st_count := st_count r - st_compCount r, st_compCount := 0\<rparr>"
  let ?g = "filter (\<lambda>r. o_status r = st) ?all"
  have buyers: "filter buyerOrder ?g = rs st" by (simp add: rs_def conj_ac)
  have money: "sum_list (map o_totalPaisa ?g) = sum_list (map o_totalPaisa (rs st))"
  proof -
    have "sum_list (map o_totalPaisa ?g) = sum_list (map (\<lambda>r. if buyerOrder r then o_totalPaisa r else 0) ?g)"
      by (intro arg_cong [where f = sum_list] map_cong refl) (use comp_free [OF assms(1)] in auto)
    then show ?thesis unfolding sum_if buyers .
  qed
  have u: "st_status (?u (status_row p)) = fst p" "st_count (?u (status_row p)) = int (length (filter buyerOrder (snd p)))"
    "st_totalPaisa (?u (status_row p)) = sum_list (map o_totalPaisa (snd p))" for p
    using buyers_left [of "snd p"] by (simp_all add: status_row_def case_prod_unfold)
  have "List.find (\<lambda>r. st_status r = st) (withoutComps (totalsByStatus (of_event e) s)) =
      map_option (\<lambda>p. ?u (status_row p))
        (List.find (\<lambda>p. filter buyerOrder (snd p) \<noteq> [] \<and> fst p = st) ?G)"
    unfolding withoutComps_def totalsByStatus_rows find_filter map_map of_event_where
    by (simp add: find_map comp_def u)
  also have "List.find (\<lambda>p. filter buyerOrder (snd p) \<noteq> [] \<and> fst p = st) ?G =
      (if rs st = [] then None else Some (st, ?g))"
  proof -
    have r: "List.find (\<lambda>p. filter buyerOrder (snd p) \<noteq> [] \<and> fst p = st) ?G =
        (case List.find (\<lambda>p. fst p = st) ?G of None \<Rightarrow> None
         | Some x \<Rightarrow> if filter buyerOrder (snd x) \<noteq> [] then Some x else None)"
      by (rule find_restrict) (auto simp: group_by_def)
    show ?thesis
    proof (cases "st \<in> o_status ` set ?all")
      case True
      show ?thesis unfolding r group_find if_P [OF True] option.case snd_conv buyers by simp
    next
      case False
      then have "?g = []" by (auto simp: filter_empty_conv)
      then have "rs st = []" unfolding buyers [symmetric] by simp
      then show ?thesis using False unfolding r group_find by simp
    qed
  qed
  finally have f: "List.find (\<lambda>r. st_status r = st) (withoutComps (totalsByStatus (of_event e) s)) =
      map_option (\<lambda>p. ?u (status_row p)) (if rs st = [] then None else Some (st, ?g))" .
  show ?thesis
    unfolding pick_status_def f
    by (cases "rs st = []") (simp_all only: if_True if_False option.map option.case u snd_conv buyers money
      list.map sum_list.Nil list.size of_nat_0 simp_thms)
qed

lemma sales_split:
  fixes g :: "order_row \<Rightarrow> int"
  shows "sum_list (map g (filter (\<lambda>r. o_status r = Paid \<and> o_eventId r = e \<and> buyerOrder r) (orders s))) +
    sum_list (map g (filter (\<lambda>r. o_status r = Issued \<and> o_eventId r = e \<and> buyerOrder r) (orders s))) =
    sum_list (map g (sales e s))"
proof -
  have "sum_list (map g (filter (\<lambda>r. o_status r = Paid \<and> Q r) rs)) +
      sum_list (map g (filter (\<lambda>r. o_status r = Issued \<and> Q r) rs)) =
      sum_list (map g (filter (\<lambda>r. revenue r \<and> Q r) rs))" for Q rs
    by (induction rs) (auto simp: revenue_def REVENUE_STATUSES_def)
  from this [of "\<lambda>r. o_eventId r = e \<and> buyerOrder r" "orders s"] show ?thesis
    by (simp add: sales_def conj_ac)
qed

lemma funnel_verified:
  assumes "db_ok s"
  shows "fu_verifiedMoney (funnel_of (withoutComps (totalsByStatus (of_event e) s))) =
    \<lparr>pm_count = int (length (sales e s)), pm_paisa = sum_list (map o_totalPaisa (sales e s))\<rparr>"
proof -
  have "fu_verifiedMoney (funnel_of rows) =
      \<lparr>pm_count = pm_count (pick_status rows Paid) + pm_count (pick_status rows Issued),
       pm_paisa = pm_paisa (pick_status rows Paid) + pm_paisa (pick_status rows Issued)\<rparr>" for rows
    by (simp add: funnel_of_def Let_def REVENUE_STATUSES_def add_money_def)
  then show ?thesis
    using sales_split [of "\<lambda>_. 1" e s] sales_split [of o_totalPaisa e s]
    by (simp add: pick_event_status [OF assms] length_sum)
qed

section \<open>Sizes, events and the orders page\<close>

lemma orderSizes_stats:
  assumes "db_ok s"
  shows "oz_orders (orderSizeStats (orderSizes e s)) = int (length (sales e s))"
    "oz_tickets (orderSizeStats (orderSizes e s)) = sum_list (map o_quantity (sales e s))"
proof -
  let ?G = "group_by o_quantity (sales e s)"
  have rows: "orderSizes e s = map (\<lambda>(q, rs). \<lparr>os_quantity = q, os_n = int (length rs)\<rparr>) ?G"
    by (simp add: orderSizes_def sales_def)
  have key: "1 \<le> q \<and> q \<le> 10 \<and> (\<forall>r \<in> set rs. o_quantity r = q)" if "(q, rs) \<in> set ?G" for q rs
    using that orders_ok(4) [OF db_ok_orders [OF assms]] by (auto simp: group_by_def sales_def)
  have all: "filter (\<lambda>r. \<not> (os_quantity r < 1 \<or> os_quantity r > 10)) (orderSizes e s) = orderSizes e s"
    unfolding rows by (rule filter_True) (use key in force)
  show "oz_orders (orderSizeStats (orderSizes e s)) = int (length (sales e s))"
    unfolding orderSizeStats_def Let_def all using group_sum_all [of "\<lambda>_. 1" o_quantity "sales e s"]
    by (simp add: rows comp_def case_prod_unfold length_sum)
  have "sum_list (map (\<lambda>r. os_n r * os_quantity r) (orderSizes e s)) =
      sum_list (map (\<lambda>(q, rs). sum_list (map o_quantity rs)) ?G)"
    unfolding rows map_map
  proof (intro arg_cong [where f = sum_list] map_cong refl)
    fix p assume p: "p \<in> set ?G"
    obtain q rs where e: "p = (q, rs)" by (cases p)
    have "map o_quantity rs = map (\<lambda>_. q) rs" using key [of q rs] p e by simp
    then have "sum_list (map o_quantity rs) = int (length rs) * q" by (simp only: sum_list_triv of_nat_id)
    then show "((\<lambda>r. os_n r * os_quantity r) \<circ> (\<lambda>(q, rs). \<lparr>os_quantity = q, os_n = int (length rs)\<rparr>)) p =
        (case p of (q, rs) \<Rightarrow> sum_list (map o_quantity rs))"
      by (simp add: e)
  qed
  then show "oz_tickets (orderSizeStats (orderSizes e s)) = sum_list (map o_quantity (sales e s))"
    unfolding orderSizeStats_def Let_def all by (simp add: group_sum_all)
qed

definition event_revenue :: "uuid \<Rightarrow> (event_status_total \<Rightarrow> int) \<Rightarrow> event_status_total list \<Rightarrow> int" where
  "event_revenue e f ts =
    sum_list (map (\<lambda>t. if et_eventId t = e \<and> et_status t \<in> set REVENUE_STATUSES then f t else 0) ts)"

lemma event_revenue_sales:
  assumes "\<And>e st rs. f \<lparr>et_eventId = e, et_status = st, et_count = int (length rs),
      et_totalPaisa = sum_list (map o_totalPaisa rs)\<rparr> = sum_list (map g rs)"
  shows "event_revenue e f (totalsByEventAndStatus s) = sum_list (map g (sales e s))"
proof -
  let ?P = "\<lambda>(i, st). i = e \<and> st \<in> set REVENUE_STATUSES"
  have "event_revenue e f (totalsByEventAndStatus s) =
      sum_list (map (\<lambda>(k, rs). if ?P k then sum_list (map g rs) else 0)
        (group_by (\<lambda>r. (o_eventId r, o_status r)) (filter buyerOrder (orders s))))"
    unfolding event_revenue_def totalsByEventAndStatus_def map_map
    by (intro arg_cong [where f = sum_list] map_cong refl) (auto simp: assms)
  then show ?thesis unfolding group_sum by (simp add: sales_def revenue_def conj_ac)
qed

lemma add_totals:
  "ew_event (foldl add_total row ts) = ew_event row"
  "ew_revenuePaisa (foldl add_total row ts) = ew_revenuePaisa row + event_revenue (e_id (ew_event row)) et_totalPaisa ts"
  "ew_revenueOrders (foldl add_total row ts) = ew_revenueOrders row + event_revenue (e_id (ew_event row)) et_count ts"
  by (induction ts arbitrary: row) (simp_all add: add_total_def event_revenue_def)

lemma overview_figures:
  assumes "w \<in> set (overview s)"
  shows "ew_revenuePaisa w = sum_list (map o_totalPaisa (sales (e_id (ew_event w)) s))"
    "ew_revenueOrders w = int (length (sales (e_id (ew_event w)) s))"
proof -
  have each: "foldl (\<lambda>rows t. map (\<lambda>row. add_total row t) rows) rows ts = map (\<lambda>row. foldl add_total row ts) rows" for rows ts
    by (induction ts arbitrary: rows) (simp_all add: comp_def)
  obtain e caps where w: "w = foldl add_total (overview_row caps e) (totalsByEventAndStatus s)"
    using assms unfolding overview_def Let_def each by (auto split: if_splits)
  have n: "e_id (ew_event w) = e_id e" by (simp add: w add_totals(1) overview_row_def Let_def)
  show "ew_revenuePaisa w = sum_list (map o_totalPaisa (sales (e_id (ew_event w)) s))"
    "ew_revenueOrders w = int (length (sales (e_id (ew_event w)) s))"
    unfolding n unfolding w add_totals
    by (simp_all add: overview_row_def Let_def event_revenue_sales length_sum)
qed

lemma dashboard_revenue:
  "(case revenue_by_event (totalsByEventAndStatus s) e of Some n \<Rightarrow> n | None \<Rightarrow> 0) = sum_list (map o_totalPaisa (sales e s))"
proof -
  let ?f = "\<lambda>m t. if et_status t \<notin> set REVENUE_STATUSES then m
     else m(et_eventId t \<mapsto> (case m (et_eventId t) of Some n \<Rightarrow> n | None \<Rightarrow> 0) + et_totalPaisa t)"
  have "(case foldl ?f m ts e of Some n \<Rightarrow> n | None \<Rightarrow> 0) =
      (case m e of Some n \<Rightarrow> n | None \<Rightarrow> 0) + event_revenue e et_totalPaisa ts" for m ts
    by (induction ts arbitrary: m) (simp_all add: event_revenue_def)
  then show ?thesis unfolding revenue_by_event_def by (simp add: event_revenue_sales)
qed

lemma summary_sums:
  "os_revenuePaisa (foldl summarise_step acc rows) = os_revenuePaisa acc +
    sum_list (map st_totalPaisa (filter (\<lambda>t. st_status t \<in> set REVENUE_STATUSES) rows))"
  "os_revenueCount (foldl summarise_step acc rows) = os_revenueCount acc +
    sum_list (map (\<lambda>t. st_count t - st_compCount t) (filter (\<lambda>t. st_status t \<in> set REVENUE_STATUSES) rows))"
  by (induction rows arbitrary: acc) (simp_all add: summarise_step_def Let_def)

lemma orders_page_figures:
  assumes "db_ok s"
  shows "os_revenuePaisa (summariseTotals (totalsByStatus (of_event e) s)) = sum_list (map o_totalPaisa (sales e s))"
    "os_revenueCount (summariseTotals (totalsByStatus (of_event e) s)) = int (length (sales e s))"
proof -
  let ?all = "filter (\<lambda>r. o_eventId r = e) (orders s)"
  have split: "sum_list (map f (filter (\<lambda>t. st_status t \<in> set REVENUE_STATUSES) (totalsByStatus (of_event e) s))) =
      sum_list (map g (filter revenue ?all))" if "\<And>p. f (status_row p) = sum_list (map g (snd p))" for f and g :: "order_row \<Rightarrow> int"
  proof -
    have "sum_list (map f (filter (\<lambda>t. st_status t \<in> set REVENUE_STATUSES) (totalsByStatus (of_event e) s))) =
        sum_list (map (\<lambda>(k, rs). if k \<in> set REVENUE_STATUSES then sum_list (map g rs) else 0) (group_by o_status ?all))"
      unfolding totalsByStatus_rows of_event_where filter_map map_map sum_if [symmetric]
      by (intro arg_cong [where f = sum_list] map_cong refl) (simp add: that case_prod_unfold, simp add: status_row_def case_prod_unfold)
    then show ?thesis unfolding group_sum by (simp add: revenue_def)
  qed
  have buyers: "sum_list (map g (filter revenue ?all)) = sum_list (map g (sales e s))"
    if "\<And>r. r \<in> set (orders s) \<Longrightarrow> \<not> buyerOrder r \<Longrightarrow> g r = 0" for g :: "order_row \<Rightarrow> int"
  proof -
    have "sum_list (map g (filter revenue ?all)) =
        sum_list (map (\<lambda>r. if buyerOrder r then g r else 0) (filter revenue ?all))"
      by (intro arg_cong [where f = sum_list] map_cong refl) (use that in auto)
    then show ?thesis unfolding sum_if by (simp add: sales_def conj_ac)
  qed
  show "os_revenuePaisa (summariseTotals (totalsByStatus (of_event e) s)) = sum_list (map o_totalPaisa (sales e s))"
    unfolding summariseTotals_def summary_sums
    using split [of st_totalPaisa o_totalPaisa] buyers [of o_totalPaisa] comp_free [OF assms]
    by (simp add: status_row_def case_prod_unfold)
  have "st_count (status_row p) - st_compCount (status_row p) =
      sum_list (map (\<lambda>r. if buyerOrder r then 1 else 0) (snd p))" for p
    using buyers_left [of "snd p"] by (simp add: status_row_def case_prod_unfold sum_if length_sum)
  from split [OF this] have "sum_list (map (\<lambda>t. st_count t - st_compCount t)
      (filter (\<lambda>t. st_status t \<in> set REVENUE_STATUSES) (totalsByStatus (of_event e) s))) =
      sum_list (map (\<lambda>r. if buyerOrder r then 1 else 0) (sales e s))"
    using buyers [of "\<lambda>r. if buyerOrder r then 1 else 0"] by simp
  also have "\<dots> = int (length (sales e s))"
    unfolding sum_if by (simp add: sales_def length_sum)
  finally show "os_revenueCount (summariseTotals (totalsByStatus (of_event e) s)) = int (length (sales e s))"
    unfolding summariseTotals_def summary_sums by simp
qed

text \<open>Per ticket type, when every order's type belongs to the order's event.\<close>

lemma type_sales:
  fixes g :: "order_row \<Rightarrow> int"
  assumes "db_ok s" "\<forall>r \<in> set (orders s). \<forall>t \<in> set (ticketTypes s). tt_id t = o_ticketTypeId r \<longrightarrow> tt_eventId t = o_eventId r"
  shows "sum_list (map (\<lambda>t. sum_list (map g (filter (\<lambda>r. o_ticketTypeId r = tt_id t \<and> revenue r \<and> buyerOrder r) (orders s))))
      (filter (\<lambda>t. tt_eventId t = e) (ticketTypes s))) = sum_list (map g (sales e s))"
proof -
  let ?own = "filter (\<lambda>t. tt_eventId t = e) (ticketTypes s)"
  let ?rs = "filter (\<lambda>r. revenue r \<and> buyerOrder r) (orders s)"
  let ?F = "\<lambda>k. sum_list (map g (filter (\<lambda>r. o_ticketTypeId r = k) ?rs))"
  let ?K = "tt_id ` set (ticketTypes s)"
  let ?P = "\<lambda>k. k \<in> tt_id ` set ?own"
  have d: "distinct (map tt_id (ticketTypes s))" by (rule ticket_types_ok(1) [OF db_ok_ticket_types [OF assms(1)]])
  then have d': "distinct (map tt_id ?own)" by (rule distinct_map_filter)
  have fk: "o_ticketTypeId r \<in> ?K" if "r \<in> set (orders s)" for r
    using orders_ok(5) [OF db_ok_orders [OF assms(1)] that] .
  have "sum_list (map (\<lambda>t. sum_list (map g (filter (\<lambda>r. o_ticketTypeId r = tt_id t \<and> revenue r \<and> buyerOrder r) (orders s)))) ?own) =
      sum_list (map ?F (map tt_id ?own))"
    by (simp add: comp_def conj_ac)
  also have "\<dots> = (\<Sum>k\<in>set (map tt_id ?own). ?F k)" using sum_list_distinct_conv_sum_set [OF d'] by simp
  also have "\<dots> = (\<Sum>k\<in>?K. if ?P k then ?F k else 0)"
  proof -
    have e: "set (map tt_id ?own) = {k \<in> ?K. ?P k}" by auto
    show ?thesis unfolding e by (rule sum.inter_filter) simp
  qed
  also have "\<dots> = sum_list (map g (filter (\<lambda>r. ?P (o_ticketTypeId r)) ?rs))"
    by (rule sum_groups_aux) (use fk in auto)
  also have "filter (\<lambda>r. ?P (o_ticketTypeId r)) ?rs = sales e s"
  proof -
    have "?P (o_ticketTypeId r) \<longleftrightarrow> o_eventId r = e" if r: "r \<in> set (orders s)" for r
    proof -
      obtain t where t: "t \<in> set (ticketTypes s)" "tt_id t = o_ticketTypeId r" using fk [OF r] by auto
      have "tt_eventId t = o_eventId r" using assms(2) r t by blast
      moreover have "t' = t" if "t' \<in> set (ticketTypes s)" "tt_id t' = o_ticketTypeId r" for t'
        using inj_onD [OF distinct_map [THEN iffD1, OF d, THEN conjunct2], of t' t] that t by simp
      ultimately have "(\<exists>t' \<in> set (ticketTypes s). tt_eventId t' = e \<and> tt_id t' = o_ticketTypeId r) \<longleftrightarrow> o_eventId r = e"
        using t by metis
      moreover have "?P k \<longleftrightarrow> (\<exists>t' \<in> set (ticketTypes s). tt_eventId t' = e \<and> tt_id t' = k)" for k by auto
      ultimately show ?thesis by simp
    qed
    then show ?thesis unfolding sales_def filter_filter by (intro filter_cong refl) blast
  qed
  finally show ?thesis .
qed

lemma types_figures:
  assumes "db_ok s" "\<forall>r \<in> set (orders s). \<forall>t \<in> set (ticketTypes s). tt_id t = o_ticketTypeId r \<longrightarrow> tt_eventId t = o_eventId r"
  shows "sum_list (map ts_revenuePaisa (salesByTicketType e s)) = sum_list (map o_totalPaisa (sales e s))"
    "sum_list (map ts_orderCount (salesByTicketType e s)) = int (length (sales e s))"
proof -
  let ?own = "filter (\<lambda>t. tt_eventId t = e) (ticketTypes s)"
  have s: "sum_list (map f (sort_key tt_createdAt (sort_key tt_id ?own))) = sum_list (map f ?own)" for f :: "ticket_type_row \<Rightarrow> int"
    by (rule sum_mset_list) simp
  show "sum_list (map ts_revenuePaisa (salesByTicketType e s)) = sum_list (map o_totalPaisa (sales e s))"
    unfolding salesByTicketType_def Let_def map_map s using type_sales [OF assms, of o_totalPaisa e] by (simp add: comp_def)
  show "sum_list (map ts_orderCount (salesByTicketType e s)) = int (length (sales e s))"
    unfolding salesByTicketType_def Let_def map_map s using type_sales [OF assms, of "\<lambda>_. 1" e]
    by (simp add: comp_def length_sum)
qed

end
