(* ===== verification/ReportLaws.thy ===== *)
theory ReportLaws
  imports ReportRules
begin

text \<open>
  The sales report returns: its window is a run of days, the daily and the running series visit
  each of them once, and their figures are sums over the rows of those days.
\<close>

section \<open>Sums over days\<close>

lemma sum_per_key:
  fixes g :: "'r \<Rightarrow> int"
  assumes "distinct ks"
  shows "sum_list (map (\<lambda>k. sum_list (map g (filter (\<lambda>r. key r = k) rows))) ks) =
    sum_list (map g (filter (\<lambda>r. key r \<in> set ks) rows))"
proof (induction rows)
  case (Cons r rows)
  have one: "sum_list (map (\<lambda>k. if key r = k then g r else 0) ks) = (if key r \<in> set ks then g r else 0)"
    using assms by (induction ks) auto
  have "sum_list (map (\<lambda>k. sum_list (map g (filter (\<lambda>x. key x = k) (r # rows)))) ks) =
      sum_list (map (\<lambda>k. (if key r = k then g r else 0) + sum_list (map g (filter (\<lambda>x. key x = k) rows))) ks)"
    by (intro arg_cong [where f = sum_list] map_cong refl) simp
  then show ?case using Cons one by (simp add: sum_list_addf)
qed (induction ks; simp)

lemma sum_disjoint:
  fixes g :: "'r \<Rightarrow> int"
  assumes "\<And>r. r \<in> set rows \<Longrightarrow> \<not> (P r \<and> Q r)"
  shows "sum_list (map g (filter P rows)) + sum_list (map g (filter Q rows)) =
    sum_list (map g (filter (\<lambda>r. P r \<or> Q r) rows))"
  using assms by (induction rows) auto

lemma by_day_sum:
  fixes f :: "daily_sales_row \<Rightarrow> int"
  assumes "distinct (map dy_day rows)"
  shows "(case by_day rows day of Some x \<Rightarrow> f x | None \<Rightarrow> 0) =
    sum_list (map f (filter (\<lambda>r. dy_day r = day) rows))"
  using assms
proof (induction rows)
  case (Cons r rows)
  have step: "by_day (r # rows) day =
      (case by_day rows day of Some x \<Rightarrow> Some x | None \<Rightarrow> if dy_day r = day then Some r else None)"
    by (simp add: by_day_def map_add_def split: option.splits)
  show ?case
  proof (cases "dy_day r = day")
    case True
    then have "day \<notin> dy_day ` set rows" using Cons(2) by auto
    then have none: "by_day rows day = None" and empty: "filter (\<lambda>r. dy_day r = day) rows = []"
      by (auto simp: by_day_def map_of_eq_None_iff filter_empty_conv)
    show ?thesis unfolding step none using True empty by simp
  next
    case False
    then show ?thesis using Cons step by (auto split: option.splits)
  qed
qed (simp add: by_day_def)

section \<open>The running series\<close>

lemma running_points_facts:
  "map cp_day (fst (running_points label sold today n ds)) = ds"
  "snd (running_points label sold today n ds) = n + sum_list (map sold ds)"
  "k < length ds \<Longrightarrow> cp_cumulative (fst (running_points label sold today n ds) ! k) =
    n + sum_list (map sold (take (Suc k) ds))"
proof (induction ds arbitrary: n k)
  case (Cons d ds)
  { case 1 show ?case using Cons(1) by (simp add: Let_def case_prod_unfold) }
  { case 2 show ?case using Cons(2) by (simp add: Let_def case_prod_unfold) }
  { case 3 show ?case using 3 Cons(3) by (cases k) (simp_all add: Let_def case_prod_unfold) }
qed simp_all

section \<open>A window of days\<close>

text \<open>Every row's day is the text of a day, no two rows have the same one.\<close>

definition daily_rows :: "(int \<Rightarrow> bool) \<Rightarrow> daily_sales_row list \<Rightarrow> bool" where
  "daily_rows ok rows \<longleftrightarrow> distinct (map dy_day rows) \<and> (\<forall>r \<in> set rows. \<exists>d. ok d \<and> dy_day r = dayText d)"

lemma row_in_window:
  assumes "four_digit_year d" "a \<le> b" "\<And>d. a \<le> d \<Longrightarrow> d \<le> b \<Longrightarrow> four_digit_year d"
  shows "dayText d \<in> set (map dayText [a..b]) \<longleftrightarrow>
    \<not> (str_less (dayText d) (dayText a) \<or> str_less (dayText b) (dayText d))"
proof -
  have "four_digit_year a" "four_digit_year b" using assms(2) assms(3) [of a] assms(3) [of b] by simp_all
  then have "\<not> (str_less (dayText d) (dayText a) \<or> str_less (dayText b) (dayText d)) \<longleftrightarrow> a \<le> d \<and> d \<le> b"
    using assms(1) by (auto simp: str_less_days)
  moreover have "dayText d \<in> set (map dayText [a..b]) \<longleftrightarrow> a \<le> d \<and> d \<le> b"
    using assms(1,3) by (auto simp: dayText_inject image_iff)
  ultimately show ?thesis by simp
qed

lemma window_texts_distinct:
  assumes "\<And>d. a \<le> d \<Longrightarrow> d \<le> b \<Longrightarrow> four_digit_year d"
  shows "distinct (map dayText [a..b])"
  using assms by (auto simp: distinct_map inj_on_def dayText_inject)

lemma window_sum:
  fixes g :: "daily_sales_row \<Rightarrow> int"
  assumes "daily_rows four_digit_year rows" "a \<le> b" "\<And>d. a \<le> d \<Longrightarrow> d \<le> b \<Longrightarrow> four_digit_year d"
  shows "sum_list (map (\<lambda>day. sum_list (map g (filter (\<lambda>r. dy_day r = day) rows))) (map dayText [a..b])) =
    sum_list (map g (filter (\<lambda>r. \<not> (str_less (dy_day r) (dayText a) \<or> str_less (dayText b) (dy_day r))) rows))"
proof -
  have "dy_day r \<in> set (map dayText [a..b]) \<longleftrightarrow>
      \<not> (str_less (dy_day r) (dayText a) \<or> str_less (dayText b) (dy_day r))" if "r \<in> set rows" for r
  proof -
    obtain d where d: "four_digit_year d" "dy_day r = dayText d" using assms(1) \<open>r \<in> set rows\<close> by (auto simp: daily_rows_def)
    show ?thesis unfolding d(2) by (rule row_in_window [OF d(1) assms(2,3)])
  qed
  note inside = this
  have "distinct (map dayText [a..b])" by (rule window_texts_distinct) (use assms(3) in blast)
  from sum_per_key [OF this, of g dy_day rows] show ?thesis using sum_filter_same [of rows, OF inside] by simp
qed

section \<open>The two series\<close>

lemma dailySeries_returns:
  assumes "daily_rows four_digit_year rows" "a \<le> b" "\<And>d. a \<le> d \<Longrightarrow> d \<le> b + 1 \<Longrightarrow> four_digit_year d"
    and "rw_from w = dayText a" "rw_to w = dayText b" "nat (b + 1 - a) < fuel"
  shows "\<exists>p. dailySeries label fuel rows w = Some (Inr p) \<and> map pt_day (sr_points p) = map dayText [a..b] \<and>
    periodTotals rows (dayText a) (dayText b) = \<lparr>pe_orders = sum_list (map pt_orders (sr_points p)),
      pe_tickets = sum_list (map pt_tickets (sr_points p)), pe_paisa = sum_list (map pt_paisa (sr_points p))\<rparr>"
proof -
  let ?ds = "map dayText [a..b]"
  let ?ps = "map (daily_point_of label rows (rw_today w)) ?ds"
  have days: "window_days fuel (rw_from w) (rw_to w) = Some (Inr ?ds)"
    unfolding assms(4,5) by (rule window_days_all) (use assms(2,3,6) in auto)
  then obtain p where p: "dailySeries label fuel rows w = Some (Inr p)" "sr_points p = ?ps"
    by (simp add: dailySeries_def Let_def)
  have d: "distinct (map dy_day rows)" using assms(1) by (simp add: daily_rows_def)
  have f: "sum_list (map (\<lambda>day. case by_day rows day of Some x \<Rightarrow> f x | None \<Rightarrow> 0) ?ds) =
      sum_list (map f (filter (\<lambda>r. \<not> (str_less (dy_day r) (dayText a) \<or> str_less (dayText b) (dy_day r))) rows))"
    for f :: "daily_sales_row \<Rightarrow> int"
    unfolding by_day_sum [OF d] by (rule window_sum [OF assms(1,2)]) (use assms(3) in simp)
  have "map pt_orders ?ps = map (\<lambda>day. case by_day rows day of Some x \<Rightarrow> dy_orders x | None \<Rightarrow> 0) ?ds"
    "map pt_tickets ?ps = map (\<lambda>day. case by_day rows day of Some x \<Rightarrow> dy_tickets x | None \<Rightarrow> 0) ?ds"
    "map pt_paisa ?ps = map (\<lambda>day. case by_day rows day of Some x \<Rightarrow> dy_paisa x | None \<Rightarrow> 0) ?ds"
    "map pt_day ?ps = ?ds"
    by (simp_all add: daily_point_of_def Let_def)
  note fields = this
  have "periodTotals rows (dayText a) (dayText b) = \<lparr>pe_orders = sum_list (map pt_orders ?ps),
      pe_tickets = sum_list (map pt_tickets ?ps), pe_paisa = sum_list (map pt_paisa ?ps)\<rparr>"
    unfolding fields f by (simp add: periodTotals_def Let_def)
  then show ?thesis using p fields(4) by auto
qed

lemma take_upto: "a + int k \<le> b \<Longrightarrow> take (Suc k) [a..b] = [a..a + int k]"
proof -
  assume k: "a + int k \<le> b"
  have "[a..b] = [a..a + int k] @ [a + int k + 1..b]" by (rule upto_split2) (use k in simp_all)
  moreover have "length [a..a + int k] = Suc k" by simp
  ultimately show ?thesis by (metis append_eq_conv_conj)
qed

lemma tickets_on_window:
  assumes "dayText a = rw_from w" "dayText b = rw_to w" "a \<le> d" "d \<le> b"
    and "\<And>d. a \<le> d \<Longrightarrow> d \<le> b \<Longrightarrow> four_digit_year d"
  shows "tickets_on rows w (dayText d) = sum_list (map dy_tickets (filter (\<lambda>r. dy_day r = dayText d) rows))"
proof -
  have "\<not> str_less (dayText d) (rw_from w) \<and> str_le (dayText d) (rw_to w)"
    unfolding assms(1,2) [symmetric] using assms(3,4) assms(5) [of d] assms(5) [of a] assms(5) [of b]
    by (simp add: str_less_days str_le_days)
  then show ?thesis unfolding tickets_on_def by (intro sum_filter_same) auto
qed

text \<open>A value of the running series counts everything sold up to and on its day.\<close>

lemma running_total:
  assumes "daily_rows four_digit_year rows" "a \<le> m" "m \<le> b" "\<And>d. a \<le> d \<Longrightarrow> d \<le> b \<Longrightarrow> four_digit_year d"
    and "dayText a = rw_from w" "dayText b = rw_to w"
  shows "before_window rows w + sum_list (map (tickets_on rows w) (map dayText [a..m])) =
    sum_list (map dy_tickets (filter (\<lambda>r. str_le (dy_day r) (dayText m)) rows))"
proof -
  have four: "\<And>d. a \<le> d \<Longrightarrow> d \<le> m \<Longrightarrow> four_digit_year d" using assms(3,4) by simp
  have "map (tickets_on rows w) (map dayText [a..m]) =
      map (\<lambda>day. sum_list (map dy_tickets (filter (\<lambda>r. dy_day r = day) rows))) (map dayText [a..m])"
    using tickets_on_window [OF assms(5,6) _ _ assms(4)] assms(3) by simp
  note per_day = this
  have "sum_list (map (tickets_on rows w) (map dayText [a..m])) =
      sum_list (map dy_tickets (filter (\<lambda>r. \<not> (str_less (dy_day r) (dayText a) \<or> str_less (dayText m) (dy_day r))) rows))"
    unfolding per_day by (rule window_sum [OF assms(1,2) four])
  moreover have "before_window rows w = sum_list (map dy_tickets (filter (\<lambda>r. str_less (dy_day r) (dayText a)) rows))"
    by (simp add: before_window_def assms(5) [symmetric])
  ultimately have "before_window rows w + sum_list (map (tickets_on rows w) (map dayText [a..m])) =
      sum_list (map dy_tickets (filter (\<lambda>r. str_less (dy_day r) (dayText a) \<or>
        \<not> (str_less (dy_day r) (dayText a) \<or> str_less (dayText m) (dy_day r))) rows))"
    using sum_disjoint [of rows "\<lambda>r. str_less (dy_day r) (dayText a)"
      "\<lambda>r. \<not> (str_less (dy_day r) (dayText a) \<or> str_less (dayText m) (dy_day r))" dy_tickets] by simp
  also have "\<dots> = sum_list (map dy_tickets (filter (\<lambda>r. str_le (dy_day r) (dayText m)) rows))"
  proof (rule sum_filter_same)
    fix r assume "r \<in> set rows"
    then obtain d where "four_digit_year d" "dy_day r = dayText d" using assms(1) by (auto simp: daily_rows_def)
    then show "(str_less (dy_day r) (dayText a) \<or> \<not> (str_less (dy_day r) (dayText a) \<or> str_less (dayText m) (dy_day r))) =
        str_le (dy_day r) (dayText m)"
      using assms(2) four [of a] four [of m] by (auto simp: str_less_days str_le_days)
  qed
  finally show ?thesis .
qed

lemma cumulativeSeries_returns:
  assumes "daily_rows four_digit_year rows" "a \<le> b" "\<And>d. a \<le> d \<Longrightarrow> d \<le> b + 1 \<Longrightarrow> four_digit_year d"
    and "rw_from w = dayText a" "rw_to w = dayText b" "nat (b + 1 - a) < fuel"
  shows "\<exists>c. cumulativeSeries label fuel rows w = Some (Inr c) \<and> map cp_day (cu_points c) = map dayText [a..b] \<and>
    (\<forall>x \<in> set (cu_points c). cp_cumulative x =
      sum_list (map dy_tickets (filter (\<lambda>r. str_le (dy_day r) (cp_day x)) rows))) \<and>
    cu_end c = sum_list (map dy_tickets (filter (\<lambda>r. str_le (dy_day r) (dayText b)) rows))"
proof -
  let ?ds = "map dayText [a..b]"
  let ?n = "before_window rows w"
  define run where "run = running_points label (tickets_on rows w) (rw_today w) ?n ?ds"
  note facts = running_points_facts [where label = label and sold = "tickets_on rows w" and today = "rw_today w"
      and n = ?n and ds = ?ds, folded run_def]
  have days: "window_days fuel (rw_from w) (rw_to w) = Some (Inr ?ds)"
    unfolding assms(4,5) by (rule window_days_all) (use assms(2,3,6) in auto)
  then have c: "cumulativeSeries label fuel rows w = Some (Inr \<lparr>cu_points = fst run, cu_before = ?n, cu_end = snd run\<rparr>)"
    by (simp add: cumulativeSeries_def Let_def run_def case_prod_unfold)
  have four: "\<And>d. a \<le> d \<Longrightarrow> d \<le> b \<Longrightarrow> four_digit_year d" using assms(3) by simp
  have total: "?n + sum_list (map (tickets_on rows w) (map dayText [a..m])) =
      sum_list (map dy_tickets (filter (\<lambda>r. str_le (dy_day r) (dayText m)) rows))" if "a \<le> m" "m \<le> b" for m
    by (rule running_total [OF assms(1) that]) (use four assms(4,5) in simp_all)
  have "cp_cumulative x = sum_list (map dy_tickets (filter (\<lambda>r. str_le (dy_day r) (cp_day x)) rows))"
    if x: "x \<in> set (fst run)" for x
  proof -
    obtain k where k: "k < length (fst run)" "x = fst run ! k" using x unfolding in_set_conv_nth by blast
    have "length (map cp_day (fst run)) = length ?ds" unfolding facts(1) by (rule refl)
    then have len: "length (fst run) = nat (b - a + 1)" unfolding length_map length_upto .
    have kb: "a + int k \<le> b" using k(1) assms(2) unfolding len by linarith
    have "cp_day x = map cp_day (fst run) ! k" using k by simp
    also have "\<dots> = dayText (a + int k)" unfolding facts(1) using kb by (simp add: nth_upto)
    finally have day: "cp_day x = dayText (a + int k)" .
    have "cp_cumulative x = ?n + sum_list (map (tickets_on rows w) (take (Suc k) ?ds))"
      unfolding k(2) by (rule facts(3)) (use k(1) len in simp)
    then show ?thesis unfolding day take_map take_upto [OF kb] by (rule trans) (rule total [OF _ kb], simp)
  qed
  moreover have "snd run = sum_list (map dy_tickets (filter (\<lambda>r. str_le (dy_day r) (dayText b)) rows))"
    unfolding facts(2) by (rule total) (use assms(2) in simp_all)
  ultimately show ?thesis using c facts(1) by simp
qed

section \<open>The window of a report\<close>

text \<open>Everything the report asks the calendar day of.\<close>

definition report_instants :: "instant \<Rightarrow> event_row \<Rightarrow> db \<Rightarrow> instant list" where
  "report_instants now event s =
    now # e_startsAt event # (case e_registrationOpensAt event of Some t \<Rightarrow> [t] | None \<Rightarrow> []) @
      map oe_createdAt (orderEvents s)"

lemma dailySales_day_of:
  assumes "r \<in> set (dailySales dhaka e s)"
  obtains x where "x \<in> set (orderEvents s)" "dy_day r = dhaka (oe_createdAt x)"
proof -
  have "r \<in># mset (dailySales dhaka e s)" using assms by simp
  then obtain k ps where k: "(k, ps) \<in> set (group_by (\<lambda>(r, e). dhaka (oe_createdAt e)) (with_action ''payment.approved'' s
      (filter (\<lambda>r. o_eventId r = e \<and> revenue r) (orders s))))" "dy_day r = k"
    unfolding dailySales_mset by (auto simp: day_row_def)
  then obtain q x where "(q, x) \<in> set (with_action ''payment.approved'' s
      (filter (\<lambda>r. o_eventId r = e \<and> revenue r) (orders s)))" "k = dhaka (oe_createdAt x)"
    by (auto simp: group_by_def)
  then show thesis using that [of x] k(2) by (auto simp: with_action_def)
qed

lemma some_window:
  assumes days: "\<And>t. t \<in> set (report_instants now event s) \<Longrightarrow> dhaka t = dayText (dd t) \<and> lo \<le> dd t \<and> dd t \<le> hi"
    and four: "\<And>d. lo - 90 \<le> d \<Longrightarrow> d \<le> hi + 1 \<Longrightarrow> four_digit_year d"
    and rows: "rows = dailySales dhaka e s"
  shows "\<exists>a b w. report_window_of dhaka event rows rg now = Inr w \<and> rw_from w = dayText a \<and> rw_to w = dayText b \<and>
    rw_today w = dhaka now \<and> lo - 89 \<le> a \<and> a \<le> b \<and> b \<le> hi \<and> rw_days w = Some (b - a + 1)"
proof -
  let ?day = "\<lambda>x. \<exists>d. lo \<le> d \<and> d \<le> hi \<and> x = dayText d"
  have row: "?day (dy_day r)" if r: "r \<in> set rows" for r
  proof -
    obtain x where x: "x \<in> set (orderEvents s)" "dy_day r = dhaka (oe_createdAt x)"
      using dailySales_day_of r rows by metis
    then show ?thesis using days [of "oe_createdAt x"] by (auto simp: report_instants_def)
  qed
  have now: "?day (dhaka now)" and starts: "?day (dhaka (e_startsAt event))"
    using days by (auto simp: report_instants_def)
  have opens: "?day (dhaka t)" if "e_registrationOpensAt event = Some t" for t
    using days [of t] that by (auto simp: report_instants_def)
  define earliest where "earliest = earlier_text (map_option dhaka (e_registrationOpensAt event))
    (map_option dy_day (first_row rows))"
  have early: "?day x" if "earliest = Some x" for x
    using that opens row [of "hd rows"] unfolding earliest_def
    by (cases rows; cases "e_registrationOpensAt event") (auto simp: earlier_text_def split: if_splits)
  define target where "target = (if e_startsAt event < now
    then later_text (dhaka (e_startsAt event)) (if rows = [] then dhaka (e_startsAt event) else dy_day (last rows))
    else dhaka now)"
  have "?day target"
    using now starts row [of "last rows"] unfolding target_def by (auto simp: later_text_def)
  then obtain b where b: "lo \<le> b" "b \<le> hi" "(if str_less target (dhaka now) then target else dhaka now) = dayText b"
    using now by (metis (full_types))
  define rg' where "rg' = (case rg of Some r \<Rightarrow> r | None \<Rightarrow> if e_startsAt event < now then AllTime else Last14)"
  have w: "report_window_of dhaka event rows rg now = rangeWindow rg' (dayText b) earliest (dhaka now)"
    unfolding report_window_of_def Let_def b(3) [symmetric] target_def earliest_def rg'_def ..
  have fb: "four_digit_year b" using b by (intro four) simp_all
  show ?thesis
  proof (cases "rg' = AllTime")
    case True
    obtain a where a: "lo \<le> a" "a \<le> b" "four_digit_year a"
      "(case earliest of Some e \<Rightarrow> if e \<noteq> [] \<and> str_less e (dayText b) then e else dayText b | None \<Rightarrow> dayText b) = dayText a"
    proof (cases "\<exists>e. earliest = Some e \<and> e \<noteq> [] \<and> str_less e (dayText b)")
      case True
      then obtain e where e: "earliest = Some e" "e \<noteq> []" "str_less e (dayText b)" by blast
      then obtain d where d: "lo \<le> d" "d \<le> hi" "e = dayText d" using early by blast
      have "four_digit_year d" using d by (intro four) simp_all
      with e d have "d \<le> b" using str_less_days [OF _ fb] by simp
      then show thesis using that [of d] e d \<open>four_digit_year d\<close> by simp
    next
      case False
      then have "(case earliest of Some e \<Rightarrow> if e \<noteq> [] \<and> str_less e (dayText b) then e else dayText b
          | None \<Rightarrow> dayText b) = dayText b"
        by (cases earliest) auto
      then show thesis using that [of b] b fb by simp
    qed
    show ?thesis unfolding w rangeWindow_def if_P [OF True] a(4) Let_def
      by (rule exI [of _ a], rule exI [of _ b]) (use a b(2) fb in \<open>simp add: daysBetween_dayText\<close>)
  next
    case False
    have n: "1 \<le> range_days rg'" "range_days rg' \<le> 90" using False by (cases rg'; simp)+
    show ?thesis unfolding w rangeWindow_def if_not_P [OF False] shiftDay_dayText [OF fb]
      by (rule exI [of _ "b - (range_days rg' - 1)"], rule exI [of _ b]) (use n b in \<open>simp add: algebra_simps\<close>)
  qed
qed

section \<open>The report\<close>

lemma averagePaisa_returns:
  assumes "0 \<le> paisa" "paisa \<le> MAX_SAFE_INTEGER" "0 \<le> n"
  shows "\<exists>v. averagePaisa paisa n = Inr v"
proof (cases "n = 0")
  case True
  then show ?thesis using assms by (simp add: averagePaisa_def assertValidPaisa_def)
next
  case False
  then have n: "1 \<le> n" using assms(3) by simp
  have "paisa * 1 \<le> paisa * n" using assms(1) n by (intro mult_left_mono) simp_all
  then have "2 * paisa + n < (2 * n) * (paisa + 1)" using n by (simp add: algebra_simps)
  moreover have "(2 * n) * round_div paisa n \<le> 2 * paisa + n"
    unfolding round_div_def using n by (intro div_bounds) simp
  ultimately have "(2 * n) * round_div paisa n < (2 * n) * (paisa + 1)" by linarith
  then have "round_div paisa n < paisa + 1" using n by simp
  moreover have "0 \<le> round_div paisa n" using assms(1) n by (simp add: round_div_def pos_imp_zdiv_nonneg_iff)
  ultimately show ?thesis using assms n by (simp add: averagePaisa_def assertValidPaisa_def Let_def)
qed

lemma sales_signs:
  assumes "db_ok s"
  shows "0 \<le> sum_list (map o_totalPaisa (sales e s))" "0 \<le> sum_list (map o_quantity (sales e s))"
  using orders_ok(4,7) [OF db_ok_orders [OF assms]] unfolding sales_def
  by (intro sum_list_nonneg; force)+

lemma dailySales_rows:
  assumes "\<And>t. t \<in> set (report_instants now event s) \<Longrightarrow> dhaka t = dayText (dd t) \<and> ok (dd t)"
  shows "daily_rows ok (dailySales dhaka e s)"
  unfolding daily_rows_def
proof (intro conjI ballI dailySales_days)
  fix r assume "r \<in> set (dailySales dhaka e s)"
  then obtain x where x: "x \<in> set (orderEvents s)" "dy_day r = dhaka (oe_createdAt x)"
    using dailySales_day_of by metis
  then have "oe_createdAt x \<in> set (report_instants now event s)" by (simp add: report_instants_def)
  from assms [OF this] x(2) show "\<exists>d. ok d \<and> dy_day r = dayText d" by auto
qed

lemma salesReport_returns:
  assumes ok: "db_ok s" and event: "event_findById e s = Some event"
    and known: "\<forall>t \<in> set (report_instants now event s). dhaka t = dayText (dd t) \<and> lo \<le> dd t \<and> dd t \<le> hi"
    and years: "\<forall>d \<in> {lo - 90..hi + 1}. four_digit_year d"
    and fuel: "nat (hi - lo) + 90 < fuel"
    and money: "sum_list (map o_totalPaisa (sales e s)) \<le> MAX_SAFE_INTEGER"
  shows "\<exists>rp a b daily cumulative.
    salesReport dhaka label clock median fuel now e rg s = Some (Inr rp) \<and>
    rw_from (rp_window rp) = dayText a \<and> rw_to (rp_window rp) = dayText b \<and> a \<le> b \<and> b \<le> hi \<and>
    dailySeries label fuel (dailySales dhaka e s) (rp_window rp) = Some (Inr (rp_daily rp)) \<and>
    cumulativeSeries label fuel (dailySales dhaka e s) (rp_window rp) = Some (Inr (rp_cumulative rp)) \<and>
    rp_current rp = periodTotals (dailySales dhaka e s) (dayText a) (dayText b) \<and>
    rp_revenuePaisa rp = sum_list (map o_totalPaisa (sales e s)) \<and>
    rp_revenueOrders rp = int (length (sales e s)) \<and> lo - 89 \<le> a"
proof -
  let ?rows = "dailySales dhaka e s"
  have days: "\<And>t. t \<in> set (report_instants now event s) \<Longrightarrow> dhaka t = dayText (dd t) \<and> lo \<le> dd t \<and> dd t \<le> hi"
    and four: "\<And>d. lo - 90 \<le> d \<Longrightarrow> d \<le> hi + 1 \<Longrightarrow> four_digit_year d"
    using known years by simp_all
  obtain a b w where w: "report_window_of dhaka event ?rows rg now = Inr w" "rw_from w = dayText a" "rw_to w = dayText b"
    "lo - 89 \<le> a" "a \<le> b" "b \<le> hi" "rw_days w = Some (b - a + 1)"
    using some_window [where dhaka = dhaka and rg = rg and rows = ?rows, OF days four refl] by metis
  have fd: "\<And>d. a \<le> d \<Longrightarrow> d \<le> b + 1 \<Longrightarrow> four_digit_year d" using four w(4,6) by simp
  have fuel': "nat (b + 1 - a) < fuel" using fuel w(4-6) by linarith
  have rows: "daily_rows four_digit_year ?rows"
  proof (rule dailySales_rows)
    fix t assume "t \<in> set (report_instants now event s)"
    from days [OF this] show "dhaka t = dayText (dd t) \<and> four_digit_year (dd t)" using four by simp
  qed
  obtain daily where daily: "dailySeries label fuel ?rows w = Some (Inr daily)"
    using dailySeries_returns [OF rows w(5) fd w(2,3) fuel'] by metis
  obtain cumulative where cumulative: "cumulativeSeries label fuel ?rows w = Some (Inr cumulative)"
    using cumulativeSeries_returns [OF rows w(5) fd w(2,3) fuel'] by metis
  have "four_digit_year a" using fd w(5) by simp
  then obtain prior where prior: "prior_period ?rows w = Inr prior"
    by (cases "rw_range w = AllTime") (simp_all add: prior_period_def w(2,7) shiftDay_dayText)
  have now: "dhaka now = dayText (dd now)" "four_digit_year (dd now)"
    using days [of now] four [of "dd now"] by (simp_all add: report_instants_def)
  define f where "f = funnel_of (withoutComps (totalsByStatus (no_filter\<lparr>of_eventId := Some e\<rparr>) s))"
  have f: "pm_paisa (fu_verifiedMoney f) = sum_list (map o_totalPaisa (sales e s))"
    "pm_count (fu_verifiedMoney f) = int (length (sales e s))"
    using funnel_verified [OF ok, of e] by (simp_all add: f_def of_event_def)
  obtain avg where avg: "averagePaisa (pm_paisa (fu_verifiedMoney f)) (oz_tickets (orderSizeStats (orderSizes e s))) = Inr avg"
    using averagePaisa_returns [OF sales_signs(1) [OF ok] money sales_signs(2) [OF ok]]
    unfolding f orderSizes_stats(2) [OF ok] by blast
  obtain rp where rp: "salesReport dhaka label clock median fuel now e rg s = Some (Inr rp)"
    "rp_window rp = w" "rp_daily rp = daily" "rp_cumulative rp = cumulative"
    "rp_current rp = periodTotals ?rows (rw_from w) (rw_to w)"
    "rp_revenuePaisa rp = pm_paisa (fu_verifiedMoney f)" "rp_revenueOrders rp = pm_count (fu_verifiedMoney f)"
    unfolding salesReport_def event Let_def w(1) daily cumulative prior f_def [symmetric] avg
      now(1) shiftDay_dayText [OF now(2)] option.case sum.case prod.case bindE_simps
    by (simp add: f_def)
  show ?thesis using rp w(2-6) daily cumulative f by auto
qed

end
