(* ===== verification/DeskClaims.thy ===== *)
theory DeskClaims
  imports ReportLaws Samples
begin

text \<open>
  The guarantees of the admin desk: the figures of every page agree, the sales report returns,
  the pages of the orders list hold every match once, and a buyer finds the order again.
\<close>

section \<open>A store with a sale\<close>

text \<open>Order 102 was approved on day 3, and has a printed reference and a mobile number.\<close>

definition SOLD_DB :: db where
  "SOLD_DB = SAMPLE_DB
    \<lparr>orders := update_rows (\<lambda>r. o_id r = 102)
       (\<lambda>r. r\<lparr>o_reference := lit ''EA-7K3M9Q'', o_buyerPhone := Some (lit ''+8801712345678'')\<rparr>) (orders SAMPLE_DB),
     orderEvents := map (\<lambda>e. if oe_orderId e = 102 \<and> oe_toStatus e = Some Paid
       then e\<lparr>oe_action := lit ''payment.approved'', oe_createdAt := 259200000\<rparr> else e) SAMPLE_TRAIL\<rparr>"

lemma SOLD_DB_ok: "db_ok SOLD_DB"
  by code_simp

lemma SOLD_DB_dated: "dated SOLD_DB"
proof -
  have "list_all (\<lambda>r. approvals SOLD_DB (o_id r) = (if paid_for r then 1 else 0)) (orders SOLD_DB)" by code_simp
  then show ?thesis by (simp add: dated_def SOLD_DB_ok list_all_iff)
qed

lemma EMPTY_DB_dated: "dated EMPTY_DB"
  unfolding dated_def db_ok_def by (simp add: EMPTY_DB_def violation_defs violation_None)

section \<open>The figures\<close>

text \<open>C33: The figures agree on every page. Whatever calls ran since the database was empty (or since
  any store where each paid-for order has its one approval row), the money, the orders and the
  tickets an event sold are the same numbers, the sums over its paid and issued orders of
  buyers, however they are read: added over the days of the report (no day twice), by the
  status of the orders in its funnel, by the sizes of the orders, in the row of the events
  overview, on the dashboard, in the summary above the orders list, and, where every order's
  ticket type belongs to the order's event, over the ticket types.\<close>

theorem sales_agree:
  assumes "run s0 s" "dated s0"
  shows "dated EMPTY_DB \<and> distinct (map dy_day (dailySales dhaka e s)) \<and>
    sum_list (map dy_orders (dailySales dhaka e s)) = int (length (sales e s)) \<and>
    sum_list (map dy_tickets (dailySales dhaka e s)) = sum_list (map o_quantity (sales e s)) \<and>
    sum_list (map dy_paisa (dailySales dhaka e s)) = sum_list (map o_totalPaisa (sales e s)) \<and>
    fu_verifiedMoney (funnel_of (withoutComps (totalsByStatus (of_event e) s))) =
      \<lparr>pm_count = int (length (sales e s)), pm_paisa = sum_list (map o_totalPaisa (sales e s))\<rparr> \<and>
    oz_orders (orderSizeStats (orderSizes e s)) = int (length (sales e s)) \<and>
    oz_tickets (orderSizeStats (orderSizes e s)) = sum_list (map o_quantity (sales e s)) \<and>
    (\<forall>w \<in> set (overview s). e_id (ew_event w) = e \<longrightarrow>
      ew_revenuePaisa w = sum_list (map o_totalPaisa (sales e s)) \<and> ew_revenueOrders w = int (length (sales e s))) \<and>
    (case revenue_by_event (totalsByEventAndStatus s) e of Some n \<Rightarrow> n | None \<Rightarrow> 0) =
      sum_list (map o_totalPaisa (sales e s)) \<and>
    os_revenuePaisa (summariseTotals (totalsByStatus (of_event e) s)) = sum_list (map o_totalPaisa (sales e s)) \<and>
    os_revenueCount (summariseTotals (totalsByStatus (of_event e) s)) = int (length (sales e s)) \<and>
    ((\<forall>r \<in> set (orders s). \<forall>t \<in> set (ticketTypes s). tt_id t = o_ticketTypeId r \<longrightarrow> tt_eventId t = o_eventId r) \<longrightarrow>
      sum_list (map ts_revenuePaisa (salesByTicketType e s)) = sum_list (map o_totalPaisa (sales e s)) \<and>
      sum_list (map ts_orderCount (salesByTicketType e s)) = int (length (sales e s)))"
proof -
  have d: "dated s" by (rule dates.run_keeps [OF assms])
  note ok = datedD [OF d]
  have "sum_list (map dy_orders (dailySales dhaka e s)) = sum_list (map (\<lambda>_. 1) (sales e s))"
    "sum_list (map dy_tickets (dailySales dhaka e s)) = sum_list (map o_quantity (sales e s))"
    "sum_list (map dy_paisa (dailySales dhaka e s)) = sum_list (map o_totalPaisa (sales e s))"
    by (rule dailySales_sum [OF d]; simp add: day_row_def case_prod_unfold length_sum)+
  then show ?thesis
    using EMPTY_DB_dated dailySales_days funnel_verified [OF ok] orderSizes_stats [OF ok] overview_figures
      dashboard_revenue orders_page_figures [OF ok] types_figures [OF ok]
    by (auto simp: length_sum)
qed

theorem sales_agree_witness:
  "\<exists>s. run SOLD_DB s \<and> sum_list (map dy_paisa (dailySales (\<lambda>t. dayText (t div DAY_MS)) 1 s)) = 40 \<and>
    sum_list (map ts_revenuePaisa (salesByTicketType 1 s)) = 40 \<and>
    pm_paisa (fu_verifiedMoney (funnel_of (withoutComps (totalsByStatus (of_event 1) s)))) = 40"
proof (intro exI [of _ SOLD_DB] conjI)
  show r: "run SOLD_DB SOLD_DB" by (rule run_refl)
  note c = sales_agree [OF r SOLD_DB_dated, of "\<lambda>t. dayText (t div DAY_MS)" 1]
  have n: "sum_list (map o_totalPaisa (sales 1 SOLD_DB)) = 40" by code_simp
  have "list_all (\<lambda>r. list_all (\<lambda>t. tt_id t = o_ticketTypeId r \<longrightarrow> tt_eventId t = o_eventId r) (ticketTypes SOLD_DB))
      (orders SOLD_DB)" by code_simp
  then show "sum_list (map ts_revenuePaisa (salesByTicketType 1 SOLD_DB)) = 40"
    using c n by (simp add: list_all_iff)
  show "sum_list (map dy_paisa (dailySales (\<lambda>t. dayText (t div DAY_MS)) 1 SOLD_DB)) = 40"
    "pm_paisa (fu_verifiedMoney (funnel_of (withoutComps (totalsByStatus (of_event 1) SOLD_DB)))) = 40"
    using c n by simp_all
qed

section \<open>The report\<close>

text \<open>C34: The sales report of an event always comes back, and its series leave out nothing. When the
  moments in the store have Dhaka days of four-digit years and the money is a safe integer, the
  report of any range returns: its window runs from a day to a day not before it, the daily
  and the running series have exactly the days of the window, each once and in order, the bars
  add up to the totals of the period, and each value of the running series is everything sold
  up to its day; its revenue is what the event sold.\<close>

theorem sales_report_returns:
  assumes "run s0 s" "dated s0" "event_findById e s = Some event"
    and "\<forall>t \<in> set (report_instants now event s). dhaka t = dayText (dd t) \<and> lo \<le> dd t \<and> dd t \<le> hi"
    and "\<forall>d \<in> {lo - 90..hi + 1}. four_digit_year d" "nat (hi - lo) + 90 < fuel"
    and "sum_list (map o_totalPaisa (sales e s)) \<le> MAX_SAFE_INTEGER"
  shows "\<exists>rp a b. salesReport dhaka label clock median fuel now e rg s = Some (Inr rp) \<and>
    rw_from (rp_window rp) = dayText a \<and> rw_to (rp_window rp) = dayText b \<and> a \<le> b \<and> b \<le> hi \<and>
    map pt_day (sr_points (rp_daily rp)) = map dayText [a..b] \<and>
    map cp_day (cu_points (rp_cumulative rp)) = map dayText [a..b] \<and>
    rp_current rp = \<lparr>pe_orders = sum_list (map pt_orders (sr_points (rp_daily rp))),
      pe_tickets = sum_list (map pt_tickets (sr_points (rp_daily rp))),
      pe_paisa = sum_list (map pt_paisa (sr_points (rp_daily rp)))\<rparr> \<and>
    (\<forall>x \<in> set (cu_points (rp_cumulative rp)). cp_cumulative x =
      sum_list (map dy_tickets (filter (\<lambda>r. str_le (dy_day r) (cp_day x)) (dailySales dhaka e s)))) \<and>
    rp_revenuePaisa rp = sum_list (map o_totalPaisa (sales e s)) \<and>
    rp_revenueOrders rp = int (length (sales e s))"
proof -
  let ?rows = "dailySales dhaka e s"
  have ok: "db_ok s" by (rule datedD [OF dates.run_keeps [OF assms(1,2)]])
  have days: "dhaka t = dayText (dd t) \<and> lo \<le> dd t \<and> dd t \<le> hi" if "t \<in> set (report_instants now event s)" for t
    using assms(4) that by blast
  have four: "four_digit_year d" if "lo - 90 \<le> d" "d \<le> hi + 1" for d using assms(5) that by simp
  obtain rp a b where rp: "salesReport dhaka label clock median fuel now e rg s = Some (Inr rp)"
    "rw_from (rp_window rp) = dayText a" "rw_to (rp_window rp) = dayText b" "a \<le> b" "b \<le> hi" "lo - 89 \<le> a"
    "dailySeries label fuel ?rows (rp_window rp) = Some (Inr (rp_daily rp))"
    "cumulativeSeries label fuel ?rows (rp_window rp) = Some (Inr (rp_cumulative rp))"
    "rp_current rp = periodTotals ?rows (dayText a) (dayText b)"
    "rp_revenuePaisa rp = sum_list (map o_totalPaisa (sales e s))" "rp_revenueOrders rp = int (length (sales e s))"
    using salesReport_returns [OF ok assms(3-7)] by metis
  have rows: "daily_rows four_digit_year ?rows"
    by (rule dailySales_rows [where now = now and event = event and dd = dd]) (use days four in force)
  have fd: "four_digit_year d" if "a \<le> d" "d \<le> b + 1" for d using four that rp(5,6) by simp
  have fuel: "nat (b + 1 - a) < fuel" using assms(6) rp(4-6) by linarith
  note daily = dailySeries_returns [OF rows rp(4) fd rp(2,3) fuel, of label]
  note running = cumulativeSeries_returns [OF rows rp(4) fd rp(2,3) fuel, of label]
  show ?thesis
    using rp daily running by (intro exI [of _ rp] exI [of _ a] exI [of _ b]) auto
qed

theorem sales_report_returns_witness:
  "\<exists>rp. salesReport (\<lambda>t. dayText (t div DAY_MS)) id (\<lambda>_. (0, 0)) (\<lambda>_. None) 121 864000000 1 (Some Last30) SOLD_DB =
      Some (Inr rp) \<and> rp_revenuePaisa rp = 40"
proof -
  let ?dhaka = "\<lambda>t. dayText (t div DAY_MS)"
  have "list_all (\<lambda>t. 0 \<le> t div DAY_MS \<and> t div DAY_MS \<le> 30) (report_instants 864000000 SAMPLE_EVENT SOLD_DB)"
    by code_simp
  then have known: "\<forall>t \<in> set (report_instants 864000000 SAMPLE_EVENT SOLD_DB).
      ?dhaka t = dayText (t div DAY_MS) \<and> 0 \<le> t div DAY_MS \<and> t div DAY_MS \<le> 30"
    by (simp add: list_all_iff)
  have "list_all four_digit_year [- 90..31]" by code_simp
  then have years: "\<forall>d \<in> {0 - 90..30 + 1}. four_digit_year d" unfolding list_all_iff set_upto by simp
  have event: "event_findById 1 SOLD_DB = Some SAMPLE_EVENT" by code_simp
  have n: "sum_list (map o_totalPaisa (sales 1 SOLD_DB)) = 40" by code_simp
  then have money: "sum_list (map o_totalPaisa (sales 1 SOLD_DB)) \<le> MAX_SAFE_INTEGER"
    by (simp add: MAX_SAFE_INTEGER_def)
  have "nat (30 - 0) + 90 < (121 :: nat)" by simp
  from sales_report_returns [OF run_refl SOLD_DB_dated event known years this money] show ?thesis
    unfolding n by blast
qed

section \<open>The orders list\<close>

definition page_size :: "orders_search_input \<Rightarrow> nat" where
  "page_size inp = (case si_size inp of Some n \<Rightarrow> n | None \<Rightarrow> ORDERS_PAGE_SIZE)"

lemma searchOrders_page:
  fixes rank tf inp s
  defines "found \<equiv> found_orders rank (tf inp) (si_sort inp) s"
    and "pages \<equiv> max 1 ((length (filter (searchWhere (tf inp)) (orders s)) + page_size inp - 1) div page_size inp)"
  shows "map fst (or_rows (searchOrders rank tf s inp s)) =
      take (page_size inp) (drop ((min (si_page inp) pages - 1) * page_size inp) found)"
    "or_total (searchOrders rank tf s inp s) = length (filter (searchWhere (tf inp)) (orders s))"
    "or_page (searchOrders rank tf s inp s) = min (si_page inp) pages"
    "or_pages (searchOrders rank tf s inp s) = pages"
  unfolding searchOrders_def Let_def page_size_def [symmetric] orders_search_page pages_def found_def
  by (auto simp: comp_def min_def)

text \<open>C35: The pages of the orders list hold every match. On an accepted store, with a page size above
  zero, the pages 1 to the number of pages put together are every order that matches the filter,
  each exactly once, in the chosen order; the total is how many there are; a page past the end
  shows the last one, and no page that is shown is empty while anything matches. A text typed
  for the email is found wherever it stands, in any case, its percent signs, underscores and
  backslashes taken as they are.\<close>

theorem order_pages_complete:
  fixes lower midnight add_day
  defines "tf \<equiv> toSearchFilter lower midnight add_day"
  assumes "db_ok s" "0 < page_size inp"
  shows "concat (map (\<lambda>k. map fst (or_rows (searchOrders rank tf s (inp\<lparr>si_page := Suc k\<rparr>) s)))
      [0..<or_pages (searchOrders rank tf s inp s)]) = found_orders rank (tf inp) (si_sort inp) s \<and>
    mset (map qr_order (found_orders rank (tf inp) (si_sort inp) s)) = mset (filter (searchWhere (tf inp)) (orders s)) \<and>
    distinct (map (\<lambda>q. o_id (qr_order q)) (found_orders rank (tf inp) (si_sort inp) s)) \<and>
    sorted (map (\<lambda>q. (if os_desc (si_sort inp) then - 1 else 1) *
      sort_value rank (os_column (si_sort inp)) (qr_order q)) (found_orders rank (tf inp) (si_sort inp) s)) \<and>
    or_total (searchOrders rank tf s inp s) = length (filter (searchWhere (tf inp)) (orders s)) \<and>
    or_page (searchOrders rank tf s inp s) = min (si_page inp) (or_pages (searchOrders rank tf s inp s)) \<and>
    (1 \<le> si_page inp \<and> 0 < or_total (searchOrders rank tf s inp s) \<longrightarrow> or_rows (searchOrders rank tf s inp s) \<noteq> []) \<and>
    (\<forall>r text. ilike (o_buyerEmail r) ([37] @ escapeLike text @ [37]) \<longleftrightarrow>
      includes_text (pg_lower (o_buyerEmail r)) (pg_lower text))"
proof -
  let ?n = "page_size inp"
  let ?found = "found_orders rank (tf inp) (si_sort inp) s"
  define pages where "pages = or_pages (searchOrders rank tf s inp s)"
  have tf: "tf (inp\<lparr>si_page := k\<rparr>) = tf inp" for k by (simp add: tf_def toSearchFilter_def)
  have size: "page_size (inp\<lparr>si_page := k\<rparr>) = ?n" for k by (simp add: page_size_def)
  note all = found_orders_all [OF assms(2), of rank "tf inp" "si_sort inp"]
  have p: "pages = max 1 ((length ?found + ?n - 1) div ?n)" by (simp add: pages_def searchOrders_page(4) all(3))
  have "map fst (or_rows (searchOrders rank tf s (inp\<lparr>si_page := Suc k\<rparr>) s)) = take ?n (drop (k * ?n) ?found)"
    if "k < pages" for k
    using that unfolding searchOrders_page(1) tf size orders_search_input.simps p all(3) [symmetric] by (simp add: min_def)
  then have "concat (map (\<lambda>k. map fst (or_rows (searchOrders rank tf s (inp\<lparr>si_page := Suc k\<rparr>) s))) [0..<pages]) =
      concat (map (\<lambda>k. take ?n (drop (k * ?n) ?found)) [0..<pages])"
    by (intro arg_cong [where f = concat] map_cong refl) simp
  also have "\<dots> = ?found" unfolding concat_pages p using enough_pages(1) [OF assms(3), of "length ?found"] by simp
  finally have pages_all: "concat (map (\<lambda>k. map fst (or_rows (searchOrders rank tf s (inp\<lparr>si_page := Suc k\<rparr>) s))) [0..<pages]) = ?found" .
  have rows: "or_rows (searchOrders rank tf s inp s) \<noteq> []"
    if "1 \<le> si_page inp" "0 < or_total (searchOrders rank tf s inp s)"
  proof -
    have "0 < length ?found" using that(2) by (simp add: searchOrders_page(2) all(3))
    then have "(pages - 1) * ?n < length ?found" unfolding p by (rule enough_pages(2) [OF assms(3)])
    moreover have "(min (si_page inp) pages - 1) * ?n \<le> (pages - 1) * ?n" by (intro mult_le_mono1 diff_le_mono) simp
    ultimately have "(min (si_page inp) pages - 1) * ?n < length ?found" by (rule le_less_trans [rotated])
    then have "map fst (or_rows (searchOrders rank tf s inp s)) \<noteq> []"
      unfolding searchOrders_page(1) all(3) [symmetric] p [symmetric] using assms(3) by simp
    then show ?thesis by simp
  qed
  have "sorted (map (\<lambda>q. (if os_desc (si_sort inp) then - 1 else 1) *
      sort_value rank (os_column (si_sort inp)) (qr_order q)) ?found)"
    unfolding found_orders_def sortOrder_def by (rule sorted_sort_key)
  then show ?thesis
    using pages_all rows all(1,2) ilike_contains searchOrders_page(2,3) [of rank tf s inp]
    unfolding pages_def [symmetric] searchOrders_page(4) [of rank tf s inp, symmetric] by simp
qed

text \<open>Two orders per page.\<close>

definition PAGED_INPUT :: orders_search_input where
  "PAGED_INPUT = \<lparr>si_q = [], si_status = None, si_event = Some 1, si_from = None, si_to = None, si_page = 7,
    si_sort = \<lparr>os_column = ByTotal, os_desc = True\<rparr>, si_size = Some 2\<rparr>"

theorem order_pages_complete_witness:
  "or_page (searchOrders (\<lambda>_. 0) (toSearchFilter id (\<lambda>_. 0) id) SOLD_DB PAGED_INPUT SOLD_DB) = 2 \<and>
   or_rows (searchOrders (\<lambda>_. 0) (toSearchFilter id (\<lambda>_. 0) id) SOLD_DB PAGED_INPUT SOLD_DB) \<noteq> []"
proof -
  have n: "0 < page_size PAGED_INPUT" "1 \<le> si_page PAGED_INPUT" "si_page PAGED_INPUT = 7"
    by (simp_all add: page_size_def PAGED_INPUT_def)
  let ?r = "searchOrders (\<lambda>_. 0) (toSearchFilter id (\<lambda>_. 0) id) SOLD_DB PAGED_INPUT SOLD_DB"
  have e: "or_pages ?r = 2" "or_total ?r = 4" by code_simp+
  note c = order_pages_complete [OF SOLD_DB_ok n(1), of "\<lambda>_. 0" id "\<lambda>_. 0" id]
  have "or_page ?r = min (si_page PAGED_INPUT) (or_pages ?r)" using c by blast
  then have "or_page ?r = 2" unfolding e n(3) by simp
  moreover have "0 < or_total ?r" unfolding e by simp
  then have "or_rows ?r \<noteq> []" using c n(2) by blast
  ultimately show ?thesis by blast
qed

section \<open>Finding an order again\<close>

lemma settled_reference:
  assumes "ORDER_REFERENCE_PATTERN r"
  shows "settled r = r"
proof -
  obtain b where b: "r = ORDER_REFERENCE_PREFIX @ b" "code_symbols 6 b" by (rule reference_split [OF assms])
  have "c < 97 \<and> \<not> is_space c" if "c \<in> set r" for c
    using that code_symbols_plain(1,2) [OF b(2)] unfolding b(1) ORDER_REFERENCE_PREFIX_def
    by (auto simp: is_space_def)
  note u = this
  have "normaliseDigits r = r" by (rule normaliseDigits_plain) (use u in \<open>force simp: plain_unit_def\<close>)
  moreover have "trim r = r" by (rule trim_plain) (use u in blast)
  moreover have "toUpperCase r = r" by (rule toUpperCase_small) (use u in blast)
  ultimately show ?thesis by (simp add: settled_def)
qed

text \<open>C36: A buyer finds the order again. Typed in any of the accepted forms - the reference with its
  prefix, with the prefix but no dash, or bare, in any case and digit set and with spaces around
  it; the number with a plus, with 880, with a zero or bare, with spaces and dashes anywhere -
  the form settles on the stored reference and number, the service returns that very order,
  and the same text in the orders search of the desk matches it. Another number finds nothing.
  A bare reference whose body itself starts with EA is refused.\<close>

theorem order_found_again:
  assumes "db_ok s" "r \<in> set (orders s)" "ORDER_REFERENCE_PATTERN (o_reference r)"
    and "o_buyerPhone r = Some (BD_MOBILE_PREFIX @ d)" "BD_MOBILE_PATTERN d"
    and "mobile_digits phone \<in> {d, lit ''0'' @ d, lit ''880'' @ d, lit ''+880'' @ d}"
    and "settled text \<in> {o_reference r, lit ''EA'' @ drop 3 (o_reference r), drop 3 (o_reference r)}"
  shows "(if settled text = drop 3 (o_reference r) \<and> take 2 (drop 3 (o_reference r)) = lit ''EA''
    then findOrderForm text phone = None
    else findOrderForm text phone = Some (o_reference r, BD_MOBILE_PREFIX @ d) \<and>
      findByReferenceAndPhone (o_reference r) (BD_MOBILE_PREFIX @ d) s = Some r \<and>
      searchWhere (no_filter\<lparr>of_term := Some (normaliseSearchTerm lower text)\<rparr>) r) \<and>
    (\<forall>other. other \<noteq> BD_MOBILE_PREFIX @ d \<longrightarrow> findByReferenceAndPhone (o_reference r) other s = None)"
proof -
  have phone: "bdMobile phone = Some (BD_MOBILE_PREFIX @ d)" by (rule bdMobile_forms [OF assms(5,6)])
  have "row_by o_reference (o_reference r) (orders s) = Some r"
    using assms(2) by (simp add: row_by_unique [OF orders_ok(2) [OF db_ok_orders [OF assms(1)]]])
  then have find: "findByReferenceAndPhone (o_reference r) p s = (if p = BD_MOBILE_PREFIX @ d then Some r else None)" for p
    using settled_reference [OF assms(3)] assms(4)
    by (auto simp: findByReferenceAndPhone_def order_findByReference_def settled_def)
  show ?thesis
  proof (cases "settled text = drop 3 (o_reference r) \<and> take 2 (drop 3 (o_reference r)) = lit ''EA''")
    case True
    then show ?thesis using referenceField_bare [OF assms(3)] find by (simp add: findOrderForm_def)
  next
    case False
    then have ref: "referenceField text = Some (o_reference r)"
      using assms(7) by (intro referenceField_forms [OF assms(3)]) auto
    have ne: "o_reference r \<noteq> []" "settled text \<noteq> []"
      using assms(3,7) by (auto simp: ORDER_REFERENCE_PATTERN_def ORDER_REFERENCE_PREFIX_def code_symbols_def)
    have "term_matches (normaliseSearchTerm lower text) r"
      using settled_search [OF ne(2), of lower] ref ne(1) by (simp add: term_matches_def falsy_def)
    then show ?thesis
      using False ref phone find by (auto simp: findOrderForm_def searchWhere_def no_filter_def)
  qed
qed

theorem order_found_again_witness:
  "findOrderForm (lit '' ea7k3m9q'') (lit ''01712-345678'') = Some (lit ''EA-7K3M9Q'', lit ''+8801712345678'') \<and>
   findByReferenceAndPhone (lit ''EA-7K3M9Q'') (lit ''+8801712345678'') SOLD_DB \<noteq> None"
proof -
  have e: "\<exists>r \<in> set (orders SOLD_DB). o_reference r = lit ''EA-7K3M9Q'' \<and> o_buyerPhone r = Some (lit ''+8801712345678'')"
    by code_simp
  then obtain r where r: "r \<in> set (orders SOLD_DB)" "o_reference r = lit ''EA-7K3M9Q''"
    "o_buyerPhone r = Some (BD_MOBILE_PREFIX @ lit ''1712345678'')"
    by (auto simp: BD_MOBILE_PREFIX_def)
  have p: "ORDER_REFERENCE_PATTERN (o_reference r)" unfolding r(2) by code_simp
  have d: "BD_MOBILE_PATTERN (lit ''1712345678'')" by code_simp
  have m: "mobile_digits (lit ''01712-345678'') = lit ''0'' @ lit ''1712345678''" by code_simp
  have t: "settled (lit '' ea7k3m9q'') = lit ''EA7K3M9Q''" by code_simp
  have s: "settled (lit '' ea7k3m9q'') \<in> {o_reference r, lit ''EA'' @ drop 3 (o_reference r), drop 3 (o_reference r)}"
    unfolding t r(2) by simp
  have "mobile_digits (lit ''01712-345678'') \<in> {lit ''1712345678'', lit ''0'' @ lit ''1712345678'',
      lit ''880'' @ lit ''1712345678'', lit ''+880'' @ lit ''1712345678''}"
    unfolding m by simp
  from order_found_again [OF SOLD_DB_ok r(1) p r(3) d this s]
  show ?thesis unfolding t r(2) by (simp add: BD_MOBILE_PREFIX_def)
qed

end
