(* ===== verification/LogoText.thy ===== *)
theory LogoText
  imports ScanTokens
begin

text \<open>
  How \<open>src/src/server/lib/sponsor-logo.ts\<close> reads the text of an SVG: names, character references,
  style sheets and the numbers of a view box. A rejection is \<open>Inl\<close> of its reason. \<open>lower\<close> is
  \<open>toLowerCase\<close>.
\<close>

section \<open>Reasons\<close>

datatype logo_reason =
  LogoType | LogoEmpty | LogoSize | LogoPng | LogoCgbi | LogoPngSize | LogoSvgz | LogoUtf8
| LogoChars | LogoMalformed | LogoDoctype | LogoEntity | LogoStylesheet | LogoNotSvg | LogoXmlns
| LogoNamespace | LogoNoViewBox | LogoBadViewBox | LogoShape | LogoHtml | LogoHandler
| LogoScriptLink | LogoLink | LogoCss | LogoElement jstr

definition elementReason :: "jstr \<Rightarrow> logo_reason" where
  "elementReason name = LogoElement (take 40 name)"

definition demand :: "bool \<Rightarrow> 'e \<Rightarrow> 'e + unit" where
  "demand b e = (if b then Inr () else Inl e)"

section \<open>Searching\<close>

text \<open>What stands before and after the first occurrence of \<open>p\<close> (\<open>indexOf\<close>).\<close>

fun split_at :: "jstr \<Rightarrow> jstr \<Rightarrow> (jstr \<times> jstr) option" where
  "split_at p [] = (if p = [] then Some ([], []) else None)"
| "split_at p (c # s) =
    (if take (length p) (c # s) = p then Some ([], drop (length p) (c # s))
     else map_option (\<lambda>(a, b). (c # a, b)) (split_at p s))"

text \<open>Whether a pattern matches at some position.\<close>

fun somewhere :: "(jstr \<Rightarrow> bool) \<Rightarrow> jstr \<Rightarrow> bool" where
  "somewhere P [] = P []"
| "somewhere P (c # s) = (P (c # s) \<or> somewhere P s)"

definition begins :: "jstr \<Rightarrow> jstr \<Rightarrow> bool" where
  "begins p s \<longleftrightarrow> take (length p) s = p"

section \<open>Names\<close>

definition xml_space :: "nat \<Rightarrow> bool" where
  "xml_space c \<longleftrightarrow> c = 32 \<or> c = 9 \<or> c = 10 \<or> c = 13"

definition skipSpace :: "jstr \<Rightarrow> jstr" where
  "skipSpace s = dropWhile xml_space s"

definition name_start :: "nat \<Rightarrow> bool" where
  "name_start c \<longleftrightarrow> is_upper c \<or> is_lower c \<or> c = 95"

definition name_char :: "nat \<Rightarrow> bool" where
  "name_char c \<longleftrightarrow> name_start c \<or> is_digit c \<or> c = 46 \<or> c = 45"

text \<open>A name without a colon at the start of the text, and the rest.\<close>

definition plain_name :: "jstr \<Rightarrow> (jstr \<times> jstr) option" where
  "plain_name s =
    (case s of
       [] \<Rightarrow> None
     | c # t \<Rightarrow> if name_start c then Some (c # takeWhile name_char t, dropWhile name_char t) else None)"

definition readName :: "jstr \<Rightarrow> (jstr \<times> jstr) option" where
  "readName s =
    (case plain_name s of
       None \<Rightarrow> None
     | Some (a, r) \<Rightarrow>
         (case r of
            c # t \<Rightarrow>
              if c = 58 then
                (case plain_name t of None \<Rightarrow> Some (a, r) | Some (b, r') \<Rightarrow> Some (a @ 58 # b, r'))
              else Some (a, r)
          | [] \<Rightarrow> Some (a, r)))"

definition splitName :: "jstr \<Rightarrow> jstr \<times> jstr" where
  "splitName q =
    (if 58 \<in> set q then (takeWhile (\<lambda>c. c \<noteq> 58) q, drop 1 (dropWhile (\<lambda>c. c \<noteq> 58) q)) else ([], q))"

section \<open>Character references\<close>

definition is_hex :: "nat \<Rightarrow> bool" where
  "is_hex c \<longleftrightarrow> is_digit c \<or> (65 \<le> c \<and> c \<le> 70) \<or> (97 \<le> c \<and> c \<le> 102)"

definition hex_value :: "nat \<Rightarrow> nat" where
  "hex_value c = (if is_digit c then c - 48 else if c \<le> 70 then c - 55 else c - 87)"

definition read_hex :: "jstr \<Rightarrow> nat" where
  "read_hex s = foldl (\<lambda>n c. 16 * n + hex_value c) 0 s"

text \<open>\<open>String.fromCodePoint\<close>: two units above the basic plane.\<close>

definition codePointToString :: "nat \<Rightarrow> jstr" where
  "codePointToString cp =
    (if \<not> (0 < cp \<and> cp \<le> 1114111) \<or> (55296 \<le> cp \<and> cp \<le> 57343) then [65533]
     else if cp < 65536 then [cp]
     else [55296 + (cp - 65536) div 1024, 56320 + (cp - 65536) mod 1024])"

definition XML_ENTITIES :: "(jstr \<times> jstr) list" where
  "XML_ENTITIES = [(lit ''amp'', [38]), (lit ''lt'', [60]), (lit ''gt'', [62]), (lit ''quot'', [34]), (lit ''apos'', [39])]"

text \<open>What a reference after \<open>&\<close> stands for, and the text behind it; \<open>None\<close> when there is none.\<close>

definition drop_semicolon :: "jstr \<Rightarrow> jstr" where
  "drop_semicolon s = (case s of c # t \<Rightarrow> if c = 59 then t else s | [] \<Rightarrow> [])"

definition read_ref :: "jstr \<Rightarrow> ((logo_reason + jstr) \<times> jstr) option" where
  "read_ref s =
    (let hex = (case s of c # x # t \<Rightarrow> if c = 35 \<and> (x = 120 \<or> x = 88) then takeWhile is_hex t else [] | _ \<Rightarrow> []);
         dec = (case s of c # t \<Rightarrow> if c = 35 then takeWhile is_digit t else [] | _ \<Rightarrow> [])
     in if hex \<noteq> [] then Some (Inr (codePointToString (read_hex hex)), drop_semicolon (drop (2 + length hex) s))
        else if dec \<noteq> [] then Some (Inr (codePointToString (read_decimal dec)), drop_semicolon (drop (1 + length dec) s))
        else (case plain_name s of
            None \<Rightarrow> None
          | Some (name, rest) \<Rightarrow>
              Some (case map_of XML_ENTITIES name of Some t \<Rightarrow> Inr t | None \<Rightarrow> Inl LogoEntity, drop_semicolon rest)))"

lemma drop_semicolon_shorter: "length (drop_semicolon s) \<le> length s"
  by (simp add: drop_semicolon_def split: list.split)

lemma plain_name_shorter: "plain_name s = Some (a, r) \<Longrightarrow> length r < length s"
  by (auto simp: plain_name_def length_dropWhile_le le_imp_less_Suc split: list.splits if_splits)

lemma read_ref_shorter: "read_ref s = Some (x, r) \<Longrightarrow> length r \<le> length s"
proof -
  assume r: "read_ref s = Some (x, r)"
  then consider n where "r = drop_semicolon (drop n s)" | a t where "plain_name s = Some (a, t)" "r = drop_semicolon t"
    unfolding read_ref_def Let_def by (auto split: if_splits option.splits)
  then show ?thesis
  proof cases
    case 1
    then show ?thesis using drop_semicolon_shorter [of "drop n s"] by simp
  next
    case 2
    then show ?thesis using drop_semicolon_shorter [of t] plain_name_shorter [of s a t] by simp
  qed
qed

function decodeRefs :: "jstr \<Rightarrow> logo_reason + jstr" where
  "decodeRefs [] = Inr []"
| "decodeRefs (c # s) =
    (if c \<noteq> 38 then bindE (decodeRefs s) (\<lambda>t. Inr (c # t))
     else case read_ref s of
         None \<Rightarrow> bindE (decodeRefs s) (\<lambda>t. Inr (c # t))
       | Some (x, r) \<Rightarrow> bindE x (\<lambda>u. bindE (decodeRefs r) (\<lambda>t. Inr (u @ t))))"
  by pat_completeness auto
termination
  by (relation "measure length") (auto dest: read_ref_shorter simp: le_imp_less_Suc)

section \<open>URLs and styles\<close>

definition XHTML_NS :: jstr where "XHTML_NS = lit ''http://www.w3.org/1999/xhtml''"
definition MATHML_NS :: jstr where "MATHML_NS = lit ''http://www.w3.org/1998/math/mathml''"
definition SVG_NS :: jstr where "SVG_NS = lit ''http://www.w3.org/2000/svg''"
definition XML_NS :: jstr where "XML_NS = lit ''http://www.w3.org/XML/1998/namespace''"

definition SCRIPT_SCHEMES :: "jstr list" where
  "SCRIPT_SCHEMES = map lit [''javascript:'', ''vbscript:'', ''livescript:'', ''data:text'']"

definition compact :: "(jstr \<Rightarrow> jstr) \<Rightarrow> jstr \<Rightarrow> jstr" where
  "compact lower value = lower (filter (\<lambda>c. \<not> (c \<le> 32 \<or> (127 \<le> c \<and> c \<le> 159))) value)"

text \<open>\<open>/^data:image\/(?:png|jpeg|gif|webp);base64,[a-z0-9+/]*={0,2}$/\<close>\<close>

definition base64_char :: "nat \<Rightarrow> bool" where
  "base64_char c \<longleftrightarrow> is_lower c \<or> is_digit c \<or> c = 43 \<or> c = 47"

definition EMBEDDED_IMAGE :: "jstr \<Rightarrow> bool" where
  "EMBEDDED_IMAGE v \<longleftrightarrow>
    list_ex (\<lambda>kind. let p = lit ''data:image/'' @ lit kind @ lit '';base64,''
      in begins p v \<and> dropWhile base64_char (drop (length p) v) \<in> {[], [61], [61, 61]})
      [''png'', ''jpeg'', ''gif'', ''webp'']"

text \<open>A word, any space, then one unit.\<close>

definition word_then :: "string \<Rightarrow> nat \<Rightarrow> jstr \<Rightarrow> bool" where
  "word_then w u s \<longleftrightarrow>
    begins (lit w) s \<and> (case dropWhile is_space (drop (length w) s) of c # t \<Rightarrow> c = u | [] \<Rightarrow> False)"

definition css_word_char :: "nat \<Rightarrow> bool" where
  "css_word_char c \<longleftrightarrow> is_lower c \<or> is_digit c \<or> c = 95 \<or> c = 45"

definition loading_call :: "jstr \<Rightarrow> bool" where
  "loading_call s \<longleftrightarrow> word_then ''image'' 40 s \<or> word_then ''src'' 40 s \<or> word_then ''cross-fade'' 40 s"

definition CSS_FORBIDDEN :: "jstr \<Rightarrow> bool" where
  "CSS_FORBIDDEN s \<longleftrightarrow>
    somewhere (\<lambda>t. begins (lit ''@import'') t \<or> word_then ''expression'' 40 t \<or> begins (lit ''-moz-binding'') t \<or>
      word_then ''behavior'' 58 t \<or> word_then ''behaviour'' 58 t \<or> word_then ''image-set'' 40 t \<or>
      (case t of c # u \<Rightarrow> \<not> css_word_char c \<and> loading_call u | [] \<Rightarrow> False)) s \<or>
    loading_call s"

text \<open>\<open>url\s*\(\s*["']?\s*\<close> at the start of the text: what follows it.\<close>

definition url_match :: "jstr \<Rightarrow> jstr option" where
  "url_match s =
    (if \<not> begins (lit ''url'') s then None
     else case dropWhile is_space (drop 3 s) of
         [] \<Rightarrow> None
       | c # t \<Rightarrow>
           if c \<noteq> 40 then None
           else (case dropWhile is_space t of
               q # u \<Rightarrow> Some (if q = 34 \<or> q = 39 then dropWhile is_space u else q # u)
             | [] \<Rightarrow> Some []))"

lemma length_dropWhile_eq: "dropWhile P s = t \<Longrightarrow> length t \<le> length s"
  using length_dropWhile_le [of P s] by auto

lemma url_match_shorter: "url_match s = Some r \<Longrightarrow> length r < length s"
  unfolding url_match_def
  by (force simp: begins_def split: if_splits list.splits dest!: length_dropWhile_eq
      intro: le_less_trans [OF length_dropWhile_le])

function urls_ok :: "jstr \<Rightarrow> bool" where
  "urls_ok s =
    (case s of
       [] \<Rightarrow> True
     | c # t \<Rightarrow>
         (case url_match s of
            None \<Rightarrow> urls_ok t
          | Some r \<Rightarrow> (case r of x # u \<Rightarrow> x = 35 | [] \<Rightarrow> False) \<and> urls_ok r))"
  by pat_completeness auto
termination
  by (relation "measure length") (auto dest: url_match_shorter)

declare urls_ok.simps [simp del]

lemma split_at_shorter: "split_at p s = Some (a, b) \<Longrightarrow> length b + length p \<le> length s"
proof (induction p s arbitrary: a rule: split_at.induct)
  case (2 p c s)
  show ?case
  proof (cases "take (length p) (c # s) = p")
    case True
    then have "length p \<le> length (c # s)" by (metis length_take min.cobounded1)
    then show ?thesis using 2 True by auto
  next
    case False
    then show ?thesis using 2 by fastforce
  qed
qed (auto split: if_splits)

function stripCssComments :: "jstr \<Rightarrow> jstr" where
  "stripCssComments css =
    (case split_at (lit ''/*'') css of
       None \<Rightarrow> css
     | Some (a, r) \<Rightarrow> a @ (case split_at (lit ''*/'') r of None \<Rightarrow> [] | Some (b, r') \<Rightarrow> stripCssComments r'))"
  by pat_completeness auto
termination
  by (relation "measure length") (auto dest!: split_at_shorter)

declare stripCssComments.simps [simp del]

function decodeCssEscapes :: "jstr \<Rightarrow> jstr" where
  "decodeCssEscapes [] = []"
| "decodeCssEscapes (c # s) =
    (if c \<noteq> 92 then c # decodeCssEscapes s
     else let hex = takeWhile is_hex (take 6 s)
       in if hex \<noteq> [] then codePointToString (read_hex hex) @
            decodeCssEscapes (case drop (length hex) s of
                x # t \<Rightarrow> if x \<in> {32, 9, 13, 10, 12} then t else x # t
              | [] \<Rightarrow> [])
          else (case s of
              [] \<Rightarrow> [c]
            | x # t \<Rightarrow> (if x = 10 then [] else [x]) @ decodeCssEscapes t))"
  by pat_completeness auto
termination
proof (relation "measure length", goal_cases)
  case (3 c s x)
  then show ?case by (auto split: list.splits dest!: arg_cong [where f = length])
qed auto

datatype css_kind = Stylesheet | CssValue

definition css_view_ok :: "css_kind \<Rightarrow> jstr \<Rightarrow> logo_reason + unit" where
  "css_view_ok kind s =
    bindE (demand (\<not> (kind = Stylesheet \<and> includes_text s XHTML_NS)) LogoHtml) (\<lambda>_.
    bindE (demand (\<not> (kind = Stylesheet \<and> CSS_FORBIDDEN s)) LogoCss) (\<lambda>_.
    demand (urls_ok s) LogoCss))"

definition checkCss :: "(jstr \<Rightarrow> jstr) \<Rightarrow> jstr \<Rightarrow> css_kind \<Rightarrow> logo_reason + unit" where
  "checkCss lower css kind =
    (if css = [] then Inr ()
     else if kind = Stylesheet \<and> 92 \<in> set css then Inl LogoCss
     else case kind of
         Stylesheet \<Rightarrow> bindE (css_view_ok kind (lower css)) (\<lambda>_. css_view_ok kind (stripCssComments (lower css)))
       | CssValue \<Rightarrow> css_view_ok kind (decodeCssEscapes (lower css)))"

section \<open>Attributes\<close>

type_synonym attr = "jstr \<times> jstr"

definition isNameAttr :: "jstr \<Rightarrow> bool" where
  "isNameAttr name \<longleftrightarrow> name = lit ''id'' \<or> name = lit ''class'' \<or> begins (lit ''data-'') name"

definition checkAttr :: "(jstr \<Rightarrow> jstr) \<Rightarrow> attr \<Rightarrow> logo_reason + unit" where
  "checkAttr lower a =
    (let prefix = fst (splitName (fst a)); name = lower (snd (splitName (fst a))); v = compact lower (snd a)
     in bindE (demand (\<not> begins (lit ''on'') name) LogoHandler) (\<lambda>_.
        bindE (demand (\<not> includes_text v XHTML_NS) LogoHtml) (\<lambda>_.
        bindE (demand (\<not> list_ex (includes_text v) SCRIPT_SCHEMES) LogoScriptLink) (\<lambda>_.
        bindE (demand (\<not> (name = lit ''href'' \<and> v \<noteq> [] \<and> \<not> begins (lit ''#'') v \<and> \<not> EMBEDDED_IMAGE v)) LogoLink) (\<lambda>_.
        checkCss lower (snd a)
          (if name = lit ''style'' \<or> (prefix = [] \<and> name \<noteq> lit ''href'' \<and> \<not> isNameAttr name)
           then Stylesheet else CssValue))))))"

end
