(* ===== verification/LogoScreen.thy ===== *)
theory LogoScreen
  imports LogoText JsNumber
begin

text \<open>
  The screen of uploaded logos, \<open>src/src/server/lib/sponsor-logo.ts\<close>: the numbers of a view box,
  tags and attributes, namespaces, and the walk over the document that accepts or rejects it.
  The rest of the text stands for the position in it. \<open>decode\<close> is the strict UTF-8 decoder.
\<close>

section \<open>Numbers\<close>

text \<open>What arithmetic rounds to, with the range of a double: gradual underflow, and overflow.\<close>

datatype js_number = Finite double | Infinite

definition ieee :: "int \<Rightarrow> int \<Rightarrow> js_number" where
  "ieee a b =
    (if a = 0 then Finite (0, 0)
     else let n = \<bar>a\<bar>;
              k = int (bits n) - int (bits b) - 53;
              big = n * 2 ^ nat (- k) \<ge> 2 ^ 53 * (b * 2 ^ nat k);
              e = max (if big then k + 1 else k) (- 1074);
              m = round_even (n * 2 ^ nat (- e)) (b * 2 ^ nat e)
          in if m * 2 ^ nat e \<ge> 2 ^ 1024 * 2 ^ nat (- e) then Infinite else Finite (sgn a * m, e))"

definition double_less :: "double \<Rightarrow> double \<Rightarrow> bool" where
  "double_less x y \<longleftrightarrow>
    (case (x, y) of ((m, e), (n, f)) \<Rightarrow> m * 2 ^ nat (e - min e f) < n * 2 ^ nat (f - min e f))"

definition divide_doubles :: "double \<Rightarrow> double \<Rightarrow> js_number" where
  "divide_doubles x y =
    (case (x, y) of ((m, e), (n, f)) \<Rightarrow> ieee (m * 2 ^ nat e * 2 ^ nat (- f)) (n * 2 ^ nat f * 2 ^ nat (- e)))"

text \<open>
  A text the pattern \<open>VIEWBOX_NUMBER\<close> accepts, as a whole number times a power of ten.
\<close>

definition signed_text :: "jstr \<Rightarrow> int \<times> jstr" where
  "signed_text s =
    (case s of
       c # t \<Rightarrow> if c = 45 then (- 1, t) else if c = 43 then (1, t) else (1, s)
     | [] \<Rightarrow> (1, []))"

definition read_exponent :: "jstr \<Rightarrow> int option" where
  "read_exponent s =
    (case s of
       [] \<Rightarrow> Some 0
     | c # t \<Rightarrow>
         if c = 101 \<or> c = 69
         then (case signed_text t of (sg, ds) \<Rightarrow>
             if ds \<noteq> [] \<and> list_all is_digit ds then Some (sg * int (read_decimal ds)) else None)
         else None)"

definition VIEWBOX_NUMBER :: "jstr \<Rightarrow> (int \<times> int) option" where
  "VIEWBOX_NUMBER s =
    (case signed_text s of (sg, t) \<Rightarrow>
      let whole = takeWhile is_digit t;
          r = dropWhile is_digit t;
          dot = (case r of c # u \<Rightarrow> c = 46 | [] \<Rightarrow> False);
          fraction = (if dot then takeWhile is_digit (drop 1 r) else []);
          r' = (if dot then dropWhile is_digit (drop 1 r) else r)
      in if whole = [] \<and> fraction = [] then None
         else map_option (\<lambda>x. (sg * int (read_decimal (whole @ fraction)), x - int (length fraction)))
           (read_exponent r'))"

definition number_of :: "int \<times> int \<Rightarrow> js_number" where
  "number_of p = (case p of (m, x) \<Rightarrow> ieee (m * 10 ^ nat x) (10 ^ nat (- x)))"

section \<open>The shape\<close>

definition MAX_LOGO_ASPECT :: int where "MAX_LOGO_ASPECT = 20"
definition MAX_VIEWBOX_SIDE :: int where "MAX_VIEWBOX_SIDE = 1000000"

definition checkShape :: "double \<Rightarrow> double \<Rightarrow> logo_reason + unit" where
  "checkShape width height =
    (case divide_doubles width height of
       Infinite \<Rightarrow> Inl LogoShape
     | Finite aspect \<Rightarrow>
         demand (\<not> (double_less (MAX_LOGO_ASPECT, 0) aspect \<or> double_less aspect (to_double 1 MAX_LOGO_ASPECT))) LogoShape)"

text \<open>\<open>split(/[\s,]+/)\<close>\<close>

function split_runs :: "jstr \<Rightarrow> jstr list" where
  "split_runs s =
    (let sep = (\<lambda>c. is_space c \<or> c = 44)
     in takeWhile (\<lambda>c. \<not> sep c) s #
       (case dropWhile (\<lambda>c. \<not> sep c) s of [] \<Rightarrow> [] | c # t \<Rightarrow> split_runs (dropWhile sep t)))"
  by pat_completeness auto
termination
proof (relation "measure length", goal_cases)
  case (2 s f c t)
  then have "length (c # t) \<le> length s" by (metis length_dropWhile_le)
  then show ?case using length_dropWhile_le [of f t] by (simp add: le_imp_less_Suc)
qed simp

declare split_runs.simps [simp del]

definition readViewBox :: "attr list \<Rightarrow> logo_reason + double \<times> double" where
  "readViewBox attrs =
    (case List.find (\<lambda>a. fst a = lit ''viewBox'') attrs of
       None \<Rightarrow> Inl LogoNoViewBox
     | Some a \<Rightarrow>
         (let parts = split_runs (trim (snd a))
          in if length parts \<noteq> 4 \<or> \<not> list_all (\<lambda>p. VIEWBOX_NUMBER p \<noteq> None) parts then Inl LogoBadViewBox
             else (case map (\<lambda>p. number_of (the (VIEWBOX_NUMBER p))) parts of
                 [Finite x, Finite y, Finite w, Finite h] \<Rightarrow>
                   bindE (demand (fst w > 0 \<and> fst h > 0) LogoBadViewBox) (\<lambda>_.
                   bindE (demand (\<not> (double_less (MAX_VIEWBOX_SIDE, 0) w \<or> double_less (MAX_VIEWBOX_SIDE, 0) h))
                     LogoBadViewBox) (\<lambda>_.
                   bindE (checkShape w h) (\<lambda>_. Inr (w, h))))
               | _ \<Rightarrow> Inl LogoBadViewBox)))"

section \<open>Tags\<close>

definition SVG_ELEMENTS :: "jstr list" where
  "SVG_ELEMENTS = map lit
    [''svg'', ''g'', ''defs'', ''use'', ''symbol'', ''marker'',
     ''path'', ''rect'', ''circle'', ''ellipse'', ''line'', ''polyline'', ''polygon'',
     ''text'', ''tspan'', ''textPath'',
     ''linearGradient'', ''radialGradient'', ''stop'',
     ''clipPath'', ''mask'', ''pattern'', ''image'',
     ''style'', ''title'', ''desc'', ''metadata'',
     ''filter'', ''feBlend'', ''feColorMatrix'', ''feComponentTransfer'', ''feComposite'',
     ''feConvolveMatrix'', ''feDiffuseLighting'', ''feDisplacementMap'', ''feDistantLight'',
     ''feDropShadow'', ''feFlood'', ''feFuncA'', ''feFuncB'', ''feFuncG'', ''feFuncR'',
     ''feGaussianBlur'', ''feImage'', ''feMerge'', ''feMergeNode'', ''feMorphology'', ''feOffset'',
     ''fePointLight'', ''feSpecularLighting'', ''feSpotLight'', ''feTile'', ''feTurbulence'']"

definition FORBIDDEN_ELEMENTS :: "jstr list" where
  "FORBIDDEN_ELEMENTS = map lit
    [''script'', ''foreignobject'', ''iframe'', ''embed'', ''object'', ''a'', ''handler'', ''listener'',
     ''animate'', ''set'', ''animatetransform'', ''animatemotion'', ''animatecolor'',
     ''audio'', ''video'', ''frame'', ''frameset'', ''applet'', ''base'', ''link'', ''meta'', ''portal'']"

definition MAX_NAMESPACE_DECLARATIONS :: nat where "MAX_NAMESPACE_DECLARATIONS = 64"

type_synonym scope = "(jstr \<times> jstr) list"

record open_element =
  el_qname :: jstr
  el_scope :: scope
  el_isStyle :: bool
  el_css :: jstr

record screen =
  ss_stack :: "open_element list"
  ss_size :: "(double \<times> double) option"
  ss_rootClosed :: bool
  ss_namespaces :: nat

text \<open>One attribute: its name, the raw text of its value, and what follows.\<close>

definition quoted_value :: "jstr \<Rightarrow> (jstr \<times> jstr) option" where
  "quoted_value s =
    (case skipSpace s of
       q # r \<Rightarrow>
         if q = 34 \<or> q = 39
         then (case split_at [q] r of Some (raw, rest) \<Rightarrow> if 60 \<in> set raw then None else Some (raw, rest) | None \<Rightarrow> None)
         else None
     | [] \<Rightarrow> None)"

definition read_attr :: "jstr \<Rightarrow> (jstr \<times> jstr \<times> jstr) option" where
  "read_attr s =
    (case readName s of
       None \<Rightarrow> None
     | Some (name, r) \<Rightarrow>
         (case skipSpace r of
            e # r1 \<Rightarrow> if e = 61 then map_option (\<lambda>(raw, rest). (name, raw, rest)) (quoted_value r1) else None
          | [] \<Rightarrow> None))"

lemma skipSpace_shorter: "length (skipSpace s) \<le> length s"
  by (simp add: skipSpace_def length_dropWhile_le)

lemma skipSpace_Cons: "skipSpace s = c # t \<Longrightarrow> length t < length s"
  using skipSpace_shorter [of s] by simp

lemma readName_shorter: "readName s = Some (q, r) \<Longrightarrow> length r < length s"
  unfolding readName_def
  by (fastforce split: option.splits list.splits if_splits dest!: plain_name_shorter)

lemma quoted_value_shorter: "quoted_value s = Some (raw, rest) \<Longrightarrow> length rest < length s"
  unfolding quoted_value_def
  by (fastforce split: list.splits if_splits option.splits dest!: skipSpace_Cons split_at_shorter)

lemma read_attr_shorter: "read_attr s = Some (name, raw, rest) \<Longrightarrow> length rest < length s"
  unfolding read_attr_def
  by (fastforce split: option.splits list.splits if_splits
      dest!: readName_shorter skipSpace_Cons quoted_value_shorter)

function read_attrs :: "jstr list \<Rightarrow> jstr \<Rightarrow> logo_reason + attr list \<times> bool \<times> jstr" where
  "read_attrs seen s =
    (let t = skipSpace s
     in if begins (lit ''/>'') t then Inr ([], True, drop 2 t)
        else if begins (lit ''>'') t then Inr ([], False, drop 1 t)
        else if t = s then Inl LogoMalformed
        else (case read_attr t of
            None \<Rightarrow> Inl LogoMalformed
          | Some (name, raw, rest) \<Rightarrow>
              if name \<in> set seen then Inl LogoMalformed
              else bindE (decodeRefs raw) (\<lambda>v.
                bindE (read_attrs (name # seen) rest) (\<lambda>(as, closed, r). Inr ((name, v) # as, closed, r)))))"
  by pat_completeness auto
termination
proof (relation "measure (\<lambda>(seen, s). length s)", goal_cases)
  case (2 seen s t p name q raw rest v)
  then have "length rest < length (skipSpace s)" by (auto dest: read_attr_shorter)
  then show ?case using skipSpace_shorter [of s] by simp
qed simp

declare read_attrs.simps [simp del]

fun declare_namespaces ::
  "(jstr \<Rightarrow> jstr) \<Rightarrow> bool \<Rightarrow> attr list \<Rightarrow> scope \<times> nat \<Rightarrow> logo_reason + scope \<times> nat" where
  "declare_namespaces lower isRoot [] p = Inr p"
| "declare_namespaces lower isRoot (a # attrs) (sc, n) =
    (let prefix = fst (splitName (fst a)); name = snd (splitName (fst a));
         declared = (if fst a = lit ''xmlns'' then Some [] else if prefix = lit ''xmlns'' then Some name else None);
         uri = lower (snd a)
     in case declared of
          None \<Rightarrow> declare_namespaces lower isRoot attrs (sc, n)
        | Some d \<Rightarrow>
            bindE (demand (\<not> (includes_text uri XHTML_NS \<or> includes_text uri MATHML_NS)) LogoHtml) (\<lambda>_.
            bindE (demand (\<not> (d = [] \<and> snd a \<noteq> SVG_NS)) (if isRoot then LogoXmlns else LogoNamespace)) (\<lambda>_.
            bindE (demand (d \<noteq> lit ''xml'' \<and> d \<noteq> lit ''xmlns'') LogoMalformed) (\<lambda>_.
            bindE (demand (n + 1 \<le> MAX_NAMESPACE_DECLARATIONS) LogoMalformed) (\<lambda>_.
            declare_namespaces lower isRoot attrs ((d, snd a) # sc, n + 1))))))"

fun check_attrs :: "(jstr \<Rightarrow> jstr) \<Rightarrow> scope \<Rightarrow> attr list \<Rightarrow> logo_reason + unit" where
  "check_attrs lower sc [] = Inr ()"
| "check_attrs lower sc (a # attrs) =
    (let prefix = fst (splitName (fst a))
     in bindE (demand (\<not> (prefix \<noteq> [] \<and> prefix \<noteq> lit ''xmlns'' \<and> map_of sc prefix = None)) LogoMalformed) (\<lambda>_.
        bindE (checkAttr lower a) (\<lambda>_. check_attrs lower sc attrs)))"

definition element_allowed ::
  "(jstr \<Rightarrow> jstr) \<Rightarrow> open_element option \<Rightarrow> scope \<Rightarrow> jstr \<Rightarrow> logo_reason + unit" where
  "element_allowed lower parent sc q =
    (let prefix = fst (splitName q); name = snd (splitName q); ns = map_of sc prefix
     in bindE (demand (ns \<noteq> None) (if prefix \<noteq> [] then LogoMalformed else LogoXmlns)) (\<lambda>_.
        bindE (demand (lower name \<notin> set FORBIDDEN_ELEMENTS) (elementReason q)) (\<lambda>_.
        bindE (demand (\<not> (case parent of Some p \<Rightarrow> el_isStyle p | None \<Rightarrow> False)) (elementReason q)) (\<lambda>_.
        demand (\<not> (ns = Some SVG_NS \<and> name \<notin> set SVG_ELEMENTS)) (elementReason q)))))"

definition root_size :: "scope \<Rightarrow> jstr \<Rightarrow> attr list \<Rightarrow> logo_reason + double \<times> double" where
  "root_size sc q attrs =
    bindE (demand (fst (splitName q) = [] \<and> snd (splitName q) = lit ''svg'') LogoNotSvg) (\<lambda>_.
    bindE (demand (map_of sc (fst (splitName q)) = Some SVG_NS) LogoXmlns) (\<lambda>_.
    readViewBox attrs))"

definition start_tag :: "(jstr \<Rightarrow> jstr) \<Rightarrow> screen \<Rightarrow> jstr \<Rightarrow> logo_reason + screen \<times> jstr" where
  "start_tag lower st s =
    (if ss_rootClosed st then Inl LogoMalformed
     else case readName (drop 1 s) of
         None \<Rightarrow> Inl LogoMalformed
       | Some (q, r) \<Rightarrow>
           bindE (read_attrs [] r) (\<lambda>(attrs, closed, rest).
           let parent = first_row (ss_stack st);
               outer = (case parent of Some p \<Rightarrow> el_scope p | None \<Rightarrow> [(lit ''xml'', XML_NS)])
           in bindE (declare_namespaces lower (parent = None) attrs (outer, ss_namespaces st)) (\<lambda>(sc, n).
              bindE (if parent = None then bindE (root_size sc q attrs) (\<lambda>z. Inr (Some z)) else Inr (ss_size st)) (\<lambda>z.
              bindE (element_allowed lower parent sc q) (\<lambda>_.
              bindE (check_attrs lower sc attrs) (\<lambda>_.
              let st' = st\<lparr>ss_size := z, ss_namespaces := n\<rparr>
              in Inr (if closed then (if parent = None then st'\<lparr>ss_rootClosed := True\<rparr> else st')
                   else st'\<lparr>ss_stack := \<lparr>el_qname = q, el_scope = sc,
                     el_isStyle = (lower (snd (splitName q)) = lit ''style''), el_css = []\<rparr> # ss_stack st\<rparr>, rest)))))))"

definition end_tag :: "(jstr \<Rightarrow> jstr) \<Rightarrow> screen \<Rightarrow> jstr \<Rightarrow> logo_reason + screen \<times> jstr" where
  "end_tag lower st s =
    (case readName (drop 2 s) of
       None \<Rightarrow> Inl LogoMalformed
     | Some (q, r) \<Rightarrow>
         (case ss_stack st of
            [] \<Rightarrow> Inl LogoMalformed
          | el # els \<Rightarrow>
              if \<not> begins (lit ''>'') (skipSpace r) \<or> el_qname el \<noteq> q then Inl LogoMalformed
              else bindE (if el_isStyle el then checkCss lower (el_css el) Stylesheet else Inr ()) (\<lambda>_.
                Inr (st\<lparr>ss_stack := els, ss_rootClosed := ss_rootClosed st \<or> els = []\<rparr>, drop 1 (skipSpace r)))))"

section \<open>The document\<close>

definition add_css :: "jstr \<Rightarrow> open_element \<Rightarrow> open_element" where
  "add_css t el = (if el_isStyle el then el\<lparr>el_css := el_css el @ t\<rparr> else el)"

text \<open>The text up to the next tag.\<close>

definition character_data :: "screen \<Rightarrow> jstr \<Rightarrow> logo_reason + screen" where
  "character_data st chunk =
    (if chunk = [] then Inr st
     else case ss_stack st of
         [] \<Rightarrow> if trim chunk \<noteq> [] then Inl LogoMalformed else Inr st
       | el # els \<Rightarrow> bindE (decodeRefs chunk) (\<lambda>t. Inr (st\<lparr>ss_stack := add_css t el # els\<rparr>)))"

text \<open>What starts with \<open><\<close>.\<close>

definition markup :: "(jstr \<Rightarrow> jstr) \<Rightarrow> screen \<Rightarrow> jstr \<Rightarrow> logo_reason + screen \<times> jstr" where
  "markup lower st s =
    (if begins (lit ''<!--'') s then
       (case split_at (lit ''-->'') (drop 4 s) of
          None \<Rightarrow> Inl LogoMalformed
        | Some (body, rest) \<Rightarrow> Inr (st, rest))
     else if begins (lit ''<![CDATA['') s then
       (case (split_at (lit '']]>'') (drop 9 s), ss_stack st) of
          (Some (body, rest), el # els) \<Rightarrow> Inr (st\<lparr>ss_stack := add_css body el # els\<rparr>, rest)
        | _ \<Rightarrow> Inl LogoMalformed)
     else if begins (lit ''<!'') s then Inl LogoDoctype
     else if begins (lit ''<?'') s then
       (case split_at (lit ''?>'') (drop 2 s) of
          None \<Rightarrow> Inl LogoMalformed
        | Some (body, rest) \<Rightarrow>
            (let target = lower (takeWhile (\<lambda>c. \<not> is_space c \<and> c \<noteq> 63) body)
             in if begins (lit ''xml'') target
                then Inl (if target = lit ''xml-stylesheet'' then LogoStylesheet else LogoMalformed)
                else Inr (st, rest)))
     else if begins (lit ''</'') s then end_tag lower st s
     else start_tag lower st s)"

lemma bindE_cases: "bindE m k = Inr y \<Longrightarrow> (\<And>x. m = Inr x \<Longrightarrow> k x = Inr y \<Longrightarrow> P) \<Longrightarrow> P"
  by (auto simp: bindE_Inr)

lemma read_attrs_shorter: "read_attrs seen s = Inr (as, closed, rest) \<Longrightarrow> length rest < length s"
proof (induction seen s arbitrary: as rule: read_attrs.induct)
  case (1 seen s)
  show ?case
  proof (cases "begins (lit ''/>'') (skipSpace s) \<or> begins (lit ''>'') (skipSpace s)")
    case True
    then have "skipSpace s \<noteq> []" by (auto simp: begins_def)
    moreover have "rest = drop 2 (skipSpace s) \<or> rest = drop 1 (skipSpace s)"
      using True 1(2) by (subst (asm) read_attrs.simps) (auto simp: Let_def split: if_splits)
    ultimately show ?thesis using skipSpace_shorter [of s] by (cases "skipSpace s") auto
  next
    case False
    then obtain name raw r where r: "skipSpace s \<noteq> s" "read_attr (skipSpace s) = Some (name, raw, r)" "name \<notin> set seen"
      using 1(2) by (subst (asm) read_attrs.simps) (auto simp: Let_def split: if_splits option.splits)
    then obtain v bs where "decodeRefs raw = Inr v" "read_attrs (name # seen) r = Inr (bs, closed, rest)"
      using 1(2) False by (subst (asm) read_attrs.simps) (auto simp: Let_def bindE_Inr)
    with 1(1) [OF refl] False r have "length rest < length r" by auto
    then show ?thesis using read_attr_shorter [OF r(2)] skipSpace_shorter [of s] by simp
  qed
qed

lemma start_tag_shorter: "start_tag lower st s = Inr (st', rest) \<Longrightarrow> length rest < length s"
proof -
  assume "start_tag lower st s = Inr (st', rest)"
  then obtain q r as closed where "readName (drop 1 s) = Some (q, r)" "read_attrs [] r = Inr (as, closed, rest)"
    unfolding start_tag_def Let_def by (auto simp: bindE_Inr split: if_splits option.splits)
  then show ?thesis using readName_shorter [of "drop 1 s" q r] read_attrs_shorter [of "[]" r as closed rest] by simp
qed

lemma end_tag_shorter: "end_tag lower st s = Inr (st', rest) \<Longrightarrow> length rest < length s"
proof -
  assume "end_tag lower st s = Inr (st', rest)"
  then obtain q r where "readName (drop 2 s) = Some (q, r)" "rest = drop 1 (skipSpace r)"
    unfolding end_tag_def by (auto simp: bindE_Inr split: if_splits option.splits list.splits)
  then show ?thesis using readName_shorter [of "drop 2 s" q r] skipSpace_shorter [of r] by simp
qed

lemma markup_shorter: "markup lower st s = Inr (st', rest) \<Longrightarrow> length rest < length s"
proof -
  have cut: "split_at p (drop n s) = Some (a, b) \<Longrightarrow> p \<noteq> [] \<Longrightarrow> length b < length s" for p n a b
    using split_at_shorter [of p "drop n s" a b] by (cases p) simp_all
  show "markup lower st s = Inr (st', rest) \<Longrightarrow> ?thesis"
    unfolding markup_def Let_def
    by (auto split: if_splits option.splits list.splits dest: cut start_tag_shorter end_tag_shorter)
qed

text \<open>The walk: \<open>while (pos < text.length)\<close>.\<close>

function walk :: "(jstr \<Rightarrow> jstr) \<Rightarrow> screen \<Rightarrow> jstr \<Rightarrow> logo_reason + screen" where
  "walk lower st s =
    (if s = [] then Inr st
     else bindE (character_data st (takeWhile (\<lambda>c. c \<noteq> 60) s)) (\<lambda>st1.
       if dropWhile (\<lambda>c. c \<noteq> 60) s = [] then Inr st1
       else case markup lower st1 (dropWhile (\<lambda>c. c \<noteq> 60) s) of
           Inl e \<Rightarrow> Inl e
         | Inr (st2, rest) \<Rightarrow> walk lower st2 rest))"
  by pat_completeness auto
termination
proof (relation "measure (\<lambda>(lower, st, s). length s)", goal_cases)
  case (2 lower st s st1 p st2 rest)
  then have "length rest < length (dropWhile (\<lambda>c. c \<noteq> 60) s)" by (auto dest: markup_shorter)
  then show ?case using length_dropWhile_le [of "\<lambda>c. c \<noteq> 60" s] by simp
qed simp

declare walk.simps [simp del]

text \<open>\<open>/encoding\s*=\s*["']([^"']*)["']/\<close>: the captured text of the first match.\<close>

definition encoding_match :: "jstr \<Rightarrow> jstr option" where
  "encoding_match s =
    (if \<not> begins (lit ''encoding'') s then None
     else case dropWhile is_space (drop 8 s) of
         [] \<Rightarrow> None
       | e # t \<Rightarrow>
           if e \<noteq> 61 then None
           else (case dropWhile is_space t of
               [] \<Rightarrow> None
             | q # u \<Rightarrow>
                 if (q = 34 \<or> q = 39) \<and> dropWhile (\<lambda>c. c \<noteq> 34 \<and> c \<noteq> 39) u \<noteq> []
                 then Some (takeWhile (\<lambda>c. c \<noteq> 34 \<and> c \<noteq> 39) u) else None))"

fun find_encoding :: "jstr \<Rightarrow> jstr option" where
  "find_encoding [] = None"
| "find_encoding (c # s) = (case encoding_match (c # s) of Some e \<Rightarrow> Some e | None \<Rightarrow> find_encoding s)"

text \<open>The XML declaration, which may only open the file.\<close>

definition xml_declaration :: "jstr \<Rightarrow> logo_reason + jstr" where
  "xml_declaration s =
    (if begins (lit ''<?xml'') s \<and> (case drop 5 s of c # t \<Rightarrow> xml_space c | [] \<Rightarrow> False)
     then (case split_at (lit ''?>'') (drop 5 s) of
         None \<Rightarrow> Inl LogoMalformed
       | Some (body, rest) \<Rightarrow>
           (case find_encoding body of
              None \<Rightarrow> Inr rest
            | Some e \<Rightarrow>
                if map lower_unit (trim e) \<in> {lit ''utf-8'', lit ''utf8''} then Inr rest else Inl LogoUtf8))
     else Inr s)"

definition xml_chars :: "jstr \<Rightarrow> bool" where
  "xml_chars s \<longleftrightarrow> list_all (\<lambda>c. \<not> ((c < 32 \<and> c \<noteq> 9 \<and> c \<noteq> 10 \<and> c \<noteq> 13) \<or> c = 65534 \<or> c = 65535)) s"

definition new_screen :: screen where
  "new_screen = \<lparr>ss_stack = [], ss_size = None, ss_rootClosed = False, ss_namespaces = 0\<rparr>"

definition screenSvg :: "(jstr \<Rightarrow> jstr) \<Rightarrow> jstr \<Rightarrow> logo_reason + double \<times> double" where
  "screenSvg lower s =
    bindE (demand (xml_chars s) LogoChars) (\<lambda>_.
    bindE (demand (\<not> includes_text (lower s) XHTML_NS) LogoHtml) (\<lambda>_.
    bindE (xml_declaration s) (\<lambda>body.
    bindE (walk lower new_screen body) (\<lambda>st.
    bindE (demand (ss_stack st = []) LogoMalformed) (\<lambda>_.
    case ss_size st of None \<Rightarrow> Inl LogoNotSvg | Some z \<Rightarrow> Inr z)))))"

end
