(* ===== verification/LogoRules.thy ===== *)
theory LogoRules
  imports LogoScreen
begin

text \<open>
  What an accepted SVG is, stated without the screen: the text as a sequence of pieces of XML, the
  pieces as one document with one root, and what its elements, attributes and styles may be.
\<close>

section \<open>Pieces of XML\<close>

datatype piece =
  Chars jstr | Comment jstr | Cdata jstr | Instruction jstr
| Open jstr "attr list" bool | Close jstr

definition plain_xml_name :: "jstr \<Rightarrow> bool" where
  "plain_xml_name n \<longleftrightarrow> n \<noteq> [] \<and> name_start (hd n) \<and> list_all name_char (tl n)"

definition xml_name :: "jstr \<Rightarrow> bool" where
  "xml_name n \<longleftrightarrow> plain_xml_name n \<or> (\<exists>a b. n = a @ 58 # b \<and> plain_xml_name a \<and> plain_xml_name b)"

text \<open>\<open>c\<close> ends at the first \<open>p\<close>.\<close>

definition ends_first :: "jstr \<Rightarrow> jstr \<Rightarrow> bool" where
  "ends_first p c \<longleftrightarrow> (\<forall>k < length c. take (length p) (drop k (c @ p)) \<noteq> p)"

inductive attributes :: "jstr \<Rightarrow> attr list \<Rightarrow> bool" where
  no_more: "list_all xml_space w \<Longrightarrow> attributes w []"
| one_more: "w \<noteq> [] \<Longrightarrow> list_all xml_space w \<Longrightarrow> xml_name n \<Longrightarrow> list_all xml_space u \<Longrightarrow> list_all xml_space v \<Longrightarrow>
    q = 34 \<or> q = 39 \<Longrightarrow> q \<notin> set raw \<Longrightarrow> 60 \<notin> set raw \<Longrightarrow> decodeRefs raw = Inr x \<Longrightarrow> attributes t as \<Longrightarrow>
    attributes (w @ n @ u @ [61] @ v @ [q] @ raw @ [q] @ t) ((n, x) # as)"

inductive pieces :: "jstr \<Rightarrow> piece list \<Rightarrow> bool" where
  pieces_end: "pieces [] []"
| pieces_chars: "c \<noteq> [] \<Longrightarrow> 60 \<notin> set c \<Longrightarrow> t = [] \<or> hd t = 60 \<Longrightarrow> pieces t ps \<Longrightarrow> pieces (c @ t) (Chars c # ps)"
| pieces_comment: "ends_first (lit ''-->'') c \<Longrightarrow> pieces t ps \<Longrightarrow>
    pieces (lit ''<!--'' @ c @ lit ''-->'' @ t) (Comment c # ps)"
| pieces_cdata: "ends_first (lit '']]>'') c \<Longrightarrow> pieces t ps \<Longrightarrow>
    pieces (lit ''<![CDATA['' @ c @ lit '']]>'' @ t) (Cdata c # ps)"
| pieces_instruction: "ends_first (lit ''?>'') c \<Longrightarrow> pieces t ps \<Longrightarrow>
    pieces (lit ''<?'' @ c @ lit ''?>'' @ t) (Instruction c # ps)"
| pieces_open: "xml_name q \<Longrightarrow> attributes at as \<Longrightarrow> distinct (map fst as) \<Longrightarrow> pieces t ps \<Longrightarrow>
    pieces (lit ''<'' @ q @ at @ (if closed then lit ''/>'' else lit ''>'') @ t) (Open q as closed # ps)"
| pieces_close: "xml_name q \<Longrightarrow> list_all xml_space w \<Longrightarrow> pieces t ps \<Longrightarrow>
    pieces (lit ''</'' @ q @ w @ lit ''>'' @ t) (Close q # ps)"

text \<open>Tags match, one element \<open>svg\<close> holds everything, and only space stands outside it.\<close>

fun document :: "jstr list \<Rightarrow> bool \<Rightarrow> piece list \<Rightarrow> bool" where
  "document els over [] = (els = [] \<and> over)"
| "document els over (Open q as closed # ps) =
    (\<not> over \<and> (els = [] \<longrightarrow> q = lit ''svg'') \<and>
     document (if closed then els else q # els) (over \<or> (els = [] \<and> closed)) ps)"
| "document els over (Close q # ps) = (els \<noteq> [] \<and> hd els = q \<and> document (tl els) (over \<or> tl els = []) ps)"
| "document els over (Chars c # ps) = ((els = [] \<longrightarrow> trim c = []) \<and> document els over ps)"
| "document els over (Cdata c # ps) = (els \<noteq> [] \<and> document els over ps)"
| "document els over (p # ps) = document els over ps"

section \<open>What is allowed\<close>

definition local_name :: "jstr \<Rightarrow> jstr" where
  "local_name q = snd (splitName q)"

text \<open>Every \<open>url(\<close> is followed by \<open>#\<close>, and nothing else loads.\<close>

definition local_urls :: "jstr \<Rightarrow> bool" where
  "local_urls s \<longleftrightarrow> (\<forall>k r. url_match (drop k s) = Some r \<longrightarrow> begins (lit ''#'') r)"

definition style_safe :: "(jstr \<Rightarrow> jstr) \<Rightarrow> jstr \<Rightarrow> bool" where
  "style_safe lower css \<longleftrightarrow> css = [] \<or>
    (92 \<notin> set css \<and> (\<forall>view \<in> {lower css, stripCssComments (lower css)}.
      local_urls view \<and> \<not> CSS_FORBIDDEN view \<and> \<not> includes_text view (lit ''@import'')))"

definition safe_attr :: "(jstr \<Rightarrow> jstr) \<Rightarrow> attr \<Rightarrow> bool" where
  "safe_attr lower a \<longleftrightarrow>
    (let name = lower (local_name (fst a)); v = compact lower (snd a)
     in \<not> begins (lit ''on'') name \<and> (\<forall>scheme \<in> set SCRIPT_SCHEMES. \<not> includes_text v scheme) \<and>
        (name = lit ''href'' \<longrightarrow> v = [] \<or> begins (lit ''#'') v \<or> EMBEDDED_IMAGE v) \<and>
        (name = lit ''style'' \<or> (58 \<notin> set (fst a) \<and> name \<noteq> lit ''href'' \<and> \<not> isNameAttr name) \<longrightarrow>
          style_safe lower (snd a)))"

definition safe_open :: "(jstr \<Rightarrow> jstr) \<Rightarrow> jstr \<Rightarrow> attr list \<Rightarrow> bool" where
  "safe_open lower q as \<longleftrightarrow>
    lower (local_name q) \<notin> set FORBIDDEN_ELEMENTS \<and> (58 \<notin> set q \<longrightarrow> q \<in> set SVG_ELEMENTS) \<and>
    (\<forall>a \<in> set as. safe_attr lower a)"

definition is_style :: "(jstr \<Rightarrow> jstr) \<Rightarrow> jstr \<Rightarrow> bool" where
  "is_style lower q \<longleftrightarrow> lower (local_name q) = lit ''style''"

fun is_tag :: "piece \<Rightarrow> bool" where
  "is_tag (Open q as closed) = True"
| "is_tag (Close q) = True"
| "is_tag p = False"

fun text_of :: "piece \<Rightarrow> jstr" where
  "text_of (Chars c) = (case decodeRefs c of Inr t \<Rightarrow> t | Inl e \<Rightarrow> [])"
| "text_of (Cdata c) = c"
| "text_of p = []"

definition content :: "piece list \<Rightarrow> jstr" where
  "content ps = concat (map text_of ps)"

text \<open>What follows inside a style sheet that has begun with \<open>css\<close>.\<close>

definition sheet_safe :: "(jstr \<Rightarrow> jstr) \<Rightarrow> jstr \<Rightarrow> piece list \<Rightarrow> bool" where
  "sheet_safe lower css ps \<longleftrightarrow>
    (\<forall>mid p post. ps = mid @ p # post \<and> is_tag p \<and> (\<forall>x \<in> set mid. \<not> is_tag x) \<longrightarrow>
      (\<exists>q. p = Close q) \<and> style_safe lower (css @ content mid))"

definition sheets_safe :: "(jstr \<Rightarrow> jstr) \<Rightarrow> piece list \<Rightarrow> bool" where
  "sheets_safe lower ps \<longleftrightarrow>
    (\<forall>pre q as rest. ps = pre @ Open q as False # rest \<and> is_style lower q \<longrightarrow> sheet_safe lower [] rest)"

section \<open>Scanning\<close>

lemma split_at_Some:
  assumes "split_at p s = Some (a, b)"
  shows "s = a @ p @ b" "ends_first p a"
proof -
  have "s = a @ p @ b \<and> ends_first p a"
    using assms
  proof (induction p s arbitrary: a rule: split_at.induct)
    case (2 p c s)
    show ?case
    proof (cases "take (length p) (c # s) = p")
      case True
      then show ?thesis using 2(2) append_take_drop_id [of "length p" "c # s"] by (auto simp: ends_first_def)
    next
      case False
      then obtain a' where a: "a = c # a'" "split_at p s = Some (a', b)" using 2(2) by auto
      have IH: "s = a' @ p @ b" "ends_first p a'" using 2(1) [OF False a(2)] by simp_all
      have "take (length p) (drop k (a @ p)) \<noteq> p" if "k < length a" for k
      proof (cases k)
        case 0
        have "c # s = (a @ p) @ b" by (simp add: a(1) IH(1))
        then have "take (length p) (c # s) = take (length p) (a @ p)" by (simp only: take_append length_append) simp
        then show ?thesis using False 0 by simp
      next
        case (Suc j)
        then show ?thesis using IH(2) that by (simp add: a(1) ends_first_def)
      qed
      then show ?thesis using IH(1) by (simp add: a(1) ends_first_def)
    qed
  qed (auto simp: ends_first_def split: if_splits)
  then show "s = a @ p @ b" "ends_first p a" by simp_all
qed

lemma begins_append: "begins p s \<Longrightarrow> s = p @ drop (length p) s"
  by (metis append_take_drop_id begins_def)

lemma skipSpace_split: "\<exists>w. list_all xml_space w \<and> s = w @ skipSpace s"
  by (intro exI [of _ "takeWhile xml_space s"]) (auto simp: skipSpace_def list_all_iff dest: set_takeWhileD)

lemma plain_name_Some: "plain_name s = Some (a, r) \<Longrightarrow> s = a @ r \<and> plain_xml_name a"
  by (auto simp: plain_name_def plain_xml_name_def list_all_iff dest: set_takeWhileD split: list.splits if_splits)

lemma readName_Some: "readName s = Some (q, r) \<Longrightarrow> s = q @ r \<and> xml_name q"
  unfolding readName_def xml_name_def
  by (fastforce split: option.splits list.splits if_splits dest!: plain_name_Some)

lemma read_attr_Some:
  assumes "read_attr s = Some (n, raw, rest)"
  shows "\<exists>u v q. s = n @ u @ [61] @ v @ [q] @ raw @ [q] @ rest \<and> xml_name n \<and> list_all xml_space u \<and>
    list_all xml_space v \<and> (q = 34 \<or> q = 39) \<and> q \<notin> set raw \<and> 60 \<notin> set raw"
proof -
  obtain r r1 where r: "readName s = Some (n, r)" "skipSpace r = 61 # r1" "quoted_value r1 = Some (raw, rest)"
    using assms by (auto simp: read_attr_def split: option.splits list.splits if_splits)
  obtain q r2 where q: "skipSpace r1 = q # r2" "q = 34 \<or> q = 39" "split_at [q] r2 = Some (raw, rest)" "60 \<notin> set raw"
    using r(3) by (auto simp: quoted_value_def split: option.splits list.splits if_splits)
  have "q \<notin> set raw"
  proof
    assume "q \<in> set raw"
    then obtain k where "k < length raw" "raw ! k = q" by (auto simp: in_set_conv_nth)
    then have "take (length [q]) (drop k (raw @ [q])) = [q]"
      by (simp add: Cons_nth_drop_Suc [symmetric] nth_append take_Suc_conv_app_nth)
    then show False using split_at_Some(2) [OF q(3)] \<open>k < length raw\<close> by (auto simp: ends_first_def)
  qed
  moreover obtain u v where "list_all xml_space u" "r = u @ 61 # r1" "list_all xml_space v" "r1 = v @ q # r2"
    using skipSpace_split [of r] skipSpace_split [of r1] r(2) q(1) by auto
  ultimately show ?thesis
    using readName_Some [OF r(1)] split_at_Some(1) [OF q(3)] q(2,4) by (intro exI [of _ u] exI [of _ v] exI [of _ q]) auto
qed

lemma read_attrs_Inr:
  "read_attrs seen s = Inr (as, closed, rest) \<Longrightarrow>
    (\<exists>t. s = t @ (if closed then lit ''/>'' else lit ''>'') @ rest \<and> attributes t as) \<and>
    distinct (map fst as) \<and> set (map fst as) \<inter> set seen = {}"
proof (induction seen s arbitrary: as rule: read_attrs.induct)
  case (1 seen s)
  obtain w where w: "list_all xml_space w" "s = w @ skipSpace s" using skipSpace_split by blast
  show ?case
  proof (cases "begins (lit ''/>'') (skipSpace s) \<or> begins (lit ''>'') (skipSpace s)")
    case True
    then have "as = [] \<and> skipSpace s = (if closed then lit ''/>'' else lit ''>'') @ rest"
    proof -
      have len: "length (lit ''/>'') = 2" "length (lit ''>'') = 1" by simp_all
      show ?thesis
        using True 1(2) begins_append [of "lit ''/>''" "skipSpace s", unfolded len]
          begins_append [of "lit ''>''" "skipSpace s", unfolded len]
        by (subst (asm) read_attrs.simps) (auto simp: Let_def simp del: lit_simps split: if_splits)
    qed
    then show ?thesis using w no_more by (intro conjI exI [of _ w]) auto
  next
    case False
    then obtain name raw r where r: "skipSpace s \<noteq> s" "read_attr (skipSpace s) = Some (name, raw, r)" "name \<notin> set seen"
      using 1(2) by (subst (asm) read_attrs.simps) (auto simp: Let_def split: if_splits option.splits)
    then obtain v bs where v: "decodeRefs raw = Inr v" "read_attrs (name # seen) r = Inr (bs, closed, rest)"
      "as = (name, v) # bs"
      using 1(2) False by (subst (asm) read_attrs.simps) (auto simp: Let_def bindE_Inr)
    have IH: "(\<exists>t. r = t @ (if closed then lit ''/>'' else lit ''>'') @ rest \<and> attributes t bs) \<and>
        distinct (map fst bs) \<and> set (map fst bs) \<inter> set (name # seen) = {}"
      using 1(1) [OF refl] False r v by auto
    then obtain t where t: "r = t @ (if closed then lit ''/>'' else lit ''>'') @ rest" "attributes t bs" by blast
    obtain u x q where a: "skipSpace s = name @ u @ [61] @ x @ [q] @ raw @ [q] @ r" "xml_name name"
      "list_all xml_space u" "list_all xml_space x" "q = 34 \<or> q = 39" "q \<notin> set raw" "60 \<notin> set raw"
      using read_attr_Some [OF r(2)] by metis
    have "w \<noteq> []" using r(1) w(2) by auto
    from one_more [OF this w(1) a(2-7) v(1) t(2)]
    have "attributes (w @ name @ u @ [61] @ x @ [q] @ raw @ [q] @ t) as" by (simp add: v(3))
    moreover have "s = (w @ name @ u @ [61] @ x @ [q] @ raw @ [q] @ t) @ (if closed then lit ''/>'' else lit ''>'') @ rest"
      using w(2) a(1) t(1) by simp
    ultimately show ?thesis using IH r(3) v(3) by auto
  qed
qed

section \<open>Styles and attributes\<close>

lemma dropWhile_split: "\<exists>w. list_all P w \<and> s = w @ dropWhile P s"
  by (intro exI [of _ "takeWhile P s"]) (auto simp: list_all_iff dest: set_takeWhileD)

text \<open>The text of a \<open>url(\<close> holds no other.\<close>

lemma url_match_text:
  assumes "url_match s = Some r"
  obtains w where "s = lit ''url'' @ w @ r" "117 \<notin> set w"
proof -
  have space: "117 \<notin> set w" if "list_all is_space w" for w using that by (auto simp: list_all_iff is_space_def)
  obtain w1 t1 where 1: "117 \<notin> set w1" "s = lit ''url'' @ w1 @ 40 # t1" "url_match s = (case dropWhile is_space t1 of
      q # u \<Rightarrow> Some (if q = 34 \<or> q = 39 then dropWhile is_space u else q # u) | [] \<Rightarrow> Some [])"
  proof -
    have b: "begins (lit ''url'') s" using assms by (simp add: url_match_def split: if_splits)
    have "length (lit ''url'') = 3" by simp
    with begins_append [OF b] have "s = lit ''url'' @ drop 3 s" by metis
    moreover obtain w1 where "list_all is_space w1" "drop 3 s = w1 @ dropWhile is_space (drop 3 s)" using dropWhile_split by blast
    moreover obtain t1 where "dropWhile is_space (drop 3 s) = 40 # t1"
      using assms b by (auto simp: url_match_def split: list.splits if_splits)
    ultimately show thesis using b space by (intro that [of w1 t1]) (auto simp: url_match_def)
  qed
  obtain w2 where 2: "list_all is_space w2" "t1 = w2 @ dropWhile is_space t1" using dropWhile_split by blast
  show thesis
  proof (cases "dropWhile is_space t1")
    case Nil
    have "r = []" using assms unfolding 1(3) Nil by simp
    moreover have "t1 = w2" using 2(2) unfolding Nil by simp
    ultimately have "r = []" "t1 = w2" by simp_all
    then show ?thesis using 1(1,2) space [OF 2(1)] by (intro that [of "w1 @ 40 # w2"]) auto
  next
    case (Cons q u)
    obtain w3 where 3: "list_all is_space w3" "u = w3 @ dropWhile is_space u" using dropWhile_split by blast
    show ?thesis
    proof (cases "q = 34 \<or> q = 39")
      case True
      then have "r = dropWhile is_space u" using assms 1(3) Cons by simp
      then show ?thesis using 1 2 3 Cons True space [OF 2(1)] space [OF 3(1)]
        by (intro that [of "w1 @ 40 # w2 @ q # w3"]) auto
    next
      case False
      then have "r = q # u" using assms 1(3) Cons by simp
      then show ?thesis using 1 2 Cons space [OF 2(1)] by (intro that [of "w1 @ 40 # w2"]) auto
    qed
  qed
qed

lemma url_match_start: "url_match s = Some r \<Longrightarrow> s \<noteq> [] \<and> hd s = 117"
  by (elim url_match_text) (auto simp: )

lemma urls_ok_local: "urls_ok s \<Longrightarrow> local_urls s"
  unfolding local_urls_def
proof (intro allI impI)
  fix k r
  show "urls_ok s \<Longrightarrow> url_match (drop k s) = Some r \<Longrightarrow> begins (lit ''#'') r"
  proof (induction s arbitrary: k rule: urls_ok.induct)
    case (1 s)
    show ?case
    proof (cases "url_match s")
      case None
      then show ?thesis
      proof (cases k)
        case (Suc j)
        then have s: "s = hd s # tl s" "url_match (drop j (tl s)) = Some r"
          using 1(4) by (cases s; simp add: url_match_def begins_def)+
        have "urls_ok (tl s)" using 1(3) None s(1) by (subst (asm) urls_ok.simps) (auto split: list.splits)
        then show ?thesis using 1(1) [OF s(1) None _ s(2)] by simp
      qed (use 1(4) in simp)
    next
      case (Some r0)
      obtain w where w: "s = lit ''url'' @ w @ r0" "117 \<notin> set w" by (rule url_match_text [OF Some])
      have s: "s = hd s # tl s" using w by simp
      have r0: "begins (lit ''#'') r0" "urls_ok r0"
        using 1(3) Some s by (subst (asm) urls_ok.simps, auto simp: begins_def split: list.splits)+
      show ?thesis
      proof (cases "k < 3 + length w")
        case True
        show ?thesis
        proof (cases k)
          case 0
          then show ?thesis using 1(4) Some r0 by simp
        next
          case (Suc j)
          have "drop k s = drop j (tl (lit ''url'' @ w)) @ r0" "drop j (tl (lit ''url'' @ w)) \<noteq> []"
            using True Suc drop_append [of j "tl (lit ''url'' @ w)" r0] by (simp_all add: w(1))
          moreover have "117 \<notin> set (tl (lit ''url'' @ w))" using w(2) by simp
          ultimately have "hd (drop k s) \<noteq> 117" by (metis hd_append2 hd_in_set in_set_dropD)
          then show ?thesis using url_match_start [OF 1(4)] by simp
        qed
      next
        case False
        then have "drop k s = drop (k - (3 + length w)) r0"
          unfolding w(1) append_assoc [symmetric] drop_append [of k "lit ''url'' @ w" r0] by (simp add: eval_nat_numeral)
        then show ?thesis using 1(2) [OF s Some r0(2)] 1(4) by simp
      qed
    qed
  qed
qed

lemma includes_somewhere: "includes_text s p \<Longrightarrow> somewhere (begins p) s"
  by (induction s) (auto simp: begins_def)

lemma somewhere_mono: "somewhere P s \<Longrightarrow> (\<And>t. P t \<Longrightarrow> Q t) \<Longrightarrow> somewhere Q s"
  by (induction s) auto

lemma demand_Inr [simp]: "demand b e = Inr x \<longleftrightarrow> b"
  by (simp add: demand_def)

lemma css_view_safe:
  assumes "css_view_ok Stylesheet s = Inr u"
  shows "local_urls s \<and> \<not> CSS_FORBIDDEN s \<and> \<not> includes_text s (lit ''@import'')"
proof -
  have "urls_ok s" "\<not> CSS_FORBIDDEN s" using assms by (auto simp: css_view_ok_def bindE_Inr)
  moreover have "CSS_FORBIDDEN s" if "includes_text s (lit ''@import'')"
    unfolding CSS_FORBIDDEN_def
    by (rule disjI1, rule somewhere_mono [OF includes_somewhere [OF that]], rule disjI1)
  ultimately show ?thesis using urls_ok_local by blast
qed

lemma checkCss_safe: "checkCss lower css Stylesheet = Inr u \<Longrightarrow> style_safe lower css"
  by (auto simp: checkCss_def style_safe_def bindE_Inr split: if_splits dest!: css_view_safe)

lemma splitName_plain: "58 \<notin> set q \<Longrightarrow> splitName q = ([], q)"
  by (simp add: splitName_def)

lemma checkAttr_safe:
  assumes "checkAttr lower a = Inr u"
  shows "safe_attr lower a"
proof -
  let ?name = "lower (local_name (fst a))"
  let ?css = "?name = lit ''style'' \<or> (fst (splitName (fst a)) = [] \<and> ?name \<noteq> lit ''href'' \<and> \<not> isNameAttr ?name)"
  have c: "checkCss lower (snd a) (if ?css then Stylesheet else CssValue) = Inr u"
    using assms unfolding checkAttr_def Let_def local_name_def [symmetric] by (auto simp: bindE_Inr simp del: lit_simps)
  have "style_safe lower (snd a)" if "?name = lit ''style'' \<or> (58 \<notin> set (fst a) \<and> ?name \<noteq> lit ''href'' \<and> \<not> isNameAttr ?name)"
  proof -
    have ?css using that splitName_plain [of "fst a"] by auto
    then show ?thesis using c by (intro checkCss_safe) (simp only: if_True)
  qed
  moreover have "\<not> begins (lit ''on'') ?name \<and> \<not> list_ex (includes_text (compact lower (snd a))) SCRIPT_SCHEMES \<and>
      \<not> (?name = lit ''href'' \<and> compact lower (snd a) \<noteq> [] \<and> \<not> begins (lit ''#'') (compact lower (snd a)) \<and>
        \<not> EMBEDDED_IMAGE (compact lower (snd a)))"
    using assms unfolding checkAttr_def Let_def local_name_def [symmetric] bindE_Inr demand_Inr by blast
  ultimately show ?thesis unfolding safe_attr_def Let_def list_ex_iff by blast
qed

lemma check_attrs_safe: "check_attrs lower sc as = Inr u \<Longrightarrow> \<forall>a \<in> set as. safe_attr lower a"
  by (induction as) (auto simp: Let_def bindE_Inr dest: checkAttr_safe)

section \<open>The walk\<close>

definition screen_ok :: "(jstr \<Rightarrow> jstr) \<Rightarrow> screen \<Rightarrow> bool" where
  "screen_ok lower st \<longleftrightarrow>
    (ss_stack st = [] \<longrightarrow> (ss_rootClosed st \<longleftrightarrow> ss_size st \<noteq> None)) \<and> (ss_stack st \<noteq> [] \<longrightarrow> \<not> ss_rootClosed st \<and> ss_size st \<noteq> None) \<and>
    (\<forall>el \<in> set (ss_stack st). map_of (el_scope el) [] = Some SVG_NS \<and> (el_isStyle el \<longleftrightarrow> is_style lower (el_qname el)))"

definition rest_ok :: "(jstr \<Rightarrow> jstr) \<Rightarrow> screen \<Rightarrow> piece list \<Rightarrow> bool" where
  "rest_ok lower st ps \<longleftrightarrow>
    document (map el_qname (ss_stack st)) (ss_rootClosed st) ps \<and>
    (\<forall>q as closed. Open q as closed \<in> set ps \<longrightarrow> safe_open lower q as) \<and> sheets_safe lower ps \<and>
    (case ss_stack st of el # els \<Rightarrow> el_isStyle el \<longrightarrow> sheet_safe lower (el_css el) ps | [] \<Rightarrow> True)"

text \<open>A piece that is no tag joins the style sheet it stands in.\<close>

lemma sheet_safe_text:
  assumes "\<not> is_tag p" "sheet_safe lower (css @ text_of p) ps"
  shows "sheet_safe lower css (p # ps)"
  unfolding sheet_safe_def
proof (intro allI impI)
  fix mid x post assume a: "p # ps = mid @ x # post \<and> is_tag x \<and> (\<forall>y \<in> set mid. \<not> is_tag y)"
  then obtain m where m: "mid = p # m" "ps = m @ x # post" using assms(1) by (cases mid) auto
  then have "(\<exists>q. x = Close q) \<and> style_safe lower ((css @ text_of p) @ content m)"
    using assms(2) a unfolding sheet_safe_def by auto
  then show "(\<exists>q. x = Close q) \<and> style_safe lower (css @ content mid)" by (simp add: m(1) content_def)
qed

lemma sheets_safe_Cons:
  assumes "sheets_safe lower ps" "\<And>q as. p = Open q as False \<Longrightarrow> is_style lower q \<Longrightarrow> sheet_safe lower [] ps"
  shows "sheets_safe lower (p # ps)"
  unfolding sheets_safe_def
proof (intro allI impI)
  fix pre q as rest assume a: "p # ps = pre @ Open q as False # rest \<and> is_style lower q"
  show "sheet_safe lower [] rest"
  proof (cases pre)
    case Nil
    then show ?thesis using a assms(2) by auto
  next
    case (Cons x xs)
    then show ?thesis using a assms(1) unfolding sheets_safe_def by auto
  qed
qed

lemma sheet_safe_close: "style_safe lower css \<Longrightarrow> sheet_safe lower css (Close q # ps)"
  unfolding sheet_safe_def by (auto simp: Cons_eq_append_conv content_def)

lemma rest_ok_text:
  assumes "rest_ok lower (st\<lparr>ss_stack := stack\<rparr>) ps" "\<not> is_tag p"
    and "stack = (case ss_stack st of el # els \<Rightarrow> add_css (text_of p) el # els | [] \<Rightarrow> [])"
    and "document (map el_qname (ss_stack st)) (ss_rootClosed st) ps \<Longrightarrow>
      document (map el_qname (ss_stack st)) (ss_rootClosed st) (p # ps)"
  shows "rest_ok lower st (p # ps)"
proof -
  have names: "map el_qname stack = map el_qname (ss_stack st)"
    unfolding assms(3) by (auto simp: add_css_def split: list.split)
  have "sheets_safe lower (p # ps)"
    using assms(1,2) by (intro sheets_safe_Cons) (auto simp: rest_ok_def)
  moreover have "case ss_stack st of el # els \<Rightarrow> el_isStyle el \<longrightarrow> sheet_safe lower (el_css el) (p # ps) | [] \<Rightarrow> True"
    using assms(1-3) by (auto simp: rest_ok_def add_css_def intro: sheet_safe_text split: list.splits)
  ultimately show ?thesis using assms(1,2,4) names by (auto simp: rest_ok_def)
qed

lemma screen_ok_text:
  assumes "screen_ok lower st"
  shows "screen_ok lower (st\<lparr>ss_stack := (case ss_stack st of el # els \<Rightarrow> add_css t el # els | [] \<Rightarrow> [])\<rparr>)"
  using assms by (auto simp: screen_ok_def add_css_def split: list.splits)

lemma character_data_ok:
  assumes "character_data st c = Inr st1" "c \<noteq> []"
  shows "st1 = st\<lparr>ss_stack := (case ss_stack st of el # els \<Rightarrow> add_css (text_of (Chars c)) el # els | [] \<Rightarrow> [])\<rparr>"
    "rest_ok lower st1 ps \<Longrightarrow> rest_ok lower st (Chars c # ps)"
proof -
  show s: "st1 = st\<lparr>ss_stack := (case ss_stack st of el # els \<Rightarrow> add_css (text_of (Chars c)) el # els | [] \<Rightarrow> [])\<rparr>"
    using assms by (auto simp: character_data_def bindE_Inr split: list.splits if_splits)
  have "document (map el_qname (ss_stack st)) (ss_rootClosed st) ps \<Longrightarrow>
      document (map el_qname (ss_stack st)) (ss_rootClosed st) (Chars c # ps)"
    using assms by (auto simp: character_data_def split: list.splits if_splits)
  then show "rest_ok lower st1 ps \<Longrightarrow> rest_ok lower st (Chars c # ps)"
    using s by (intro rest_ok_text [where stack = "ss_stack st1"]) auto
qed

section \<open>Tags\<close>

lemma end_tag_ok:
  assumes "end_tag lower st s = Inr (st1, rest)" "screen_ok lower st" "begins (lit ''</'') s"
  shows "screen_ok lower st1 \<and> (\<exists>q w. s = lit ''</'' @ q @ w @ lit ''>'' @ rest \<and> xml_name q \<and> list_all xml_space w \<and>
    (\<forall>ps. rest_ok lower st1 ps \<longrightarrow> rest_ok lower st (Close q # ps)))"
proof -
  obtain q r el els where q: "readName (drop 2 s) = Some (q, r)" "ss_stack st = el # els" "el_qname el = q"
    "begins (lit ''>'') (skipSpace r)" "rest = drop 1 (skipSpace r)"
    "(if el_isStyle el then checkCss lower (el_css el) Stylesheet else Inr ()) = Inr ()"
    "st1 = st\<lparr>ss_stack := els, ss_rootClosed := ss_rootClosed st \<or> els = []\<rparr>"
    using assms(1) unfolding end_tag_def by (auto simp: bindE_Inr split: option.splits list.splits if_splits)
  have ok: "screen_ok lower st1" using assms(2) q(2) by (auto simp: q(7) screen_ok_def)
  have len: "length (lit ''</'') = 2" "length (lit ''>'') = 1" by simp_all
  obtain w where w: "list_all xml_space w" "r = w @ skipSpace r" using skipSpace_split by blast
  have "s = lit ''</'' @ drop 2 s" using begins_append [OF assms(3)] unfolding len .
  moreover have "skipSpace r = lit ''>'' @ rest" using begins_append [OF q(4)] unfolding len q(5) .
  moreover have n: "drop 2 s = q @ r" "xml_name q" using readName_Some [OF q(1)] by simp_all
  ultimately have s: "s = lit ''</'' @ q @ w @ lit ''>'' @ rest" using w(2) by metis
  have "rest_ok lower st (Close q # ps)" if "rest_ok lower st1 ps" for ps
  proof -
    have "sheets_safe lower (Close q # ps)" using that by (intro sheets_safe_Cons) (auto simp: rest_ok_def)
    moreover have "el_isStyle el \<longrightarrow> sheet_safe lower (el_css el) (Close q # ps)"
      using q(6) by (auto intro!: sheet_safe_close checkCss_safe)
    ultimately show ?thesis using that q(2,3) by (auto simp: rest_ok_def q(7))
  qed
  then show ?thesis using ok s n(2) w(1) by blast
qed

lemma declared_default:
  "declare_namespaces lower isRoot attrs p = Inr (sc, n) \<Longrightarrow>
    map_of sc [] = Some SVG_NS \<or> map_of sc [] = map_of (fst p) []"
proof (induction lower isRoot attrs p rule: declare_namespaces.induct)
  case (2 lower isRoot a attrs sc0 n0)
  show ?case
  proof (cases "fst a = lit ''xmlns'' \<or> fst (splitName (fst a)) = lit ''xmlns''")
    case True
    define d where "d = (if fst a = lit ''xmlns'' then [] else snd (splitName (fst a)))"
    have r: "declare_namespaces lower isRoot attrs ((d, snd a) # sc0, n0 + 1) = Inr (sc, n)" "d = [] \<longrightarrow> snd a = SVG_NS"
      using 2(3) True unfolding d_def by (auto simp: Let_def bindE_Inr simp del: lit_simps split: if_splits)
    have "map_of sc [] = Some SVG_NS \<or> map_of sc [] = map_of ((d, snd a) # sc0) []"
      using 2(2) [OF refl refl refl refl, of d] True r(1) by (auto simp: d_def Let_def)
    then show ?thesis using r(2) by (auto split: if_splits)
  next
    case False
    then show ?thesis using 2(1,3) by (auto simp: Let_def simp del: lit_simps)
  qed
qed simp

lemma xml_name_prefix:
  assumes "xml_name q" "fst (splitName q) = []"
  shows "splitName q = ([], q)" "58 \<notin> set q"
proof -
  have h: "q \<noteq> [] \<and> hd q \<noteq> 58"
    using assms(1) by (auto simp: xml_name_def plain_xml_name_def name_start_def is_upper_def is_lower_def hd_append)
  have "58 \<notin> set q"
  proof
    assume c: "58 \<in> set q"
    then have "takeWhile (\<lambda>c. c \<noteq> 58) q = []" using assms(2) by (simp add: splitName_def)
    then show False using h by (cases q) auto
  qed
  then show "splitName q = ([], q)" "58 \<notin> set q" by (simp_all add: splitName_plain)
qed

lemma start_tag_parts:
  assumes "start_tag lower st s = Inr (st1, rest)"
  obtains q r attrs closed sc n z where "readName (drop 1 s) = Some (q, r)" "read_attrs [] r = Inr (attrs, closed, rest)"
    "\<not> ss_rootClosed st"
    "declare_namespaces lower (first_row (ss_stack st) = None) attrs
      (case first_row (ss_stack st) of Some p \<Rightarrow> el_scope p | None \<Rightarrow> [(lit ''xml'', XML_NS)], ss_namespaces st) = Inr (sc, n)"
    "(if first_row (ss_stack st) = None then bindE (root_size sc q attrs) (\<lambda>z. Inr (Some z)) else Inr (ss_size st)) = Inr z"
    "element_allowed lower (first_row (ss_stack st)) sc q = Inr ()" "check_attrs lower sc attrs = Inr ()"
    "st1 = (if closed then st\<lparr>ss_size := z, ss_namespaces := n, ss_rootClosed := first_row (ss_stack st) = None\<rparr>
      else st\<lparr>ss_size := z, ss_namespaces := n, ss_stack := \<lparr>el_qname = q, el_scope = sc,
        el_isStyle = is_style lower q, el_css = []\<rparr> # ss_stack st\<rparr>)"
proof -
  obtain q r where q: "\<not> ss_rootClosed st" "readName (drop 1 s) = Some (q, r)"
    using assms unfolding start_tag_def by (auto split: if_splits option.splits)
  note e = assms [unfolded start_tag_def q(2) if_not_P [OF q(1)] option.case]
  from e obtain attrs closed where a: "read_attrs [] r = Inr (attrs, closed, rest)"
    by (auto simp: bindE_Inr Let_def)
  note e2 = e [unfolded a bindE_simps prod.case Let_def]
  from e2 obtain sc n where d: "declare_namespaces lower (first_row (ss_stack st) = None) attrs
      (case first_row (ss_stack st) of Some p \<Rightarrow> el_scope p | None \<Rightarrow> [(lit ''xml'', XML_NS)], ss_namespaces st) = Inr (sc, n)"
    by (auto simp only: bindE_Inr prod.exhaust elim!: prod.exhaust)
  note e3 = e2 [unfolded d bindE_simps prod.case]
  from e3 obtain z where z: "(if first_row (ss_stack st) = None then bindE (root_size sc q attrs) (\<lambda>z. Inr (Some z))
      else Inr (ss_size st)) = Inr z"
    by (elim bindE_cases)
  note e4 = e3 [unfolded z bindE_simps]
  show thesis
    by (rule that [OF q(2) a q(1) d z]) (use e4 q(1) in \<open>auto simp: bindE_Inr is_style_def local_name_def split: if_splits\<close>)
qed

lemma element_allowed_safe:
  assumes "element_allowed lower parent sc q = Inr ()" "xml_name q" "map_of sc [] = Some SVG_NS"
    and "\<forall>a \<in> set attrs. safe_attr lower a"
  shows "safe_open lower q attrs" "parent = Some el \<Longrightarrow> \<not> el_isStyle el"
proof -
  note e = assms(1) [unfolded element_allowed_def Let_def bindE_Inr demand_Inr]
  have "q \<in> set SVG_ELEMENTS" if "58 \<notin> set q"
    using e assms(3) splitName_plain [OF that] by auto
  then show "safe_open lower q attrs" using e assms(4) by (auto simp: safe_open_def local_name_def)
  show "parent = Some el \<Longrightarrow> \<not> el_isStyle el" using e by auto
qed

lemma start_tag_ok:
  assumes "start_tag lower st s = Inr (st1, rest)" "screen_ok lower st" "begins (lit ''<'') s"
  shows "screen_ok lower st1 \<and> (\<exists>q at attrs closed. s = lit ''<'' @ q @ at @ (if closed then lit ''/>'' else lit ''>'') @ rest \<and>
    xml_name q \<and> attributes at attrs \<and> distinct (map fst attrs) \<and>
    (\<forall>ps. rest_ok lower st1 ps \<longrightarrow> rest_ok lower st (Open q attrs closed # ps)))"
proof -
  obtain q r attrs closed sc n z where p: "readName (drop 1 s) = Some (q, r)" "read_attrs [] r = Inr (attrs, closed, rest)"
    "\<not> ss_rootClosed st"
    "declare_namespaces lower (first_row (ss_stack st) = None) attrs
      (case first_row (ss_stack st) of Some p \<Rightarrow> el_scope p | None \<Rightarrow> [(lit ''xml'', XML_NS)], ss_namespaces st) = Inr (sc, n)"
    "(if first_row (ss_stack st) = None then bindE (root_size sc q attrs) (\<lambda>z. Inr (Some z)) else Inr (ss_size st)) = Inr z"
    "element_allowed lower (first_row (ss_stack st)) sc q = Inr ()" "check_attrs lower sc attrs = Inr ()"
    and st1: "st1 = (if closed then st\<lparr>ss_size := z, ss_namespaces := n, ss_rootClosed := first_row (ss_stack st) = None\<rparr>
      else st\<lparr>ss_size := z, ss_namespaces := n, ss_stack := \<lparr>el_qname = q, el_scope = sc,
        el_isStyle = is_style lower q, el_css = []\<rparr> # ss_stack st\<rparr>)"
    by (rule start_tag_parts [OF assms(1)])
  have name: "drop 1 s = q @ r" "xml_name q" using readName_Some [OF p(1)] by simp_all
  obtain at where at: "r = at @ (if closed then lit ''/>'' else lit ''>'') @ rest" "attributes at attrs" "distinct (map fst attrs)"
    using read_attrs_Inr [OF p(2)] by blast
  have "length (lit ''<'') = 1" by simp
  with begins_append [OF assms(3)] have "s = lit ''<'' @ drop 1 s" by metis
  then have s: "s = lit ''<'' @ q @ at @ (if closed then lit ''/>'' else lit ''>'') @ rest" using name(1) at(1) by metis
  have root: "fst (splitName q) = [] \<and> snd (splitName q) = lit ''svg'' \<and> map_of sc [] = Some SVG_NS \<and> z \<noteq> None" if "ss_stack st = []"
    using p(5) that by (auto simp: first_row_def root_size_def bindE_Inr simp del: lit_simps)
  have inner: "z = ss_size st" if "ss_stack st = el # els" for el els using p(5) that by (simp add: first_row_def)
  have ns: "map_of sc [] = Some SVG_NS"
  proof (cases "ss_stack st")
    case (Cons el els)
    then have "map_of (el_scope el) [] = Some SVG_NS" using assms(2) by (simp add: screen_ok_def)
    then show ?thesis using declared_default [OF p(4)] Cons by (auto simp: first_row_def)
  qed (use root in blast)
  note safe = element_allowed_safe [OF p(6) name(2) ns check_attrs_safe [OF p(7)]]
  have ok: "screen_ok lower st1"
    using assms(2) root inner ns p(3) by (cases "ss_stack st") (auto simp: st1 screen_ok_def first_row_def)
  have "rest_ok lower st (Open q attrs closed # ps)" if "rest_ok lower st1 ps" for ps
  proof -
    have svg: "q = lit ''svg''" if "ss_stack st = []" using root [OF that] xml_name_prefix(1) [OF name(2)] by auto
    have "document (map el_qname (ss_stack st)) (ss_rootClosed st) (Open q attrs closed # ps)"
      using \<open>rest_ok lower st1 ps\<close> svg p(3)
      by (cases "ss_stack st") (auto simp: rest_ok_def st1 first_row_def simp del: lit_simps split: if_splits)
    moreover have "sheets_safe lower (Open q attrs closed # ps)"
      using \<open>rest_ok lower st1 ps\<close> by (intro sheets_safe_Cons) (auto simp: rest_ok_def st1)
    moreover have "\<not> el_isStyle el" if "ss_stack st = el # els" for el els using safe(2) that by (simp add: first_row_def)
    ultimately show ?thesis
      using \<open>rest_ok lower st1 ps\<close> safe(1) by (auto simp: rest_ok_def split: list.split)
  qed
  then show ?thesis using ok s name(2) at(2,3) by blast
qed

section \<open>The document\<close>

lemma quiet_piece:
  assumes "rest_ok lower st ps" "text_of p = []" "\<not> is_tag p"
    and "document (map el_qname (ss_stack st)) (ss_rootClosed st) ps \<Longrightarrow>
      document (map el_qname (ss_stack st)) (ss_rootClosed st) (p # ps)"
  shows "rest_ok lower st (p # ps)"
  using assms by (intro rest_ok_text [where stack = "ss_stack st"]) (auto simp: add_css_def split: list.split)

lemma markup_ok:
  assumes "markup lower st s = Inr (st1, rest)" "screen_ok lower st" "s \<noteq> []" "hd s = 60"
  shows "screen_ok lower st1 \<and> (\<exists>p. (\<forall>ps. pieces rest ps \<longrightarrow> pieces s (p # ps)) \<and>
    (\<forall>ps. rest_ok lower st1 ps \<longrightarrow> rest_ok lower st (p # ps)))"
proof -
  have cut: "s = x @ b @ p @ c \<and> ends_first p b" if "begins x s" "split_at p (drop (length x) s) = Some (b, c)" for x p b c
    using begins_append [OF that(1)] split_at_Some [OF that(2)] by metis
  have len: "4 = length (lit ''<!--'')" "9 = length (lit ''<![CDATA['')" "2 = length (lit ''<?'')" by simp_all
  consider
      (comment) body where "begins (lit ''<!--'') s" "split_at (lit ''-->'') (drop 4 s) = Some (body, rest)" "st1 = st"
    | (cdata) body el els where "begins (lit ''<![CDATA['') s" "split_at (lit '']]>'') (drop 9 s) = Some (body, rest)"
        "ss_stack st = el # els" "st1 = st\<lparr>ss_stack := add_css body el # els\<rparr>"
    | (instruction) body where "begins (lit ''<?'') s" "split_at (lit ''?>'') (drop 2 s) = Some (body, rest)" "st1 = st"
    | (close) "begins (lit ''</'') s" "end_tag lower st s = Inr (st1, rest)"
    | (start) "start_tag lower st s = Inr (st1, rest)"
    using assms(1) unfolding markup_def Let_def
    by (auto simp del: lit_simps split: if_splits option.splits list.splits)
  then show ?thesis
  proof cases
    case comment
    from cut [OF comment(1) comment(2) [unfolded len(1)]]
    have "\<forall>ps. pieces rest ps \<longrightarrow> pieces s (Comment body # ps)" using pieces_comment by metis
    then show ?thesis using assms(2) comment(3) quiet_piece [of lower st _ "Comment body"] by auto
  next
    case cdata
    from cut [OF cdata(1) cdata(2) [unfolded len(2)]]
    have "\<forall>ps. pieces rest ps \<longrightarrow> pieces s (Cdata body # ps)" using pieces_cdata by metis
    moreover have "rest_ok lower st (Cdata body # ps)" if "rest_ok lower st1 ps" for ps
      using that cdata(3,4) by (intro rest_ok_text [where stack = "ss_stack st1"]) auto
    moreover have "screen_ok lower st1" using screen_ok_text [OF assms(2), of body] cdata(3,4) by simp
    ultimately show ?thesis by blast
  next
    case instruction
    from cut [OF instruction(1) instruction(2) [unfolded len(3)]]
    have "\<forall>ps. pieces rest ps \<longrightarrow> pieces s (Instruction body # ps)" using pieces_instruction by metis
    then show ?thesis using assms(2) instruction(3) quiet_piece [of lower st _ "Instruction body"] by auto
  next
    case close
    from end_tag_ok [OF close(2) assms(2) close(1)] show ?thesis using pieces_close by metis
  next
    case start
    have "begins (lit ''<'') s" using assms(3,4) by (cases s) (auto simp: begins_def)
    from start_tag_ok [OF start assms(2) this] show ?thesis using pieces_open by metis
  qed
qed

lemma walk_ok:
  assumes "walk lower st s = Inr st'" "screen_ok lower st" "ss_stack st' = []" "ss_size st' \<noteq> None"
  shows "\<exists>ps. pieces s ps \<and> rest_ok lower st ps"
  using assms
proof (induction lower st s rule: walk.induct)
  case (1 lower st s)
  let ?c = "takeWhile (\<lambda>c. c \<noteq> 60) s" and ?t = "dropWhile (\<lambda>c. c \<noteq> 60) s"
  have last: "rest_ok lower st' []" if "screen_ok lower st'"
    using that 1(4,5) by (auto simp: rest_ok_def screen_ok_def sheets_safe_def)
  show ?case
  proof (cases "s = []")
    case True
    then have "st' = st" using 1(2) by (simp add: walk.simps)
    then show ?thesis using True last 1(3) pieces_end by auto
  next
    case False
    obtain st1 where st1: "character_data st ?c = Inr st1"
      using 1(2) False by (subst (asm) walk.simps) (auto simp: bindE_Inr)
    have ok1: "screen_ok lower st1"
      using character_data_ok(1) [OF st1] screen_ok_text [OF 1(3)] st1 1(3) by (cases "?c = []") (auto simp: character_data_def)
    have chars: "\<exists>ps. pieces s ps \<and> rest_ok lower st ps" if t: "pieces ?t ps" "rest_ok lower st1 ps" for ps
    proof (cases "?c = []")
      case True
      then show ?thesis using t st1 takeWhile_dropWhile_id [of "\<lambda>c. c \<noteq> 60" s] by (auto simp: character_data_def)
    next
      case False
      have "?t = [] \<or> hd ?t = 60" using hd_dropWhile [of "\<lambda>c. c \<noteq> 60" s] by auto
      with False t(1) have "pieces (?c @ ?t) (Chars ?c # ps)" by (intro pieces_chars) (auto dest: set_takeWhileD)
      then show ?thesis using character_data_ok(2) [OF st1 False t(2)] by auto
    qed
    show ?thesis
    proof (cases "?t = []")
      case True
      then have "st' = st1" using 1(2) False st1 by (subst (asm) walk.simps) simp
      then show ?thesis using chars [of "[]"] True last ok1 pieces_end by simp
    next
      case t: False
      note w = 1(2) [unfolded walk.simps [of lower st s] if_not_P [OF False] st1 bindE_simps if_not_P [OF t]]
      obtain st2 rest where m: "markup lower st1 ?t = Inr (st2, rest)" "walk lower st2 rest = Inr st'"
        using w by (cases "markup lower st1 ?t") auto
      have "hd ?t = 60" using hd_dropWhile [OF t] by simp
      from markup_ok [OF m(1) ok1 t this] obtain p where p: "screen_ok lower st2"
        "\<forall>ps. pieces rest ps \<longrightarrow> pieces ?t (p # ps)" "\<forall>ps. rest_ok lower st2 ps \<longrightarrow> rest_ok lower st1 (p # ps)"
        by blast
      obtain ps where "pieces rest ps" "rest_ok lower st2 ps"
        using 1(1) [OF False t m(1) refl m(2) p(1) 1(4,5)] by blast
      then show ?thesis using chars [of "p # ps"] p(2,3) by blast
    qed
  qed
qed

text \<open>Every accepted text is a safe document, after an XML declaration of its own.\<close>

lemma screenSvg_safe:
  assumes "screenSvg lower s = Inr z"
  shows "\<exists>body ps. xml_declaration s = Inr body \<and> pieces body ps \<and> document [] False ps \<and>
    (\<forall>q as closed. Open q as closed \<in> set ps \<longrightarrow> safe_open lower q as) \<and> sheets_safe lower ps"
proof -
  obtain body st where b: "xml_declaration s = Inr body" "walk lower new_screen body = Inr st" "ss_stack st = []"
    "ss_size st \<noteq> None"
    using assms by (auto simp: screenSvg_def bindE_Inr split: option.splits)
  have "screen_ok lower new_screen" by (simp add: screen_ok_def new_screen_def)
  from walk_ok [OF b(2) this b(3,4)] show ?thesis using b(1) by (auto simp: rest_ok_def new_screen_def)
qed

end
