(* ===== verification/LogoImage.thy ===== *)
theory LogoImage
  imports LogoRules Covers "HOL-Library.Word"
begin

text \<open>
  What an uploaded logo is: the bytes and their type, read by \<open>inspectLogo\<close> of
  \<open>src/src/server/lib/sponsor-logo.ts\<close>, and the key it is stored under,
  \<open>sponsor-logo-key.ts\<close>. Of a PNG only the header is read, as the code does.
\<close>

section \<open>Reasons\<close>

definition SPONSOR_LOGO_MAX_BYTES :: nat where "SPONSOR_LOGO_MAX_BYTES = 512 * 1024"
definition PNG_MIN_SIDE :: nat where "PNG_MIN_SIDE = 16"
definition PNG_MAX_SIDE :: nat where "PNG_MAX_SIDE = 4096"

text \<open>Two units are written by their code: the apostrophe U+2019 and the ellipsis U+2026.\<close>

fun REASONS :: "logo_reason \<Rightarrow> jstr" where
  "REASONS LogoType = lit ''The logo must be an SVG or PNG file.''"
| "REASONS LogoEmpty = lit ''The logo file is empty.''"
| "REASONS LogoSize = lit ''The logo must be 512 KB or smaller.''"
| "REASONS LogoPng = lit ''This PNG could not be read. Export it again as a standard PNG.''"
| "REASONS LogoCgbi = lit ''This PNG uses an Apple-only format. Export it again as a standard PNG.''"
| "REASONS LogoPngSize = lit ''A PNG logo must be 16 to 4096 pixels on each side.''"
| "REASONS LogoSvgz = lit ''Compressed SVG (.svgz) is not supported. Save it as a plain SVG.''"
| "REASONS LogoUtf8 = lit ''Save the SVG as UTF-8 text and upload it again.''"
| "REASONS LogoChars = lit ''The SVG contains characters that are not allowed. Export it again.''"
| "REASONS LogoMalformed = lit ''This SVG could not be read. Export it again from your design tool.''"
| "REASONS LogoDoctype = lit ''The SVG has a DOCTYPE or entity declaration. Export it again without one.''"
| "REASONS LogoEntity = lit ''The SVG uses an entity that is not defined. Export it again from your design tool.''"
| "REASONS LogoStylesheet = lit ''The SVG links a stylesheet, which is not allowed in a logo.''"
| "REASONS LogoNotSvg = lit ''The file does not start with an <svg> element.''"
| "REASONS LogoXmlns = lit ''The SVG is missing xmlns=\"http://www.w3.org/2000/svg\". Export it again as a standalone SVG.''"
| "REASONS LogoNamespace = lit ''The SVG switches to another namespace, which is not allowed in a logo.''"
| "REASONS LogoNoViewBox = lit ''The SVG has no viewBox, so its shape is unknown. Export it again with a viewBox.''"
| "REASONS LogoBadViewBox = lit ''The SVG'' @ [8217] @ lit ''s viewBox must be four numbers with a width and height above zero.''"
| "REASONS LogoShape = lit ''A logo can be at most 20 times wider than it is tall, or taller than it is wide.''"
| "REASONS LogoHtml = lit ''The SVG contains HTML, which is not allowed in a logo.''"
| "REASONS LogoHandler = lit ''The SVG contains event handlers (on'' @ [8230] @ lit '' attributes), which are not allowed in a logo.''"
| "REASONS LogoScriptLink = lit ''The SVG contains a script link, which is not allowed in a logo.''"
| "REASONS LogoLink = lit ''The SVG links to a file outside itself. Only embedded images and # links are allowed.''"
| "REASONS LogoCss = lit ''The SVG'' @ [8217] @ lit ''s styles load something from outside the file, which is not allowed in a logo.''"
| "REASONS (LogoElement name) = lit ''The SVG contains a <'' @ name @ lit ''> element, which is not allowed in a logo.''"

section \<open>PNG\<close>

unbundle bit_operations_syntax

type_synonym byte = "8 word"

datatype logo_ext = Svg | Png

type_synonym inspection = "double \<times> double \<times> logo_ext"

definition PNG_SIGNATURE :: "byte list" where
  "PNG_SIGNATURE = [0x89, 0x50, 0x4E, 0x47, 0x0D, 0x0A, 0x1A, 0x0A]"

text \<open>Shifts and \<open>|\<close> work on 32 bits; \<open>>>> 0\<close> reads them without a sign.\<close>

definition readUint32 :: "byte list \<Rightarrow> nat \<Rightarrow> nat" where
  "readUint32 bytes k =
    unat (push_bit 24 (ucast (bytes ! k)) OR push_bit 16 (ucast (bytes ! (k + 1))) OR
      push_bit 8 (ucast (bytes ! (k + 2))) OR (ucast (bytes ! (k + 3)) :: 32 word))"

definition inspectPng :: "byte list \<Rightarrow> logo_reason + inspection" where
  "inspectPng bytes =
    (if length bytes < 33 \<or> take 8 bytes \<noteq> PNG_SIGNATURE then Inl LogoPng
     else let firstChunk = map unat (take 4 (drop 12 bytes));
              width = readUint32 bytes 16; height = readUint32 bytes 20
       in if firstChunk = lit ''CgBI'' then Inl LogoCgbi
          else if firstChunk \<noteq> lit ''IHDR'' \<or> readUint32 bytes 8 \<noteq> 13 then Inl LogoPng
          else if width < PNG_MIN_SIDE \<or> height < PNG_MIN_SIDE \<or> width > PNG_MAX_SIDE \<or> height > PNG_MAX_SIDE
          then Inl LogoPngSize
          else bindE (checkShape (int width, 0) (int height, 0)) (\<lambda>_. Inr ((int width, 0), (int height, 0), Png)))"

section \<open>SVG\<close>

definition inspectSvg ::
  "(jstr \<Rightarrow> jstr) \<Rightarrow> (byte list \<Rightarrow> jstr option) \<Rightarrow> byte list \<Rightarrow> logo_reason + inspection" where
  "inspectSvg lower decode bytes =
    (if take 2 bytes = [0x1F, 0x8B] then Inl LogoSvgz
     else case decode bytes of
         None \<Rightarrow> Inl LogoUtf8
       | Some s \<Rightarrow> bindE (screenSvg lower s) (\<lambda>(width, height). Inr (width, height, Svg)))"

section \<open>The upload\<close>

definition SPONSOR_LOGO_TYPES :: "(jstr \<times> logo_ext) list" where
  "SPONSOR_LOGO_TYPES = [(lit ''image/svg+xml'', Svg), (lit ''image/png'', Png)]"

text \<open>The type without its parameters: \<open>(contentType.split(';')[0] ?? '').trim().toLowerCase()\<close>.\<close>

definition bare_type :: "(jstr \<Rightarrow> jstr) \<Rightarrow> jstr \<Rightarrow> jstr" where
  "bare_type lower contentType = lower (trim (takeWhile (\<lambda>c. c \<noteq> 59) contentType))"

definition inspectLogo ::
  "(jstr \<Rightarrow> jstr) \<Rightarrow> (byte list \<Rightarrow> jstr option) \<Rightarrow> byte list \<Rightarrow> jstr \<Rightarrow> logo_reason + inspection" where
  "inspectLogo lower decode bytes contentType =
    (case map_of SPONSOR_LOGO_TYPES (bare_type lower contentType) of
       None \<Rightarrow> Inl LogoType
     | Some ext \<Rightarrow>
         if bytes = [] then Inl LogoEmpty
         else if length bytes > SPONSOR_LOGO_MAX_BYTES then Inl LogoSize
         else if ext = Png then inspectPng bytes else inspectSvg lower decode bytes)"

section \<open>Keys\<close>

text \<open>\<open>/^[0-9a-f]{8}-[0-9a-f]{4}-[0-9a-f]{4}-[0-9a-f]{4}-[0-9a-f]{12}$/i\<close>\<close>

definition UUID :: "jstr \<Rightarrow> bool" where
  "UUID s \<longleftrightarrow> length s = 36 \<and>
    list_all (\<lambda>(k, c). if k \<in> {8, 13, 18, 23} then c = 45 else is_hex c) (List.enumerate 0 s)"

definition ext_text :: "logo_ext \<Rightarrow> jstr" where
  "ext_text e = (case e of Svg \<Rightarrow> lit ''svg'' | Png \<Rightarrow> lit ''png'')"

definition sponsorLogoPrefix :: "jstr \<Rightarrow> jstr" where
  "sponsorLogoPrefix sponsorId = lit ''sponsors/'' @ sponsorId @ lit ''/''"

definition sponsorLogoKey :: "jstr \<Rightarrow> jstr \<Rightarrow> logo_ext \<Rightarrow> jstr result" where
  "sponsorLogoKey nano sponsorId e =
    (if \<not> UUID sponsorId then Inl RangeError
     else Inr (sponsorLogoPrefix sponsorId @ lit ''logo-'' @ nano @ lit ''.'' @ ext_text e))"

text \<open>\<open>/^logo-[A-Za-z0-9_-]{12}\.(svg|png)$/\<close>\<close>

definition logo_name :: "jstr \<Rightarrow> bool" where
  "logo_name r \<longleftrightarrow>
    take 5 r = lit ''logo-'' \<and> length (take 12 (drop 5 r)) = 12 \<and>
    list_all key_char (take 12 (drop 5 r)) \<and> drop 17 r \<in> set (map lit [''.svg'', ''.png''])"

definition isSponsorLogoKeyFor :: "jstr \<Rightarrow> jstr \<Rightarrow> bool" where
  "isSponsorLogoKeyFor key sponsorId \<longleftrightarrow> UUID sponsorId \<and>
    (let prefix = sponsorLogoPrefix sponsorId
     in take (length prefix) key = prefix \<and> logo_name (drop (length prefix) key))"

lemma issued_logo_key:
  assumes "sponsorLogoKey nano i e = Inr key" "length nano = 12" "list_all key_char nano"
  shows "isSponsorLogoKeyFor key j \<longleftrightarrow> j = i"
proof -
  have five: "length (lit ''logo-'') = 5" by (simp add: lit_def)
  have key: "UUID i" "key = sponsorLogoPrefix i @ lit ''logo-'' @ nano @ lit ''.'' @ ext_text e"
    using assms(1) by (auto simp: sponsorLogoKey_def split: if_splits)
  have "lit ''.'' @ ext_text e \<in> set (map lit [''.svg'', ''.png''])"
    by (cases e) (simp_all add: ext_text_def lit_def)
  moreover have "drop 5 (lit ''logo-'' @ nano @ lit ''.'' @ ext_text e) = nano @ lit ''.'' @ ext_text e"
    "drop 17 (lit ''logo-'' @ nano @ lit ''.'' @ ext_text e) = lit ''.'' @ ext_text e"
    "take 5 (lit ''logo-'' @ nano @ lit ''.'' @ ext_text e) = lit ''logo-''"
    using assms(2) five by simp_all
  ultimately have name: "logo_name (lit ''logo-'' @ nano @ lit ''.'' @ ext_text e)"
    using assms(2,3) by (simp add: logo_name_def)
  show ?thesis
  proof
    assume j: "isSponsorLogoKeyFor key j"
    then have len: "length j = length i" using key(1) by (simp add: isSponsorLogoKeyFor_def UUID_def)
    then have l: "length (sponsorLogoPrefix j) = length (sponsorLogoPrefix i)" by (simp add: sponsorLogoPrefix_def)
    from j have "take (length (sponsorLogoPrefix j)) key = sponsorLogoPrefix j" by (simp add: isSponsorLogoKeyFor_def Let_def)
    then have "sponsorLogoPrefix i = sponsorLogoPrefix j" using key(2) l by simp
    then show "j = i" using len by (simp add: sponsorLogoPrefix_def)
  next
    assume "j = i"
    then show "isSponsorLogoKeyFor key j" using key name by (simp add: isSponsorLogoKeyFor_def Let_def)
  qed
qed

end
