(* ===== verification/SponsorDesk.thy ===== *)
theory SponsorDesk
  imports LogoImage SystemLaws
begin

text \<open>
  The sponsors with the storage of their logos: the whole of \<open>create\<close>, \<open>update\<close> and
  \<open>delete\<close> of \<open>src/src/server/services/sponsors.service.ts\<close>, storage calls included, and the file
  gate of \<open>src/src/lib/validation/sponsors.ts\<close>. Whether a storage call succeeds is an
  argument, and \<open>env\<close> is what other requests do between the upload and the transaction.
\<close>

section \<open>The file field\<close>

text \<open>What the form's \<open>logo\<close> field holds: nothing, a text, or a file (a blob has no name).\<close>

datatype logo_field = NoLogoField | TextField jstr | FileField jstr nat jstr

datatype logo_file_error = FileRequired | FileNotFile | FileEmpty | FileSize | FileType

definition typeFromName :: "(jstr \<Rightarrow> jstr) \<Rightarrow> jstr \<Rightarrow> jstr" where
  "typeFromName lower name =
    (let l = rev (lower name)
     in if begins (rev (lit ''.svg'')) l then lit ''image/svg+xml''
        else if begins (rev (lit ''.png'')) l then lit ''image/png''
        else [])"

definition checkLogoFile :: "(jstr \<Rightarrow> jstr) \<Rightarrow> bool \<Rightarrow> logo_field \<Rightarrow> logo_file_error + jstr option" where
  "checkLogoFile lower required field =
    (let none = (if required then Inl FileRequired else Inr None)
     in case field of
          NoLogoField \<Rightarrow> none
        | TextField s \<Rightarrow> if s = [] then none else Inl FileNotFile
        | FileField name bytes ty \<Rightarrow>
            if bytes = 0 \<and> name = [] then none
            else if bytes = 0 then Inl FileEmpty
            else if bytes > SPONSOR_LOGO_MAX_BYTES then Inl FileSize
            else (let t = (if bare_type lower ty = [] then typeFromName lower name else bare_type lower ty)
              in if map_of SPONSOR_LOGO_TYPES t = None then Inl FileType else Inr (Some t)))"

section \<open>Storage\<close>

record logo_upload =
  lu_bytes :: "byte list"
  lu_contentType :: jstr

record checked_logo =
  cl_bytes :: "byte list"
  cl_ext :: logo_ext
  cl_width :: double
  cl_height :: double

record stored_object =
  so_body :: "byte list"
  so_contentType :: jstr
  so_contentDisposition :: jstr
  so_cacheControl :: jstr

record sponsor_world =
  sw_db :: db
  sw_objects :: "jstr \<rightharpoonup> stored_object"

datatype sponsor_failure = Refused app_error | StorageFailed

definition CONTENT_TYPE :: "logo_ext \<Rightarrow> jstr" where
  "CONTENT_TYPE e = (case e of Svg \<Rightarrow> lit ''image/svg+xml'' | Png \<Rightarrow> lit ''image/png'')"

definition LOGO_CACHE_CONTROL :: jstr where
  "LOGO_CACHE_CONTROL = lit ''public, max-age=31536000, immutable''"

definition checkLogo ::
  "(jstr \<Rightarrow> jstr) \<Rightarrow> (byte list \<Rightarrow> jstr option) \<Rightarrow> logo_upload \<Rightarrow> checked_logo result" where
  "checkLogo lower decode logo =
    (case inspectLogo lower decode (lu_bytes logo) (lu_contentType logo) of
       Inl reason \<Rightarrow> Inl (SponsorLogoInvalidError (REASONS reason))
     | Inr (width, height, ext) \<Rightarrow>
         Inr \<lparr>cl_bytes = lu_bytes logo, cl_ext = ext, cl_width = width, cl_height = height\<rparr>)"

definition logo_object :: "checked_logo \<Rightarrow> stored_object" where
  "logo_object logo =
    \<lparr>so_body = cl_bytes logo, so_contentType = CONTENT_TYPE (cl_ext logo),
     so_contentDisposition = lit ''attachment'', so_cacheControl = LOGO_CACHE_CONTROL\<rparr>"

definition storeLogo ::
  "bool \<Rightarrow> jstr \<Rightarrow> jstr \<Rightarrow> checked_logo \<Rightarrow> sponsor_world \<Rightarrow> sponsor_failure + jstr \<times> sponsor_world" where
  "storeLogo put_ok nano sponsorId logo w =
    (case sponsorLogoKey nano sponsorId (cl_ext logo) of
       Inl e \<Rightarrow> Inl (Refused e)
     | Inr key \<Rightarrow>
         if put_ok then Inr (key, w\<lparr>sw_objects := (sw_objects w)(key \<mapsto> logo_object logo)\<rparr>)
         else Inl StorageFailed)"

definition bestEffortDelete :: "bool \<Rightarrow> jstr \<Rightarrow> sponsor_world \<Rightarrow> sponsor_world" where
  "bestEffortDelete delete_ok key w =
    (if delete_ok then w\<lparr>sw_objects := (sw_objects w)(key := None)\<rparr> else w)"

section \<open>The requests\<close>

text \<open>What a request is given besides its input: the outcomes of the storage calls, the clock,
  the random part of a key, and the other requests.\<close>

record sponsor_context =
  sc_lower :: "jstr \<Rightarrow> jstr"
  sc_decode :: "byte list \<Rightarrow> jstr option"
  sc_text :: "uuid \<Rightarrow> jstr"
  sc_nano :: jstr
  sc_put :: bool
  sc_delete :: bool
  sc_now :: instant
  sc_env :: "sponsor_world \<Rightarrow> sponsor_world"

definition stored_of :: "jstr \<Rightarrow> checked_logo \<Rightarrow> stored_logo" where
  "stored_of key logo = \<lparr>sl_key = key, sl_width = cl_width logo, sl_height = cl_height logo\<rparr>"

definition createSponsor ::
  "sponsor_context \<Rightarrow> uuid \<Rightarrow> sponsor_input \<Rightarrow> logo_upload \<Rightarrow> sponsor_world
    \<Rightarrow> (sponsor_failure + sponsor_row) \<times> sponsor_world" where
  "createSponsor c i inp up w =
    (case checkLogo (sc_lower c) (sc_decode c) up of
       Inl e \<Rightarrow> (Inl (Refused e), w)
     | Inr logo \<Rightarrow>
         (case storeLogo (sc_put c) (sc_nano c) (sc_text c i) logo w of
            Inl e \<Rightarrow> (Inl e, w)
          | Inr (key, w1) \<Rightarrow>
              let w2 = sc_env c w1
              in case sponsor_create (sc_now c) i inp (stored_of key logo) (sw_db w2) of
                   Inl e \<Rightarrow> (Inl (Refused e), bestEffortDelete (sc_delete c) key w2)
                 | Inr ((row, demoted), s) \<Rightarrow> (Inr row, w2\<lparr>sw_db := s\<rparr>)))"

definition updateSponsor ::
  "sponsor_context \<Rightarrow> uuid \<Rightarrow> sponsor_input \<Rightarrow> logo_upload option \<Rightarrow> sponsor_world
    \<Rightarrow> (sponsor_failure + sponsor_row) \<times> sponsor_world" where
  "updateSponsor c i inp up w =
    (case (case up of None \<Rightarrow> Inr None | Some u \<Rightarrow> map_sum id Some (checkLogo (sc_lower c) (sc_decode c) u)) of
       Inl e \<Rightarrow> (Inl (Refused e), w)
     | Inr checked \<Rightarrow>
         if sponsor_findById i (sw_db w) = None then (Inl (Refused (SponsorNotFoundError i)), w)
         else case (case checked of None \<Rightarrow> Inr (None, w)
             | Some logo \<Rightarrow> map_sum id (\<lambda>(key, w1). (Some (stored_of key logo), w1))
                 (storeLogo (sc_put c) (sc_nano c) (sc_text c i) logo w)) of
           Inl e \<Rightarrow> (Inl e, w)
         | Inr (stored, w1) \<Rightarrow>
             let w2 = sc_env c w1
             in case sponsor_update_tx (sc_now c) i inp stored (sw_db w2) of
                  Inl e \<Rightarrow> (Inl (Refused e),
                    case stored of None \<Rightarrow> w2 | Some l \<Rightarrow> bestEffortDelete (sc_delete c) (sl_key l) w2)
                | Inr ((row, replaced, demoted), s) \<Rightarrow>
                    let w3 = w2\<lparr>sw_db := s\<rparr>
                    in (Inr row, case replaced of None \<Rightarrow> w3
                          | Some key \<Rightarrow> if key = [] then w3 else bestEffortDelete (sc_delete c) key w3))"

definition deleteSponsor ::
  "sponsor_context \<Rightarrow> uuid \<Rightarrow> sponsor_world \<Rightarrow> (sponsor_failure + unit) \<times> sponsor_world" where
  "deleteSponsor c i w =
    (case sponsor_remove i (sw_db w) of
       Inl e \<Rightarrow> (Inl (Refused e), w)
     | Inr (row, s) \<Rightarrow> (Inr (), bestEffortDelete (sc_delete c) (sp_logoKey row) (w\<lparr>sw_db := s\<rparr>)))"

section \<open>Which row has which logo\<close>

type_synonym logo_label = "uuid \<times> jstr \<times> double \<times> double"

definition label :: "sponsor_row \<Rightarrow> logo_label" where
  "label p = (sp_id p, sp_logoKey p, sp_logoWidth p, sp_logoHeight p)"

definition labels :: "db \<Rightarrow> logo_label list" where
  "labels s = map label (sponsors s)"

definition logo_label :: "uuid \<Rightarrow> stored_logo \<Rightarrow> logo_label" where
  "logo_label i l = (i, sl_key l, sl_width l, sl_height l)"

lemma keeps_labels:
  assumes "\<And>p. label (f p) = label p"
  shows "keeps (\<lambda>s. labels s = L) (update_sponsors P f)"
proof (rule keepsI)
  fix s x s' assume "labels s = L" "update_sponsors P f s = Inr (x, s')"
  then show "labels s' = L" using map_update_rows [of "sponsors s" P label f] assms
    by (auto simp: labels_def tx_simps)
qed

lemma demote_labels: "keeps (\<lambda>s. labels s = L) (demotePresenting keepId at)"
  unfolding demotePresenting_def by (intro keeps_intros keeps_labels) (simp_all add: label_def)

lemma renumber_labels: "keeps (\<lambda>s. labels s = L) (renumber ids)"
  unfolding renumber_def by (intro keeps_intros keeps_labels) (simp_all add: label_def)

lemma renumber_same: "renumber ids s = Inr (u, s') \<Longrightarrow> labels s' = labels s"
  using keepsD [OF renumber_labels [of "labels s"]] by blast

lemma demote_same:
  "(if b then demotePresenting k at else return_tx None) s = Inr (x, s') \<Longrightarrow> labels s' = labels s"
  using keepsD [OF demote_labels [of "labels s"]] by (auto simp: tx_simps split: if_splits)

lemma create_labels:
  assumes "sponsor_create at i inp l s = Inr (r, s')"
  shows "labels s' = labels s @ [logo_label i l]"
proof -
  obtain demoted s1 ids pos row s2 s3 where st:
    "(if sn_level inp = Presenting then demotePresenting None at else return_tx None) s = Inr (demoted, s1)"
    "sponsor_insert (new_sponsor_row at i inp l pos) s1 = Inr (row, s2)" "renumber ids s2 = Inr ((), s3)" "s' = s3"
    using assms by (auto simp: sponsor_create_def tx_simps case_prod_unfold)
  have "labels s2 = labels s1 @ [logo_label i l]"
    using st(2) by (auto simp: sponsor_insert_def tx_simps labels_def label_def logo_label_def new_sponsor_row_def)
  then show ?thesis using demote_same [OF st(1)] renumber_same [OF st(3)] st(4) by simp
qed

lemma update_one_label:
  assumes "sponsor_update i g s = Inr (r, s')" "\<And>p. sp_id p = i \<Longrightarrow> label (g p) = h (label p)"
  shows "labels s' = map (\<lambda>l. if fst l = i then h l else l) (labels s)"
  using assms by (auto simp: sponsor_update_def tx_simps labels_def update_rows_def label_def)

lemma update_tx_labels:
  assumes "sponsor_update_tx at i inp logo s = Inr ((row, replaced, demoted), s')"
  obtains current where "current \<in> set (sponsors s)" "sp_id current = i"
    "replaced = (if logo = None then None else Some (sp_logoKey current))"
    "labels s' = map (\<lambda>l. if fst l = i then (case logo of None \<Rightarrow> l | Some n \<Rightarrow> logo_label i n) else l) (labels s)"
proof -
  obtain current demoted s1 pos ids updated s2 s3 where st: "sponsor_findById i s = Some current"
    "(if sn_level inp = Presenting then demotePresenting (Some i) at else return_tx None) s = Inr (demoted, s1)"
    "sponsor_update i (sponsor_edit at inp logo pos) s1 = Inr (updated, s2)"
    "renumber ids s2 = Inr ((), s3)"
    "replaced = (if logo = None then None else Some (sp_logoKey current))"
    "(if sp_level current = sn_level inp then return_tx ()
      else andThen (read_tx (listIdsByLevel (sp_level current))) renumber) s3 = Inr ((), s')"
    using assms unfolding sponsor_update_tx_def Let_def case_prod_unfold andThen_Inr by (auto simp: tx_simps)
  have last: "labels s' = labels s3" using st(6) renumber_same by (auto simp: tx_simps split: if_splits)
  have "labels s2 = map (\<lambda>l. if fst l = i then (case logo of None \<Rightarrow> l | Some n \<Rightarrow> logo_label i n) else l) (labels s1)"
    by (rule update_one_label [OF st(3)])
      (auto simp: sponsor_edit_def fill_sponsor_def label_def logo_label_def split: option.splits)
  then have "labels s' = map (\<lambda>l. if fst l = i then (case logo of None \<Rightarrow> l | Some n \<Rightarrow> logo_label i n) else l) (labels s)"
    using demote_same [OF st(2)] renumber_same [OF st(4)] last by simp
  then show thesis using that st(1,5) row_by_Some [of sp_id i "sponsors s" current] by (auto simp: sponsor_findById_def)
qed

lemma remove_labels:
  assumes "sponsor_remove i s = Inr (row, s')"
  shows "row \<in> set (sponsors s)" "sp_id row = i" "labels s' = filter (\<lambda>l. fst l \<noteq> i) (labels s)"
proof -
  obtain s1 ids where st: "sponsor_delete i s = Inr (Some row, s1)" "renumber ids s1 = Inr ((), s')"
    using assms by (auto simp: sponsor_remove_def tx_simps)
  have "first_row (filter (\<lambda>p. sp_id p = i) (sponsors s)) = Some row"
    and s1: "sponsors s1 = filter (\<lambda>p. sp_id p \<noteq> i) (sponsors s)"
    using st(1) by (auto simp: sponsor_delete_def delete_rows_def Let_def)
  then have "row \<in> set (filter (\<lambda>p. sp_id p = i) (sponsors s))" by (cases "filter (\<lambda>p. sp_id p = i) (sponsors s)") auto
  then show "row \<in> set (sponsors s)" "sp_id row = i" by auto
  show "labels s' = filter (\<lambda>l. fst l \<noteq> i) (labels s)"
    using renumber_same [OF st(2)] by (simp add: labels_def s1 filter_map o_def label_def)
qed

end
