(* ===== verification/LogoShapes.thy ===== *)
theory LogoShapes
  imports LogoImage
begin

text \<open>
  The shape of an accepted logo. A PNG's sides are whole numbers, for which the division of
  doubles in \<open>checkShape\<close> decides exactly; an SVG's come from its view box.
\<close>

section \<open>Rounding\<close>

lemma round_even_ge:
  assumes "0 < b" "c * b \<le> a"
  shows "c \<le> round_even a b"
proof -
  have "c \<le> a div b" using zdiv_mono1 [OF assms(2,1)] assms(1) by simp
  then show ?thesis by (auto simp: round_even_def Let_def)
qed

lemma round_even_near:
  assumes "0 < b"
  shows "round_even a b * b \<le> a + b"
proof -
  have "a div b * b + a mod b = a" "0 \<le> a mod b" using assms by simp_all
  then have "a div b * b \<le> a" by linarith
  then show ?thesis using assms by (auto simp: round_even_def Let_def distrib_right)
qed

lemma bits_4096: "bits n \<le> 13" if "n \<le> 4096"
proof -
  have "bits 4096 = 13" by code_simp
  then show ?thesis using bits_mono [OF that] by simp
qed

text \<open>The quotient of two sides of a PNG: far inside the range of a double.\<close>

lemma ieee_sides:
  fixes w h :: int
  assumes "0 < w" "w \<le> 4096" "0 < h" "h \<le> 4096"
  obtains m N where "ieee w h = (if m \<ge> 2 ^ 1024 * 2 ^ N then Infinite else Finite (m, - int N))"
    "m = round_even (w * 2 ^ N) h" "39 \<le> N"
proof -
  define k where k: "k = int (bits w) - int (bits h) - 53"
  define e where e: "e = max (if w * 2 ^ nat (- k) \<ge> 2 ^ 53 * (h * 2 ^ nat k) then k + 1 else k) (- 1074)"
  have "k \<le> -40" using bits_4096 [OF assms(2)] unfolding k by simp
  then have le: "e \<le> -39" unfolding e by simp
  define N where N: "N = nat (- e)"
  have n: "nat e = 0" "nat (- e) = N" "39 \<le> N" using le by (simp_all add: N)
  have eN: "e = - int N" using le by (simp add: N)
  have nz: "w \<noteq> 0" using assms(1) by simp
  have "ieee w h = (if round_even (w * 2 ^ nat (- e)) (h * 2 ^ nat e) * 2 ^ nat e \<ge> 2 ^ 1024 * 2 ^ nat (- e)
      then Infinite else Finite (sgn w * round_even (w * 2 ^ nat (- e)) (h * 2 ^ nat e), e))"
    unfolding ieee_def Let_def abs_of_pos [OF assms(1)] if_not_P [OF nz] k e by (rule refl)
  then have "ieee w h = (if round_even (w * 2 ^ N) h \<ge> 2 ^ 1024 * 2 ^ N
      then Infinite else Finite (round_even (w * 2 ^ N) h, e))"
    unfolding n using assms(1) by simp
  then show thesis unfolding eN by (rule that [OF _ refl n(3)])
qed

lemma checkShape_sides:
  fixes w h :: int
  assumes "0 < w" "w \<le> 4096" "0 < h" "h \<le> 4096" "checkShape (w, 0) (h, 0) = Inr ()"
  shows "w \<le> 20 * h" "h \<le> 20 * w"
proof -
  obtain m N where q: "ieee w h = (if m \<ge> 2 ^ 1024 * 2 ^ N then Infinite else Finite (m, - int N))"
    "m = round_even (w * 2 ^ N) h" "39 \<le> N"
    using ieee_sides [OF assms(1-4)] by metis
  have twenty: "to_double 1 20 = (7205759403792794, - 57)" by code_simp
  have fin: "\<not> double_less (20, 0) (m, - int N)" "\<not> double_less (m, - int N) (7205759403792794, - 57)"
    using assms(5) q(1) twenty
    by (auto simp: checkShape_def divide_doubles_def demand_def MAX_LOGO_ASPECT_def split: if_splits)
  have big: "(2::int) ^ 39 \<le> 2 ^ N" by (rule power_increasing) (use q(3) in simp_all)
  show "w \<le> 20 * h"
  proof (rule ccontr)
    assume "\<not> w \<le> 20 * h"
    then have "(20 * h + 1) * 2 ^ N \<le> w * 2 ^ N" by (intro mult_right_mono) simp_all
    moreover have "(20 * 2 ^ N + 1) * h \<le> (20 * h + 1) * 2 ^ N"
      using big assms(4) by (simp add: distrib_left distrib_right)
    ultimately have "20 * 2 ^ N + 1 \<le> m" unfolding q(2) by (intro round_even_ge [OF assms(3)]) (rule order_trans)
    then show False using fin(1) q(3) by (simp add: double_less_def min_def)
  qed
  show "h \<le> 20 * w"
  proof (rule ccontr)
    assume "\<not> h \<le> 20 * w"
    then have "(20 * w + 1) * 2 ^ N \<le> h * 2 ^ N" by (intro mult_right_mono) simp_all
    then have w: "20 * (w * 2 ^ N) + 2 ^ N \<le> h * 2 ^ N" by (simp add: algebra_simps)
    have "20 * (m * h) \<le> 20 * (w * 2 ^ N) + 20 * h" using round_even_near [OF assms(3), of "w * 2 ^ N"] q(2) by simp
    also have "\<dots> \<le> h * 2 ^ N" using w big assms(4) by simp
    finally have "(20 * m) * h \<le> 2 ^ N * h" by (simp add: algebra_simps)
    then have m: "20 * m \<le> 2 ^ N" using assms(3) by simp
    show False
    proof (cases "N \<le> 57")
      case True
      then have e: "- int N - min (- int N) (- 57) = int (57 - N)" "(- 57) - min (- int N) (- 57) = 0" by auto
      have "20 * (m * 2 ^ (57 - N)) \<le> 2 ^ N * 2 ^ (57 - N)" using m by (simp add: mult.assoc [symmetric] mult_right_mono)
      also have "\<dots> = 2 ^ 57" using True by (simp flip: power_add)
      finally have "20 * (m * 2 ^ (57 - N)) < 20 * 7205759403792794" by simp
      then show False using fin(2) unfolding double_less_def by (simp add: e)
    next
      case False
      then have e: "- int N - min (- int N) (- 57) = 0" "(- 57) - min (- int N) (- 57) = int (N - 57)" by auto
      have "2 ^ N = (2::int) ^ 57 * 2 ^ (N - 57)" using False by (simp only: power_add [symmetric]) simp
      then have "20 * m \<le> 2 ^ 57 * 2 ^ (N - 57)" using m by simp
      also have "\<dots> < (20 * 7205759403792794) * 2 ^ (N - 57)" by (intro mult_strict_right_mono) simp_all
      finally show False using fin(2) unfolding double_less_def by (simp add: e)
    qed
  qed
qed

section \<open>The sides of an accepted logo\<close>

text \<open>What \<open>readViewBox\<close> lets through.\<close>

definition sound_size :: "double \<times> double \<Rightarrow> bool" where
  "sound_size z \<longleftrightarrow>
    0 < fst (fst z) \<and> 0 < fst (snd z) \<and> \<not> double_less (MAX_VIEWBOX_SIDE, 0) (fst z) \<and>
    \<not> double_less (MAX_VIEWBOX_SIDE, 0) (snd z) \<and> checkShape (fst z) (snd z) = Inr ()"

lemma readViewBox_sound: "readViewBox as = Inr z \<Longrightarrow> sound_size z"
  unfolding readViewBox_def Let_def
  by (auto simp: bindE_Inr demand_def sound_size_def split: option.splits if_splits list.splits js_number.splits)

definition sized :: "screen \<Rightarrow> bool" where
  "sized st \<longleftrightarrow> (\<forall>z. ss_size st = Some z \<longrightarrow> sound_size z)"

lemma start_tag_sized: "start_tag lower st s = Inr (st', rest) \<Longrightarrow> sized st \<Longrightarrow> sized st'"
  unfolding start_tag_def Let_def
  by (auto simp: bindE_Inr sized_def root_size_def split: if_splits option.splits dest!: readViewBox_sound)

lemma end_tag_sized: "end_tag lower st s = Inr (st', rest) \<Longrightarrow> sized st \<Longrightarrow> sized st'"
  unfolding end_tag_def by (auto simp: bindE_Inr sized_def split: if_splits option.splits list.splits)

lemma markup_sized: "markup lower st s = Inr (st', rest) \<Longrightarrow> sized st \<Longrightarrow> sized st'"
  unfolding markup_def Let_def
  by (auto split: if_splits option.splits list.splits dest: start_tag_sized end_tag_sized) (simp add: sized_def)+

lemma character_data_sized: "character_data st c = Inr st' \<Longrightarrow> sized st \<Longrightarrow> sized st'"
  by (auto simp: character_data_def bindE_Inr sized_def split: if_splits list.splits)

lemma walk_sized: "walk lower st s = Inr st' \<Longrightarrow> sized st \<Longrightarrow> sized st'"
proof (induction lower st s rule: walk.induct)
  case (1 lower st s)
  note w = 1(2) [unfolded walk.simps [of lower st s]]
  show ?case
  proof (cases "s = [] \<or> dropWhile (\<lambda>c. c \<noteq> 60) s = []")
    case True
    then show ?thesis using w 1(3) by (auto simp: bindE_Inr dest: character_data_sized split: if_splits)
  next
    case False
    then obtain st1 where c: "character_data st (takeWhile (\<lambda>c. c \<noteq> 60) s) = Inr st1"
      using w by (auto simp: bindE_Inr)
    obtain st2 rest where m: "character_data st (takeWhile (\<lambda>c. c \<noteq> 60) s) = Inr st1"
      "markup lower st1 (dropWhile (\<lambda>c. c \<noteq> 60) s) = Inr (st2, rest)" "walk lower st2 rest = Inr st'"
      using w c False by (cases "markup lower st1 (dropWhile (\<lambda>c. c \<noteq> 60) s)") (auto split: if_splits)
    then have "sized st2" using 1(3) by (blast dest: character_data_sized markup_sized)
    then show ?thesis using 1(1) [of st1 "(st2, rest)" st2 rest] False m by simp
  qed
qed

lemma screenSvg_sound: "screenSvg lower s = Inr z \<Longrightarrow> sound_size z"
  unfolding screenSvg_def
  by (auto simp: bindE_Inr split: option.splits dest!: walk_sized) (simp_all add: sized_def new_screen_def)

lemma inspectPng_sides:
  assumes "inspectPng bytes = Inr (width, height, ext)"
  shows "\<exists>w h. width = (int w, 0) \<and> height = (int h, 0) \<and> ext = Png \<and> w = readUint32 bytes 16 \<and>
    h = readUint32 bytes 20 \<and> 16 \<le> w \<and> w \<le> 4096 \<and> 16 \<le> h \<and> h \<le> 4096 \<and> w \<le> 20 * h \<and> h \<le> 20 * w"
proof -
  let ?w = "readUint32 bytes 16" and ?h = "readUint32 bytes 20"
  have p: "width = (int ?w, 0)" "height = (int ?h, 0)" "ext = Png" "16 \<le> ?w" "?w \<le> 4096" "16 \<le> ?h" "?h \<le> 4096"
    "checkShape (int ?w, 0) (int ?h, 0) = Inr ()"
    using assms unfolding inspectPng_def Let_def
    by (auto simp: bindE_Inr PNG_MIN_SIDE_def PNG_MAX_SIDE_def split: if_splits)
  have "int ?w \<le> 20 * int ?h" "int ?h \<le> 20 * int ?w" using checkShape_sides [of "int ?w" "int ?h"] p(4-8) by simp_all
  then show ?thesis using p by auto
qed

end
