(* ===== verification/SponsorBooks.thy ===== *)
theory SponsorBooks
  imports SponsorDesk LogoShapes
begin

text \<open>
  What the sponsors and the storage keep together: every sponsor's logo is in storage under a key
  of that sponsor, it passed the screen with the shape its row has, and it is served as an
  attachment.
\<close>

section \<open>The invariant\<close>

definition screened :: "sponsor_context \<Rightarrow> stored_object \<Rightarrow> double \<Rightarrow> double \<Rightarrow> bool" where
  "screened c obj width height \<longleftrightarrow>
    (\<exists>ty ext. inspectLogo (sc_lower c) (sc_decode c) (so_body obj) ty = Inr (width, height, ext) \<and>
      so_contentType obj = CONTENT_TYPE ext \<and> so_contentDisposition obj = lit ''attachment'')"

definition has_logo :: "sponsor_context \<Rightarrow> (jstr \<rightharpoonup> stored_object) \<Rightarrow> logo_label \<Rightarrow> bool" where
  "has_logo c objects l \<longleftrightarrow>
    (case l of (i, key, width, height) \<Rightarrow>
      isSponsorLogoKeyFor key (sc_text c i) \<and> (\<exists>obj. objects key = Some obj \<and> screened c obj width height))"

definition logos_stored :: "sponsor_context \<Rightarrow> sponsor_world \<Rightarrow> bool" where
  "logos_stored c w \<longleftrightarrow> db_ok (sw_db w) \<and> (\<forall>l \<in> set (labels (sw_db w)). has_logo c (sw_objects w) l)"

definition in_use :: "jstr \<Rightarrow> sponsor_world \<Rightarrow> bool" where
  "in_use key w \<longleftrightarrow> key \<in> sp_logoKey ` set (sponsors (sw_db w))"

text \<open>
  The key a request makes is new, and what other requests do before its transaction keeps the
  invariant and leaves that key alone.
\<close>

definition calm :: "sponsor_context \<Rightarrow> uuid \<Rightarrow> sponsor_world \<Rightarrow> bool" where
  "calm c i w \<longleftrightarrow>
    length (sc_nano c) = 12 \<and> list_all key_char (sc_nano c) \<and> (logos_stored c w \<longrightarrow> logos_stored c (sc_env c w)) \<and>
    (\<forall>key ext obj. sponsorLogoKey (sc_nano c) (sc_text c i) ext = Inr key \<longrightarrow>
      sw_objects w key = None \<and>
      (let w1 = w\<lparr>sw_objects := (sw_objects w)(key \<mapsto> obj)\<rparr>; w2 = sc_env c w1
       in logos_stored c w1 \<longrightarrow> logos_stored c w2 \<and> \<not> in_use key w2 \<and> sw_objects w2 key = Some obj))"

section \<open>Facts\<close>

lemma in_use_labels: "in_use key w \<longleftrightarrow> key \<in> (fst \<circ> snd) ` set (labels (sw_db w))"
  by (force simp: in_use_def labels_def label_def)

lemma in_use_stored: "logos_stored c w \<Longrightarrow> in_use key w \<Longrightarrow> sw_objects w key \<noteq> None"
  by (fastforce simp: logos_stored_def in_use_labels has_logo_def)

lemma has_logo_put: "has_logo c objects l \<Longrightarrow> objects key = None \<Longrightarrow> has_logo c (objects(key \<mapsto> obj)) l"
  by (auto simp: has_logo_def split: prod.splits)

lemma has_logo_delete: "has_logo c objects l \<Longrightarrow> fst (snd l) \<noteq> key \<Longrightarrow> has_logo c (objects(key := None)) l"
  by (auto simp: has_logo_def split: prod.splits)

lemma delete_unused:
  assumes "logos_stored c w" "\<not> in_use key w"
  shows "logos_stored c (bestEffortDelete ok key w)"
proof (cases ok)
  case True
  have "has_logo c ((sw_objects w)(key := None)) l" if "l \<in> set (labels (sw_db w))" for l
  proof (rule has_logo_delete)
    show "has_logo c (sw_objects w) l" using assms(1) that by (simp add: logos_stored_def)
    show "fst (snd l) \<noteq> key" using assms(2) that by (auto simp: in_use_labels)
  qed
  then show ?thesis using True assms(1) by (simp add: bestEffortDelete_def logos_stored_def)
qed (use assms in \<open>simp add: bestEffortDelete_def\<close>)

lemma keys_distinct:
  assumes "logos_stored c w"
  shows "distinct (map sp_logoKey (sponsors (sw_db w)))"
  using assms
  by (simp add: logos_stored_def db_ok_def sponsors_violation_def first_violation_None unique_rows_None map_filter_Some)

lemma checked_screened:
  assumes "checkLogo (sc_lower c) (sc_decode c) up = Inr logo"
  shows "screened c (logo_object logo) (cl_width logo) (cl_height logo)"
  using assms
  by (fastforce simp: checkLogo_def screened_def logo_object_def split: sum.splits prod.splits)

text \<open>After the upload: the new object stands by, and no row names it.\<close>

lemma uploaded:
  assumes "logos_stored c w" "calm c i w" "checkLogo (sc_lower c) (sc_decode c) up = Inr logo"
    "storeLogo (sc_put c) (sc_nano c) (sc_text c i) logo w = Inr (key, w1)"
  shows "logos_stored c (sc_env c w1)" "\<not> in_use key (sc_env c w1)"
    "has_logo c (sw_objects (sc_env c w1)) (logo_label i (stored_of key logo))"
proof -
  have k: "sponsorLogoKey (sc_nano c) (sc_text c i) (cl_ext logo) = Inr key"
    and w1: "w1 = w\<lparr>sw_objects := (sw_objects w)(key \<mapsto> logo_object logo)\<rparr>"
    using assms(4) by (auto simp: storeLogo_def split: sum.splits if_splits)
  have new: "sw_objects w key = None" using assms(2) k by (auto simp: calm_def)
  then have "logos_stored c w1" using assms(1) has_logo_put unfolding w1 logos_stored_def by auto
  then have *: "logos_stored c (sc_env c w1) \<and> \<not> in_use key (sc_env c w1) \<and>
      sw_objects (sc_env c w1) key = Some (logo_object logo)"
    using assms(2) k unfolding calm_def w1 Let_def by blast
  then show "logos_stored c (sc_env c w1)" "\<not> in_use key (sc_env c w1)" by simp_all
  show "has_logo c (sw_objects (sc_env c w1)) (logo_label i (stored_of key logo))"
    using * checked_screened [OF assms(3)] issued_logo_key [OF k] assms(2)
    by (simp add: has_logo_def logo_label_def stored_of_def calm_def)
qed

section \<open>The requests keep it\<close>

lemma create_keeps:
  assumes "logos_stored c w" "calm c i w"
  shows "logos_stored c (snd (createSponsor c i inp up w))"
proof (cases "checkLogo (sc_lower c) (sc_decode c) up")
  case (Inr logo)
  show ?thesis
  proof (cases "storeLogo (sc_put c) (sc_nano c) (sc_text c i) logo w")
    case st: (Inr p)
    obtain key w1 where p: "p = (key, w1)" by fastforce
    note u = uploaded [OF assms Inr st [unfolded p]]
    show ?thesis
    proof (cases "sponsor_create (sc_now c) i inp (stored_of key logo) (sw_db (sc_env c w1))")
      case (Inl e)
      then show ?thesis using Inr st delete_unused [OF u(1,2)] by (simp add: createSponsor_def p Let_def)
    next
      case tx: (Inr q)
      obtain row demoted s where q: "q = ((row, demoted), s)" by (metis prod.collapse)
      have "db_ok s" using keepsD [OF constraints.sponsor_create tx [unfolded q]] u(1) by (simp add: logos_stored_def)
      then have "logos_stored c ((sc_env c w1)\<lparr>sw_db := s\<rparr>)"
        using create_labels [OF tx [unfolded q]] u(1,3) by (auto simp: logos_stored_def)
      then show ?thesis using Inr st tx by (simp add: createSponsor_def p q Let_def)
    qed
  qed (use assms Inr in \<open>simp add: createSponsor_def\<close>)
qed (use assms in \<open>simp add: createSponsor_def\<close>)

text \<open>A create that fails leaves no object under its key, if the storage deletes.\<close>

lemma failed_create_tidy:
  assumes "createSponsor c i inp up w = (Inl e, w')" "checkLogo (sc_lower c) (sc_decode c) up = Inr logo"
    "sponsorLogoKey (sc_nano c) (sc_text c i) (cl_ext logo) = Inr key" "sc_delete c" "calm c i w"
  shows "sw_objects w' key = None"
proof -
  have "sw_objects w key = None" using assms(3,5) by (auto simp: calm_def)
  then show ?thesis
    using assms(1-4)
    by (auto simp: createSponsor_def storeLogo_def bestEffortDelete_def Let_def split: sum.splits prod.splits if_splits)
qed

lemma update_tx_ok:
  assumes "sponsor_update_tx at i inp logo s = Inr (x, s')" "db_ok s"
  shows "db_ok s'"
proof -
  have "sponsor_update_service s at i inp logo s = Inr (x, s')"
    using assms(1) by (auto simp: sponsor_update_service_def sponsor_update_tx_def tx_simps)
  then show ?thesis using keepsD [OF constraints.sponsor_update_service] assms(2) by blast
qed

text \<open>The transaction of an update, without and with a new logo.\<close>

lemma update_tx_keeps:
  assumes "logos_stored c w" "sponsor_update_tx at i inp None (sw_db w) = Inr ((row, replaced, demoted), s)"
  shows "logos_stored c (w\<lparr>sw_db := s\<rparr>)" "replaced = None"
proof -
  from assms(2) obtain current where "replaced = None" "labels s = labels (sw_db w)"
    by (rule update_tx_labels) (auto simp: map_idI)
  then show "replaced = None" "logos_stored c (w\<lparr>sw_db := s\<rparr>)"
    using assms(1) update_tx_ok [OF assms(2)] by (simp_all add: logos_stored_def)
qed

lemma update_tx_replaces:
  assumes "logos_stored c w" "\<not> in_use (sl_key l) w" "has_logo c (sw_objects w) (logo_label i l)"
    and tx: "sponsor_update_tx at i inp (Some l) (sw_db w) = Inr ((row, replaced, demoted), s)"
  obtains key where "replaced = Some key" "logos_stored c (w\<lparr>sw_db := s\<rparr>)" "\<not> in_use key (w\<lparr>sw_db := s\<rparr>)"
proof -
  from tx obtain current where cur: "current \<in> set (sponsors (sw_db w))" "sp_id current = i"
    "replaced = Some (sp_logoKey current)"
    "labels s = map (\<lambda>x. if fst x = i then logo_label i l else x) (labels (sw_db w))"
    by (rule update_tx_labels) auto
  have "logos_stored c (w\<lparr>sw_db := s\<rparr>)"
    using assms(1,3) update_tx_ok [OF tx] by (auto simp: logos_stored_def cur(4))
  moreover have "\<not> in_use (sp_logoKey current) (w\<lparr>sw_db := s\<rparr>)"
  proof
    assume "in_use (sp_logoKey current) (w\<lparr>sw_db := s\<rparr>)"
    then obtain x where x: "x \<in> set (labels (sw_db w))"
      "sp_logoKey current = fst (snd (if fst x = i then logo_label i l else x))"
      by (auto simp: in_use_labels cur(4))
    then obtain p where p: "p \<in> set (sponsors (sw_db w))"
      "sp_logoKey current = (if sp_id p = i then sl_key l else sp_logoKey p)"
      by (auto simp: labels_def label_def logo_label_def)
    show False
    proof (cases "sp_id p = i")
      case True
      then show False using p(2) assms(2) imageI [OF cur(1), of sp_logoKey] by (simp add: in_use_def)
    next
      case False
      then have "p = current"
        using p cur(1) keys_distinct [OF assms(1)] by (auto simp: distinct_map dest: inj_onD)
      then show False using False cur(2) by simp
    qed
  qed
  ultimately show thesis using that cur(3) by blast
qed

lemma update_keeps:
  assumes "logos_stored c w" "calm c i w"
  shows "logos_stored c (snd (updateSponsor c i inp up w))"
proof (cases up)
  case None
  have env: "logos_stored c (sc_env c w)" using assms by (simp add: calm_def)
  show ?thesis
  proof (cases "sponsor_update_tx (sc_now c) i inp None (sw_db (sc_env c w))")
    case (Inl e)
    then show ?thesis using None assms(1) env by (simp add: updateSponsor_def Let_def)
  next
    case (Inr q)
    obtain row replaced demoted s where q: "q = ((row, replaced, demoted), s)" by (metis prod.collapse)
    from update_tx_keeps [OF env Inr [unfolded q]] show ?thesis
      using None assms(1) Inr by (simp add: updateSponsor_def Let_def q)
  qed
next
  case (Some u)
  show ?thesis
  proof (cases "checkLogo (sc_lower c) (sc_decode c) u")
    case (Inl e)
    then show ?thesis using Some assms(1) by (simp add: updateSponsor_def)
  next
    case logo: (Inr logo)
    show ?thesis
    proof (cases "storeLogo (sc_put c) (sc_nano c) (sc_text c i) logo w")
      case (Inl e)
      then show ?thesis using Some logo assms(1) by (simp add: updateSponsor_def)
    next
      case st: (Inr p)
      obtain key w1 where p: "p = (key, w1)" by fastforce
      note u = uploaded [OF assms logo st [unfolded p]]
      have key: "sl_key (stored_of key logo) = key" by (simp add: stored_of_def)
      show ?thesis
      proof (cases "sponsor_update_tx (sc_now c) i inp (Some (stored_of key logo)) (sw_db (sc_env c w1))")
        case (Inl e)
        then show ?thesis
          using Some logo st assms(1) delete_unused [OF u(1,2)] by (simp add: updateSponsor_def Let_def p key)
      next
        case tx: (Inr q)
        obtain row replaced demoted s where q: "q = ((row, replaced, demoted), s)" by (metis prod.collapse)
        obtain old where "replaced = Some old" "logos_stored c ((sc_env c w1)\<lparr>sw_db := s\<rparr>)"
          "\<not> in_use old ((sc_env c w1)\<lparr>sw_db := s\<rparr>)"
          by (rule update_tx_replaces [OF u(1) _ u(3) tx [unfolded q]]) (use u(2) key in auto)
        then show ?thesis
          using Some logo st assms(1) tx delete_unused by (simp add: updateSponsor_def Let_def p q)
      qed
    qed
  qed
qed

lemma delete_keeps:
  assumes "logos_stored c w"
  shows "logos_stored c (snd (deleteSponsor c' i w))"
proof (cases "sponsor_remove i (sw_db w)")
  case (Inl e)
  then show ?thesis using assms by (simp add: deleteSponsor_def)
next
  case (Inr q)
  obtain row s where q: "q = (row, s)" by fastforce
  note r = remove_labels [OF Inr [unfolded q]]
  have "db_ok s" using keepsD [OF constraints.sponsor_remove Inr [unfolded q]] assms by (simp add: logos_stored_def)
  then have "logos_stored c (w\<lparr>sw_db := s\<rparr>)" using assms r(3) by (simp add: logos_stored_def)
  moreover have "\<not> in_use (sp_logoKey row) (w\<lparr>sw_db := s\<rparr>)"
  proof
    assume "in_use (sp_logoKey row) (w\<lparr>sw_db := s\<rparr>)"
    then obtain x where "x \<in> set (labels (sw_db w))" "fst x \<noteq> i" "sp_logoKey row = fst (snd x)"
      by (auto simp: in_use_labels r(3))
    then obtain p where "p \<in> set (sponsors (sw_db w))" "sp_logoKey p = sp_logoKey row" "sp_id p \<noteq> i"
      by (auto simp: labels_def label_def)
    then show False using r(1,2) keys_distinct [OF assms] by (auto simp: distinct_map dest: inj_onD)
  qed
  ultimately show ?thesis using delete_unused Inr by (simp add: deleteSponsor_def q)
qed

end
