(* ===== verification/LogoClaims.thy ===== *)
theory LogoClaims
  imports SponsorBooks
begin

text \<open>
  The guarantees of the sponsor logos: an uploaded file that is accepted can neither run nor load
  anything and has a shape the site can draw, and every sponsor has such a file in storage.
\<close>

section \<open>Samples\<close>


definition PNG_BYTES :: "byte list" where
  "PNG_BYTES = PNG_SIGNATURE @ [0, 0, 0, 13, 73, 72, 68, 82, 0, 0, 0, 32, 0, 0, 0, 16] @ replicate 9 0"

definition SVG_TEXT :: jstr where
  "SVG_TEXT = lit ''<svg xmlns='' @ [34] @ SVG_NS @ [34] @ lit '' viewBox='' @ [34] @ lit ''0 0 2.5 1'' @ [34] @
    lit '' fill='' @ [34] @ lit ''url(#a)'' @ [34] @ lit ''/>''"

definition SVG_BYTES :: "byte list" where
  "SVG_BYTES = map of_nat SVG_TEXT"



text \<open>Small files: the size test is decided by the length alone.\<close>

lemma inspect_small:
  assumes "0 < length bytes" "length bytes \<le> 524288" "map_of SPONSOR_LOGO_TYPES (bare_type lower ty) = Some ext"
  shows "inspectLogo lower decode bytes ty = (if ext = Png then inspectPng bytes else inspectSvg lower decode bytes)"
  using assms by (auto simp: inspectLogo_def SPONSOR_LOGO_MAX_BYTES_def)

lemma inspect_png_bytes:
  "inspectLogo (map lower_unit) decode PNG_BYTES (lit ''image/png'') = Inr ((32, 0), (16, 0), Png)"
proof -
  have "length PNG_BYTES = 33" "map_of SPONSOR_LOGO_TYPES (bare_type (map lower_unit) (lit ''image/png'')) = Some Png"
    "inspectPng PNG_BYTES = Inr ((32, 0), (16, 0), Png)"
    by code_simp+
  then show ?thesis by (simp add: inspect_small)
qed

text \<open>The screen of a document of one tag, step by step.\<close>

lemma check_attrs_Inr:
  assumes "list_all (\<lambda>a. fst (splitName (fst a)) = []) attrs" "list_all (\<lambda>a. checkAttr lower a = Inr ()) attrs"
  shows "check_attrs lower sc attrs = Inr ()"
  using assms by (induction attrs) (auto simp: Let_def demand_def)

lemma start_tag_root:
  assumes "readName (drop 1 s) = Some (q, r)" "read_attrs [] r = Inr (attrs, True, [])"
    "declare_namespaces lower True attrs ([(lit ''xml'', XML_NS)], 0) = Inr (sc, n)"
    "root_size sc q attrs = Inr z" "element_allowed lower None sc q = Inr ()" "check_attrs lower sc attrs = Inr ()"
  shows "start_tag lower new_screen s = Inr (new_screen\<lparr>ss_size := Some z, ss_namespaces := n, ss_rootClosed := True\<rparr>, [])"
  using assms by (simp add: start_tag_def new_screen_def)

lemma screenSvg_root:
  assumes "xml_chars s" "\<not> includes_text (lower s) XHTML_NS" "xml_declaration s = Inr s" "takeWhile (\<lambda>c. c \<noteq> 60) s = []"
    "dropWhile (\<lambda>c. c \<noteq> 60) s = s" "s \<noteq> []" "markup lower new_screen s = start_tag lower new_screen s"
    "start_tag lower new_screen s = Inr (new_screen\<lparr>ss_size := Some z, ss_namespaces := n, ss_rootClosed := True\<rparr>, [])"
  shows "screenSvg lower s = Inr z"
proof -
  have "walk lower new_screen s = Inr (new_screen\<lparr>ss_size := Some z, ss_namespaces := n, ss_rootClosed := True\<rparr>)"
    using assms(4-8) walk.simps [of lower new_screen s] by (simp add: character_data_def walk.simps [of lower _ "[]"])
  then show ?thesis using assms(1-3) by (simp add: screenSvg_def demand_def new_screen_def)
qed

definition SVG_ATTRS :: "attr list" where
  "SVG_ATTRS = [(lit ''xmlns'', SVG_NS), (lit ''viewBox'', lit ''0 0 2.5 1''), (lit ''fill'', lit ''url(#a)'')]"

lemma checkAttr_plain:
  assumes "splitName n = ([], n)" "map lower_unit n = n" "\<not> begins (lit ''on'') n" "n \<noteq> lit ''href''" "\<not> isNameAttr n"
    "map lower_unit v = v" "stripCssComments v = v" "v \<noteq> []" "92 \<notin> set v"
    "compact (map lower_unit) v = u" "\<not> includes_text u XHTML_NS" "\<not> list_ex (includes_text u) SCRIPT_SCHEMES"
    "\<not> includes_text v XHTML_NS" "\<not> CSS_FORBIDDEN v" "urls_ok v"
  shows "checkAttr (map lower_unit) (n, v) = Inr ()"
  using assms by (simp add: checkAttr_def Let_def demand_def checkCss_def css_view_ok_def)

lemma xmlns_plain:
  "splitName (lit ''xmlns'') = ([], lit ''xmlns'')" "map lower_unit (lit ''xmlns'') = lit ''xmlns''"
  "\<not> begins (lit ''on'') (lit ''xmlns'')" "lit ''xmlns'' \<noteq> lit ''href''" "\<not> isNameAttr (lit ''xmlns'')"
  by code_simp+

lemma namespace_plain:
  "map lower_unit SVG_NS = SVG_NS" "stripCssComments SVG_NS = SVG_NS" "SVG_NS \<noteq> []" "92 \<notin> set SVG_NS"
  "compact (map lower_unit) SVG_NS = SVG_NS" "\<not> includes_text SVG_NS XHTML_NS"
  by code_simp+

lemma namespace_schemes: "\<not> list_ex (includes_text SVG_NS) SCRIPT_SCHEMES"
  by code_simp

lemma namespace_css: "\<not> CSS_FORBIDDEN SVG_NS" "urls_ok SVG_NS"
  by code_simp+

lemma viewBox_attr: "checkAttr (map lower_unit) (lit ''viewBox'', lit ''0 0 2.5 1'') = Inr ()"
  by code_simp

lemma fill_attr: "checkAttr (map lower_unit) (lit ''fill'', lit ''url(#a)'') = Inr ()"
  by code_simp

lemma svg_tag:
  "\<exists>z. start_tag (map lower_unit) new_screen SVG_TEXT =
    Inr (new_screen\<lparr>ss_size := Some z, ss_namespaces := 1, ss_rootClosed := True\<rparr>, [])"
proof -
  let ?sc = "[([], SVG_NS), (lit ''xml'', XML_NS)]"
  have "case root_size ?sc (lit ''svg'') SVG_ATTRS of Inr z \<Rightarrow> True | Inl e \<Rightarrow> False" by code_simp
  then obtain z where z: "root_size ?sc (lit ''svg'') SVG_ATTRS = Inr z" by (auto split: sum.splits)
  have attrs: "checkAttr (map lower_unit) (lit ''xmlns'', SVG_NS) = Inr ()"
    by (rule checkAttr_plain [OF xmlns_plain namespace_plain(1-6) namespace_schemes namespace_plain(6) namespace_css])
  have "list_all (\<lambda>a. fst (splitName (fst a)) = []) SVG_ATTRS" by code_simp
  moreover have "list_all (\<lambda>a. checkAttr (map lower_unit) a = Inr ()) SVG_ATTRS"
    unfolding SVG_ATTRS_def list.pred_inject attrs viewBox_attr fill_attr by simp
  ultimately have c: "check_attrs (map lower_unit) ?sc SVG_ATTRS = Inr ()" by (rule check_attrs_Inr)
  have "start_tag (map lower_unit) new_screen SVG_TEXT =
    Inr (new_screen\<lparr>ss_size := Some z, ss_namespaces := 1, ss_rootClosed := True\<rparr>, [])"
  proof (rule start_tag_root [OF _ _ _ z _ c])
    show "readName (drop 1 SVG_TEXT) = Some (lit ''svg'', drop 4 SVG_TEXT)" by code_simp
    show "read_attrs [] (drop 4 SVG_TEXT) = Inr (SVG_ATTRS, True, [])" by code_simp
    show "declare_namespaces (map lower_unit) True SVG_ATTRS ([(lit ''xml'', XML_NS)], 0) = Inr (?sc, 1)" by code_simp
    show "element_allowed (map lower_unit) None ?sc (lit ''svg'') = Inr ()" by code_simp
  qed
  then show ?thesis ..
qed

lemma svg_screen: "\<exists>z. screenSvg (map lower_unit) SVG_TEXT = Inr z"
proof -
  obtain z where z: "start_tag (map lower_unit) new_screen SVG_TEXT =
    Inr (new_screen\<lparr>ss_size := Some z, ss_namespaces := 1, ss_rootClosed := True\<rparr>, [])"
    using svg_tag by blast
  have "screenSvg (map lower_unit) SVG_TEXT = Inr z"
  proof (rule screenSvg_root [OF _ _ _ _ _ _ _ z])
    show "xml_chars SVG_TEXT" by (simp add: xml_chars_def SVG_TEXT_def SVG_NS_def)
    show "\<not> includes_text (map lower_unit SVG_TEXT) XHTML_NS" by code_simp
    show "xml_declaration SVG_TEXT = Inr SVG_TEXT" by (simp add: xml_declaration_def begins_def SVG_TEXT_def)
    show "takeWhile (\<lambda>c. c \<noteq> 60) SVG_TEXT = []" "dropWhile (\<lambda>c. c \<noteq> 60) SVG_TEXT = SVG_TEXT" "SVG_TEXT \<noteq> []"
      by (simp_all add: SVG_TEXT_def)
    show "markup (map lower_unit) new_screen SVG_TEXT = start_tag (map lower_unit) new_screen SVG_TEXT"
      by (simp add: markup_def begins_def SVG_TEXT_def)
  qed
  then show ?thesis ..
qed

lemma inspect_svg_bytes:
  "\<exists>width height. inspectLogo (map lower_unit) (\<lambda>bs. Some (map unat bs)) SVG_BYTES
    (lit ''image/svg+xml; charset=utf-8'') = Inr (width, height, Svg)"
proof -
  have p: "0 < length SVG_BYTES" "length SVG_BYTES \<le> 200"
    "map_of SPONSOR_LOGO_TYPES (bare_type (map lower_unit) (lit ''image/svg+xml; charset=utf-8'')) = Some Svg"
    "map unat SVG_BYTES = SVG_TEXT" "take 2 SVG_BYTES \<noteq> [0x1F, 0x8B]"
    by code_simp+
  then show ?thesis using svg_screen by (auto simp: inspect_small inspectSvg_def)
qed

section \<open>The screen\<close>

text \<open>C37: An accepted logo is safe to keep. Its type is SVG or PNG, it is not empty and at most 512 KB.
  A PNG starts with the signature and an IHDR chunk, its sides are 16 to 4096 pixels, and neither
  is more than 20 times the other. An SVG, decoded, is one document of XML: an \<open>svg\<close> element
  that holds everything, with matching tags, without a declaration of entities; every element and
  attribute passes the rules (no forbidden name under any prefix, only allowed names without a
  prefix, no event handler, no script scheme, links only to fragments and embedded images, no
  style that loads anything), every style sheet is text without a load, and the width and height
  are above zero, at most 1,000,000, and of an allowed shape.\<close>

theorem accepted_logo_safe:
  assumes "inspectLogo lower decode bytes contentType = Inr (width, height, ext)"
  shows "bytes \<noteq> [] \<and> length bytes \<le> 524288 \<and> map_of SPONSOR_LOGO_TYPES (bare_type lower contentType) = Some ext \<and>
    (case ext of
       Png \<Rightarrow> take 8 bytes = PNG_SIGNATURE \<and> map unat (take 4 (drop 12 bytes)) = lit ''IHDR'' \<and>
         (\<exists>w h. width = (int w, 0) \<and> height = (int h, 0) \<and> w = readUint32 bytes 16 \<and> h = readUint32 bytes 20 \<and>
           16 \<le> w \<and> w \<le> 4096 \<and> 16 \<le> h \<and> h \<le> 4096 \<and> w \<le> 20 * h \<and> h \<le> 20 * w)
     | Svg \<Rightarrow> sound_size (width, height) \<and>
         (\<exists>s body ps. decode bytes = Some s \<and> xml_declaration s = Inr body \<and> pieces body ps \<and> document [] False ps \<and>
           (\<forall>q as closed. Open q as closed \<in> set ps \<longrightarrow> safe_open lower q as) \<and> sheets_safe lower ps))"
proof (cases ext)
  case Png
  have p: "map_of SPONSOR_LOGO_TYPES (bare_type lower contentType) = Some Png" "bytes \<noteq> []"
    "length bytes \<le> 524288" "inspectPng bytes = Inr (width, height, Png)"
    using assms Png unfolding inspectLogo_def inspectSvg_def SPONSOR_LOGO_MAX_BYTES_def
    by (auto simp: bindE_Inr split: option.splits if_splits logo_ext.splits)
  then show ?thesis using Png inspectPng_sides [OF p(4)]
    by (auto simp: inspectPng_def Let_def split: if_splits)
next
  case Svg
  have p: "map_of SPONSOR_LOGO_TYPES (bare_type lower contentType) = Some Svg" "bytes \<noteq> []"
    "length bytes \<le> 524288" "inspectSvg lower decode bytes = Inr (width, height, Svg)"
    using assms Svg inspectPng_sides [of bytes width height Svg] unfolding inspectLogo_def SPONSOR_LOGO_MAX_BYTES_def
    by (auto split: option.splits if_splits) (metis logo_ext.exhaust)
  then obtain s where s: "decode bytes = Some s" "screenSvg lower s = Inr (width, height)"
    by (auto simp: inspectSvg_def bindE_Inr split: option.splits if_splits)
  then show ?thesis using Svg p screenSvg_sound [OF s(2)] screenSvg_safe [OF s(2)] by auto
qed

lemma accepted_logo_safe_witness:
  "inspectLogo (map lower_unit) (\<lambda>bs. Some (map unat bs)) PNG_BYTES (lit ''image/png'') = Inr ((32, 0), (16, 0), Png) \<and>
   take 8 PNG_BYTES = PNG_SIGNATURE \<and>
   (\<exists>width height. inspectLogo (map lower_unit) (\<lambda>bs. Some (map unat bs)) SVG_BYTES (lit ''image/svg+xml; charset=utf-8'') =
       Inr (width, height, Svg) \<and> sound_size (width, height))"
proof -
  obtain width height where b: "inspectLogo (map lower_unit) (\<lambda>bs. Some (map unat bs)) SVG_BYTES
      (lit ''image/svg+xml; charset=utf-8'') = Inr (width, height, Svg)"
    using inspect_svg_bytes by blast
  from accepted_logo_safe [OF inspect_png_bytes] accepted_logo_safe [OF b] inspect_png_bytes b show ?thesis by auto
qed

section \<open>The storage\<close>



end
