(* ===== verification/Downloads.thy ===== *)
theory Downloads
  imports Reports OrderSearch Fulfilment DateText
begin

text \<open>
  What visitors and the desk download: CSV sheets (\<open>src/src/server/lib/csv.ts\<close> and the export
  routes of the orders list and of the reports) and the calendar entry of a ticket
  (\<open>src/src/server/lib/ics.ts\<close>). A reader of each format, written from RFC 4180 and RFC 5545,
  says what the file means.
\<close>

section \<open>csv.ts\<close>

text \<open>\<open>string | number | null | undefined\<close>; the numbers the exports write are whole.\<close>

datatype csv_value = CsvNull | CsvText jstr | CsvNumber int

definition int_text :: "int \<Rightarrow> jstr" where
  "int_text n = (if n < 0 then 45 # decimal (nat (- n)) else decimal (nat n))"

text \<open>\<open>/^[=+\-@\t\r]/\<close>\<close>

definition formula_start :: "jstr \<Rightarrow> bool" where
  "formula_start s \<longleftrightarrow> (case s of c # t \<Rightarrow> c \<in> {61, 43, 45, 64, 9, 13} | [] \<Rightarrow> False)"

definition csv_safe :: "csv_value \<Rightarrow> jstr" where
  "csv_safe v =
    (case v of
       CsvNull \<Rightarrow> []
     | CsvNumber n \<Rightarrow> int_text n
     | CsvText s \<Rightarrow> if formula_start s then 39 # s else s)"

text \<open>\<open>/[",\r\n]|^\s|\s$/\<close>\<close>

definition needs_quotes :: "jstr \<Rightarrow> bool" where
  "needs_quotes s \<longleftrightarrow>
    s \<noteq> [] \<and> (list_ex (\<lambda>c. c \<in> {34, 44, 13, 10}) s \<or> is_space (hd s) \<or> is_space (last s))"

definition csvField :: "csv_value \<Rightarrow> jstr" where
  "csvField v =
    (let safe = csv_safe v
     in if needs_quotes safe then [34] @ concat (map (\<lambda>c. if c = 34 then [34, 34] else [c]) safe) @ [34] else safe)"

definition toCsv :: "jstr list \<Rightarrow> csv_value list list \<Rightarrow> jstr" where
  "toCsv header rows =
    [65279] @ join_texts [13, 10] (map (\<lambda>r. join_texts [44] (map csvField r)) (map CsvText header # rows)) @ [13, 10]"

section \<open>A reader of CSV\<close>

datatype csv_mode = CellStart | Plain | Quoted | QuoteSeen

text \<open>\<open>cell\<close> and \<open>row\<close> are what has been read of the current cell and row.\<close>

definition csv_step ::
  "(csv_mode \<Rightarrow> jstr \<Rightarrow> jstr list \<Rightarrow> jstr list list) \<Rightarrow> csv_mode \<Rightarrow> jstr \<Rightarrow> jstr list \<Rightarrow> nat \<Rightarrow> jstr list list" where
  "csv_step go m cell row c =
    (if m = Quoted then (if c = 34 then go QuoteSeen cell row else go Quoted (cell @ [c]) row)
     else if c = 34 \<and> m = CellStart then go Quoted cell row
     else if c = 34 \<and> m = QuoteSeen then go Quoted (cell @ [34]) row
     else if c = 44 then go CellStart [] (row @ [cell])
     else if c = 10 then (row @ [cell]) # go CellStart [] []
     else if c = 13 then go m cell row
     else go Plain (cell @ [c]) row)"

fun csv_read :: "csv_mode \<Rightarrow> jstr \<Rightarrow> jstr list \<Rightarrow> jstr \<Rightarrow> jstr list list" where
  "csv_read m cell row [] = (if cell = [] \<and> row = [] then [] else [row @ [cell]])"
| "csv_read m cell row (c # s) = csv_step (\<lambda>m cell row. csv_read m cell row s) m cell row c"

definition readCsv :: "jstr \<Rightarrow> jstr list list" where
  "readCsv s = csv_read CellStart [] [] (if take 1 s = [65279] then drop 1 s else s)"

lemma csv_plain:
  assumes "\<forall>c \<in> set s. c \<notin> {34, 44, 13, 10}" "m \<noteq> Quoted" "s \<noteq> [] \<or> m = Plain"
  shows "csv_read m cell row (s @ t) = csv_read Plain (cell @ s) row t"
  using assms
proof (induction s arbitrary: m cell)
  case (Cons c s)
  have "csv_read m cell row ((c # s) @ t) = csv_read Plain (cell @ [c]) row (s @ t)"
    using Cons(2,3) by (cases m) (auto simp: csv_step_def)
  then show ?case using Cons(1) [of Plain "cell @ [c]"] Cons(2) by simp
qed simp

lemma csv_quoted:
  "csv_read Quoted cell row (concat (map (\<lambda>c. if c = 34 then [34, 34] else [c]) s) @ 34 # t) =
    csv_read QuoteSeen (cell @ s) row t"
  by (induction s arbitrary: cell) (simp_all add: csv_step_def)

text \<open>A field reads back up to the separator behind it.\<close>

lemma csv_field:
  obtains m where "m \<noteq> Quoted"
    "csv_read CellStart [] row (csvField v @ t) = csv_read m (csv_safe v) row t"
proof (cases "needs_quotes (csv_safe v)")
  case True
  then have "csv_read CellStart [] row (csvField v @ t) = csv_read QuoteSeen (csv_safe v) row t"
    using csv_quoted [of "[]" row "csv_safe v" t] by (simp add: csvField_def csv_step_def)
  then show thesis using that [of QuoteSeen] by simp
next
  case False
  show thesis
  proof (cases "csv_safe v = []")
    case True
    then show thesis using False that [of CellStart] by (simp add: csvField_def)
  next
    case n: False
    then have "\<forall>c \<in> set (csv_safe v). c \<notin> {34, 44, 13, 10}" using False by (auto simp: needs_quotes_def list_ex_iff)
    then show thesis using that [of Plain] csv_plain [of "csv_safe v" CellStart "[]" row t] n False
      by (simp add: csvField_def)
  qed
qed

lemma csv_comma: "m \<noteq> Quoted \<Longrightarrow> csv_read m cell row (44 # t) = csv_read CellStart [] (row @ [cell]) t"
  by (simp add: csv_step_def)

lemma csv_newline: "m \<noteq> Quoted \<Longrightarrow> csv_read m cell row (13 # 10 # t) = (row @ [cell]) # csv_read CellStart [] [] t"
  by (cases m) (simp_all add: csv_step_def)

lemma join_texts_Cons: "join_texts sep (x # y # ys) = x @ sep @ join_texts sep (y # ys)"
  by (simp add: join_texts_def)

lemma csv_row:
  assumes "vs \<noteq> []"
  shows "csv_read CellStart [] row (join_texts [44] (map csvField vs) @ 13 # 10 # t) =
    (row @ map csv_safe vs) # csv_read CellStart [] [] t"
  using assms
proof (induction vs arbitrary: row)
  case (Cons v vs)
  show ?case
  proof (cases vs)
    case Nil
    obtain m where "m \<noteq> Quoted"
      "csv_read CellStart [] row (csvField v @ 13 # 10 # t) = csv_read m (csv_safe v) row (13 # 10 # t)"
      by (rule csv_field)
    then show ?thesis using Nil csv_newline by (simp add: join_texts_def)
  next
    case (Cons v' vs')
    let ?t = "join_texts [44] (map csvField vs) @ 13 # 10 # t"
    obtain m where "m \<noteq> Quoted"
      "csv_read CellStart [] row (csvField v @ 44 # ?t) = csv_read m (csv_safe v) row (44 # ?t)"
      by (rule csv_field)
    then have "csv_read CellStart [] row (csvField v @ 44 # ?t) = csv_read CellStart [] (row @ [csv_safe v]) ?t"
      using csv_comma by simp
    then show ?thesis using Cons.IH [of "row @ [csv_safe v]"] Cons by (simp add: join_texts_Cons)
  qed
qed simp

lemma csv_rows:
  assumes "rows \<noteq> []" "\<forall>r \<in> set rows. r \<noteq> []"
  shows "csv_read CellStart [] [] (join_texts [13, 10] (map (\<lambda>r. join_texts [44] (map csvField r)) rows) @ [13, 10]) =
    map (map csv_safe) rows"
  using assms
proof (induction rows)
  case (Cons r rows)
  show ?case
  proof (cases rows)
    case Nil
    then show ?thesis using csv_row [of r "[]" "[]"] Cons(3) by (simp add: join_texts_def)
  next
    case c: (Cons r' rows')
    then show ?thesis
      using csv_row [of r "[]" "join_texts [13, 10] (map (\<lambda>r. join_texts [44] (map csvField r)) rows) @ [13, 10]"] Cons
      by (simp add: join_texts_Cons)
  qed
qed simp

lemma toCsv_reads_back:
  assumes "header \<noteq> []" "\<forall>r \<in> set rows. r \<noteq> []"
  shows "readCsv (toCsv header rows) = map (map csv_safe) (map CsvText header # rows)"
  using csv_rows [of "map CsvText header # rows"] assms by (simp add: readCsv_def toCsv_def)

lemma csv_safe_text: "\<not> formula_start (csv_safe (CsvText s))" "csv_safe (CsvText s) = s \<or> csv_safe (CsvText s) = 39 # s"
  by (auto simp: csv_safe_def formula_start_def split: list.splits)

section \<open>The sheets\<close>

fun all_ok :: "'a result list \<Rightarrow> 'a list result" where
  "all_ok [] = Inr []"
| "all_ok (x # xs) = bindE x (\<lambda>y. bindE (all_ok xs) (\<lambda>ys. Inr (y # ys)))"

definition text_or_null :: "jstr option \<Rightarrow> csv_value" where
  "text_or_null x = (case x of None \<Rightarrow> CsvNull | Some s \<Rightarrow> CsvText s)"

definition ORDER_STATUS_LABELS :: "order_status \<Rightarrow> jstr" where
  "ORDER_STATUS_LABELS st =
    (case st of
       PendingPayment \<Rightarrow> lit ''Awaiting payment'' | PendingVerification \<Rightarrow> lit ''Checking payment''
     | Paid \<Rightarrow> lit ''Paid'' | Issued \<Rightarrow> lit ''Tickets issued'' | Rejected \<Rightarrow> lit ''Rejected''
     | Expired \<Rightarrow> lit ''Expired'' | Cancelled \<Rightarrow> lit ''Cancelled'')"

definition EVENT_STATUS_LABELS :: "event_status \<Rightarrow> jstr" where
  "EVENT_STATUS_LABELS st =
    (case st of Draft \<Rightarrow> lit ''Draft'' | Published \<Rightarrow> lit ''Published'' | Archived \<Rightarrow> lit ''Archived'')"

definition ORDERS_HEADER :: "jstr list" where
  "ORDERS_HEADER = map lit
    [''reference'', ''status'', ''event'', ''ticket_type'', ''quantity'', ''total_bdt'', ''complimentary'',
     ''buyer_name'', ''buyer_email'', ''buyer_phone'', ''bkash_trx_id'', ''bkash_sender'', ''created_dhaka'',
     ''updated_dhaka'']"

text \<open>\<open>fmt\<close> is \<open>formatDhaka\<close>.\<close>

definition orders_export_row :: "(instant \<Rightarrow> jstr) \<Rightarrow> queue_row \<Rightarrow> csv_value list result" where
  "orders_export_row fmt q =
    (let r = qr_order q
     in bindE (formatDecimalBDT (o_totalPaisa r)) (\<lambda>total.
        Inr [CsvText (o_reference r), CsvText (ORDER_STATUS_LABELS (o_status r)), CsvText (qr_eventTitle q),
          CsvText (qr_ticketTypeName q), CsvNumber (o_quantity r), CsvText total,
          CsvText (if o_complimentaryReason r = None then [] else lit ''yes''), CsvText (o_buyerName r),
          CsvText (o_buyerEmail r), text_or_null (o_buyerPhone r), text_or_null (o_bkashTrxId r),
          text_or_null (o_bkashSenderMsisdn r), CsvText (fmt (o_createdAt r)), CsvText (fmt (o_updatedAt r))]))"

definition orders_csv ::
  "(jstr \<Rightarrow> nat) \<Rightarrow> (orders_search_input \<Rightarrow> orders_filter) \<Rightarrow> (instant \<Rightarrow> jstr) \<Rightarrow> orders_search_input \<Rightarrow> db
    \<Rightarrow> jstr result" where
  "orders_csv rank to_filter fmt inp s =
    (let page = exportOrders rank to_filter inp s
     in bindE (all_ok (map (orders_export_row fmt) (op_rows page))) (\<lambda>body.
        Inr (toCsv ORDERS_HEADER (body @
          (if op_total page > ORDERS_EXPORT_CAP
           then [[CsvText (lit ''Export capped at '' @ decimal ORDERS_EXPORT_CAP @ lit '' of '' @ decimal (op_total page) @
             lit '' rows '' @ [8212] @ lit '' narrow the filters.'')]]
           else [])))))"

datatype report_section = SummarySheet | DailySheet | OverviewSheet

definition DAILY_HEADER :: "jstr list" where
  "DAILY_HEADER = map lit [''date'', ''orders'', ''tickets_verified'', ''revenue_bdt'', ''tickets_verified_to_date'']"

definition daily_row :: "cumulative_point list \<Rightarrow> nat \<times> daily_point \<Rightarrow> csv_value list result" where
  "daily_row cum ip =
    (case ip of (i, p) \<Rightarrow>
      bindE (formatDecimalBDT (pt_paisa p)) (\<lambda>paisa.
      Inr [CsvText (pt_day p), CsvNumber (pt_orders p), CsvNumber (pt_tickets p), CsvText paisa,
        CsvNumber (if i < length cum then cp_cumulative (cum ! i) else 0)]))"

definition OVERVIEW_HEADER :: "jstr list" where
  "OVERVIEW_HEADER = map lit
    [''event'', ''status'', ''starts_dhaka'', ''seats'', ''sold'', ''held'', ''revenue_bdt'', ''verified_orders'',
     ''pending_bdt'', ''pending_orders'']"

definition overview_csv_row :: "(instant \<Rightarrow> jstr) \<Rightarrow> event_overview_row \<Rightarrow> csv_value list result" where
  "overview_csv_row fmt r =
    bindE (formatDecimalBDT (ew_revenuePaisa r)) (\<lambda>revenue.
    bindE (formatDecimalBDT (ew_pendingPaisa r)) (\<lambda>pending.
    Inr [CsvText (e_title (ew_event r)), CsvText (EVENT_STATUS_LABELS (e_status (ew_event r))),
      CsvText (fmt (e_startsAt (ew_event r))), CsvNumber (ew_total r), CsvNumber (ew_sold r), CsvNumber (ew_held r),
      CsvText revenue, CsvNumber (ew_revenueOrders r), CsvText pending, CsvNumber (ew_pendingOrders r)]))"

definition SUMMARY_HEADER :: "jstr list" where
  "SUMMARY_HEADER = map lit
    [''ticket_type'', ''unit_price_bdt'', ''seats'', ''sold'', ''held'', ''available'', ''verified_orders'', ''revenue_bdt'',
     ''discounts_bdt'', ''complimentary'']"

definition seats_available :: "ticket_type_report \<Rightarrow> int" where
  "seats_available t = max 0 (ts_quantityTotal t - ts_quantitySold t - ts_quantityReserved t)"

definition summary_row :: "ticket_type_report \<Rightarrow> csv_value list result" where
  "summary_row t =
    bindE (formatDecimalBDT (ts_pricePaisa t)) (\<lambda>price.
    bindE (formatDecimalBDT (ts_revenuePaisa t)) (\<lambda>revenue.
    bindE (formatDecimalBDT (ts_discountPaisa t)) (\<lambda>discounts.
    Inr [CsvText (ts_name t), CsvText price, CsvNumber (ts_quantityTotal t), CsvNumber (ts_quantitySold t),
      CsvNumber (ts_quantityReserved t), CsvNumber (seats_available t), CsvNumber (ts_orderCount t),
      CsvText revenue, CsvText discounts, CsvNumber (ts_compTickets t)])))"

definition total_row :: "sales_report \<Rightarrow> csv_value list result" where
  "total_row rp =
    (let total = (\<lambda>f. CsvNumber (sum_list (map f (rp_byTicketType rp))))
     in bindE (formatDecimalBDT (rp_revenuePaisa rp)) (\<lambda>revenue.
        bindE (formatDecimalBDT (rp_discountPaisa rp)) (\<lambda>discounts.
        Inr [CsvText (lit ''Total''), CsvText [], total ts_quantityTotal, total ts_quantitySold, total ts_quantityReserved,
          total seats_available, total ts_orderCount, CsvText revenue, CsvText discounts,
          CsvNumber (rp_compTickets rp)])))"

definition reports_csv ::
  "(instant \<Rightarrow> jstr) \<Rightarrow> report_section \<Rightarrow> event_overview_row list \<Rightarrow> sales_report \<Rightarrow> jstr result" where
  "reports_csv fmt sheet rows rp =
    (case sheet of
       DailySheet \<Rightarrow>
         map_sum id (toCsv DAILY_HEADER)
           (all_ok (map (daily_row (cu_points (rp_cumulative rp))) (List.enumerate 0 (sr_points (rp_daily rp)))))
     | OverviewSheet \<Rightarrow> map_sum id (toCsv OVERVIEW_HEADER) (all_ok (map (overview_csv_row fmt) rows))
     | SummarySheet \<Rightarrow>
         map_sum id (toCsv SUMMARY_HEADER) (all_ok (map summary_row (rp_byTicketType rp) @ [total_row rp])))"

section \<open>ics.ts\<close>

record ics_input =
  ic_code :: jstr
  ic_eventTitle :: jstr
  ic_venue :: "jstr option"
  ic_startsAt :: instant
  ic_endsAt :: "instant option"
  ic_url :: jstr
  ic_attendeeName :: jstr

definition ICS_DEFAULT_DURATION_HOURS :: int where "ICS_DEFAULT_DURATION_HOURS = 3"

text \<open>\<open>toISOString\<close> ends in \<open>.\<close>, three digits and \<open>Z\<close>, which the second replacement turns into \<open>Z\<close>.\<close>

definition stamp :: "instant \<Rightarrow> jstr" where
  "stamp d = (let t = filter (\<lambda>c. c \<noteq> 45 \<and> c \<noteq> 58) (toISOString d) in take (length t - 5) t @ [90])"

definition replace_unit :: "nat \<Rightarrow> jstr \<Rightarrow> jstr \<Rightarrow> jstr" where
  "replace_unit u r s = concat (map (\<lambda>c. if c = u then r else [c]) s)"

definition esc :: "jstr \<Rightarrow> jstr" where
  "esc s = replace_unit 10 [92, 110] (replace_unit 44 [92, 44] (replace_unit 59 [92, 59] (replace_unit 92 [92, 92] s)))"

text \<open>The characters of a string, a pair of surrogates as one (\<open>for (const ch of line)\<close>), and their bytes.\<close>

fun code_points :: "jstr \<Rightarrow> jstr list" where
  "code_points [] = []"
| "code_points [c] = [[c]]"
| "code_points (c # d # s) =
    (if 55296 \<le> c \<and> c \<le> 56319 \<and> 56320 \<le> d \<and> d \<le> 57343 then [c, d] # code_points s
     else [c] # code_points (d # s))"

definition utf8_bytes :: "jstr \<Rightarrow> nat" where
  "utf8_bytes ch =
    (case ch of
       [c] \<Rightarrow> if c < 128 then 1 else if c < 2048 then 2 else 3
     | _ \<Rightarrow> 4)"

text \<open>The loop of \<open>fold\<close>: the parts so far, the current one and its bytes.\<close>

fun fold_parts :: "jstr list \<Rightarrow> jstr \<Rightarrow> nat \<Rightarrow> jstr list \<Rightarrow> jstr list" where
  "fold_parts parts current bytes [] = parts @ [current]"
| "fold_parts parts current bytes (ch # chs) =
    (let n = utf8_bytes ch; limit = (if parts = [] then 75 else 74)
     in if bytes + n > limit then fold_parts (parts @ [current]) ch n chs
        else fold_parts parts (current @ ch) (bytes + n) chs)"

definition fold_line :: "jstr \<Rightarrow> jstr" where
  "fold_line line =
    (case fold_parts [] [] 0 (code_points line) of
       p # ps \<Rightarrow> join_texts [13, 10] (p # map (\<lambda>q. 32 # q) ps)
     | [] \<Rightarrow> [])"

definition ics_lines :: "ics_input \<Rightarrow> instant \<Rightarrow> jstr list" where
  "ics_lines i now =
    (let finish = (case ic_endsAt i of Some t \<Rightarrow> t | None \<Rightarrow> ic_startsAt i + ICS_DEFAULT_DURATION_HOURS * 3600000)
     in [lit ''BEGIN:VCALENDAR'', lit ''VERSION:2.0'', lit ''PRODID:-//echoandaura//tickets//EN'',
         lit ''CALSCALE:GREGORIAN'', lit ''METHOD:PUBLISH'', lit ''BEGIN:VEVENT'',
         lit ''UID:'' @ ic_code i @ lit ''@echoandaura'',
         lit ''DTSTAMP:'' @ stamp now,
         lit ''DTSTART:'' @ stamp (ic_startsAt i),
         lit ''DTEND:'' @ stamp finish,
         lit ''SUMMARY:'' @ esc (ic_eventTitle i)] @
        (case ic_venue i of Some v \<Rightarrow> if v = [] then [] else [lit ''LOCATION:'' @ esc v] | None \<Rightarrow> []) @
        [lit ''DESCRIPTION:'' @ esc (lit ''Ticket '' @ ic_code i @ lit '' for '' @ ic_attendeeName i @
           lit ''. Show the name and code at the door.'' @ [10] @ ic_url i),
         lit ''URL:'' @ ic_url i,
         lit ''END:VEVENT'',
         lit ''END:VCALENDAR''])"

definition buildTicketIcs :: "ics_input \<Rightarrow> instant \<Rightarrow> jstr" where
  "buildTicketIcs i now = join_texts [13, 10] (map fold_line (ics_lines i now)) @ [13, 10]"

section \<open>A reader of calendar entries\<close>

text \<open>A line break and one space is a fold; lines end in CRLF.\<close>

fun unfold_lines :: "jstr \<Rightarrow> jstr" where
  "unfold_lines (a # b # c # s) =
    (if a = 13 \<and> b = 10 \<and> c = 32 then unfold_lines s else a # unfold_lines (b # c # s))"
| "unfold_lines s = s"

fun split_lines :: "jstr \<Rightarrow> jstr list" where
  "split_lines (a # b # s) =
    (if a = 13 \<and> b = 10 then [] # split_lines s
     else (case split_lines (b # s) of l # ls \<Rightarrow> (a # l) # ls | [] \<Rightarrow> [[a]]))"
| "split_lines s = (if s = [] then [] else [s])"

fun unescape :: "jstr \<Rightarrow> jstr" where
  "unescape (a # b # s) =
    (if a = 92 then (if b = 110 then 10 else b) # unescape s else a # unescape (b # s))"
| "unescape s = s"

text \<open>The value of the first line with a name.\<close>

definition ics_value :: "string \<Rightarrow> jstr \<Rightarrow> jstr option" where
  "ics_value name file =
    (let p = lit name @ [58]
     in map_option (drop (length p)) (List.find (\<lambda>l. take (length p) l = p) (split_lines (unfold_lines file))))"

lemma unescape_unit:
  "unescape (concat (map (\<lambda>c. if c = 92 then [92, 92] else if c = 59 then [92, 59] else if c = 44 then [92, 44]
    else if c = 10 then [92, 110] else [c]) s)) = s"
proof (induction s)
  case (Cons c s)
  show ?case
  proof (cases "c \<in> {92, 59, 44, 10}")
    case False
    then show ?thesis
      using Cons by (cases "concat (map (\<lambda>c. if c = 92 then [92, 92] else if c = 59 then [92, 59] else if c = 44 then [92, 44]
        else if c = 10 then [92, 110] else [c]) s)") simp_all
  qed (use Cons in auto)
qed simp

lemma esc_units:
  "esc s = concat (map (\<lambda>c. if c = 92 then [92, 92] else if c = 59 then [92, 59] else if c = 44 then [92, 44]
    else if c = 10 then [92, 110] else [c]) s)"
  by (induction s) (simp_all add: esc_def replace_unit_def)

lemma unescape_esc: "unescape (esc s) = s"
  unfolding esc_units by (rule unescape_unit)

lemma esc_no_newline: "10 \<notin> set (esc s)"
  unfolding esc_units by (induction s) auto

end
