(* ===== verification/DownloadClaims.thy ===== *)
theory DownloadClaims
  imports Downloads DeskClaims
begin

text \<open>
  The guarantees of the downloads: a sheet or a calendar entry, read by the rules of its format,
  gives back what was written, whatever the texts in it hold.
\<close>

section \<open>Folding\<close>

definition octets :: "jstr \<Rightarrow> nat" where
  "octets s = sum_list (map utf8_bytes (code_points s))"

lemma concat_code_points: "concat (code_points s) = s"
  by (induction s rule: code_points.induct) simp_all

lemma code_point_shape: "ch \<in> set (code_points s) \<Longrightarrow> octets ch \<le> utf8_bytes ch \<and> utf8_bytes ch \<le> 4"
  by (induction s rule: code_points.induct) (auto simp: octets_def utf8_bytes_def split: if_splits)

lemma octets_unit: "octets (c # s) \<le> utf8_bytes [c] + octets s"
proof (cases s)
  case (Cons d t)
  show ?thesis
  proof (cases "55296 \<le> c \<and> c \<le> 56319 \<and> 56320 \<le> d \<and> d \<le> 57343")
    case True
    then have "code_points (d # t) = [d] # code_points t" by (cases t) auto
    then show ?thesis using True Cons by (simp add: octets_def utf8_bytes_def)
  qed (auto simp: Cons octets_def)
qed (simp add: octets_def)

lemma octets_append: "octets (a @ b) \<le> octets a + octets b"
proof (induction a rule: code_points.induct)
  case (2 c)
  then show ?case using octets_unit [of c b] by (simp add: octets_def)
next
  case (3 c d s)
  then show ?case by (auto simp: octets_def)
qed (simp add: octets_def)

definition parts_fit :: "jstr list \<Rightarrow> bool" where
  "parts_fit ps \<longleftrightarrow> (\<forall>p \<in> set (tl ps). octets p \<le> 74) \<and> (ps \<noteq> [] \<longrightarrow> octets (hd ps) \<le> 75)"

lemma parts_fit_snoc:
  "parts_fit ps \<Longrightarrow> octets p \<le> (if ps = [] then 75 else 74) \<Longrightarrow> parts_fit (ps @ [p])"
  by (cases ps) (auto simp: parts_fit_def)

lemma fold_parts_fit:
  assumes "parts_fit parts" "octets current \<le> bytes" "bytes \<le> (if parts = [] then 75 else 74)"
    "\<forall>ch \<in> set chs. octets ch \<le> utf8_bytes ch \<and> utf8_bytes ch \<le> 4"
  shows "parts_fit (fold_parts parts current bytes chs)"
  using assms
proof (induction parts current bytes chs rule: fold_parts.induct)
  case (1 parts current bytes)
  then show ?case by (auto intro!: parts_fit_snoc)
next
  case (2 parts current bytes ch chs)
  let ?n = "utf8_bytes ch" and ?limit = "if parts = [] then 75 else 74 :: nat"
  show ?case
  proof (cases "bytes + ?n > ?limit")
    case True
    have "parts_fit (parts @ [current])" using 2(3-5) by (intro parts_fit_snoc) auto
    then have "parts_fit (fold_parts (parts @ [current]) ch ?n chs)"
      using 2(1) [OF refl refl True] 2(6) by auto
    then show ?thesis using True by (simp add: Let_def)
  next
    case False
    have "octets (current @ ch) \<le> bytes + ?n" using octets_append [of current ch] 2(4,6) by fastforce
    then have "parts_fit (fold_parts parts (current @ ch) (bytes + ?n) chs)"
      using 2(2) [OF refl refl False] 2(3,6) False by auto
    then show ?thesis using False by (simp add: Let_def)
  qed
qed

lemma fold_parts_concat: "concat (fold_parts parts current bytes chs) = concat parts @ current @ concat chs"
  by (induction parts current bytes chs rule: fold_parts.induct) (simp_all add: Let_def)

lemma fold_parts_nonempty: "fold_parts parts current bytes chs \<noteq> []"
  by (induction parts current bytes chs rule: fold_parts.induct) (simp_all add: Let_def)

text \<open>The physical lines of a content line.\<close>

definition physical :: "jstr \<Rightarrow> jstr list" where
  "physical l = (case fold_parts [] [] 0 (code_points l) of p # ps \<Rightarrow> p # map (\<lambda>q. 32 # q) ps | [] \<Rightarrow> [])"

lemma physical_parts:
  obtains p ps where "physical l = p # map (\<lambda>q. 32 # q) ps" "fold_line l = join_texts [13, 10] (physical l)"
    "l = p @ concat ps" "octets p \<le> 75" "\<forall>q \<in> set ps. octets q \<le> 74"
proof -
  obtain p ps where ps: "fold_parts [] [] 0 (code_points l) = p # ps"
    using fold_parts_nonempty by (cases "fold_parts [] [] 0 (code_points l)") blast+
  have "parts_fit (p # ps)" unfolding ps [symmetric]
    by (rule fold_parts_fit) (auto simp: parts_fit_def octets_def dest: code_point_shape)
  moreover have "l = p @ concat ps"
    using fold_parts_concat [of "[]" "[]" 0 "code_points l"] by (simp add: ps concat_code_points)
  moreover have "physical l = p # map (\<lambda>q. 32 # q) ps" "fold_line l = join_texts [13, 10] (physical l)"
    by (simp_all add: physical_def fold_line_def ps)
  ultimately show thesis using that [of p ps] by (simp only: parts_fit_def list.sel) blast
qed

lemma physical_short: "q \<in> set (physical l) \<Longrightarrow> octets q \<le> 75"
proof -
  assume q: "q \<in> set (physical l)"
  obtain p ps where p: "physical l = p # map (\<lambda>q. 32 # q) ps" "octets p \<le> 75" "\<forall>q \<in> set ps. octets q \<le> 74"
    by (rule physical_parts)
  have "octets (32 # r) \<le> Suc (octets r)" for r using octets_unit [of 32 r] by (simp add: utf8_bytes_def)
  then have "octets (32 # r) \<le> 75" if "r \<in> set ps" for r using p(3) that order_trans by fastforce
  then show ?thesis using p(1,2) q by auto
qed

lemma joined_lines: "ls \<noteq> [] \<Longrightarrow> join_texts [13, 10] ls @ [13, 10] = concat (map (\<lambda>l. l @ [13, 10]) ls)"
proof (induction ls)
  case (Cons l ls)
  then show ?case by (cases ls) (simp_all add: join_texts_Cons, simp add: join_texts_def)
qed simp

section \<open>Reading the lines\<close>

lemma split_line: "10 \<notin> set l \<Longrightarrow> split_lines (l @ 13 # 10 # t) = l # split_lines t"
proof (induction l)
  case (Cons a l)
  have "split_lines (a # (l @ 13 # 10 # t)) =
    (case split_lines (l @ 13 # 10 # t) of m # ms \<Rightarrow> (a # m) # ms | [] \<Rightarrow> [[a]])"
    using Cons(2) by (cases l) auto
  then show ?case using Cons by simp
qed simp

lemma split_all: "\<forall>l \<in> set ls. 10 \<notin> set l \<Longrightarrow> split_lines (concat (map (\<lambda>l. l @ [13, 10]) ls)) = ls"
  by (induction ls) (simp_all add: split_line)

lemma unfold_fold: "10 \<notin> set p \<Longrightarrow> unfold_lines (p @ 13 # 10 # 32 # t) = p @ unfold_lines t"
proof (induction p)
  case (Cons a p)
  have "unfold_lines (a # (p @ 13 # 10 # 32 # t)) = a # unfold_lines (p @ 13 # 10 # 32 # t)"
    using Cons(2) by (cases p; cases "tl p") auto
  then show ?case using Cons by simp
qed simp

lemma unfold_end: "10 \<notin> set p \<Longrightarrow> t = [] \<or> hd t \<noteq> 32 \<Longrightarrow> unfold_lines (p @ 13 # 10 # t) = p @ 13 # 10 # unfold_lines t"
proof (induction p)
  case Nil
  then show ?case by (cases t; cases "tl t") auto
next
  case (Cons a p)
  have "unfold_lines (a # (p @ 13 # 10 # t)) = a # unfold_lines (p @ 13 # 10 # t)"
    using Cons(2) by (cases p; cases "tl p") auto
  then show ?case using Cons by simp
qed

lemma unfold_line:
  assumes "10 \<notin> set l" "t = [] \<or> hd t \<noteq> 32"
  shows "unfold_lines (fold_line l @ 13 # 10 # t) = l @ 13 # 10 # unfold_lines t"
proof -
  obtain p ps where p: "physical l = p # map (\<lambda>q. 32 # q) ps" "fold_line l = join_texts [13, 10] (physical l)"
    "l = p @ concat ps"
    by (rule physical_parts)
  have "10 \<notin> set p" "\<forall>q \<in> set ps. 10 \<notin> set q" using assms(1) p(3) by auto
  then have "unfold_lines (join_texts [13, 10] (p # map (\<lambda>q. 32 # q) ps) @ 13 # 10 # t) =
    p @ concat ps @ 13 # 10 # unfold_lines t"
  proof (induction ps arbitrary: p)
    case Nil
    then show ?case using unfold_end assms(2) by (simp add: join_texts_def)
  next
    case (Cons q ps)
    have e: "join_texts [13, 10] (p # map (\<lambda>q. 32 # q) (q # ps)) @ 13 # 10 # t =
      p @ 13 # 10 # 32 # (join_texts [13, 10] (q # map (\<lambda>q. 32 # q) ps) @ 13 # 10 # t)"
      by (simp add: join_texts_def)
    show ?case unfolding e using Cons unfold_fold by simp
  qed
  then show ?thesis unfolding p(2) p(1) by (simp add: p(3))
qed

text \<open>The file: its physical lines, and its content lines once unfolded.\<close>

lemma file_lines:
  assumes "ls \<noteq> []" "\<forall>l \<in> set ls. 10 \<notin> set l" "\<forall>l \<in> set ls. l \<noteq> [] \<and> hd l \<noteq> 32"
  defines "file \<equiv> join_texts [13, 10] (map fold_line ls) @ [13, 10]"
  shows "split_lines file = concat (map physical ls)" "split_lines (unfold_lines file) = ls"
proof -
  have doc: "file = concat (map (\<lambda>l. fold_line l @ [13, 10]) ls)"
    using joined_lines [of "map fold_line ls"] assms(1) by (simp add: file_def o_def)
  have "fold_line l @ [13, 10] = concat (map (\<lambda>p. p @ [13, 10]) (physical l))" for l
  proof -
    obtain p ps where p: "physical l = p # map (\<lambda>q. 32 # q) ps" "fold_line l = join_texts [13, 10] (physical l)"
      by (rule physical_parts)
    then show ?thesis using joined_lines [of "physical l"] by simp
  qed
  then have "file = concat (map (\<lambda>p. p @ [13, 10]) (concat (map physical ls)))"
    unfolding doc by (induction ls) simp_all
  moreover have "\<forall>p \<in> set (concat (map physical ls)). 10 \<notin> set p"
  proof -
    have "10 \<notin> set q" if "q \<in> set (physical l)" "l \<in> set ls" for l q
    proof -
      obtain p ps where p: "physical l = p # map (\<lambda>q. 32 # q) ps" "l = p @ concat ps" by (rule physical_parts)
      then show ?thesis using that assms(2) by auto
    qed
    then show ?thesis by auto
  qed
  ultimately show "split_lines file = concat (map physical ls)" using split_all by simp
  have "unfold_lines (concat (map (\<lambda>l. fold_line l @ [13, 10]) ls)) = concat (map (\<lambda>l. l @ [13, 10]) ls) \<and>
    (concat (map (\<lambda>l. fold_line l @ [13, 10]) ls) = [] \<or> hd (concat (map (\<lambda>l. fold_line l @ [13, 10]) ls)) \<noteq> 32)"
    using assms(2,3)
  proof (induction ls)
    case (Cons l ls)
    obtain p ps where p: "physical l = p # map (\<lambda>q. 32 # q) ps" "fold_line l = join_texts [13, 10] (physical l)"
      "l = p @ concat ps" "octets p \<le> 75"
      by (rule physical_parts)
    have "hd (fold_line l @ [13, 10]) \<noteq> 32"
    proof (cases "p = []")
      case True
      then show ?thesis using p(1,2) by (cases ps) (simp_all add: join_texts_def)
    next
      case False
      then show ?thesis using p Cons(3) by (cases ps) (simp_all add: join_texts_def)
    qed
    then have "hd (fold_line l @ 13 # 10 # concat (map (\<lambda>l. fold_line l @ [13, 10]) ls)) \<noteq> 32"
      by (cases "fold_line l") simp_all
    then show ?case using Cons unfold_line [of l] by simp
  qed simp
  then show "split_lines (unfold_lines file) = ls" using split_all assms(2) by (simp add: doc)
qed

section \<open>Calendar entries\<close>

lemma stamp_no_newline: "10 \<notin> set (stamp d)"
proof -
  have d: "10 \<notin> set (decimal n)" for n using decimal_digits by (fastforce simp: is_digit_def)
  obtain y m dd where "civil_from_days (d div 86400000) = (y, m, dd)" by (metis prod.collapse)
  then have "10 \<notin> set (toISOString d)" using d by (auto simp: toISOString_def Let_def two_def pad_to_def lit_def)
  then show ?thesis by (auto simp: stamp_def Let_def dest: in_set_takeD)
qed

lemma ics_lines_plain:
  assumes "10 \<notin> set (ic_code i)" "10 \<notin> set (ic_url i)"
  shows "\<forall>l \<in> set (ics_lines i now). 10 \<notin> set l" "\<forall>l \<in> set (ics_lines i now). l \<noteq> [] \<and> hd l \<noteq> 32"
  using assms esc_no_newline stamp_no_newline
  by (auto simp: ics_lines_def Let_def split: option.splits)

text \<open>C40: A ticket's calendar entry says what the ticket says. Read as RFC 5545 asks (lines unfolded,
  text unescaped), it is one event whose title, venue, description, code, link and start are those
  of the ticket, whatever characters the texts hold, line breaks, commas and backslashes
  included: no text can add a line of its own. Every physical line has at most 75 octets of
  UTF-8.\<close>

theorem calendar_reads_back:
  assumes "10 \<notin> set (ic_code i)" "10 \<notin> set (ic_url i)"
  shows "map_option unescape (ics_value ''SUMMARY'' (buildTicketIcs i now)) = Some (ic_eventTitle i) \<and>
    map_option unescape (ics_value ''LOCATION'' (buildTicketIcs i now)) = (if falsy (ic_venue i) then None else ic_venue i) \<and>
    map_option unescape (ics_value ''DESCRIPTION'' (buildTicketIcs i now)) =
      Some (lit ''Ticket '' @ ic_code i @ lit '' for '' @ ic_attendeeName i @
        lit ''. Show the name and code at the door.'' @ [10] @ ic_url i) \<and>
    ics_value ''UID'' (buildTicketIcs i now) = Some (ic_code i @ lit ''@echoandaura'') \<and>
    ics_value ''URL'' (buildTicketIcs i now) = Some (ic_url i) \<and>
    ics_value ''DTSTART'' (buildTicketIcs i now) = Some (stamp (ic_startsAt i)) \<and>
    split_lines (unfold_lines (buildTicketIcs i now)) = ics_lines i now \<and>
    length (filter (\<lambda>l. l = lit ''BEGIN:VEVENT'') (split_lines (unfold_lines (buildTicketIcs i now)))) = 1 \<and>
    (\<forall>l \<in> set (split_lines (buildTicketIcs i now)). octets l \<le> 75)"
proof -
  have ne: "ics_lines i now \<noteq> []" by (simp add: ics_lines_def Let_def)
  note doc = file_lines [OF ne ics_lines_plain [OF assms], folded buildTicketIcs_def]
  have short: "\<forall>l \<in> set (split_lines (buildTicketIcs i now)). octets l \<le> 75"
    using physical_short by (auto simp: doc(1))
  show ?thesis
    using short unescape_esc
    by (auto simp: ics_value_def doc(2) ics_lines_def Let_def falsy_def split: option.splits)
qed

theorem calendar_reads_back_witness:
  "map_option unescape (ics_value ''SUMMARY'' (buildTicketIcs
     \<lparr>ic_code = lit ''TKT-AAAAAAAA'', ic_eventTitle = [2437, 44] @ lit ''Night'' @ [10] @ lit ''END:VEVENT'', ic_venue = None,
      ic_startsAt = 0, ic_endsAt = None, ic_url = lit ''https://x.y/t'', ic_attendeeName = lit ''Rai''\<rparr> 7)) =
   Some ([2437, 44] @ lit ''Night'' @ [10] @ lit ''END:VEVENT'')"
  using calendar_reads_back [of "\<lparr>ic_code = lit ''TKT-AAAAAAAA'',
      ic_eventTitle = [2437, 44] @ lit ''Night'' @ [10] @ lit ''END:VEVENT'', ic_venue = None,
      ic_startsAt = 0, ic_endsAt = None, ic_url = lit ''https://x.y/t'', ic_attendeeName = lit ''Rai''\<rparr>" 7]
  by simp

section \<open>Sheets\<close>

lemma all_ok_Inr:
  "all_ok xs = Inr ys \<Longrightarrow> length ys = length xs \<and> (\<forall>k < length xs. xs ! k = Inr (ys ! k))"
proof (induction xs arbitrary: ys)
  case (Cons x xs)
  then obtain y zs where "x = Inr y" "all_ok xs = Inr zs" "ys = y # zs" by (auto simp: bindE_Inr)
  then show ?case using Cons.IH [of zs] by (auto simp: nth_Cons split: nat.splits)
qed simp

lemma all_ok_width:
  assumes "all_ok (map f xs) = Inr ys" "\<forall>x y. f x = Inr y \<longrightarrow> length y = n" "r \<in> set ys"
  shows "length r = n"
  using all_ok_Inr [OF assms(1)] assms(2,3) by (auto simp: in_set_conv_nth)

lemma orders_row_width: "orders_export_row fmt q = Inr cells \<Longrightarrow> length cells = 14"
  by (auto simp: orders_export_row_def Let_def bindE_Inr)

lemma report_row_widths:
  "daily_row cum ip = Inr cells \<Longrightarrow> length cells = 5"
  "overview_csv_row fmt r = Inr cells \<Longrightarrow> length cells = 10"
  "summary_row t = Inr cells \<Longrightarrow> length cells = 10"
  "total_row rp = Inr cells \<Longrightarrow> length cells = 10"
  by (auto simp: daily_row_def overview_csv_row_def summary_row_def total_row_def Let_def bindE_Inr split: prod.splits)

lemma header_widths:
  "length ORDERS_HEADER = 14" "length DAILY_HEADER = 5" "length OVERVIEW_HEADER = 10" "length SUMMARY_HEADER = 10"
  by (simp_all add: ORDERS_HEADER_def DAILY_HEADER_def OVERVIEW_HEADER_def SUMMARY_HEADER_def)

lemma sheet_width:
  assumes "length header = n" "0 < n" "\<forall>r \<in> set rows. length r = n"
  shows "\<forall>r \<in> set (readCsv (toCsv header rows)). length r = length (hd (readCsv (toCsv header rows)))"
proof -
  have "header \<noteq> []" "\<forall>r \<in> set rows. r \<noteq> []" using assms by auto
  from toCsv_reads_back [OF this] show ?thesis using assms by auto
qed

lemma reports_width:
  assumes "reports_csv fmt sheet rows rp = Inr file"
  shows "\<forall>r \<in> set (readCsv file). length r = length (hd (readCsv file))"
proof (cases sheet)
  case SummarySheet
  obtain body where b: "all_ok (map summary_row (rp_byTicketType rp) @ [total_row rp]) = Inr body"
    "file = toCsv SUMMARY_HEADER body"
    using assms SummarySheet by (cases "all_ok (map summary_row (rp_byTicketType rp) @ [total_row rp])")
      (auto simp: reports_csv_def)
  have "\<forall>r \<in> set body. length r = 10"
  proof
    fix r assume "r \<in> set body"
    then obtain k where k: "k < length body" "r = body ! k" by (auto simp: in_set_conv_nth)
    note ok = all_ok_Inr [OF b(1)]
    then have "(map summary_row (rp_byTicketType rp) @ [total_row rp]) ! k = Inr r" using k by auto
    then show "length r = 10"
      using k ok report_row_widths(3,4) by (cases "k < length (rp_byTicketType rp)") (auto simp: nth_append)
  qed
  then show ?thesis unfolding b(2) by (intro sheet_width [OF header_widths(4)]) simp_all
next
  case DailySheet
  let ?f = "daily_row (cu_points (rp_cumulative rp))" and ?xs = "List.enumerate 0 (sr_points (rp_daily rp))"
  obtain body where b: "all_ok (map ?f ?xs) = Inr body" "file = toCsv DAILY_HEADER body"
    using assms DailySheet by (cases "all_ok (map ?f ?xs)") (auto simp: reports_csv_def)
  have "\<forall>r \<in> set body. length r = 5" using all_ok_width [OF b(1)] report_row_widths(1) by blast
  then show ?thesis unfolding b(2) by (intro sheet_width [OF header_widths(2)]) simp_all
next
  case OverviewSheet
  obtain body where b: "all_ok (map (overview_csv_row fmt) rows) = Inr body" "file = toCsv OVERVIEW_HEADER body"
    using assms OverviewSheet by (cases "all_ok (map (overview_csv_row fmt) rows)") (auto simp: reports_csv_def)
  have "\<forall>r \<in> set body. length r = 10" using all_ok_width [OF b(1)] report_row_widths(2) by blast
  then show ?thesis unfolding b(2) by (intro sheet_width [OF header_widths(3)]) simp_all
qed

text \<open>C39: An exported sheet reads back as it was written, by the rules of RFC 4180, whatever people
  typed into the texts in it. The orders sheet is its header and one line for every exported
  order, in order, each with the fourteen cells of that order (and one line more that says the
  sheet was cut off, if it was); in every sheet of the reports all lines have the width of the
  header, so no text shifts a column; and a text cell is the text itself or the text behind an
  apostrophe, and never starts with a character a spreadsheet would run as a formula.\<close>

theorem sheets_read_back:
  assumes "orders_csv rank to_filter fmt inp s = Inr file" "reports_csv day sheet rows rp = Inr report"
  shows "(\<exists>rest. readCsv file = ORDERS_HEADER # rest \<and>
      length rest = length (op_rows (exportOrders rank to_filter inp s)) +
        (if op_total (exportOrders rank to_filter inp s) > ORDERS_EXPORT_CAP then 1 else 0) \<and>
      (\<forall>k < length (op_rows (exportOrders rank to_filter inp s)). \<exists>cells.
        orders_export_row fmt (op_rows (exportOrders rank to_filter inp s) ! k) = Inr cells \<and> length cells = 14 \<and>
        rest ! k = map csv_safe cells)) \<and>
    (\<forall>row \<in> set (readCsv report). length row = length (hd (readCsv report))) \<and>
    (\<forall>t. \<not> formula_start (csv_safe (CsvText t)) \<and> csv_safe (CsvText t) \<in> {t, 39 # t})"
proof (intro conjI)
  let ?page = "exportOrders rank to_filter inp s"
  obtain body extra where b: "all_ok (map (orders_export_row fmt) (op_rows ?page)) = Inr body"
    "file = toCsv ORDERS_HEADER (body @ extra)" "length extra = (if op_total ?page > ORDERS_EXPORT_CAP then 1 else 0)"
    "\<forall>r \<in> set extra. r \<noteq> []"
    using assms(1) by (auto simp: orders_csv_def Let_def bindE_Inr)
  note ok = all_ok_Inr [OF b(1)]
  have w: "\<forall>r \<in> set body. length r = 14" using all_ok_width [OF b(1)] orders_row_width by blast
  then have "\<forall>r \<in> set (body @ extra). r \<noteq> []" using b(4) by auto
  moreover have "ORDERS_HEADER \<noteq> []" using header_widths(1) by auto
  moreover have "map csv_safe (map CsvText ORDERS_HEADER) = ORDERS_HEADER"
    by (simp add: ORDERS_HEADER_def csv_safe_def formula_start_def)
  ultimately have "readCsv file = ORDERS_HEADER # map (map csv_safe) (body @ extra)"
    using toCsv_reads_back [of ORDERS_HEADER "body @ extra"] b(2) by simp
  moreover have "\<forall>k < length (op_rows ?page). orders_export_row fmt (op_rows ?page ! k) = Inr (body ! k) \<and>
      length (body ! k) = 14 \<and> map (map csv_safe) (body @ extra) ! k = map csv_safe (body ! k)"
    using ok w by (auto simp: nth_append)
  ultimately show "\<exists>rest. readCsv file = ORDERS_HEADER # rest \<and>
      length rest = length (op_rows ?page) + (if op_total ?page > ORDERS_EXPORT_CAP then 1 else 0) \<and>
      (\<forall>k < length (op_rows ?page). \<exists>cells. orders_export_row fmt (op_rows ?page ! k) = Inr cells \<and> length cells = 14 \<and>
        rest ! k = map csv_safe cells)"
    using ok b(3) by auto
qed (use reports_width [OF assms(2)] csv_safe_text in auto)

theorem sheets_read_back_witness:
  "\<exists>file. orders_csv (\<lambda>_. 0) (toSearchFilter id (\<lambda>_. 0) id) (\<lambda>t. decimal (nat t)) PAGED_INPUT SOLD_DB = Inr file \<and>
    length (readCsv file) = 5 \<and> hd (readCsv file) = ORDERS_HEADER"
proof -
  let ?page = "exportOrders (\<lambda>_. 0) (toSearchFilter id (\<lambda>_. 0) id) PAGED_INPUT SOLD_DB"
  let ?rp = "undefined :: sales_report"
  have n: "length (op_rows ?page) = 4" "op_total ?page = 4" by code_simp+
  have "case all_ok (map (orders_export_row (\<lambda>t. decimal (nat t))) (op_rows ?page)) of Inr b \<Rightarrow> True | Inl e \<Rightarrow> False"
    by code_simp
  then obtain body where "all_ok (map (orders_export_row (\<lambda>t. decimal (nat t))) (op_rows ?page)) = Inr body"
    by (auto split: sum.splits)
  then obtain sheet where f: "orders_csv (\<lambda>_. 0) (toSearchFilter id (\<lambda>_. 0) id) (\<lambda>t. decimal (nat t)) PAGED_INPUT SOLD_DB = Inr sheet"
    by (auto simp: orders_csv_def Let_def)
  have "reports_csv (\<lambda>t. []) OverviewSheet [] ?rp = Inr (toCsv OVERVIEW_HEADER [])" by (simp add: reports_csv_def)
  from sheets_read_back [OF f this] obtain rest where "readCsv sheet = ORDERS_HEADER # rest" "length rest = 4"
    using n by (auto simp: ORDERS_EXPORT_CAP_def)
  then show ?thesis using f by auto
qed

end
