(* ===== verification/Spec2Isabelle.thy ===== *)
theory Spec2Isabelle
  imports OrderClaims DoorClaims SystemClaims RelayClaims PhoneClaims CodeClaims RelayHostClaims
    RelayLinkClaims DeskClaims LogoClaims DownloadClaims
begin

text \<open>
  A verification library for the Echo and Aura ticketing platform: a web shop that sells tickets
  of events by manual bKash payments, an admin desk that approves them, phones at the doors that
  check tickets in with and without signal, and a relay that passes the check-ins of one gate
  on to the others.

  \<^bold>\<open>The parts and how they meet.\<close> Services (\<open>src/src/server/services\<close>) run transactions over
  repositories (\<open>src/src/server/repositories\<close>) on one PostgreSQL database
  (\<open>src/src/db/schema.ts\<close>); pure rules live in \<open>src/src/server/lib\<close>. A door phone
  (\<open>src/src/app/door\<close>) keeps a list of digests, answers scans by itself when it must, queues them
  in an outbox and sends them to the door service later. The gate relay (\<open>src/relay/src\<close>) keeps
  one room per event in a Durable Object: phones hold a socket to it and claim their check-ins
  there, the server announces what it confirmed, undid or revoked.

  \<^bold>\<open>Theories and code.\<close>
  \<^item> \<open>Prelude\<close> holds the transactions (\<open>Inl\<close> an error, \<open>Inr\<close> a result and the new store), tables as
    lists of rows and their lemmas. \<open>JsText\<close>, \<open>IsoDate\<close>, \<open>DateText\<close>: JavaScript strings as lists
    of UTF-16 units, \<open>digits.ts\<close>, \<open>attendee-name.ts\<close>, \<open>toISOString\<close> and \<open>Date.parse\<close>.
  \<^item> \<open>Errors\<close>, \<open>Money\<close>, \<open>StatusRules\<close>, \<open>SaleRules\<close>, \<open>Codes\<close>, \<open>ScanTokens\<close>: the rules of \<open>lib\<close>
    (errors, constraint names, money, pricing, promo, order and event status, sale windows,
    references, ticket and pass codes, scanned texts). \<open>FixedWindow\<close>: the contract of a
    fixed-window counter.
  \<^item> \<open>Database\<close>: a record per table, their constraints as \<open>db_ok\<close>, which every commit checks.
    \<open>Inventory\<close>, \<open>Repositories\<close>, \<open>DoorStore\<close>: the statements of the repositories.
  \<^item> \<open>Orders\<close>, \<open>Fulfilment\<close>, \<open>TicketService\<close>, \<open>Catalogue\<close>, \<open>Covers\<close>, \<open>PromoAdmin\<close>, \<open>Sponsors\<close>,
    \<open>Door\<close>, \<open>DoorDesk\<close>, \<open>DoorOffline\<close>: the services, every operation with its guards in the order of
    the code. \<open>Ledger\<close>, \<open>OrderBooks\<close>, \<open>Expiry\<close> show that every order service keeps four books in
    agreement (seats, tickets, transaction ids, trails).
  \<^item> \<open>Forms\<close>, \<open>OrderSearch\<close>: what people type (\<open>validation/orders.ts\<close>, \<open>orders-search.ts\<close>,
    \<open>table-sort.ts\<close>) and the orders list of the desk. \<open>Days\<close>, \<open>JsNumber\<close>, \<open>SalesReport\<close>, \<open>Reports\<close>:
    calendar days as texts, doubles where the code divides, \<open>sales-report.ts\<close>, and the queries,
    report, overview and dashboard (\<open>reports.repository.ts\<close>, \<open>reports.service.ts\<close>,
    \<open>dashboard.service.ts\<close>). \<open>SalesBooks\<close>, \<open>ReportRules\<close>, \<open>ReportLaws\<close>: the book that gives every
    paid-for order one approval row, why all figures are sums over the same orders, and why the
    report returns.
  \<^item> \<open>Laws\<close>, \<open>System\<close>, \<open>SystemLaws\<close>, \<open>Lasting\<close>, \<open>SystemBooks\<close>, \<open>DoorBooks\<close>, \<open>PassBooks\<close>: the whole
    server as the relation \<open>run\<close> over any sequence of service calls, and the laws it keeps.
  \<^item> \<open>PhoneRules\<close>, \<open>DoorPhone\<close>, \<open>PhoneLaws\<close>, \<open>PhoneSync\<close>: the door phone (\<open>offline/rules.ts\<close>,
    \<open>offline/store.ts\<close>, \<open>offline/use-offline.ts\<close>) as operations on one record, as the relation
    \<open>phone_run\<close> over any interleaving of them, and its sending loop. \<open>RelayLink\<close>: \<open>use-relay.ts\<close>.
  \<^item> \<open>Relay\<close>, \<open>RelayLaws\<close>, \<open>RelayCatchUp\<close>, \<open>RelayRules\<close>: the room (\<open>room.ts\<close>). \<open>RelayHost\<close>: the
    worker and the Durable Object (\<open>index.ts\<close>) and what a relay pass must carry
    (\<open>relay-pass.ts\<close>).
  \<^item> \<open>LogoText\<close>, \<open>LogoScreen\<close>, \<open>LogoImage\<close>: the inspection of an uploaded logo (\<open>sponsor-logo.ts\<close>,
    \<open>sponsor-logo-key.ts\<close>), down to characters, doubles and bytes. \<open>LogoRules\<close> says what an accepted SVG
    is, as a grammar and a list of rules, and shows that the screen accepts nothing else;
    \<open>LogoShapes\<close> bounds the sides. \<open>SponsorDesk\<close>: the sponsor service with its storage calls and
    the file gate of the form; \<open>SponsorBooks\<close> shows that rows and stored objects stay together.
  \<^item> \<open>Downloads\<close>: CSV sheets (\<open>csv.ts\<close>, the export routes of the orders and the reports) and calendar
    entries (\<open>ics.ts\<close>), each with a reader written from the standard of its format.
  \<^item> \<open>OrderClaims\<close>, \<open>DoorClaims\<close>, \<open>SystemClaims\<close>, \<open>RelayClaims\<close>, \<open>PhoneClaims\<close>, \<open>CodeClaims\<close>,
    \<open>RelayHostClaims\<close>, \<open>RelayLinkClaims\<close>, \<open>DeskClaims\<close>, \<open>LogoClaims\<close>,
    \<open>DownloadClaims\<close>: the properties, numbered \<open>C1\<close>, \<open>C2\<close>, ..., each followed by its instance on the samples of \<open>Samples\<close>, \<open>DoorSamples\<close> and \<open>PhoneSamples\<close>.

  \<^bold>\<open>Interfaces.\<close> \<open>seat_counters\<close> (four counter operations, interpreted by the inventory
  repository); \<open>ranked_table\<close> (a status table that only climbs, by the order machine);
  \<open>side_law\<close>, \<open>gate_law\<close>, \<open>order_law\<close>, \<open>repository_law\<close> (a law of the store every repository
  statement keeps: then every service keeps it), \<open>service_law\<close> (then every run keeps it),
  \<open>statement_law\<close> (one statement at a time), interpreted by the table constraints, the
  append-only logs, the lasting terms, the books and the book of sales; \<open>check_in_law\<close> (laws about check-ins, by the
  door's book and by the passes that stay out); \<open>fixed_window\<close> (by the relay's message budget).

  \<^bold>\<open>How the state is read.\<close> A transaction is one atomic step on the store: it commits whole or
  leaves the store as it was. What a service reads before its transaction comes from an arbitrary
  older store \<open>snap\<close>; the one transaction that spans several statements while other gates commit
  (admitting at the door) takes their effect as an arbitrary \<open>env\<close>. Clocks, generated ids, random
  draws and codes are arguments: \<open>ts\<close> is the database's time, \<open>now\<close> and \<open>at\<close> a server's or phone's
  clock in milliseconds, \<open>rcv\<close> the time a scan arrived. Hooks that run after a commit (mails,
  queue jobs) do not touch the store and are left out; the announcements of the door to the relay
  are part of its results. A phone's operation is what runs between two awaits; its queued
  writes land one by one, in order, and opening the page again loses those still under way.

  \<^bold>\<open>Bounds.\<close> Retries of a clashing reference or code are as many as the code makes (\<open>attempts\<close> counts
  down). The expiry job ends by a measure on the lapsed orders. The catch-up of a room needs one
  page per thousand rows, so fuel above \<open>length rows div 1000\<close> is enough, and the properties that
  use it prove that it then answers. \<open>sendOutbox\<close> is total: every round that goes on removes
  scans from the outbox. The day loop of the report takes fuel above the days of its window; the
  report property takes it above the days its moments span plus the ninety of the longest range
  and proves that it then returns. Day texts are those of the years 0 to 9999.

  \<^bold>\<open>Parameters.\<close> SHA-256, HMAC, base64 and JSON decoding, strict UTF-8 decoding, collation and
  Unicode lower-casing, the HTML sanitiser, date formatting, the Dhaka calendar, the median of a
  query, slugs, storage URLs, what the object storage reports and whether a storage call succeeds
  are arguments of the definitions that use them; properties assume nothing of them beyond what
  their statements say.

  \<^bold>\<open>Not modelled.\<close> React components, pages, route handlers and styling; mail, PDF, queue,
  object-storage and authentication code, which hand their work to third-party libraries;
  health checks and settings; text formatting helpers; seeds, drills and deployment
  scripts; the documentation site. In modelled services: the display order of the check-in list
  (locale-aware collation) and signing a relay pass. Of a PNG only the header is read, as in the
  code. Of the forms: the schema plumbing and the registration form as a whole.
\<close>

end
